(* ===== verification/Prelude.thy ===== *)
theory Prelude
  imports Main "HOL-Library.Word" "HOL-Library.Monad_Syntax"
begin

text \<open>
  Shared vocabulary of the development: the machine-integer types of the C sources, the kernel's
  error numbers, the panic monad in which \<open>al_assert\<close> (that is \<open>BUG_ON\<close>) lives, and the generic
  facts on words, powers of two and option binds that the component theories use.  Everything
  here is independent of the Alpine code except \<open>al_assert\<close> and the error numbers.
\<close>

unbundle bit_operations_syntax

subsection \<open>Integer types, pointers, errors\<close>

type_synonym u8 = "8 word"
type_synonym u16 = "16 word"
type_synonym u32 = "32 word"
type_synonym u64 = "64 word"

text \<open>C pointers and MMIO addresses are byte addresses; \<open>0\<close> is \<open>NULL\<close>.\<close>

type_synonym ptr = nat

abbreviation (input) NULL :: ptr where
  "NULL \<equiv> 0"

text \<open>
  Error numbers the modelled functions return (negated) to their callers.  A C status of type
  \<open>int\<close> that is either \<open>0\<close> or \<open>-errno\<close> is a value of type \<open>rc\<close>.
\<close>

datatype errno =
  EIO | ENOMEM | EFAULT | ENODEV | EINVAL | ENOTTY | ENOSPC | ETIME | EPROBE_DEFER | ETIMEDOUT
| ENOTSUPP | ENOENT | EOTHER

datatype rc = RcOk | RcErr errno

text \<open>
  \<open>al_assert(COND)\<close> expands to \<open>BUG_ON(!(COND))\<close>: the kernel stops.  A computation that may hit an
  assertion returns an option, with \<^term>\<open>None\<close> for the panic.
\<close>

definition al_assert :: "bool \<Rightarrow> unit option" where
  "al_assert c = (if c then Some () else None)"

lemma al_assert_simps [simp]:
  "al_assert True = Some ()" "al_assert False = None"
  by (simp_all add: al_assert_def)

lemma al_assert_eq_Some [simp]: "al_assert c = Some u \<longleftrightarrow> c"
  by (simp add: al_assert_def)

lemma al_assert_eq_None [simp]: "al_assert c = None \<longleftrightarrow> \<not> c"
  by (simp add: al_assert_def)

lemma al_assert_bind_Some [simp]: "Option.bind (al_assert c) f = Some r \<longleftrightarrow> c \<and> f () = Some r"
  by (simp add: al_assert_def)

lemma al_assert_bind_None [simp]: "Option.bind (al_assert c) f = None \<longleftrightarrow> (c \<longrightarrow> f () = None)"
  by (simp add: al_assert_def)

subsection \<open>Collections of facts\<close>

named_theorems word_bits \<open>bit-level facts on words used by all register code\<close>
named_theorems reg_field \<open>reading a field of an updated register value\<close>
named_theorems reg_off \<open>register offsets and field masks\<close>

subsection \<open>Words\<close>

lemma word_eq_zeroI_bits: "(\<And>n. \<not> bit x n) \<Longrightarrow> x = 0" for x :: "'a::len word"
  by (rule bit_word_eqI) simp

lemma disjoint_maskD: "m AND m' = 0 \<Longrightarrow> bit m n \<Longrightarrow> \<not> bit m' n" for m :: "'a::len word"
  by (metis bit_0_eq bit_and_iff bot_apply bot_bool_def)

lemma sub_maskD: "m AND m' = m' \<Longrightarrow> bit m' n \<Longrightarrow> bit m n" for m :: "'a::len word"
  by (metis bit_and_iff)

lemma ucast_and_mask:
  "LENGTH('a) \<le> n \<Longrightarrow> ucast (x :: 'a::len word) AND mask n = (ucast x :: 'b::len word)"
  by (rule bit_word_eqI) (auto simp: bit_simps dest: bit_imp_le_length)

lemma u8_and_255 [simp]: "ucast (x :: u8) AND (0xFF :: u32) = ucast x"
  using ucast_and_mask [where n = 8 and 'b = 32, of x] by (simp add: mask_eq_exp_minus_1)

lemma u16_and_65535 [simp]: "ucast (x :: u16) AND (0xFFFF :: u32) = ucast x"
  using ucast_and_mask [where n = 16 and 'b = 32, of x] by (simp add: mask_eq_exp_minus_1)

lemma unat_and_mask: "unat (x AND mask k) = unat x mod 2 ^ k"
  by (simp only: take_bit_eq_mask [symmetric] unsigned_take_bit_eq take_bit_nat_def)

lemma drop_push: "drop_bit s (push_bit s v) = take_bit (LENGTH('a) - s) (v :: 'a::len word)"
  by (rule bit_word_eqI) (auto simp: bit_simps)

lemma drop_push_ucast:
  "LENGTH('b) + s \<le> LENGTH('a) \<Longrightarrow>
     drop_bit s (push_bit s (ucast (v :: 'b::len word)) :: 'a::len word) = ucast v"
  by (rule bit_word_eqI) (auto simp: bit_simps dest: bit_imp_le_length)

lemma drop_push_u8 [simp]: "s \<le> 24 \<Longrightarrow> drop_bit s (push_bit s (ucast (v :: u8)) :: u32) = ucast v"
  by (rule drop_push_ucast) simp

lemma drop_push_u16 [simp]: "s \<le> 16 \<Longrightarrow> drop_bit s (push_bit s (ucast (v :: u16)) :: u32) = ucast v"
  by (rule drop_push_ucast) simp

lemma and_or_distrib: "(x OR y) AND z = (x AND z) OR (y AND (z :: 'a::len word))"
  by (rule bit_word_eqI) (auto simp: bit_simps)

lemma ucast_and: "ucast (x AND y) = ucast x AND (ucast y :: 'b::len word)" for x :: "'a::len word"
  by (rule bit_word_eqI) (auto simp: bit_simps)

lemma ucast_u8_u32_u8 [simp]: "ucast (ucast (x :: u8) :: u32) = x"
  by (rule bit_word_eqI) (auto simp: bit_simps dest: bit_imp_le_length)

lemma ucast_u16_u32_u16 [simp]: "ucast (ucast (x :: u16) :: u32) = x"
  by (rule bit_word_eqI) (auto simp: bit_simps dest: bit_imp_le_length)

lemma unat_ucast_up: "LENGTH('a) \<le> LENGTH('b) \<Longrightarrow> unat (ucast (x :: 'a::len word) :: 'b::len word) = unat x"
  by (simp add: unsigned_ucast_eq take_bit_nat_eq_self_iff
      order.strict_trans2 [OF unsigned_less power_increasing])

lemma unat_ucast_u16_u32 [simp]: "unat (ucast (x :: u16) :: u32) = unat x"
  by (rule unat_ucast_up) simp

lemma unat_ucast_u8_u32 [simp]: "unat (ucast (x :: u8) :: u32) = unat x"
  by (rule unat_ucast_up) simp

subsection \<open>Bounded polling\<close>

text \<open>
  The remaining time of a loop \<open>while (t) { if (P(j)) break; t--; j++; }\<close>: the shape of every timeout
  loop of the sources.  Zero means that the time ran out.
\<close>

fun poll_time :: "(nat \<Rightarrow> bool) \<Rightarrow> nat \<Rightarrow> nat \<Rightarrow> nat" where
  "poll_time P j 0 = 0"
| "poll_time P j (Suc t) = (if P j then Suc t else poll_time P (Suc j) t)"

lemma poll_time_hit: "P (j + i) \<Longrightarrow> \<forall>i'<i. \<not> P (j + i') \<Longrightarrow> i < t \<Longrightarrow> poll_time P j t = t - i"
proof (induction i arbitrary: j t)
  case 0
  then show ?case by (cases t) auto
next
  case (Suc i)
  then obtain t' where t: "t = Suc t'" by (cases t) auto
  have "\<not> P j" using Suc.prems(2) by (auto dest: spec [of _ 0])
  moreover have "poll_time P (Suc j) t' = t' - i"
    using Suc.prems t by (intro Suc.IH) auto
  ultimately show ?case by (simp add: t)
qed

lemma poll_time_zero: "poll_time P j t = 0 \<longleftrightarrow> (\<forall>i<t. \<not> P (j + i))"
proof (induction t arbitrary: j)
  case (Suc t)
  then show ?case by (auto simp: less_Suc_eq_0_disj)
qed simp

lemma poll_time_pos:
  assumes "0 < poll_time P 0 t"
  obtains i where "P i" "\<forall>i'<i. \<not> P i'" "i < t" "poll_time P 0 t = t - i"
proof -
  from assms obtain i where i: "i < t" "P i" using poll_time_zero [of P 0 t] by auto
  obtain l where l: "P l" "\<forall>i'<l. \<not> P i'"
    using exists_least_iff [of P] i(2) by blast
  have "l < t" using l(2) i by (metis le_less_trans linorder_not_le)
  moreover have "poll_time P 0 t = t - l"
    by (rule poll_time_hit) (use l \<open>l < t\<close> in simp_all)
  ultimately show thesis by (intro that [of l] l) assumption+
qed

subsection \<open>Powers of two\<close>

lemma unat_pow2: "k < LENGTH('a) \<Longrightarrow> unat (2 ^ k :: 'a::len word) = 2 ^ k"
  using unsigned_of_nat [where 'b = 'a and 'a = nat, of "2 ^ k"]
  by (simp add: take_bit_nat_eq_self_iff)

lemma unat_incr: "unat (x + 1) = unat x + 1 \<or> x + 1 = 0" for x :: "'a::len word"
  by (metis Suc_eq_plus1 add.commute unatSuc)

text \<open>The test \<open>n & (n - 1)\<close> that the queue initialisation uses to recognise powers of two.\<close>

lemma pow2_and_pred: "0 < n \<Longrightarrow> n AND (n - 1) = 0 \<Longrightarrow> \<exists>k. n = 2 ^ k" for n :: nat
proof (induction n rule: less_induct)
  case (less n)
  show ?case
  proof (cases "even n")
    case True
    then obtain m where m: "n = 2 * m" by blast
    with less.prems have pos: "0 < m" by simp
    then obtain j where j: "m = Suc j" by (cases m) auto
    have "n AND (n - 1) = 2 * (m AND (m - 1))"
      using m j by (subst and_rec) simp
    with less.prems have "m AND (m - 1) = 0" by simp
    moreover have "m < n" using m pos by simp
    ultimately obtain k where "m = 2 ^ k" using less.IH pos by blast
    with m show ?thesis by (metis power_Suc)
  next
    case False
    then obtain m where m: "n = 2 * m + 1" by (metis oddE)
    have "n AND (n - 1) = 2 * m" unfolding m by (subst and_rec) simp
    with less.prems m have "n = 2 ^ 0" by simp
    then show ?thesis by blast
  qed
qed

lemma pow2_and_pred_eq: "(2 ^ k AND (2 ^ k - 1)) = (0 :: nat)"
proof -
  have "(2 ^ k AND mask k) = (0 :: nat)"
    by (simp only: take_bit_eq_mask [symmetric]) simp
  then show ?thesis by (simp only: mask_eq_exp_minus_1)
qed

end
