(* ===== verification/Reg_Utils.thy ===== *)
theory Reg_Utils
  imports Prelude
begin

text \<open>
  Register access (\<open>al_hal_plat_services.h\<close>, \<open>al_hal_reg_utils.h\<close>).  A register space is a total map
  from byte addresses to 32-bit values together with the log of the writes issued to it, oldest
  first: the map is what a later read of a configuration register returns, the log is what the
  device sees (several writes to one doorbell register are several entries).  The interface that
  client code relies on is the locale \<open>reg_space\<close>; read-modify-write code is reasoned about in it
  once and for all.
\<close>

subsection \<open>Register spaces\<close>

record mmio =
  regs :: "ptr \<Rightarrow> u32"
  wlog :: "(ptr \<times> u32) list"

definition al_reg_read32 :: "mmio \<Rightarrow> ptr \<Rightarrow> u32" where
  "al_reg_read32 m a = regs m a"

definition al_reg_write32 :: "mmio \<Rightarrow> ptr \<Rightarrow> u32 \<Rightarrow> mmio" where
  "al_reg_write32 m a v = m\<lparr>regs := (regs m)(a := v), wlog := wlog m @ [(a, v)]\<rparr>"

definition al_reg_write32_relaxed :: "mmio \<Rightarrow> ptr \<Rightarrow> u32 \<Rightarrow> mmio" where
  "al_reg_write32_relaxed m a v = al_reg_write32 m a v"

subsection \<open>Field macros\<close>

definition AL_BIT :: "nat \<Rightarrow> 'a::len word" where
  "AL_BIT b = push_bit b 1"

definition AL_ADDR_LOW :: "u64 \<Rightarrow> u32" where
  "AL_ADDR_LOW x = ucast x"

definition AL_ADDR_HIGH :: "u64 \<Rightarrow> u32" where
  "AL_ADDR_HIGH x = ucast (drop_bit 16 (drop_bit 16 x))"

definition AL_REG_FIELD_GET :: "'a::len word \<Rightarrow> 'a word \<Rightarrow> nat \<Rightarrow> 'a word" where
  "AL_REG_FIELD_GET reg msk shift = drop_bit shift (reg AND msk)"

definition AL_REG_FIELD_SET :: "'a::len word \<Rightarrow> 'a word \<Rightarrow> nat \<Rightarrow> 'a word \<Rightarrow> 'a word" where
  "AL_REG_FIELD_SET reg msk shift val = (reg AND NOT msk) OR (push_bit shift val AND msk)"

definition AL_REG_BIT_GET :: "'a::len word \<Rightarrow> nat \<Rightarrow> 'a word" where
  "AL_REG_BIT_GET reg shift = AL_REG_FIELD_GET reg (AL_BIT shift) shift"

definition AL_REG_BITS_FIELD :: "nat \<Rightarrow> 'a::len word \<Rightarrow> 'a word" where
  "AL_REG_BITS_FIELD shift val = push_bit shift val"

definition AL_REG_BIT_VAL_SET :: "'a::len word \<Rightarrow> nat \<Rightarrow> 'a word \<Rightarrow> 'a word" where
  "AL_REG_BIT_VAL_SET reg shift val = AL_REG_FIELD_SET reg (AL_BIT shift) shift val"

definition AL_REG_BIT_SET :: "'a::len word \<Rightarrow> nat \<Rightarrow> 'a word" where
  "AL_REG_BIT_SET reg shift = AL_REG_BIT_VAL_SET reg shift 1"

definition AL_REG_BIT_CLEAR :: "'a::len word \<Rightarrow> nat \<Rightarrow> 'a word" where
  "AL_REG_BIT_CLEAR reg shift = AL_REG_BIT_VAL_SET reg shift 0"

definition AL_BIT_MASK :: "nat \<Rightarrow> 'a::len word" where
  "AL_BIT_MASK n = AL_BIT n - 1"

definition AL_FIELD_MASK :: "nat \<Rightarrow> nat \<Rightarrow> 'a::len word" where
  "AL_FIELD_MASK msb lsb = AL_BIT msb + AL_BIT_MASK msb - AL_BIT_MASK lsb"

definition AL_REG_MASK_SET_VAL :: "'a::len word \<Rightarrow> 'a word \<Rightarrow> bool \<Rightarrow> 'a word" where
  "AL_REG_MASK_SET_VAL reg msk val = (if val then reg OR msk else reg AND NOT msk)"

definition AL_REG_MASK_IS_SET :: "'a::len word \<Rightarrow> 'a word \<Rightarrow> bool" where
  "AL_REG_MASK_IS_SET reg msk \<longleftrightarrow> reg AND msk \<noteq> 0"

definition AL_REG_MASK_CLEAR :: "'a::len word \<Rightarrow> 'a word \<Rightarrow> 'a word" where
  "AL_REG_MASK_CLEAR reg msk = AL_REG_MASK_SET_VAL reg msk False"

definition AL_REG_MASK_SET :: "'a::len word \<Rightarrow> 'a word \<Rightarrow> 'a word" where
  "AL_REG_MASK_SET reg msk = AL_REG_MASK_SET_VAL reg msk True"

definition AL_REG_CLEAR_AND_SET :: "'a::len word \<Rightarrow> 'a word \<Rightarrow> 'a word \<Rightarrow> 'a word" where
  "AL_REG_CLEAR_AND_SET reg clear_mask set_mask = (reg AND NOT clear_mask) OR set_mask"

definition AL_ALIGN_UP :: "'a::len word \<Rightarrow> 'a word \<Rightarrow> 'a word" where
  "AL_ALIGN_UP val sz = sz * ((val + sz - 1) div sz)"

definition AL_MASK_VAL :: "'a::len word \<Rightarrow> 'a word \<Rightarrow> 'a word \<Rightarrow> 'a word" where
  "AL_MASK_VAL msk data background = (msk AND data) OR (NOT msk AND background)"

definition AL_REG_FIELD_RANGE_VALID :: "'a::len word \<Rightarrow> 'a word \<Rightarrow> nat \<Rightarrow> bool" where
  "AL_REG_FIELD_RANGE_VALID val msk shift \<longleftrightarrow> val \<le> drop_bit shift msk"

definition al_reg_write32_masked :: "mmio \<Rightarrow> ptr \<Rightarrow> u32 \<Rightarrow> u32 \<Rightarrow> mmio" where
  "al_reg_write32_masked m reg msk data =
     (let temp = al_reg_read32 m reg in al_reg_write32 m reg (AL_MASK_VAL msk data temp))"

subsection \<open>Reading back fields of an updated register value\<close>

lemma field_get_set_same [reg_field]:
  "AL_REG_FIELD_SET r m s v AND m = push_bit s v AND m"
  unfolding AL_REG_FIELD_SET_def by (rule bit_word_eqI) (auto simp: bit_simps)

lemma field_get_set_other [reg_field]:
  "m AND m' = 0 \<Longrightarrow> AL_REG_FIELD_SET r m s v AND m' = r AND m'"
  unfolding AL_REG_FIELD_SET_def by (rule bit_word_eqI) (auto simp: bit_simps dest: disjoint_maskD sub_maskD)

lemma clear_and_set_same [reg_field]:
  "AL_REG_CLEAR_AND_SET r m (v AND m) AND m = v AND m"
  unfolding AL_REG_CLEAR_AND_SET_def by (rule bit_word_eqI) (auto simp: bit_simps)

lemma clear_and_set_other [reg_field]:
  "m AND m' = 0 \<Longrightarrow> AL_REG_CLEAR_AND_SET r m (v AND m) AND m' = r AND m'"
  unfolding AL_REG_CLEAR_AND_SET_def by (rule bit_word_eqI) (auto simp: bit_simps dest: disjoint_maskD sub_maskD)

lemma mask_set_val_same [reg_field]:
  "AL_REG_MASK_SET_VAL r m b AND m = (if b then m else 0)"
  unfolding AL_REG_MASK_SET_VAL_def by (rule bit_word_eqI) (auto simp: bit_simps)

lemma mask_set_val_other [reg_field]:
  "m AND m' = 0 \<Longrightarrow> AL_REG_MASK_SET_VAL r m b AND m' = r AND m'"
  unfolding AL_REG_MASK_SET_VAL_def by (rule bit_word_eqI) (auto simp: bit_simps dest: disjoint_maskD sub_maskD)

lemma mask_val_same [reg_field]: "AL_MASK_VAL m d b AND m = d AND m"
  unfolding AL_MASK_VAL_def by (rule bit_word_eqI) (auto simp: bit_simps)

lemma mask_val_sub [reg_field]: "m AND m' = m' \<Longrightarrow> AL_MASK_VAL m d b AND m' = d AND m'"
  unfolding AL_MASK_VAL_def by (rule bit_word_eqI) (auto simp: bit_simps dest: disjoint_maskD sub_maskD)

lemma mask_val_other [reg_field]: "m AND m' = 0 \<Longrightarrow> AL_MASK_VAL m d b AND m' = b AND m'"
  unfolding AL_MASK_VAL_def by (rule bit_word_eqI) (auto simp: bit_simps dest: disjoint_maskD sub_maskD)

subsection \<open>Field masks\<close>

lemma AL_BIT_eq: "AL_BIT b = 2 ^ b"
  by (simp add: AL_BIT_def push_bit_eq_mult)

lemma bit_AL_BIT [bit_simps]: "bit (AL_BIT b :: 'a::len word) n \<longleftrightarrow> n = b \<and> b < LENGTH('a)"
  by (auto simp: AL_BIT_def bit_simps)

lemma AL_BIT_MASK_eq: "AL_BIT_MASK n = mask n"
  by (simp add: AL_BIT_MASK_def AL_BIT_eq mask_eq_exp_minus_1)

lemma AL_FIELD_MASK_eq:
  assumes "lsb \<le> msb" "msb < LENGTH('a)"
  shows "(AL_FIELD_MASK msb lsb :: 'a::len word) = push_bit lsb (mask (Suc msb - lsb))"
proof -
  have "(AL_FIELD_MASK msb lsb :: 'a word) = 2 ^ Suc msb - 2 ^ lsb"
    by (simp add: AL_FIELD_MASK_def AL_BIT_MASK_eq AL_BIT_eq mask_eq_exp_minus_1)
  moreover have "push_bit lsb (mask (Suc msb - lsb)) = (2 ^ lsb * (2 ^ (Suc msb - lsb) - 1) :: 'a word)"
    by (simp add: push_bit_eq_mult mask_eq_exp_minus_1 mult.commute)
  moreover have "(2 :: 'a word) ^ lsb * 2 ^ (Suc msb - lsb) = 2 ^ Suc msb"
    using assms by (simp flip: power_add)
  ultimately show ?thesis by (simp only: right_diff_distrib mult_1_right)
qed

lemma bit_AL_FIELD_MASK [bit_simps]:
  "lsb \<le> msb \<Longrightarrow> msb < LENGTH('a) \<Longrightarrow>
     bit (AL_FIELD_MASK msb lsb :: 'a::len word) n \<longleftrightarrow> lsb \<le> n \<and> n \<le> msb"
  by (auto simp: AL_FIELD_MASK_eq bit_simps)

lemma drop_AL_FIELD_MASK:
  "lsb \<le> msb \<Longrightarrow> msb < LENGTH('a) \<Longrightarrow>
     drop_bit lsb (AL_FIELD_MASK msb lsb :: 'a::len word) = mask (Suc msb - lsb)"
  by (rule bit_word_eqI) (auto simp: bit_simps)

lemma le_mask_and: "v \<le> mask k \<Longrightarrow> v AND mask k = (v :: 'a::len word)"
proof -
  assume "v \<le> mask k"
  then have "unat v \<le> unat (mask k AND mask k :: 'a word)"
    by (simp add: word_le_nat_alt)
  then have "unat v < 2 ^ k"
    by (simp only: unat_and_mask) (rule le_less_trans, assumption, simp)
  then show ?thesis
    by (simp add: word_unat_eq_iff unat_and_mask)
qed

subsection \<open>The interface of a register space\<close>

locale reg_space =
  fixes rd :: "'s \<Rightarrow> ptr \<Rightarrow> u32" and wr :: "'s \<Rightarrow> ptr \<Rightarrow> u32 \<Rightarrow> 's"
  assumes rd_wr_same: "rd (wr s a v) a = v"
    and rd_wr_other: "a \<noteq> b \<Longrightarrow> rd (wr s a v) b = rd s b"
begin

lemma rd_wr: "rd (wr s a v) b = (if a = b then v else rd s b)"
  by (simp add: rd_wr_same rd_wr_other)

lemma rmw_masked: "rd (wr s a (AL_MASK_VAL m d (rd s a))) a AND m = d AND m"
  by (simp add: rd_wr_same mask_val_same)

lemma rmw_unmasked: "m AND m' = 0 \<Longrightarrow> rd (wr s a (AL_MASK_VAL m d (rd s a))) a AND m' = rd s a AND m'"
  by (simp add: rd_wr_same mask_val_other)

lemma rd_fold_notin:
  "a \<notin> fst ` set ws \<Longrightarrow> rd (fold (\<lambda>(a, v) s. wr s a v) ws s) a = rd s a"
  by (induction ws arbitrary: s) (auto simp: rd_wr_other)

lemma rd_fold_in:
  "distinct (map fst ws) \<Longrightarrow> (a, v) \<in> set ws \<Longrightarrow> rd (fold (\<lambda>(a, v) s. wr s a v) ws s) a = v"
proof (induction ws arbitrary: s)
  case Nil
  then show ?case by simp
next
  case (Cons w ws)
  show ?case
  proof (cases "(a, v) \<in> set ws")
    case True
    with Cons show ?thesis by (cases w) auto
  next
    case False
    with Cons.prems have w: "w = (a, v)" by auto
    with Cons.prems have a: "a \<notin> fst ` set ws" by simp
    show ?thesis using rd_fold_notin [OF a] by (simp add: w rd_wr_same)
  qed
qed

end

interpretation mmio_space: reg_space al_reg_read32 al_reg_write32
  by unfold_locales (auto simp: al_reg_read32_def al_reg_write32_def)

lemmas al_reg_rw [simp] = mmio_space.rd_wr

lemma wlog_write [simp]: "wlog (al_reg_write32 m a v) = wlog m @ [(a, v)]"
  by (simp add: al_reg_write32_def)

lemma wlog_masked [simp]:
  "wlog (al_reg_write32_masked m a k d) = wlog m @ [(a, AL_MASK_VAL k d (al_reg_read32 m a))]"
  by (simp add: al_reg_write32_masked_def)

lemma read_masked [simp]:
  "al_reg_read32 (al_reg_write32_masked m a k d) b =
     (if a = b then AL_MASK_VAL k d (al_reg_read32 m a) else al_reg_read32 m b)"
  by (simp add: al_reg_write32_masked_def)

subsection \<open>Properties\<close>

text \<open>
  A value that fits a bit field reads back unchanged after \<open>AL_REG_FIELD_SET\<close>, and every field
  whose mask is disjoint keeps its value, for every contiguous field \<open>msb:lsb\<close> of a register.
\<close>

theorem field_set_get_roundtrip:
  fixes reg val :: "'a::len word"
  assumes "lsb \<le> msb" "msb < LENGTH('a)"
    and "AL_REG_FIELD_RANGE_VALID val (AL_FIELD_MASK msb lsb) lsb"
  shows "AL_REG_FIELD_GET (AL_REG_FIELD_SET reg (AL_FIELD_MASK msb lsb) lsb val) (AL_FIELD_MASK msb lsb) lsb = val \<and>
    (\<forall>m s. AL_FIELD_MASK msb lsb AND m = 0 \<longrightarrow>
       AL_REG_FIELD_GET (AL_REG_FIELD_SET reg (AL_FIELD_MASK msb lsb) lsb val) m s = AL_REG_FIELD_GET reg m s)"
proof
  have fits: "val AND mask (Suc msb - lsb) = val"
    using assms by (intro le_mask_and) (simp add: AL_REG_FIELD_RANGE_VALID_def drop_AL_FIELD_MASK)
  have "take_bit (LENGTH('a) - lsb) val AND mask (Suc msb - lsb) = val AND mask (Suc msb - lsb)"
    using assms by (intro bit_word_eqI) (auto simp: bit_simps)
  then show "AL_REG_FIELD_GET (AL_REG_FIELD_SET reg (AL_FIELD_MASK msb lsb) lsb val) (AL_FIELD_MASK msb lsb) lsb = val"
    using assms by (simp add: AL_REG_FIELD_GET_def field_get_set_same drop_push drop_AL_FIELD_MASK fits)
  show "\<forall>m s. AL_FIELD_MASK msb lsb AND m = 0 \<longrightarrow>
       AL_REG_FIELD_GET (AL_REG_FIELD_SET reg (AL_FIELD_MASK msb lsb) lsb val) m s = AL_REG_FIELD_GET reg m s"
    by (simp add: AL_REG_FIELD_GET_def field_get_set_other)
qed

theorem field_set_get_roundtrip_witness:
  "AL_REG_FIELD_GET (AL_REG_FIELD_SET (0xFFFFFFFF :: u32) (AL_FIELD_MASK 9 4) 4 0x2A) (AL_FIELD_MASK 9 4) 4 = 0x2A"
proof -
  have v: "AL_REG_FIELD_RANGE_VALID (0x2A :: u32) (AL_FIELD_MASK 9 4) 4"
    by code_simp
  show ?thesis
    using field_set_get_roundtrip [of 4 9 "0x2A :: u32" "0xFFFFFFFF"] v by simp
qed

text \<open>
  \<open>al_reg_write32_masked\<close> issues exactly one write; the written register takes the masked bits
  from \<open>data\<close> and keeps all others, and every other register is unchanged.
\<close>

theorem masked_write_effect:
  "let m' = al_reg_write32_masked m reg msk data in
     al_reg_read32 m' reg AND msk = data AND msk \<and>
     al_reg_read32 m' reg AND NOT msk = al_reg_read32 m reg AND NOT msk \<and>
     (\<forall>a. a = reg \<or> al_reg_read32 m' a = al_reg_read32 m a) \<and>
     (\<exists>v. wlog m' = wlog m @ [(reg, v)])"
  by (auto simp: Let_def mask_val_same mask_val_other)

end
