(* ===== verification/Udma_Regs.thy ===== *)
theory Udma_Regs
  imports Reg_Utils
begin

text \<open>
  Register map of a UDMA unit (\<open>al_hal_udma_regs.h\<close>, \<open>al_hal_udma_regs_m2s.h\<close>,
  \<open>al_hal_udma_regs_s2m.h\<close>, \<open>al_hal_udma_regs_gen.h\<close>).  Each C register struct is a datatype whose
  constructors are its registers (the reserved words are left out) and an offset function computed
  from the field order of the struct; a nested struct is a constructor with an argument.  The
  address \<open>&udma->udma_regs->m2s.axi_m2s.ostand_cfg\<close> is therefore
  \<open>udma_regs u + off_m2s_regs (m2s_regs_axi_m2s axi_m2s_ostand_cfg)\<close>.  The masks are the
  ones the modelled functions use.
\<close>

subsection \<open>Register structs\<close>

datatype udma_rings_regs =
   rings_cfg | rings_status | rings_drbp_low | rings_drbp_high | rings_drl | rings_drhp
  | rings_drtp_inc | rings_drtp | rings_dcp | rings_crbp_low | rings_crbp_high | rings_crhp
  | rings_crhp_internal

fun off_rings :: "udma_rings_regs \<Rightarrow> nat" where
  "off_rings rings_cfg = 0x20"
| "off_rings rings_status = 0x24"
| "off_rings rings_drbp_low = 0x28"
| "off_rings rings_drbp_high = 0x2c"
| "off_rings rings_drl = 0x30"
| "off_rings rings_drhp = 0x34"
| "off_rings rings_drtp_inc = 0x38"
| "off_rings rings_drtp = 0x3c"
| "off_rings rings_dcp = 0x40"
| "off_rings rings_crbp_low = 0x44"
| "off_rings rings_crbp_high = 0x48"
| "off_rings rings_crhp = 0x4c"
| "off_rings rings_crhp_internal = 0x50"

datatype udma_axi_m2s =
   axi_m2s_comp_wr_cfg_1 | axi_m2s_comp_wr_cfg_2 | axi_m2s_data_rd_cfg_1 | axi_m2s_data_rd_cfg_2
  | axi_m2s_desc_rd_cfg_1 | axi_m2s_desc_rd_cfg_2 | axi_m2s_data_rd_cfg | axi_m2s_desc_rd_cfg_3
  | axi_m2s_desc_wr_cfg_1 | axi_m2s_ostand_cfg

fun off_axi_m2s :: "udma_axi_m2s \<Rightarrow> nat" where
  "off_axi_m2s axi_m2s_comp_wr_cfg_1 = 0x0"
| "off_axi_m2s axi_m2s_comp_wr_cfg_2 = 0x4"
| "off_axi_m2s axi_m2s_data_rd_cfg_1 = 0x8"
| "off_axi_m2s axi_m2s_data_rd_cfg_2 = 0xc"
| "off_axi_m2s axi_m2s_desc_rd_cfg_1 = 0x10"
| "off_axi_m2s axi_m2s_desc_rd_cfg_2 = 0x14"
| "off_axi_m2s axi_m2s_data_rd_cfg = 0x18"
| "off_axi_m2s axi_m2s_desc_rd_cfg_3 = 0x1c"
| "off_axi_m2s axi_m2s_desc_wr_cfg_1 = 0x20"
| "off_axi_m2s axi_m2s_ostand_cfg = 0x24"

datatype udma_m2s =
   m2s_state | m2s_change_state | m2s_err_log_mask | m2s_log_0 | m2s_log_1 | m2s_log_2
  | m2s_log_3 | m2s_clear_err_log | m2s_data_fifo_status | m2s_header_fifo_status
  | m2s_unack_fifo_status | m2s_indirect_ctrl | m2s_sel_pref_fifo_status
  | m2s_sel_comp_fifo_status | m2s_sel_rate_limit_status | m2s_sel_dwrr_status | m2s_clear_ctrl
  | m2s_check_en | m2s_fifo_en | m2s_cfg_len | m2s_stream_cfg

fun off_m2s :: "udma_m2s \<Rightarrow> nat" where
  "off_m2s m2s_state = 0x0"
| "off_m2s m2s_change_state = 0x4"
| "off_m2s m2s_err_log_mask = 0xc"
| "off_m2s m2s_log_0 = 0x14"
| "off_m2s m2s_log_1 = 0x18"
| "off_m2s m2s_log_2 = 0x1c"
| "off_m2s m2s_log_3 = 0x20"
| "off_m2s m2s_clear_err_log = 0x24"
| "off_m2s m2s_data_fifo_status = 0x28"
| "off_m2s m2s_header_fifo_status = 0x2c"
| "off_m2s m2s_unack_fifo_status = 0x30"
| "off_m2s m2s_indirect_ctrl = 0x34"
| "off_m2s m2s_sel_pref_fifo_status = 0x38"
| "off_m2s m2s_sel_comp_fifo_status = 0x3c"
| "off_m2s m2s_sel_rate_limit_status = 0x40"
| "off_m2s m2s_sel_dwrr_status = 0x44"
| "off_m2s m2s_clear_ctrl = 0x48"
| "off_m2s m2s_check_en = 0x4c"
| "off_m2s m2s_fifo_en = 0x50"
| "off_m2s m2s_cfg_len = 0x54"
| "off_m2s m2s_stream_cfg = 0x58"

datatype udma_m2s_rd =
   m2s_rd_desc_pref_cfg_1 | m2s_rd_desc_pref_cfg_2 | m2s_rd_desc_pref_cfg_3 | m2s_rd_data_cfg

fun off_m2s_rd :: "udma_m2s_rd \<Rightarrow> nat" where
  "off_m2s_rd m2s_rd_desc_pref_cfg_1 = 0x0"
| "off_m2s_rd m2s_rd_desc_pref_cfg_2 = 0x4"
| "off_m2s_rd m2s_rd_desc_pref_cfg_3 = 0x8"
| "off_m2s_rd m2s_rd_data_cfg = 0x10"

datatype udma_m2s_dwrr =
   m2s_dwrr_cfg_sched | m2s_dwrr_ctrl_deficit_cnt

fun off_m2s_dwrr :: "udma_m2s_dwrr \<Rightarrow> nat" where
  "off_m2s_dwrr m2s_dwrr_cfg_sched = 0x0"
| "off_m2s_dwrr m2s_dwrr_ctrl_deficit_cnt = 0x4"

datatype udma_m2s_rate_limiter =
   m2s_rate_limiter_gen_cfg | m2s_rate_limiter_ctrl_cycle_cnt | m2s_rate_limiter_ctrl_token

fun off_m2s_rate_limiter :: "udma_m2s_rate_limiter \<Rightarrow> nat" where
  "off_m2s_rate_limiter m2s_rate_limiter_gen_cfg = 0x0"
| "off_m2s_rate_limiter m2s_rate_limiter_ctrl_cycle_cnt = 0x4"
| "off_m2s_rate_limiter m2s_rate_limiter_ctrl_token = 0x8"

datatype udma_rlimit_common =
   rlimit_common_cfg_1s | rlimit_common_cfg_cycle | rlimit_common_cfg_token_size_1
  | rlimit_common_cfg_token_size_2 | rlimit_common_sw_ctrl | rlimit_common_mask

fun off_rlimit_common :: "udma_rlimit_common \<Rightarrow> nat" where
  "off_rlimit_common rlimit_common_cfg_1s = 0x0"
| "off_rlimit_common rlimit_common_cfg_cycle = 0x4"
| "off_rlimit_common rlimit_common_cfg_token_size_1 = 0x8"
| "off_rlimit_common rlimit_common_cfg_token_size_2 = 0xc"
| "off_rlimit_common rlimit_common_sw_ctrl = 0x10"
| "off_rlimit_common rlimit_common_mask = 0x14"

datatype udma_m2s_comp =
   m2s_comp_cfg_1c | m2s_comp_cfg_coal | m2s_comp_cfg_application_ack

fun off_m2s_comp :: "udma_m2s_comp \<Rightarrow> nat" where
  "off_m2s_comp m2s_comp_cfg_1c = 0x0"
| "off_m2s_comp m2s_comp_cfg_coal = 0x4"
| "off_m2s_comp m2s_comp_cfg_application_ack = 0x8"

datatype udma_m2s_q =
   m2s_q_cfg | m2s_q_status | m2s_q_tdrbp_low | m2s_q_tdrbp_high | m2s_q_tdrl | m2s_q_tdrhp
  | m2s_q_tdrtp_inc | m2s_q_tdrtp | m2s_q_tdcp | m2s_q_tcrbp_low | m2s_q_tcrbp_high
  | m2s_q_tcrhp | m2s_q_tcrhp_internal | m2s_q_rlimit udma_rlimit_common | m2s_q_dwrr_cfg_1
  | m2s_q_dwrr_cfg_2 | m2s_q_dwrr_cfg_3 | m2s_q_dwrr_sw_ctrl | m2s_q_comp_cfg | m2s_q_q_sw_ctrl
  | m2s_q_q_tx_pkt

fun off_m2s_q :: "udma_m2s_q \<Rightarrow> nat" where
  "off_m2s_q m2s_q_cfg = 0x20"
| "off_m2s_q m2s_q_status = 0x24"
| "off_m2s_q m2s_q_tdrbp_low = 0x28"
| "off_m2s_q m2s_q_tdrbp_high = 0x2c"
| "off_m2s_q m2s_q_tdrl = 0x30"
| "off_m2s_q m2s_q_tdrhp = 0x34"
| "off_m2s_q m2s_q_tdrtp_inc = 0x38"
| "off_m2s_q m2s_q_tdrtp = 0x3c"
| "off_m2s_q m2s_q_tdcp = 0x40"
| "off_m2s_q m2s_q_tcrbp_low = 0x44"
| "off_m2s_q m2s_q_tcrbp_high = 0x48"
| "off_m2s_q m2s_q_tcrhp = 0x4c"
| "off_m2s_q m2s_q_tcrhp_internal = 0x50"
| "off_m2s_q (m2s_q_rlimit r) = 0x60 + off_rlimit_common r"
| "off_m2s_q m2s_q_dwrr_cfg_1 = 0x80"
| "off_m2s_q m2s_q_dwrr_cfg_2 = 0x84"
| "off_m2s_q m2s_q_dwrr_cfg_3 = 0x88"
| "off_m2s_q m2s_q_dwrr_sw_ctrl = 0x8c"
| "off_m2s_q m2s_q_comp_cfg = 0xa0"
| "off_m2s_q m2s_q_q_sw_ctrl = 0xb0"
| "off_m2s_q m2s_q_q_tx_pkt = 0xc0"

datatype udma_m2s_regs =
   m2s_regs_axi_m2s udma_axi_m2s | m2s_regs_m2s udma_m2s | m2s_regs_m2s_rd udma_m2s_rd
  | m2s_regs_m2s_dwrr udma_m2s_dwrr | m2s_regs_m2s_rate_limiter udma_m2s_rate_limiter
  | m2s_regs_m2s_stream_rate_limiter udma_rlimit_common | m2s_regs_m2s_comp udma_m2s_comp

fun off_m2s_regs :: "udma_m2s_regs \<Rightarrow> nat" where
  "off_m2s_regs (m2s_regs_axi_m2s r) = 0x100 + off_axi_m2s r"
| "off_m2s_regs (m2s_regs_m2s r) = 0x200 + off_m2s r"
| "off_m2s_regs (m2s_regs_m2s_rd r) = 0x300 + off_m2s_rd r"
| "off_m2s_regs (m2s_regs_m2s_dwrr r) = 0x340 + off_m2s_dwrr r"
| "off_m2s_regs (m2s_regs_m2s_rate_limiter r) = 0x380 + off_m2s_rate_limiter r"
| "off_m2s_regs (m2s_regs_m2s_stream_rate_limiter r) = 0x3c0 + off_rlimit_common r"
| "off_m2s_regs (m2s_regs_m2s_comp r) = 0x400 + off_m2s_comp r"

datatype udma_axi_s2m =
   axi_s2m_data_wr_cfg_1 | axi_s2m_data_wr_cfg_2 | axi_s2m_desc_rd_cfg_4 | axi_s2m_desc_rd_cfg_5
  | axi_s2m_comp_wr_cfg_1 | axi_s2m_comp_wr_cfg_2 | axi_s2m_data_wr_cfg | axi_s2m_desc_rd_cfg_3
  | axi_s2m_desc_wr_cfg_1 | axi_s2m_ostand_cfg_rd | axi_s2m_ostand_cfg_wr

fun off_axi_s2m :: "udma_axi_s2m \<Rightarrow> nat" where
  "off_axi_s2m axi_s2m_data_wr_cfg_1 = 0x0"
| "off_axi_s2m axi_s2m_data_wr_cfg_2 = 0x4"
| "off_axi_s2m axi_s2m_desc_rd_cfg_4 = 0x8"
| "off_axi_s2m axi_s2m_desc_rd_cfg_5 = 0xc"
| "off_axi_s2m axi_s2m_comp_wr_cfg_1 = 0x10"
| "off_axi_s2m axi_s2m_comp_wr_cfg_2 = 0x14"
| "off_axi_s2m axi_s2m_data_wr_cfg = 0x18"
| "off_axi_s2m axi_s2m_desc_rd_cfg_3 = 0x1c"
| "off_axi_s2m axi_s2m_desc_wr_cfg_1 = 0x20"
| "off_axi_s2m axi_s2m_ostand_cfg_rd = 0x24"
| "off_axi_s2m axi_s2m_ostand_cfg_wr = 0x28"

datatype udma_s2m =
   s2m_state | s2m_change_state | s2m_err_log_mask | s2m_log_0 | s2m_log_1 | s2m_log_2
  | s2m_log_3 | s2m_clear_err_log | s2m_s_data_fifo_status | s2m_s_header_fifo_status
  | s2m_axi_data_fifo_status | s2m_unack_fifo_status | s2m_indirect_ctrl
  | s2m_sel_pref_fifo_status | s2m_sel_comp_fifo_status | s2m_clear_ctrl | s2m_check_en
  | s2m_fifo_en | s2m_stream_cfg

fun off_s2m :: "udma_s2m \<Rightarrow> nat" where
  "off_s2m s2m_state = 0x0"
| "off_s2m s2m_change_state = 0x4"
| "off_s2m s2m_err_log_mask = 0xc"
| "off_s2m s2m_log_0 = 0x14"
| "off_s2m s2m_log_1 = 0x18"
| "off_s2m s2m_log_2 = 0x1c"
| "off_s2m s2m_log_3 = 0x20"
| "off_s2m s2m_clear_err_log = 0x24"
| "off_s2m s2m_s_data_fifo_status = 0x28"
| "off_s2m s2m_s_header_fifo_status = 0x2c"
| "off_s2m s2m_axi_data_fifo_status = 0x30"
| "off_s2m s2m_unack_fifo_status = 0x34"
| "off_s2m s2m_indirect_ctrl = 0x38"
| "off_s2m s2m_sel_pref_fifo_status = 0x3c"
| "off_s2m s2m_sel_comp_fifo_status = 0x40"
| "off_s2m s2m_clear_ctrl = 0x44"
| "off_s2m s2m_check_en = 0x48"
| "off_s2m s2m_fifo_en = 0x4c"
| "off_s2m s2m_stream_cfg = 0x50"

datatype udma_s2m_rd =
   s2m_rd_desc_pref_cfg_1 | s2m_rd_desc_pref_cfg_2 | s2m_rd_desc_pref_cfg_3
  | s2m_rd_desc_pref_cfg_4

fun off_s2m_rd :: "udma_s2m_rd \<Rightarrow> nat" where
  "off_s2m_rd s2m_rd_desc_pref_cfg_1 = 0x0"
| "off_s2m_rd s2m_rd_desc_pref_cfg_2 = 0x4"
| "off_s2m_rd s2m_rd_desc_pref_cfg_3 = 0x8"
| "off_s2m_rd s2m_rd_desc_pref_cfg_4 = 0xc"

datatype udma_s2m_wr =
   s2m_wr_data_cfg_1 | s2m_wr_data_cfg_2

fun off_s2m_wr :: "udma_s2m_wr \<Rightarrow> nat" where
  "off_s2m_wr s2m_wr_data_cfg_1 = 0x0"
| "off_s2m_wr s2m_wr_data_cfg_2 = 0x4"

datatype udma_s2m_comp =
   s2m_comp_cfg_1c | s2m_comp_cfg_2c | s2m_comp_cfg_application_ack

fun off_s2m_comp :: "udma_s2m_comp \<Rightarrow> nat" where
  "off_s2m_comp s2m_comp_cfg_1c = 0x0"
| "off_s2m_comp s2m_comp_cfg_2c = 0x4"
| "off_s2m_comp s2m_comp_cfg_application_ack = 0xc"

datatype udma_s2m_q =
   s2m_q_cfg | s2m_q_status | s2m_q_rdrbp_low | s2m_q_rdrbp_high | s2m_q_rdrl | s2m_q_rdrhp
  | s2m_q_rdrtp_inc | s2m_q_rdrtp | s2m_q_rdcp | s2m_q_rcrbp_low | s2m_q_rcrbp_high
  | s2m_q_rcrhp | s2m_q_rcrhp_internal | s2m_q_comp_cfg | s2m_q_comp_cfg_2 | s2m_q_pkt_cfg
  | s2m_q_qos_cfg | s2m_q_q_sw_ctrl | s2m_q_q_rx_pkt

fun off_s2m_q :: "udma_s2m_q \<Rightarrow> nat" where
  "off_s2m_q s2m_q_cfg = 0x20"
| "off_s2m_q s2m_q_status = 0x24"
| "off_s2m_q s2m_q_rdrbp_low = 0x28"
| "off_s2m_q s2m_q_rdrbp_high = 0x2c"
| "off_s2m_q s2m_q_rdrl = 0x30"
| "off_s2m_q s2m_q_rdrhp = 0x34"
| "off_s2m_q s2m_q_rdrtp_inc = 0x38"
| "off_s2m_q s2m_q_rdrtp = 0x3c"
| "off_s2m_q s2m_q_rdcp = 0x40"
| "off_s2m_q s2m_q_rcrbp_low = 0x44"
| "off_s2m_q s2m_q_rcrbp_high = 0x48"
| "off_s2m_q s2m_q_rcrhp = 0x4c"
| "off_s2m_q s2m_q_rcrhp_internal = 0x50"
| "off_s2m_q s2m_q_comp_cfg = 0x54"
| "off_s2m_q s2m_q_comp_cfg_2 = 0x58"
| "off_s2m_q s2m_q_pkt_cfg = 0x5c"
| "off_s2m_q s2m_q_qos_cfg = 0x60"
| "off_s2m_q s2m_q_q_sw_ctrl = 0x64"
| "off_s2m_q s2m_q_q_rx_pkt = 0x68"

datatype udma_s2m_regs =
   s2m_regs_axi_s2m udma_axi_s2m | s2m_regs_s2m udma_s2m | s2m_regs_s2m_rd udma_s2m_rd
  | s2m_regs_s2m_wr udma_s2m_wr | s2m_regs_s2m_comp udma_s2m_comp

fun off_s2m_regs :: "udma_s2m_regs \<Rightarrow> nat" where
  "off_s2m_regs (s2m_regs_axi_s2m r) = 0x100 + off_axi_s2m r"
| "off_s2m_regs (s2m_regs_s2m r) = 0x200 + off_s2m r"
| "off_s2m_regs (s2m_regs_s2m_rd r) = 0x300 + off_s2m_rd r"
| "off_s2m_regs (s2m_regs_s2m_wr r) = 0x340 + off_s2m_wr r"
| "off_s2m_regs (s2m_regs_s2m_comp r) = 0x380 + off_s2m_comp r"

datatype udma_gen_dma_misc =
   gen_dma_misc_int_cfg | gen_dma_misc_revision | gen_dma_misc_general_cfg_1
  | gen_dma_misc_general_cfg_2 | gen_dma_misc_general_cfg_3 | gen_dma_misc_general_cfg_4
  | gen_dma_misc_general_cfg_5

fun off_gen_dma_misc :: "udma_gen_dma_misc \<Rightarrow> nat" where
  "off_gen_dma_misc gen_dma_misc_int_cfg = 0x0"
| "off_gen_dma_misc gen_dma_misc_revision = 0x4"
| "off_gen_dma_misc gen_dma_misc_general_cfg_1 = 0x8"
| "off_gen_dma_misc gen_dma_misc_general_cfg_2 = 0xc"
| "off_gen_dma_misc gen_dma_misc_general_cfg_3 = 0x10"
| "off_gen_dma_misc gen_dma_misc_general_cfg_4 = 0x14"
| "off_gen_dma_misc gen_dma_misc_general_cfg_5 = 0x18"

datatype udma_gen_axi =
   gen_axi_cfg_1 | gen_axi_cfg_2 | gen_axi_endian_cfg

fun off_gen_axi :: "udma_gen_axi \<Rightarrow> nat" where
  "off_gen_axi gen_axi_cfg_1 = 0x0"
| "off_gen_axi gen_axi_cfg_2 = 0x4"
| "off_gen_axi gen_axi_endian_cfg = 0x8"

datatype udma_gen_tgtid =
   gen_tgtid_cfg_tgtid_0 | gen_tgtid_cfg_tgtid_1 | gen_tgtid_cfg_tgtid_2 | gen_tgtid_cfg_tgtid_3
  | gen_tgtid_cfg_tgtid_4

fun off_gen_tgtid :: "udma_gen_tgtid \<Rightarrow> nat" where
  "off_gen_tgtid gen_tgtid_cfg_tgtid_0 = 0x0"
| "off_gen_tgtid gen_tgtid_cfg_tgtid_1 = 0x4"
| "off_gen_tgtid gen_tgtid_cfg_tgtid_2 = 0x8"
| "off_gen_tgtid gen_tgtid_cfg_tgtid_3 = 0xc"
| "off_gen_tgtid gen_tgtid_cfg_tgtid_4 = 0x10"

datatype udma_gen_tgtaddr =
   gen_tgtaddr_cfg_tgtaddr_0 | gen_tgtaddr_cfg_tgtaddr_1 | gen_tgtaddr_cfg_tgtaddr_2
  | gen_tgtaddr_cfg_tgtaddr_3

fun off_gen_tgtaddr :: "udma_gen_tgtaddr \<Rightarrow> nat" where
  "off_gen_tgtaddr gen_tgtaddr_cfg_tgtaddr_0 = 0x0"
| "off_gen_tgtaddr gen_tgtaddr_cfg_tgtaddr_1 = 0x4"
| "off_gen_tgtaddr gen_tgtaddr_cfg_tgtaddr_2 = 0x8"
| "off_gen_tgtaddr gen_tgtaddr_cfg_tgtaddr_3 = 0xc"

datatype udma_gen_regs =
   gen_regs_dma_misc udma_gen_dma_misc | gen_regs_axi udma_gen_axi
  | gen_regs_tgtid udma_gen_tgtid | gen_regs_tgtaddr udma_gen_tgtaddr

fun off_gen_regs :: "udma_gen_regs \<Rightarrow> nat" where
  "off_gen_regs (gen_regs_dma_misc r) = 0x2080 + off_gen_dma_misc r"
| "off_gen_regs (gen_regs_axi r) = 0x2280 + off_gen_axi r"
| "off_gen_regs (gen_regs_tgtid r) = 0x23ec + off_gen_tgtid r"
| "off_gen_regs (gen_regs_tgtaddr r) = 0x2400 + off_gen_tgtaddr r"

subsection \<open>Field masks and shifts\<close>

definition UDMA_AXI_M2S_COMP_WR_CFG_1_AWID_MASK :: u32 where
  [reg_off]: "UDMA_AXI_M2S_COMP_WR_CFG_1_AWID_MASK = 0xFF"

definition UDMA_AXI_M2S_COMP_WR_CFG_1_AWCACHE_MASK :: u32 where
  [reg_off]: "UDMA_AXI_M2S_COMP_WR_CFG_1_AWCACHE_MASK = 0xF0000"

definition UDMA_AXI_M2S_COMP_WR_CFG_1_AWCACHE_SHIFT :: nat where
  [reg_off]: "UDMA_AXI_M2S_COMP_WR_CFG_1_AWCACHE_SHIFT = 16"

definition UDMA_AXI_M2S_COMP_WR_CFG_1_AWBURST_MASK :: u32 where
  [reg_off]: "UDMA_AXI_M2S_COMP_WR_CFG_1_AWBURST_MASK = 0x3000000"

definition UDMA_AXI_M2S_COMP_WR_CFG_1_AWBURST_SHIFT :: nat where
  [reg_off]: "UDMA_AXI_M2S_COMP_WR_CFG_1_AWBURST_SHIFT = 24"

definition UDMA_AXI_M2S_COMP_WR_CFG_2_AWUSER_MASK :: u32 where
  [reg_off]: "UDMA_AXI_M2S_COMP_WR_CFG_2_AWUSER_MASK = 0xFFFFF"

definition UDMA_AXI_M2S_COMP_WR_CFG_2_AWSIZE_MASK :: u32 where
  [reg_off]: "UDMA_AXI_M2S_COMP_WR_CFG_2_AWSIZE_MASK = 0x700000"

definition UDMA_AXI_M2S_COMP_WR_CFG_2_AWSIZE_SHIFT :: nat where
  [reg_off]: "UDMA_AXI_M2S_COMP_WR_CFG_2_AWSIZE_SHIFT = 20"

definition UDMA_AXI_M2S_COMP_WR_CFG_2_AWQOS_MASK :: u32 where
  [reg_off]: "UDMA_AXI_M2S_COMP_WR_CFG_2_AWQOS_MASK = 0x7000000"

definition UDMA_AXI_M2S_COMP_WR_CFG_2_AWQOS_SHIFT :: nat where
  [reg_off]: "UDMA_AXI_M2S_COMP_WR_CFG_2_AWQOS_SHIFT = 24"

definition UDMA_AXI_M2S_COMP_WR_CFG_2_AWPROT_MASK :: u32 where
  [reg_off]: "UDMA_AXI_M2S_COMP_WR_CFG_2_AWPROT_MASK = 0x70000000"

definition UDMA_AXI_M2S_COMP_WR_CFG_2_AWPROT_SHIFT :: nat where
  [reg_off]: "UDMA_AXI_M2S_COMP_WR_CFG_2_AWPROT_SHIFT = 28"

definition UDMA_AXI_M2S_DATA_RD_CFG_ALWAYS_BREAK_ON_MAX_BOUDRY :: u32 where
  [reg_off]: "UDMA_AXI_M2S_DATA_RD_CFG_ALWAYS_BREAK_ON_MAX_BOUDRY = 0x10000"

definition UDMA_AXI_M2S_DESC_WR_CFG_1_MAX_AXI_BEATS_MASK :: u32 where
  [reg_off]: "UDMA_AXI_M2S_DESC_WR_CFG_1_MAX_AXI_BEATS_MASK = 0xFF"

definition UDMA_AXI_M2S_DESC_WR_CFG_1_MIN_AXI_BEATS_MASK :: u32 where
  [reg_off]: "UDMA_AXI_M2S_DESC_WR_CFG_1_MIN_AXI_BEATS_MASK = 0xFF0000"

definition UDMA_AXI_M2S_DESC_WR_CFG_1_MIN_AXI_BEATS_SHIFT :: nat where
  [reg_off]: "UDMA_AXI_M2S_DESC_WR_CFG_1_MIN_AXI_BEATS_SHIFT = 16"

definition UDMA_AXI_M2S_OSTAND_CFG_MAX_DATA_RD_MASK :: u32 where
  [reg_off]: "UDMA_AXI_M2S_OSTAND_CFG_MAX_DATA_RD_MASK = 0x3F"

definition UDMA_AXI_M2S_OSTAND_CFG_MAX_DESC_RD_MASK :: u32 where
  [reg_off]: "UDMA_AXI_M2S_OSTAND_CFG_MAX_DESC_RD_MASK = 0x3F00"

definition UDMA_AXI_M2S_OSTAND_CFG_MAX_DESC_RD_SHIFT :: nat where
  [reg_off]: "UDMA_AXI_M2S_OSTAND_CFG_MAX_DESC_RD_SHIFT = 8"

definition UDMA_AXI_M2S_OSTAND_CFG_MAX_COMP_REQ_MASK :: u32 where
  [reg_off]: "UDMA_AXI_M2S_OSTAND_CFG_MAX_COMP_REQ_MASK = 0x3F0000"

definition UDMA_AXI_M2S_OSTAND_CFG_MAX_COMP_REQ_SHIFT :: nat where
  [reg_off]: "UDMA_AXI_M2S_OSTAND_CFG_MAX_COMP_REQ_SHIFT = 16"

definition UDMA_AXI_M2S_OSTAND_CFG_MAX_COMP_DATA_WR_MASK :: u32 where
  [reg_off]: "UDMA_AXI_M2S_OSTAND_CFG_MAX_COMP_DATA_WR_MASK = 0xFF000000"

definition UDMA_AXI_M2S_OSTAND_CFG_MAX_COMP_DATA_WR_SHIFT :: nat where
  [reg_off]: "UDMA_AXI_M2S_OSTAND_CFG_MAX_COMP_DATA_WR_SHIFT = 24"

definition UDMA_M2S_STATE_COMP_CTRL_MASK :: u32 where
  [reg_off]: "UDMA_M2S_STATE_COMP_CTRL_MASK = 0x3"

definition UDMA_M2S_STATE_COMP_CTRL_SHIFT :: nat where
  [reg_off]: "UDMA_M2S_STATE_COMP_CTRL_SHIFT = 0"

definition UDMA_M2S_STATE_STREAM_IF_MASK :: u32 where
  [reg_off]: "UDMA_M2S_STATE_STREAM_IF_MASK = 0x30"

definition UDMA_M2S_STATE_STREAM_IF_SHIFT :: nat where
  [reg_off]: "UDMA_M2S_STATE_STREAM_IF_SHIFT = 4"

definition UDMA_M2S_STATE_DATA_RD_CTRL_MASK :: u32 where
  [reg_off]: "UDMA_M2S_STATE_DATA_RD_CTRL_MASK = 0x300"

definition UDMA_M2S_STATE_DATA_RD_CTRL_SHIFT :: nat where
  [reg_off]: "UDMA_M2S_STATE_DATA_RD_CTRL_SHIFT = 8"

definition UDMA_M2S_STATE_DESC_PREF_MASK :: u32 where
  [reg_off]: "UDMA_M2S_STATE_DESC_PREF_MASK = 0x3000"

definition UDMA_M2S_STATE_DESC_PREF_SHIFT :: nat where
  [reg_off]: "UDMA_M2S_STATE_DESC_PREF_SHIFT = 12"

definition UDMA_M2S_CHANGE_STATE_NORMAL :: u32 where
  [reg_off]: "UDMA_M2S_CHANGE_STATE_NORMAL = 0x1"

definition UDMA_M2S_CHANGE_STATE_DIS :: u32 where
  [reg_off]: "UDMA_M2S_CHANGE_STATE_DIS = 0x2"

definition UDMA_M2S_CHANGE_STATE_ABORT :: u32 where
  [reg_off]: "UDMA_M2S_CHANGE_STATE_ABORT = 0x4"

definition UDMA_M2S_CFG_LEN_MAX_PKT_SIZE_MASK :: u32 where
  [reg_off]: "UDMA_M2S_CFG_LEN_MAX_PKT_SIZE_MASK = 0xFFFFF"

definition UDMA_M2S_CFG_LEN_ENCODE_64K :: u32 where
  [reg_off]: "UDMA_M2S_CFG_LEN_ENCODE_64K = 0x1000000"

definition UDMA_M2S_RD_DESC_PREF_CFG_1_FIFO_DEPTH_MASK :: u32 where
  [reg_off]: "UDMA_M2S_RD_DESC_PREF_CFG_1_FIFO_DEPTH_MASK = 0xFF"

definition UDMA_M2S_RD_DESC_PREF_CFG_1_FIFO_DEPTH_SHIFT :: nat where
  [reg_off]: "UDMA_M2S_RD_DESC_PREF_CFG_1_FIFO_DEPTH_SHIFT = 0"

definition UDMA_M2S_RD_DESC_PREF_CFG_2_MAX_DESC_PER_PKT_MASK :: u32 where
  [reg_off]: "UDMA_M2S_RD_DESC_PREF_CFG_2_MAX_DESC_PER_PKT_MASK = 0x1F"

definition UDMA_M2S_RD_DESC_PREF_CFG_2_MAX_DESC_PER_PKT_SHIFT :: nat where
  [reg_off]: "UDMA_M2S_RD_DESC_PREF_CFG_2_MAX_DESC_PER_PKT_SHIFT = 0"

definition UDMA_M2S_RD_DESC_PREF_CFG_2_PREF_FORCE_RR :: u32 where
  [reg_off]: "UDMA_M2S_RD_DESC_PREF_CFG_2_PREF_FORCE_RR = 0x10000"

definition UDMA_M2S_RD_DESC_PREF_CFG_3_MIN_BURST_BELOW_THR_MASK :: u32 where
  [reg_off]: "UDMA_M2S_RD_DESC_PREF_CFG_3_MIN_BURST_BELOW_THR_MASK = 0xF"

definition UDMA_M2S_RD_DESC_PREF_CFG_3_MIN_BURST_BELOW_THR_SHIFT :: nat where
  [reg_off]: "UDMA_M2S_RD_DESC_PREF_CFG_3_MIN_BURST_BELOW_THR_SHIFT = 0"

definition UDMA_M2S_RD_DESC_PREF_CFG_3_MIN_BURST_ABOVE_THR_MASK :: u32 where
  [reg_off]: "UDMA_M2S_RD_DESC_PREF_CFG_3_MIN_BURST_ABOVE_THR_MASK = 0xF0"

definition UDMA_M2S_RD_DESC_PREF_CFG_3_MIN_BURST_ABOVE_THR_SHIFT :: nat where
  [reg_off]: "UDMA_M2S_RD_DESC_PREF_CFG_3_MIN_BURST_ABOVE_THR_SHIFT = 4"

definition UDMA_M2S_RD_DESC_PREF_CFG_3_PREF_THR_MASK :: u32 where
  [reg_off]: "UDMA_M2S_RD_DESC_PREF_CFG_3_PREF_THR_MASK = 0xFF00"

definition UDMA_M2S_RD_DESC_PREF_CFG_3_PREF_THR_SHIFT :: nat where
  [reg_off]: "UDMA_M2S_RD_DESC_PREF_CFG_3_PREF_THR_SHIFT = 8"

definition UDMA_M2S_RD_DATA_CFG_DATA_FIFO_DEPTH_MASK :: u32 where
  [reg_off]: "UDMA_M2S_RD_DATA_CFG_DATA_FIFO_DEPTH_MASK = 0x3FF"

definition UDMA_M2S_RD_DATA_CFG_DATA_FIFO_DEPTH_SHIFT :: nat where
  [reg_off]: "UDMA_M2S_RD_DATA_CFG_DATA_FIFO_DEPTH_SHIFT = 0"

definition UDMA_M2S_RD_DATA_CFG_MAX_PKT_LIMIT_MASK :: u32 where
  [reg_off]: "UDMA_M2S_RD_DATA_CFG_MAX_PKT_LIMIT_MASK = 0xFF0000"

definition UDMA_M2S_RD_DATA_CFG_MAX_PKT_LIMIT_SHIFT :: nat where
  [reg_off]: "UDMA_M2S_RD_DATA_CFG_MAX_PKT_LIMIT_SHIFT = 16"

definition UDMA_M2S_DWRR_CFG_SCHED_EN_DWRR :: u32 where
  [reg_off]: "UDMA_M2S_DWRR_CFG_SCHED_EN_DWRR = 0x1"

definition UDMA_M2S_DWRR_CFG_SCHED_PKT_MODE_EN :: u32 where
  [reg_off]: "UDMA_M2S_DWRR_CFG_SCHED_PKT_MODE_EN = 0x10"

definition UDMA_M2S_DWRR_CFG_SCHED_WEIGHT_INC_MASK :: u32 where
  [reg_off]: "UDMA_M2S_DWRR_CFG_SCHED_WEIGHT_INC_MASK = 0x300"

definition UDMA_M2S_DWRR_CFG_SCHED_WEIGHT_INC_SHIFT :: nat where
  [reg_off]: "UDMA_M2S_DWRR_CFG_SCHED_WEIGHT_INC_SHIFT = 8"

definition UDMA_M2S_DWRR_CFG_SCHED_INC_FACTOR_MASK :: u32 where
  [reg_off]: "UDMA_M2S_DWRR_CFG_SCHED_INC_FACTOR_MASK = 0xF0000"

definition UDMA_M2S_DWRR_CFG_SCHED_INC_FACTOR_SHIFT :: nat where
  [reg_off]: "UDMA_M2S_DWRR_CFG_SCHED_INC_FACTOR_SHIFT = 16"

definition UDMA_M2S_DWRR_CTRL_DEFICIT_CNT_INIT_MASK :: u32 where
  [reg_off]: "UDMA_M2S_DWRR_CTRL_DEFICIT_CNT_INIT_MASK = 0xFFFFFF"

definition UDMA_M2S_RATE_LIMITER_GEN_CFG_SHORT_CYCLE_SIZE_MASK :: u32 where
  [reg_off]: "UDMA_M2S_RATE_LIMITER_GEN_CFG_SHORT_CYCLE_SIZE_MASK = 0xFFFF"

definition UDMA_M2S_RATE_LIMITER_GEN_CFG_PKT_MODE_EN :: u32 where
  [reg_off]: "UDMA_M2S_RATE_LIMITER_GEN_CFG_PKT_MODE_EN = 0x1000000"

definition UDMA_M2S_STREAM_RATE_LIMITER_CFG_1S_MAX_BURST_SIZE_MASK :: u32 where
  [reg_off]: "UDMA_M2S_STREAM_RATE_LIMITER_CFG_1S_MAX_BURST_SIZE_MASK = 0xFFFFFF"

definition UDMA_M2S_STREAM_RATE_LIMITER_CFG_1S_EN :: u32 where
  [reg_off]: "UDMA_M2S_STREAM_RATE_LIMITER_CFG_1S_EN = 0x1000000"

definition UDMA_M2S_STREAM_RATE_LIMITER_CFG_1S_PAUSE :: u32 where
  [reg_off]: "UDMA_M2S_STREAM_RATE_LIMITER_CFG_1S_PAUSE = 0x2000000"

definition UDMA_M2S_STREAM_RATE_LIMITER_CFG_CYCLE_LONG_CYCLE_SIZE_MASK :: u32 where
  [reg_off]: "UDMA_M2S_STREAM_RATE_LIMITER_CFG_CYCLE_LONG_CYCLE_SIZE_MASK = 0xFFFF"

definition UDMA_M2S_STREAM_RATE_LIMITER_CFG_TOKEN_SIZE_1_LONG_CYCLE_MASK :: u32 where
  [reg_off]: "UDMA_M2S_STREAM_RATE_LIMITER_CFG_TOKEN_SIZE_1_LONG_CYCLE_MASK = 0x7FFFF"

definition UDMA_M2S_STREAM_RATE_LIMITER_CFG_TOKEN_SIZE_2_SHORT_CYCLE_MASK :: u32 where
  [reg_off]: "UDMA_M2S_STREAM_RATE_LIMITER_CFG_TOKEN_SIZE_2_SHORT_CYCLE_MASK = 0x7FFFF"

definition UDMA_M2S_COMP_CFG_1C_COMP_FIFO_DEPTH_MASK :: u32 where
  [reg_off]: "UDMA_M2S_COMP_CFG_1C_COMP_FIFO_DEPTH_MASK = 0xFF"

definition UDMA_M2S_COMP_CFG_1C_COMP_FIFO_DEPTH_SHIFT :: nat where
  [reg_off]: "UDMA_M2S_COMP_CFG_1C_COMP_FIFO_DEPTH_SHIFT = 0"

definition UDMA_M2S_COMP_CFG_1C_UNACK_FIFO_DEPTH_MASK :: u32 where
  [reg_off]: "UDMA_M2S_COMP_CFG_1C_UNACK_FIFO_DEPTH_MASK = 0x1FF00"

definition UDMA_M2S_COMP_CFG_1C_UNACK_FIFO_DEPTH_SHIFT :: nat where
  [reg_off]: "UDMA_M2S_COMP_CFG_1C_UNACK_FIFO_DEPTH_SHIFT = 8"

definition UDMA_M2S_COMP_CFG_1C_Q_PROMOTION :: u32 where
  [reg_off]: "UDMA_M2S_COMP_CFG_1C_Q_PROMOTION = 0x1000000"

definition UDMA_M2S_COMP_CFG_1C_FORCE_RR :: u32 where
  [reg_off]: "UDMA_M2S_COMP_CFG_1C_FORCE_RR = 0x2000000"

definition UDMA_M2S_COMP_CFG_APPLICATION_ACK_TOUT_MASK :: u32 where
  [reg_off]: "UDMA_M2S_COMP_CFG_APPLICATION_ACK_TOUT_MASK = 0xFFFFFF"

definition UDMA_M2S_COMP_CFG_APPLICATION_ACK_TOUT_SHIFT :: nat where
  [reg_off]: "UDMA_M2S_COMP_CFG_APPLICATION_ACK_TOUT_SHIFT = 0"

definition UDMA_M2S_Q_CFG_EN_PREF :: u32 where
  [reg_off]: "UDMA_M2S_Q_CFG_EN_PREF = 0x10000"

definition UDMA_M2S_Q_CFG_EN_SCHEDULING :: u32 where
  [reg_off]: "UDMA_M2S_Q_CFG_EN_SCHEDULING = 0x20000"

definition UDMA_M2S_Q_STATUS_PREFETCH :: u32 where
  [reg_off]: "UDMA_M2S_Q_STATUS_PREFETCH = 0x10000000"

definition UDMA_M2S_Q_STATUS_SCHEDULER :: u32 where
  [reg_off]: "UDMA_M2S_Q_STATUS_SCHEDULER = 0x20000000"

definition UDMA_M2S_Q_TDRBP_LOW_ADDR_MASK :: u32 where
  [reg_off]: "UDMA_M2S_Q_TDRBP_LOW_ADDR_MASK = 0xFFFFFFF0"

definition UDMA_M2S_Q_TCRBP_LOW_ADDR_MASK :: u32 where
  [reg_off]: "UDMA_M2S_Q_TCRBP_LOW_ADDR_MASK = 0xFFFFFFF0"

definition UDMA_M2S_Q_RATE_LIMIT_MASK_INTERNAL_PAUSE_DMB :: u32 where
  [reg_off]: "UDMA_M2S_Q_RATE_LIMIT_MASK_INTERNAL_PAUSE_DMB = 0x4"

definition UDMA_M2S_Q_DWRR_CFG_1_MAX_DEFICIT_CNT_SIZE_MASK :: u32 where
  [reg_off]: "UDMA_M2S_Q_DWRR_CFG_1_MAX_DEFICIT_CNT_SIZE_MASK = 0xFFFFFF"

definition UDMA_M2S_Q_DWRR_CFG_1_STRICT :: u32 where
  [reg_off]: "UDMA_M2S_Q_DWRR_CFG_1_STRICT = 0x1000000"

definition UDMA_M2S_Q_DWRR_CFG_1_PAUSE :: u32 where
  [reg_off]: "UDMA_M2S_Q_DWRR_CFG_1_PAUSE = 0x2000000"

definition UDMA_M2S_Q_DWRR_CFG_2_Q_QOS_MASK :: u32 where
  [reg_off]: "UDMA_M2S_Q_DWRR_CFG_2_Q_QOS_MASK = 0xFF"

definition UDMA_M2S_Q_DWRR_CFG_2_Q_QOS_SHIFT :: nat where
  [reg_off]: "UDMA_M2S_Q_DWRR_CFG_2_Q_QOS_SHIFT = 0"

definition UDMA_M2S_Q_DWRR_CFG_3_WEIGHT_MASK :: u32 where
  [reg_off]: "UDMA_M2S_Q_DWRR_CFG_3_WEIGHT_MASK = 0xFF"

definition UDMA_M2S_Q_DWRR_SW_CTRL_RST_CNT :: u32 where
  [reg_off]: "UDMA_M2S_Q_DWRR_SW_CTRL_RST_CNT = 0x1"

definition UDMA_M2S_Q_COMP_CFG_EN_COMP_RING_UPDATE :: u32 where
  [reg_off]: "UDMA_M2S_Q_COMP_CFG_EN_COMP_RING_UPDATE = 0x1"

definition UDMA_M2S_Q_COMP_CFG_DIS_COMP_COAL :: u32 where
  [reg_off]: "UDMA_M2S_Q_COMP_CFG_DIS_COMP_COAL = 0x2"

definition UDMA_M2S_Q_SW_CTRL_RST_Q :: u32 where
  [reg_off]: "UDMA_M2S_Q_SW_CTRL_RST_Q = 0x100"

definition UDMA_AXI_S2M_COMP_WR_CFG_1_AWID_MASK :: u32 where
  [reg_off]: "UDMA_AXI_S2M_COMP_WR_CFG_1_AWID_MASK = 0xFF"

definition UDMA_AXI_S2M_COMP_WR_CFG_1_AWCACHE_MASK :: u32 where
  [reg_off]: "UDMA_AXI_S2M_COMP_WR_CFG_1_AWCACHE_MASK = 0xF0000"

definition UDMA_AXI_S2M_COMP_WR_CFG_1_AWCACHE_SHIFT :: nat where
  [reg_off]: "UDMA_AXI_S2M_COMP_WR_CFG_1_AWCACHE_SHIFT = 16"

definition UDMA_AXI_S2M_COMP_WR_CFG_1_AWBURST_MASK :: u32 where
  [reg_off]: "UDMA_AXI_S2M_COMP_WR_CFG_1_AWBURST_MASK = 0x3000000"

definition UDMA_AXI_S2M_COMP_WR_CFG_1_AWBURST_SHIFT :: nat where
  [reg_off]: "UDMA_AXI_S2M_COMP_WR_CFG_1_AWBURST_SHIFT = 24"

definition UDMA_AXI_S2M_COMP_WR_CFG_2_AWUSER_MASK :: u32 where
  [reg_off]: "UDMA_AXI_S2M_COMP_WR_CFG_2_AWUSER_MASK = 0xFFFFF"

definition UDMA_AXI_S2M_COMP_WR_CFG_2_AWSIZE_MASK :: u32 where
  [reg_off]: "UDMA_AXI_S2M_COMP_WR_CFG_2_AWSIZE_MASK = 0x700000"

definition UDMA_AXI_S2M_COMP_WR_CFG_2_AWSIZE_SHIFT :: nat where
  [reg_off]: "UDMA_AXI_S2M_COMP_WR_CFG_2_AWSIZE_SHIFT = 20"

definition UDMA_AXI_S2M_COMP_WR_CFG_2_AWQOS_MASK :: u32 where
  [reg_off]: "UDMA_AXI_S2M_COMP_WR_CFG_2_AWQOS_MASK = 0x7000000"

definition UDMA_AXI_S2M_COMP_WR_CFG_2_AWQOS_SHIFT :: nat where
  [reg_off]: "UDMA_AXI_S2M_COMP_WR_CFG_2_AWQOS_SHIFT = 24"

definition UDMA_AXI_S2M_COMP_WR_CFG_2_AWPROT_MASK :: u32 where
  [reg_off]: "UDMA_AXI_S2M_COMP_WR_CFG_2_AWPROT_MASK = 0x70000000"

definition UDMA_AXI_S2M_COMP_WR_CFG_2_AWPROT_SHIFT :: nat where
  [reg_off]: "UDMA_AXI_S2M_COMP_WR_CFG_2_AWPROT_SHIFT = 28"

definition UDMA_AXI_S2M_DESC_RD_CFG_3_ALWAYS_BREAK_ON_MAX_BOUDRY :: u32 where
  [reg_off]: "UDMA_AXI_S2M_DESC_RD_CFG_3_ALWAYS_BREAK_ON_MAX_BOUDRY = 0x10000"

definition UDMA_AXI_S2M_DESC_WR_CFG_1_MAX_AXI_BEATS_MASK :: u32 where
  [reg_off]: "UDMA_AXI_S2M_DESC_WR_CFG_1_MAX_AXI_BEATS_MASK = 0xFF"

definition UDMA_AXI_S2M_DESC_WR_CFG_1_MAX_AXI_BEATS_SHIFT :: nat where
  [reg_off]: "UDMA_AXI_S2M_DESC_WR_CFG_1_MAX_AXI_BEATS_SHIFT = 0"

definition UDMA_AXI_S2M_DESC_WR_CFG_1_MIN_AXI_BEATS_MASK :: u32 where
  [reg_off]: "UDMA_AXI_S2M_DESC_WR_CFG_1_MIN_AXI_BEATS_MASK = 0xFF0000"

definition UDMA_AXI_S2M_DESC_WR_CFG_1_MIN_AXI_BEATS_SHIFT :: nat where
  [reg_off]: "UDMA_AXI_S2M_DESC_WR_CFG_1_MIN_AXI_BEATS_SHIFT = 16"

definition UDMA_AXI_S2M_OSTAND_CFG_RD_MAX_DESC_RD_OSTAND_MASK :: u32 where
  [reg_off]: "UDMA_AXI_S2M_OSTAND_CFG_RD_MAX_DESC_RD_OSTAND_MASK = 0x3F"

definition UDMA_AXI_S2M_OSTAND_CFG_RD_MAX_STREAM_ACK_MASK :: u32 where
  [reg_off]: "UDMA_AXI_S2M_OSTAND_CFG_RD_MAX_STREAM_ACK_MASK = 0x1F0000"

definition UDMA_AXI_S2M_OSTAND_CFG_RD_MAX_STREAM_ACK_SHIFT :: nat where
  [reg_off]: "UDMA_AXI_S2M_OSTAND_CFG_RD_MAX_STREAM_ACK_SHIFT = 16"

definition UDMA_AXI_S2M_OSTAND_CFG_WR_MAX_DATA_WR_OSTAND_MASK :: u32 where
  [reg_off]: "UDMA_AXI_S2M_OSTAND_CFG_WR_MAX_DATA_WR_OSTAND_MASK = 0x3F"

definition UDMA_AXI_S2M_OSTAND_CFG_WR_MAX_DATA_BEATS_WR_OSTAND_MASK :: u32 where
  [reg_off]: "UDMA_AXI_S2M_OSTAND_CFG_WR_MAX_DATA_BEATS_WR_OSTAND_MASK = 0xFF00"

definition UDMA_AXI_S2M_OSTAND_CFG_WR_MAX_DATA_BEATS_WR_OSTAND_SHIFT :: nat where
  [reg_off]: "UDMA_AXI_S2M_OSTAND_CFG_WR_MAX_DATA_BEATS_WR_OSTAND_SHIFT = 8"

definition UDMA_AXI_S2M_OSTAND_CFG_WR_MAX_COMP_REQ_MASK :: u32 where
  [reg_off]: "UDMA_AXI_S2M_OSTAND_CFG_WR_MAX_COMP_REQ_MASK = 0x3F0000"

definition UDMA_AXI_S2M_OSTAND_CFG_WR_MAX_COMP_REQ_SHIFT :: nat where
  [reg_off]: "UDMA_AXI_S2M_OSTAND_CFG_WR_MAX_COMP_REQ_SHIFT = 16"

definition UDMA_AXI_S2M_OSTAND_CFG_WR_MAX_COMP_DATA_WR_OSTAND_MASK :: u32 where
  [reg_off]: "UDMA_AXI_S2M_OSTAND_CFG_WR_MAX_COMP_DATA_WR_OSTAND_MASK = 0xFF000000"

definition UDMA_AXI_S2M_OSTAND_CFG_WR_MAX_COMP_DATA_WR_OSTAND_SHIFT :: nat where
  [reg_off]: "UDMA_AXI_S2M_OSTAND_CFG_WR_MAX_COMP_DATA_WR_OSTAND_SHIFT = 24"

definition UDMA_S2M_RD_DESC_PREF_CFG_1_FIFO_DEPTH_MASK :: u32 where
  [reg_off]: "UDMA_S2M_RD_DESC_PREF_CFG_1_FIFO_DEPTH_MASK = 0xFF"

definition UDMA_S2M_RD_DESC_PREF_CFG_2_Q_PROMOTION :: u32 where
  [reg_off]: "UDMA_S2M_RD_DESC_PREF_CFG_2_Q_PROMOTION = 0x1"

definition UDMA_S2M_RD_DESC_PREF_CFG_2_FORCE_PROMOTION :: u32 where
  [reg_off]: "UDMA_S2M_RD_DESC_PREF_CFG_2_FORCE_PROMOTION = 0x2"

definition UDMA_S2M_RD_DESC_PREF_CFG_2_EN_PREF_PREDICTION :: u32 where
  [reg_off]: "UDMA_S2M_RD_DESC_PREF_CFG_2_EN_PREF_PREDICTION = 0x4"

definition UDMA_S2M_RD_DESC_PREF_CFG_2_PROMOTION_TH_MASK :: u32 where
  [reg_off]: "UDMA_S2M_RD_DESC_PREF_CFG_2_PROMOTION_TH_MASK = 0xFF00"

definition UDMA_S2M_RD_DESC_PREF_CFG_2_PROMOTION_TH_SHIFT :: nat where
  [reg_off]: "UDMA_S2M_RD_DESC_PREF_CFG_2_PROMOTION_TH_SHIFT = 8"

definition UDMA_S2M_RD_DESC_PREF_CFG_2_PREF_FORCE_RR :: u32 where
  [reg_off]: "UDMA_S2M_RD_DESC_PREF_CFG_2_PREF_FORCE_RR = 0x10000"

definition UDMA_S2M_RD_DESC_PREF_CFG_3_MIN_BURST_BELOW_THR_MASK :: u32 where
  [reg_off]: "UDMA_S2M_RD_DESC_PREF_CFG_3_MIN_BURST_BELOW_THR_MASK = 0xF"

definition UDMA_S2M_RD_DESC_PREF_CFG_3_MIN_BURST_ABOVE_THR_MASK :: u32 where
  [reg_off]: "UDMA_S2M_RD_DESC_PREF_CFG_3_MIN_BURST_ABOVE_THR_MASK = 0xF0"

definition UDMA_S2M_RD_DESC_PREF_CFG_3_MIN_BURST_ABOVE_THR_SHIFT :: nat where
  [reg_off]: "UDMA_S2M_RD_DESC_PREF_CFG_3_MIN_BURST_ABOVE_THR_SHIFT = 4"

definition UDMA_S2M_RD_DESC_PREF_CFG_3_PREF_THR_MASK :: u32 where
  [reg_off]: "UDMA_S2M_RD_DESC_PREF_CFG_3_PREF_THR_MASK = 0xFF00"

definition UDMA_S2M_RD_DESC_PREF_CFG_3_PREF_THR_SHIFT :: nat where
  [reg_off]: "UDMA_S2M_RD_DESC_PREF_CFG_3_PREF_THR_SHIFT = 8"

definition UDMA_S2M_RD_DESC_PREF_CFG_4_A_FULL_THR_MASK :: u32 where
  [reg_off]: "UDMA_S2M_RD_DESC_PREF_CFG_4_A_FULL_THR_MASK = 0xFF"

definition UDMA_S2M_WR_DATA_CFG_1_DATA_FIFO_DEPTH_MASK :: u32 where
  [reg_off]: "UDMA_S2M_WR_DATA_CFG_1_DATA_FIFO_DEPTH_MASK = 0x3FF"

definition UDMA_S2M_WR_DATA_CFG_1_MAX_PKT_LIMIT_MASK :: u32 where
  [reg_off]: "UDMA_S2M_WR_DATA_CFG_1_MAX_PKT_LIMIT_MASK = 0xFF0000"

definition UDMA_S2M_WR_DATA_CFG_1_MAX_PKT_LIMIT_SHIFT :: nat where
  [reg_off]: "UDMA_S2M_WR_DATA_CFG_1_MAX_PKT_LIMIT_SHIFT = 16"

definition UDMA_S2M_WR_DATA_CFG_1_FIFO_MARGIN_MASK :: u32 where
  [reg_off]: "UDMA_S2M_WR_DATA_CFG_1_FIFO_MARGIN_MASK = 0xFF000000"

definition UDMA_S2M_WR_DATA_CFG_1_FIFO_MARGIN_SHIFT :: nat where
  [reg_off]: "UDMA_S2M_WR_DATA_CFG_1_FIFO_MARGIN_SHIFT = 24"

definition UDMA_S2M_WR_DATA_CFG_2_DESC_WAIT_TIMER_MASK :: u32 where
  [reg_off]: "UDMA_S2M_WR_DATA_CFG_2_DESC_WAIT_TIMER_MASK = 0xFFFFFF"

definition UDMA_S2M_WR_DATA_CFG_2_DESC_WAIT_TIMER_SHIFT :: nat where
  [reg_off]: "UDMA_S2M_WR_DATA_CFG_2_DESC_WAIT_TIMER_SHIFT = 0"

definition UDMA_S2M_WR_DATA_CFG_2_DROP_IF_NO_DESC :: u32 where
  [reg_off]: "UDMA_S2M_WR_DATA_CFG_2_DROP_IF_NO_DESC = 0x8000000"

definition UDMA_S2M_WR_DATA_CFG_2_HINT_IF_NO_DESC :: u32 where
  [reg_off]: "UDMA_S2M_WR_DATA_CFG_2_HINT_IF_NO_DESC = 0x10000000"

definition UDMA_S2M_WR_DATA_CFG_2_WAIT_FOR_PREF :: u32 where
  [reg_off]: "UDMA_S2M_WR_DATA_CFG_2_WAIT_FOR_PREF = 0x20000000"

definition UDMA_S2M_WR_DATA_CFG_2_FULL_LINE_MODE :: u32 where
  [reg_off]: "UDMA_S2M_WR_DATA_CFG_2_FULL_LINE_MODE = 0x40000000"

definition UDMA_S2M_WR_DATA_CFG_2_DIRECT_HDR_USE_BUF1 :: u32 where
  [reg_off]: "UDMA_S2M_WR_DATA_CFG_2_DIRECT_HDR_USE_BUF1 = 0x80000000"

definition UDMA_S2M_COMP_CFG_1C_DESC_SIZE_MASK :: u32 where
  [reg_off]: "UDMA_S2M_COMP_CFG_1C_DESC_SIZE_MASK = 0xF"

definition UDMA_S2M_COMP_CFG_1C_CNT_WORDS :: u32 where
  [reg_off]: "UDMA_S2M_COMP_CFG_1C_CNT_WORDS = 0x100"

definition UDMA_S2M_COMP_CFG_1C_Q_PROMOTION :: u32 where
  [reg_off]: "UDMA_S2M_COMP_CFG_1C_Q_PROMOTION = 0x1000"

definition UDMA_S2M_COMP_CFG_1C_FORCE_RR :: u32 where
  [reg_off]: "UDMA_S2M_COMP_CFG_1C_FORCE_RR = 0x10000"

definition UDMA_S2M_COMP_CFG_1C_Q_FREE_MIN_MASK :: u32 where
  [reg_off]: "UDMA_S2M_COMP_CFG_1C_Q_FREE_MIN_MASK = 0xF0000000"

definition UDMA_S2M_COMP_CFG_1C_Q_FREE_MIN_SHIFT :: nat where
  [reg_off]: "UDMA_S2M_COMP_CFG_1C_Q_FREE_MIN_SHIFT = 28"

definition UDMA_S2M_COMP_CFG_2C_COMP_FIFO_DEPTH_MASK :: u32 where
  [reg_off]: "UDMA_S2M_COMP_CFG_2C_COMP_FIFO_DEPTH_MASK = 0xFFF"

definition UDMA_S2M_COMP_CFG_2C_UNACK_FIFO_DEPTH_MASK :: u32 where
  [reg_off]: "UDMA_S2M_COMP_CFG_2C_UNACK_FIFO_DEPTH_MASK = 0xFFF0000"

definition UDMA_S2M_COMP_CFG_2C_UNACK_FIFO_DEPTH_SHIFT :: nat where
  [reg_off]: "UDMA_S2M_COMP_CFG_2C_UNACK_FIFO_DEPTH_SHIFT = 16"

definition UDMA_S2M_Q_COMP_CFG_EN_COMP_RING_UPDATE :: u32 where
  [reg_off]: "UDMA_S2M_Q_COMP_CFG_EN_COMP_RING_UPDATE = 0x1"

definition UDMA_S2M_Q_COMP_CFG_DIS_COMP_COAL :: u32 where
  [reg_off]: "UDMA_S2M_Q_COMP_CFG_DIS_COMP_COAL = 0x2"

definition UDMA_S2M_Q_PKT_CFG_HDR_SPLIT_SIZE_MASK :: u32 where
  [reg_off]: "UDMA_S2M_Q_PKT_CFG_HDR_SPLIT_SIZE_MASK = 0xFFFF"

definition UDMA_S2M_Q_PKT_CFG_FORCE_HDR_SPLIT :: u32 where
  [reg_off]: "UDMA_S2M_Q_PKT_CFG_FORCE_HDR_SPLIT = 0x10000"

definition UDMA_S2M_Q_PKT_CFG_EN_HDR_SPLIT :: u32 where
  [reg_off]: "UDMA_S2M_Q_PKT_CFG_EN_HDR_SPLIT = 0x20000"

definition UDMA_S2M_QOS_CFG_Q_QOS_MASK :: u32 where
  [reg_off]: "UDMA_S2M_QOS_CFG_Q_QOS_MASK = 0xFF"

definition UDMA_GEN_DMA_MISC_REVISION_PROGRAMMING_ID_MASK :: u32 where
  [reg_off]: "UDMA_GEN_DMA_MISC_REVISION_PROGRAMMING_ID_MASK = 0xFFF"

definition UDMA_GEN_DMA_MISC_REVISION_PROGRAMMING_ID_SHIFT :: nat where
  [reg_off]: "UDMA_GEN_DMA_MISC_REVISION_PROGRAMMING_ID_SHIFT = 0"

definition UDMA_GEN_AXI_CFG_2_ARB_PROMOTION_MASK :: u32 where
  [reg_off]: "UDMA_GEN_AXI_CFG_2_ARB_PROMOTION_MASK = 0xF"

definition UDMA_GEN_AXI_ENDIAN_CFG_SWAP_M2S_DESC :: u32 where
  [reg_off]: "UDMA_GEN_AXI_ENDIAN_CFG_SWAP_M2S_DESC = 0x1"

definition UDMA_GEN_AXI_ENDIAN_CFG_SWAP_M2S_DATA :: u32 where
  [reg_off]: "UDMA_GEN_AXI_ENDIAN_CFG_SWAP_M2S_DATA = 0x2"

definition UDMA_GEN_AXI_ENDIAN_CFG_SWAP_S2M_DESC :: u32 where
  [reg_off]: "UDMA_GEN_AXI_ENDIAN_CFG_SWAP_S2M_DESC = 0x4"

definition UDMA_GEN_AXI_ENDIAN_CFG_SWAP_S2M_DATA :: u32 where
  [reg_off]: "UDMA_GEN_AXI_ENDIAN_CFG_SWAP_S2M_DATA = 0x8"

definition UDMA_GEN_AXI_ENDIAN_CFG_SWAP_64B_EN :: u32 where
  [reg_off]: "UDMA_GEN_AXI_ENDIAN_CFG_SWAP_64B_EN = 0x10"

definition UDMA_GEN_TGTID_CFG_TGTID_0_MSIX_TGTID_SEL :: u32 where
  [reg_off]: "UDMA_GEN_TGTID_CFG_TGTID_0_MSIX_TGTID_SEL = 0x100"

definition UDMA_GEN_TGTID_CFG_TGTID_0_MSIX_TGTID_ACCESS_EN :: u32 where
  [reg_off]: "UDMA_GEN_TGTID_CFG_TGTID_0_MSIX_TGTID_ACCESS_EN = 0x200"

subsection \<open>The unit: queue blocks, generic block, parametric masks\<close>

text \<open>\<open>struct unit_regs\<close>: the M2S block first, the S2M block at \<open>0x10000\<close>, the generic block at \<open>0x1C000\<close>.\<close>

definition unit_regs_m2s :: nat where
  [reg_off]: "unit_regs_m2s = 0"

definition unit_regs_s2m :: nat where
  [reg_off]: "unit_regs_s2m = 0x10000"

definition unit_regs_gen :: nat where
  [reg_off]: "unit_regs_gen = 0x1C000"

text \<open>\<open>&udma_regs->m2s.m2s_q[qid]\<close> and \<open>&udma_regs->s2m.s2m_q[qid]\<close>.\<close>

definition m2s_q_block :: "ptr \<Rightarrow> nat \<Rightarrow> ptr" where
  [reg_off]: "m2s_q_block udma_regs qid = udma_regs + 0x1000 + 0x1000 * qid"

definition s2m_q_block :: "ptr \<Rightarrow> nat \<Rightarrow> ptr" where
  [reg_off]: "s2m_q_block udma_regs qid = udma_regs + 0x1000 + 0x1000 * qid"

definition AL_UDMA_REV_ID_REV2 :: u32 where
  "AL_UDMA_REV_ID_REV2 = 2"

definition UDMA_GEN_TGTID_CFG_TX_DESC_EN :: "nat \<Rightarrow> u32" where
  [reg_off]: "UDMA_GEN_TGTID_CFG_TX_DESC_EN qid = AL_BIT (qid + 0)"

definition UDMA_GEN_TGTID_CFG_TX_QUEUE_EN :: "nat \<Rightarrow> u32" where
  [reg_off]: "UDMA_GEN_TGTID_CFG_TX_QUEUE_EN qid = AL_BIT (qid + 4)"

definition UDMA_GEN_TGTID_CFG_RX_DESC_EN :: "nat \<Rightarrow> u32" where
  [reg_off]: "UDMA_GEN_TGTID_CFG_RX_DESC_EN qid = AL_BIT (qid + 16)"

definition UDMA_GEN_TGTID_CFG_RX_QUEUE_EN :: "nat \<Rightarrow> u32" where
  [reg_off]: "UDMA_GEN_TGTID_CFG_RX_QUEUE_EN qid = AL_BIT (qid + 20)"

definition UDMA_GEN_TGTID_CFG_TGTID_SHIFT :: "nat \<Rightarrow> nat" where
  [reg_off]: "UDMA_GEN_TGTID_CFG_TGTID_SHIFT qid = (if odd qid then 16 else 0)"

definition UDMA_GEN_TGTID_CFG_TGTID_MASK :: "nat \<Rightarrow> u32" where
  [reg_off]: "UDMA_GEN_TGTID_CFG_TGTID_MASK qid = (if odd qid then 0xFFFF0000 else 0x0000FFFF)"

definition UDMA_GEN_TGTADDR_CFG_SHIFT :: "nat \<Rightarrow> nat" where
  [reg_off]: "UDMA_GEN_TGTADDR_CFG_SHIFT qid = (if odd qid then 16 else 0)"

definition UDMA_GEN_TGTADDR_CFG_MASK :: "nat \<Rightarrow> u32" where
  [reg_off]: "UDMA_GEN_TGTADDR_CFG_MASK qid = (if odd qid then 0xFFFF0000 else 0x0000FFFF)"

subsection \<open>The ring view of a queue block\<close>

text \<open>
  The queue code accesses a queue block through \<open>union udma_q_regs\<close>: the generic ring registers,
  the M2S view or the S2M view of the same memory.  The two functions below name the register of
  a directional view that a ring register overlays.
\<close>

fun rings_as_m2s_q :: "udma_rings_regs \<Rightarrow> udma_m2s_q" where
  "rings_as_m2s_q rings_cfg = m2s_q_cfg"
| "rings_as_m2s_q rings_status = m2s_q_status"
| "rings_as_m2s_q rings_drbp_low = m2s_q_tdrbp_low"
| "rings_as_m2s_q rings_drbp_high = m2s_q_tdrbp_high"
| "rings_as_m2s_q rings_drl = m2s_q_tdrl"
| "rings_as_m2s_q rings_drhp = m2s_q_tdrhp"
| "rings_as_m2s_q rings_drtp_inc = m2s_q_tdrtp_inc"
| "rings_as_m2s_q rings_drtp = m2s_q_tdrtp"
| "rings_as_m2s_q rings_dcp = m2s_q_tdcp"
| "rings_as_m2s_q rings_crbp_low = m2s_q_tcrbp_low"
| "rings_as_m2s_q rings_crbp_high = m2s_q_tcrbp_high"
| "rings_as_m2s_q rings_crhp = m2s_q_tcrhp"
| "rings_as_m2s_q rings_crhp_internal = m2s_q_tcrhp_internal"

fun rings_as_s2m_q :: "udma_rings_regs \<Rightarrow> udma_s2m_q" where
  "rings_as_s2m_q rings_cfg = s2m_q_cfg"
| "rings_as_s2m_q rings_status = s2m_q_status"
| "rings_as_s2m_q rings_drbp_low = s2m_q_rdrbp_low"
| "rings_as_s2m_q rings_drbp_high = s2m_q_rdrbp_high"
| "rings_as_s2m_q rings_drl = s2m_q_rdrl"
| "rings_as_s2m_q rings_drhp = s2m_q_rdrhp"
| "rings_as_s2m_q rings_drtp_inc = s2m_q_rdrtp_inc"
| "rings_as_s2m_q rings_drtp = s2m_q_rdrtp"
| "rings_as_s2m_q rings_dcp = s2m_q_rdcp"
| "rings_as_s2m_q rings_crbp_low = s2m_q_rcrbp_low"
| "rings_as_s2m_q rings_crbp_high = s2m_q_rcrbp_high"
| "rings_as_s2m_q rings_crhp = s2m_q_rcrhp"
| "rings_as_s2m_q rings_crhp_internal = s2m_q_rcrhp_internal"

end
