(* ===== verification/Ring_Spec.thy ===== *)
theory Ring_Spec
  imports Prelude
begin

text \<open>
  The contract of a bounded descriptor ring, as a locale.  Two components of the driver keep such
  a ring: the UDMA hardware queue (\<open>al_hal_udma.h\<close>: \<open>next_desc_idx\<close>, \<open>next_cdesc_idx\<close>) and the
  software ring of a DMA channel (\<open>al_dma_drv.c\<close>: \<open>head\<close>, \<open>tail\<close>).  The abstract value of a ring is
  the list of slots handed out and not yet given back, oldest first.  The theory also holds the
  modular arithmetic that both representations share.
\<close>

subsection \<open>Differences of ring indices\<close>

lemma unat_diff_and_mask:
  assumes "k \<le> LENGTH('a)" "unat y \<le> 2 ^ k"
  shows "unat ((x - y :: 'a::len word) AND mask k) = (unat x + 2 ^ k - unat y) mod 2 ^ k"
proof -
  have "int (unat ((x - y) AND mask k)) = take_bit k (uint (x - y))"
    by (simp only: take_bit_eq_mask [symmetric] unsigned_take_bit_eq of_nat_take_bit of_nat_unat)
  also have "\<dots> = (uint x - uint y) mod 2 ^ k"
    using assms by (simp add: uint_word_arith_bintrs take_bit_eq_mod mod_mod_cancel le_imp_power_dvd)
  also have "\<dots> = (int (unat x) + 2 ^ k - int (unat y)) mod 2 ^ k"
    using mod_add_self2 [of "uint x - uint y" "2 ^ k"] by (simp add: algebra_simps)
  also have "\<dots> = int ((unat x + 2 ^ k - unat y) mod 2 ^ k)"
    using assms by (simp add: zmod_int of_nat_diff)
  finally show ?thesis by (simp only: of_nat_eq_iff)
qed

lemma unat_add_and_mask:
  "k \<le> LENGTH('a) \<Longrightarrow> unat ((x + y :: 'a::len word) AND mask k) = (unat x + unat y) mod 2 ^ k"
  by (simp add: unat_and_mask unat_word_ariths mod_mod_cancel le_imp_power_dvd)

text \<open>The slots from index \<open>i\<close> on, \<open>n\<close> of them, in a ring of \<open>sz\<close> slots.\<close>

definition ring_slots :: "nat \<Rightarrow> nat \<Rightarrow> nat \<Rightarrow> nat list" where
  "ring_slots sz i n = map (\<lambda>j. (i + j) mod sz) [0..<n]"

lemma length_ring_slots [simp]: "length (ring_slots sz i n) = n"
  by (simp add: ring_slots_def)

lemma ring_slots_0 [simp]: "ring_slots sz i 0 = []"
  by (simp add: ring_slots_def)

lemma ring_slots_Suc: "ring_slots sz i (Suc n) = ring_slots sz i n @ [(i + n) mod sz]"
  by (simp add: ring_slots_def)

lemma ring_slots_mod: "ring_slots sz (i mod sz) n = ring_slots sz i n"
  by (simp add: ring_slots_def mod_simps)

lemma ring_slots_drop: "m \<le> n \<Longrightarrow> drop m (ring_slots sz i n) = ring_slots sz (i + m) (n - m)"
  by (rule nth_equalityI) (auto simp: ring_slots_def ac_simps)

lemma mod_add_eq_imp_eq:
  fixes m n sz :: nat
  assumes "(i + m) mod sz = (i + n) mod sz" "m < sz" "n < sz"
  shows "m = n"
proof -
  have "int m mod int sz = int n mod int sz"
    using assms(1) by (metis add_diff_cancel_left' mod_diff_left_eq of_nat_add zmod_int)
  with assms show ?thesis by (simp flip: of_nat_mod)
qed

lemma distinct_ring_slots: "n \<le> sz \<Longrightarrow> distinct (ring_slots sz i n)"
  by (auto simp: ring_slots_def distinct_map inj_on_def dest!: mod_add_eq_imp_eq)

subsection \<open>The contract\<close>

locale bounded_ring =
  fixes inv :: "'q \<Rightarrow> bool" and cap :: "'q \<Rightarrow> nat" and pend :: "'q \<Rightarrow> 'a list"
    and avail :: "'q \<Rightarrow> nat" and alloc :: "'q \<Rightarrow> 'a \<times> 'q" and release :: "'q \<Rightarrow> nat \<Rightarrow> 'q"
  assumes avail_pend: "inv q \<Longrightarrow> avail q + length (pend q) = cap q"
    and pend_distinct: "inv q \<Longrightarrow> distinct (pend q)"
    and alloc_step: "inv q \<Longrightarrow> 0 < avail q \<Longrightarrow> alloc q = (d, q') \<Longrightarrow>
          inv q' \<and> cap q' = cap q \<and> pend q' = pend q @ [d]"
    and release_step: "inv q \<Longrightarrow> n \<le> length (pend q) \<Longrightarrow>
          inv (release q n) \<and> cap (release q n) = cap q \<and> pend (release q n) = drop n (pend q)"
begin

text \<open>A run of \<open>n\<close> allocations, as the preparation loops of the clients perform it.\<close>

fun alloc_n :: "nat \<Rightarrow> 'q \<Rightarrow> 'a list \<times> 'q" where
  "alloc_n 0 q = ([], q)"
| "alloc_n (Suc n) q = (let (d, q) = alloc q; (ds, q) = alloc_n n q in (d # ds, q))"

lemma alloc_avail:
  assumes "inv q" "0 < avail q" "alloc q = (d, q')"
  shows "avail q' = avail q - 1"
  using alloc_step [OF assms] avail_pend [OF assms(1)] avail_pend [of q'] by auto

lemma alloc_fresh:
  assumes "inv q" "0 < avail q" "alloc q = (d, q')"
  shows "d \<notin> set (pend q)"
  using alloc_step [OF assms] pend_distinct [of q'] by auto

lemma release_avail:
  assumes "inv q" "n \<le> length (pend q)"
  shows "avail (release q n) = avail q + n"
  using release_step [OF assms] avail_pend [OF assms(1)] avail_pend [of "release q n"] assms(2) by auto

lemma alloc_n_step:
  assumes "inv q" "n \<le> avail q" "alloc_n n q = (ds, q')"
  shows "inv q' \<and> cap q' = cap q \<and> pend q' = pend q @ ds \<and> length ds = n \<and> avail q' = avail q - n"
  using assms
proof (induction n arbitrary: q ds)
  case 0
  then show ?case by simp
next
  case (Suc n)
  obtain d q1 where a: "alloc q = (d, q1)" by fastforce
  obtain ds1 q2 where r: "alloc_n n q1 = (ds1, q2)" by fastforce
  from Suc.prems a r have eq: "ds = d # ds1" "q' = q2" by auto
  from Suc.prems have pos: "0 < avail q" by simp
  note s = alloc_step [OF Suc.prems(1) pos a] alloc_avail [OF Suc.prems(1) pos a]
  with Suc.prems have "n \<le> avail q1" by simp
  with Suc.IH [of q1 ds1] s r eq show ?case by auto
qed

lemma alloc_n_fresh:
  assumes "inv q" "n \<le> avail q" "alloc_n n q = (ds, q')"
  shows "distinct ds \<and> set ds \<inter> set (pend q) = {}"
  using alloc_n_step [OF assms] pend_distinct [of q'] by auto

text \<open>First in, first out: releasing everything that was pending leaves exactly the new slots.\<close>

lemma alloc_n_release_fifo:
  assumes "inv q" "n \<le> avail q" "alloc_n n q = (ds, q')"
  shows "pend (release q' (length (pend q))) = ds"
  using alloc_n_step [OF assms] release_step [of q' "length (pend q)"] by auto

end

end
