(* ===== verification/Udma.thy ===== *)
theory Udma
  imports Udma_Regs Ring_Spec
begin

text \<open>
  The universal DMA engine (\<open>al_hal_udma.h\<close>, \<open>al_hal_udma_main.c\<close>): queue data structure,
  submission and completion ring operations, engine and queue initialisation, queue reset, state
  control.  A queue is a record value; an operation that updates \<open>*udma_q\<close> returns the new value.
  The back pointer \<open>udma_q->udma\<close> is the parent record passed as an argument.  Pointers to
  queues and parameters are never \<open>NULL\<close> in this representation, so the assertions
  \<open>al_assert(udma_q)\<close> hold by construction; every other assertion is kept.
\<close>

subsection \<open>Constants\<close>

definition DMA_MAX_Q :: nat where "DMA_MAX_Q = 4"
definition AL_UDMA_MIN_Q_SIZE :: u32 where "AL_UDMA_MIN_Q_SIZE = 4"
definition AL_UDMA_MAX_Q_SIZE :: u32 where "AL_UDMA_MAX_Q_SIZE = push_bit 16 1"
definition AL_UDMA_REV_ID_2 :: u32 where "AL_UDMA_REV_ID_2 = 2"
definition DMA_RING_ID_MASK :: u32 where "DMA_RING_ID_MASK = 0x3"

definition AL_M2S_DESC_CONCAT :: u32 where "AL_M2S_DESC_CONCAT = AL_BIT 31"
definition AL_M2S_DESC_DMB :: u32 where "AL_M2S_DESC_DMB = AL_BIT 30"
definition AL_M2S_DESC_NO_SNOOP_H :: u32 where "AL_M2S_DESC_NO_SNOOP_H = AL_BIT 29"
definition AL_M2S_DESC_INT_EN :: u32 where "AL_M2S_DESC_INT_EN = AL_BIT 28"
definition AL_M2S_DESC_LAST :: u32 where "AL_M2S_DESC_LAST = AL_BIT 27"
definition AL_M2S_DESC_FIRST :: u32 where "AL_M2S_DESC_FIRST = AL_BIT 26"
definition AL_M2S_DESC_RING_ID_SHIFT :: nat where "AL_M2S_DESC_RING_ID_SHIFT = 24"
definition AL_M2S_DESC_RING_ID_MASK :: u32 where
  "AL_M2S_DESC_RING_ID_MASK = push_bit AL_M2S_DESC_RING_ID_SHIFT 0x3"
definition AL_M2S_DESC_META_DATA :: u32 where "AL_M2S_DESC_META_DATA = AL_BIT 23"
definition AL_M2S_DESC_DUMMY :: u32 where "AL_M2S_DESC_DUMMY = AL_BIT 22"
definition AL_M2S_DESC_LEN_SHIFT :: nat where "AL_M2S_DESC_LEN_SHIFT = 0"
definition AL_M2S_DESC_LEN_MASK :: u32 where "AL_M2S_DESC_LEN_MASK = push_bit AL_M2S_DESC_LEN_SHIFT 0xfffff"
definition AL_S2M_DESC_DUAL_BUF :: u32 where "AL_S2M_DESC_DUAL_BUF = AL_BIT 31"
definition AL_S2M_DESC_NO_SNOOP_H :: u32 where "AL_S2M_DESC_NO_SNOOP_H = AL_BIT 29"
definition AL_S2M_DESC_INT_EN :: u32 where "AL_S2M_DESC_INT_EN = AL_BIT 28"
definition AL_S2M_DESC_RING_ID_SHIFT :: nat where "AL_S2M_DESC_RING_ID_SHIFT = 24"
definition AL_S2M_DESC_RING_ID_MASK :: u32 where
  "AL_S2M_DESC_RING_ID_MASK = push_bit AL_S2M_DESC_RING_ID_SHIFT 0x3"
definition AL_S2M_DESC_LEN_SHIFT :: nat where "AL_S2M_DESC_LEN_SHIFT = 0"
definition AL_S2M_DESC_LEN_MASK :: u32 where "AL_S2M_DESC_LEN_MASK = push_bit AL_S2M_DESC_LEN_SHIFT 0xffff"
definition AL_UDMA_DESC_TGTID_SHIFT :: nat where "AL_UDMA_DESC_TGTID_SHIFT = 48"
definition AL_UDMA_CDESC_ERROR :: u32 where "AL_UDMA_CDESC_ERROR = AL_BIT 31"
definition AL_UDMA_CDESC_LAST :: u32 where "AL_UDMA_CDESC_LAST = AL_BIT 27"
definition AL_UDMA_CDESC_FIRST :: u32 where "AL_UDMA_CDESC_FIRST = AL_BIT 26"

definition AL_UDMA_Q_RST_TOUT :: nat where "AL_UDMA_Q_RST_TOUT = 10000"
definition UDMA_STATE_IDLE :: u32 where "UDMA_STATE_IDLE = 0x0"
definition UDMA_STATE_NORMAL :: u32 where "UDMA_STATE_NORMAL = 0x1"
definition UDMA_STATE_ABORT :: u32 where "UDMA_STATE_ABORT = 0x2"
definition UDMA_STATE_RESERVED :: u32 where "UDMA_STATE_RESERVED = 0x3"
definition AL_UDMA_INITIAL_RING_ID :: u32 where "AL_UDMA_INITIAL_RING_ID = 1"
definition AL_UDMA_Q_FLAGS_NO_COMP_UPDATE :: u32 where "AL_UDMA_Q_FLAGS_NO_COMP_UPDATE = AL_BIT 1"

lemmas udma_consts = DMA_MAX_Q_def AL_UDMA_MIN_Q_SIZE_def AL_UDMA_MAX_Q_SIZE_def AL_UDMA_REV_ID_2_def
  DMA_RING_ID_MASK_def AL_UDMA_Q_RST_TOUT_def UDMA_STATE_IDLE_def UDMA_STATE_NORMAL_def
  UDMA_STATE_ABORT_def UDMA_STATE_RESERVED_def AL_UDMA_INITIAL_RING_ID_def
  AL_UDMA_Q_FLAGS_NO_COMP_UPDATE_def

lemmas desc_consts = AL_M2S_DESC_CONCAT_def AL_M2S_DESC_DMB_def AL_M2S_DESC_NO_SNOOP_H_def
  AL_M2S_DESC_INT_EN_def AL_M2S_DESC_LAST_def AL_M2S_DESC_FIRST_def AL_M2S_DESC_RING_ID_SHIFT_def
  AL_M2S_DESC_RING_ID_MASK_def AL_M2S_DESC_META_DATA_def AL_M2S_DESC_DUMMY_def
  AL_M2S_DESC_LEN_SHIFT_def AL_M2S_DESC_LEN_MASK_def AL_S2M_DESC_DUAL_BUF_def
  AL_S2M_DESC_NO_SNOOP_H_def AL_S2M_DESC_INT_EN_def AL_S2M_DESC_RING_ID_SHIFT_def
  AL_S2M_DESC_RING_ID_MASK_def AL_S2M_DESC_LEN_SHIFT_def AL_S2M_DESC_LEN_MASK_def
  AL_UDMA_DESC_TGTID_SHIFT_def AL_UDMA_CDESC_ERROR_def AL_UDMA_CDESC_LAST_def AL_UDMA_CDESC_FIRST_def

subsection \<open>Data\<close>

text \<open>
  A submission descriptor is 16 bytes: two 32-bit words and a 64-bit pointer.  The other views of
  the union are the same storage: \<open>tx_meta.meta1\<close> and \<open>tx_meta.meta2\<close> are the low and high halves of
  the pointer (little endian), \<open>rx.buf2_ptr_lo\<close> is the second word, \<open>rx.buf1_ptr\<close> the pointer.
\<close>

record al_udma_desc =
  len_ctrl :: u32
  meta_ctrl :: u32
  buf_ptr :: u64

definition sizeof_al_udma_desc :: nat where "sizeof_al_udma_desc = 16"

definition tx_meta_ptr :: "u32 \<Rightarrow> u32 \<Rightarrow> u64" where
  "tx_meta_ptr meta1 meta2 = ucast meta1 OR push_bit 32 (ucast meta2)"

record al_buf =
  buf_addr :: u64
  buf_len :: u32

record al_block =
  bufs :: "al_buf list"
  blk_num :: u32
  tgtid :: u16

datatype al_udma_type = UDMA_TX | UDMA_RX

datatype al_udma_state = UDMA_DISABLE | UDMA_IDLE | UDMA_NORMAL | UDMA_ABORT | UDMA_RESET

datatype al_udma_queue_status = AL_QUEUE_NOT_INITIALIZED | AL_QUEUE_DISABLED | AL_QUEUE_ENABLED | AL_QUEUE_ABORTED

record al_udma_q_params =
  qp_size :: u32
  qp_desc_base :: ptr
  qp_desc_phy_base :: u64
  qp_cdesc_base :: ptr
  qp_cdesc_phy_base :: u64
  qp_cdesc_size :: u32
  qp_adapter_rev_id :: u8

record al_udma_params =
  up_udma_regs_base :: ptr
  up_type :: al_udma_type
  up_num_of_queues :: u8
  up_name :: "string option"

record al_udma_q =
  size_mask :: u16
  q_regs :: ptr
  desc_base_ptr :: ptr
  next_desc_idx :: u16
  desc_ring_id :: u32
  cdesc_base_ptr :: ptr
  cdesc_size :: u32
  next_cdesc_idx :: u16
  end_cdesc_ptr :: ptr
  comp_head_idx :: u16
  comp_head_ptr :: ptr
  pkt_crnt_descs :: u32
  comp_ring_id :: u32
  desc_phy_base :: u64
  cdesc_phy_base :: u64
  q_flags :: u32
  q_size :: u32
  q_status :: al_udma_queue_status
  qid :: u32
  q_adapter_rev_id :: u8

record al_udma =
  udma_name :: string
  udma_type :: al_udma_type
  udma_state :: al_udma_state
  num_of_queues :: u8
  udma_regs :: ptr
  gen_regs :: ptr
  udma_q :: "al_udma_q list"
  udma_rev_id :: u32

text \<open>Register addresses of a queue block, in the three views of \<open>union udma_q_regs\<close>.\<close>

definition rings_reg :: "al_udma_q \<Rightarrow> udma_rings_regs \<Rightarrow> ptr" where
  "rings_reg q r = q_regs q + off_rings r"

definition m2s_q_reg :: "al_udma_q \<Rightarrow> udma_m2s_q \<Rightarrow> ptr" where
  "m2s_q_reg q r = q_regs q + off_m2s_q r"

definition s2m_q_reg :: "al_udma_q \<Rightarrow> udma_s2m_q \<Rightarrow> ptr" where
  "s2m_q_reg q r = q_regs q + off_s2m_q r"

subsection \<open>Ring operations (al_hal_udma.h)\<close>

definition al_udma_available_get :: "al_udma_q \<Rightarrow> u32" where
  "al_udma_available_get q =
     (let tmp = next_cdesc_idx q - (next_desc_idx q + 1); tmp = tmp AND size_mask q in ucast tmp)"

definition al_udma_is_empty :: "al_udma_q \<Rightarrow> bool" where
  "al_udma_is_empty q \<longleftrightarrow> (next_cdesc_idx q - next_desc_idx q) AND size_mask q = 0"

definition al_udma_desc_get :: "al_udma_q \<Rightarrow> ptr \<times> al_udma_q" where
  "al_udma_desc_get q =
     (let i = next_desc_idx q;
          desc = desc_base_ptr q + sizeof_al_udma_desc * unat i;
          i = i + 1
      in (desc, q\<lparr>next_desc_idx := i AND size_mask q\<rparr>))"

definition al_udma_ring_id_get :: "al_udma_q \<Rightarrow> u32 \<times> al_udma_q" where
  "al_udma_ring_id_get q =
     (let ring_id = desc_ring_id q in
      if next_desc_idx q = 0 then (ring_id, q\<lparr>desc_ring_id := (desc_ring_id q + 1) AND DMA_RING_ID_MASK\<rparr>)
      else (ring_id, q))"

definition al_udma_desc_action_add :: "al_udma_q \<Rightarrow> u32 \<Rightarrow> mmio \<Rightarrow> mmio option" where
  "al_udma_desc_action_add q num m =
     do { al_assert (0 < num \<and> num \<le> q_size q);
          Some (al_reg_write32_relaxed m (rings_reg q rings_drtp_inc) num) }"

definition cdesc_is_first :: "u32 \<Rightarrow> bool" where
  "cdesc_is_first flags \<longleftrightarrow> flags AND AL_UDMA_CDESC_FIRST \<noteq> 0"

definition cdesc_is_last :: "u32 \<Rightarrow> bool" where
  "cdesc_is_last flags \<longleftrightarrow> flags AND AL_UDMA_CDESC_LAST \<noteq> 0"

text \<open>The product \<open>offset * cdesc_size\<close> is computed in 32 bits; the differences are pointer differences.\<close>

definition al_cdesc_next :: "al_udma_q \<Rightarrow> ptr \<Rightarrow> u32 \<Rightarrow> ptr option" where
  "al_cdesc_next q cdesc offset =
     (let tmp = cdesc + unat (offset * cdesc_size q) in
      do { al_assert (cdesc \<noteq> NULL);
           if end_cdesc_ptr q < tmp
           then Some (nat (int (cdesc_base_ptr q) + (int tmp - int (end_cdesc_ptr q) - int (unat (cdesc_size q)))))
           else Some tmp })"

definition al_udma_new_cdesc :: "al_udma_q \<Rightarrow> u32 \<Rightarrow> bool" where
  "al_udma_new_cdesc q flags \<longleftrightarrow>
     drop_bit AL_M2S_DESC_RING_ID_SHIFT (flags AND AL_M2S_DESC_RING_ID_MASK) = comp_ring_id q"

definition al_cdesc_next_update :: "al_udma_q \<Rightarrow> ptr \<Rightarrow> ptr \<times> al_udma_q" where
  "al_cdesc_next_update q cdesc =
     (if cdesc = end_cdesc_ptr q
      then (cdesc_base_ptr q, q\<lparr>comp_ring_id := (comp_ring_id q + 1) AND DMA_RING_ID_MASK\<rparr>)
      else (cdesc + unat (cdesc_size q), q))"

definition al_udma_cdesc_idx_to_ptr :: "al_udma_q \<Rightarrow> u16 \<Rightarrow> ptr" where
  "al_udma_cdesc_idx_to_ptr q idx = cdesc_base_ptr q + unat (ucast idx * cdesc_size q)"

text \<open>
  The completion head register is updated by the engine; its value at the time of the read is the
  argument \<open>crhp\<close>.  The second component is the pointer stored through \<open>cdesc\<close> when it is given.
\<close>

definition al_udma_cdesc_get_all :: "al_udma_q \<Rightarrow> u32 \<Rightarrow> bool \<Rightarrow> u32 \<times> ptr option \<times> al_udma_q" where
  "al_udma_cdesc_get_all q crhp want_cdesc =
     (let q = q\<lparr>comp_head_idx := ucast (crhp AND 0xFFFF)\<rparr>;
          count = (comp_head_idx q - next_cdesc_idx q) AND size_mask q;
          cdesc = (if want_cdesc then Some (al_udma_cdesc_idx_to_ptr q (next_cdesc_idx q)) else None)
      in (ucast count, cdesc, q))"

definition al_udma_cdesc_ack :: "al_udma_q \<Rightarrow> u32 \<Rightarrow> al_udma_q" where
  "al_udma_cdesc_ack q num =
     (let q = q\<lparr>next_cdesc_idx := next_cdesc_idx q + ucast num\<rparr>
      in q\<lparr>next_cdesc_idx := next_cdesc_idx q AND size_mask q\<rparr>)"

subsection \<open>Well-formed queues and their pending descriptors\<close>

text \<open>
  The submission side of a queue: the ring has \<open>2 ^ k\<close> descriptors with \<open>2 \<le> k \<le> 16\<close>, the mask
  matches, both indices are in range.
\<close>

definition udma_ring_ok :: "al_udma_q \<Rightarrow> bool" where
  "udma_ring_ok q \<longleftrightarrow>
     (\<exists>k \<in> {2..16}. q_size q = 2 ^ k \<and> size_mask q = mask k) \<and>
     unat (next_desc_idx q) < unat (q_size q) \<and> unat (next_cdesc_idx q) < unat (q_size q)"

text \<open>Descriptors handed out by \<open>al_udma_desc_get\<close> and not yet acknowledged, oldest first.\<close>

definition udma_in_flight :: "al_udma_q \<Rightarrow> nat" where
  "udma_in_flight q =
     (unat (next_desc_idx q) + unat (q_size q) - unat (next_cdesc_idx q)) mod unat (q_size q)"

definition udma_pend :: "al_udma_q \<Rightarrow> ptr list" where
  "udma_pend q = map (\<lambda>i. desc_base_ptr q + sizeof_al_udma_desc * i)
     (ring_slots (unat (q_size q)) (unat (next_cdesc_idx q)) (udma_in_flight q))"

lemma udma_ring_okE:
  assumes "udma_ring_ok q"
  obtains k where "2 \<le> k" "k \<le> 16" "unat (q_size q) = 2 ^ k" "size_mask q = mask k"
    "unat (next_desc_idx q) < 2 ^ k" "unat (next_cdesc_idx q) < 2 ^ k"
proof -
  from assms obtain k where k: "2 \<le> k" "k \<le> 16" "q_size q = 2 ^ k" "size_mask q = mask k"
    by (auto simp: udma_ring_ok_def)
  have "(2 :: nat) ^ k < 2 ^ 32"
    using k by (intro power_strict_increasing) auto
  then have "unat (q_size q) = 2 ^ k"
    using k by (simp add: unat_pow2)
  with assms k that show thesis by (auto simp: udma_ring_ok_def)
qed

text \<open>The counting argument shared by the capacity lemmas: in-flight, free and the spare slot fill the ring.\<close>

lemma ring_count:
  fixes d c n :: nat
  assumes "d < n" "c < n"
  shows "(c + n - (d + 1)) mod n + (d + n - c) mod n = n - 1"
proof (cases "c \<le> d")
  case True
  then have "(d + n - c) mod n = d - c" using assms
    by (metis Nat.add_diff_assoc2 less_imp_diff_less mod_add_self2 mod_less)
  moreover have "(c + n - (d + 1)) mod n = n - 1 - (d - c)" using True assms by simp
  ultimately show ?thesis using True assms by simp
next
  case False
  then have "(c + n - (d + 1)) mod n = c - (d + 1)" using assms
    by (metis Nat.add_diff_assoc2 Suc_eq_plus1 Suc_leI less_imp_diff_less linorder_not_le mod_add_self2 mod_less)
  moreover have "(d + n - c) mod n = n - (c - d)" using False assms by simp
  ultimately show ?thesis using False assms by simp
qed

lemma available_unat:
  assumes "udma_ring_ok q"
  shows "unat (al_udma_available_get q) + udma_in_flight q = unat (q_size q) - 1"
  using assms
proof (cases rule: udma_ring_okE)
  case (1 k)
  then have le: "(2 :: nat) ^ k \<le> 2 ^ 16" by (intro power_increasing) auto
  have "unat (next_desc_idx q + 1) = unat (next_desc_idx q) + 1 \<or> next_desc_idx q + 1 = 0"
    by (rule unat_incr)
  then have "unat (al_udma_available_get q) = (unat (next_cdesc_idx q) + 2 ^ k - (unat (next_desc_idx q) + 1)) mod 2 ^ k"
  proof
    assume "unat (next_desc_idx q + 1) = unat (next_desc_idx q) + 1"
    then show ?thesis using 1 by (simp add: al_udma_available_get_def unat_diff_and_mask)
  next
    assume z: "next_desc_idx q + 1 = 0"
    then have "next_desc_idx q = - 1" by (simp add: add_eq_0_iff2)
    then have m: "unat (next_desc_idx q) = 2 ^ 16 - 1" by (simp add: unsigned_minus_1_eq_mask mask_eq_exp_minus_1)
    with 1 le have "2 ^ k = (2 ^ 16 :: nat)" by simp
    then show ?thesis using 1 z m by (simp add: al_udma_available_get_def unat_and_mask)
  qed
  with 1 show ?thesis using ring_count [of "unat (next_desc_idx q)" "2 ^ k" "unat (next_cdesc_idx q)"]
    by (simp add: udma_in_flight_def)
qed

lemma flight_unique:
  fixes c d f n :: nat
  assumes "c < n" "f < n" "(c + f) mod n = d"
  shows "(d + n - c) mod n = f"
proof (cases "c + f < n")
  case True
  with assms show ?thesis by auto
next
  case False
  with assms have "d = c + f - n" by (auto simp: mod_if)
  with False assms show ?thesis by simp
qed

lemma flight_index:
  fixes c d n :: nat
  assumes "d < n" "c < n"
  shows "(c + (d + n - c) mod n) mod n = d"
proof -
  have "(c + (d + n - c) mod n) mod n = (c + (d + n - c)) mod n"
    by (simp add: mod_add_right_eq)
  also have "\<dots> = d" using assms by simp
  finally show ?thesis .
qed

lemma in_flight_less: "udma_ring_ok q \<Longrightarrow> udma_in_flight q < unat (q_size q)"
  by (elim udma_ring_okE) (simp add: udma_in_flight_def)

lemma in_flight_index:
  "udma_ring_ok q \<Longrightarrow>
     (unat (next_cdesc_idx q) + udma_in_flight q) mod unat (q_size q) = unat (next_desc_idx q)"
  by (elim udma_ring_okE) (simp add: udma_in_flight_def flight_index)

lemma udma_in_flight_eqI:
  assumes "udma_ring_ok q" "f < unat (q_size q)"
    and "(unat (next_cdesc_idx q) + f) mod unat (q_size q) = unat (next_desc_idx q)"
  shows "udma_in_flight q = f"
  using assms flight_unique [of "unat (next_cdesc_idx q)" "unat (q_size q)" f]
  by (simp add: udma_in_flight_def udma_ring_ok_def)

lemma length_udma_pend [simp]: "length (udma_pend q) = udma_in_flight q"
  by (simp add: udma_pend_def)

lemma cdesc_ack_q_size [simp]: "q_size (al_udma_cdesc_ack q n) = q_size q"
  by (simp add: al_udma_cdesc_ack_def Let_def)

lemma udma_pend_distinct: "udma_ring_ok q \<Longrightarrow> distinct (udma_pend q)"
  using in_flight_less [of q]
  by (auto simp: udma_pend_def distinct_map sizeof_al_udma_desc_def inj_on_def intro!: distinct_ring_slots)

lemma desc_get_step:
  assumes ok: "udma_ring_ok q" and av: "0 < unat (al_udma_available_get q)"
    and get: "al_udma_desc_get q = (d, q')"
  shows "udma_ring_ok q' \<and> q_size q' = q_size q \<and> udma_pend q' = udma_pend q @ [d] \<and>
    udma_in_flight q' = udma_in_flight q + 1"
  using ok
proof (cases rule: udma_ring_okE)
  case (1 k)
  let ?n = "unat (q_size q)" and ?c = "unat (next_cdesc_idx q)" and ?f = "udma_in_flight q"
  have eq: "d = desc_base_ptr q + sizeof_al_udma_desc * unat (next_desc_idx q)"
    "q' = q\<lparr>next_desc_idx := (next_desc_idx q + 1) AND mask k\<rparr>"
    using get 1 by (auto simp: al_udma_desc_get_def Let_def)
  have idx: "unat (next_desc_idx q') = (unat (next_desc_idx q) + 1) mod ?n"
    using 1 by (simp add: eq unat_add_and_mask)
  have ok': "udma_ring_ok q'"
    using ok 1 by (auto simp: udma_ring_ok_def eq unat_and_mask)
  have "?f + 1 < ?n" using available_unat [OF ok] av by simp
  moreover have "(?c + (?f + 1)) mod ?n = unat (next_desc_idx q')"
    unfolding idx using in_flight_index [OF ok] by (metis add.assoc mod_add_left_eq)
  ultimately have f': "udma_in_flight q' = ?f + 1"
    using ok' by (intro udma_in_flight_eqI) (simp_all add: eq)
  have "udma_pend q' = udma_pend q @ [d]"
    using in_flight_index [OF ok] by (simp add: udma_pend_def f') (simp add: eq ring_slots_Suc)
  with ok' f' show ?thesis by (simp add: eq)
qed

lemma cdesc_ack_step:
  assumes ok: "udma_ring_ok q" and le: "m \<le> udma_in_flight q"
  defines "q' \<equiv> al_udma_cdesc_ack q (of_nat m)"
  shows "udma_ring_ok q' \<and> q_size q' = q_size q \<and> udma_pend q' = drop m (udma_pend q) \<and>
    udma_in_flight q' = udma_in_flight q - m"
  using ok
proof (cases rule: udma_ring_okE)
  case (1 k)
  let ?n = "unat (q_size q)" and ?c = "unat (next_cdesc_idx q)" and ?f = "udma_in_flight q"
  have pw: "(2 :: nat) ^ k \<le> 2 ^ 16" using 1 by (intro power_increasing) auto
  have m: "m < 2 ^ 16" using le in_flight_less [OF ok] 1 pw by simp
  then have um: "unat (ucast (of_nat m :: u32) :: u16) = m"
    by (simp add: unsigned_ucast_eq unsigned_of_nat take_bit_nat_eq_self)
  have eq: "q' = q\<lparr>next_cdesc_idx := (next_cdesc_idx q + ucast (of_nat m :: u32)) AND mask k\<rparr>"
    using 1 by (simp add: q'_def al_udma_cdesc_ack_def Let_def)
  have idx: "unat (next_cdesc_idx q') = (?c + m) mod ?n"
    using 1 by (simp add: eq unat_add_and_mask um)
  have ok': "udma_ring_ok q'"
    using ok 1 by (auto simp: udma_ring_ok_def eq unat_and_mask)
  have "(unat (next_cdesc_idx q') + (?f - m)) mod ?n = unat (next_desc_idx q')"
  proof -
    have "((?c + m) mod ?n + (?f - m)) mod ?n = (?c + m + (?f - m)) mod ?n"
      by (rule mod_add_left_eq)
    also have "?c + m + (?f - m) = ?c + ?f" using le by simp
    finally show ?thesis using in_flight_index [OF ok] by (simp add: idx) (simp add: eq)
  qed
  moreover have "?f - m < ?n" using in_flight_less [OF ok] by simp
  ultimately have f': "udma_in_flight q' = ?f - m"
    using ok' by (intro udma_in_flight_eqI) (simp_all add: eq)
  have "udma_pend q' = drop m (udma_pend q)"
    using le by (simp add: udma_pend_def f' idx drop_map ring_slots_drop)
      (simp add: eq ring_slots_mod)
  with ok' f' show ?thesis by (simp add: eq)
qed

interpretation udma_ring: bounded_ring udma_ring_ok "\<lambda>q. unat (q_size q) - 1" udma_pend
  "\<lambda>q. unat (al_udma_available_get q)" al_udma_desc_get "\<lambda>q n. al_udma_cdesc_ack q (of_nat n)"
proof (unfold_locales, goal_cases)
  case (1 q)
  then show ?case using available_unat by simp
next
  case (2 q)
  then show ?case by (rule udma_pend_distinct)
next
  case (3 q d q')
  from desc_get_step [OF 3] show ?case by simp
next
  case (4 q n)
  then show ?case using cdesc_ack_step [of q n] by simp
qed

subsection \<open>Sequences of submissions and acknowledgements\<close>

text \<open>
  A client that respects the interface takes a descriptor only when \<open>al_udma_available_get\<close> is
  positive and acknowledges no more descriptors than are pending.  \<open>udma_run\<close> executes such a
  sequence and collects the descriptors handed out; \<^term>\<open>None\<close> marks a sequence that breaks the rule.
\<close>

datatype ring_op = Submit | Ack nat

fun udma_run :: "ring_op list \<Rightarrow> al_udma_q \<Rightarrow> (ptr list \<times> al_udma_q) option" where
  "udma_run [] q = Some ([], q)"
| "udma_run (Submit # ops) q =
     (if 0 < al_udma_available_get q
      then let (d, q) = al_udma_desc_get q in map_option (\<lambda>(ds, q). (d # ds, q)) (udma_run ops q)
      else None)"
| "udma_run (Ack n # ops) q =
     (if n \<le> udma_in_flight q then udma_run ops (al_udma_cdesc_ack q (of_nat n)) else None)"

fun acked :: "ring_op list \<Rightarrow> nat" where
  "acked [] = 0"
| "acked (Submit # ops) = acked ops"
| "acked (Ack n # ops) = n + acked ops"

text \<open>
  The submission counter of a queue: \<open>s\<close> descriptors were taken since initialisation.  The index is
  \<open>s\<close> modulo the ring size, the ring id is the lap number modulo four, starting at one.
\<close>

definition udma_submitted :: "al_udma_q \<Rightarrow> nat \<Rightarrow> bool" where
  "udma_submitted q s \<longleftrightarrow>
     unat (next_desc_idx q) = s mod unat (q_size q) \<and>
     unat (desc_ring_id q) = (1 + s div unat (q_size q)) mod 4"

lemma unat_next_ring_id: "unat ((r + 1) AND DMA_RING_ID_MASK) = (unat r + 1) mod 4" for r :: u32
  using unat_add_and_mask [of 2 r 1] by (simp add: DMA_RING_ID_MASK_def mask_eq_exp_minus_1)

lemma desc_ring_id_step:
  assumes "udma_ring_ok q" "udma_submitted q s"
    and "al_udma_desc_get q = (d, q1)" "al_udma_ring_id_get q1 = (rid, q2)"
  shows "d = desc_base_ptr q + 16 * (s mod unat (q_size q)) \<and>
    unat rid = (1 + s div unat (q_size q)) mod 4 \<and>
    udma_submitted q2 (s + 1) \<and> udma_ring_ok q2 \<and> next_cdesc_idx q2 = next_cdesc_idx q"
  using assms(1)
proof (cases rule: udma_ring_okE)
  case (1 k)
  have q1: "d = desc_base_ptr q + 16 * unat (next_desc_idx q)"
    "q1 = q\<lparr>next_desc_idx := (next_desc_idx q + 1) AND mask k\<rparr>"
    using assms(3) 1 by (auto simp: al_udma_desc_get_def Let_def sizeof_al_udma_desc_def)
  have idx: "unat (next_desc_idx q1) = (s + 1) mod 2 ^ k"
    using 1 assms(2) by (simp add: q1 unat_add_and_mask udma_submitted_def mod_simps)
  have q2: "rid = desc_ring_id q"
    "q2 = (if next_desc_idx q1 = 0 then q1\<lparr>desc_ring_id := (desc_ring_id q + 1) AND DMA_RING_ID_MASK\<rparr> else q1)"
    using assms(4) by (auto simp: al_udma_ring_id_get_def Let_def q1 split: if_splits)
  have z: "next_desc_idx q1 = 0 \<longleftrightarrow> (s + 1) mod 2 ^ k = 0"
    unfolding idx [symmetric] by (simp add: unat_eq_zero)
  have "unat (desc_ring_id q2) = (1 + (s + 1) div 2 ^ k) mod 4"
    using assms(2) 1 z by (auto simp: q2 q1 udma_submitted_def unat_next_ring_id div_Suc mod_Suc_eq)
  moreover have "unat (next_desc_idx q2) = (s + 1) mod 2 ^ k" 
  proof -
    have "next_desc_idx q2 = next_desc_idx q1" by (simp add: q2)
    with idx show ?thesis by (simp only:)
  qed
  ultimately show ?thesis using assms(1,2) 1
    by (auto simp: q2 udma_submitted_def q1 udma_ring_ok_def unat_and_mask)
qed

text \<open>The completion head register stands \<open>c\<close> descriptors after the next one to complete.\<close>

definition head_at :: "u32 \<Rightarrow> al_udma_q \<Rightarrow> nat \<Rightarrow> bool" where
  "head_at crhp q c \<longleftrightarrow> c \<le> udma_in_flight q \<and>
     unat (crhp AND 0xFFFF) = (unat (next_cdesc_idx q) + c) mod unat (q_size q)"

lemma get_all_count:
  assumes "udma_ring_ok q" "head_at crhp q c"
  defines "h \<equiv> ucast (crhp AND 0xFFFF) :: u16"
  shows "unat h = (unat (next_cdesc_idx q) + c) mod unat (q_size q)"
    "al_udma_cdesc_get_all q crhp w =
       (of_nat c, if w then Some (al_udma_cdesc_idx_to_ptr q (next_cdesc_idx q)) else None, q\<lparr>comp_head_idx := h\<rparr>)"
    "unat (of_nat c :: u32) = c" "unat (ucast (of_nat c :: u32) :: u16) = c"
  using assms(1)
proof -
  obtain k where k: "2 \<le> k" "k \<le> 16" "unat (q_size q) = 2 ^ k" "size_mask q = mask k"
    "unat (next_desc_idx q) < 2 ^ k" "unat (next_cdesc_idx q) < 2 ^ k"
    using assms(1) by (rule udma_ring_okE)
  have pw: "(2 :: nat) ^ k \<le> 2 ^ 16" using k by (intro power_increasing) auto
  have cn: "c < 2 ^ k" using in_flight_less [OF assms(1)] assms(2) k by (simp add: head_at_def)
  show c: "unat (of_nat c :: u32) = c" "unat (ucast (of_nat c :: u32) :: u16) = c"
    using cn pw by (simp_all add: unsigned_ucast_eq unsigned_of_nat take_bit_nat_eq_self)
  have "(unat (next_cdesc_idx q) + c) mod 2 ^ k < 2 ^ 16"
    by (rule order.strict_trans2 [OF _ pw]) simp
  then show h: "unat h = (unat (next_cdesc_idx q) + c) mod unat (q_size q)"
    using assms(2) k by (simp add: h_def unsigned_ucast_eq take_bit_nat_eq_self_iff head_at_def)
  have un: "unat (ucast ((h - next_cdesc_idx q) AND mask k) :: u32) = c"
    unfolding unat_ucast_u16_u32 using k cn h flight_unique [of "unat (next_cdesc_idx q)" "2 ^ k" c]
    by (simp add: unat_diff_and_mask)
  have "ucast ((h - next_cdesc_idx q) AND mask k) = (of_nat c :: u32)"
    unfolding un [symmetric] by simp
  then show "al_udma_cdesc_get_all q crhp w =
       (of_nat c, if w then Some (al_udma_cdesc_idx_to_ptr q (next_cdesc_idx q)) else None, q\<lparr>comp_head_idx := h\<rparr>)"
    using k by (simp add: al_udma_cdesc_get_all_def Let_def h_def al_udma_cdesc_idx_to_ptr_def)
qed

subsection \<open>Properties\<close>

text \<open>
  C1: the submission ring is a bounded first-in first-out queue.  For every sequence of
  submissions and acknowledgements that respects the interface, the descriptors pending at the end
  are exactly those handed out (before or during the sequence) less the oldest acknowledged ones,
  they are pairwise distinct, the queue stays well formed and the free count is what is left of
  \<open>size - 1\<close>.
\<close>

theorem udma_ring_fifo:
  assumes "udma_ring_ok q" "udma_run ops q = Some (ds, q')"
  shows "udma_ring_ok q' \<and> udma_pend q' = drop (acked ops) (udma_pend q @ ds) \<and> distinct (udma_pend q') \<and>
    unat (al_udma_available_get q') + length (udma_pend q') = unat (q_size q') - 1 \<and> q_size q' = q_size q"
proof -
  have "udma_ring_ok q' \<and> q_size q' = q_size q \<and> acked ops \<le> length (udma_pend q @ ds) \<and>
      udma_pend q' = drop (acked ops) (udma_pend q @ ds)"
    using assms
  proof (induction ops q arbitrary: ds rule: udma_run.induct)
    case (1 q)
    then show ?case by simp
  next
    case (2 ops q)
    then have pos: "0 < unat (al_udma_available_get q)" by (auto simp: word_less_nat_alt split: if_splits)
    obtain d q1 where g: "al_udma_desc_get q = (d, q1)" by fastforce
    from 2 g obtain ds1 where r: "udma_run ops q1 = Some (ds1, q')" "ds = d # ds1"
      by (auto split: if_splits)
    note s = udma_ring.alloc_step [OF 2(2) pos g] desc_get_step [OF 2(2) pos g]
    from 2(1) [OF _ g [symmetric] refl _ r(1)] s pos r(2) show ?case by (auto simp: word_less_nat_alt)
  next
    case (3 n ops q)
    then have le: "n \<le> length (udma_pend q)" by (auto split: if_splits)
    from udma_ring.release_step [OF 3(2) le] 3 le show ?case
      by (auto split: if_splits simp: add.commute)
  qed
  then show ?thesis using udma_ring.avail_pend [of q'] udma_ring.pend_distinct [of q'] by simp
qed

text \<open>A freshly initialised queue of eight descriptors, for concrete instances.\<close>

definition demo_q :: al_udma_q where
  "demo_q = \<lparr>size_mask = 7, q_regs = 0x1000, desc_base_ptr = 0x80000, next_desc_idx = 0,
     desc_ring_id = 1, cdesc_base_ptr = 0x90000, cdesc_size = 16, next_cdesc_idx = 0,
     end_cdesc_ptr = 0x90070, comp_head_idx = 0, comp_head_ptr = 0x90000, pkt_crnt_descs = 0,
     comp_ring_id = 1, desc_phy_base = 0x80000, cdesc_phy_base = 0x90000, q_flags = 0, q_size = 8,
     q_status = AL_QUEUE_ENABLED, qid = 0, q_adapter_rev_id = 0\<rparr>"

lemma demo_q_ok: "udma_ring_ok demo_q"
  unfolding udma_ring_ok_def by (intro conjI bexI [of _ 3]) (simp_all add: demo_q_def mask_eq_exp_minus_1)

theorem udma_ring_fifo_witness:
  "\<exists>ds q'. udma_run [Submit, Submit, Ack 1, Submit] demo_q = Some (ds, q') \<and>
     udma_pend q' = [0x80010, 0x80020]"
proof -
  obtain ds q' where r: "udma_run [Submit, Submit, Ack 1, Submit] demo_q = Some (ds, q')"
    and ds: "ds = [0x80000, 0x80010, 0x80020]"
    by (simp add: demo_q_def al_udma_available_get_def al_udma_desc_get_def al_udma_cdesc_ack_def
        udma_in_flight_def sizeof_al_udma_desc_def)
  from udma_ring_fifo [OF demo_q_ok r] have "udma_pend q' = drop 1 (udma_pend demo_q @ ds)" by simp
  moreover have "udma_pend demo_q = []" by (simp add: udma_pend_def udma_in_flight_def demo_q_def)
  ultimately show ?thesis using r ds by auto
qed

text \<open>
  C14: each submission takes the next slot of the ring and is stamped with the ring id of its lap:
  the descriptor number \<open>s\<close> since initialisation gets slot \<open>s mod size\<close> and ring id
  \<open>(1 + s div size) mod 4\<close>, and the queue then stands at \<open>s + 1\<close>.
\<close>

theorem desc_get_ring_id:
  assumes "udma_ring_ok q" "udma_submitted q s"
    and "al_udma_desc_get q = (d, q1)" "al_udma_ring_id_get q1 = (rid, q2)"
  shows "d = desc_base_ptr q + 16 * (s mod unat (q_size q)) \<and>
    unat rid = (1 + s div unat (q_size q)) mod 4 \<and>
    udma_submitted q2 (s + 1) \<and> udma_ring_ok q2 \<and> next_cdesc_idx q2 = next_cdesc_idx q"
  using assms by (rule desc_ring_id_step)

theorem desc_get_ring_id_witness:
  "\<exists>q. udma_submitted q 23 \<and> unat (fst (al_udma_ring_id_get (snd (al_udma_desc_get q)))) = 3"
proof -
  let ?q = "demo_q\<lparr>next_desc_idx := 7, desc_ring_id := 3\<rparr>"
  have ok: "udma_ring_ok ?q"
    unfolding udma_ring_ok_def by (intro conjI bexI [of _ 3]) (simp_all add: demo_q_def mask_eq_exp_minus_1)
  have sub: "udma_submitted ?q 23" by (simp add: udma_submitted_def demo_q_def)
  from desc_get_ring_id [OF ok sub prod.collapse [symmetric] prod.collapse [symmetric]]
  have "unat (fst (al_udma_ring_id_get (snd (al_udma_desc_get ?q)))) = (1 + 23 div unat (q_size ?q)) mod 4"
    by simp
  with sub show ?thesis by (auto simp: demo_q_def)
qed

text \<open>
  \<open>al_udma_cdesc_get_all\<close> counts the completions.  When the engine has completed \<open>c\<close> of the
  pending descriptors, so that its head pointer register holds the index \<open>c\<close> slots after the next
  one to complete, the call returns \<open>c\<close> and the address of the first of them; acknowledging that
  count moves the queue to the engine's head and frees \<open>c\<close> descriptors.
\<close>

theorem cdesc_get_all_ack:
  assumes "udma_ring_ok q" "head_at crhp q c"
    and "unat (q_size q) * unat (cdesc_size q) < 2 ^ 32"
    and "al_udma_cdesc_get_all q crhp True = (n, p, q')"
  shows "unat n = c \<and> p = Some (cdesc_base_ptr q + unat (next_cdesc_idx q) * unat (cdesc_size q)) \<and>
    next_cdesc_idx (al_udma_cdesc_ack q' n) = comp_head_idx q' \<and>
    udma_in_flight (al_udma_cdesc_ack q' n) = udma_in_flight q - c"
proof -
  let ?h = "ucast (crhp AND 0xFFFF) :: u16"
  note g = get_all_count [OF assms(1,2)]
  have eq: "n = of_nat c" "p = Some (al_udma_cdesc_idx_to_ptr q (next_cdesc_idx q))" "q' = q\<lparr>comp_head_idx := ?h\<rparr>"
    using assms(4) by (simp_all add: g(2))
  have idx: "unat (next_cdesc_idx q) < unat (q_size q)" using assms(1) by (simp add: udma_ring_ok_def)
  then have "unat (next_cdesc_idx q) * unat (cdesc_size q) < 2 ^ 32"
    using assms(3) by (meson le_less_trans less_imp_le mult_le_mono1)
  then have ptr: "unat (ucast (next_cdesc_idx q) * cdesc_size q) = unat (next_cdesc_idx q) * unat (cdesc_size q)"
    by (simp add: unat_word_ariths)
  have ok': "udma_ring_ok q'" "udma_in_flight q' = udma_in_flight q"
    using assms(1) by (simp_all add: eq udma_ring_ok_def udma_in_flight_def)
  obtain k where k: "unat (q_size q) = 2 ^ k" "size_mask q = mask k" "k \<le> 16"
    using assms(1) by (rule udma_ring_okE)
  have "unat (next_cdesc_idx (al_udma_cdesc_ack q' n)) = unat ?h"
    using k g(1,4) by (simp add: al_udma_cdesc_ack_def eq Let_def unat_add_and_mask)
  then have "next_cdesc_idx (al_udma_cdesc_ack q' n) = comp_head_idx q'" by (simp add: eq word_unat_eq_iff)
  then show ?thesis
    using ptr cdesc_ack_step [OF ok'(1), of c] ok'(2) assms(2) g(3)
    by (simp add: al_udma_cdesc_idx_to_ptr_def eq(1,2) head_at_def)
qed

theorem cdesc_get_all_ack_witness:
  "\<exists>q q' p. udma_in_flight q = 5 \<and> al_udma_cdesc_get_all q 0xABCD0002 True = (4, p, q') \<and>
     udma_in_flight (al_udma_cdesc_ack q' 4) = 1"
proof -
  let ?q = "demo_q\<lparr>next_desc_idx := 3, next_cdesc_idx := 6\<rparr>"
  have ok: "udma_ring_ok ?q"
    unfolding udma_ring_ok_def by (intro conjI bexI [of _ 3]) (simp_all add: demo_q_def mask_eq_exp_minus_1)
  have f: "udma_in_flight ?q = 5" by (simp add: udma_in_flight_def demo_q_def)
  obtain n p q' where g: "al_udma_cdesc_get_all ?q 0xABCD0002 True = (n, p, q')"
    by (metis surj_pair)
  have "unat n = 4 \<and> udma_in_flight (al_udma_cdesc_ack q' n) = 5 - 4"
    using cdesc_get_all_ack [OF ok _ _ g, of 4] f by (simp add: demo_q_def head_at_def)
  moreover from this have "n = 4" by (simp add: word_unat_eq_iff)
  ultimately show ?thesis using f g by auto
qed

end
