(* ===== verification/Udma_Main.thy ===== *)
theory Udma_Main
  imports Udma
begin

text \<open>
  Engine and queue initialisation, queue reset, state control and packet completion
  (\<open>al_hal_udma_main.c\<close>, \<open>al_udma_get_revision\<close> of \<open>al_hal_udma_config.h\<close>).  An operation takes the
  register space and returns the updated one; \<^term>\<open>None\<close> is a failed \<open>al_assert\<close>.  Registers the
  engine updates on its own (queue status, head pointers, state) are sampled by the polling loops:
  their successive values are arguments.
\<close>

subsection \<open>Initialisation of the engine\<close>

definition al_udma_get_revision :: "ptr \<Rightarrow> mmio \<Rightarrow> u32" where
  "al_udma_get_revision unit_regs m =
     AL_REG_FIELD_GET (al_reg_read32 m (unit_regs + unit_regs_gen + off_gen_regs (gen_regs_dma_misc gen_dma_misc_revision)))
       UDMA_GEN_DMA_MISC_REVISION_PROGRAMMING_ID_MASK UDMA_GEN_DMA_MISC_REVISION_PROGRAMMING_ID_SHIFT"

text \<open>The revision is kept in a \<open>uint8_t\<close> here; \<open>udma_regs\<close> of a TX engine is the base of the unit.\<close>

definition al_udma_set_defaults :: "al_udma \<Rightarrow> mmio \<Rightarrow> mmio" where
  "al_udma_set_defaults u m =
     (let rev_id = ucast (udma_rev_id u) :: u8 in
      case udma_type u of
        UDMA_TX \<Rightarrow>
          (let tmp_unit_regs = udma_regs u;
               m = (if AL_UDMA_REV_ID_2 \<le> ucast rev_id
                    then al_reg_write32_masked m (tmp_unit_regs + unit_regs_m2s + off_m2s_regs (m2s_regs_m2s_rd m2s_rd_data_cfg))
                           UDMA_M2S_RD_DATA_CFG_DATA_FIFO_DEPTH_MASK
                           (push_bit UDMA_M2S_RD_DATA_CFG_DATA_FIFO_DEPTH_SHIFT 256)
                    else m);
               m = al_reg_write32 m (tmp_unit_regs + unit_regs_gen + off_gen_regs (gen_regs_axi gen_axi_cfg_1)) 1000000
           in al_reg_write32 m (tmp_unit_regs + unit_regs_m2s + off_m2s_regs (m2s_regs_m2s_comp m2s_comp_cfg_application_ack)) 0)
      | UDMA_RX \<Rightarrow>
          al_reg_write32 m (udma_regs u + off_s2m_regs (s2m_regs_s2m_comp s2m_comp_cfg_application_ack)) 0)"

definition al_udma_init :: "al_udma \<Rightarrow> al_udma_params \<Rightarrow> mmio \<Rightarrow> rc \<times> al_udma \<times> mmio" where
  "al_udma_init u params m =
     (if of_nat DMA_MAX_Q < up_num_of_queues params then (RcErr EINVAL, u, m)
      else
        let base = up_udma_regs_base params;
            u = u\<lparr>udma_type := up_type params, num_of_queues := up_num_of_queues params,
                  gen_regs := base + unit_regs_gen\<rparr>;
            u = (if udma_type u = UDMA_TX then u\<lparr>udma_regs := base + unit_regs_m2s\<rparr>
                 else u\<lparr>udma_regs := base + unit_regs_s2m\<rparr>);
            u = u\<lparr>udma_rev_id := al_udma_get_revision base m\<rparr>;
            u = u\<lparr>udma_name := (case up_name params of None \<Rightarrow> '''' | Some n \<Rightarrow> n)\<rparr>;
            u = u\<lparr>udma_state := UDMA_DISABLE\<rparr>;
            u = u\<lparr>udma_q := map (\<lambda>q. q\<lparr>q_status := AL_QUEUE_NOT_INITIALIZED\<rparr>) (take DMA_MAX_Q (udma_q u)) @
                            drop DMA_MAX_Q (udma_q u)\<rparr>
        in (RcOk, u, al_udma_set_defaults u m))"

subsection \<open>Queue initialisation\<close>

definition al_udma_q_config :: "al_udma \<Rightarrow> al_udma_q \<Rightarrow> mmio \<Rightarrow> mmio" where
  "al_udma_q_config u q m =
     (if udma_type u = UDMA_TX then
        let reg_addr = m2s_q_reg q (m2s_q_rlimit rlimit_common_mask);
            val = al_reg_read32 m reg_addr;
            val = AL_REG_MASK_CLEAR val UDMA_M2S_Q_RATE_LIMIT_MASK_INTERNAL_PAUSE_DMB
        in al_reg_write32 m reg_addr val
      else m)"

definition al_udma_q_config_compl :: "al_udma \<Rightarrow> al_udma_q \<Rightarrow> mmio \<Rightarrow> mmio" where
  "al_udma_q_config_compl u q m =
     (let reg_addr = (if udma_type u = UDMA_TX then m2s_q_reg q m2s_q_comp_cfg else s2m_q_reg q s2m_q_comp_cfg);
          val = al_reg_read32 m reg_addr;
          val = (if q_flags q AND AL_UDMA_Q_FLAGS_NO_COMP_UPDATE \<noteq> 0
                 then AL_REG_MASK_CLEAR val UDMA_M2S_Q_COMP_CFG_EN_COMP_RING_UPDATE
                 else AL_REG_MASK_SET val UDMA_M2S_Q_COMP_CFG_EN_COMP_RING_UPDATE);
          val = AL_REG_MASK_SET val UDMA_M2S_Q_COMP_CFG_DIS_COMP_COAL;
          m = al_reg_write32 m reg_addr val
      in if udma_type u = UDMA_RX then
           let cfg = udma_regs u + off_s2m_regs (s2m_regs_s2m_comp s2m_comp_cfg_1c);
               val = al_reg_read32 m cfg;
               val = AL_REG_CLEAR_AND_SET val UDMA_S2M_COMP_CFG_1C_DESC_SIZE_MASK
                       (drop_bit 2 (cdesc_size q) AND UDMA_S2M_COMP_CFG_1C_DESC_SIZE_MASK)
           in al_reg_write32 m cfg val
         else m)"

definition al_udma_q_set_pointers :: "al_udma \<Rightarrow> al_udma_q \<Rightarrow> mmio \<Rightarrow> (al_udma_q \<times> mmio) option" where
  "al_udma_q_set_pointers u q m =
     do { al_assert (AL_ADDR_LOW (desc_phy_base q) AND NOT UDMA_M2S_Q_TDRBP_LOW_ADDR_MASK = 0);
          let m = al_reg_write32 m (rings_reg q rings_drbp_low) (AL_ADDR_LOW (desc_phy_base q));
          let m = al_reg_write32 m (rings_reg q rings_drbp_high) (AL_ADDR_HIGH (desc_phy_base q));
          let m = al_reg_write32 m (rings_reg q rings_drl) (q_size q);
          (q, m) \<leftarrow>
            (if cdesc_base_ptr q = NULL
             then Some (q\<lparr>q_flags := q_flags q OR AL_UDMA_Q_FLAGS_NO_COMP_UPDATE\<rparr>, m)
             else do { al_assert (AL_ADDR_LOW (cdesc_phy_base q) AND NOT UDMA_M2S_Q_TCRBP_LOW_ADDR_MASK = 0);
                       let m = al_reg_write32 m (rings_reg q rings_crbp_low) (AL_ADDR_LOW (cdesc_phy_base q));
                       let m = al_reg_write32 m (rings_reg q rings_crbp_high) (AL_ADDR_HIGH (cdesc_phy_base q));
                       Some (q, m) });
          Some (q, al_udma_q_config_compl u q m) }"

definition q_cfg_en :: u32 where
  "q_cfg_en = UDMA_M2S_Q_CFG_EN_PREF OR UDMA_M2S_Q_CFG_EN_SCHEDULING"

definition al_udma_q_enable :: "al_udma_q \<Rightarrow> bool \<Rightarrow> mmio \<Rightarrow> al_udma_q \<times> mmio" where
  "al_udma_q_enable q enable m =
     (let reg = al_reg_read32 m (rings_reg q rings_cfg);
          (reg, q) = (if enable then (AL_REG_MASK_SET reg q_cfg_en, q\<lparr>q_status := AL_QUEUE_ENABLED\<rparr>)
                      else (AL_REG_MASK_CLEAR reg q_cfg_en, q\<lparr>q_status := AL_QUEUE_DISABLED\<rparr>))
      in (q, al_reg_write32 m (rings_reg q rings_cfg) reg))"

text \<open>
  \<open>al_udma_q_init\<close>.  The record built by the assignments of the function body is \<open>q_init_fields\<close>; a
  pointer \<open>end_cdesc_ptr\<close> is computed with a 32-bit product.
\<close>

definition q_init_fields :: "al_udma \<Rightarrow> u32 \<Rightarrow> al_udma_q_params \<Rightarrow> al_udma_q \<Rightarrow> al_udma_q" where
  "q_init_fields u i qp q =
     q\<lparr>q_regs := (if udma_type u = UDMA_TX then m2s_q_block (udma_regs u) (unat i) else s2m_q_block (udma_regs u) (unat i)),
       q_adapter_rev_id := qp_adapter_rev_id qp,
       q_size := qp_size qp,
       size_mask := ucast (qp_size qp - 1),
       desc_base_ptr := qp_desc_base qp,
       desc_phy_base := qp_desc_phy_base qp,
       cdesc_base_ptr := qp_cdesc_base qp,
       cdesc_phy_base := qp_cdesc_phy_base qp,
       cdesc_size := qp_cdesc_size qp,
       next_desc_idx := 0,
       next_cdesc_idx := 0,
       end_cdesc_ptr := qp_cdesc_base qp + unat ((qp_size qp - 1) * qp_cdesc_size qp),
       comp_head_idx := 0,
       comp_head_ptr := qp_cdesc_base qp,
       desc_ring_id := AL_UDMA_INITIAL_RING_ID,
       comp_ring_id := AL_UDMA_INITIAL_RING_ID,
       pkt_crnt_descs := 0,
       q_flags := 0,
       q_status := AL_QUEUE_DISABLED,
       qid := i\<rparr>"

definition al_udma_q_init :: "al_udma \<Rightarrow> u32 \<Rightarrow> al_udma_q_params \<Rightarrow> mmio \<Rightarrow> (rc \<times> al_udma \<times> mmio) option" where
  "al_udma_q_init u i qp m =
     (if ucast (num_of_queues u) \<le> i then Some (RcErr EINVAL, u, m)
      else if q_status (udma_q u ! unat i) = AL_QUEUE_ENABLED then Some (RcErr EIO, u, m)
      else if qp_size qp < AL_UDMA_MIN_Q_SIZE then Some (RcErr EINVAL, u, m)
      else if AL_UDMA_MAX_Q_SIZE < qp_size qp then Some (RcErr EINVAL, u, m)
      else if qp_size qp AND (qp_size qp - 1) \<noteq> 0 then Some (RcErr EINVAL, u, m)
      else do {
        let q = q_init_fields u i qp (udma_q u ! unat i);
        let m = al_udma_q_config u q m;
        (q, m) \<leftarrow> al_udma_q_set_pointers u q m;
        let (q, m) = al_udma_q_enable q True m;
        Some (RcOk, u\<lparr>udma_q := (udma_q u)[unat i := q]\<rparr>, m) })"

subsection \<open>Queue reset\<close>

text \<open>
  The polling loops count \<open>remaining_time\<close> down to zero.  \<open>status j\<close>, \<open>dcp j\<close> and \<open>crhp j\<close> are the values
  of the registers at the \<open>j\<close>-th iteration of their loop; the result is the remaining time.
\<close>

fun q_reset_wait_idle :: "(nat \<Rightarrow> u32) \<Rightarrow> nat \<Rightarrow> nat \<Rightarrow> nat" where
  "q_reset_wait_idle status j 0 = 0"
| "q_reset_wait_idle status j (Suc remaining_time) =
     (if status j AND (UDMA_M2S_Q_STATUS_PREFETCH OR UDMA_M2S_Q_STATUS_SCHEDULER) = 0 then Suc remaining_time
      else q_reset_wait_idle status (Suc j) remaining_time)"

fun q_reset_wait_drain :: "(nat \<Rightarrow> u32) \<Rightarrow> (nat \<Rightarrow> u32) \<Rightarrow> nat \<Rightarrow> nat \<Rightarrow> nat" where
  "q_reset_wait_drain dcp crhp j 0 = 0"
| "q_reset_wait_drain dcp crhp j (Suc remaining_time) =
     (if dcp j = crhp j then Suc remaining_time
      else q_reset_wait_drain dcp crhp (Suc j) remaining_time)"

definition al_udma_q_reset ::
  "(nat \<Rightarrow> u32) \<Rightarrow> (nat \<Rightarrow> u32) \<Rightarrow> (nat \<Rightarrow> u32) \<Rightarrow> al_udma \<Rightarrow> al_udma_q \<Rightarrow> mmio \<Rightarrow> rc \<times> al_udma_q \<times> mmio" where
  "al_udma_q_reset status dcp crhp u q m =
     (let remaining_time = AL_UDMA_Q_RST_TOUT;
          (q, m) = al_udma_q_enable q False m;
          remaining_time = q_reset_wait_idle status 0 remaining_time
      in if remaining_time = 0 then (RcErr ETIME, q, m)
         else
           let remaining_time = q_reset_wait_drain dcp crhp 0 remaining_time
           in if remaining_time = 0 then (RcErr ETIME, q, m)
              else
                let q_sw_ctrl_reg = (if udma_type u = UDMA_TX then m2s_q_reg q m2s_q_q_sw_ctrl
                                     else s2m_q_reg q s2m_q_q_sw_ctrl)
                in (RcOk, q, al_reg_write32 m q_sw_ctrl_reg UDMA_M2S_Q_SW_CTRL_RST_Q))"

text \<open>A handle is the index of the queue in the parent; the error path stores nothing.\<close>

definition al_udma_q_handle_get :: "al_udma \<Rightarrow> u32 \<Rightarrow> rc \<times> al_udma_q option" where
  "al_udma_q_handle_get u i =
     (if ucast (num_of_queues u) \<le> i then (RcErr EINVAL, None) else (RcOk, Some (udma_q u ! unat i)))"

subsection \<open>State control\<close>

definition al_udma_state_set :: "al_udma \<Rightarrow> al_udma_state \<Rightarrow> mmio \<Rightarrow> rc \<times> al_udma \<times> mmio" where
  "al_udma_state_set u state m =
     (let write = (\<lambda>reg.
            let m = (if udma_type u = UDMA_TX
                     then al_reg_write32 m (udma_regs u + off_m2s_regs (m2s_regs_m2s m2s_change_state)) reg
                     else al_reg_write32 m (udma_regs u + off_s2m_regs (s2m_regs_s2m s2m_change_state)) reg)
            in (RcOk, u\<lparr>udma_state := state\<rparr>, m))
      in case state of
           UDMA_DISABLE \<Rightarrow> write (0 OR UDMA_M2S_CHANGE_STATE_DIS)
         | UDMA_NORMAL \<Rightarrow> write (0 OR UDMA_M2S_CHANGE_STATE_NORMAL)
         | UDMA_ABORT \<Rightarrow> write (0 OR UDMA_M2S_CHANGE_STATE_ABORT)
         | _ \<Rightarrow> (RcErr EINVAL, u, m))"

definition al_udma_state_get :: "al_udma \<Rightarrow> mmio \<Rightarrow> al_udma_state option" where
  "al_udma_state_get u m =
     (let state_reg = (if udma_type u = UDMA_TX
                       then al_reg_read32 m (udma_regs u + off_m2s_regs (m2s_regs_m2s m2s_state))
                       else al_reg_read32 m (udma_regs u + off_s2m_regs (s2m_regs_s2m s2m_state)));
          comp_ctrl = AL_REG_FIELD_GET state_reg UDMA_M2S_STATE_COMP_CTRL_MASK UDMA_M2S_STATE_COMP_CTRL_SHIFT;
          stream_if = AL_REG_FIELD_GET state_reg UDMA_M2S_STATE_STREAM_IF_MASK UDMA_M2S_STATE_STREAM_IF_SHIFT;
          data_rd = AL_REG_FIELD_GET state_reg UDMA_M2S_STATE_DATA_RD_CTRL_MASK UDMA_M2S_STATE_DATA_RD_CTRL_SHIFT;
          desc_pref = AL_REG_FIELD_GET state_reg UDMA_M2S_STATE_DESC_PREF_MASK UDMA_M2S_STATE_DESC_PREF_SHIFT
      in do { al_assert (comp_ctrl \<noteq> UDMA_STATE_RESERVED);
              al_assert (stream_if \<noteq> UDMA_STATE_RESERVED);
              al_assert (data_rd \<noteq> UDMA_STATE_RESERVED);
              al_assert (desc_pref \<noteq> UDMA_STATE_RESERVED);
              if comp_ctrl = UDMA_STATE_ABORT \<or> stream_if = UDMA_STATE_ABORT \<or>
                 data_rd = UDMA_STATE_ABORT \<or> desc_pref = UDMA_STATE_ABORT then Some UDMA_ABORT
              else if comp_ctrl = UDMA_STATE_NORMAL \<or> stream_if = UDMA_STATE_NORMAL \<or>
                 data_rd = UDMA_STATE_NORMAL \<or> desc_pref = UDMA_STATE_NORMAL then Some UDMA_NORMAL
              else Some UDMA_IDLE })"

subsection \<open>Packet completion\<close>

text \<open>
  \<open>mem\<close> is the completion ring as the call reads it, the \<open>ctrl_meta\<close> word at each descriptor address;
  a call reads each slot at most once before the assertion on the count fires.  The loop is a
  partial function: \<^term>\<open>None\<close> stands for a failed assertion and for not returning.  The
  result is either an incomplete packet with its updated queue, or the last descriptor of the packet
  and the count.
\<close>

datatype packet_scan = Incomplete al_udma_q | Complete al_udma_q ptr u32

partial_function (option) packet_get_loop ::
  "(ptr \<Rightarrow> u32) \<Rightarrow> al_udma_q \<Rightarrow> ptr \<Rightarrow> u32 \<Rightarrow> u32 \<Rightarrow> packet_scan option" where
  "packet_get_loop mem q cur comp_flags count =
     (if cdesc_is_last comp_flags then Some (Complete q cur count)
      else
        let (cur, q) = al_cdesc_next_update q cur;
            comp_flags = mem cur
        in if \<not> al_udma_new_cdesc q comp_flags
           then Some (Incomplete (q\<lparr>pkt_crnt_descs := count, comp_head_ptr := cur\<rparr>))
           else
             let count = count + 1
             in Option.bind (al_assert (count \<le> q_size q)) (\<lambda>_. packet_get_loop mem q cur comp_flags count))"

definition al_udma_cdesc_packet_get :: "(ptr \<Rightarrow> u32) \<Rightarrow> al_udma_q \<Rightarrow> (u32 \<times> ptr option \<times> al_udma_q) option" where
  "al_udma_cdesc_packet_get mem q =
     do { al_assert (q_flags q AND AL_UDMA_Q_FLAGS_NO_COMP_UPDATE = 0);
          let cur = comp_head_ptr q;
          let comp_flags = mem cur;
          if \<not> al_udma_new_cdesc q comp_flags then Some (0, None, q)
          else do {
            let count = pkt_crnt_descs q + 1;
            scan \<leftarrow> packet_get_loop mem q cur comp_flags count;
            case scan of
              Incomplete q \<Rightarrow> Some (0, None, q)
            | Complete q cur count \<Rightarrow>
                (let cdesc = al_udma_cdesc_idx_to_ptr q (next_cdesc_idx q);
                     q = q\<lparr>pkt_crnt_descs := 0\<rparr>;
                     (next, q) = al_cdesc_next_update q cur
                 in Some (count, Some cdesc, q\<lparr>comp_head_ptr := next\<rparr>)) } }"

subsection \<open>Positions in the completion ring\<close>

text \<open>
  Completions are numbered from initialisation.  Completion number \<open>h\<close> lies in slot \<open>h mod size\<close> and
  carries the ring id of its lap; a descriptor is new at position \<open>h\<close> when it carries that id.
\<close>

definition comp_ring_ok :: "al_udma_q \<Rightarrow> bool" where
  "comp_ring_ok q \<longleftrightarrow> udma_ring_ok q \<and> 0 < cdesc_size q \<and>
     unat (q_size q) * unat (cdesc_size q) < 2 ^ 32 \<and>
     end_cdesc_ptr q = cdesc_base_ptr q + (unat (q_size q) - 1) * unat (cdesc_size q) \<and>
     q_flags q AND AL_UDMA_Q_FLAGS_NO_COMP_UPDATE = 0"

definition lap_id :: "nat \<Rightarrow> nat \<Rightarrow> u32" where
  "lap_id n h = of_nat ((1 + h div n) mod 4)"

definition comp_slot :: "al_udma_q \<Rightarrow> nat \<Rightarrow> ptr" where
  "comp_slot q h = cdesc_base_ptr q + (h mod unat (q_size q)) * unat (cdesc_size q)"

definition comp_at :: "al_udma_q \<Rightarrow> nat \<Rightarrow> bool" where
  "comp_at q h \<longleftrightarrow> comp_head_ptr q = comp_slot q h \<and> comp_ring_id q = lap_id (unat (q_size q)) h"

definition comp_new :: "(ptr \<Rightarrow> u32) \<Rightarrow> al_udma_q \<Rightarrow> nat \<Rightarrow> bool" where
  "comp_new mem q h \<longleftrightarrow>
     drop_bit AL_M2S_DESC_RING_ID_SHIFT (mem (comp_slot q h) AND AL_M2S_DESC_RING_ID_MASK) =
       lap_id (unat (q_size q)) h"

definition comp_last :: "(ptr \<Rightarrow> u32) \<Rightarrow> al_udma_q \<Rightarrow> nat \<Rightarrow> bool" where
  "comp_last mem q h \<longleftrightarrow> cdesc_is_last (mem (comp_slot q h))"

lemma lap_id_next: "(of_nat (Suc l mod 4) + 1) AND DMA_RING_ID_MASK = (of_nat (Suc (Suc l) mod 4) :: u32)"
proof -
  have t: "take_bit 32 (x mod 4) = x mod 4" for x :: nat
    by (simp only: take_bit_nat_eq_self_iff) (rule order.strict_trans [of _ 4], simp_all)
  show ?thesis
    by (simp only: word_unat_eq_iff unat_next_ring_id unsigned_of_nat) (simp add: t mod_simps)
qed

lemma comp_slot_upd [simp]:
  "comp_slot (q\<lparr>comp_ring_id := r\<rparr>) h = comp_slot q h"
  "comp_slot (q\<lparr>pkt_crnt_descs := r\<rparr>) h = comp_slot q h"
  "comp_slot (q\<lparr>comp_head_ptr := p\<rparr>) h = comp_slot q h"
  by (simp_all add: comp_slot_def)

lemma comp_ring_ok_upd [simp]:
  "comp_ring_ok (q\<lparr>comp_ring_id := r\<rparr>) = comp_ring_ok q"
  "comp_ring_ok (q\<lparr>pkt_crnt_descs := r\<rparr>) = comp_ring_ok q"
  "comp_ring_ok (q\<lparr>comp_head_ptr := p\<rparr>) = comp_ring_ok q"
  by (simp_all add: comp_ring_ok_def udma_ring_ok_def)

lemma comp_new_upd [simp]:
  "comp_new mem (q\<lparr>comp_ring_id := r\<rparr>) h = comp_new mem q h"
  "comp_last mem (q\<lparr>comp_ring_id := r\<rparr>) h = comp_last mem q h"
  by (simp_all add: comp_new_def comp_last_def)

lemma new_cdesc_at:
  "comp_ring_id q = lap_id (unat (q_size q)) h \<Longrightarrow> al_udma_new_cdesc q (mem (comp_slot q h)) = comp_new mem q h"
  by (simp add: al_udma_new_cdesc_def comp_new_def)

lemma cdesc_next_update_at:
  assumes "comp_ring_ok q" "comp_ring_id q = lap_id (unat (q_size q)) h"
  shows "al_cdesc_next_update q (comp_slot q h) =
    (comp_slot q (Suc h), q\<lparr>comp_ring_id := lap_id (unat (q_size q)) (Suc h)\<rparr>)"
proof -
  let ?n = "unat (q_size q)" and ?s = "unat (cdesc_size q)"
  have pos: "0 < ?s" using assms(1) by (simp add: comp_ring_ok_def word_less_nat_alt)
  have n: "0 < ?n" using assms(1) in_flight_less by (fastforce simp: comp_ring_ok_def)
  have last: "comp_slot q h = end_cdesc_ptr q \<longleftrightarrow> h mod ?n = ?n - 1"
    using assms(1) pos by (auto simp: comp_ring_ok_def comp_slot_def)
  show ?thesis
  proof (cases "h mod ?n = ?n - 1")
    case True
    then have suc: "Suc h mod ?n = 0" "Suc h div ?n = Suc (h div ?n)" using n by (auto simp: mod_Suc div_Suc)
    show ?thesis using True last assms(2) suc
      by (simp add: al_cdesc_next_update_def lap_id_def lap_id_next comp_slot_def)
  next
    case False
    then have suc: "Suc h mod ?n = Suc (h mod ?n)" "Suc h div ?n = h div ?n" using n by (auto simp: mod_Suc div_Suc)
    show ?thesis using False last assms(2) suc
      by (simp add: al_cdesc_next_update_def lap_id_def comp_slot_def)
  qed
qed

lemma q_size_bound: "udma_ring_ok q \<Longrightarrow> unat (q_size q) \<le> 2 ^ 16"
  by (elim udma_ring_okE) (simp add: power_increasing [of _ 16 2, simplified])

lemma packet_loop_step:
  assumes "comp_ring_ok q" "comp_ring_id q = lap_id (unat (q_size q)) h" "\<not> comp_last mem q h"
  defines "q' \<equiv> q\<lparr>comp_ring_id := lap_id (unat (q_size q)) (Suc h)\<rparr>"
  shows "packet_get_loop mem q (comp_slot q h) (mem (comp_slot q h)) count =
    (if \<not> comp_new mem q (Suc h)
     then Some (Incomplete (q'\<lparr>pkt_crnt_descs := count, comp_head_ptr := comp_slot q (Suc h)\<rparr>))
     else if count + 1 \<le> q_size q
     then packet_get_loop mem q' (comp_slot q' (Suc h)) (mem (comp_slot q' (Suc h))) (count + 1)
     else None)"
  using assms(3) new_cdesc_at [of q' "Suc h" mem]
  by (subst packet_get_loop.simps)
    (simp add: cdesc_next_update_at [OF assms(1,2)] comp_last_def q'_def al_assert_def)

lemma count_next:
  assumes "udma_ring_ok q" "unat count + 1 \<le> unat (q_size q)"
  shows "count + 1 \<le> q_size q" "unat (count + 1) = unat count + 1"
proof -
  have "unat count + 1 < 2 ^ 32" using q_size_bound [OF assms(1)] assms(2) by simp
  then show "unat (count + 1) = unat count + 1" by (simp add: unat_word_ariths)
  with assms(2) show "count + 1 \<le> q_size q" by (simp add: word_le_nat_alt)
qed

lemma packet_loop_complete:
  assumes "comp_ring_ok q" "comp_ring_id q = lap_id (unat (q_size q)) h"
    and "\<forall>i<j. \<not> comp_last mem q (h + i)" "comp_last mem q (h + j)"
    and "\<forall>i\<le>j. comp_new mem q (h + i)" "unat count + j \<le> unat (q_size q)"
  shows "packet_get_loop mem q (comp_slot q h) (mem (comp_slot q h)) count =
    Some (Complete (q\<lparr>comp_ring_id := lap_id (unat (q_size q)) (h + j)\<rparr>) (comp_slot q (h + j)) (count + of_nat j))"
  using assms
proof (induction j arbitrary: q h count)
  case 0
  then show ?case by (subst packet_get_loop.simps) (simp add: comp_last_def flip: 0(2))
next
  case (Suc j)
  have nl: "\<not> comp_last mem q h" and nw: "comp_new mem q (Suc h)"
    using Suc.prems(3,5) by (auto dest: spec [of _ 0] spec [of _ 1])
  have ring: "udma_ring_ok q" using Suc.prems(1) by (simp add: comp_ring_ok_def)
  note cn = count_next [OF ring, of count]
  have len: "unat count + 1 \<le> unat (q_size q)" using Suc.prems(6) by simp
  let ?q = "q\<lparr>comp_ring_id := lap_id (unat (q_size q)) (Suc h)\<rparr>"
  have "packet_get_loop mem ?q (comp_slot ?q (Suc h)) (mem (comp_slot ?q (Suc h))) (count + 1) =
    Some (Complete (?q\<lparr>comp_ring_id := lap_id (unat (q_size ?q)) (Suc h + j)\<rparr>) (comp_slot ?q (Suc h + j)) (count + 1 + of_nat j))"
    using Suc.prems cn len by (intro Suc.IH) auto
  then show ?case using packet_loop_step [OF Suc.prems(1,2) nl, of count] nw cn(1) [OF len]
    by (simp add: algebra_simps)
qed

lemma packet_loop_incomplete:
  assumes "comp_ring_ok q" "comp_ring_id q = lap_id (unat (q_size q)) h"
    and "\<forall>i\<le>j. \<not> comp_last mem q (h + i)" "\<forall>i\<le>j. comp_new mem q (h + i)"
    and "\<not> comp_new mem q (h + Suc j)" "unat count + j \<le> unat (q_size q)"
  shows "packet_get_loop mem q (comp_slot q h) (mem (comp_slot q h)) count =
    Some (Incomplete (q\<lparr>comp_ring_id := lap_id (unat (q_size q)) (h + Suc j),
      pkt_crnt_descs := count + of_nat j, comp_head_ptr := comp_slot q (h + Suc j)\<rparr>))"
  using assms
proof (induction j arbitrary: q h count)
  case 0
  then have "\<not> comp_last mem q h" "\<not> comp_new mem q (Suc h)" by auto
  then show ?case using packet_loop_step [OF 0(1,2), of mem count] by simp
next
  case (Suc j)
  have nl: "\<not> comp_last mem q h" and nw: "comp_new mem q (Suc h)"
    using Suc.prems(3,4) by (auto dest: spec [of _ 0] spec [of _ 1])
  have ring: "udma_ring_ok q" using Suc.prems(1) by (simp add: comp_ring_ok_def)
  note cn = count_next [OF ring, of count]
  have len: "unat count + 1 \<le> unat (q_size q)" using Suc.prems(6) by simp
  let ?q = "q\<lparr>comp_ring_id := lap_id (unat (q_size q)) (Suc h)\<rparr>"
  have "packet_get_loop mem ?q (comp_slot ?q (Suc h)) (mem (comp_slot ?q (Suc h))) (count + 1) =
    Some (Incomplete (?q\<lparr>comp_ring_id := lap_id (unat (q_size ?q)) (Suc h + Suc j),
      pkt_crnt_descs := count + 1 + of_nat j, comp_head_ptr := comp_slot ?q (Suc h + Suc j)\<rparr>))"
    using Suc.prems cn len by (intro Suc.IH) auto
  then show ?case using packet_loop_step [OF Suc.prems(1,2) nl, of count] nw cn(1) [OF len]
    by (simp add: algebra_simps)
qed

lemma packet_get_at:
  assumes "comp_ring_ok q" "comp_at q h"
    and "\<forall>i<j. \<not> comp_last mem q (h + i)" "comp_last mem q (h + j)"
    and "\<forall>i\<le>j. comp_new mem q (h + i)" "unat (pkt_crnt_descs q) + Suc j \<le> unat (q_size q)"
  shows "al_udma_cdesc_packet_get mem q =
    Some (pkt_crnt_descs q + of_nat (Suc j), Some (al_udma_cdesc_idx_to_ptr q (next_cdesc_idx q)),
      q\<lparr>comp_ring_id := lap_id (unat (q_size q)) (h + Suc j), pkt_crnt_descs := 0,
        comp_head_ptr := comp_slot q (h + Suc j)\<rparr>)"
proof -
  have fl: "q_flags q AND AL_UDMA_Q_FLAGS_NO_COMP_UPDATE = 0" and ring: "udma_ring_ok q"
    using assms(1) by (auto simp: comp_ring_ok_def)
  have at: "comp_head_ptr q = comp_slot q h" "comp_ring_id q = lap_id (unat (q_size q)) h"
    using assms(2) by (auto simp: comp_at_def)
  have new: "al_udma_new_cdesc q (mem (comp_slot q h))"
    using assms(5) new_cdesc_at [OF at(2)] by (auto dest: spec [of _ 0])
  have cnt: "unat (pkt_crnt_descs q + 1) + j \<le> unat (q_size q)"
    using count_next [OF ring, of "pkt_crnt_descs q"] assms(6) by simp
  let ?q = "q\<lparr>comp_ring_id := lap_id (unat (q_size q)) (h + j), pkt_crnt_descs := 0\<rparr>"
  have nxt: "al_cdesc_next_update ?q (comp_slot q (h + j)) =
      (comp_slot q (h + Suc j), ?q\<lparr>comp_ring_id := lap_id (unat (q_size q)) (h + Suc j)\<rparr>)"
    using cdesc_next_update_at [of ?q "h + j"] assms(1) by simp
  show ?thesis
    using packet_loop_complete [OF assms(1) at(2) assms(3,4,5) cnt] new fl nxt
    by (simp add: al_udma_cdesc_packet_get_def at(1) al_udma_cdesc_idx_to_ptr_def ac_simps)
qed

lemma packet_get_at_partial:
  assumes "comp_ring_ok q" "comp_at q h"
    and "\<forall>i\<le>j. \<not> comp_last mem q (h + i)" "\<forall>i\<le>j. comp_new mem q (h + i)"
    and "\<not> comp_new mem q (h + Suc j)" "unat (pkt_crnt_descs q) + Suc j \<le> unat (q_size q)"
  shows "al_udma_cdesc_packet_get mem q =
    Some (0, None, q\<lparr>comp_ring_id := lap_id (unat (q_size q)) (h + Suc j),
      pkt_crnt_descs := pkt_crnt_descs q + of_nat (Suc j), comp_head_ptr := comp_slot q (h + Suc j)\<rparr>)"
proof -
  have fl: "q_flags q AND AL_UDMA_Q_FLAGS_NO_COMP_UPDATE = 0" and ring: "udma_ring_ok q"
    using assms(1) by (auto simp: comp_ring_ok_def)
  have at: "comp_head_ptr q = comp_slot q h" "comp_ring_id q = lap_id (unat (q_size q)) h"
    using assms(2) by (auto simp: comp_at_def)
  have new: "al_udma_new_cdesc q (mem (comp_slot q h))"
    using assms(4) new_cdesc_at [OF at(2)] by (auto dest: spec [of _ 0])
  have cnt: "unat (pkt_crnt_descs q + 1) + j \<le> unat (q_size q)"
    using count_next [OF ring, of "pkt_crnt_descs q"] assms(6) by simp
  show ?thesis
    using packet_loop_incomplete [OF assms(1) at(2) assms(3,4,5) cnt] new fl
    by (simp add: al_udma_cdesc_packet_get_def at(1) ac_simps)
qed

subsection \<open>Properties of packet completion\<close>

text \<open>
  C12: \<open>al_udma_cdesc_packet_get\<close> returns a completed packet.  When the queue stands at completion
  \<open>h\<close>, the next \<open>j + 1\<close> descriptors carry the ring id of their lap and the last of them is the first
  with the LAST flag, the call returns (without hitting its assertion) the number of descriptors of
  the packet, counting those seen by earlier calls, and the address of its first descriptor; the
  queue then stands at \<open>h + j + 1\<close> with no descriptor carried over.
\<close>

theorem packet_get_complete:
  assumes "comp_ring_ok q" "comp_at q h"
    and "\<forall>i<j. \<not> comp_last mem q (h + i)" "comp_last mem q (h + j)"
    and "\<forall>i\<le>j. comp_new mem q (h + i)" "unat (pkt_crnt_descs q) + j + 1 \<le> unat (q_size q)"
  shows "\<exists>n q'. al_udma_cdesc_packet_get mem q =
      Some (n, Some (al_udma_cdesc_idx_to_ptr q (next_cdesc_idx q)), q') \<and>
    unat n = unat (pkt_crnt_descs q) + j + 1 \<and> comp_ring_ok q' \<and> comp_at q' (h + j + 1) \<and>
    pkt_crnt_descs q' = 0 \<and> udma_pend q' = udma_pend q"
proof -
  have ring: "udma_ring_ok q" using assms(1) by (simp add: comp_ring_ok_def)
  let ?q = "q\<lparr>comp_ring_id := lap_id (unat (q_size q)) (h + Suc j), pkt_crnt_descs := 0,
        comp_head_ptr := comp_slot q (h + Suc j)\<rparr>"
  have "unat (pkt_crnt_descs q) + Suc j < 2 ^ 32"
    using q_size_bound [OF ring] assms(6) by simp
  then have n: "unat (pkt_crnt_descs q + of_nat (Suc j)) = unat (pkt_crnt_descs q) + j + 1"
    by (simp only: unat_word_ariths unsigned_of_nat) (simp add: take_bit_nat_eq_self)
  have rest: "comp_ring_ok ?q" "comp_at ?q (h + j + 1)" "pkt_crnt_descs ?q = 0" "udma_pend ?q = udma_pend q"
    using assms(1) by (simp_all add: comp_at_def udma_pend_def udma_in_flight_def)
  show ?thesis
    using packet_get_at [OF assms(1-5)] assms(6) n rest
    by (intro exI [of _ "pkt_crnt_descs q + of_nat (Suc j)"] exI [of _ ?q] conjI) simp_all
qed

text \<open>A ring of eight completions of four words with a three-descriptor packet across the wrap.\<close>

definition demo_cmem :: "ptr \<Rightarrow> u32" where
  "demo_cmem p = (if p = 0x90060 then 0x05000000 else if p = 0x90070 then 0x01000000
     else if p = 0x90000 then 0x0A000000 else 0)"

definition demo_cq :: al_udma_q where
  "demo_cq = demo_q\<lparr>comp_head_ptr := 0x90060, next_cdesc_idx := 6, next_desc_idx := 2\<rparr>"

lemmas demo_cq_simps = demo_cq_def demo_q_def comp_at_def comp_slot_def comp_new_def comp_last_def
  lap_id_def demo_cmem_def desc_consts AL_BIT_def cdesc_is_last_def

lemma demo_cq_ok: "comp_ring_ok demo_cq"
  unfolding comp_ring_ok_def udma_ring_ok_def
  by (intro conjI bexI [of _ 3])
    (simp_all add: demo_cq_def demo_q_def mask_eq_exp_minus_1 AL_UDMA_Q_FLAGS_NO_COMP_UPDATE_def)

theorem packet_get_complete_witness:
  "\<exists>n q'. al_udma_cdesc_packet_get demo_cmem demo_cq = Some (n, Some 0x90060, q') \<and> unat n = 3 \<and> comp_at q' 9"
proof -
  have at: "comp_at demo_cq 6" by (simp add: demo_cq_simps)
  have nl: "\<forall>i<2. \<not> comp_last demo_cmem demo_cq (6 + i)" by (simp add: less_2_cases_iff demo_cq_simps)
  have l: "comp_last demo_cmem demo_cq (6 + 2)" by (simp add: demo_cq_simps)
  have le2: "i \<le> 2 \<longleftrightarrow> i = 0 \<or> i = 1 \<or> i = 2" for i :: nat by auto
  have nw: "\<forall>i\<le>2. comp_new demo_cmem demo_cq (6 + i)" by (auto simp: le2 demo_cq_simps)
  have p: "al_udma_cdesc_idx_to_ptr demo_cq (next_cdesc_idx demo_cq) = 0x90060"
    by (simp add: al_udma_cdesc_idx_to_ptr_def demo_cq_def demo_q_def)
  have z: "unat (pkt_crnt_descs demo_cq) = 0" and sz: "unat (pkt_crnt_descs demo_cq) + 2 + 1 \<le> unat (q_size demo_cq)"
    by (simp_all add: demo_cq_def demo_q_def)
  from packet_get_complete [OF demo_cq_ok at nl l nw sz] show ?thesis by (auto simp: p z)
qed

text \<open>
  A packet may be collected in several calls.  When only the first \<open>c + 1\<close> descriptors of a
  packet of \<open>j + 1\<close> are visible (\<open>c < j\<close>) the call returns no packet, and the next call, made when
  the whole packet is visible, returns exactly what one call would have returned: same count, same
  first descriptor, same queue.
\<close>

theorem packet_get_resume:
  assumes "comp_ring_ok q" "comp_at q h" "pkt_crnt_descs q = 0" "c < j" "j + 1 \<le> unat (q_size q)"
    and "\<forall>i\<le>c. mem1 (comp_slot q (h + i)) = mem2 (comp_slot q (h + i))" "\<not> comp_new mem1 q (h + c + 1)"
    and "\<forall>i<j. \<not> comp_last mem2 q (h + i)" "comp_last mem2 q (h + j)" "\<forall>i\<le>j. comp_new mem2 q (h + i)"
  shows "\<exists>q1. al_udma_cdesc_packet_get mem1 q = Some (0, None, q1) \<and>
    al_udma_cdesc_packet_get mem2 q1 = al_udma_cdesc_packet_get mem2 q \<and>
    al_udma_cdesc_packet_get mem2 q \<noteq> None"
proof -
  define q1 where "q1 = q\<lparr>comp_ring_id := lap_id (unat (q_size q)) (h + Suc c),
      pkt_crnt_descs := of_nat (Suc c), comp_head_ptr := comp_slot q (h + Suc c)\<rparr>"
  have first: "\<forall>i\<le>c. \<not> comp_last mem1 q (h + i)" "\<forall>i\<le>c. comp_new mem1 q (h + i)"
    using assms(4,6,8,10) by (auto simp: comp_last_def comp_new_def)
  have call1: "al_udma_cdesc_packet_get mem1 q = Some (0, None, q1)"
    using packet_get_at_partial [OF assms(1,2) first] assms(3,4,5,7) by (simp add: q1_def)
  have ok1: "comp_ring_ok q1" and at1: "comp_at q1 (h + Suc c)"
    using assms(1) by (simp_all add: q1_def comp_at_def)
  have ring: "udma_ring_ok q" using assms(1) by (simp add: comp_ring_ok_def)
  have uc: "unat (pkt_crnt_descs q1) = Suc c"
  proof -
    have "Suc c < 2 ^ 32" using q_size_bound [OF ring] assms(4,5) by simp
    moreover have "pkt_crnt_descs q1 = of_nat (Suc c)" by (simp add: q1_def)
    ultimately show ?thesis by (simp only: unsigned_of_nat) (simp add: take_bit_nat_eq_self)
  qed
  obtain d where d: "j = Suc c + d" using assms(4) less_iff_Suc_add by auto
  have view: "comp_last mem2 q1 x = comp_last mem2 q x" "comp_new mem2 q1 x = comp_new mem2 q x"
    "q_size q1 = q_size q" "comp_slot q1 x = comp_slot q x" for x
    by (simp_all add: q1_def comp_last_def comp_new_def)
  have lt: "i < d \<longleftrightarrow> Suc c + i < j" "i \<le> d \<longleftrightarrow> Suc c + i \<le> j" for i by (simp_all add: d)
  have nl: "\<forall>i<d. \<not> comp_last mem2 q1 (h + Suc c + i)" and nw: "\<forall>i\<le>d. comp_new mem2 q1 (h + Suc c + i)"
    unfolding view add.assoc lt using assms(8,10) by blast+
  have l: "comp_last mem2 q1 (h + Suc c + d)" using assms(9) by (simp add: view d add.assoc)
  have sz: "unat (pkt_crnt_descs q1) + Suc d \<le> unat (q_size q1)"
    using assms(5) by (simp add: uc view d)
  have call2: "al_udma_cdesc_packet_get mem2 q1 = al_udma_cdesc_packet_get mem2 q"
    using packet_get_at [OF ok1 at1 nl l nw sz] packet_get_at [OF assms(1,2) assms(8-10)] assms(3,5)
    by (simp add: view d al_udma_cdesc_idx_to_ptr_def) (simp add: q1_def ac_simps)
  show ?thesis
    using call1 call2 packet_get_at [OF assms(1,2) assms(8-10)] assms(3,5) by simp
qed

text \<open>The first descriptor of the packet above is visible before the other two.\<close>

theorem packet_get_resume_witness:
  "\<exists>q1. al_udma_cdesc_packet_get (\<lambda>p. if p = 0x90060 then 0x05000000 else 0) demo_cq = Some (0, None, q1) \<and>
     al_udma_cdesc_packet_get demo_cmem q1 = al_udma_cdesc_packet_get demo_cmem demo_cq"
proof -
  let ?mem1 = "\<lambda>p. if p = 0x90060 then 0x05000000 else 0 :: u32"
  have at: "comp_at demo_cq 6" by (simp add: demo_cq_simps)
  have pk: "pkt_crnt_descs demo_cq = 0" "2 + 1 \<le> unat (q_size demo_cq)"
    by (simp_all add: demo_cq_def demo_q_def)
  have same: "\<forall>i\<le>0. ?mem1 (comp_slot demo_cq (6 + i)) = demo_cmem (comp_slot demo_cq (6 + i))"
    and old: "\<not> comp_new ?mem1 demo_cq (6 + 0 + 1)"
    by (simp_all add: demo_cq_simps)
  have nl: "\<forall>i<2. \<not> comp_last demo_cmem demo_cq (6 + i)" by (simp add: less_2_cases_iff demo_cq_simps)
  have l: "comp_last demo_cmem demo_cq (6 + 2)" by (simp add: demo_cq_simps)
  have le2: "i \<le> 2 \<longleftrightarrow> i = 0 \<or> i = 1 \<or> i = 2" for i :: nat by auto
  have nw: "\<forall>i\<le>2. comp_new demo_cmem demo_cq (6 + i)" by (auto simp: le2 demo_cq_simps)
  show ?thesis
    using packet_get_resume [OF demo_cq_ok at pk(1) _ pk(2) same old nl l nw] by auto
qed

subsection \<open>Queue initialisation and reset\<close>

lemma q_size_pow2:
  fixes n :: u32
  assumes "4 \<le> n" "n \<le> 65536" "n AND (n - 1) = 0"
  shows "\<exists>k \<in> {2..16}. n = 2 ^ k \<and> (ucast (n - 1) :: u16) = mask k"
proof -
  have n0: "n \<noteq> 0" using assms(1) by auto
  have "unat (n AND (n - 1)) = unat n AND (unat n - 1)"
    by (simp add: unsigned_and_eq unat_minus_one [OF n0])
  then have "unat n AND (unat n - 1) = 0" using assms(3) by simp
  moreover have b: "4 \<le> unat n" "unat n \<le> 65536" using assms(1,2) by (simp_all add: word_le_nat_alt)
  ultimately obtain k where k: "unat n = 2 ^ k" using pow2_and_pred [of "unat n"] by auto
  have "(2 :: nat) ^ 2 \<le> 2 ^ k" "(2 :: nat) ^ k \<le> 2 ^ 16" using b k by simp_all
  then have k2: "2 \<le> k" "k \<le> 16" by (simp_all only: power_increasing_iff one_less_numeral_iff semiring_norm)
  have nk: "n = 2 ^ k" using k k2 by (simp add: word_unat_eq_iff unat_pow2)
  have "(ucast (mask k :: u32) :: u16) = mask k"
    using k2 by (intro bit_word_eqI) (auto simp: bit_simps)
  then have "(ucast (n - 1) :: u16) = mask k" by (simp add: nk mask_eq_exp_minus_1)
  with nk k2 show ?thesis by auto
qed

definition q_params_ok :: "al_udma_q_params \<Rightarrow> bool" where
  "q_params_ok qp \<longleftrightarrow> 4 \<le> qp_size qp \<and> qp_size qp \<le> 65536 \<and> qp_size qp AND (qp_size qp - 1) = 0"

definition q_bases_aligned :: "al_udma_q_params \<Rightarrow> bool" where
  "q_bases_aligned qp \<longleftrightarrow> qp_desc_phy_base qp AND 0xF = 0 \<and>
     (qp_cdesc_base qp = NULL \<or> qp_cdesc_phy_base qp AND 0xF = 0)"

lemma addr_low_aligned:
  "AL_ADDR_LOW a AND NOT UDMA_M2S_Q_TDRBP_LOW_ADDR_MASK = 0 \<longleftrightarrow> a AND 0xF = 0"
  "AL_ADDR_LOW a AND NOT UDMA_M2S_Q_TCRBP_LOW_ADDR_MASK = 0 \<longleftrightarrow> a AND 0xF = 0"
proof -
  have m: "(0xF :: u64) = mask 4" "NOT UDMA_M2S_Q_TDRBP_LOW_ADDR_MASK = mask 4"
      "NOT UDMA_M2S_Q_TCRBP_LOW_ADDR_MASK = mask 4"
    by (simp_all add: mask_eq_exp_minus_1 reg_off)
  have "bit (AL_ADDR_LOW a AND mask 4) i \<longleftrightarrow> bit (a AND mask 4) i" for i
    by (auto simp: AL_ADDR_LOW_def bit_simps)
  then have "AL_ADDR_LOW a AND mask 4 = 0 \<longleftrightarrow> a AND mask 4 = 0"
    by (metis word_eq_zeroI_bits bit_0_eq bot_apply bot_bool_def)
  then show "AL_ADDR_LOW a AND NOT UDMA_M2S_Q_TDRBP_LOW_ADDR_MASK = 0 \<longleftrightarrow> a AND 0xF = 0"
    "AL_ADDR_LOW a AND NOT UDMA_M2S_Q_TCRBP_LOW_ADDR_MASK = 0 \<longleftrightarrow> a AND 0xF = 0"
    by (simp_all only: m)
qed

lemma q_fields_after_pointers:
  assumes "al_udma_q_set_pointers u q m = Some (q', m')"
  shows "q' = q\<lparr>q_flags := if cdesc_base_ptr q = NULL then q_flags q OR AL_UDMA_Q_FLAGS_NO_COMP_UPDATE else q_flags q\<rparr>"
  using assms by (auto simp: al_udma_q_set_pointers_def Let_def split: if_splits)

lemma set_pointers_Some:
  "(\<exists>q' m'. al_udma_q_set_pointers u q m = Some (q', m')) \<longleftrightarrow>
     desc_phy_base q AND 0xF = 0 \<and> (cdesc_base_ptr q = NULL \<or> cdesc_phy_base q AND 0xF = 0)"
  by (simp add: al_udma_q_set_pointers_def Let_def addr_low_aligned)

lemma set_pointers_None:
  "al_udma_q_set_pointers u q m = None \<longleftrightarrow>
     \<not> (desc_phy_base q AND 0xF = 0 \<and> (cdesc_base_ptr q = NULL \<or> cdesc_phy_base q AND 0xF = 0))"
  unfolding set_pointers_Some [of u q m, symmetric] by (metis not_None_eq surj_pair)

lemma set_pointers_regs:
  assumes "al_udma_q_set_pointers u q m = Some (q', m')" "udma_regs u + 0x1000 \<le> q_regs q"
  shows "al_reg_read32 m' (rings_reg q rings_drbp_low) = AL_ADDR_LOW (desc_phy_base q)"
    "al_reg_read32 m' (rings_reg q rings_drbp_high) = AL_ADDR_HIGH (desc_phy_base q)"
    "al_reg_read32 m' (rings_reg q rings_drl) = q_size q"
    "cdesc_base_ptr q \<noteq> NULL \<Longrightarrow> al_reg_read32 m' (rings_reg q rings_crbp_low) = AL_ADDR_LOW (cdesc_phy_base q)"
    "cdesc_base_ptr q \<noteq> NULL \<Longrightarrow> al_reg_read32 m' (rings_reg q rings_crbp_high) = AL_ADDR_HIGH (cdesc_phy_base q)"
    "al_reg_read32 m' (rings_reg q rings_cfg) = al_reg_read32 m (rings_reg q rings_cfg)"
  using assms
  by (auto simp: al_udma_q_set_pointers_def Let_def al_udma_q_config_compl_def rings_reg_def m2s_q_reg_def
      s2m_q_reg_def split: if_splits)

lemma q_init_block: "udma_regs u + 0x1000 \<le> q_regs (q_init_fields u i qp q)"
  by (simp add: q_init_fields_def m2s_q_block_def s2m_q_block_def)

lemma q_init_fields_ok:
  assumes "q_params_ok qp"
  shows "udma_ring_ok (q_init_fields u i qp q)" "udma_pend (q_init_fields u i qp q) = []"
    "udma_submitted (q_init_fields u i qp q) 0"
proof -
  from assms q_size_pow2 [of "qp_size qp"] show ok: "udma_ring_ok (q_init_fields u i qp q)"
    by (auto simp: q_params_ok_def udma_ring_ok_def q_init_fields_def word_le_nat_alt)
  then show "udma_pend (q_init_fields u i qp q) = []"
    by (auto elim!: udma_ring_okE simp: udma_pend_def udma_in_flight_def q_init_fields_def)
  show "udma_submitted (q_init_fields u i qp q) 0"
    by (simp add: udma_submitted_def q_init_fields_def AL_UDMA_INITIAL_RING_ID_def)
qed

lemma ring_views_flags_status [simp]:
  "udma_ring_ok (q\<lparr>q_flags := f\<rparr>) = udma_ring_ok q" "udma_ring_ok (q\<lparr>q_status := s\<rparr>) = udma_ring_ok q"
  "udma_pend (q\<lparr>q_flags := f\<rparr>) = udma_pend q" "udma_pend (q\<lparr>q_status := s\<rparr>) = udma_pend q"
  "udma_submitted (q\<lparr>q_flags := f\<rparr>) n = udma_submitted q n" "udma_submitted (q\<lparr>q_status := s\<rparr>) n = udma_submitted q n"
  "rings_reg (q\<lparr>q_flags := f\<rparr>) r = rings_reg q r" "rings_reg (q\<lparr>q_status := s\<rparr>) r = rings_reg q r"
  by (simp_all add: udma_ring_ok_def udma_pend_def udma_in_flight_def udma_submitted_def rings_reg_def)

lemma q_init_cases:
  "al_udma_q_init u i qp m =
     (if unat (num_of_queues u) \<le> unat i then Some (RcErr EINVAL, u, m)
      else if q_status (udma_q u ! unat i) = AL_QUEUE_ENABLED then Some (RcErr EIO, u, m)
      else if \<not> q_params_ok qp then Some (RcErr EINVAL, u, m)
      else
        let q = q_init_fields u i qp (udma_q u ! unat i) in
        case al_udma_q_set_pointers u q (al_udma_q_config u q m) of
          None \<Rightarrow> None
        | Some (q, m) \<Rightarrow>
            Some (RcOk, u\<lparr>udma_q := (udma_q u)[unat i := q\<lparr>q_status := AL_QUEUE_ENABLED\<rparr>]\<rparr>,
              snd (al_udma_q_enable q True m)))"
  by (auto simp: al_udma_q_init_def q_params_ok_def udma_consts Let_def word_le_nat_alt word_less_nat_alt
      al_udma_q_enable_def split: option.splits prod.splits)

lemma q_enable_cfg:
  "al_reg_read32 (snd (al_udma_q_enable q e m)) a =
     (if a = rings_reg q rings_cfg then AL_REG_MASK_SET_VAL (al_reg_read32 m a) q_cfg_en e else al_reg_read32 m a)"
  by (simp add: al_udma_q_enable_def Let_def AL_REG_MASK_SET_def AL_REG_MASK_CLEAR_def rings_reg_def)

lemma config_cfg: "al_reg_read32 (al_udma_q_config u q m) (rings_reg q rings_cfg) = al_reg_read32 m (rings_reg q rings_cfg)"
  by (simp add: al_udma_q_config_def Let_def rings_reg_def m2s_q_reg_def)

subsection \<open>Properties of initialisation, reset and state control\<close>

text \<open>
  C17: \<open>al_udma_q_init\<close> on a valid, not enabled queue succeeds and leaves the queue enabled, empty
  and well formed with all but one descriptor free, the ring counters at zero, the ring registers
  programmed with the base addresses and the ring length, prefetch and scheduling enabled, and every other
  queue of the engine untouched.
\<close>

theorem udma_q_init_ok:
  assumes "unat i < unat (num_of_queues u)" "unat i < length (udma_q u)"
    and "q_status (udma_q u ! unat i) \<noteq> AL_QUEUE_ENABLED" "q_params_ok qp" "q_bases_aligned qp"
  shows "\<exists>u' m' q. al_udma_q_init u i qp m = Some (RcOk, u', m') \<and> udma_q u' = (udma_q u)[unat i := q] \<and>
    udma_ring_ok q \<and> udma_pend q = [] \<and> udma_submitted q 0 \<and> q_status q = AL_QUEUE_ENABLED \<and>
    unat (al_udma_available_get q) = unat (qp_size qp) - 1 \<and>
    al_reg_read32 m' (rings_reg q rings_drbp_low) = AL_ADDR_LOW (qp_desc_phy_base qp) \<and>
    al_reg_read32 m' (rings_reg q rings_drbp_high) = AL_ADDR_HIGH (qp_desc_phy_base qp) \<and>
    al_reg_read32 m' (rings_reg q rings_drl) = qp_size qp \<and>
    al_reg_read32 m' (rings_reg q rings_cfg) AND q_cfg_en = q_cfg_en"
proof -
  let ?q = "q_init_fields u i qp (udma_q u ! unat i)"
  have f: "desc_phy_base ?q = qp_desc_phy_base qp" "cdesc_phy_base ?q = qp_cdesc_phy_base qp"
    "cdesc_base_ptr ?q = qp_cdesc_base qp" "q_size ?q = qp_size qp"
    by (simp_all add: q_init_fields_def)
  obtain q m' where p: "al_udma_q_set_pointers u ?q (al_udma_q_config u ?q m) = Some (q, m')"
    using set_pointers_Some [of u ?q "al_udma_q_config u ?q m"] assms(5) by (auto simp: q_bases_aligned_def f)
  let ?q' = "q\<lparr>q_status := AL_QUEUE_ENABLED\<rparr>" and ?m' = "snd (al_udma_q_enable q True m')"
  have run: "al_udma_q_init u i qp m = Some (RcOk, u\<lparr>udma_q := (udma_q u)[unat i := ?q']\<rparr>, ?m')"
    using assms(1-4) p by (simp add: q_init_cases Let_def)
  note qf = q_fields_after_pointers [OF p]
  have ok: "udma_ring_ok ?q'" "udma_pend ?q' = []" "udma_submitted ?q' 0" "q_size ?q' = qp_size qp"
    using q_init_fields_ok [OF assms(4), of u i "udma_q u ! unat i"] by (simp_all add: qf f)
  have av: "unat (al_udma_available_get ?q') = unat (qp_size qp) - 1"
    using udma_ring.avail_pend [OF ok(1)] unfolding ok by simp
  have rr: "rings_reg ?q' r = rings_reg ?q r" "rings_reg q r = rings_reg ?q r" for r by (simp_all add: qf)
  have ne: "rings_reg ?q rings_drbp_low \<noteq> rings_reg ?q rings_cfg" "rings_reg ?q rings_drbp_high \<noteq> rings_reg ?q rings_cfg"
    "rings_reg ?q rings_drl \<noteq> rings_reg ?q rings_cfg"
    by (simp_all add: rings_reg_def)
  note regs = set_pointers_regs [OF p q_init_block]
  show ?thesis
    using run ok av regs ne
    by (intro exI [of _ "u\<lparr>udma_q := (udma_q u)[unat i := ?q']\<rparr>"] exI [of _ ?m'] exI [of _ ?q'] conjI)
      (simp_all add: rr q_enable_cfg f mask_set_val_same)
qed

definition demo_udma :: al_udma where
  "demo_udma = \<lparr>udma_name = ''demo'', udma_type = UDMA_RX, udma_state = UDMA_DISABLE, num_of_queues = 4,
     udma_regs = 0x10000, gen_regs = 0x1C000,
     udma_q = replicate 4 (demo_q\<lparr>q_status := AL_QUEUE_NOT_INITIALIZED\<rparr>), udma_rev_id = 2\<rparr>"

definition demo_qp :: al_udma_q_params where
  "demo_qp = \<lparr>qp_size = 8, qp_desc_base = 0x80000, qp_desc_phy_base = 0x80000, qp_cdesc_base = 0x90000,
     qp_cdesc_phy_base = 0x90000, qp_cdesc_size = 16, qp_adapter_rev_id = 1\<rparr>"

theorem udma_q_init_ok_witness:
  "\<exists>u' m'. al_udma_q_init demo_udma 2 demo_qp \<lparr>regs = \<lambda>_. 0, wlog = []\<rparr> = Some (RcOk, u', m') \<and>
     udma_pend (udma_q u' ! 2) = []"
proof -
  have "unat (2 :: u32) < unat (num_of_queues demo_udma)" "unat (2 :: u32) < length (udma_q demo_udma)"
    "q_status (udma_q demo_udma ! unat (2 :: u32)) \<noteq> AL_QUEUE_ENABLED"
    by (simp_all add: demo_udma_def)
  moreover have "q_params_ok demo_qp" "q_bases_aligned demo_qp"
    by (simp_all add: q_params_ok_def q_bases_aligned_def demo_qp_def)
  ultimately obtain u' m' q where
    "al_udma_q_init demo_udma 2 demo_qp \<lparr>regs = \<lambda>_. 0, wlog = []\<rparr> = Some (RcOk, u', m')"
    "udma_q u' = (udma_q demo_udma)[unat (2 :: u32) := q]" "udma_pend q = []"
    using udma_q_init_ok [of 2 demo_udma demo_qp "\<lparr>regs = \<lambda>_. 0, wlog = []\<rparr>"] by blast
  then show ?thesis by (auto simp: demo_udma_def)
qed

text \<open>
  Every outcome of \<open>al_udma_q_init\<close>.  A queue id out of range and a bad ring size (below 4,
  above 65536, not a power of two) give \<open>-EINVAL\<close>, an enabled queue gives \<open>-EIO\<close>, in that order of
  precedence (id, enabled, size); on these errors neither the engine record nor any register changes.
  The function stops at an assertion exactly when the parameters are valid and a ring base is not
  aligned to 16 bytes.
\<close>

theorem udma_q_init_outcomes:
  "(al_udma_q_init u i qp m = None \<longleftrightarrow>
     unat i < unat (num_of_queues u) \<and> q_status (udma_q u ! unat i) \<noteq> AL_QUEUE_ENABLED \<and>
     q_params_ok qp \<and> \<not> q_bases_aligned qp) \<and>
   ((\<exists>u' m'. al_udma_q_init u i qp m = Some (RcErr e, u', m')) \<longleftrightarrow>
     al_udma_q_init u i qp m = Some (RcErr e, u, m)) \<and>
   (al_udma_q_init u i qp m = Some (RcErr e, u, m) \<longleftrightarrow>
     (if unat (num_of_queues u) \<le> unat i then e = EINVAL
      else if q_status (udma_q u ! unat i) = AL_QUEUE_ENABLED then e = EIO
      else \<not> q_params_ok qp \<and> e = EINVAL))"
proof -
  let ?q = "q_init_fields u i qp (udma_q u ! unat i)"
  have f: "desc_phy_base ?q = qp_desc_phy_base qp" "cdesc_phy_base ?q = qp_cdesc_phy_base qp"
    "cdesc_base_ptr ?q = qp_cdesc_base qp"
    by (simp_all add: q_init_fields_def)
  have "al_udma_q_set_pointers u ?q (al_udma_q_config u ?q m) = None \<longleftrightarrow> \<not> q_bases_aligned qp"
    by (simp add: set_pointers_None q_bases_aligned_def f)
  then have "al_udma_q_init u i qp m = None \<longleftrightarrow>
     unat i < unat (num_of_queues u) \<and> q_status (udma_q u ! unat i) \<noteq> AL_QUEUE_ENABLED \<and>
     q_params_ok qp \<and> \<not> q_bases_aligned qp"
    by (auto simp: q_init_cases Let_def split: option.splits)
  moreover have "(\<exists>u' m'. al_udma_q_init u i qp m = Some (RcErr e, u', m')) \<longleftrightarrow>
     al_udma_q_init u i qp m = Some (RcErr e, u, m)"
    by (auto simp: q_init_cases Let_def split: option.splits if_splits)
  moreover have "al_udma_q_init u i qp m = Some (RcErr e, u, m) \<longleftrightarrow>
     (if unat (num_of_queues u) \<le> unat i then e = EINVAL
      else if q_status (udma_q u ! unat i) = AL_QUEUE_ENABLED then e = EIO
      else \<not> q_params_ok qp \<and> e = EINVAL)"
    by (auto simp: q_init_cases Let_def split: option.splits)
  ultimately show ?thesis by blast
qed

lemma wait_idle_poll:
  "q_reset_wait_idle status j t =
     poll_time (\<lambda>i. status i AND (UDMA_M2S_Q_STATUS_PREFETCH OR UDMA_M2S_Q_STATUS_SCHEDULER) = 0) j t"
  by (induction t arbitrary: j) auto

lemma wait_drain_poll: "q_reset_wait_drain dcp crhp j t = poll_time (\<lambda>i. dcp i = crhp i) j t"
  by (induction t arbitrary: j) auto

text \<open>
  C18: the outcome of \<open>al_udma_q_reset\<close>.  Write \<open>idle i\<close> for a status sample with neither the prefetch
  nor the scheduler bit.  The reset succeeds exactly when some sample \<open>i\<close> among the first 10000 is
  idle and, from the first such one, the prefetch and completion pointers agree within the
  time left; otherwise it returns \<open>-ETIME\<close>.  In every case the queue ends disabled with prefetch and
  scheduling switched off in its configuration register; the reset bit is written only on success,
  as the last write, and a timed-out reset writes nothing but the configuration register.
\<close>

theorem udma_q_reset_outcome:
  fixes status dcp crhp :: "nat \<Rightarrow> u32"
  defines "idle \<equiv> \<lambda>i. status i AND (UDMA_M2S_Q_STATUS_PREFETCH OR UDMA_M2S_Q_STATUS_SCHEDULER) = 0"
  assumes "al_udma_q_reset status dcp crhp u q m = (r, q', m')"
  shows "q' = q\<lparr>q_status := AL_QUEUE_DISABLED\<rparr> \<and> al_reg_read32 m' (rings_reg q rings_cfg) AND q_cfg_en = 0 \<and>
    r = (if \<exists>i<10000. idle i \<and> (\<forall>i'<i. \<not> idle i') \<and> (\<exists>j<10000 - i. dcp j = crhp j) then RcOk else RcErr ETIME) \<and>
    (\<exists>v. wlog m' = wlog m @ [(rings_reg q rings_cfg, v)] @
      (if r = RcOk then [(if udma_type u = UDMA_TX then m2s_q_reg q m2s_q_q_sw_ctrl else s2m_q_reg q s2m_q_q_sw_ctrl,
         UDMA_M2S_Q_SW_CTRL_RST_Q)] else []))"
proof -
  let ?q = "q\<lparr>q_status := AL_QUEUE_DISABLED\<rparr>" and ?cfg = "rings_reg q rings_cfg"
  let ?v = "AL_REG_MASK_CLEAR (al_reg_read32 m ?cfg) q_cfg_en"
  let ?m = "al_reg_write32 m ?cfg ?v"
  let ?t1 = "poll_time idle 0 10000"
  let ?t2 = "poll_time (\<lambda>i. dcp i = crhp i) 0 ?t1"
  have en: "al_udma_q_enable q False m = (?q, ?m)"
    by (simp add: al_udma_q_enable_def Let_def)
  have clr: "?v AND q_cfg_en = 0" by (simp add: AL_REG_MASK_CLEAR_def mask_set_val_same)
  have r: "r = (if ?t1 = 0 \<or> ?t2 = 0 then RcErr ETIME else RcOk)"
    using assms(2) by (auto simp: al_udma_q_reset_def en wait_idle_poll wait_drain_poll AL_UDMA_Q_RST_TOUT_def
        idle_def Let_def split: if_splits)
  have m': "q' = ?q" "m' = (if r = RcOk then al_reg_write32 ?m (if udma_type u = UDMA_TX then m2s_q_reg q m2s_q_q_sw_ctrl
      else s2m_q_reg q s2m_q_q_sw_ctrl) UDMA_M2S_Q_SW_CTRL_RST_Q else ?m)"
    using assms(2) by (auto simp: al_udma_q_reset_def en Let_def m2s_q_reg_def s2m_q_reg_def split: if_splits)
  have ok: "(?t1 \<noteq> 0 \<and> ?t2 \<noteq> 0) \<longleftrightarrow>
      (\<exists>i<10000. idle i \<and> (\<forall>i'<i. \<not> idle i') \<and> (\<exists>j<10000 - i. dcp j = crhp j))"
  proof (cases "?t1 = 0")
    case True
    then show ?thesis by (auto simp: poll_time_zero)
  next
    case False
    then obtain i where i: "idle i" "\<forall>i'<i. \<not> idle i'" "i < 10000" "?t1 = 10000 - i"
      by (metis poll_time_pos bot_nat_0.not_eq_extremum)
    have uniq: "i' = i" if "idle i'" "\<forall>k<i'. \<not> idle k" for i'
      using i(1,2) that by (metis nat_neq_iff)
    have "(\<exists>i'<10000. idle i' \<and> (\<forall>k<i'. \<not> idle k) \<and> (\<exists>j<10000 - i'. dcp j = crhp j)) \<longleftrightarrow>
        (\<exists>j<10000 - i. dcp j = crhp j)"
      using i(1-3) uniq by metis
    moreover have "?t2 \<noteq> 0 \<longleftrightarrow> (\<exists>j<10000 - i. dcp j = crhp j)"
      by (simp only: i(4) poll_time_zero add_0) blast
    ultimately show ?thesis using False by blast
  qed
  have ne: "m2s_q_reg q m2s_q_q_sw_ctrl \<noteq> ?cfg" "s2m_q_reg q s2m_q_q_sw_ctrl \<noteq> ?cfg"
    by (simp_all add: rings_reg_def m2s_q_reg_def s2m_q_reg_def)
  have "al_reg_read32 m' ?cfg AND q_cfg_en = 0"
    using ne clr by (auto simp: m'(2))
  moreover have "r = (if \<exists>i<10000. idle i \<and> (\<forall>i'<i. \<not> idle i') \<and> (\<exists>j<10000 - i. dcp j = crhp j) then RcOk else RcErr ETIME)"
    using r ok by auto
  moreover have "\<exists>v. wlog m' = wlog m @ [(?cfg, v)] @
      (if r = RcOk then [(if udma_type u = UDMA_TX then m2s_q_reg q m2s_q_q_sw_ctrl else s2m_q_reg q s2m_q_q_sw_ctrl,
         UDMA_M2S_Q_SW_CTRL_RST_Q)] else [])"
    by (rule exI [of _ ?v]) (simp add: m'(2))
  ultimately show ?thesis using m'(1) by blast
qed

theorem udma_q_reset_outcome_witness:
  "fst (al_udma_q_reset (\<lambda>i. if i < 2 then 0x10000000 else 0) (\<lambda>i. 5) (\<lambda>i. of_nat i) demo_udma demo_q
     \<lparr>regs = \<lambda>_. 0, wlog = []\<rparr>) = RcOk"
proof -
  let ?status = "\<lambda>i. if i < 2 then 0x10000000 else 0 :: u32"
  obtain r q' m' where e: "al_udma_q_reset ?status (\<lambda>i. 5) (\<lambda>i. of_nat i) demo_udma demo_q
      \<lparr>regs = \<lambda>_. 0, wlog = []\<rparr> = (r, q', m')"
    by (metis surj_pair)
  have ex: "\<exists>i<10000. ?status i AND (UDMA_M2S_Q_STATUS_PREFETCH OR UDMA_M2S_Q_STATUS_SCHEDULER) = 0 \<and>
      (\<forall>i'<i. ?status i' AND (UDMA_M2S_Q_STATUS_PREFETCH OR UDMA_M2S_Q_STATUS_SCHEDULER) \<noteq> 0) \<and>
      (\<exists>j<10000 - i. (5 :: u32) = of_nat j)"
    by (intro exI [of _ 2] conjI exI [of _ 5])
      (simp_all add: UDMA_M2S_Q_STATUS_PREFETCH_def UDMA_M2S_Q_STATUS_SCHEDULER_def)
  from udma_q_reset_outcome [OF e] ex have "r = RcOk" by meson
  with e show ?thesis by simp
qed

lemma demo_q_init: "\<exists>u' m'. al_udma_q_init demo_udma 2 demo_qp m = Some (RcOk, u', m')"
proof -
  let ?q = "q_init_fields demo_udma 2 demo_qp (udma_q demo_udma ! 2)"
  have "q_params_ok demo_qp" by (simp add: q_params_ok_def demo_qp_def)
  moreover obtain q m' where "al_udma_q_set_pointers demo_udma ?q (al_udma_q_config demo_udma ?q m) = Some (q, m')"
  proof -
    have "desc_phy_base ?q AND 0xF = 0 \<and> (cdesc_base_ptr ?q = NULL \<or> cdesc_phy_base ?q AND 0xF = 0)"
      by (simp add: q_init_fields_def demo_qp_def)
    then show ?thesis using that unfolding set_pointers_Some [of demo_udma ?q "al_udma_q_config demo_udma ?q m", symmetric] by blast
  qed
  moreover have "num_of_queues demo_udma = 4" "q_status (udma_q demo_udma ! 2) \<noteq> AL_QUEUE_ENABLED"
    by (simp_all add: demo_udma_def)
  ultimately show ?thesis by (simp add: q_init_cases Let_def)
qed

text \<open>
  A queue initialised with a completion ring (base not \<open>NULL\<close>, positive descriptor size, ring of
  less than 4 GB) satisfies the invariant that packet completion relies on, standing at
  completion number zero with no partial packet.
\<close>

theorem udma_q_init_completion:
  assumes "al_udma_q_init u i qp m = Some (RcOk, u', m')" "unat i < length (udma_q u)"
    and "qp_cdesc_base qp \<noteq> NULL" "0 < qp_cdesc_size qp" "unat (qp_size qp) * unat (qp_cdesc_size qp) < 2 ^ 32"
  shows "comp_ring_ok (udma_q u' ! unat i) \<and> comp_at (udma_q u' ! unat i) 0 \<and> pkt_crnt_descs (udma_q u' ! unat i) = 0"
proof -
  let ?q = "q_init_fields u i qp (udma_q u ! unat i)"
  from assms(1) have ok: "q_params_ok qp" by (auto simp: q_init_cases Let_def split: if_splits)
  from assms(1) obtain q m1 where p: "al_udma_q_set_pointers u ?q (al_udma_q_config u ?q m) = Some (q, m1)"
      and u': "udma_q u' = (udma_q u)[unat i := q\<lparr>q_status := AL_QUEUE_ENABLED\<rparr>]"
    by (auto simp: q_init_cases Let_def split: if_splits option.splits)
  have q: "q = ?q" using q_fields_after_pointers [OF p] assms(3) by (simp add: q_init_fields_def)
  have ring: "udma_ring_ok ?q" using q_init_fields_ok [OF ok] by simp
  have n: "qp_size qp \<noteq> 0" using ok by (auto simp: q_params_ok_def)
  then have pred: "unat (qp_size qp - 1) = unat (qp_size qp) - 1" by (rule unat_minus_one)
  have "(unat (qp_size qp) - 1) * unat (qp_cdesc_size qp) \<le> unat (qp_size qp) * unat (qp_cdesc_size qp)"
    by simp
  then have "(unat (qp_size qp) - 1) * unat (qp_cdesc_size qp) < 2 ^ 32"
    using assms(5) by (rule order.strict_trans1)
  then have prod: "unat ((qp_size qp - 1) * qp_cdesc_size qp) = (unat (qp_size qp) - 1) * unat (qp_cdesc_size qp)"
    by (simp add: unat_word_ariths pred)
  have flds: "cdesc_size ?q = qp_cdesc_size qp" "q_size ?q = qp_size qp" "cdesc_base_ptr ?q = qp_cdesc_base qp"
    "q_flags ?q = 0" "end_cdesc_ptr ?q = qp_cdesc_base qp + (unat (qp_size qp) - 1) * unat (qp_cdesc_size qp)"
    "comp_head_ptr ?q = qp_cdesc_base qp" "comp_ring_id ?q = 1" "pkt_crnt_descs ?q = 0"
    by (simp_all add: q_init_fields_def prod AL_UDMA_INITIAL_RING_ID_def)
  show ?thesis using ring assms(2,4,5)
    by (simp add: u' q comp_ring_ok_def comp_at_def comp_slot_def lap_id_def flds)
qed

theorem udma_q_init_completion_witness:
  "\<exists>u' m'. al_udma_q_init demo_udma 2 demo_qp \<lparr>regs = \<lambda>_. 0, wlog = []\<rparr> = Some (RcOk, u', m') \<and>
     comp_at (udma_q u' ! 2) 0"
proof -
  obtain u' m' where r: "al_udma_q_init demo_udma 2 demo_qp \<lparr>regs = \<lambda>_. 0, wlog = []\<rparr> = Some (RcOk, u', m')"
    using demo_q_init by blast
  have "comp_at (udma_q u' ! unat (2 :: u32)) 0"
    using udma_q_init_completion [OF r] by (simp add: demo_udma_def demo_qp_def)
  with r show ?thesis by auto
qed

lemma max4_code:
  fixes a b c d :: nat
  assumes "a \<le> 3" "b \<le> 3" "c \<le> 3" "d \<le> 3"
  shows "Max {a, b, c, d} = 3 \<longleftrightarrow> a = 3 \<or> b = 3 \<or> c = 3 \<or> d = 3"
    "Max {a, b, c, d} = 2 \<longleftrightarrow> \<not> (a = 3 \<or> b = 3 \<or> c = 3 \<or> d = 3) \<and> (a = 2 \<or> b = 2 \<or> c = 2 \<or> d = 2)"
    "Max {a, b, c, d} = 1 \<longleftrightarrow> \<not> (a = 3 \<or> b = 3 \<or> c = 3 \<or> d = 3) \<and> \<not> (a = 2 \<or> b = 2 \<or> c = 2 \<or> d = 2) \<and>
       (a = 1 \<or> b = 1 \<or> c = 1 \<or> d = 1)"
  using assms by (auto simp: max_def split: if_splits)

lemma al_assert4:
  "do { al_assert (\<not> p1); al_assert (\<not> p2); al_assert (\<not> p3); al_assert (\<not> p4); x } =
     (if p1 \<or> p2 \<or> p3 \<or> p4 then None else x)"
  by (simp add: al_assert_def)

lemma field2_get: "k \<le> 30 \<Longrightarrow> AL_REG_FIELD_GET r (push_bit k (mask 2)) k = take_bit 2 (drop_bit k r)" for r :: u32
  unfolding AL_REG_FIELD_GET_def by (intro bit_word_eqI) (auto simp: bit_simps)

text \<open>
  \<open>al_udma_state_get\<close> reports the most severe of the four sub-engine states.  For any register
  word, with the four state fields (completion control, stream interface, data read, descriptor
  prefetch) holding idle (0), normal (1) or abort (2) in any combination and any other bits set, the
  result is abort if one field is abort, else normal if one is normal, else idle; a field with the
  reserved code (3) stops the kernel.
\<close>

theorem udma_state_get_severity:
  fixes m :: mmio and u :: al_udma
  shows "al_udma_state_get u m =
    (let reg = al_reg_read32 m (udma_regs u + 0x200);
         s = Max {unat (take_bit 2 reg), unat (take_bit 2 (drop_bit 4 reg)),
                  unat (take_bit 2 (drop_bit 8 reg)), unat (take_bit 2 (drop_bit 12 reg))}
     in if s = 3 then None else if s = 2 then Some UDMA_ABORT else if s = 1 then Some UDMA_NORMAL else Some UDMA_IDLE)"
proof -
  have masks: "UDMA_M2S_STATE_COMP_CTRL_MASK = push_bit 0 (mask 2)" "UDMA_M2S_STATE_STREAM_IF_MASK = push_bit 4 (mask 2)"
    "UDMA_M2S_STATE_DATA_RD_CTRL_MASK = push_bit 8 (mask 2)" "UDMA_M2S_STATE_DESC_PREF_MASK = push_bit 12 (mask 2)"
    by (simp_all add: reg_off mask_eq_exp_minus_1)
  have shifts: "UDMA_M2S_STATE_COMP_CTRL_SHIFT = 0" "UDMA_M2S_STATE_STREAM_IF_SHIFT = 4"
    "UDMA_M2S_STATE_DATA_RD_CTRL_SHIFT = 8" "UDMA_M2S_STATE_DESC_PREF_SHIFT = 12"
    by (simp_all add: reg_off)
  define reg where "reg = al_reg_read32 m (udma_regs u + 0x200)"
  have field_le: "unat (take_bit 2 w) \<le> 3" for w :: u32
    using take_bit_nat_less_exp [of 2 "unat w"] by (simp add: unsigned_take_bit_eq)
  have codes: "w = UDMA_STATE_RESERVED \<longleftrightarrow> unat w = 3" "w = UDMA_STATE_ABORT \<longleftrightarrow> unat w = 2"
    "w = UDMA_STATE_NORMAL \<longleftrightarrow> unat w = 1" for w :: u32
    by (simp_all add: word_unat_eq_iff UDMA_STATE_RESERVED_def UDMA_STATE_ABORT_def UDMA_STATE_NORMAL_def)
  have addr: "(if udma_type u = UDMA_TX then al_reg_read32 m (udma_regs u + off_m2s_regs (m2s_regs_m2s m2s_state))
      else al_reg_read32 m (udma_regs u + off_s2m_regs (s2m_regs_s2m s2m_state))) = reg"
    by (simp add: reg_def)
  note max = max4_code [OF field_le [of reg] field_le [of "drop_bit 4 reg"] field_le [of "drop_bit 8 reg"]
      field_le [of "drop_bit 12 reg"]]
  show ?thesis
    unfolding al_udma_state_get_def addr reg_def [symmetric]
    unfolding Let_def masks shifts al_assert4 codes max
    by (simp only: field2_get le0 numeral_le_iff semiring_norm drop_bit_0 id_apply max) argo
qed

end
