(* ===== verification/Udma_Config.thy ===== *)
theory Udma_Config
  imports Udma_Main
begin

text \<open>
  Configuration of the DMA engine (\<open>al_hal_udma_config.c\<close>, structures of \<open>al_hal_udma_config.h\<close>).
  Each function is a sequence of read-modify-write steps on the register space; the \<open>let\<close> chains
  below follow the statements of the source one by one.  The C idioms are the macros of
  \<open>Reg_Utils\<close>: \<open>reg &= ~M; reg |= v & M\<close> is \<open>AL_REG_CLEAR_AND_SET reg M (v AND M)\<close>, an \<open>if\<close> that sets or
  clears a bit is \<open>AL_REG_MASK_SET_VAL\<close>.  Values of type \<open>uint8_t\<close> and \<open>uint16_t\<close> are widened with \<open>ucast\<close>.
  A function that always returns 0 returns the register space; one with error paths returns a
  status as well, and the register space at the point of return.
\<close>

subsection \<open>Configuration structures\<close>

datatype al_udma_sch_mode = STRICT | SRR | DWRR

record al_udma_axi_conf =
  axi_axi_timeout :: u32
  axi_arb_promotion :: u8
  axi_swap_8_bytes :: bool
  axi_swap_s2m_data :: bool
  axi_swap_s2m_desc :: bool
  axi_swap_m2s_data :: bool
  axi_swap_m2s_desc :: bool

record al_udma_axi_submaster =
  sm_id :: u8
  sm_cache_type :: u8
  sm_burst :: u8
  sm_used_ext :: u16
  sm_bus_size :: u8
  sm_qos :: u8
  sm_prot :: u8
  sm_max_beats :: u8

record al_udma_m2s_axi_conf =
  m2s_axi_comp_write :: al_udma_axi_submaster
  m2s_axi_data_read :: al_udma_axi_submaster
  m2s_axi_desc_read :: al_udma_axi_submaster
  m2s_axi_break_on_max_boundary :: bool
  m2s_axi_min_axi_beats :: u8
  m2s_axi_ostand_max_data_read :: u8
  m2s_axi_ostand_max_desc_read :: u8
  m2s_axi_ostand_max_comp_req :: u8
  m2s_axi_ostand_max_comp_write :: u8

record al_udma_s2m_axi_conf =
  s2m_axi_data_write :: al_udma_axi_submaster
  s2m_axi_desc_read :: al_udma_axi_submaster
  s2m_axi_comp_write :: al_udma_axi_submaster
  s2m_axi_break_on_max_boundary :: bool
  s2m_axi_min_axi_beats :: u8
  s2m_axi_ostand_max_data_req :: u8
  s2m_axi_ostand_max_data_write :: u8
  s2m_axi_ostand_max_comp_req :: u8
  s2m_axi_ostand_max_comp_write :: u8
  s2m_axi_ostand_max_desc_read :: u8
  s2m_axi_ack_fifo_depth :: u8

record al_udma_m2s_pkt_len_conf =
  pkt_len_max_pkt_size :: u32
  pkt_len_encode_64k_as_zero :: bool

record al_udma_m2s_desc_pref_conf =
  m2s_pref_desc_fifo_depth :: u8
  m2s_pref_sch_mode :: al_udma_sch_mode
  m2s_pref_max_desc_per_packet :: u8
  m2s_pref_pref_thr :: u8
  m2s_pref_min_burst_above_thr :: u8
  m2s_pref_min_burst_below_thr :: u8
  m2s_pref_max_pkt_limit :: u8
  m2s_pref_data_fifo_depth :: u16

record al_udma_s2m_desc_pref_conf =
  s2m_pref_desc_fifo_depth :: u8
  s2m_pref_sch_mode :: al_udma_sch_mode
  s2m_pref_q_promotion :: bool
  s2m_pref_force_promotion :: bool
  s2m_pref_en_pref_prediction :: bool
  s2m_pref_promotion_th :: u8
  s2m_pref_pref_thr :: u8
  s2m_pref_min_burst_above_thr :: u8
  s2m_pref_min_burst_below_thr :: u8
  s2m_pref_a_full_thr :: u8

record al_udma_s2m_data_write_conf =
  dwr_data_fifo_depth :: u16
  dwr_max_pkt_limit :: u8
  dwr_fifo_margin :: u8
  dwr_desc_wait_timer :: u32
  dwr_flags :: u32

record al_udma_s2m_completion_conf =
  s2m_compl_desc_size :: u8
  s2m_compl_cnt_words :: bool
  s2m_compl_q_promotion :: bool
  s2m_compl_force_rr :: bool
  s2m_compl_q_free_min :: u8
  s2m_compl_comp_fifo_depth :: u16
  s2m_compl_unack_fifo_depth :: u16
  s2m_compl_timeout :: u32

record al_udma_m2s_dwrr_conf =
  dwrr_enable_dwrr :: bool
  dwrr_inc_factor :: u8
  dwrr_weight :: u8
  dwrr_pkt_mode :: bool
  dwrr_deficit_init_val :: u32

record al_udma_m2s_rlimit_params =
  rlp_io_fabric_clk_freq :: u32
  rlp_rate_limit :: u32

record al_udma_m2s_q_dwrr_conf =
  qdwrr_max_deficit_cnt_sz :: u32
  qdwrr_strict :: bool
  qdwrr_axi_qos :: u8
  qdwrr_q_qos :: u16
  qdwrr_weight :: u8

record al_udma_m2s_comp_timeouts =
  cto_sch_mode :: al_udma_sch_mode
  cto_enable_q_promotion :: bool
  cto_unack_fifo_depth :: u8
  cto_comp_fifo_depth :: u8
  cto_coal_timeout :: u32
  cto_app_timeout :: u32

record al_udma_s2m_q_comp_conf =
  qcomp_dis_comp_coal :: bool
  qcomp_en_comp_ring_update :: bool
  qcomp_comp_timer :: u32
  qcomp_en_hdr_split :: bool
  qcomp_force_hdr_split :: bool
  qcomp_hdr_split_size :: u16
  qcomp_q_qos :: u8

record al_udma_gen_tgtid_q_conf =
  tgt_queue_en :: bool
  tgt_desc_en :: bool
  tgt_tgtid :: u16
  tgt_tgtaddr :: u16

record al_udma_gen_tgtid_conf =
  tgtc_tx_q_conf :: "al_udma_gen_tgtid_q_conf list"
  tgtc_rx_q_conf :: "al_udma_gen_tgtid_q_conf list"

record al_udma_gen_tgtid_msix_conf =
  msix_access_en :: bool
  msix_sel :: bool

record al_udma_m2s_rlimit_mode =
  rlm_pkt_mode_en :: bool
  rlm_short_cycle_sz :: u16
  rlm_token_init_val :: u32

record al_udma_m2s_rlimit_cfg =
  rlc_max_burst_sz :: u32
  rlc_long_cycle_sz :: u16
  rlc_long_cycle :: u32
  rlc_short_cycle :: u32
  rlc_mask :: u32

subsection \<open>Register addresses\<close>

definition m2s_reg :: "al_udma \<Rightarrow> udma_m2s_regs \<Rightarrow> ptr" where
  "m2s_reg u r = udma_regs u + off_m2s_regs r"

definition s2m_reg :: "al_udma \<Rightarrow> udma_s2m_regs \<Rightarrow> ptr" where
  "s2m_reg u r = udma_regs u + off_s2m_regs r"

definition unit_gen_reg :: "ptr \<Rightarrow> udma_gen_regs \<Rightarrow> ptr" where
  "unit_gen_reg unit_regs r = unit_regs + unit_regs_gen + off_gen_regs r"

subsection \<open>AXI\<close>

definition al_udma_axi_set :: "ptr \<Rightarrow> al_udma_axi_conf \<Rightarrow> mmio \<Rightarrow> mmio" where
  "al_udma_axi_set axi_regs c m =
     (let m = al_reg_write32 m (axi_regs + off_gen_axi gen_axi_cfg_1) (axi_axi_timeout c);
          reg = al_reg_read32 m (axi_regs + off_gen_axi gen_axi_cfg_2);
          reg = AL_REG_CLEAR_AND_SET reg UDMA_GEN_AXI_CFG_2_ARB_PROMOTION_MASK (ucast (axi_arb_promotion c));
          m = al_reg_write32 m (axi_regs + off_gen_axi gen_axi_cfg_2) reg;
          reg = al_reg_read32 m (axi_regs + off_gen_axi gen_axi_endian_cfg);
          reg = AL_REG_MASK_SET_VAL reg UDMA_GEN_AXI_ENDIAN_CFG_SWAP_64B_EN (axi_swap_8_bytes c);
          reg = AL_REG_MASK_SET_VAL reg UDMA_GEN_AXI_ENDIAN_CFG_SWAP_S2M_DATA (axi_swap_s2m_data c);
          reg = AL_REG_MASK_SET_VAL reg UDMA_GEN_AXI_ENDIAN_CFG_SWAP_S2M_DESC (axi_swap_s2m_desc c);
          reg = AL_REG_MASK_SET_VAL reg UDMA_GEN_AXI_ENDIAN_CFG_SWAP_M2S_DATA (axi_swap_m2s_data c);
          reg = AL_REG_MASK_SET_VAL reg UDMA_GEN_AXI_ENDIAN_CFG_SWAP_M2S_DESC (axi_swap_m2s_desc c);
          m = al_reg_write32 m (axi_regs + off_gen_axi gen_axi_endian_cfg) reg
      in m)"

definition al_udma_m2s_axi_sm_set :: "al_udma_axi_submaster \<Rightarrow> ptr \<Rightarrow> ptr \<Rightarrow> ptr \<Rightarrow> mmio \<Rightarrow> mmio" where
  "al_udma_m2s_axi_sm_set c cfg_1 cfg_2 cfg_max_beats m =
     (let reg = al_reg_read32 m cfg_1;
          reg = AL_REG_CLEAR_AND_SET reg UDMA_AXI_M2S_COMP_WR_CFG_1_AWID_MASK
              (ucast (sm_id c) AND UDMA_AXI_M2S_COMP_WR_CFG_1_AWID_MASK);
          reg = AL_REG_CLEAR_AND_SET reg UDMA_AXI_M2S_COMP_WR_CFG_1_AWCACHE_MASK
              (push_bit UDMA_AXI_M2S_COMP_WR_CFG_1_AWCACHE_SHIFT (ucast (sm_cache_type c)) AND UDMA_AXI_M2S_COMP_WR_CFG_1_AWCACHE_MASK);
          reg = AL_REG_CLEAR_AND_SET reg UDMA_AXI_M2S_COMP_WR_CFG_1_AWBURST_MASK
              (push_bit UDMA_AXI_M2S_COMP_WR_CFG_1_AWBURST_SHIFT (ucast (sm_burst c)) AND UDMA_AXI_M2S_COMP_WR_CFG_1_AWBURST_MASK);
          m = al_reg_write32 m cfg_1 reg;
          reg = al_reg_read32 m cfg_2;
          reg = AL_REG_CLEAR_AND_SET reg UDMA_AXI_M2S_COMP_WR_CFG_2_AWUSER_MASK
              (ucast (sm_used_ext c) AND UDMA_AXI_M2S_COMP_WR_CFG_2_AWUSER_MASK);
          reg = AL_REG_CLEAR_AND_SET reg UDMA_AXI_M2S_COMP_WR_CFG_2_AWSIZE_MASK
              (push_bit UDMA_AXI_M2S_COMP_WR_CFG_2_AWSIZE_SHIFT (ucast (sm_bus_size c)) AND UDMA_AXI_M2S_COMP_WR_CFG_2_AWSIZE_MASK);
          reg = AL_REG_CLEAR_AND_SET reg UDMA_AXI_M2S_COMP_WR_CFG_2_AWQOS_MASK
              (push_bit UDMA_AXI_M2S_COMP_WR_CFG_2_AWQOS_SHIFT (ucast (sm_qos c)) AND UDMA_AXI_M2S_COMP_WR_CFG_2_AWQOS_MASK);
          reg = AL_REG_CLEAR_AND_SET reg UDMA_AXI_M2S_COMP_WR_CFG_2_AWPROT_MASK
              (push_bit UDMA_AXI_M2S_COMP_WR_CFG_2_AWPROT_SHIFT (ucast (sm_prot c)) AND UDMA_AXI_M2S_COMP_WR_CFG_2_AWPROT_MASK);
          m = al_reg_write32 m cfg_2 reg;
          reg = al_reg_read32 m cfg_max_beats;
          reg = AL_REG_CLEAR_AND_SET reg UDMA_AXI_M2S_DESC_WR_CFG_1_MAX_AXI_BEATS_MASK
              (ucast (sm_max_beats c) AND UDMA_AXI_M2S_DESC_WR_CFG_1_MAX_AXI_BEATS_MASK);
          m = al_reg_write32 m cfg_max_beats reg
      in m)"

definition al_udma_m2s_axi_set :: "al_udma \<Rightarrow> al_udma_m2s_axi_conf \<Rightarrow> mmio \<Rightarrow> mmio" where
  "al_udma_m2s_axi_set u c m =
     (let m = al_udma_m2s_axi_sm_set (m2s_axi_comp_write c) (m2s_reg u (m2s_regs_axi_m2s axi_m2s_comp_wr_cfg_1)) (m2s_reg u (m2s_regs_axi_m2s axi_m2s_comp_wr_cfg_2)) (m2s_reg u (m2s_regs_axi_m2s axi_m2s_desc_wr_cfg_1)) m;
          m = al_udma_m2s_axi_sm_set (m2s_axi_data_read c) (m2s_reg u (m2s_regs_axi_m2s axi_m2s_data_rd_cfg_1)) (m2s_reg u (m2s_regs_axi_m2s axi_m2s_data_rd_cfg_2)) (m2s_reg u (m2s_regs_axi_m2s axi_m2s_data_rd_cfg)) m;
          m = al_udma_m2s_axi_sm_set (m2s_axi_desc_read c) (m2s_reg u (m2s_regs_axi_m2s axi_m2s_desc_rd_cfg_1)) (m2s_reg u (m2s_regs_axi_m2s axi_m2s_desc_rd_cfg_2)) (m2s_reg u (m2s_regs_axi_m2s axi_m2s_desc_rd_cfg_3)) m;
          reg = al_reg_read32 m (m2s_reg u (m2s_regs_axi_m2s axi_m2s_data_rd_cfg));
          reg = AL_REG_MASK_SET_VAL reg UDMA_AXI_M2S_DATA_RD_CFG_ALWAYS_BREAK_ON_MAX_BOUDRY (m2s_axi_break_on_max_boundary c);
          m = al_reg_write32 m (m2s_reg u (m2s_regs_axi_m2s axi_m2s_data_rd_cfg)) reg;
          reg = al_reg_read32 m (m2s_reg u (m2s_regs_axi_m2s axi_m2s_desc_wr_cfg_1));
          reg = AL_REG_CLEAR_AND_SET reg UDMA_AXI_M2S_DESC_WR_CFG_1_MIN_AXI_BEATS_MASK
              (push_bit UDMA_AXI_M2S_DESC_WR_CFG_1_MIN_AXI_BEATS_SHIFT (ucast (m2s_axi_min_axi_beats c)) AND UDMA_AXI_M2S_DESC_WR_CFG_1_MIN_AXI_BEATS_MASK);
          m = al_reg_write32 m (m2s_reg u (m2s_regs_axi_m2s axi_m2s_desc_wr_cfg_1)) reg;
          reg = al_reg_read32 m (m2s_reg u (m2s_regs_axi_m2s axi_m2s_ostand_cfg));
          reg = AL_REG_CLEAR_AND_SET reg UDMA_AXI_M2S_OSTAND_CFG_MAX_DATA_RD_MASK
              (ucast (m2s_axi_ostand_max_data_read c) AND UDMA_AXI_M2S_OSTAND_CFG_MAX_DATA_RD_MASK);
          reg = AL_REG_CLEAR_AND_SET reg UDMA_AXI_M2S_OSTAND_CFG_MAX_DESC_RD_MASK
              (push_bit UDMA_AXI_M2S_OSTAND_CFG_MAX_DESC_RD_SHIFT (ucast (m2s_axi_ostand_max_desc_read c)) AND UDMA_AXI_M2S_OSTAND_CFG_MAX_DESC_RD_MASK);
          reg = AL_REG_CLEAR_AND_SET reg UDMA_AXI_M2S_OSTAND_CFG_MAX_COMP_REQ_MASK
              (push_bit UDMA_AXI_M2S_OSTAND_CFG_MAX_COMP_REQ_SHIFT (ucast (m2s_axi_ostand_max_comp_req c)) AND UDMA_AXI_M2S_OSTAND_CFG_MAX_COMP_REQ_MASK);
          reg = AL_REG_CLEAR_AND_SET reg UDMA_AXI_M2S_OSTAND_CFG_MAX_COMP_DATA_WR_MASK
              (push_bit UDMA_AXI_M2S_OSTAND_CFG_MAX_COMP_DATA_WR_SHIFT (ucast (m2s_axi_ostand_max_comp_write c)) AND UDMA_AXI_M2S_OSTAND_CFG_MAX_COMP_DATA_WR_MASK);
          m = al_reg_write32 m (m2s_reg u (m2s_regs_axi_m2s axi_m2s_ostand_cfg)) reg
      in m)"

definition al_udma_s2m_axi_sm_set :: "al_udma_axi_submaster \<Rightarrow> ptr \<Rightarrow> ptr \<Rightarrow> ptr \<Rightarrow> mmio \<Rightarrow> mmio" where
  "al_udma_s2m_axi_sm_set c cfg_1 cfg_2 cfg_max_beats m =
     (let reg = al_reg_read32 m cfg_1;
          reg = AL_REG_CLEAR_AND_SET reg UDMA_AXI_S2M_COMP_WR_CFG_1_AWID_MASK
              (ucast (sm_id c) AND UDMA_AXI_S2M_COMP_WR_CFG_1_AWID_MASK);
          reg = AL_REG_CLEAR_AND_SET reg UDMA_AXI_S2M_COMP_WR_CFG_1_AWCACHE_MASK
              (push_bit UDMA_AXI_S2M_COMP_WR_CFG_1_AWCACHE_SHIFT (ucast (sm_cache_type c)) AND UDMA_AXI_S2M_COMP_WR_CFG_1_AWCACHE_MASK);
          reg = AL_REG_CLEAR_AND_SET reg UDMA_AXI_S2M_COMP_WR_CFG_1_AWBURST_MASK
              (push_bit UDMA_AXI_S2M_COMP_WR_CFG_1_AWBURST_SHIFT (ucast (sm_burst c)) AND UDMA_AXI_S2M_COMP_WR_CFG_1_AWBURST_MASK);
          m = al_reg_write32 m cfg_1 reg;
          reg = al_reg_read32 m cfg_2;
          reg = AL_REG_CLEAR_AND_SET reg UDMA_AXI_S2M_COMP_WR_CFG_2_AWUSER_MASK
              (ucast (sm_used_ext c) AND UDMA_AXI_S2M_COMP_WR_CFG_2_AWUSER_MASK);
          reg = AL_REG_CLEAR_AND_SET reg UDMA_AXI_S2M_COMP_WR_CFG_2_AWSIZE_MASK
              (push_bit UDMA_AXI_S2M_COMP_WR_CFG_2_AWSIZE_SHIFT (ucast (sm_bus_size c)) AND UDMA_AXI_S2M_COMP_WR_CFG_2_AWSIZE_MASK);
          reg = AL_REG_CLEAR_AND_SET reg UDMA_AXI_S2M_COMP_WR_CFG_2_AWQOS_MASK
              (push_bit UDMA_AXI_S2M_COMP_WR_CFG_2_AWQOS_SHIFT (ucast (sm_qos c)) AND UDMA_AXI_S2M_COMP_WR_CFG_2_AWQOS_MASK);
          reg = AL_REG_CLEAR_AND_SET reg UDMA_AXI_S2M_COMP_WR_CFG_2_AWPROT_MASK
              (push_bit UDMA_AXI_S2M_COMP_WR_CFG_2_AWPROT_SHIFT (ucast (sm_prot c)) AND UDMA_AXI_S2M_COMP_WR_CFG_2_AWPROT_MASK);
          m = al_reg_write32 m cfg_2 reg;
          reg = al_reg_read32 m cfg_max_beats;
          reg = AL_REG_CLEAR_AND_SET reg UDMA_AXI_S2M_DESC_WR_CFG_1_MAX_AXI_BEATS_MASK
              (ucast (sm_max_beats c) AND UDMA_AXI_S2M_DESC_WR_CFG_1_MAX_AXI_BEATS_MASK);
          m = al_reg_write32 m cfg_max_beats reg
      in m)"

definition al_udma_s2m_axi_set :: "al_udma \<Rightarrow> al_udma_s2m_axi_conf \<Rightarrow> mmio \<Rightarrow> mmio" where
  "al_udma_s2m_axi_set u c m =
     (let m = al_udma_s2m_axi_sm_set (s2m_axi_data_write c) (s2m_reg u (s2m_regs_axi_s2m axi_s2m_data_wr_cfg_1)) (s2m_reg u (s2m_regs_axi_s2m axi_s2m_data_wr_cfg_2)) (s2m_reg u (s2m_regs_axi_s2m axi_s2m_data_wr_cfg)) m;
          m = al_udma_s2m_axi_sm_set (s2m_axi_desc_read c) (s2m_reg u (s2m_regs_axi_s2m axi_s2m_desc_rd_cfg_4)) (s2m_reg u (s2m_regs_axi_s2m axi_s2m_desc_rd_cfg_5)) (s2m_reg u (s2m_regs_axi_s2m axi_s2m_desc_rd_cfg_3)) m;
          m = al_udma_s2m_axi_sm_set (s2m_axi_comp_write c) (s2m_reg u (s2m_regs_axi_s2m axi_s2m_comp_wr_cfg_1)) (s2m_reg u (s2m_regs_axi_s2m axi_s2m_comp_wr_cfg_2)) (s2m_reg u (s2m_regs_axi_s2m axi_s2m_desc_wr_cfg_1)) m;
          reg = al_reg_read32 m (s2m_reg u (s2m_regs_axi_s2m axi_s2m_desc_rd_cfg_3));
          reg = AL_REG_MASK_SET_VAL reg UDMA_AXI_S2M_DESC_RD_CFG_3_ALWAYS_BREAK_ON_MAX_BOUDRY (s2m_axi_break_on_max_boundary c);
          m = al_reg_write32 m (s2m_reg u (s2m_regs_axi_s2m axi_s2m_desc_rd_cfg_3)) reg;
          reg = al_reg_read32 m (s2m_reg u (s2m_regs_axi_s2m axi_s2m_desc_wr_cfg_1));
          reg = AL_REG_CLEAR_AND_SET reg UDMA_AXI_S2M_DESC_WR_CFG_1_MIN_AXI_BEATS_MASK
              (push_bit UDMA_AXI_S2M_DESC_WR_CFG_1_MIN_AXI_BEATS_SHIFT (ucast (s2m_axi_min_axi_beats c)) AND UDMA_AXI_S2M_DESC_WR_CFG_1_MIN_AXI_BEATS_MASK);
          m = al_reg_write32 m (s2m_reg u (s2m_regs_axi_s2m axi_s2m_desc_wr_cfg_1)) reg;
          reg = al_reg_read32 m (s2m_reg u (s2m_regs_axi_s2m axi_s2m_ostand_cfg_rd));
          reg = AL_REG_CLEAR_AND_SET reg UDMA_AXI_S2M_OSTAND_CFG_RD_MAX_DESC_RD_OSTAND_MASK
              (ucast (s2m_axi_ostand_max_desc_read c) AND UDMA_AXI_S2M_OSTAND_CFG_RD_MAX_DESC_RD_OSTAND_MASK);
          reg = AL_REG_CLEAR_AND_SET reg UDMA_AXI_S2M_OSTAND_CFG_RD_MAX_STREAM_ACK_MASK
              (push_bit UDMA_AXI_S2M_OSTAND_CFG_RD_MAX_STREAM_ACK_SHIFT (ucast (s2m_axi_ack_fifo_depth c)) AND UDMA_AXI_S2M_OSTAND_CFG_RD_MAX_STREAM_ACK_MASK);
          m = al_reg_write32 m (s2m_reg u (s2m_regs_axi_s2m axi_s2m_ostand_cfg_rd)) reg;
          reg = al_reg_read32 m (s2m_reg u (s2m_regs_axi_s2m axi_s2m_ostand_cfg_wr));
          reg = AL_REG_CLEAR_AND_SET reg UDMA_AXI_S2M_OSTAND_CFG_WR_MAX_DATA_WR_OSTAND_MASK
              (ucast (s2m_axi_ostand_max_data_req c) AND UDMA_AXI_S2M_OSTAND_CFG_WR_MAX_DATA_WR_OSTAND_MASK);
          reg = AL_REG_CLEAR_AND_SET reg UDMA_AXI_S2M_OSTAND_CFG_WR_MAX_DATA_BEATS_WR_OSTAND_MASK
              (push_bit UDMA_AXI_S2M_OSTAND_CFG_WR_MAX_DATA_BEATS_WR_OSTAND_SHIFT (ucast (s2m_axi_ostand_max_data_write c)) AND UDMA_AXI_S2M_OSTAND_CFG_WR_MAX_DATA_BEATS_WR_OSTAND_MASK);
          reg = AL_REG_CLEAR_AND_SET reg UDMA_AXI_S2M_OSTAND_CFG_WR_MAX_COMP_REQ_MASK
              (push_bit UDMA_AXI_S2M_OSTAND_CFG_WR_MAX_COMP_REQ_SHIFT (ucast (s2m_axi_ostand_max_comp_req c)) AND UDMA_AXI_S2M_OSTAND_CFG_WR_MAX_COMP_REQ_MASK);
          reg = AL_REG_CLEAR_AND_SET reg UDMA_AXI_S2M_OSTAND_CFG_WR_MAX_COMP_DATA_WR_OSTAND_MASK
              (push_bit UDMA_AXI_S2M_OSTAND_CFG_WR_MAX_COMP_DATA_WR_OSTAND_SHIFT (ucast (s2m_axi_ostand_max_comp_write c)) AND UDMA_AXI_S2M_OSTAND_CFG_WR_MAX_COMP_DATA_WR_OSTAND_MASK);
          m = al_reg_write32 m (s2m_reg u (s2m_regs_axi_s2m axi_s2m_ostand_cfg_wr)) reg
      in m)"

subsection \<open>Packet length, descriptor prefetch, data write, completion\<close>

definition al_udma_m2s_packet_size_cfg_set :: "al_udma \<Rightarrow> al_udma_m2s_pkt_len_conf \<Rightarrow> mmio \<Rightarrow> (rc \<times> mmio) option" where
  "al_udma_m2s_packet_size_cfg_set u c m =
     (let reg = al_reg_read32 m (m2s_reg u (m2s_regs_m2s m2s_cfg_len));
          max_supported_size = UDMA_M2S_CFG_LEN_MAX_PKT_SIZE_MASK
      in do {
        al_assert (udma_type u = UDMA_TX);
        let max_supported_size = (if pkt_len_encode_64k_as_zero c then max_supported_size + 1 else max_supported_size);
        if max_supported_size < pkt_len_max_pkt_size c then Some (RcErr EINVAL, m)
        else do {
          let reg = AL_REG_MASK_CLEAR reg UDMA_M2S_CFG_LEN_ENCODE_64K;
          let reg = AL_REG_MASK_SET_VAL reg UDMA_M2S_CFG_LEN_ENCODE_64K (pkt_len_encode_64k_as_zero c);
          let reg = AL_REG_CLEAR_AND_SET reg UDMA_M2S_CFG_LEN_MAX_PKT_SIZE_MASK (pkt_len_max_pkt_size c);
          Some (RcOk, al_reg_write32 m (m2s_reg u (m2s_regs_m2s m2s_cfg_len)) reg) } })"

definition al_udma_m2s_pref_set :: "al_udma \<Rightarrow> al_udma_m2s_desc_pref_conf \<Rightarrow> mmio \<Rightarrow> rc \<times> mmio" where
  "al_udma_m2s_pref_set u c m =
     (let reg = al_reg_read32 m (m2s_reg u (m2s_regs_m2s_rd m2s_rd_desc_pref_cfg_1));
          reg = AL_REG_CLEAR_AND_SET reg UDMA_M2S_RD_DESC_PREF_CFG_1_FIFO_DEPTH_MASK
              (ucast (m2s_pref_desc_fifo_depth c));
          m = al_reg_write32 m (m2s_reg u (m2s_regs_m2s_rd m2s_rd_desc_pref_cfg_1)) reg;
          reg = al_reg_read32 m (m2s_reg u (m2s_regs_m2s_rd m2s_rd_desc_pref_cfg_2))
      in if m2s_pref_sch_mode c \<noteq> SRR \<and> m2s_pref_sch_mode c \<noteq> STRICT then (RcErr EINVAL, m)
         else
     let reg = AL_REG_MASK_SET_VAL reg UDMA_M2S_RD_DESC_PREF_CFG_2_PREF_FORCE_RR (m2s_pref_sch_mode c = SRR);
         reg = AL_REG_CLEAR_AND_SET reg UDMA_M2S_RD_DESC_PREF_CFG_2_MAX_DESC_PER_PKT_MASK
              (ucast (m2s_pref_max_desc_per_packet c) AND UDMA_M2S_RD_DESC_PREF_CFG_2_MAX_DESC_PER_PKT_MASK);
          m = al_reg_write32 m (m2s_reg u (m2s_regs_m2s_rd m2s_rd_desc_pref_cfg_2)) reg;
          reg = al_reg_read32 m (m2s_reg u (m2s_regs_m2s_rd m2s_rd_desc_pref_cfg_3));
          reg = AL_REG_CLEAR_AND_SET reg UDMA_M2S_RD_DESC_PREF_CFG_3_MIN_BURST_BELOW_THR_MASK
              (ucast (m2s_pref_min_burst_below_thr c) AND UDMA_M2S_RD_DESC_PREF_CFG_3_MIN_BURST_BELOW_THR_MASK);
          reg = AL_REG_CLEAR_AND_SET reg UDMA_M2S_RD_DESC_PREF_CFG_3_MIN_BURST_ABOVE_THR_MASK
              (push_bit UDMA_M2S_RD_DESC_PREF_CFG_3_MIN_BURST_ABOVE_THR_SHIFT (ucast (m2s_pref_min_burst_above_thr c)) AND UDMA_M2S_RD_DESC_PREF_CFG_3_MIN_BURST_ABOVE_THR_MASK);
          reg = AL_REG_CLEAR_AND_SET reg UDMA_M2S_RD_DESC_PREF_CFG_3_PREF_THR_MASK
              (push_bit UDMA_M2S_RD_DESC_PREF_CFG_3_PREF_THR_SHIFT (ucast (m2s_pref_pref_thr c)) AND UDMA_M2S_RD_DESC_PREF_CFG_3_PREF_THR_MASK);
          m = al_reg_write32 m (m2s_reg u (m2s_regs_m2s_rd m2s_rd_desc_pref_cfg_3)) reg;
          reg = al_reg_read32 m (m2s_reg u (m2s_regs_m2s_rd m2s_rd_data_cfg));
          reg = AL_REG_CLEAR_AND_SET reg UDMA_M2S_RD_DATA_CFG_DATA_FIFO_DEPTH_MASK
              (ucast (m2s_pref_data_fifo_depth c) AND UDMA_M2S_RD_DATA_CFG_DATA_FIFO_DEPTH_MASK);
          reg = AL_REG_CLEAR_AND_SET reg UDMA_M2S_RD_DATA_CFG_MAX_PKT_LIMIT_MASK
              (push_bit UDMA_M2S_RD_DATA_CFG_MAX_PKT_LIMIT_SHIFT (ucast (m2s_pref_max_pkt_limit c)) AND UDMA_M2S_RD_DATA_CFG_MAX_PKT_LIMIT_MASK);
          m = al_reg_write32 m (m2s_reg u (m2s_regs_m2s_rd m2s_rd_data_cfg)) reg
      in (RcOk, m))"

text \<open>The fields \<open>max_pkt_limit\<close> and \<open>data_fifo_depth\<close> of the result are those the caller passed in.\<close>

definition al_udma_m2s_pref_get :: "al_udma \<Rightarrow> mmio \<Rightarrow> al_udma_m2s_desc_pref_conf \<Rightarrow> al_udma_m2s_desc_pref_conf" where
  "al_udma_m2s_pref_get u m c =
     (let reg = al_reg_read32 m (m2s_reg u (m2s_regs_m2s_rd m2s_rd_desc_pref_cfg_1));
          c = c\<lparr>m2s_pref_desc_fifo_depth := ucast (AL_REG_FIELD_GET reg
                UDMA_M2S_RD_DESC_PREF_CFG_1_FIFO_DEPTH_MASK UDMA_M2S_RD_DESC_PREF_CFG_1_FIFO_DEPTH_SHIFT)\<rparr>;
          reg = al_reg_read32 m (m2s_reg u (m2s_regs_m2s_rd m2s_rd_desc_pref_cfg_2));
          c = c\<lparr>m2s_pref_sch_mode := (if reg AND UDMA_M2S_RD_DESC_PREF_CFG_2_MAX_DESC_PER_PKT_MASK \<noteq> 0 then SRR else STRICT)\<rparr>;
          c = c\<lparr>m2s_pref_max_desc_per_packet := ucast (AL_REG_FIELD_GET reg
                UDMA_M2S_RD_DESC_PREF_CFG_2_MAX_DESC_PER_PKT_MASK UDMA_M2S_RD_DESC_PREF_CFG_2_MAX_DESC_PER_PKT_SHIFT)\<rparr>;
          reg = al_reg_read32 m (m2s_reg u (m2s_regs_m2s_rd m2s_rd_desc_pref_cfg_3));
          c = c\<lparr>m2s_pref_min_burst_below_thr := ucast (AL_REG_FIELD_GET reg
                UDMA_M2S_RD_DESC_PREF_CFG_3_MIN_BURST_BELOW_THR_MASK UDMA_M2S_RD_DESC_PREF_CFG_3_MIN_BURST_BELOW_THR_SHIFT)\<rparr>;
          c = c\<lparr>m2s_pref_min_burst_above_thr := ucast (AL_REG_FIELD_GET reg
                UDMA_M2S_RD_DESC_PREF_CFG_3_MIN_BURST_ABOVE_THR_MASK UDMA_M2S_RD_DESC_PREF_CFG_3_MIN_BURST_ABOVE_THR_SHIFT)\<rparr>
      in c\<lparr>m2s_pref_pref_thr := ucast (AL_REG_FIELD_GET reg
                UDMA_M2S_RD_DESC_PREF_CFG_3_PREF_THR_MASK UDMA_M2S_RD_DESC_PREF_CFG_3_PREF_THR_SHIFT)\<rparr>)"

definition AL_UDMA_M2S_MAX_ALLOWED_DESCS_PER_PACKET :: u8 where
  "AL_UDMA_M2S_MAX_ALLOWED_DESCS_PER_PACKET = 31"

definition AL_UDMA_S2M_MAX_ALLOWED_DESCS_PER_PACKET :: u8 where
  "AL_UDMA_S2M_MAX_ALLOWED_DESCS_PER_PACKET = 31"

definition al_udma_m2s_max_descs_set :: "al_udma \<Rightarrow> u8 \<Rightarrow> mmio \<Rightarrow> mmio option" where
  "al_udma_m2s_max_descs_set u max_descs m =
     (let pref_thr = ucast max_descs :: u32; min_burst_above_thr = 4 :: u32
      in do {
        al_assert (max_descs \<le> AL_UDMA_M2S_MAX_ALLOWED_DESCS_PER_PACKET);
        al_assert (0 < max_descs);
        let (pref_thr, min_burst_above_thr) =
          (if 8 \<le> pref_thr then (pref_thr, 8) else (4, min_burst_above_thr));
        let m = al_reg_write32_masked m (m2s_reg u (m2s_regs_m2s_rd m2s_rd_desc_pref_cfg_2))
          UDMA_M2S_RD_DESC_PREF_CFG_2_MAX_DESC_PER_PKT_MASK
          (push_bit UDMA_M2S_RD_DESC_PREF_CFG_2_MAX_DESC_PER_PKT_SHIFT (ucast max_descs));
        Some (al_reg_write32_masked m (m2s_reg u (m2s_regs_m2s_rd m2s_rd_desc_pref_cfg_3))
          (UDMA_M2S_RD_DESC_PREF_CFG_3_PREF_THR_MASK OR UDMA_M2S_RD_DESC_PREF_CFG_3_MIN_BURST_ABOVE_THR_MASK)
          (push_bit UDMA_M2S_RD_DESC_PREF_CFG_3_PREF_THR_SHIFT pref_thr OR
           push_bit UDMA_M2S_RD_DESC_PREF_CFG_3_MIN_BURST_ABOVE_THR_SHIFT min_burst_above_thr)) })"

definition al_udma_s2m_max_descs_set :: "al_udma \<Rightarrow> u8 \<Rightarrow> mmio \<Rightarrow> mmio option" where
  "al_udma_s2m_max_descs_set u max_descs m =
     (let pref_thr = ucast max_descs :: u32; min_burst_above_thr = 4 :: u32
      in do {
        al_assert (max_descs \<le> AL_UDMA_S2M_MAX_ALLOWED_DESCS_PER_PACKET);
        al_assert (0 < max_descs);
        let (pref_thr, min_burst_above_thr) =
          (if 8 \<le> pref_thr then (pref_thr, 8) else (4, min_burst_above_thr));
        Some (al_reg_write32_masked m (s2m_reg u (s2m_regs_s2m_rd s2m_rd_desc_pref_cfg_3))
          (UDMA_S2M_RD_DESC_PREF_CFG_3_PREF_THR_MASK OR UDMA_S2M_RD_DESC_PREF_CFG_3_MIN_BURST_ABOVE_THR_MASK)
          (push_bit UDMA_S2M_RD_DESC_PREF_CFG_3_PREF_THR_SHIFT pref_thr OR
           push_bit UDMA_S2M_RD_DESC_PREF_CFG_3_MIN_BURST_ABOVE_THR_SHIFT min_burst_above_thr)) })"

definition al_udma_s2m_full_line_write_set :: "al_udma \<Rightarrow> bool \<Rightarrow> mmio \<Rightarrow> mmio" where
  "al_udma_s2m_full_line_write_set u enable m =
     (let val = (if enable then UDMA_S2M_WR_DATA_CFG_2_FULL_LINE_MODE else 0)
      in al_reg_write32_masked m (s2m_reg u (s2m_regs_s2m_wr s2m_wr_data_cfg_2))
           UDMA_S2M_WR_DATA_CFG_2_FULL_LINE_MODE val)"

definition al_udma_s2m_pref_set :: "al_udma \<Rightarrow> al_udma_s2m_desc_pref_conf \<Rightarrow> mmio \<Rightarrow> rc \<times> mmio" where
  "al_udma_s2m_pref_set u c m =
     (let reg = al_reg_read32 m (s2m_reg u (s2m_regs_s2m_rd s2m_rd_desc_pref_cfg_1));
          reg = AL_REG_CLEAR_AND_SET reg UDMA_S2M_RD_DESC_PREF_CFG_1_FIFO_DEPTH_MASK
              (ucast (s2m_pref_desc_fifo_depth c));
          m = al_reg_write32 m (s2m_reg u (s2m_regs_s2m_rd s2m_rd_desc_pref_cfg_1)) reg;
          reg = al_reg_read32 m (s2m_reg u (s2m_regs_s2m_rd s2m_rd_desc_pref_cfg_2))
      in if s2m_pref_sch_mode c \<noteq> SRR \<and> s2m_pref_sch_mode c \<noteq> STRICT then (RcErr EINVAL, m)
         else
     let reg = AL_REG_MASK_SET_VAL reg UDMA_S2M_RD_DESC_PREF_CFG_2_PREF_FORCE_RR (s2m_pref_sch_mode c = SRR);
         reg = AL_REG_MASK_SET_VAL reg UDMA_S2M_RD_DESC_PREF_CFG_2_Q_PROMOTION (s2m_pref_q_promotion c);
          reg = AL_REG_MASK_SET_VAL reg UDMA_S2M_RD_DESC_PREF_CFG_2_FORCE_PROMOTION (s2m_pref_force_promotion c);
          reg = AL_REG_MASK_SET_VAL reg UDMA_S2M_RD_DESC_PREF_CFG_2_EN_PREF_PREDICTION (s2m_pref_en_pref_prediction c);
          reg = AL_REG_CLEAR_AND_SET reg UDMA_S2M_RD_DESC_PREF_CFG_2_PROMOTION_TH_MASK
              (push_bit UDMA_S2M_RD_DESC_PREF_CFG_2_PROMOTION_TH_SHIFT (ucast (s2m_pref_promotion_th c)) AND UDMA_S2M_RD_DESC_PREF_CFG_2_PROMOTION_TH_MASK);
          m = al_reg_write32 m (s2m_reg u (s2m_regs_s2m_rd s2m_rd_desc_pref_cfg_2)) reg;
          reg = al_reg_read32 m (s2m_reg u (s2m_regs_s2m_rd s2m_rd_desc_pref_cfg_3));
          reg = AL_REG_CLEAR_AND_SET reg UDMA_S2M_RD_DESC_PREF_CFG_3_PREF_THR_MASK
              (push_bit UDMA_S2M_RD_DESC_PREF_CFG_3_PREF_THR_SHIFT (ucast (s2m_pref_pref_thr c)) AND UDMA_S2M_RD_DESC_PREF_CFG_3_PREF_THR_MASK);
          reg = AL_REG_CLEAR_AND_SET reg UDMA_S2M_RD_DESC_PREF_CFG_3_MIN_BURST_BELOW_THR_MASK
              (ucast (s2m_pref_min_burst_below_thr c) AND UDMA_S2M_RD_DESC_PREF_CFG_3_MIN_BURST_BELOW_THR_MASK);
          reg = AL_REG_CLEAR_AND_SET reg UDMA_S2M_RD_DESC_PREF_CFG_3_MIN_BURST_ABOVE_THR_MASK
              (push_bit UDMA_S2M_RD_DESC_PREF_CFG_3_MIN_BURST_ABOVE_THR_SHIFT (ucast (s2m_pref_min_burst_above_thr c)) AND UDMA_S2M_RD_DESC_PREF_CFG_3_MIN_BURST_ABOVE_THR_MASK);
          m = al_reg_write32 m (s2m_reg u (s2m_regs_s2m_rd s2m_rd_desc_pref_cfg_3)) reg;
          reg = al_reg_read32 m (s2m_reg u (s2m_regs_s2m_rd s2m_rd_desc_pref_cfg_4));
          reg = AL_REG_CLEAR_AND_SET reg UDMA_S2M_RD_DESC_PREF_CFG_4_A_FULL_THR_MASK
              (ucast (s2m_pref_a_full_thr c) AND UDMA_S2M_RD_DESC_PREF_CFG_4_A_FULL_THR_MASK);
          m = al_reg_write32 m (s2m_reg u (s2m_regs_s2m_rd s2m_rd_desc_pref_cfg_4)) reg
      in (RcOk, m))"

definition al_udma_s2m_data_write_set :: "al_udma \<Rightarrow> al_udma_s2m_data_write_conf \<Rightarrow> mmio \<Rightarrow> mmio" where
  "al_udma_s2m_data_write_set u c m =
     (let reg = al_reg_read32 m (s2m_reg u (s2m_regs_s2m_wr s2m_wr_data_cfg_1));
          reg = AL_REG_CLEAR_AND_SET reg UDMA_S2M_WR_DATA_CFG_1_DATA_FIFO_DEPTH_MASK
              (ucast (dwr_data_fifo_depth c) AND UDMA_S2M_WR_DATA_CFG_1_DATA_FIFO_DEPTH_MASK);
          reg = AL_REG_CLEAR_AND_SET reg UDMA_S2M_WR_DATA_CFG_1_MAX_PKT_LIMIT_MASK
              (push_bit UDMA_S2M_WR_DATA_CFG_1_MAX_PKT_LIMIT_SHIFT (ucast (dwr_max_pkt_limit c)) AND UDMA_S2M_WR_DATA_CFG_1_MAX_PKT_LIMIT_MASK);
          reg = AL_REG_CLEAR_AND_SET reg UDMA_S2M_WR_DATA_CFG_1_FIFO_MARGIN_MASK
              (push_bit UDMA_S2M_WR_DATA_CFG_1_FIFO_MARGIN_SHIFT (ucast (dwr_fifo_margin c)) AND UDMA_S2M_WR_DATA_CFG_1_FIFO_MARGIN_MASK);
          m = al_reg_write32 m (s2m_reg u (s2m_regs_s2m_wr s2m_wr_data_cfg_1)) reg;
          reg = al_reg_read32 m (s2m_reg u (s2m_regs_s2m_wr s2m_wr_data_cfg_2));
          reg = AL_REG_CLEAR_AND_SET reg UDMA_S2M_WR_DATA_CFG_2_DESC_WAIT_TIMER_MASK
              (dwr_desc_wait_timer c AND UDMA_S2M_WR_DATA_CFG_2_DESC_WAIT_TIMER_MASK);
          reg = AL_REG_CLEAR_AND_SET reg (UDMA_S2M_WR_DATA_CFG_2_DROP_IF_NO_DESC OR UDMA_S2M_WR_DATA_CFG_2_HINT_IF_NO_DESC OR UDMA_S2M_WR_DATA_CFG_2_WAIT_FOR_PREF OR UDMA_S2M_WR_DATA_CFG_2_FULL_LINE_MODE OR UDMA_S2M_WR_DATA_CFG_2_DIRECT_HDR_USE_BUF1)
              (dwr_flags c AND (UDMA_S2M_WR_DATA_CFG_2_DROP_IF_NO_DESC OR UDMA_S2M_WR_DATA_CFG_2_HINT_IF_NO_DESC OR UDMA_S2M_WR_DATA_CFG_2_WAIT_FOR_PREF OR UDMA_S2M_WR_DATA_CFG_2_FULL_LINE_MODE OR UDMA_S2M_WR_DATA_CFG_2_DIRECT_HDR_USE_BUF1));
          m = al_reg_write32 m (s2m_reg u (s2m_regs_s2m_wr s2m_wr_data_cfg_2)) reg
      in m)"

definition al_udma_s2m_completion_set :: "al_udma \<Rightarrow> al_udma_s2m_completion_conf \<Rightarrow> mmio \<Rightarrow> mmio" where
  "al_udma_s2m_completion_set u c m =
     (let reg = al_reg_read32 m (s2m_reg u (s2m_regs_s2m_comp s2m_comp_cfg_1c));
          reg = AL_REG_CLEAR_AND_SET reg UDMA_S2M_COMP_CFG_1C_DESC_SIZE_MASK
              (ucast (s2m_compl_desc_size c) AND UDMA_S2M_COMP_CFG_1C_DESC_SIZE_MASK);
          reg = AL_REG_MASK_SET_VAL reg UDMA_S2M_COMP_CFG_1C_CNT_WORDS (s2m_compl_cnt_words c);
          reg = AL_REG_MASK_SET_VAL reg UDMA_S2M_COMP_CFG_1C_Q_PROMOTION (s2m_compl_q_promotion c);
          reg = AL_REG_MASK_SET_VAL reg UDMA_S2M_COMP_CFG_1C_FORCE_RR (s2m_compl_force_rr c);
          reg = AL_REG_CLEAR_AND_SET reg UDMA_S2M_COMP_CFG_1C_Q_FREE_MIN_MASK
              (push_bit UDMA_S2M_COMP_CFG_1C_Q_FREE_MIN_SHIFT (ucast (s2m_compl_q_free_min c)) AND UDMA_S2M_COMP_CFG_1C_Q_FREE_MIN_MASK);
          m = al_reg_write32 m (s2m_reg u (s2m_regs_s2m_comp s2m_comp_cfg_1c)) reg;
          reg = al_reg_read32 m (s2m_reg u (s2m_regs_s2m_comp s2m_comp_cfg_2c));
          reg = AL_REG_CLEAR_AND_SET reg UDMA_S2M_COMP_CFG_2C_COMP_FIFO_DEPTH_MASK
              (ucast (s2m_compl_comp_fifo_depth c) AND UDMA_S2M_COMP_CFG_2C_COMP_FIFO_DEPTH_MASK);
          reg = AL_REG_CLEAR_AND_SET reg UDMA_S2M_COMP_CFG_2C_UNACK_FIFO_DEPTH_MASK
              (push_bit UDMA_S2M_COMP_CFG_2C_UNACK_FIFO_DEPTH_SHIFT (ucast (s2m_compl_unack_fifo_depth c)) AND UDMA_S2M_COMP_CFG_2C_UNACK_FIFO_DEPTH_MASK);
          m = al_reg_write32 m (s2m_reg u (s2m_regs_s2m_comp s2m_comp_cfg_2c)) reg;
          m = al_reg_write32 m (s2m_reg u (s2m_regs_s2m_comp s2m_comp_cfg_application_ack)) (s2m_compl_timeout c)
      in m)"

subsection \<open>Scheduling and rate limiting\<close>

definition al_udma_m2s_sc_set :: "al_udma \<Rightarrow> al_udma_m2s_dwrr_conf \<Rightarrow> mmio \<Rightarrow> mmio" where
  "al_udma_m2s_sc_set u c m =
     (let reg = al_reg_read32 m (m2s_reg u (m2s_regs_m2s_dwrr m2s_dwrr_cfg_sched));
          reg = AL_REG_MASK_SET_VAL reg UDMA_M2S_DWRR_CFG_SCHED_EN_DWRR (dwrr_enable_dwrr c);
          reg = AL_REG_MASK_SET_VAL reg UDMA_M2S_DWRR_CFG_SCHED_PKT_MODE_EN (dwrr_pkt_mode c);
          reg = AL_REG_CLEAR_AND_SET reg UDMA_M2S_DWRR_CFG_SCHED_WEIGHT_INC_MASK
              (push_bit UDMA_M2S_DWRR_CFG_SCHED_WEIGHT_INC_SHIFT (ucast (dwrr_weight c)));
          reg = AL_REG_CLEAR_AND_SET reg UDMA_M2S_DWRR_CFG_SCHED_INC_FACTOR_MASK
              (push_bit UDMA_M2S_DWRR_CFG_SCHED_INC_FACTOR_SHIFT (ucast (dwrr_inc_factor c)));
          m = al_reg_write32 m (m2s_reg u (m2s_regs_m2s_dwrr m2s_dwrr_cfg_sched)) reg;
          reg = al_reg_read32 m (m2s_reg u (m2s_regs_m2s_dwrr m2s_dwrr_ctrl_deficit_cnt));
          reg = AL_REG_CLEAR_AND_SET reg UDMA_M2S_DWRR_CTRL_DEFICIT_CNT_INIT_MASK (dwrr_deficit_init_val c);
          m = al_reg_write32 m (m2s_reg u (m2s_regs_m2s_dwrr m2s_dwrr_ctrl_deficit_cnt)) reg
      in m)"

definition al_udma_m2s_rlimit_set :: "al_udma \<Rightarrow> al_udma_m2s_rlimit_mode \<Rightarrow> mmio \<Rightarrow> mmio" where
  "al_udma_m2s_rlimit_set u c m =
     (let reg = al_reg_read32 m (m2s_reg u (m2s_regs_m2s_rate_limiter m2s_rate_limiter_gen_cfg));
          reg = AL_REG_MASK_SET_VAL reg UDMA_M2S_RATE_LIMITER_GEN_CFG_PKT_MODE_EN (rlm_pkt_mode_en c);
          reg = AL_REG_CLEAR_AND_SET reg UDMA_M2S_RATE_LIMITER_GEN_CFG_SHORT_CYCLE_SIZE_MASK
              (ucast (rlm_short_cycle_sz c) AND UDMA_M2S_RATE_LIMITER_GEN_CFG_SHORT_CYCLE_SIZE_MASK);
          m = al_reg_write32 m (m2s_reg u (m2s_regs_m2s_rate_limiter m2s_rate_limiter_gen_cfg)) reg;
          m = al_reg_write32 m (m2s_reg u (m2s_regs_m2s_rate_limiter m2s_rate_limiter_ctrl_token)) (rlm_token_init_val c)
      in m)"

definition al_udma_common_rlimit_set :: "ptr \<Rightarrow> al_udma_m2s_rlimit_cfg \<Rightarrow> mmio \<Rightarrow> mmio" where
  "al_udma_common_rlimit_set rlimit_regs c m =
     (let reg = al_reg_read32 m (rlimit_regs + off_rlimit_common rlimit_common_cfg_1s);
          reg = AL_REG_MASK_CLEAR reg UDMA_M2S_STREAM_RATE_LIMITER_CFG_1S_MAX_BURST_SIZE_MASK;
          reg = AL_REG_MASK_CLEAR reg UDMA_M2S_STREAM_RATE_LIMITER_CFG_1S_EN;
          reg = AL_REG_MASK_CLEAR reg UDMA_M2S_STREAM_RATE_LIMITER_CFG_1S_PAUSE;
          reg = reg OR (rlc_max_burst_sz c AND UDMA_M2S_STREAM_RATE_LIMITER_CFG_1S_MAX_BURST_SIZE_MASK);
          m = al_reg_write32 m (rlimit_regs + off_rlimit_common rlimit_common_cfg_1s) reg;
          reg = al_reg_read32 m (rlimit_regs + off_rlimit_common rlimit_common_cfg_cycle);
          reg = AL_REG_CLEAR_AND_SET reg UDMA_M2S_STREAM_RATE_LIMITER_CFG_CYCLE_LONG_CYCLE_SIZE_MASK
              (ucast (rlc_long_cycle_sz c) AND UDMA_M2S_STREAM_RATE_LIMITER_CFG_CYCLE_LONG_CYCLE_SIZE_MASK);
          m = al_reg_write32 m (rlimit_regs + off_rlimit_common rlimit_common_cfg_cycle) reg;
          reg = al_reg_read32 m (rlimit_regs + off_rlimit_common rlimit_common_cfg_token_size_1);
          reg = AL_REG_CLEAR_AND_SET reg UDMA_M2S_STREAM_RATE_LIMITER_CFG_TOKEN_SIZE_1_LONG_CYCLE_MASK
              (rlc_long_cycle c AND UDMA_M2S_STREAM_RATE_LIMITER_CFG_TOKEN_SIZE_1_LONG_CYCLE_MASK);
          m = al_reg_write32 m (rlimit_regs + off_rlimit_common rlimit_common_cfg_token_size_1) reg;
          reg = al_reg_read32 m (rlimit_regs + off_rlimit_common rlimit_common_cfg_token_size_2);
          reg = AL_REG_CLEAR_AND_SET reg UDMA_M2S_STREAM_RATE_LIMITER_CFG_TOKEN_SIZE_2_SHORT_CYCLE_MASK
              (rlc_short_cycle c AND UDMA_M2S_STREAM_RATE_LIMITER_CFG_TOKEN_SIZE_2_SHORT_CYCLE_MASK);
          m = al_reg_write32 m (rlimit_regs + off_rlimit_common rlimit_common_cfg_token_size_2) reg;
          reg = al_reg_read32 m (rlimit_regs + off_rlimit_common rlimit_common_mask);
          reg = AL_REG_CLEAR_AND_SET reg 0xf (rlc_mask c AND 0xf);
          m = al_reg_write32 m (rlimit_regs + off_rlimit_common rlimit_common_mask) reg
      in m)"

definition M2S_RLIMIT_MAX_BURST_SIZE :: u32 where
  "M2S_RLIMIT_MAX_BURST_SIZE = 0x10000"

text \<open>
  The product \<open>rate_limit * (short_cycle_sz + 1) * 1000\<close> is computed in 32 bits; a zero clock
  frequency is a division trap, \<^term>\<open>None\<close> here.
\<close>

definition al_udma_m2s_rlimit_params_set :: "al_udma \<Rightarrow> al_udma_m2s_rlimit_params \<Rightarrow> mmio \<Rightarrow> mmio option" where
  "al_udma_m2s_rlimit_params_set u p m =
     (let rlimit_regs = m2s_reg u (m2s_regs_m2s_stream_rate_limiter rlimit_common_cfg_1s);
          mode = \<lparr>rlm_pkt_mode_en = False, rlm_short_cycle_sz = 1, rlm_token_init_val = M2S_RLIMIT_MAX_BURST_SIZE\<rparr>
      in if rlp_io_fabric_clk_freq p = 0 then None
         else
           let conf = \<lparr>rlc_max_burst_sz = M2S_RLIMIT_MAX_BURST_SIZE, rlc_long_cycle_sz = 0, rlc_long_cycle = 0,
                 rlc_short_cycle = (rlp_rate_limit p * (ucast (rlm_short_cycle_sz mode) + 1) * 1000) div rlp_io_fabric_clk_freq p,
                 rlc_mask = 0\<rparr>;
               m = al_udma_m2s_rlimit_set u mode m
           in Some (al_udma_common_rlimit_set rlimit_regs conf m))"

definition al_udma_m2s_rlimit_enable_set :: "al_udma \<Rightarrow> bool \<Rightarrow> mmio \<Rightarrow> mmio" where
  "al_udma_m2s_rlimit_enable_set u en m =
     al_reg_write32_masked m (m2s_reg u (m2s_regs_m2s_stream_rate_limiter rlimit_common_cfg_1s))
       UDMA_M2S_STREAM_RATE_LIMITER_CFG_1S_EN (if en then UDMA_M2S_STREAM_RATE_LIMITER_CFG_1S_EN else 0)"

definition al_udma_m2s_q_sc_set :: "al_udma_q \<Rightarrow> al_udma_m2s_q_dwrr_conf \<Rightarrow> mmio \<Rightarrow> mmio" where
  "al_udma_m2s_q_sc_set q c m =
     (let reg = al_reg_read32 m (m2s_q_reg q m2s_q_dwrr_cfg_1);
          reg = AL_REG_CLEAR_AND_SET reg UDMA_M2S_Q_DWRR_CFG_1_MAX_DEFICIT_CNT_SIZE_MASK
              (qdwrr_max_deficit_cnt_sz c AND UDMA_M2S_Q_DWRR_CFG_1_MAX_DEFICIT_CNT_SIZE_MASK);
          reg = AL_REG_MASK_SET_VAL reg UDMA_M2S_Q_DWRR_CFG_1_STRICT (qdwrr_strict c);
          m = al_reg_write32 m (m2s_q_reg q m2s_q_dwrr_cfg_1) reg;
          reg = al_reg_read32 m (m2s_q_reg q m2s_q_dwrr_cfg_2);
          reg = AL_REG_CLEAR_AND_SET reg UDMA_M2S_Q_DWRR_CFG_2_Q_QOS_MASK
              (push_bit UDMA_M2S_Q_DWRR_CFG_2_Q_QOS_SHIFT (ucast (qdwrr_axi_qos c)) AND UDMA_M2S_Q_DWRR_CFG_2_Q_QOS_MASK);
          reg = AL_REG_CLEAR_AND_SET reg UDMA_M2S_Q_DWRR_CFG_2_Q_QOS_MASK
              (ucast (qdwrr_q_qos c) AND UDMA_M2S_Q_DWRR_CFG_2_Q_QOS_MASK);
          m = al_reg_write32 m (m2s_q_reg q m2s_q_dwrr_cfg_2) reg;
          reg = al_reg_read32 m (m2s_q_reg q m2s_q_dwrr_cfg_3);
          reg = AL_REG_CLEAR_AND_SET reg UDMA_M2S_Q_DWRR_CFG_3_WEIGHT_MASK
              (ucast (qdwrr_weight c) AND UDMA_M2S_Q_DWRR_CFG_3_WEIGHT_MASK);
          m = al_reg_write32 m (m2s_q_reg q m2s_q_dwrr_cfg_3) reg
      in m)"

definition al_udma_m2s_q_sc_pause :: "al_udma_q \<Rightarrow> bool \<Rightarrow> mmio \<Rightarrow> mmio" where
  "al_udma_m2s_q_sc_pause q pause m =
     (let reg = al_reg_read32 m (m2s_q_reg q m2s_q_dwrr_cfg_1);
          reg = AL_REG_MASK_SET_VAL reg UDMA_M2S_Q_DWRR_CFG_1_PAUSE pause;
          m = al_reg_write32 m (m2s_q_reg q m2s_q_dwrr_cfg_1) reg
      in m)"

definition al_udma_m2s_q_sc_reset :: "al_udma_q \<Rightarrow> mmio \<Rightarrow> mmio" where
  "al_udma_m2s_q_sc_reset q m =
     (let reg = al_reg_read32 m (m2s_q_reg q m2s_q_dwrr_sw_ctrl);
          reg = AL_REG_MASK_SET reg UDMA_M2S_Q_DWRR_SW_CTRL_RST_CNT;
          m = al_reg_write32 m (m2s_q_reg q m2s_q_dwrr_sw_ctrl) reg
      in m)"

subsection \<open>Completion timeouts and per-queue completion\<close>

definition al_udma_m2s_comp_timeouts_set :: "al_udma \<Rightarrow> al_udma_m2s_comp_timeouts \<Rightarrow> mmio \<Rightarrow> rc \<times> mmio" where
  "al_udma_m2s_comp_timeouts_set u c m =
     (let reg = al_reg_read32 m (m2s_reg u (m2s_regs_m2s_comp m2s_comp_cfg_1c))
      in if cto_sch_mode c \<noteq> SRR \<and> cto_sch_mode c \<noteq> STRICT then (RcErr EINVAL, m)
         else
     let reg = AL_REG_MASK_SET_VAL reg UDMA_M2S_COMP_CFG_1C_FORCE_RR (cto_sch_mode c = SRR);
         reg = AL_REG_MASK_SET_VAL reg UDMA_M2S_COMP_CFG_1C_Q_PROMOTION (cto_enable_q_promotion c);
          reg = AL_REG_CLEAR_AND_SET reg UDMA_M2S_COMP_CFG_1C_COMP_FIFO_DEPTH_MASK
              (push_bit UDMA_M2S_COMP_CFG_1C_COMP_FIFO_DEPTH_SHIFT (ucast (cto_comp_fifo_depth c)));
          reg = AL_REG_CLEAR_AND_SET reg UDMA_M2S_COMP_CFG_1C_UNACK_FIFO_DEPTH_MASK
              (push_bit UDMA_M2S_COMP_CFG_1C_UNACK_FIFO_DEPTH_SHIFT (ucast (cto_unack_fifo_depth c)));
          m = al_reg_write32 m (m2s_reg u (m2s_regs_m2s_comp m2s_comp_cfg_1c)) reg;
          m = al_reg_write32 m (m2s_reg u (m2s_regs_m2s_comp m2s_comp_cfg_coal)) (cto_coal_timeout c);
          reg = al_reg_read32 m (m2s_reg u (m2s_regs_m2s_comp m2s_comp_cfg_application_ack));
          reg = AL_REG_CLEAR_AND_SET reg UDMA_M2S_COMP_CFG_APPLICATION_ACK_TOUT_MASK
              (push_bit UDMA_M2S_COMP_CFG_APPLICATION_ACK_TOUT_SHIFT (cto_app_timeout c));
          m = al_reg_write32 m (m2s_reg u (m2s_regs_m2s_comp m2s_comp_cfg_application_ack)) reg
      in (RcOk, m))"

definition al_udma_m2s_comp_timeouts_get :: "al_udma \<Rightarrow> mmio \<Rightarrow> al_udma_m2s_comp_timeouts" where
  "al_udma_m2s_comp_timeouts_get u m =
     (let reg = al_reg_read32 m (m2s_reg u (m2s_regs_m2s_comp m2s_comp_cfg_1c));
          ack = al_reg_read32 m (m2s_reg u (m2s_regs_m2s_comp m2s_comp_cfg_application_ack))
      in \<lparr>cto_sch_mode = (if reg AND UDMA_M2S_COMP_CFG_1C_FORCE_RR \<noteq> 0 then SRR else STRICT),
          cto_enable_q_promotion = (reg AND UDMA_M2S_COMP_CFG_1C_Q_PROMOTION \<noteq> 0),
          cto_unack_fifo_depth = ucast (AL_REG_FIELD_GET reg
             UDMA_M2S_COMP_CFG_1C_UNACK_FIFO_DEPTH_MASK UDMA_M2S_COMP_CFG_1C_UNACK_FIFO_DEPTH_SHIFT),
          cto_comp_fifo_depth = ucast (AL_REG_FIELD_GET reg
             UDMA_M2S_COMP_CFG_1C_COMP_FIFO_DEPTH_MASK UDMA_M2S_COMP_CFG_1C_COMP_FIFO_DEPTH_SHIFT),
          cto_coal_timeout = al_reg_read32 m (m2s_reg u (m2s_regs_m2s_comp m2s_comp_cfg_coal)),
          cto_app_timeout = AL_REG_FIELD_GET ack
             UDMA_M2S_COMP_CFG_APPLICATION_ACK_TOUT_MASK UDMA_M2S_COMP_CFG_APPLICATION_ACK_TOUT_SHIFT\<rparr>)"

definition al_udma_s2m_no_desc_cfg_set :: "al_udma \<Rightarrow> bool \<Rightarrow> bool \<Rightarrow> u32 \<Rightarrow> mmio \<Rightarrow> rc \<times> mmio" where
  "al_udma_s2m_no_desc_cfg_set u drop_packet gen_interrupt wait_for_desc_timeout m =
     (let reg = al_reg_read32 m (s2m_reg u (s2m_regs_s2m_wr s2m_wr_data_cfg_2))
      in if drop_packet \<and> wait_for_desc_timeout = 0 then (RcErr EINVAL, m)
         else
           let reg = AL_REG_MASK_SET_VAL reg UDMA_S2M_WR_DATA_CFG_2_DROP_IF_NO_DESC drop_packet;
               reg = AL_REG_MASK_SET_VAL reg UDMA_S2M_WR_DATA_CFG_2_HINT_IF_NO_DESC gen_interrupt;
               reg = AL_REG_FIELD_SET reg UDMA_S2M_WR_DATA_CFG_2_DESC_WAIT_TIMER_MASK
                 UDMA_S2M_WR_DATA_CFG_2_DESC_WAIT_TIMER_SHIFT wait_for_desc_timeout
           in (RcOk, al_reg_write32 m (s2m_reg u (s2m_regs_s2m_wr s2m_wr_data_cfg_2)) reg))"

definition al_udma_s2m_q_compl_updade_config :: "al_udma_q \<Rightarrow> bool \<Rightarrow> mmio \<Rightarrow> mmio" where
  "al_udma_s2m_q_compl_updade_config q enable m =
     (let reg = al_reg_read32 m (s2m_q_reg q s2m_q_comp_cfg);
          reg = AL_REG_MASK_SET_VAL reg UDMA_S2M_Q_COMP_CFG_EN_COMP_RING_UPDATE enable;
          m = al_reg_write32 m (s2m_q_reg q s2m_q_comp_cfg) reg
      in m)"

definition al_udma_s2m_q_compl_coal_config :: "al_udma_q \<Rightarrow> bool \<Rightarrow> u32 \<Rightarrow> mmio \<Rightarrow> mmio" where
  "al_udma_s2m_q_compl_coal_config q enable coal_timeout m =
     (let reg = al_reg_read32 m (s2m_q_reg q s2m_q_comp_cfg);
          reg = (if enable then AL_REG_MASK_CLEAR reg UDMA_S2M_Q_COMP_CFG_DIS_COMP_COAL
                 else AL_REG_MASK_SET reg UDMA_S2M_Q_COMP_CFG_DIS_COMP_COAL);
          m = al_reg_write32 m (s2m_q_reg q s2m_q_comp_cfg) reg
      in al_reg_write32 m (s2m_q_reg q s2m_q_comp_cfg_2) coal_timeout)"

definition al_udma_s2m_compl_desc_burst_config :: "al_udma \<Rightarrow> u16 \<Rightarrow> mmio \<Rightarrow> rc \<times> mmio" where
  "al_udma_s2m_compl_desc_burst_config u burst_size m =
     (if burst_size \<noteq> 64 \<and> burst_size \<noteq> 128 \<and> burst_size \<noteq> 256 then (RcErr EINVAL, m)
      else
        let burst_size = burst_size div 16
        in (RcOk, al_reg_write32_masked m (s2m_reg u (s2m_regs_axi_s2m axi_s2m_desc_wr_cfg_1))
             (UDMA_AXI_S2M_DESC_WR_CFG_1_MIN_AXI_BEATS_MASK OR UDMA_AXI_S2M_DESC_WR_CFG_1_MAX_AXI_BEATS_MASK)
             (push_bit UDMA_AXI_S2M_DESC_WR_CFG_1_MIN_AXI_BEATS_SHIFT (ucast burst_size) OR
              push_bit UDMA_AXI_S2M_DESC_WR_CFG_1_MAX_AXI_BEATS_SHIFT (ucast burst_size))))"

definition al_udma_s2m_q_compl_hdr_split_config :: "al_udma_q \<Rightarrow> bool \<Rightarrow> bool \<Rightarrow> u32 \<Rightarrow> mmio \<Rightarrow> mmio" where
  "al_udma_s2m_q_compl_hdr_split_config q enable force_hdr_split hdr_len m =
     (let reg = al_reg_read32 m (s2m_q_reg q s2m_q_pkt_cfg);
          reg = AL_REG_MASK_CLEAR reg UDMA_S2M_Q_PKT_CFG_HDR_SPLIT_SIZE_MASK;
          reg = AL_REG_MASK_CLEAR reg UDMA_S2M_Q_PKT_CFG_EN_HDR_SPLIT;
          reg = AL_REG_MASK_CLEAR reg UDMA_S2M_Q_PKT_CFG_FORCE_HDR_SPLIT;
          reg = (if enable then
                   let reg = reg OR (hdr_len AND UDMA_S2M_Q_PKT_CFG_HDR_SPLIT_SIZE_MASK);
                       reg = AL_REG_MASK_SET reg UDMA_S2M_Q_PKT_CFG_EN_HDR_SPLIT
                   in if force_hdr_split then AL_REG_MASK_SET reg UDMA_S2M_Q_PKT_CFG_FORCE_HDR_SPLIT else reg
                 else reg)
      in al_reg_write32 m (s2m_q_reg q s2m_q_pkt_cfg) reg)"

definition al_udma_s2m_q_comp_set :: "al_udma_q \<Rightarrow> al_udma_s2m_q_comp_conf \<Rightarrow> mmio \<Rightarrow> mmio" where
  "al_udma_s2m_q_comp_set q c m =
     (let reg = al_reg_read32 m (s2m_q_reg q s2m_q_comp_cfg);
          reg = AL_REG_MASK_SET_VAL reg UDMA_S2M_Q_COMP_CFG_EN_COMP_RING_UPDATE (qcomp_en_comp_ring_update c);
          reg = AL_REG_MASK_SET_VAL reg UDMA_S2M_Q_COMP_CFG_DIS_COMP_COAL (qcomp_dis_comp_coal c);
          m = al_reg_write32 m (s2m_q_reg q s2m_q_comp_cfg) reg;
          m = al_reg_write32 m (s2m_q_reg q s2m_q_comp_cfg_2) (qcomp_comp_timer c);
          reg = al_reg_read32 m (s2m_q_reg q s2m_q_pkt_cfg);
          reg = AL_REG_CLEAR_AND_SET reg UDMA_S2M_Q_PKT_CFG_HDR_SPLIT_SIZE_MASK
              (ucast (qcomp_hdr_split_size c) AND UDMA_S2M_Q_PKT_CFG_HDR_SPLIT_SIZE_MASK);
          reg = AL_REG_MASK_SET_VAL reg UDMA_S2M_Q_PKT_CFG_FORCE_HDR_SPLIT (qcomp_force_hdr_split c);
          reg = AL_REG_MASK_SET_VAL reg UDMA_S2M_Q_PKT_CFG_EN_HDR_SPLIT (qcomp_en_hdr_split c);
          m = al_reg_write32 m (s2m_q_reg q s2m_q_pkt_cfg) reg;
          reg = al_reg_read32 m (s2m_q_reg q s2m_q_qos_cfg);
          reg = AL_REG_CLEAR_AND_SET reg UDMA_S2M_QOS_CFG_Q_QOS_MASK
              (ucast (qcomp_q_qos c) AND UDMA_S2M_QOS_CFG_Q_QOS_MASK);
          m = al_reg_write32 m (s2m_q_reg q s2m_q_qos_cfg) reg
      in m)"

subsection \<open>Target-ID\<close>

definition al_udma_gen_tgtid_conf_queue_set :: "ptr \<Rightarrow> al_udma_gen_tgtid_conf \<Rightarrow> nat \<Rightarrow> mmio \<Rightarrow> mmio option" where
  "al_udma_gen_tgtid_conf_queue_set unit_regs c i m =
     do {
       al_assert (i < DMA_MAX_Q);
       let rev_id = al_udma_get_revision unit_regs m;
       let tx = tgtc_tx_q_conf c ! i;
       let rx = tgtc_rx_q_conf c ! i;
       let tgtid = (\<lambda>r. unit_gen_reg unit_regs (gen_regs_tgtid r));
       let tgtaddr = (\<lambda>r. unit_gen_reg unit_regs (gen_regs_tgtaddr r));
       let m = al_reg_write32_masked m (tgtid gen_tgtid_cfg_tgtid_0) (UDMA_GEN_TGTID_CFG_TX_DESC_EN i)
         (if tgt_desc_en tx then UDMA_GEN_TGTID_CFG_TX_DESC_EN i else 0);
       let m = al_reg_write32_masked m (tgtid gen_tgtid_cfg_tgtid_0) (UDMA_GEN_TGTID_CFG_TX_QUEUE_EN i)
         (if tgt_queue_en tx then UDMA_GEN_TGTID_CFG_TX_QUEUE_EN i else 0);
       let m = al_reg_write32_masked m (tgtid gen_tgtid_cfg_tgtid_0) (UDMA_GEN_TGTID_CFG_RX_DESC_EN i)
         (if tgt_desc_en rx then UDMA_GEN_TGTID_CFG_RX_DESC_EN i else 0);
       let m = al_reg_write32_masked m (tgtid gen_tgtid_cfg_tgtid_0) (UDMA_GEN_TGTID_CFG_RX_QUEUE_EN i)
         (if tgt_queue_en rx then UDMA_GEN_TGTID_CFG_RX_QUEUE_EN i else 0);
       (tx_tgtid_reg, rx_tgtid_reg, tx_tgtaddr_reg, rx_tgtaddr_reg) \<leftarrow>
         (if i = 0 \<or> i = 1 then
            Some (tgtid gen_tgtid_cfg_tgtid_1, tgtid gen_tgtid_cfg_tgtid_3,
                  tgtaddr gen_tgtaddr_cfg_tgtaddr_0, tgtaddr gen_tgtaddr_cfg_tgtaddr_2)
          else if i = 2 \<or> i = 3 then
            Some (tgtid gen_tgtid_cfg_tgtid_2, tgtid gen_tgtid_cfg_tgtid_4,
                  tgtaddr gen_tgtaddr_cfg_tgtaddr_1, tgtaddr gen_tgtaddr_cfg_tgtaddr_3)
          else None);
       let m = al_reg_write32_masked m tx_tgtid_reg (UDMA_GEN_TGTID_CFG_TGTID_MASK i)
         (push_bit (UDMA_GEN_TGTID_CFG_TGTID_SHIFT i) (ucast (tgt_tgtid tx)));
       let m = al_reg_write32_masked m rx_tgtid_reg (UDMA_GEN_TGTID_CFG_TGTID_MASK i)
         (push_bit (UDMA_GEN_TGTID_CFG_TGTID_SHIFT i) (ucast (tgt_tgtid rx)));
       Some (if AL_UDMA_REV_ID_REV2 \<le> rev_id then
               al_reg_write32_masked
                 (al_reg_write32_masked m tx_tgtaddr_reg (UDMA_GEN_TGTADDR_CFG_MASK i)
                   (push_bit (UDMA_GEN_TGTADDR_CFG_SHIFT i) (ucast (tgt_tgtaddr tx))))
                 rx_tgtaddr_reg (UDMA_GEN_TGTADDR_CFG_MASK i)
                 (push_bit (UDMA_GEN_TGTADDR_CFG_SHIFT i) (ucast (tgt_tgtaddr rx)))
             else m) }"

fun tgtid_conf_loop :: "ptr \<Rightarrow> al_udma_gen_tgtid_conf \<Rightarrow> nat list \<Rightarrow> mmio \<Rightarrow> mmio option" where
  "tgtid_conf_loop unit_regs c [] m = Some m"
| "tgtid_conf_loop unit_regs c (i # is) m =
     Option.bind (al_udma_gen_tgtid_conf_queue_set unit_regs c i m) (tgtid_conf_loop unit_regs c is)"

definition al_udma_gen_tgtid_conf_set :: "ptr \<Rightarrow> al_udma_gen_tgtid_conf \<Rightarrow> mmio \<Rightarrow> mmio option" where
  "al_udma_gen_tgtid_conf_set unit_regs c m = tgtid_conf_loop unit_regs c [0..<DMA_MAX_Q] m"

definition al_udma_gen_tgtid_msix_conf_set :: "ptr \<Rightarrow> al_udma_gen_tgtid_msix_conf \<Rightarrow> mmio \<Rightarrow> mmio" where
  "al_udma_gen_tgtid_msix_conf_set unit_regs c m =
     al_reg_write32_masked m (unit_gen_reg unit_regs (gen_regs_tgtid gen_tgtid_cfg_tgtid_0))
       (UDMA_GEN_TGTID_CFG_TGTID_0_MSIX_TGTID_ACCESS_EN OR UDMA_GEN_TGTID_CFG_TGTID_0_MSIX_TGTID_SEL)
       ((if msix_access_en c then UDMA_GEN_TGTID_CFG_TGTID_0_MSIX_TGTID_ACCESS_EN else 0) OR
        (if msix_sel c then UDMA_GEN_TGTID_CFG_TGTID_0_MSIX_TGTID_SEL else 0))"

subsection \<open>Reading back\<close>

lemma clear_and_set_sub [reg_field]:
  "m AND m' = m' \<Longrightarrow> AL_REG_CLEAR_AND_SET r m v AND m' = v AND m'"
  unfolding AL_REG_CLEAR_AND_SET_def by (rule bit_word_eqI) (auto simp: bit_simps dest: sub_maskD)

lemma clear_and_set_spill [reg_field]:
  "m AND m' = 0 \<Longrightarrow> AL_REG_CLEAR_AND_SET r m v AND m' = (r AND m') OR (v AND m')"
  unfolding AL_REG_CLEAR_AND_SET_def by (rule bit_word_eqI) (auto simp: bit_simps dest: disjoint_maskD)

lemma u8_and_split: "ucast (x :: u8) AND M = ucast x AND (0xFF AND M)" for M :: u32
  unfolding and.assoc [symmetric] by simp

lemma u8_and_out [word_bits]: "0xFF AND M = 0 \<Longrightarrow> ucast (x :: u8) AND M = 0" for M :: u32
  by (subst u8_and_split) simp

lemma u8_and_in [word_bits]: "0xFF AND M = 0xFF \<Longrightarrow> ucast (x :: u8) AND M = ucast x" for M :: u32
  by (subst u8_and_split) simp

lemma u8_le_and: "x \<le> mask k \<Longrightarrow> ucast x AND mask k = (ucast x :: u32)" for x :: u8
proof -
  assume "x \<le> mask k"
  then have x: "x AND mask k = x" by (rule le_mask_and)
  have "ucast (x AND mask k) AND mask k = (ucast (x AND mask k) :: u32)"
    by (rule bit_word_eqI) (auto simp: bit_simps)
  then show ?thesis unfolding x .
qed

lemma ucast_u8_eq_0: "(ucast (x :: u8) :: u32) = 0 \<longleftrightarrow> x = 0"
  by (metis ucast_u8_u32_u8 unsigned_0)

lemma push_and [word_bits]: "push_bit s v AND M = push_bit s (v AND drop_bit s M)" for v :: "'a::len word"
  by (rule bit_word_eqI) (auto simp: bit_simps)

lemmas m2s_regs_simps = m2s_reg_def reg_off AL_REG_FIELD_GET_def Let_def

text \<open>
  The completion timeout configuration is read back as it was written: after a successful
  \<open>al_udma_m2s_comp_timeouts_set\<close>, \<open>al_udma_m2s_comp_timeouts_get\<close> returns the same structure, with the
  application timeout cut to its 24 bits.  The mode \<open>DWRR\<close>, which the completion arbiter
  does not have, is refused with \<open>-EINVAL\<close> and no register is written.
\<close>

theorem comp_timeouts_roundtrip:
  "if cto_sch_mode c = DWRR then al_udma_m2s_comp_timeouts_set u c m = (RcErr EINVAL, m)
   else \<exists>m'. al_udma_m2s_comp_timeouts_set u c m = (RcOk, m') \<and>
     al_udma_m2s_comp_timeouts_get u m' = c\<lparr>cto_app_timeout := cto_app_timeout c AND 0xFFFFFF\<rparr>"
proof (cases "cto_sch_mode c = DWRR")
  case True
  then show ?thesis by (simp add: al_udma_m2s_comp_timeouts_set_def Let_def)
next
  case False
  then have mode: "cto_sch_mode c = SRR \<or> cto_sch_mode c = STRICT" by (cases "cto_sch_mode c") auto
  then show ?thesis using False
    by (cases c) (auto simp: al_udma_m2s_comp_timeouts_set_def al_udma_m2s_comp_timeouts_get_def m2s_regs_simps
        reg_field word_bits simp del: drop_bit_and)
qed

text \<open>
  C19: writing the descriptor prefetch configuration and reading it into any buffer.  The setter stores all fields, the packet limit and the data FIFO depth in
  the data configuration register.  The getter returns the FIFO depth, the descriptor limit, both burst sizes and the threshold as they were written.  It does not
  read the packet limit and the data FIFO depth, which keep what the buffer held, and it derives the scheduling mode from the descriptor limit instead of the
  round-robin bit, so it reports \<open>SRR\<close> exactly when the limit is not zero, whatever mode was configured.
\<close>

theorem pref_get_after_set:
  assumes "m2s_pref_sch_mode c \<noteq> DWRR" "m2s_pref_max_desc_per_packet c \<le> 31"
    and "m2s_pref_min_burst_above_thr c \<le> 15" "m2s_pref_min_burst_below_thr c \<le> 15"
    and "al_udma_m2s_pref_set u c m = (r, m')"
  shows "r = RcOk \<and>
    al_reg_read32 m' (m2s_reg u (m2s_regs_m2s_rd m2s_rd_data_cfg)) AND UDMA_M2S_RD_DATA_CFG_DATA_FIFO_DEPTH_MASK =
      ucast (m2s_pref_data_fifo_depth c) AND UDMA_M2S_RD_DATA_CFG_DATA_FIFO_DEPTH_MASK \<and>
    al_reg_read32 m' (m2s_reg u (m2s_regs_m2s_rd m2s_rd_data_cfg)) AND UDMA_M2S_RD_DATA_CFG_MAX_PKT_LIMIT_MASK =
      push_bit UDMA_M2S_RD_DATA_CFG_MAX_PKT_LIMIT_SHIFT (ucast (m2s_pref_max_pkt_limit c)) \<and>
    al_udma_m2s_pref_get u m' b = \<lparr>
      m2s_pref_desc_fifo_depth = m2s_pref_desc_fifo_depth c,
      m2s_pref_sch_mode = (if m2s_pref_max_desc_per_packet c = 0 then STRICT else SRR),
      m2s_pref_max_desc_per_packet = m2s_pref_max_desc_per_packet c,
      m2s_pref_pref_thr = m2s_pref_pref_thr c,
      m2s_pref_min_burst_above_thr = m2s_pref_min_burst_above_thr c,
      m2s_pref_min_burst_below_thr = m2s_pref_min_burst_below_thr c,
      m2s_pref_max_pkt_limit = m2s_pref_max_pkt_limit b,
      m2s_pref_data_fifo_depth = m2s_pref_data_fifo_depth b\<rparr>"
proof -
  have mode: "m2s_pref_sch_mode c = SRR \<or> m2s_pref_sch_mode c = STRICT"
    using assms(1) by (cases "m2s_pref_sch_mode c") auto
  have fit: "ucast (m2s_pref_max_desc_per_packet c) AND (0x1F :: u32) = ucast (m2s_pref_max_desc_per_packet c)"
    "ucast (m2s_pref_min_burst_above_thr c) AND (0xF :: u32) = ucast (m2s_pref_min_burst_above_thr c)"
    "ucast (m2s_pref_min_burst_below_thr c) AND (0xF :: u32) = ucast (m2s_pref_min_burst_below_thr c)"
    using assms(2-4) u8_le_and [of _ 5] u8_le_and [of _ 4] by (simp_all add: mask_eq_exp_minus_1)
  let ?r1 = "m2s_reg u (m2s_regs_m2s_rd m2s_rd_desc_pref_cfg_1)" and ?r2 = "m2s_reg u (m2s_regs_m2s_rd m2s_rd_desc_pref_cfg_2)"
    and ?r3 = "m2s_reg u (m2s_regs_m2s_rd m2s_rd_desc_pref_cfg_3)" and ?r4 = "m2s_reg u (m2s_regs_m2s_rd m2s_rd_data_cfg)"
  have ne: "?r1 \<noteq> ?r2" "?r1 \<noteq> ?r3" "?r1 \<noteq> ?r4" "?r2 \<noteq> ?r3" "?r2 \<noteq> ?r4" "?r3 \<noteq> ?r4"
    by (simp_all add: m2s_reg_def)
  have rok: "r = RcOk" using assms(5) mode by (auto simp: al_udma_m2s_pref_set_def Let_def)
  have c1: "al_reg_read32 m' ?r1 AND 0xFF = ucast (m2s_pref_desc_fifo_depth c)"
    and c2: "al_reg_read32 m' ?r2 AND 0x1F = ucast (m2s_pref_max_desc_per_packet c)"
    and c3: "al_reg_read32 m' ?r3 AND 0xF = ucast (m2s_pref_min_burst_below_thr c)"
    and c4: "al_reg_read32 m' ?r3 AND 0xF0 = push_bit 4 (ucast (m2s_pref_min_burst_above_thr c))"
    and c5: "al_reg_read32 m' ?r3 AND 0xFF00 = push_bit 8 (ucast (m2s_pref_pref_thr c))"
    and c6: "al_reg_read32 m' ?r4 AND 0x3FF = ucast (m2s_pref_data_fifo_depth c) AND 0x3FF"
    and c7: "al_reg_read32 m' ?r4 AND 0xFF0000 = push_bit 16 (ucast (m2s_pref_max_pkt_limit c))"
    using assms(5) mode ne ne [symmetric]
    by (auto simp: al_udma_m2s_pref_set_def Let_def reg_off reg_field word_bits fit)
  show ?thesis
    using rok c6 c7
    by (simp add: ucast_u8_eq_0 al_udma_m2s_pref_get_def Let_def reg_off AL_REG_FIELD_GET_def c1 c2 c3 c4 c5 del: drop_bit_and)
qed

theorem pref_get_after_set_witness:
  "\<exists>m' c b. al_udma_m2s_pref_set demo_udma c \<lparr>regs = \<lambda>_. 0xFFFFFFFF, wlog = []\<rparr> = (RcOk, m') \<and>
     m2s_pref_sch_mode c = STRICT \<and> m2s_pref_max_pkt_limit c = 32 \<and> m2s_pref_pref_thr c = 16 \<and>
     m2s_pref_sch_mode (al_udma_m2s_pref_get demo_udma m' b) = SRR \<and> m2s_pref_max_pkt_limit (al_udma_m2s_pref_get demo_udma m' b) = 7 \<and>
     m2s_pref_pref_thr (al_udma_m2s_pref_get demo_udma m' b) = 16"
proof -
  let ?c = "\<lparr>m2s_pref_desc_fifo_depth = 16, m2s_pref_sch_mode = STRICT, m2s_pref_max_desc_per_packet = 31,
    m2s_pref_pref_thr = 16, m2s_pref_min_burst_above_thr = 8, m2s_pref_min_burst_below_thr = 4,
    m2s_pref_max_pkt_limit = 32, m2s_pref_data_fifo_depth = 256\<rparr>"
  let ?b = "\<lparr>m2s_pref_desc_fifo_depth = 0, m2s_pref_sch_mode = DWRR, m2s_pref_max_desc_per_packet = 0,
    m2s_pref_pref_thr = 0, m2s_pref_min_burst_above_thr = 0, m2s_pref_min_burst_below_thr = 0,
    m2s_pref_max_pkt_limit = 7, m2s_pref_data_fifo_depth = 0\<rparr>"
  obtain r m' where e: "al_udma_m2s_pref_set demo_udma ?c \<lparr>regs = \<lambda>_. 0xFFFFFFFF, wlog = []\<rparr> = (r, m')"
    by fastforce
  from pref_get_after_set [OF _ _ _ _ e, of ?b]
  have "r = RcOk" "m2s_pref_sch_mode (al_udma_m2s_pref_get demo_udma m' ?b) = SRR" "m2s_pref_max_pkt_limit (al_udma_m2s_pref_get demo_udma m' ?b) = 7"
    "m2s_pref_pref_thr (al_udma_m2s_pref_get demo_udma m' ?b) = 16" by simp_all
  with e show ?thesis by (intro exI [of _ m'] exI [of _ ?c] exI [of _ ?b]) simp
qed

text \<open>
  The per-queue scheduling configuration never uses its AXI quality-of-service field.  The two
  quality-of-service assignments of \<open>al_udma_m2s_q_sc_set\<close> go to the same register field and the second
  overwrites the first: the resulting registers, and the values written, do not depend on \<open>axi_qos\<close>.
\<close>

theorem q_sc_set_ignores_axi_qos:
  "al_udma_m2s_q_sc_set q (c\<lparr>qdwrr_axi_qos := x\<rparr>) m = al_udma_m2s_q_sc_set q c m \<and>
   al_reg_read32 (al_udma_m2s_q_sc_set q c m) (m2s_q_reg q m2s_q_dwrr_cfg_2) AND 0xFF = ucast (qdwrr_q_qos c) AND 0xFF"
proof -
  have over: "AL_REG_CLEAR_AND_SET (AL_REG_CLEAR_AND_SET r k (v AND k)) k w = AL_REG_CLEAR_AND_SET r k w" for r k v w :: u32
    unfolding AL_REG_CLEAR_AND_SET_def by (rule bit_word_eqI) (auto simp: bit_simps)
  have ne: "m2s_q_reg q m2s_q_dwrr_cfg_3 \<noteq> m2s_q_reg q m2s_q_dwrr_cfg_2" by (simp add: m2s_q_reg_def)
  show ?thesis
    using ne by (simp add: al_udma_m2s_q_sc_set_def Let_def over UDMA_M2S_Q_DWRR_CFG_2_Q_QOS_MASK_def reg_field)
qed

subsection \<open>Target-ID configuration of all queues\<close>

text \<open>What the Target-ID registers say about queue \<open>i\<close>: enables, identifiers and addresses, for both directions.\<close>

definition tgtid_view :: "ptr \<Rightarrow> mmio \<Rightarrow> nat \<Rightarrow> (bool \<times> bool \<times> bool \<times> bool) \<times> (u32 \<times> u32) \<times> (u32 \<times> u32)" where
  "tgtid_view unit_regs m i =
     (let tgtid = (\<lambda>r. al_reg_read32 m (unit_gen_reg unit_regs (gen_regs_tgtid r)));
          tgtaddr = (\<lambda>r. al_reg_read32 m (unit_gen_reg unit_regs (gen_regs_tgtaddr r)));
          r0 = tgtid gen_tgtid_cfg_tgtid_0
      in ((bit r0 i, bit r0 (i + 4), bit r0 (i + 16), bit r0 (i + 20)),
          (AL_REG_FIELD_GET (tgtid (if i < 2 then gen_tgtid_cfg_tgtid_1 else gen_tgtid_cfg_tgtid_2))
             (UDMA_GEN_TGTID_CFG_TGTID_MASK i) (UDMA_GEN_TGTID_CFG_TGTID_SHIFT i),
           AL_REG_FIELD_GET (tgtid (if i < 2 then gen_tgtid_cfg_tgtid_3 else gen_tgtid_cfg_tgtid_4))
             (UDMA_GEN_TGTID_CFG_TGTID_MASK i) (UDMA_GEN_TGTID_CFG_TGTID_SHIFT i)),
          (AL_REG_FIELD_GET (tgtaddr (if i < 2 then gen_tgtaddr_cfg_tgtaddr_0 else gen_tgtaddr_cfg_tgtaddr_1))
             (UDMA_GEN_TGTADDR_CFG_MASK i) (UDMA_GEN_TGTADDR_CFG_SHIFT i),
           AL_REG_FIELD_GET (tgtaddr (if i < 2 then gen_tgtaddr_cfg_tgtaddr_2 else gen_tgtaddr_cfg_tgtaddr_3))
             (UDMA_GEN_TGTADDR_CFG_MASK i) (UDMA_GEN_TGTADDR_CFG_SHIFT i))))"

definition tgtid_of_conf :: "al_udma_gen_tgtid_conf \<Rightarrow> nat \<Rightarrow> (bool \<times> bool \<times> bool \<times> bool) \<times> (u32 \<times> u32) \<times> (u32 \<times> u32)" where
  "tgtid_of_conf c i =
     (let tx = tgtc_tx_q_conf c ! i; rx = tgtc_rx_q_conf c ! i
      in ((tgt_desc_en tx, tgt_queue_en tx, tgt_desc_en rx, tgt_queue_en rx),
          (ucast (tgt_tgtid tx), ucast (tgt_tgtid rx)), (ucast (tgt_tgtaddr tx), ucast (tgt_tgtaddr rx))))"

lemma bit_AL_MASK_VAL: "bit (AL_MASK_VAL k d b) n \<longleftrightarrow> (if bit k n then bit d n else bit b n)" for k :: u32
  unfolding AL_MASK_VAL_def by (auto simp: bit_simps dest: bit_imp_le_length)

lemma less4_cases: "i < 4 \<Longrightarrow> i = 0 \<or> i = 1 \<or> i = 2 \<or> i = (3 :: nat)"
  by auto

lemma u16_fields [simp]:
  "drop_bit 16 (push_bit 16 (ucast (x :: u16)) AND (0xFFFF0000 :: u32)) = ucast x"
  "push_bit 16 (ucast (x :: u16)) AND (0xFFFF :: u32) = 0"
  by (simp_all add: push_and)

lemma tgtid_queue_set:
  assumes "i < 4" "AL_UDMA_REV_ID_REV2 \<le> al_udma_get_revision unit_regs m"
  shows "\<exists>m'. al_udma_gen_tgtid_conf_queue_set unit_regs c i m = Some m' \<and>
    tgtid_view unit_regs m' i = tgtid_of_conf c i \<and>
    al_udma_get_revision unit_regs m' = al_udma_get_revision unit_regs m"
  using less4_cases [OF assms(1)] assms(2)
  by (elim disjE)
    (simp_all add: al_udma_gen_tgtid_conf_queue_set_def DMA_MAX_Q_def Let_def tgtid_view_def tgtid_of_conf_def
      unit_gen_reg_def al_udma_get_revision_def bit_AL_MASK_VAL bit_AL_BIT reg_off AL_REG_FIELD_GET_def
      mask_val_same unit_regs_gen_def del: drop_bit_and)

lemma tgtid_queue_set_other:
  assumes "i < 4" "j < 4" "i \<noteq> j" "AL_UDMA_REV_ID_REV2 \<le> al_udma_get_revision unit_regs m"
  shows "tgtid_view unit_regs (the (al_udma_gen_tgtid_conf_queue_set unit_regs c i m)) j = tgtid_view unit_regs m j"
  using less4_cases [OF assms(1)] less4_cases [OF assms(2)] assms(3,4)
  by (elim disjE)
    (simp_all add: al_udma_gen_tgtid_conf_queue_set_def DMA_MAX_Q_def Let_def tgtid_view_def
      unit_gen_reg_def bit_AL_MASK_VAL bit_AL_BIT reg_off AL_REG_FIELD_GET_def
      mask_val_other unit_regs_gen_def del: drop_bit_and)

lemma tgtid_loop:
  assumes "distinct is" "set is \<subseteq> {..<4}" "AL_UDMA_REV_ID_REV2 \<le> al_udma_get_revision unit_regs m"
  shows "\<exists>m'. tgtid_conf_loop unit_regs c is m = Some m' \<and>
    (\<forall>i \<in> set is. tgtid_view unit_regs m' i = tgtid_of_conf c i) \<and>
    (\<forall>i < 4. i \<notin> set is \<longrightarrow> tgtid_view unit_regs m' i = tgtid_view unit_regs m i)"
  using assms
proof (induction "is" arbitrary: m)
  case Nil
  then show ?case by simp
next
  case (Cons i "is")
  then have i4: "i < 4" by simp
  obtain m1 where m1: "al_udma_gen_tgtid_conf_queue_set unit_regs c i m = Some m1"
      "tgtid_view unit_regs m1 i = tgtid_of_conf c i"
      "al_udma_get_revision unit_regs m1 = al_udma_get_revision unit_regs m"
    using tgtid_queue_set [OF i4 Cons.prems(3)] by blast
  obtain m' where m': "tgtid_conf_loop unit_regs c is m1 = Some m'"
      "\<forall>i \<in> set is. tgtid_view unit_regs m' i = tgtid_of_conf c i"
      "\<forall>i < 4. i \<notin> set is \<longrightarrow> tgtid_view unit_regs m' i = tgtid_view unit_regs m1 i"
    using Cons.IH [of m1] Cons.prems m1(3) by auto
  have "\<forall>j < 4. j \<notin> set (i # is) \<longrightarrow> tgtid_view unit_regs m' j = tgtid_view unit_regs m j"
    using m'(3) tgtid_queue_set_other [OF i4 _ _ Cons.prems(3), of _ c] m1(1) by auto
  moreover have "\<forall>j \<in> set (i # is). tgtid_view unit_regs m' j = tgtid_of_conf c j"
    using m' m1(2) i4 Cons.prems(1) by auto
  ultimately show ?case using m1(1) m'(1) by auto
qed

text \<open>
  The Target-ID configuration of all four queues.  On a unit of revision 2 or later
  \<open>al_udma_gen_tgtid_conf_set\<close> completes (no assertion fires), and afterwards the shared registers hold, for every queue,
  exactly its configured enables, identifiers and address bits: although two queues share each
  identifier register and all four share the enable register, none overwrites another.
\<close>

theorem tgtid_conf_set_all_queues:
  assumes "AL_UDMA_REV_ID_REV2 \<le> al_udma_get_revision unit_regs m"
  shows "\<exists>m'. al_udma_gen_tgtid_conf_set unit_regs c m = Some m' \<and>
    (\<forall>i<4. tgtid_view unit_regs m' i = tgtid_of_conf c i)"
proof -
  have "distinct [0..<4]" "set [0..<4] \<subseteq> {..<4 :: nat}" by auto
  from tgtid_loop [OF this assms, of c] show ?thesis
    by (auto simp: al_udma_gen_tgtid_conf_set_def DMA_MAX_Q_def)
qed

theorem tgtid_conf_set_all_queues_witness:
  "\<exists>c m'. al_udma_gen_tgtid_conf_set 0 c \<lparr>regs = \<lambda>_. 0x2, wlog = []\<rparr> = Some m' \<and>
     tgtid_view 0 m' 3 = ((True, False, True, True), (0x303, 0x404), (0x5, 0x6))"
proof -
  let ?t = "\<lparr>tgt_queue_en = False, tgt_desc_en = True, tgt_tgtid = 0x303, tgt_tgtaddr = 0x5\<rparr>"
  let ?r = "\<lparr>tgt_queue_en = True, tgt_desc_en = True, tgt_tgtid = 0x404, tgt_tgtaddr = 0x6\<rparr>"
  let ?c = "\<lparr>tgtc_tx_q_conf = replicate 4 ?t, tgtc_rx_q_conf = replicate 4 ?r\<rparr>"
  have "AL_UDMA_REV_ID_REV2 \<le> al_udma_get_revision 0 \<lparr>regs = \<lambda>_. 0x2, wlog = []\<rparr>"
    by (simp add: al_udma_get_revision_def AL_UDMA_REV_ID_REV2_def al_reg_read32_def AL_REG_FIELD_GET_def reg_off)
  from tgtid_conf_set_all_queues [OF this, of ?c] obtain m' where
    m': "al_udma_gen_tgtid_conf_set 0 ?c \<lparr>regs = \<lambda>_. 0x2, wlog = []\<rparr> = Some m'"
    and v: "\<forall>i<4. tgtid_view 0 m' i = tgtid_of_conf ?c i" by blast
  from v have "tgtid_view 0 m' 3 = tgtid_of_conf ?c 3" by simp
  with m' show ?thesis by (intro exI [of _ ?c] exI [of _ m']) (simp add: tgtid_of_conf_def)
qed

subsection \<open>Packet size\<close>

text \<open>
  \<open>al_udma_m2s_packet_size_cfg_set\<close>.  It stops on an RX engine, refuses a size above the 20-bit
  field (above \<open>0x100000\<close> when the zero encoding is on) with \<open>-EINVAL\<close> and no write, and otherwise sets the
  encoding bit and the low 20 bits as requested.  The size is not masked: with the zero encoding,
  the accepted size \<open>0x100000\<close> sets bit 20 of the register, outside the field.
\<close>

theorem packet_size_cfg_outcome:
  fixes u :: al_udma and m :: mmio and c :: al_udma_m2s_pkt_len_conf
  defines "len_reg \<equiv> m2s_reg u (m2s_regs_m2s m2s_cfg_len)"
    and "limit \<equiv> if pkt_len_encode_64k_as_zero c then 0x100000 else 0xFFFFF :: u32"
  shows "if udma_type u = UDMA_RX then al_udma_m2s_packet_size_cfg_set u c m = None
    else if limit < pkt_len_max_pkt_size c then al_udma_m2s_packet_size_cfg_set u c m = Some (RcErr EINVAL, m)
    else \<exists>m'. al_udma_m2s_packet_size_cfg_set u c m = Some (RcOk, m') \<and>
      al_reg_read32 m' len_reg AND 0xFFFFF = pkt_len_max_pkt_size c AND 0xFFFFF \<and>
      (al_reg_read32 m' len_reg AND UDMA_M2S_CFG_LEN_ENCODE_64K \<noteq> 0 \<longleftrightarrow> pkt_len_encode_64k_as_zero c) \<and>
      al_reg_read32 m' len_reg AND 0x100000 = (al_reg_read32 m len_reg AND 0x100000) OR (pkt_len_max_pkt_size c AND 0x100000)"
proof -
  have tx: "udma_type u \<noteq> UDMA_RX \<longleftrightarrow> udma_type u = UDMA_TX" by (cases "udma_type u") auto
  have z: "x AND 0x1000000 = 0" if "x \<le> 0x100000" for x :: u32
  proof -
    have "x \<le> mask 21" using that by (rule order_trans) (simp add: mask_eq_exp_minus_1)
    then have "x AND mask 21 = x" by (rule le_mask_and)
    then have "x AND 0x1000000 = x AND (mask 21 AND 0x1000000)" by (metis and.assoc)
    then show ?thesis by (simp add: mask_eq_exp_minus_1)
  qed
  have le: "pkt_len_max_pkt_size c AND 0x1000000 = 0" if "\<not> limit < pkt_len_max_pkt_size c"
    using that by (intro z) (auto simp: limit_def linorder_not_less split: if_splits intro: order_trans)
  show ?thesis using le
    by (auto simp: al_udma_m2s_packet_size_cfg_set_def Let_def tx limit_def len_reg_def reg_off reg_field
        AL_REG_MASK_CLEAR_def)
qed

subsection \<open>Which registers a configuration function writes\<close>

definition writes_in :: "mmio \<Rightarrow> mmio \<Rightarrow> ptr set \<Rightarrow> bool" where
  "writes_in m m' A \<longleftrightarrow> (\<exists>ws. wlog m' = wlog m @ ws \<and> fst ` set ws \<subseteq> A)"

lemma writes_in_refl [intro!]: "writes_in m m A"
  by (simp add: writes_in_def)

lemma writes_in_write [intro!]: "a \<in> A \<Longrightarrow> writes_in m m' A \<Longrightarrow> writes_in m (al_reg_write32 m' a v) A"
  by (auto simp: writes_in_def)

lemma writes_in_masked [intro!]: "a \<in> A \<Longrightarrow> writes_in m m' A \<Longrightarrow> writes_in m (al_reg_write32_masked m' a k v) A"
  by (auto simp: al_reg_write32_masked_def Let_def)

lemma axi_sm_writes [intro!]:
  "cfg_1 \<in> A \<Longrightarrow> cfg_2 \<in> A \<Longrightarrow> cfg_b \<in> A \<Longrightarrow> writes_in m m' A \<Longrightarrow>
     writes_in m (al_udma_m2s_axi_sm_set c cfg_1 cfg_2 cfg_b m') A"
  "cfg_1 \<in> A \<Longrightarrow> cfg_2 \<in> A \<Longrightarrow> cfg_b \<in> A \<Longrightarrow> writes_in m m' A \<Longrightarrow>
     writes_in m (al_udma_s2m_axi_sm_set c cfg_1 cfg_2 cfg_b m') A"
  by (auto simp: al_udma_m2s_axi_sm_set_def al_udma_s2m_axi_sm_set_def Let_def)

text \<open>
  Every engine configuration function writes only registers of its own block of the unit: the
  AXI functions the AXI block (\<open>0x100\<close> to \<open>0x1ff\<close>), prefetch the read block, scheduling the DWRR block, the
  rate limiter its two blocks, completion the completion block; the per-queue functions stay
  within the 4 KB block of their queue.
\<close>

theorem config_writes_own_block:
  fixes u :: al_udma and q :: al_udma_q
  defines "B \<equiv> \<lambda>a b. {udma_regs u + a ..< udma_regs u + b}" and "Q \<equiv> {q_regs q ..< q_regs q + 0x1000}"
  shows "writes_in m (al_udma_m2s_axi_set u c1 m) (B 0x100 0x200) \<and> writes_in m (al_udma_s2m_axi_set u c2 m) (B 0x100 0x200) \<and>
    writes_in m (snd (al_udma_m2s_pref_set u c3 m)) (B 0x300 0x340) \<and> writes_in m (snd (al_udma_s2m_pref_set u c4 m)) (B 0x300 0x340) \<and>
    writes_in m (al_udma_s2m_data_write_set u c5 m) (B 0x340 0x380) \<and> writes_in m (al_udma_s2m_completion_set u c6 m) (B 0x380 0x3C0) \<and>
    writes_in m (al_udma_m2s_sc_set u c7 m) (B 0x340 0x380) \<and> writes_in m (snd (al_udma_m2s_comp_timeouts_set u c8 m)) (B 0x400 0x500) \<and>
    writes_in m (al_udma_m2s_q_sc_set q c9 m) Q \<and> writes_in m (al_udma_s2m_q_comp_set q c10 m) Q \<and>
    writes_in m (al_udma_s2m_q_compl_hdr_split_config q b1 b2 h m) Q"
proof (intro conjI)
  show "writes_in m (al_udma_m2s_axi_set u c1 m) (B 0x100 0x200)"
    by (auto simp: al_udma_m2s_axi_set_def Let_def B_def m2s_reg_def)
  show "writes_in m (al_udma_s2m_axi_set u c2 m) (B 0x100 0x200)"
    by (auto simp: al_udma_s2m_axi_set_def Let_def B_def s2m_reg_def)
  show "writes_in m (snd (al_udma_m2s_pref_set u c3 m)) (B 0x300 0x340)"
    by (auto simp: al_udma_m2s_pref_set_def Let_def B_def m2s_reg_def)
  show "writes_in m (snd (al_udma_s2m_pref_set u c4 m)) (B 0x300 0x340)"
    by (auto simp: al_udma_s2m_pref_set_def Let_def B_def s2m_reg_def)
  show "writes_in m (al_udma_s2m_data_write_set u c5 m) (B 0x340 0x380)"
    by (auto simp: al_udma_s2m_data_write_set_def Let_def B_def s2m_reg_def)
  show "writes_in m (al_udma_s2m_completion_set u c6 m) (B 0x380 0x3C0)"
    by (auto simp: al_udma_s2m_completion_set_def Let_def B_def s2m_reg_def)
  show "writes_in m (al_udma_m2s_sc_set u c7 m) (B 0x340 0x380)"
    by (auto simp: al_udma_m2s_sc_set_def Let_def B_def m2s_reg_def)
  show "writes_in m (snd (al_udma_m2s_comp_timeouts_set u c8 m)) (B 0x400 0x500)"
    by (auto simp: al_udma_m2s_comp_timeouts_set_def Let_def B_def m2s_reg_def)
  show "writes_in m (al_udma_m2s_q_sc_set q c9 m) Q"
    by (auto simp: al_udma_m2s_q_sc_set_def Let_def Q_def m2s_q_reg_def)
  show "writes_in m (al_udma_s2m_q_comp_set q c10 m) Q"
    by (auto simp: al_udma_s2m_q_comp_set_def Let_def Q_def s2m_q_reg_def)
  show "writes_in m (al_udma_s2m_q_compl_hdr_split_config q b1 b2 h m) Q"
    by (auto simp: al_udma_s2m_q_compl_hdr_split_config_def Let_def Q_def s2m_q_reg_def)
qed

end
