(* ===== verification/Ssm_Dma.thy ===== *)
theory Ssm_Dma
  imports Udma_Config
begin

text \<open>
  The memory-to-memory engine pair (\<open>al_hal_m2m_udma.c\<close>) and the DMA of the storage services module
  (\<open>al_hal_ssm.c\<close>): initialisation of the transmit and receive engines, paired queue
  initialisation, state changes, handles and the doorbell.  A handle to an engine or a queue is its value;
  an operation that modifies it through the handle returns the updated parent.
\<close>

subsection \<open>The M2M engine pair\<close>

record al_m2m_udma =
  m2m_name :: "string option"
  m2m_udma_regs_base :: ptr
  m2m_num_of_queues :: u8
  tx_udma :: al_udma
  rx_udma :: al_udma

record al_m2m_udma_params =
  mp_udma_regs_base :: ptr
  mp_name :: "string option"
  mp_num_of_queues :: u8
  mp_max_m2s_descs_per_pkt :: u8
  mp_max_s2m_descs_per_pkt :: u8

definition al_m2m_udma_init :: "al_m2m_udma \<Rightarrow> al_m2m_udma_params \<Rightarrow> mmio \<Rightarrow> (rc \<times> al_m2m_udma \<times> mmio) option" where
  "al_m2m_udma_init d params m =
     (let d = d\<lparr>m2m_name := mp_name params, m2m_udma_regs_base := mp_udma_regs_base params,
                m2m_num_of_queues := mp_num_of_queues params\<rparr>;
          dma_params = \<lparr>up_udma_regs_base = m2m_udma_regs_base d, up_type = UDMA_TX,
                        up_num_of_queues = m2m_num_of_queues d, up_name = Some ''tx dma''\<rparr>;
          (rc, tx, m) = al_udma_init (tx_udma d) dma_params m;
          d = d\<lparr>tx_udma := tx\<rparr>
      in if rc \<noteq> RcOk then Some (rc, d, m)
         else do {
           m \<leftarrow> al_udma_m2s_max_descs_set (tx_udma d) (mp_max_m2s_descs_per_pkt params) m;
           let dma_params = \<lparr>up_udma_regs_base = m2m_udma_regs_base d, up_type = UDMA_RX,
                             up_num_of_queues = m2m_num_of_queues d, up_name = Some ''rx dma''\<rparr>;
           let (rc, rx, m) = al_udma_init (rx_udma d) dma_params m;
           let d = d\<lparr>rx_udma := rx\<rparr>;
           if rc \<noteq> RcOk then Some (rc, d, m)
           else do {
             m \<leftarrow> al_udma_s2m_max_descs_set (rx_udma d) (mp_max_s2m_descs_per_pkt params) m;
             Some (RcOk, d, m) } })"

definition al_m2m_udma_q_init ::
  "al_m2m_udma \<Rightarrow> u32 \<Rightarrow> al_udma_q_params \<Rightarrow> al_udma_q_params \<Rightarrow> mmio \<Rightarrow> (rc \<times> al_m2m_udma \<times> mmio) option" where
  "al_m2m_udma_q_init d i tx_params rx_params m =
     do { (rc, tx, m) \<leftarrow> al_udma_q_init (tx_udma d) i tx_params m;
          let d = d\<lparr>tx_udma := tx\<rparr>;
          if rc \<noteq> RcOk then Some (rc, d, m)
          else do {
            (rc, rx, m) \<leftarrow> al_udma_q_init (rx_udma d) i rx_params m;
            let d = d\<lparr>rx_udma := rx\<rparr>;
            if rc \<noteq> RcOk then Some (rc, d, m) else Some (RcOk, d, m) } }"

definition al_m2m_udma_state_set :: "al_m2m_udma \<Rightarrow> al_udma_state \<Rightarrow> mmio \<Rightarrow> rc \<times> al_m2m_udma \<times> mmio" where
  "al_m2m_udma_state_set d state m =
     (let (rc, tx, m) = al_udma_state_set (tx_udma d) state m; d = d\<lparr>tx_udma := tx\<rparr>
      in if rc \<noteq> RcOk then (rc, d, m)
         else
           let (rc, rx, m) = al_udma_state_set (rx_udma d) state m; d = d\<lparr>rx_udma := rx\<rparr>
           in if rc \<noteq> RcOk then (rc, d, m) else (RcOk, d, m))"

definition al_m2m_udma_handle_get :: "al_m2m_udma \<Rightarrow> al_udma_type \<Rightarrow> al_udma" where
  "al_m2m_udma_handle_get d type = (if type = UDMA_TX then tx_udma d else rx_udma d)"

subsection \<open>The SSM DMA\<close>

definition AL_SSM_MAX_SRC_DESCS :: u32 where "AL_SSM_MAX_SRC_DESCS = 31"
definition AL_SSM_MAX_DST_DESCS :: u32 where "AL_SSM_MAX_DST_DESCS = 31"

definition AL_SSM_INTERRUPT :: u32 where "AL_SSM_INTERRUPT = AL_BIT 0"
definition AL_SSM_BARRIER :: u32 where "AL_SSM_BARRIER = AL_BIT 1"
definition AL_SSM_SRC_NO_SNOOP :: u32 where "AL_SSM_SRC_NO_SNOOP = AL_BIT 2"
definition AL_SSM_DEST_NO_SNOOP :: u32 where "AL_SSM_DEST_NO_SNOOP = AL_BIT 3"

datatype al_ssm_q_type = AL_CRYPT_AUTH_Q | AL_MEM_CRC_MEMCPY_Q | AL_RAID_Q

record al_ssm_dma =
  ssm_rev_id :: u8
  m2m_udma :: al_m2m_udma
  q_types :: "al_ssm_q_type list"
  ssm_max_src_descs :: u32
  ssm_max_dst_descs :: u32

record al_ssm_dma_params =
  sp_rev_id :: u8
  sp_udma_regs_base :: ptr
  sp_name :: "string option"
  sp_num_of_queues :: u8

definition al_ssm_dma_init :: "al_ssm_dma \<Rightarrow> al_ssm_dma_params \<Rightarrow> mmio \<Rightarrow> (rc \<times> al_ssm_dma \<times> mmio) option" where
  "al_ssm_dma_init s params m =
     (let s = s\<lparr>ssm_rev_id := sp_rev_id params, ssm_max_src_descs := AL_SSM_MAX_SRC_DESCS,
                ssm_max_dst_descs := AL_SSM_MAX_DST_DESCS\<rparr>;
          m2m_params = \<lparr>mp_udma_regs_base = sp_udma_regs_base params, mp_name = sp_name params,
            mp_num_of_queues = sp_num_of_queues params,
            mp_max_m2s_descs_per_pkt = ucast (ssm_max_src_descs s),
            mp_max_s2m_descs_per_pkt = ucast (ssm_max_dst_descs s)\<rparr>
      in do { (rc, d, m) \<leftarrow> al_m2m_udma_init (m2m_udma s) m2m_params m;
              Some (rc, s\<lparr>m2m_udma := d\<rparr>, m) })"

text \<open>The caller's parameter structures are updated with the revision id as well; the updated values are what is used.\<close>

definition al_ssm_dma_q_init ::
  "al_ssm_dma \<Rightarrow> u32 \<Rightarrow> al_udma_q_params \<Rightarrow> al_udma_q_params \<Rightarrow> al_ssm_q_type \<Rightarrow> mmio \<Rightarrow> (rc \<times> al_ssm_dma \<times> mmio) option" where
  "al_ssm_dma_q_init s i tx_params rx_params q_type m =
     (let tx_params = tx_params\<lparr>qp_adapter_rev_id := ssm_rev_id s\<rparr>;
          rx_params = rx_params\<lparr>qp_adapter_rev_id := ssm_rev_id s\<rparr>
      in do { (rc, d, m) \<leftarrow> al_m2m_udma_q_init (m2m_udma s) i tx_params rx_params m;
              let s = s\<lparr>m2m_udma := d\<rparr>;
              if rc \<noteq> RcOk then Some (rc, s, m)
              else Some (rc, s\<lparr>q_types := (q_types s)[unat i := q_type]\<rparr>, m) })"

definition al_ssm_dma_state_set :: "al_ssm_dma \<Rightarrow> al_udma_state \<Rightarrow> mmio \<Rightarrow> rc \<times> al_ssm_dma \<times> mmio" where
  "al_ssm_dma_state_set s state m =
     (let (rc, d, m) = al_m2m_udma_state_set (m2m_udma s) state m in (rc, s\<lparr>m2m_udma := d\<rparr>, m))"

definition al_ssm_dma_handle_get :: "al_ssm_dma \<Rightarrow> al_udma_type \<Rightarrow> al_udma" where
  "al_ssm_dma_handle_get s type = al_m2m_udma_handle_get (m2m_udma s) type"

definition al_ssm_dma_tx_udma_handle_get :: "al_ssm_dma \<Rightarrow> al_udma" where
  "al_ssm_dma_tx_udma_handle_get s = al_m2m_udma_handle_get (m2m_udma s) UDMA_TX"

definition al_ssm_dma_tx_queue_handle_get :: "al_ssm_dma \<Rightarrow> u32 \<Rightarrow> al_udma_q" where
  "al_ssm_dma_tx_queue_handle_get s i = udma_q (al_m2m_udma_handle_get (m2m_udma s) UDMA_TX) ! unat i"

definition al_ssm_dma_rx_udma_handle_get :: "al_ssm_dma \<Rightarrow> al_udma" where
  "al_ssm_dma_rx_udma_handle_get s = al_m2m_udma_handle_get (m2m_udma s) UDMA_RX"

definition al_ssm_dma_rx_queue_handle_get :: "al_ssm_dma \<Rightarrow> u32 \<Rightarrow> al_udma_q" where
  "al_ssm_dma_rx_queue_handle_get s i = udma_q (al_m2m_udma_handle_get (m2m_udma s) UDMA_RX) ! unat i"

definition al_ssm_dma_action :: "al_ssm_dma \<Rightarrow> u32 \<Rightarrow> u32 \<Rightarrow> mmio \<Rightarrow> mmio option" where
  "al_ssm_dma_action s i tx_descs m =
     (case al_udma_q_handle_get (tx_udma (m2m_udma s)) i of
        (RcOk, Some tx_udma_q) \<Rightarrow> al_udma_desc_action_add tx_udma_q tx_descs m
      | _ \<Rightarrow> None)"

text \<open>Updates of one queue through a handle.\<close>

definition tx_q_update :: "u32 \<Rightarrow> al_udma_q \<Rightarrow> al_ssm_dma \<Rightarrow> al_ssm_dma" where
  "tx_q_update i q s =
     s\<lparr>m2m_udma := (m2m_udma s)\<lparr>tx_udma := (tx_udma (m2m_udma s))\<lparr>udma_q := (udma_q (tx_udma (m2m_udma s)))[unat i := q]\<rparr>\<rparr>\<rparr>"

definition rx_q_update :: "u32 \<Rightarrow> al_udma_q \<Rightarrow> al_ssm_dma \<Rightarrow> al_ssm_dma" where
  "rx_q_update i q s =
     s\<lparr>m2m_udma := (m2m_udma s)\<lparr>rx_udma := (rx_udma (m2m_udma s))\<lparr>udma_q := (udma_q (rx_udma (m2m_udma s)))[unat i := q]\<rparr>\<rparr>\<rparr>"

end
