(* ===== verification/Gf_Tables.thy ===== *)
theory Gf_Tables
  imports Reg_Utils
begin

text \<open>
  The logarithm tables of the Galois field with 256 elements that the RAID engine uses for the Q
  syndrome (\<open>gflog\<close>, \<open>gfilog\<close> of \<open>al_hal_ssm_raid.c\<close>), the function that loads them into the
  engine's registers, and the reference arithmetic: multiplication by the generator \<open>x\<close> modulo
  \<open>x^8 + x^4 + x^3 + x^2 + 1\<close> and the shift-and-add product built from it.
\<close>

subsection \<open>The tables\<close>

definition GF_SIZE :: nat where "GF_SIZE = 256"

definition gflog :: "u8 list" where
  "gflog =
    [0xff, 0x00, 0x01, 0x19, 0x02, 0x32, 0x1a, 0xc6, 0x03, 0xdf, 0x33, 0xee, 0x1b, 0x68, 0xc7, 0x4b,
     0x04, 0x64, 0xe0, 0x0e, 0x34, 0x8d, 0xef, 0x81, 0x1c, 0xc1, 0x69, 0xf8, 0xc8, 0x08, 0x4c, 0x71,
     0x05, 0x8a, 0x65, 0x2f, 0xe1, 0x24, 0x0f, 0x21, 0x35, 0x93, 0x8e, 0xda, 0xf0, 0x12, 0x82, 0x45,
     0x1d, 0xb5, 0xc2, 0x7d, 0x6a, 0x27, 0xf9, 0xb9, 0xc9, 0x9a, 0x09, 0x78, 0x4d, 0xe4, 0x72, 0xa6,
     0x06, 0xbf, 0x8b, 0x62, 0x66, 0xdd, 0x30, 0xfd, 0xe2, 0x98, 0x25, 0xb3, 0x10, 0x91, 0x22, 0x88,
     0x36, 0xd0, 0x94, 0xce, 0x8f, 0x96, 0xdb, 0xbd, 0xf1, 0xd2, 0x13, 0x5c, 0x83, 0x38, 0x46, 0x40,
     0x1e, 0x42, 0xb6, 0xa3, 0xc3, 0x48, 0x7e, 0x6e, 0x6b, 0x3a, 0x28, 0x54, 0xfa, 0x85, 0xba, 0x3d,
     0xca, 0x5e, 0x9b, 0x9f, 0x0a, 0x15, 0x79, 0x2b, 0x4e, 0xd4, 0xe5, 0xac, 0x73, 0xf3, 0xa7, 0x57,
     0x07, 0x70, 0xc0, 0xf7, 0x8c, 0x80, 0x63, 0x0d, 0x67, 0x4a, 0xde, 0xed, 0x31, 0xc5, 0xfe, 0x18,
     0xe3, 0xa5, 0x99, 0x77, 0x26, 0xb8, 0xb4, 0x7c, 0x11, 0x44, 0x92, 0xd9, 0x23, 0x20, 0x89, 0x2e,
     0x37, 0x3f, 0xd1, 0x5b, 0x95, 0xbc, 0xcf, 0xcd, 0x90, 0x87, 0x97, 0xb2, 0xdc, 0xfc, 0xbe, 0x61,
     0xf2, 0x56, 0xd3, 0xab, 0x14, 0x2a, 0x5d, 0x9e, 0x84, 0x3c, 0x39, 0x53, 0x47, 0x6d, 0x41, 0xa2,
     0x1f, 0x2d, 0x43, 0xd8, 0xb7, 0x7b, 0xa4, 0x76, 0xc4, 0x17, 0x49, 0xec, 0x7f, 0x0c, 0x6f, 0xf6,
     0x6c, 0xa1, 0x3b, 0x52, 0x29, 0x9d, 0x55, 0xaa, 0xfb, 0x60, 0x86, 0xb1, 0xbb, 0xcc, 0x3e, 0x5a,
     0xcb, 0x59, 0x5f, 0xb0, 0x9c, 0xa9, 0xa0, 0x51, 0x0b, 0xf5, 0x16, 0xeb, 0x7a, 0x75, 0x2c, 0xd7,
     0x4f, 0xae, 0xd5, 0xe9, 0xe6, 0xe7, 0xad, 0xe8, 0x74, 0xd6, 0xf4, 0xea, 0xa8, 0x50, 0x58, 0xaf]"

definition gfilog :: "u8 list" where
  "gfilog =
    [0x01, 0x02, 0x04, 0x08, 0x10, 0x20, 0x40, 0x80, 0x1d, 0x3a, 0x74, 0xe8, 0xcd, 0x87, 0x13, 0x26,
     0x4c, 0x98, 0x2d, 0x5a, 0xb4, 0x75, 0xea, 0xc9, 0x8f, 0x03, 0x06, 0x0c, 0x18, 0x30, 0x60, 0xc0,
     0x9d, 0x27, 0x4e, 0x9c, 0x25, 0x4a, 0x94, 0x35, 0x6a, 0xd4, 0xb5, 0x77, 0xee, 0xc1, 0x9f, 0x23,
     0x46, 0x8c, 0x05, 0x0a, 0x14, 0x28, 0x50, 0xa0, 0x5d, 0xba, 0x69, 0xd2, 0xb9, 0x6f, 0xde, 0xa1,
     0x5f, 0xbe, 0x61, 0xc2, 0x99, 0x2f, 0x5e, 0xbc, 0x65, 0xca, 0x89, 0x0f, 0x1e, 0x3c, 0x78, 0xf0,
     0xfd, 0xe7, 0xd3, 0xbb, 0x6b, 0xd6, 0xb1, 0x7f, 0xfe, 0xe1, 0xdf, 0xa3, 0x5b, 0xb6, 0x71, 0xe2,
     0xd9, 0xaf, 0x43, 0x86, 0x11, 0x22, 0x44, 0x88, 0x0d, 0x1a, 0x34, 0x68, 0xd0, 0xbd, 0x67, 0xce,
     0x81, 0x1f, 0x3e, 0x7c, 0xf8, 0xed, 0xc7, 0x93, 0x3b, 0x76, 0xec, 0xc5, 0x97, 0x33, 0x66, 0xcc,
     0x85, 0x17, 0x2e, 0x5c, 0xb8, 0x6d, 0xda, 0xa9, 0x4f, 0x9e, 0x21, 0x42, 0x84, 0x15, 0x2a, 0x54,
     0xa8, 0x4d, 0x9a, 0x29, 0x52, 0xa4, 0x55, 0xaa, 0x49, 0x92, 0x39, 0x72, 0xe4, 0xd5, 0xb7, 0x73,
     0xe6, 0xd1, 0xbf, 0x63, 0xc6, 0x91, 0x3f, 0x7e, 0xfc, 0xe5, 0xd7, 0xb3, 0x7b, 0xf6, 0xf1, 0xff,
     0xe3, 0xdb, 0xab, 0x4b, 0x96, 0x31, 0x62, 0xc4, 0x95, 0x37, 0x6e, 0xdc, 0xa5, 0x57, 0xae, 0x41,
     0x82, 0x19, 0x32, 0x64, 0xc8, 0x8d, 0x07, 0x0e, 0x1c, 0x38, 0x70, 0xe0, 0xdd, 0xa7, 0x53, 0xa6,
     0x51, 0xa2, 0x59, 0xb2, 0x79, 0xf2, 0xf9, 0xef, 0xc3, 0x9b, 0x2b, 0x56, 0xac, 0x45, 0x8a, 0x09,
     0x12, 0x24, 0x48, 0x90, 0x3d, 0x7a, 0xf4, 0xf5, 0xf7, 0xf3, 0xfb, 0xeb, 0xcb, 0x8b, 0x0b, 0x16,
     0x2c, 0x58, 0xb0, 0x7d, 0xfa, 0xe9, 0xcf, 0x83, 0x1b, 0x36, 0x6c, 0xd8, 0xad, 0x47, 0x8e, 0x00]"

text \<open>
  \<open>struct raid_accelerator_regs\<close>: the tables lie at offsets \<open>0x100\<close> and \<open>0x200\<close>, four bytes per
  register, lowest byte first.
\<close>

definition off_gflog_table :: nat where "off_gflog_table = 0x100"
definition off_gfilog_table :: nat where "off_gfilog_table = 0x200"

definition gf_word :: "u8 list \<Rightarrow> nat \<Rightarrow> u32" where
  "gf_word table i =
     (let table_idx = 4 * i
      in push_bit 24 (ucast (table ! (table_idx + 3))) OR push_bit 16 (ucast (table ! (table_idx + 2))) OR
         push_bit 8 (ucast (table ! (table_idx + 1))) OR ucast (table ! table_idx))"

fun load_table_loop :: "ptr \<Rightarrow> u8 list \<Rightarrow> nat \<Rightarrow> nat \<Rightarrow> mmio \<Rightarrow> mmio" where
  "load_table_loop base_reg table i 0 m = m"
| "load_table_loop base_reg table i (Suc n) m =
     load_table_loop base_reg table (Suc i) n (al_reg_write32 m (base_reg + 4 * i) (gf_word table i))"

definition al_raid_load_table :: "ptr \<Rightarrow> bool \<Rightarrow> u8 list \<Rightarrow> mmio \<Rightarrow> mmio" where
  "al_raid_load_table app_regs_base is_gflog table m =
     (let base_reg = app_regs_base + (if is_gflog then off_gflog_table else off_gfilog_table)
      in load_table_loop base_reg table 0 (GF_SIZE div 4) m)"

subsection \<open>Reference arithmetic\<close>

text \<open>Multiplication by \<open>x\<close>: shift left, and reduce by \<open>0x1d\<close> when the top bit falls out.\<close>

definition gf_x :: "u8 \<Rightarrow> u8" where
  "gf_x a = (if bit a 7 then push_bit 1 a XOR 0x1D else push_bit 1 a)"

text \<open>The product of two elements: for each set bit \<open>i\<close> of \<open>a\<close> add \<open>x^i * b\<close>.\<close>

definition gf_mul :: "u8 \<Rightarrow> u8 \<Rightarrow> u8" where
  "gf_mul a b = fold (\<lambda>i acc. if bit a i then acc XOR (gf_x ^^ i) b else acc) [0..<8] 0"

text \<open>The product through the tables, as the engine computes it.\<close>

definition gf_table_mul :: "u8 \<Rightarrow> u8 \<Rightarrow> u8" where
  "gf_table_mul a b =
     (if a = 0 \<or> b = 0 then 0 else gfilog ! ((unat (gflog ! unat a) + unat (gflog ! unat b)) mod 255))"

lemma gf_x_xor: "gf_x (a XOR b) = gf_x a XOR gf_x b"
  unfolding gf_x_def by (rule bit_word_eqI) (auto simp: bit_simps)

lemma gf_x_0 [simp]: "gf_x 0 = 0"
  by (simp add: gf_x_def)

lemma gf_x_pow_xor: "(gf_x ^^ n) (a XOR b) = (gf_x ^^ n) a XOR (gf_x ^^ n) b"
  by (induction n) (simp_all add: gf_x_xor)

lemma gf_x_pow_0 [simp]: "(gf_x ^^ n) 0 = 0"
  by (induction n) simp_all

subsection \<open>Algebra of the reference product\<close>

definition gf_term :: "u8 \<Rightarrow> nat \<Rightarrow> bool \<Rightarrow> u8" where
  "gf_term b i p = (if p then (gf_x ^^ i) b else 0)"

lemma gf_term_xor: "gf_term b i (p \<noteq> q) = gf_term b i p XOR gf_term b i q"
  by (simp add: gf_term_def)

lemma gf_x_term: "gf_x (gf_term b i p) = gf_term b (Suc i) p"
  by (simp add: gf_term_def)

lemma gf_mul_terms:
  "gf_mul a b = gf_term b 0 (bit a 0) XOR gf_term b 1 (bit a 1) XOR gf_term b 2 (bit a 2) XOR gf_term b 3 (bit a 3) XOR
     gf_term b 4 (bit a 4) XOR gf_term b 5 (bit a 5) XOR gf_term b 6 (bit a 6) XOR gf_term b 7 (bit a 7)"
proof -
  have step: "(if p then acc XOR (gf_x ^^ i) b else acc) = acc XOR gf_term b i p" for p acc i
    by (simp add: gf_term_def)
  have upt8: "[0..<8] = [0, 1, 2, 3, 4, 5, 6, 7 :: nat]" by (simp add: upt_rec)
  show ?thesis unfolding gf_mul_def step upt8 by (simp add: xor.assoc)
qed

lemma bit_shl1: "bit (push_bit 1 a) n \<longleftrightarrow> 0 < n \<and> n < 8 \<and> bit a (n - 1)" for a :: u8
  unfolding bit_push_bit_iff by (auto dest: bit_imp_le_length)

lemma bit_gf_x: "bit (gf_x a) n \<longleftrightarrow> (bit a 7 \<and> bit (0x1D :: u8) n) \<noteq> (0 < n \<and> n < 8 \<and> bit a (n - 1))"
  unfolding gf_x_def bit_shl1 [symmetric] by (cases "bit a 7") (simp_all only: if_True if_False bit_xor_iff, auto)

lemma gf_x_bits:
  "bit (gf_x a) 0 = bit a 7" "bit (gf_x a) (Suc 0) = bit a 0" "bit (gf_x a) 2 = (bit a (Suc 0) \<noteq> bit a 7)"
  "bit (gf_x a) 3 = (bit a 2 \<noteq> bit a 7)" "bit (gf_x a) 4 = (bit a 3 \<noteq> bit a 7)" "bit (gf_x a) 5 = bit a 4"
  "bit (gf_x a) 6 = bit a 5" "bit (gf_x a) 7 = bit a 6"
  by (simp_all only: bit_gf_x) auto

lemma u8_eqI:
  fixes a b :: u8
  assumes "bit a 0 = bit b 0" "bit a (Suc 0) = bit b (Suc 0)" "bit a 2 = bit b 2" "bit a 3 = bit b 3"
    and "bit a 4 = bit b 4" "bit a 5 = bit b 5" "bit a 6 = bit b 6" "bit a 7 = bit b 7"
  shows "a = b"
proof (rule bit_word_eqI)
  fix n assume "n < LENGTH(8)"
  then have "n = 0 \<or> n = Suc 0 \<or> n = 2 \<or> n = 3 \<or> n = 4 \<or> n = 5 \<or> n = 6 \<or> n = 7" by auto
  with assms show "bit a n = bit b n" by auto
qed

lemma gf_x_powers:
  "(gf_x ^^ 2) b = gf_x (gf_x b)" "(gf_x ^^ 3) b = gf_x (gf_x (gf_x b))" "(gf_x ^^ 4) b = gf_x (gf_x (gf_x (gf_x b)))"
  "(gf_x ^^ 8) b = gf_x (gf_x (gf_x (gf_x (gf_x (gf_x (gf_x (gf_x b)))))))"
  by (simp_all add: numeral_eq_Suc)

lemma gf_reduction: "(gf_x ^^ 8) b = b XOR (gf_x ^^ 2) b XOR (gf_x ^^ 3) b XOR (gf_x ^^ 4) b"
  unfolding gf_x_powers by (rule u8_eqI; simp only: bit_xor_iff gf_x_bits; argo)

lemma gf_term_8: "gf_term b 8 p = gf_term b 0 p XOR gf_term b 2 p XOR gf_term b 3 p XOR gf_term b 4 p"
  by (simp only: gf_term_def gf_reduction) simp

lemma gf_x_terms:
  "gf_x (gf_term b 0 p) = gf_term b 1 p" "gf_x (gf_term b 1 p) = gf_term b 2 p" "gf_x (gf_term b 2 p) = gf_term b 3 p"
  "gf_x (gf_term b 3 p) = gf_term b 4 p" "gf_x (gf_term b 4 p) = gf_term b 5 p" "gf_x (gf_term b 5 p) = gf_term b 6 p"
  "gf_x (gf_term b 6 p) = gf_term b 7 p" "gf_x (gf_term b 7 p) = gf_term b 8 p"
  by (simp_all add: gf_x_term numeral_eq_Suc)

lemma gf_mul_gf_x: "gf_mul (gf_x a) b = gf_x (gf_mul a b)"
  unfolding gf_mul_terms One_nat_def gf_x_bits gf_term_xor gf_x_xor gf_x_terms [unfolded One_nat_def] gf_term_8
  by (simp only: xor.assoc xor.commute xor.left_commute)

lemma gf_mul_gf_x_pow: "gf_mul ((gf_x ^^ n) a) b = (gf_x ^^ n) (gf_mul a b)"
  by (induction n) (simp_all add: gf_mul_gf_x)

lemma gf_mul_1: "gf_mul 1 b = b" and gf_mul_0: "gf_mul 0 b = 0" and gf_mul_0_right: "gf_mul a 0 = 0"
  by (simp_all add: gf_mul_terms gf_term_def)

subsection \<open>The tables as powers of the generator\<close>

lemma length_tables [simp]: "length gflog = 256" "length gfilog = 256"
  by (simp_all add: gflog_def gfilog_def)

lemma gfilog_shift: "map gf_x (take 254 gfilog) = take 254 (tl gfilog)"
  by code_simp

lemma gfilog_ends: "gfilog ! 0 = 1" "gf_x (gfilog ! 254) = 1"
  by code_simp+

lemma gfilog_step: "i < 254 \<Longrightarrow> gfilog ! Suc i = gf_x (gfilog ! i)"
proof -
  assume i: "i < 254"
  have "map gf_x (take 254 gfilog) ! i = take 254 (tl gfilog) ! i" by (simp only: gfilog_shift)
  with i show ?thesis by (simp add: nth_tl)
qed

lemma gfilog_pow: "i < 255 \<Longrightarrow> gfilog ! i = (gf_x ^^ i) 1"
  by (induction i) (simp_all add: gfilog_ends gfilog_step)

lemma gf_x_order: "(gf_x ^^ 255) 1 = 1"
proof -
  have "(gf_x ^^ Suc 254) 1 = gf_x (gfilog ! 254)" by (simp only: funpow.simps o_apply) (simp add: gfilog_pow)
  moreover have "Suc 254 = 255" by simp
  ultimately show ?thesis by (simp only: gfilog_ends)
qed

lemma gf_x_pow_mod: "(gf_x ^^ n) 1 = (gf_x ^^ (n mod 255)) 1"
proof -
  have "(gf_x ^^ (255 * k + r)) 1 = (gf_x ^^ r) 1" for k r
  proof (induction k)
    case (Suc k)
    have "255 * Suc k + r = (255 * k + r) + 255" by simp
    then show ?case by (simp only: funpow_add [of _ 255] o_apply gf_x_order Suc)
  qed simp
  from this [of "n div 255" "n mod 255"] show ?thesis by simp
qed

lemma gflog_table:
  "list_all (\<lambda>k. gfilog ! unat (gflog ! k) = of_nat k \<and> unat (gflog ! k) < 255) [1..<256]"
  by code_simp

lemma gfilog_gflog:
  assumes "a \<noteq> 0"
  shows "gfilog ! unat (gflog ! unat a) = a" "unat (gflog ! unat a) < 255"
proof -
  have "unat a \<noteq> 0" using assms by (simp add: unat_eq_zero)
  moreover have "unat a < 256" by (rule order.strict_trans2 [OF unsigned_less]) simp
  ultimately have "unat a \<in> set [1..<256]" by simp
  with gflog_table show "gfilog ! unat (gflog ! unat a) = a" "unat (gflog ! unat a) < 255"
    unfolding list_all_iff by auto
qed

subsection \<open>Properties\<close>

text \<open>
  C13: the tables implement the arithmetic of the field.  \<open>gfilog\<close> and \<open>gflog\<close> are inverse to each
  other on the non-zero elements, and multiplying by adding logarithms modulo 255 gives, for all
  pairs of bytes, the product of polynomials modulo \<open>x^8 + x^4 + x^3 + x^2 + 1\<close>.
\<close>

theorem gf_tables_multiply:
  "gf_table_mul a b = gf_mul a b \<and> (a = 0 \<or> gfilog ! unat (gflog ! unat a) = a)"
proof (cases "a = 0 \<or> b = 0")
  case True
  then show ?thesis using gfilog_gflog [of a] by (auto simp: gf_table_mul_def gf_mul_0 gf_mul_0_right)
next
  case False
  let ?i = "unat (gflog ! unat a)" and ?j = "unat (gflog ! unat b)"
  have a: "a = (gf_x ^^ ?i) 1" and b: "b = (gf_x ^^ ?j) 1"
    using False gfilog_gflog [of a] gfilog_gflog [of b] gfilog_pow [of ?i] gfilog_pow [of ?j] by auto
  have "gf_mul a b = (gf_x ^^ ?i) ((gf_x ^^ ?j) 1)"
    by (subst a, subst b, simp only: gf_mul_gf_x_pow gf_mul_1)
  also have "\<dots> = (gf_x ^^ ((?i + ?j) mod 255)) 1"
    by (simp only: funpow_add o_apply gf_x_pow_mod [symmetric])
  also have "\<dots> = gfilog ! ((?i + ?j) mod 255)" by (simp add: gfilog_pow)
  finally show ?thesis using False gfilog_gflog [of a] by (simp add: gf_table_mul_def)
qed

lemma load_table_read:
  "al_reg_read32 (load_table_loop base table i n m) a =
     (if base + 4 * i \<le> a \<and> a < base + 4 * (i + n) \<and> 4 dvd (a - base) then gf_word table ((a - base) div 4)
      else al_reg_read32 m a)"
proof (induction n arbitrary: i m)
  case 0
  then show ?case by auto
next
  case (Suc n)
  show ?case
  proof (cases "a = base + 4 * i")
    case True
    show ?thesis by (simp only: load_table_loop.simps Suc) (simp add: True)
  next
    case False
    then have "base + 4 * i \<le> a \<and> 4 dvd (a - base) \<longleftrightarrow> base + 4 * Suc i \<le> a \<and> 4 dvd (a - base)"
      by presburger
    then show ?thesis using False by (auto simp: Suc)
  qed
qed

lemma u8_bit_high: "8 \<le> n \<Longrightarrow> \<not> bit x n" for x :: u8
  by (auto dest: bit_imp_le_length)

lemma gf_word_byte:
  assumes "k < 4"
  shows "ucast (drop_bit (8 * k) (gf_word table i)) = table ! (4 * i + k)"
proof -
  have "k = 0 \<or> k = 1 \<or> k = 2 \<or> k = 3" using assms by auto
  then show ?thesis
    by (elim disjE) (auto intro!: bit_word_eqI simp: gf_word_def Let_def bit_simps u8_bit_high)
qed

text \<open>
  \<open>_al_raid_load_table\<close> puts the table into the engine: afterwards, byte \<open>k mod 4\<close> of register
  \<open>k div 4\<close> of the table's block is entry \<open>k\<close>, for all 256 entries, and no register
  outside the 256 bytes of the block has changed.
\<close>

theorem load_table_bytes:
  fixes app_regs :: ptr and is_gflog :: bool
  assumes "k < 256"
  defines "base \<equiv> app_regs + (if is_gflog then 0x100 else 0x200)"
  shows "ucast (drop_bit (8 * (k mod 4)) (al_reg_read32 (al_raid_load_table app_regs is_gflog table m) (base + 4 * (k div 4)))) = table ! k \<and>
    (\<forall>a. base \<le> a \<and> a < base + 256 \<or> al_reg_read32 (al_raid_load_table app_regs is_gflog table m) a = al_reg_read32 m a)"
proof -
  have eq: "al_raid_load_table app_regs is_gflog table m = load_table_loop base table 0 64 m"
    by (simp add: al_raid_load_table_def base_def off_gflog_table_def off_gfilog_table_def GF_SIZE_def)
  have "k div 4 < 64" using assms(1) by simp
  then have "al_reg_read32 (load_table_loop base table 0 64 m) (base + 4 * (k div 4)) = gf_word table (k div 4)"
    by (simp add: load_table_read)
  then show ?thesis using gf_word_byte [of "k mod 4" table "k div 4"] by (auto simp: eq load_table_read)
qed

theorem load_table_bytes_witness:
  "ucast (drop_bit 8 (al_reg_read32 (al_raid_load_table 0x5000 True gflog \<lparr>regs = \<lambda>_. 0, wlog = []\<rparr>) 0x5104)) = (0x32 :: u8)"
proof -
  have "gflog ! 5 = 0x32" by (simp add: gflog_def)
  then show ?thesis
    using load_table_bytes [where k = 5 and app_regs = "0x5000" and is_gflog = True and table = gflog
        and m = "\<lparr>regs = \<lambda>_. 0, wlog = []\<rparr>"] by simp
qed

end
