(* ===== verification/Desc_Ring.thy ===== *)
theory Desc_Ring
  imports Udma_Main
begin

text \<open>
  Clients of a UDMA queue: descriptor memory, submission of a group of descriptors as one step of the
  ring contract with a frame on memory, and the position of the completion side.  The RAID engine and
  the Ethernet data path are built on these notions.
\<close>

text \<open>Descriptor memory maps the address of each 16-byte descriptor to its value.\<close>

type_synonym desc_mem = "ptr \<Rightarrow> al_udma_desc"

subsection \<open>Descriptors taken from a ring\<close>

text \<open>
  \<open>ring_took s n s'\<close> for a queue with its descriptor memory: \<open>n\<close> more descriptors were handed out in ring
  order, only their memory was written, and nothing else of the queue changed except the submission
  index and ring id.
\<close>

definition ring_took :: "al_udma_q \<times> desc_mem \<Rightarrow> nat \<Rightarrow> al_udma_q \<times> desc_mem \<Rightarrow> bool" where
  "ring_took s n s' \<longleftrightarrow> udma_ring_ok (fst s') \<and>
     (\<exists>i r. fst s' = (fst s)\<lparr>next_desc_idx := i, desc_ring_id := r\<rparr>) \<and>
     (\<exists>ds. length ds = n \<and> udma_pend (fst s') = udma_pend (fst s) @ ds \<and> (\<forall>p. p \<notin> set ds \<longrightarrow> snd s' p = snd s p)) \<and>
     unat (al_udma_available_get (fst s')) + n = unat (al_udma_available_get (fst s)) \<and>
     (\<forall>p. udma_submitted (fst s) p \<longrightarrow> udma_submitted (fst s') (p + n))"

lemma ring_took_refl: "udma_ring_ok (fst s) \<Longrightarrow> ring_took s 0 s"
proof -
  have "\<exists>i r. fst s = (fst s)\<lparr>next_desc_idx := i, desc_ring_id := r\<rparr>"
    by (rule exI [of _ "next_desc_idx (fst s)"], rule exI [of _ "desc_ring_id (fst s)"]) simp
  then show "udma_ring_ok (fst s) \<Longrightarrow> ring_took s 0 s" unfolding ring_took_def by simp
qed

lemma ring_took_trans:
  assumes "ring_took s n s1" "ring_took s1 k s2"
  shows "ring_took s (n + k) s2"
proof -
  obtain ds where ds: "length ds = n" "udma_pend (fst s1) = udma_pend (fst s) @ ds" "\<forall>p. p \<notin> set ds \<longrightarrow> snd s1 p = snd s p"
    using assms(1) by (auto simp: ring_took_def)
  obtain ds' where ds': "length ds' = k" "udma_pend (fst s2) = udma_pend (fst s1) @ ds'" "\<forall>p. p \<notin> set ds' \<longrightarrow> snd s2 p = snd s1 p"
    using assms(2) by (auto simp: ring_took_def)
  have "\<exists>ds. length ds = n + k \<and> udma_pend (fst s2) = udma_pend (fst s) @ ds \<and> (\<forall>p. p \<notin> set ds \<longrightarrow> snd s2 p = snd s p)"
    using ds ds' by (intro exI [of _ "ds @ ds'"]) simp
  moreover have "\<exists>i r. fst s2 = (fst s)\<lparr>next_desc_idx := i, desc_ring_id := r\<rparr>"
    using assms unfolding ring_took_def by (elim conjE exE) (simp, blast)
  ultimately show ?thesis using assms unfolding ring_took_def by (simp add: add.assoc [symmetric])
qed

lemma ring_tookD:
  assumes "ring_took s n s'"
  shows "udma_ring_ok (fst s')" "q_size (fst s') = q_size (fst s)" "q_regs (fst s') = q_regs (fst s)"
    "unat (al_udma_available_get (fst s')) = unat (al_udma_available_get (fst s)) - n"
    "udma_submitted (fst s) p \<Longrightarrow> udma_submitted (fst s') (p + n)"
  using assms unfolding ring_took_def by auto

text \<open>A submission that writes the descriptor it got takes one descriptor.\<close>

lemma desc_and_ring_id:
  assumes "udma_ring_ok q" "0 < unat (al_udma_available_get q)"
    and "al_udma_desc_get q = (d, q1)" "al_udma_ring_id_get q1 = (r, q2)"
  shows "ring_took (q, mem) 1 (q2, mem(d := v))"
proof -
  note s = udma_ring.alloc_step [OF assms(1-3)] udma_ring.alloc_avail [OF assms(1-3)]
  obtain rid where q2: "q2 = q1\<lparr>desc_ring_id := rid\<rparr>"
  proof
    show "q2 = q1\<lparr>desc_ring_id := desc_ring_id q2\<rparr>"
      using assms(4) by (auto simp: al_udma_ring_id_get_def Let_def split: if_splits)
  qed
  have q1: "q1 = q\<lparr>next_desc_idx := next_desc_idx q1\<rparr>"
    using assms(3) by (auto simp: al_udma_desc_get_def Let_def)
  have "udma_ring_ok q2" "udma_pend q2 = udma_pend q1" "al_udma_available_get q2 = al_udma_available_get q1"
    using s by (auto simp: q2 udma_ring_ok_def udma_pend_def udma_in_flight_def al_udma_available_get_def)
  moreover have "q2 = q\<lparr>next_desc_idx := next_desc_idx q1, desc_ring_id := rid\<rparr>"
    unfolding q2 by (subst q1) simp
  moreover have "\<exists>ds. length ds = 1 \<and> udma_pend q1 = udma_pend q @ ds \<and> (\<forall>p. p \<notin> set ds \<longrightarrow> (mem(d := v)) p = mem p)"
    using s by (intro exI [of _ "[d]"]) simp
  moreover have "udma_submitted q2 (p + 1)" if "udma_submitted q p" for p
    using desc_ring_id_step [OF assms(1) that assms(3,4)] by blast
  ultimately show ?thesis using s assms(2) unfolding ring_took_def by auto
qed

lemma ring_took_obtain:
  assumes "ring_took (q, mem) n (q', mem')"
  obtains ds where "length ds = n" "udma_pend q' = udma_pend q @ ds" "\<forall>p. p \<notin> set ds \<longrightarrow> mem' p = mem p"
  using assms by (auto simp: ring_took_def)

text \<open>The slot of submission number \<open>p\<close>.\<close>

definition desc_slot :: "al_udma_q \<Rightarrow> nat \<Rightarrow> ptr" where
  "desc_slot q p = desc_base_ptr q + 16 * (p mod unat (q_size q))"

subsection \<open>Groups of descriptors\<close>

text \<open>
  One submission: take the next descriptor and its ring id and overwrite it with \<open>f rid old\<close>.  A client's
  loop over the buffers of a packet is a sequence of such submissions.
\<close>

definition desc_put :: "(u32 \<Rightarrow> al_udma_desc \<Rightarrow> al_udma_desc) \<Rightarrow> al_udma_q \<times> desc_mem \<Rightarrow> al_udma_q \<times> desc_mem" where
  "desc_put f = (\<lambda>(q, mem). let (d, q) = al_udma_desc_get q; (rid, q) = al_udma_ring_id_get q in (q, mem(d := f rid (mem d))))"

abbreviation desc_puts :: "(u32 \<Rightarrow> al_udma_desc \<Rightarrow> al_udma_desc) list \<Rightarrow> al_udma_q \<times> desc_mem \<Rightarrow> al_udma_q \<times> desc_mem" where
  "desc_puts \<equiv> fold desc_put"

lemma desc_put_took:
  assumes "udma_ring_ok (fst s)" "0 < unat (al_udma_available_get (fst s))"
  shows "ring_took s 1 (desc_put f s)"
  using desc_and_ring_id [OF assms prod.collapse [symmetric] prod.collapse [symmetric], of "snd s"]
  by (simp add: desc_put_def Let_def split_def)

lemma desc_puts_took:
  "udma_ring_ok (fst s) \<Longrightarrow> length fs \<le> unat (al_udma_available_get (fst s)) \<Longrightarrow> ring_took s (length fs) (desc_puts fs s)"
proof (induction fs arbitrary: s)
  case Nil
  then show ?case by (simp add: ring_took_refl)
next
  case (Cons f fs)
  have one: "ring_took s 1 (desc_put f s)" using Cons.prems by (intro desc_put_took) auto
  have "ring_took (desc_put f s) (length fs) (desc_puts fs (desc_put f s))"
    using ring_tookD [OF one] Cons.prems by (intro Cons.IH) auto
  from ring_took_trans [OF one this] show ?case by simp
qed

lemma desc_put_at:
  assumes "udma_ring_ok q" "udma_submitted q p"
  obtains q' where "desc_put f (q, mem) = (q', mem(desc_slot q p := f (lap_id (unat (q_size q)) p) (mem (desc_slot q p))))"
    "udma_ring_ok q'" "udma_submitted q' (Suc p)" "q_size q' = q_size q" "desc_base_ptr q' = desc_base_ptr q"
proof -
  obtain d q1 where d: "al_udma_desc_get q = (d, q1)" by fastforce
  obtain r q2 where r: "al_udma_ring_id_get q1 = (r, q2)" by fastforce
  note st = desc_ring_id_step [OF assms d r]
  have st2: "q_size q2 = q_size q \<and> desc_base_ptr q2 = desc_base_ptr q"
    using d r by (auto simp: al_udma_desc_get_def al_udma_ring_id_get_def Let_def split: if_splits)
  have "r = of_nat (unat r)" by simp
  also have "unat r = (1 + p div unat (q_size q)) mod 4" using st by blast
  finally have rid: "r = lap_id (unat (q_size q)) p" by (simp only: lap_id_def)
  show thesis
  proof (rule that)
    show "desc_put f (q, mem) = (q2, mem(desc_slot q p := f (lap_id (unat (q_size q)) p) (mem (desc_slot q p))))"
      using st by (simp add: desc_put_def d r rid [symmetric] desc_slot_def)
  qed (use st st2 in auto)
qed

text \<open>The descriptors of a group land in consecutive slots, each stamped with the ring id of its lap.\<close>

lemma desc_puts_content:
  assumes "udma_ring_ok q" "udma_submitted q p" "length fs < unat (q_size q)" "desc_puts fs (q, mem) = (q', mem')"
  shows "udma_submitted q' (p + length fs) \<and>
    (\<forall>j < length fs. mem' (desc_slot q (p + j)) = (fs ! j) (lap_id (unat (q_size q)) (p + j)) (mem (desc_slot q (p + j)))) \<and>
    (\<forall>a. (\<forall>j < length fs. a \<noteq> desc_slot q (p + j)) \<longrightarrow> mem' a = mem a)"
  using assms
proof (induction fs arbitrary: q p mem)
  case Nil
  then show ?case by simp
next
  case (Cons f fs)
  let ?sz = "unat (q_size q)" and ?d = "f (lap_id (unat (q_size q)) p) (mem (desc_slot q p))"
  obtain q1 where q1: "desc_put f (q, mem) = (q1, mem(desc_slot q p := ?d))"
    "udma_ring_ok q1" "udma_submitted q1 (Suc p)" "q_size q1 = q_size q" "desc_base_ptr q1 = desc_base_ptr q"
    using desc_put_at [OF Cons.prems(1,2), of f mem] by blast
  have sl: "desc_slot q1 = desc_slot q" by (simp add: desc_slot_def q1 fun_eq_iff)
  have rest: "desc_puts fs (q1, mem(desc_slot q p := ?d)) = (q', mem')" using Cons.prems(4) q1(1) by simp
  have len: "length fs < unat (q_size q1)" using Cons.prems(3) q1(4) by simp
  have ih: "udma_submitted q' (Suc p + length fs) \<and>
    (\<forall>j < length fs. mem' (desc_slot q (Suc p + j)) =
       (fs ! j) (lap_id ?sz (Suc p + j)) ((mem(desc_slot q p := ?d)) (desc_slot q (Suc p + j)))) \<and>
    (\<forall>a. (\<forall>j < length fs. a \<noteq> desc_slot q (Suc p + j)) \<longrightarrow> mem' a = (mem(desc_slot q p := ?d)) a)"
    using Cons.IH [OF q1(2,3) len rest] unfolding sl q1(4) .
  have fresh: "desc_slot q p \<noteq> desc_slot q (Suc p + j)" if "j < length fs" for j
    using mod_add_eq_imp_eq [of p 0 ?sz "Suc j"] that Cons.prems(3) by (auto simp: desc_slot_def)
  then have at_p: "mem' (desc_slot q p) = ?d" using ih by simp
  have at_j: "mem' (desc_slot q (Suc p + j)) = (fs ! j) (lap_id ?sz (Suc p + j)) (mem (desc_slot q (Suc p + j)))"
    if "j < length fs" for j
    using ih that fresh [OF that] by (metis fun_upd_other)
  have "mem' (desc_slot q (p + j)) = ((f # fs) ! j) (lap_id ?sz (p + j)) (mem (desc_slot q (p + j)))"
    if "j < length (f # fs)" for j
    using at_p at_j that by (cases j) simp_all
  moreover have "mem' a = mem a" if "\<forall>j < length (f # fs). a \<noteq> desc_slot q (p + j)" for a
    using ih that [rule_format, of 0] that [rule_format, of "Suc j" for j] by simp
  ultimately show ?case using ih by simp
qed

subsection \<open>Position of the completion side\<close>

lemma unat_offset:
  assumes "comp_ring_ok q" "k < unat (q_size q)"
  shows "unat (of_nat k * cdesc_size q :: u32) = k * unat (cdesc_size q)"
proof -
  have "k * unat (cdesc_size q) < 2 ^ 32"
    using assms by (meson comp_ring_ok_def le_less_trans less_imp_le mult_le_mono1)
  moreover have "k < 2 ^ 32" using assms q_size_bound [of q] by (simp add: comp_ring_ok_def)
  ultimately show ?thesis by (simp add: unat_word_ariths unsigned_of_nat take_bit_nat_eq_self)
qed

lemma wrap_offset:
  fixes b c n i :: nat
  assumes "0 < n" "n \<le> i"
  shows "int (b + i * c) - int (b + (n - 1) * c) - int c = int ((i - n) * c)"
proof -
  obtain r m where "i = n + r" "n = Suc m" using assms by (metis Suc_pred' le_Suc_ex)
  then show ?thesis by (simp add: algebra_simps)
qed

lemma cdesc_next_slot:
  assumes "comp_ring_ok q" "j < unat (q_size q)" "comp_slot q h \<noteq> NULL"
  shows "al_cdesc_next q (comp_slot q h) (of_nat j) = Some (comp_slot q (h + j))"
proof -
  let ?n = "unat (q_size q)" and ?c = "unat (cdesc_size q)" and ?b = "cdesc_base_ptr q"
  let ?i = "h mod ?n"
  have e: "end_cdesc_ptr q = ?b + (?n - 1) * ?c" and c: "0 < ?c" and n: "0 < ?n"
    using assms(1,2) by (simp_all add: comp_ring_ok_def word_less_nat_alt)
  have tmp: "comp_slot q h + unat (of_nat j * cdesc_size q :: u32) = ?b + (?i + j) * ?c"
    using unat_offset [OF assms(1,2)] by (simp add: comp_slot_def algebra_simps)
  have eq: "al_cdesc_next q (comp_slot q h) (of_nat j) =
      (if ?b + (?n - 1) * ?c < ?b + (?i + j) * ?c
       then Some (nat (int ?b + (int (?b + (?i + j) * ?c) - int (?b + (?n - 1) * ?c) - int ?c))) else Some (?b + (?i + j) * ?c))"
    unfolding al_cdesc_next_def Let_def tmp e using assms(3) by simp
  show ?thesis
  proof (cases "?i + j < ?n")
    case True
    then have "\<not> ?b + (?n - 1) * ?c < ?b + (?i + j) * ?c" by (simp only: add_less_cancel_left not_less) (intro mult_le_mono1, simp)
    moreover have "(h + j) mod ?n = ?i + j" using True by (metis mod_add_left_eq mod_less)
    ultimately show ?thesis by (simp only: eq if_False comp_slot_def [of q "h + j"])
  next
    case False
    have "(?n - 1) * ?c < (?i + j) * ?c" using False n c by simp
    moreover have "(h + j) mod ?n = ?i + j - ?n"
    proof -
      have "?i < ?n" using n by simp
      then have "?i + j - ?n < ?n" using False assms(2) by linarith
      moreover have "(h + j) mod ?n = (?i + j) mod ?n" by (simp only: mod_add_left_eq)
      ultimately show ?thesis using False by (simp only: le_mod_geq not_less mod_less)
    qed
    moreover have "int (?b + (?i + j) * ?c) - int (?b + (?n - 1) * ?c) - int ?c = int ((?i + j - ?n) * ?c)"
      using wrap_offset [of ?n "?i + j" ?b ?c] False n by simp
    ultimately show ?thesis by (simp only: eq add_less_cancel_left if_True of_nat_add [symmetric] nat_int comp_slot_def [of q "h + j"])
  qed
qed

text \<open>
  The completion side of a receive queue in step with its acknowledgements: the next completion is number \<open>h\<close>, no
  packet is half read.
\<close>

definition comp_synced :: "al_udma_q \<Rightarrow> nat \<Rightarrow> bool" where
  "comp_synced q h \<longleftrightarrow> comp_ring_ok q \<and> comp_at q h \<and> pkt_crnt_descs q = 0 \<and>
     unat (next_cdesc_idx q) = h mod unat (q_size q) \<and> cdesc_base_ptr q \<noteq> NULL"

lemma first_cdesc: "comp_synced q h \<Longrightarrow> al_udma_cdesc_idx_to_ptr q (next_cdesc_idx q) = comp_slot q h"
proof -
  assume a: "comp_synced q h"
  then have ok: "comp_ring_ok q" "unat (next_cdesc_idx q) < unat (q_size q)"
    by (simp_all add: comp_synced_def comp_ring_ok_def udma_ring_ok_def)
  have "(ucast (next_cdesc_idx q) :: u32) = of_nat (unat (next_cdesc_idx q))" by (simp add: word_unat_eq_iff unsigned_of_nat take_bit_nat_eq_self)
  then show ?thesis using unat_offset [OF ok] a
    by (simp add: al_udma_cdesc_idx_to_ptr_def comp_slot_def comp_synced_def)
qed

definition rx_packet :: "(ptr \<Rightarrow> u32) \<Rightarrow> al_udma_q \<Rightarrow> nat \<Rightarrow> nat \<Rightarrow> bool" where
  "rx_packet cmem q h j \<longleftrightarrow> (\<forall>i<j. \<not> comp_last cmem q (h + i)) \<and> comp_last cmem q (h + j) \<and>
     (\<forall>i\<le>j. comp_new cmem q (h + i)) \<and> Suc j \<le> udma_in_flight q"

lemma ack_at:
  assumes "comp_synced q h" "k \<le> udma_in_flight q"
  defines "q' \<equiv> al_udma_cdesc_ack (q\<lparr>comp_ring_id := lap_id (unat (q_size q)) (h + k), pkt_crnt_descs := 0,
      comp_head_ptr := comp_slot q (h + k)\<rparr>) (of_nat k)"
  shows "comp_synced q' (h + k) \<and> udma_pend q' = drop k (udma_pend q)"
proof -
  let ?q = "q\<lparr>comp_ring_id := lap_id (unat (q_size q)) (h + k), pkt_crnt_descs := 0, comp_head_ptr := comp_slot q (h + k)\<rparr>"
  have ok: "udma_ring_ok ?q" "udma_in_flight ?q = udma_in_flight q" "udma_pend ?q = udma_pend q" "udma_ring_ok q"
    using assms(1) by (simp_all add: comp_synced_def comp_ring_ok_def udma_ring_ok_def udma_pend_def udma_in_flight_def)
  note st = cdesc_ack_step [OF ok(1), of k, folded q'_def]
  obtain n where n: "unat (q_size q) = 2 ^ n" "size_mask q = mask n" "n \<le> 16" using ok(4) by (rule udma_ring_okE)
  have "(2::nat) ^ n \<le> 2 ^ 16" using n(3) by (intro power_increasing) auto
  then have uk: "unat (ucast (of_nat k :: u32) :: u16) = k"
    using assms(2) in_flight_less [OF ok(4)] n by (simp add: unsigned_ucast_eq unsigned_of_nat take_bit_nat_eq_self)
  have pr: "q_size q' = q_size q" "cdesc_size q' = cdesc_size q" "end_cdesc_ptr q' = end_cdesc_ptr q"
    "cdesc_base_ptr q' = cdesc_base_ptr q" "q_flags q' = q_flags q" "comp_head_ptr q' = comp_slot q (h + k)"
    "comp_ring_id q' = lap_id (unat (q_size q)) (h + k)" "pkt_crnt_descs q' = 0"
    by (simp_all add: q'_def al_udma_cdesc_ack_def Let_def)
  have idx: "unat (next_cdesc_idx q') = (h + k) mod unat (q_size q)"
    using assms(1) n by (simp add: q'_def al_udma_cdesc_ack_def Let_def unat_add_and_mask uk comp_synced_def mod_simps)
  have "comp_synced q' (h + k)"
    using assms(1) st idx ok(2) assms(2) by (simp add: comp_synced_def comp_ring_ok_def comp_at_def comp_slot_def pr)
  then show ?thesis using st ok assms(2) by simp
qed

text \<open>
  Fetching a packet: the count, the first descriptor, access to every descriptor of the packet, and the state
  after the acknowledgement.
\<close>

lemma packet_get_synced:
  assumes "comp_synced q h" "rx_packet cmem q h j"
  obtains q1 where "al_udma_cdesc_packet_get cmem q = Some (of_nat (Suc j), Some (comp_slot q h), q1)"
    "\<And>i. i \<le> j \<Longrightarrow> al_cdesc_next q1 (comp_slot q h) (of_nat i) = Some (comp_slot q (h + i))"
    "comp_synced (al_udma_cdesc_ack q1 (of_nat (Suc j))) (h + Suc j)"
    "udma_pend (al_udma_cdesc_ack q1 (of_nat (Suc j))) = drop (Suc j) (udma_pend q)"
    "unat (of_nat (Suc j) :: u32) = Suc j"
    "q1 = q\<lparr>comp_ring_id := lap_id (unat (q_size q)) (h + Suc j), pkt_crnt_descs := 0, comp_head_ptr := comp_slot q (h + Suc j)\<rparr>"
proof -
  have syn: "comp_ring_ok q" "comp_at q h" "pkt_crnt_descs q = 0" "udma_ring_ok q"
    using assms(1) by (simp_all add: comp_synced_def comp_ring_ok_def)
  define q1 where "q1 = q\<lparr>comp_ring_id := lap_id (unat (q_size q)) (h + Suc j), pkt_crnt_descs := 0,
      comp_head_ptr := comp_slot q (h + Suc j)\<rparr>"
  have lt: "Suc j < unat (q_size q)" using assms(2) in_flight_less [OF syn(4)] by (simp add: rx_packet_def)
  have nz: "comp_slot q h \<noteq> NULL" using assms(1) by (simp add: comp_synced_def comp_slot_def)
  show thesis
  proof (rule that)
    show "al_udma_cdesc_packet_get cmem q = Some (of_nat (Suc j), Some (comp_slot q h), q1)"
      using packet_get_at [OF syn(1,2), of j cmem] assms(2) lt first_cdesc [OF assms(1)] syn(3)
      by (simp add: rx_packet_def q1_def del: of_nat_Suc)
    show "al_cdesc_next q1 (comp_slot q h) (of_nat i) = Some (comp_slot q (h + i))" if "i \<le> j" for i
      using cdesc_next_slot [of q1 i h] that lt nz syn(1) by (simp add: q1_def)
    show "comp_synced (al_udma_cdesc_ack q1 (of_nat (Suc j))) (h + Suc j)"
      "udma_pend (al_udma_cdesc_ack q1 (of_nat (Suc j))) = drop (Suc j) (udma_pend q)"
      using ack_at [OF assms(1), of "Suc j"] assms(2) unfolding q1_def by (simp_all add: rx_packet_def)
    show "unat (of_nat (Suc j) :: u32) = Suc j"
      using lt q_size_bound [OF syn(4)] by (simp only: unsigned_of_nat) (simp add: take_bit_nat_eq_self)
  qed (rule q1_def)
qed

lemma packet_get_none:
  assumes "comp_synced q h" "\<not> comp_new cmem q h"
  shows "al_udma_cdesc_packet_get cmem q = Some (0, None, q)"
  using assms new_cdesc_at [of q h]
  by (simp add: al_udma_cdesc_packet_get_def comp_at_def comp_ring_ok_def comp_synced_def)

end
