(* ===== verification/Raid.thy ===== *)
theory Raid
  imports Ssm_Dma Gf_Tables Desc_Ring
begin

text \<open>
  The RAID engine (\<open>al_hal_ssm_raid.c\<close>, \<open>al_hal_ssm_raid.h\<close>): operation table, transmit and receive
  descriptors of a transaction, preparation, doorbell and completion.  Descriptor memory maps the
  address of each 16-byte descriptor to its value; a word that the code does not write keeps its old content.
  An array of blocks or buffers with its element count is the list of its elements
  together with the count; the loops run over the first \<open>count\<close> elements.
\<close>

subsection \<open>Constants and data\<close>

datatype al_raid_op =
  AL_RAID_OP_MEM_CPY | AL_RAID_OP_MEM_SET | AL_RAID_OP_MEM_SCRUB | AL_RAID_OP_MEM_CMP | AL_RAID_OP_NOP
| AL_RAID_OP_P_CALC | AL_RAID_OP_Q_CALC | AL_RAID_OP_PQ_CALC | AL_RAID_OP_P_VAL | AL_RAID_OP_Q_VAL | AL_RAID_OP_PQ_VAL

definition AL_SSM_REV_ID_REV2 :: u8 where "AL_SSM_REV_ID_REV2 = 2"
definition RAID_REGS_OFF_IN_APP_REGS_REV2 :: nat where "RAID_REGS_OFF_IN_APP_REGS_REV2 = 0x5000"

definition AL_RAID_RX_DESC_META :: u32 where "AL_RAID_RX_DESC_META = push_bit 30 1"
definition AL_RAID_TX_DESC_META_FIRST_SOURCE :: u32 where "AL_RAID_TX_DESC_META_FIRST_SOURCE = push_bit 19 1"
definition AL_RAID_TX_DESC_META_LAST_SOURCE :: u32 where "AL_RAID_TX_DESC_META_LAST_SOURCE = push_bit 18 1"
definition AL_RAID_TX_DESC_META_P_ENABLE :: u32 where "AL_RAID_TX_DESC_META_P_ENABLE = push_bit 17 1"

definition AL_RAID_OPCODE :: "u32 \<Rightarrow> u32" where
  "AL_RAID_OPCODE x = push_bit 20 x"

definition AL_RAID_P_VAL_ERROR :: u32 where "AL_RAID_P_VAL_ERROR = AL_BIT 0"
definition AL_RAID_Q_VAL_ERROR :: u32 where "AL_RAID_Q_VAL_ERROR = AL_BIT 1"
definition AL_RAID_BUS_PARITY_ERROR :: u32 where "AL_RAID_BUS_PARITY_ERROR = AL_BIT 2"
definition AL_RAID_SOURCE_LEN_ERROR :: u32 where "AL_RAID_SOURCE_LEN_ERROR = AL_BIT 3"
definition AL_RAID_CMD_DECODE_ERROR :: u32 where "AL_RAID_CMD_DECODE_ERROR = AL_BIT 4"
definition AL_RAID_INTERNAL_ERROR :: u32 where "AL_RAID_INTERNAL_ERROR = AL_BIT 5"

definition RX_COMP_STATUS_MASK :: u32 where
  "RX_COMP_STATUS_MASK =
     AL_RAID_P_VAL_ERROR OR AL_RAID_Q_VAL_ERROR OR AL_RAID_BUS_PARITY_ERROR OR AL_RAID_SOURCE_LEN_ERROR OR
     AL_RAID_CMD_DECODE_ERROR OR AL_RAID_INTERNAL_ERROR"

record al_op_attr =
  opcode :: u32
  meta_descs :: u32
  have_g_coef :: bool
  have_p_coef :: bool

fun op_attr_table :: "al_raid_op \<Rightarrow> al_op_attr" where
  "op_attr_table AL_RAID_OP_MEM_CPY = \<lparr>opcode = AL_RAID_OPCODE 0x0, meta_descs = 0, have_g_coef = False, have_p_coef = False\<rparr>"
| "op_attr_table AL_RAID_OP_MEM_SET = \<lparr>opcode = AL_RAID_OPCODE 0x1, meta_descs = 1, have_g_coef = False, have_p_coef = False\<rparr>"
| "op_attr_table AL_RAID_OP_MEM_SCRUB = \<lparr>opcode = AL_RAID_OPCODE 0x2, meta_descs = 0, have_g_coef = False, have_p_coef = False\<rparr>"
| "op_attr_table AL_RAID_OP_MEM_CMP = \<lparr>opcode = AL_RAID_OPCODE 0x3, meta_descs = 4, have_g_coef = False, have_p_coef = False\<rparr>"
| "op_attr_table AL_RAID_OP_NOP = \<lparr>opcode = AL_RAID_OPCODE 0x8, meta_descs = 1, have_g_coef = False, have_p_coef = False\<rparr>"
| "op_attr_table AL_RAID_OP_P_CALC = \<lparr>opcode = AL_RAID_OPCODE 0x9, meta_descs = 0, have_g_coef = False, have_p_coef = True\<rparr>"
| "op_attr_table AL_RAID_OP_Q_CALC = \<lparr>opcode = AL_RAID_OPCODE 0xa, meta_descs = 0, have_g_coef = True, have_p_coef = False\<rparr>"
| "op_attr_table AL_RAID_OP_PQ_CALC = \<lparr>opcode = AL_RAID_OPCODE 0xb, meta_descs = 0, have_g_coef = True, have_p_coef = True\<rparr>"
| "op_attr_table AL_RAID_OP_P_VAL = \<lparr>opcode = AL_RAID_OPCODE 0xd, meta_descs = 0, have_g_coef = False, have_p_coef = True\<rparr>"
| "op_attr_table AL_RAID_OP_Q_VAL = \<lparr>opcode = AL_RAID_OPCODE 0xe, meta_descs = 0, have_g_coef = True, have_p_coef = False\<rparr>"
| "op_attr_table AL_RAID_OP_PQ_VAL = \<lparr>opcode = AL_RAID_OPCODE 0xf, meta_descs = 0, have_g_coef = True, have_p_coef = True\<rparr>"

record al_raid_transaction =
  xop :: al_raid_op
  xflags :: u32
  srcs_blocks :: "al_block list"
  num_of_srcs :: u32
  total_src_bufs :: u32
  dsts_blocks :: "al_block list"
  num_of_dsts :: u32
  total_dst_bufs :: u32
  tx_descs_count :: u32
  coefs :: "u8 list"
  q_index :: u8
  mem_set_data0 :: u32
  mem_set_data1 :: u32
  mem_set_flags :: u32

definition block_bufs :: "al_block \<Rightarrow> al_buf list" where
  "block_bufs b = take (unat (blk_num b)) (bufs b)"

definition xaction_srcs :: "al_raid_transaction \<Rightarrow> al_block list" where
  "xaction_srcs x = take (unat (num_of_srcs x)) (srcs_blocks x)"

definition xaction_dsts :: "al_raid_transaction \<Rightarrow> al_block list" where
  "xaction_dsts x = take (unat (num_of_dsts x)) (dsts_blocks x)"

subsection \<open>Receive descriptors\<close>

definition al_raid_xaction_rx_descs_count :: "al_raid_transaction \<Rightarrow> u32" where
  "al_raid_xaction_rx_descs_count x = (if total_dst_bufs x \<noteq> 0 then total_dst_bufs x else 1)"

definition al_raid_xaction_tx_descs_count :: "al_raid_transaction \<Rightarrow> u32 \<Rightarrow> u32" where
  "al_raid_xaction_tx_descs_count x meta =
     (let count = total_src_bufs x + meta in if count \<noteq> 0 then count else 1)"

text \<open>One receive descriptor: the body of the inner loop.\<close>

definition rx_desc_put :: "u32 \<Rightarrow> al_block \<Rightarrow> al_buf \<Rightarrow> al_udma_q \<times> desc_mem \<Rightarrow> al_udma_q \<times> desc_mem" where
  "rx_desc_put flags block buf = (\<lambda>(q, mem).
     let tgt = push_bit AL_UDMA_DESC_TGTID_SHIFT (ucast (tgtid block)) :: u64;
         flags_len = flags;
         (rx_desc, q) = al_udma_desc_get q;
         (rid, q) = al_udma_ring_id_get q;
         ring_id = push_bit AL_S2M_DESC_RING_ID_SHIFT rid;
         flags_len = flags_len OR ring_id;
         flags_len = flags_len OR (buf_len buf AND AL_S2M_DESC_LEN_MASK)
     in (q, mem(rx_desc := (mem rx_desc)\<lparr>len_ctrl := flags_len, buf_ptr := buf_addr buf OR tgt\<rparr>)))"

fun rx_bufs_loop :: "u32 \<Rightarrow> al_block \<Rightarrow> al_buf list \<Rightarrow> al_udma_q \<times> desc_mem \<Rightarrow> al_udma_q \<times> desc_mem" where
  "rx_bufs_loop flags block [] s = s"
| "rx_bufs_loop flags block (buf # bs) s = rx_bufs_loop flags block bs (rx_desc_put flags block buf s)"

fun rx_blocks_loop :: "u32 \<Rightarrow> al_block list \<Rightarrow> al_udma_q \<times> desc_mem \<Rightarrow> al_udma_q \<times> desc_mem" where
  "rx_blocks_loop flags [] s = s"
| "rx_blocks_loop flags (block # bls) s = rx_blocks_loop flags bls (rx_bufs_loop flags block (block_bufs block) s)"

definition al_raid_set_rx_descs :: "al_udma_q \<times> desc_mem \<Rightarrow> al_raid_transaction \<Rightarrow> al_udma_q \<times> desc_mem" where
  "al_raid_set_rx_descs s x =
     (let flags = (if xflags x AND AL_SSM_INTERRUPT \<noteq> 0 then AL_S2M_DESC_INT_EN else 0);
          flags = (if xflags x AND AL_SSM_DEST_NO_SNOOP \<noteq> 0 then flags OR AL_S2M_DESC_NO_SNOOP_H else flags)
      in if total_dst_bufs x = 0 then
           let (q, mem) = s;
               (rx_desc, q) = al_udma_desc_get q;
               (rid, q) = al_udma_ring_id_get q;
               flags = flags OR push_bit AL_S2M_DESC_RING_ID_SHIFT rid;
               flags = flags OR AL_RAID_RX_DESC_META
           in (q, mem(rx_desc := (mem rx_desc)\<lparr>len_ctrl := flags\<rparr>))
         else rx_blocks_loop flags (xaction_dsts x) s)"

text \<open>
  The total length: the outer loop never advances \<open>block\<close>, so every iteration adds the buffers of the
  first destination block.
\<close>

definition al_raid_rx_get_len :: "al_raid_transaction \<Rightarrow> u32" where
  "al_raid_rx_get_len x =
     (case dsts_blocks x of
        [] \<Rightarrow> 0
      | block # _ \<Rightarrow>
          fold (\<lambda>blk_idx total_len. fold (\<lambda>buf total_len. total_len + buf_len buf) (block_bufs block) total_len)
            [0..<unat (num_of_dsts x)] 0)"

subsection \<open>Transmit descriptors\<close>

text \<open>The loop over the metadata descriptors; \<open>flags\<close> is FIRST for the first one and zero afterwards.\<close>

definition tx_meta_put :: "al_raid_transaction \<Rightarrow> u32 \<Rightarrow> al_op_attr \<Rightarrow> u32 \<Rightarrow> u32 \<Rightarrow> al_udma_q \<times> desc_mem \<Rightarrow> al_udma_q \<times> desc_mem" where
  "tx_meta_put x meta op_attr blk_idx flags = (\<lambda>(q, mem).
     let flags_len = flags;
         (tx_desc, q) = al_udma_desc_get q;
         (rid, q) = al_udma_ring_id_get q;
         ring_id = push_bit AL_M2S_DESC_RING_ID_SHIFT rid;
         flags_len = flags_len OR ring_id;
         flags_len = flags_len OR AL_M2S_DESC_META_DATA;
         flags_len = (if blk_idx = meta - 1 \<and> num_of_srcs x = 0 then
                        let flags_len = flags_len OR AL_M2S_DESC_LAST
                        in if xflags x AND AL_SSM_BARRIER \<noteq> 0 then flags_len OR AL_M2S_DESC_DMB else flags_len
                      else flags_len);
         d = mem tx_desc;
         d = (if blk_idx = 0 then
                let attr = opcode op_attr;
                    attr = (if xop x = AL_RAID_OP_MEM_SET then attr OR mem_set_flags x else attr)
                in d\<lparr>meta_ctrl := attr\<rparr>
              else d);
         (flags_len, d) =
           (if xop x = AL_RAID_OP_MEM_SET then
              let total_len = al_raid_rx_get_len x
              in (flags_len OR (total_len AND AL_M2S_DESC_LEN_MASK),
                  d\<lparr>buf_ptr := tx_meta_ptr (mem_set_data1 x) (mem_set_data0 x)\<rparr>)
            else (flags_len, d))
     in (q, mem(tx_desc := d\<lparr>len_ctrl := flags_len\<rparr>)))"

fun tx_meta_loop :: "al_raid_transaction \<Rightarrow> u32 \<Rightarrow> al_op_attr \<Rightarrow> nat \<Rightarrow> nat \<Rightarrow> u32 \<Rightarrow> al_udma_q \<times> desc_mem \<Rightarrow> u32 \<times> (al_udma_q \<times> desc_mem)" where
  "tx_meta_loop x meta op_attr blk_idx 0 flags s = (flags, s)"
| "tx_meta_loop x meta op_attr blk_idx (Suc n) flags s =
     tx_meta_loop x meta op_attr (Suc blk_idx) n 0 (tx_meta_put x meta op_attr (of_nat blk_idx) flags s)"

text \<open>One source buffer; \<open>last_blk\<close> says that its block is the last one.\<close>

definition tx_buf_put :: "u32 \<Rightarrow> bool \<Rightarrow> al_block \<Rightarrow> nat \<Rightarrow> al_buf \<Rightarrow> u32 \<Rightarrow> al_udma_q \<times> desc_mem \<Rightarrow> al_udma_q \<times> desc_mem" where
  "tx_buf_put attr last_blk block buf_idx buf flags = (\<lambda>(q, mem).
     let tgt = push_bit AL_UDMA_DESC_TGTID_SHIFT (ucast (tgtid block)) :: u64;
         flags_len = flags;
         (tx_desc, q) = al_udma_desc_get q;
         (rid, q) = al_udma_ring_id_get q;
         ring_id = push_bit AL_M2S_DESC_RING_ID_SHIFT rid;
         flags_len = flags_len OR ring_id;
         flags_len = (if last_blk \<and> of_nat buf_idx = blk_num block - 1 then flags_len OR AL_M2S_DESC_LAST else flags_len);
         flags_len = flags_len OR (buf_len buf AND AL_M2S_DESC_LEN_MASK);
         d = mem tx_desc;
         (flags_len, d) = (if buf_idx = 0 then (flags_len, d\<lparr>meta_ctrl := attr\<rparr>)
                           else (flags_len OR AL_M2S_DESC_CONCAT, d))
     in (q, mem(tx_desc := d\<lparr>len_ctrl := flags_len, buf_ptr := buf_addr buf OR tgt\<rparr>)))"

fun tx_bufs_loop :: "u32 \<Rightarrow> bool \<Rightarrow> al_block \<Rightarrow> nat \<Rightarrow> al_buf list \<Rightarrow> u32 \<Rightarrow> al_udma_q \<times> desc_mem \<Rightarrow> u32 \<times> (al_udma_q \<times> desc_mem)" where
  "tx_bufs_loop attr last_blk block buf_idx [] flags s = (flags, s)"
| "tx_bufs_loop attr last_blk block buf_idx (buf # bs) flags s =
     tx_bufs_loop attr last_blk block (Suc buf_idx) bs (flags AND AL_M2S_DESC_NO_SNOOP_H)
       (tx_buf_put attr last_blk block buf_idx buf flags s)"

definition tx_block_attr :: "al_raid_transaction \<Rightarrow> al_op_attr \<Rightarrow> nat \<Rightarrow> u32" where
  "tx_block_attr x op_attr blk_idx =
     (let attr = AL_REG_MASK_CLEAR (opcode op_attr) 0xFFFFF;
          attr = (if have_g_coef op_attr then attr OR (ucast (coefs x ! blk_idx) AND 0xFF) else attr);
          attr = (if blk_idx = 0 then attr OR AL_RAID_TX_DESC_META_FIRST_SOURCE else attr);
          attr = (if of_nat blk_idx = num_of_srcs x - 1 then attr OR AL_RAID_TX_DESC_META_LAST_SOURCE else attr)
      in if have_p_coef op_attr \<and> (xop x \<noteq> AL_RAID_OP_PQ_VAL \<or> blk_idx \<noteq> unat (q_index x))
         then attr OR AL_RAID_TX_DESC_META_P_ENABLE else attr)"

fun tx_blocks_loop :: "al_raid_transaction \<Rightarrow> al_op_attr \<Rightarrow> nat \<Rightarrow> al_block list \<Rightarrow> u32 \<Rightarrow> al_udma_q \<times> desc_mem \<Rightarrow> al_udma_q \<times> desc_mem" where
  "tx_blocks_loop x op_attr blk_idx [] flags s = s"
| "tx_blocks_loop x op_attr blk_idx (block # bls) flags s =
     (let (flags, s) = tx_bufs_loop (tx_block_attr x op_attr blk_idx) (of_nat blk_idx = num_of_srcs x - 1)
                         block 0 (block_bufs block) flags s
      in tx_blocks_loop x op_attr (Suc blk_idx) bls flags s)"

definition al_raid_set_tx_descs :: "al_udma_q \<times> desc_mem \<Rightarrow> al_raid_transaction \<Rightarrow> u32 \<Rightarrow> al_op_attr \<Rightarrow> al_udma_q \<times> desc_mem" where
  "al_raid_set_tx_descs s x meta op_attr =
     (let (flags, s) = tx_meta_loop x meta op_attr 0 (unat meta) AL_M2S_DESC_FIRST s;
          flags = (if xflags x AND AL_SSM_SRC_NO_SNOOP \<noteq> 0 then flags OR AL_M2S_DESC_NO_SNOOP_H else flags);
          flags = (if xflags x AND AL_SSM_BARRIER \<noteq> 0 then flags OR AL_M2S_DESC_DMB else flags)
      in tx_blocks_loop x op_attr 0 (xaction_srcs x) flags s)"

subsection \<open>API\<close>

definition al_raid_init :: "al_ssm_dma \<Rightarrow> ptr \<Rightarrow> mmio \<Rightarrow> mmio" where
  "al_raid_init raid_dma app_regs m =
     (let app_regs = (if ssm_rev_id raid_dma = AL_SSM_REV_ID_REV2 then app_regs + RAID_REGS_OFF_IN_APP_REGS_REV2 else app_regs);
          m = al_raid_load_table app_regs True gflog m
      in al_raid_load_table app_regs False gfilog m)"

text \<open>
  The state of the preparation: the DMA record, descriptor memory and registers.  \<open>crhp\<close> is the value
  of the transmit completion head register, read only when the transmit ring looks full.
\<close>

definition al_raid_dma_prepare ::
  "u32 \<Rightarrow> al_ssm_dma \<Rightarrow> u32 \<Rightarrow> al_raid_transaction \<Rightarrow> desc_mem \<Rightarrow> mmio \<Rightarrow>
     (rc \<times> al_ssm_dma \<times> al_raid_transaction \<times> desc_mem \<times> mmio) option" where
  "al_raid_dma_prepare crhp s i x mem m =
     do {
       al_assert (q_types s ! unat i = AL_RAID_Q);
       let op_attr = op_attr_table (xop x);
       let rx_descs = al_raid_xaction_rx_descs_count x;
       let (rc, rx_h) = al_udma_q_handle_get (rx_udma (m2m_udma s)) i;
       al_assert (rx_descs \<le> ssm_max_dst_descs s);
       al_assert (rc = RcOk);
       rx_udma_q \<leftarrow> rx_h;
       if al_udma_available_get rx_udma_q < rx_descs then Some (RcErr ENOSPC, s, x, mem, m)
       else do {
         let meta = meta_descs op_attr;
         let tx_descs = al_raid_xaction_tx_descs_count x meta;
         al_assert (tx_descs \<le> ssm_max_src_descs s);
         let (rc, tx_h) = al_udma_q_handle_get (tx_udma (m2m_udma s)) i;
         al_assert (rc = RcOk);
         tx_udma_q \<leftarrow> tx_h;
         let tx_udma_q =
           (if al_udma_available_get tx_udma_q < tx_descs then
              let (cdesc_count, _, tx_udma_q) = al_udma_cdesc_get_all tx_udma_q crhp False
              in if cdesc_count \<noteq> 0 then al_udma_cdesc_ack tx_udma_q cdesc_count else tx_udma_q
            else tx_udma_q);
         let s = tx_q_update i tx_udma_q s;
         if al_udma_available_get tx_udma_q < tx_descs then Some (RcErr ENOSPC, s, x, mem, m)
         else do {
           let (rx_udma_q, mem) = al_raid_set_rx_descs (rx_udma_q, mem) x;
           m \<leftarrow> al_udma_desc_action_add rx_udma_q rx_descs m;
           let (tx_udma_q, mem) = al_raid_set_tx_descs (tx_udma_q, mem) x meta op_attr;
           let s = tx_q_update i tx_udma_q (rx_q_update i rx_udma_q s);
           Some (RcOk, s, x\<lparr>tx_descs_count := tx_descs\<rparr>, mem, m) } } }"

definition al_raid_dma_action :: "al_ssm_dma \<Rightarrow> u32 \<Rightarrow> u32 \<Rightarrow> mmio \<Rightarrow> mmio option" where
  "al_raid_dma_action s i tx_descs m = al_ssm_dma_action s i tx_descs m"

text \<open>
  \<open>cmem\<close> is the receive completion ring.  The result is the return value (a packet was found), the status
  stored through the pointer, and the updated DMA record.
\<close>

definition al_raid_dma_completion :: "(ptr \<Rightarrow> u32) \<Rightarrow> al_ssm_dma \<Rightarrow> u32 \<Rightarrow> (bool \<times> u32 option \<times> al_ssm_dma) option" where
  "al_raid_dma_completion cmem s i =
     do {
       let (rc, rx_h) = al_udma_q_handle_get (rx_udma (m2m_udma s)) i;
       al_assert (rc = RcOk);
       rx_udma_q \<leftarrow> rx_h;
       (cdesc_count, cdesc, rx_udma_q) \<leftarrow> al_udma_cdesc_packet_get cmem rx_udma_q;
       if cdesc_count = 0 then Some (False, None, rx_q_update i rx_udma_q s)
       else do {
         cdesc \<leftarrow> cdesc;
         cdesc \<leftarrow> (if 1 < cdesc_count then al_cdesc_next rx_udma_q cdesc (cdesc_count - 1) else Some cdesc);
         let comp_status = cmem cdesc AND RX_COMP_STATUS_MASK;
         let rx_udma_q = al_udma_cdesc_ack rx_udma_q cdesc_count;
         Some (True, Some comp_status, rx_q_update i rx_udma_q s) } }"

end
