(* ===== verification/Raid_Props.thy ===== *)
theory Raid_Props
  imports Raid
begin

text \<open>
  Correctness of the RAID engine: what a preparation takes from the two rings and writes to descriptor memory, its
  error outcome, the contents of the transmit descriptors, the completion, and the length of a fill.
  The central notion is \<open>ring_took\<close>, a step of the ring contract together with a frame on descriptor memory; every loop
  of the preparation is a composition of such steps.
\<close>

text \<open>Each body of the descriptor loops takes one descriptor.\<close>

lemma puts_take_one:
  assumes "udma_ring_ok (fst s)" "0 < unat (al_udma_available_get (fst s))"
  shows "ring_took s 1 (rx_desc_put f b buf s)"
    "ring_took s 1 (tx_meta_put x meta a i f s)"
    "ring_took s 1 (tx_buf_put attr l b j buf f s)"
  using desc_and_ring_id [OF assms prod.collapse [symmetric] prod.collapse [symmetric], of "snd s"]
  by (simp_all add: rx_desc_put_def tx_meta_put_def tx_buf_put_def Let_def split_def)

lemma rx_bufs_take:
  "udma_ring_ok (fst s) \<Longrightarrow> length bs \<le> unat (al_udma_available_get (fst s)) \<Longrightarrow>
     ring_took s (length bs) (rx_bufs_loop f b bs s)"
proof (induction bs arbitrary: s)
  case Nil
  then show ?case by (simp add: ring_took_refl)
next
  case (Cons buf bs)
  let ?s = "rx_desc_put f b buf s"
  have one: "ring_took s 1 ?s"
    using puts_take_one(1) [of s f b buf] Cons.prems by simp
  have "ring_took ?s (length bs) (rx_bufs_loop f b bs ?s)"
    using ring_tookD [OF one] Cons.prems by (intro Cons.IH) auto
  from ring_took_trans [OF one this] show ?case by simp
qed

definition total_bufs :: "al_block list \<Rightarrow> nat" where
  "total_bufs bls = sum_list (map (\<lambda>b. length (block_bufs b)) bls)"

lemma total_bufs_simps [simp]: "total_bufs [] = 0" "total_bufs (b # bls) = length (block_bufs b) + total_bufs bls"
  by (simp_all add: total_bufs_def)

lemma rx_blocks_take:
  "udma_ring_ok (fst s) \<Longrightarrow> total_bufs bls \<le> unat (al_udma_available_get (fst s)) \<Longrightarrow>
     ring_took s (total_bufs bls) (rx_blocks_loop f bls s)"
proof (induction bls arbitrary: s)
  case Nil
  then show ?case by (simp add: ring_took_refl)
next
  case (Cons b bls)
  let ?s = "rx_bufs_loop f b (block_bufs b) s"
  have one: "ring_took s (length (block_bufs b)) ?s"
    using Cons.prems by (intro rx_bufs_take) auto
  have "ring_took ?s (total_bufs bls) (rx_blocks_loop f bls ?s)"
    using ring_tookD [OF one] Cons.prems by (intro Cons.IH) auto
  from ring_took_trans [OF one this] show ?case by simp
qed

lemma tx_meta_take:
  "udma_ring_ok (fst s) \<Longrightarrow> n \<le> unat (al_udma_available_get (fst s)) \<Longrightarrow>
     ring_took s n (snd (tx_meta_loop x meta a i n f s))"
proof (induction n arbitrary: s i f)
  case 0
  then show ?case by (simp add: ring_took_refl)
next
  case (Suc n)
  let ?s = "tx_meta_put x meta a (of_nat i) f s"
  have one: "ring_took s 1 ?s"
    using puts_take_one(2) [of s x meta a "of_nat i" f] Suc.prems by simp
  have "ring_took ?s n (snd (tx_meta_loop x meta a (Suc i) n 0 ?s))"
    using ring_tookD [OF one] Suc.prems by (intro Suc.IH) auto
  from ring_took_trans [OF one this] show ?case by simp
qed

lemma tx_bufs_take:
  "udma_ring_ok (fst s) \<Longrightarrow> length bs \<le> unat (al_udma_available_get (fst s)) \<Longrightarrow>
     ring_took s (length bs) (snd (tx_bufs_loop attr l b j bs f s))"
proof (induction bs arbitrary: s j f)
  case Nil
  then show ?case by (simp add: ring_took_refl)
next
  case (Cons buf bs)
  let ?s = "tx_buf_put attr l b j buf f s"
  have one: "ring_took s 1 ?s"
    using puts_take_one(3) [of s attr l b j buf f] Cons.prems by simp
  have "ring_took ?s (length bs) (snd (tx_bufs_loop attr l b (Suc j) bs (f AND AL_M2S_DESC_NO_SNOOP_H) ?s))"
    using ring_tookD [OF one] Cons.prems by (intro Cons.IH) auto
  from ring_took_trans [OF one this] show ?case by simp
qed

lemma tx_blocks_take:
  "udma_ring_ok (fst s) \<Longrightarrow> total_bufs bls \<le> unat (al_udma_available_get (fst s)) \<Longrightarrow>
     ring_took s (total_bufs bls) (tx_blocks_loop x a i bls f s)"
proof (induction bls arbitrary: s i f)
  case Nil
  then show ?case by (simp add: ring_took_refl)
next
  case (Cons b bls)
  obtain f1 s1 where l: "tx_bufs_loop (tx_block_attr x a i) (of_nat i = num_of_srcs x - 1) b 0 (block_bufs b) f s = (f1, s1)"
    by (metis surj_pair)
  have one: "ring_took s (length (block_bufs b)) s1"
    using tx_bufs_take [of s "block_bufs b" "tx_block_attr x a i" "of_nat i = num_of_srcs x - 1" b 0 f] Cons.prems l by simp
  have "ring_took s1 (total_bufs bls) (tx_blocks_loop x a (Suc i) bls f1 s1)"
    using ring_tookD [OF one] Cons.prems by (intro Cons.IH) auto
  from ring_took_trans [OF one this] show ?case by (simp add: l)
qed

subsection \<open>Preparation of a transaction\<close>

text \<open>
  A well-formed transaction: the buffer counts are those of the blocks, at least one transmit
  descriptor is needed.
\<close>

definition xaction_ok :: "al_raid_transaction \<Rightarrow> bool" where
  "xaction_ok x \<longleftrightarrow> unat (total_dst_bufs x) = total_bufs (xaction_dsts x) \<and>
     unat (total_src_bufs x) = total_bufs (xaction_srcs x) \<and>
     0 < total_bufs (xaction_srcs x) + unat (meta_descs (op_attr_table (xop x)))"

definition xaction_tx_descs :: "al_raid_transaction \<Rightarrow> nat" where
  "xaction_tx_descs x = total_bufs (xaction_srcs x) + unat (meta_descs (op_attr_table (xop x)))"

definition xaction_rx_descs :: "al_raid_transaction \<Rightarrow> nat" where
  "xaction_rx_descs x = max 1 (total_bufs (xaction_dsts x))"

text \<open>A DMA whose queue \<open>i\<close> is usable for RAID transactions.\<close>

definition raid_q_ok :: "al_ssm_dma \<Rightarrow> u32 \<Rightarrow> bool" where
  "raid_q_ok s i \<longleftrightarrow> q_types s ! unat i = AL_RAID_Q \<and>
     i < ucast (num_of_queues (tx_udma (m2m_udma s))) \<and> i < ucast (num_of_queues (rx_udma (m2m_udma s))) \<and>
     unat i < length (udma_q (tx_udma (m2m_udma s))) \<and> unat i < length (udma_q (rx_udma (m2m_udma s))) \<and>
     udma_ring_ok (udma_q (tx_udma (m2m_udma s)) ! unat i) \<and> udma_ring_ok (udma_q (rx_udma (m2m_udma s)) ! unat i)"

abbreviation tx_queue :: "al_ssm_dma \<Rightarrow> u32 \<Rightarrow> al_udma_q" where
  "tx_queue s i \<equiv> udma_q (tx_udma (m2m_udma s)) ! unat i"

abbreviation rx_queue :: "al_ssm_dma \<Rightarrow> u32 \<Rightarrow> al_udma_q" where
  "rx_queue s i \<equiv> udma_q (rx_udma (m2m_udma s)) ! unat i"

lemma meta_le: "unat (meta_descs (op_attr_table op)) \<le> 4"
  by (cases op) simp_all

lemma set_rx_take:
  assumes "udma_ring_ok q" "xaction_ok x" "xaction_rx_descs x \<le> unat (al_udma_available_get q)"
  shows "ring_took (q, mem) (xaction_rx_descs x) (al_raid_set_rx_descs (q, mem) x)"
proof (cases "total_dst_bufs x = 0")
  case True
  then have one: "xaction_rx_descs x = 1" using assms(2) by (simp add: xaction_ok_def xaction_rx_descs_def)
  with assms(3) have pos: "0 < unat (al_udma_available_get q)" by simp
  show ?thesis
    using True one desc_and_ring_id [OF assms(1) pos prod.collapse [symmetric] prod.collapse [symmetric], of mem]
    by (simp add: al_raid_set_rx_descs_def Let_def split_def)
next
  case False
  then have "unat (total_dst_bufs x) \<noteq> 0" by (simp add: unat_eq_zero)
  then have "xaction_rx_descs x = total_bufs (xaction_dsts x)"
    using assms(2) by (simp add: xaction_ok_def xaction_rx_descs_def)
  then show ?thesis using False rx_blocks_take [of "(q, mem)" "xaction_dsts x"] assms(1,3)
    by (simp add: al_raid_set_rx_descs_def Let_def)
qed

lemma set_tx_take:
  assumes "udma_ring_ok q" "xaction_tx_descs x \<le> unat (al_udma_available_get q)"
  shows "ring_took (q, mem) (xaction_tx_descs x)
    (al_raid_set_tx_descs (q, mem) x (meta_descs (op_attr_table (xop x))) (op_attr_table (xop x)))"
proof -
  let ?a = "op_attr_table (xop x)" and ?n = "unat (meta_descs (op_attr_table (xop x)))"
  obtain f q1 mem1 where l: "tx_meta_loop x (meta_descs ?a) ?a 0 ?n AL_M2S_DESC_FIRST (q, mem) = (f, q1, mem1)"
    by (metis surj_pair)
  have one: "ring_took (q, mem) ?n (q1, mem1)"
    using tx_meta_take [of "(q, mem)" ?n x "meta_descs ?a" ?a 0 AL_M2S_DESC_FIRST] assms l
    by (simp add: xaction_tx_descs_def)
  have two: "ring_took (q1, mem1) (total_bufs (xaction_srcs x)) (tx_blocks_loop x ?a 0 (xaction_srcs x) f' (q1, mem1))" for f'
    using ring_tookD [OF one] assms tx_blocks_take [of "(q1, mem1)" "xaction_srcs x" x ?a 0 f']
    by (simp add: xaction_tx_descs_def)
  show ?thesis
    using ring_took_trans [OF one two]
    by (simp add: al_raid_set_tx_descs_def l Let_def xaction_tx_descs_def add.commute)
qed

lemma descs_count_words:
  assumes "xaction_ok x" "xaction_tx_descs x < 2 ^ 32"
  shows "unat (al_raid_xaction_rx_descs_count x) = xaction_rx_descs x"
    "unat (al_raid_xaction_tx_descs_count x (meta_descs (op_attr_table (xop x)))) = xaction_tx_descs x"
proof -
  let ?m = "meta_descs (op_attr_table (xop x))"
  show "unat (al_raid_xaction_rx_descs_count x) = xaction_rx_descs x"
    using assms(1) unat_eq_zero [of "total_dst_bufs x"]
    by (auto simp: al_raid_xaction_rx_descs_count_def xaction_ok_def xaction_rx_descs_def max_def split: if_splits)
  have u: "unat (total_src_bufs x + ?m) = xaction_tx_descs x"
    using assms(1,2) by (simp add: unat_word_ariths xaction_ok_def xaction_tx_descs_def)
  moreover have "0 < xaction_tx_descs x" using assms(1) by (simp add: xaction_ok_def xaction_tx_descs_def)
  ultimately have "total_src_bufs x + ?m \<noteq> 0" by (metis less_irrefl unsigned_0)
  then show "unat (al_raid_xaction_tx_descs_count x ?m) = xaction_tx_descs x"
    by (simp add: al_raid_xaction_tx_descs_count_def Let_def u)
qed

text \<open>
  The transmit queue that the descriptors are taken from: as it is when it has room, otherwise after
  the completed descriptors have been acknowledged.
\<close>

definition tx_reclaimed :: "u32 \<Rightarrow> al_udma_q \<Rightarrow> nat \<Rightarrow> al_udma_q" where
  "tx_reclaimed crhp q n =
     (if n \<le> unat (al_udma_available_get q) then q
      else let (k, _, q) = al_udma_cdesc_get_all q crhp False in if k \<noteq> 0 then al_udma_cdesc_ack q k else q)"

lemma tx_reclaimed_step:
  fixes n :: nat
  assumes "udma_ring_ok q" "head_at crhp q c"
  defines "a \<equiv> (if n \<le> unat (al_udma_available_get q) then 0 else c)"
  shows "udma_ring_ok (tx_reclaimed crhp q n) \<and> q_size (tx_reclaimed crhp q n) = q_size q \<and>
    udma_pend (tx_reclaimed crhp q n) = drop a (udma_pend q) \<and>
    unat (al_udma_available_get (tx_reclaimed crhp q n)) = unat (al_udma_available_get q) + a"
proof (cases "n \<le> unat (al_udma_available_get q)")
  case False
  note g = get_all_count [OF assms(1,2)]
  let ?q = "q\<lparr>comp_head_idx := ucast (crhp AND 0xFFFF)\<rparr>"
  have ok: "udma_ring_ok ?q" "udma_pend ?q = udma_pend q" "al_udma_available_get ?q = al_udma_available_get q"
    using assms(1) by (simp_all add: udma_ring_ok_def udma_pend_def udma_in_flight_def al_udma_available_get_def)
  have c: "c \<le> length (udma_pend ?q)" using assms(2) by (simp add: ok head_at_def)
  have z: "(of_nat c :: u32) = 0 \<longleftrightarrow> c = 0"
  proof
    assume "(of_nat c :: u32) = 0"
    then have "unat (of_nat c :: u32) = unat (0 :: u32)" by (rule arg_cong)
    then show "c = 0" unfolding g(3) by simp
  qed simp
  have eq: "tx_reclaimed crhp q n = (if c = 0 then ?q else al_udma_cdesc_ack ?q (of_nat c))"
    using False by (simp add: tx_reclaimed_def g(2) z)
  show ?thesis
  proof (cases "c = 0")
    case True
    then show ?thesis unfolding eq using False ok by (simp add: a_def)
  next
    case nz: False
    then show ?thesis unfolding eq
      using False udma_ring.release_step [OF ok(1) c] udma_ring.release_avail [OF ok(1) c] ok by (simp add: a_def)
  qed
qed (simp add: tx_reclaimed_def a_def assms(1))

text \<open>Whatever the head register holds, reclaiming keeps the ring well formed and the submission side as it is.\<close>

lemma tx_reclaimed_ok:
  assumes "udma_ring_ok q"
  shows "udma_ring_ok (tx_reclaimed crhp q n)" "q_size (tx_reclaimed crhp q n) = q_size q"
    "q_regs (tx_reclaimed crhp q n) = q_regs q" "udma_submitted (tx_reclaimed crhp q n) p = udma_submitted q p"
proof -
  have "udma_ring_ok (al_udma_cdesc_ack (q\<lparr>comp_head_idx := h\<rparr>) k)" "udma_ring_ok (q\<lparr>comp_head_idx := h\<rparr>)" for h k
    using assms by (auto simp: al_udma_cdesc_ack_def Let_def udma_ring_ok_def unat_and_mask unat_pow2)
  then show "udma_ring_ok (tx_reclaimed crhp q n)"
    using assms by (auto simp: tx_reclaimed_def al_udma_cdesc_get_all_def Let_def)
  show "q_size (tx_reclaimed crhp q n) = q_size q" "q_regs (tx_reclaimed crhp q n) = q_regs q"
    "udma_submitted (tx_reclaimed crhp q n) p = udma_submitted q p"
    by (auto simp: tx_reclaimed_def al_udma_cdesc_get_all_def Let_def al_udma_cdesc_ack_def udma_submitted_def)
qed

definition xaction_fits :: "al_ssm_dma \<Rightarrow> al_raid_transaction \<Rightarrow> bool" where
  "xaction_fits s x \<longleftrightarrow> xaction_ok x \<and> xaction_tx_descs x \<le> unat (ssm_max_src_descs s) \<and>
     xaction_rx_descs x \<le> unat (ssm_max_dst_descs s)"

abbreviation raid_tx_descs :: "al_udma_q \<times> desc_mem \<Rightarrow> al_raid_transaction \<Rightarrow> al_udma_q \<times> desc_mem" where
  "raid_tx_descs s x \<equiv> al_raid_set_tx_descs s x (meta_descs (op_attr_table (xop x))) (op_attr_table (xop x))"

lemma q_update_proj [simp]:
  "rx_udma (m2m_udma (tx_q_update i q s)) = rx_udma (m2m_udma s)"
  "tx_udma (m2m_udma (rx_q_update i q s)) = tx_udma (m2m_udma s)"
  "udma_q (tx_udma (m2m_udma (tx_q_update i q s))) = (udma_q (tx_udma (m2m_udma s)))[unat i := q]"
  "udma_q (rx_udma (m2m_udma (rx_q_update i q s))) = (udma_q (rx_udma (m2m_udma s)))[unat i := q]"
  by (simp_all add: tx_q_update_def rx_q_update_def)

lemma xaction_fitsD:
  assumes "xaction_fits s x"
  shows "xaction_ok x" "xaction_tx_descs x < 2 ^ 32"
proof -
  have "unat (ssm_max_src_descs s) < 2 ^ LENGTH(32)" by (rule unsigned_less)
  then show "xaction_ok x" "xaction_tx_descs x < 2 ^ 32" using assms by (simp_all add: xaction_fits_def)
qed

text \<open>Preparation without the assertions, all of which hold for a fitting transaction on a RAID queue.\<close>

lemma prepare_eq:
  fixes crhp :: u32
  assumes "raid_q_ok s i" "xaction_fits s x"
  defines "rq \<equiv> rx_queue s i" and "n \<equiv> al_raid_xaction_tx_descs_count x (meta_descs (op_attr_table (xop x)))"
  defines "tq \<equiv> tx_reclaimed crhp (tx_queue s i) (xaction_tx_descs x)"
  shows "al_raid_dma_prepare crhp s i x mem m =
    (if unat (al_udma_available_get rq) < xaction_rx_descs x then Some (RcErr ENOSPC, s, x, mem, m)
     else if unat (al_udma_available_get tq) < xaction_tx_descs x then Some (RcErr ENOSPC, tx_q_update i tq s, x, mem, m)
     else let (rq', mem1) = al_raid_set_rx_descs (rq, mem) x; (tq', mem2) = raid_tx_descs (tq, mem1) x
          in do { m' \<leftarrow> al_udma_desc_action_add rq' (al_raid_xaction_rx_descs_count x) m;
                  Some (RcOk, tx_q_update i tq' (rx_q_update i rq' (tx_q_update i tq s)), x\<lparr>tx_descs_count := n\<rparr>, mem2, m') })"
proof -
  note w = descs_count_words [OF xaction_fitsD [OF assms(2)]]
  have h: "al_udma_q_handle_get (rx_udma (m2m_udma s)) i = (RcOk, Some rq)"
    "al_udma_q_handle_get (tx_udma (m2m_udma s)) i = (RcOk, Some (tx_queue s i))"
    using assms(1) by (simp_all add: al_udma_q_handle_get_def raid_q_ok_def rq_def not_le)
  have asserts: "q_types s ! unat i = AL_RAID_Q" "al_raid_xaction_rx_descs_count x \<le> ssm_max_dst_descs s" "n \<le> ssm_max_src_descs s"
    using assms(1,2) w by (simp_all add: raid_q_ok_def xaction_fits_def word_le_nat_alt n_def)
  obtain k p q0 where g: "al_udma_cdesc_get_all (tx_queue s i) crhp False = (k, p, q0)" by (metis surj_pair)
  have tq: "tq = (if al_udma_available_get (tx_queue s i) < n then if k \<noteq> 0 then al_udma_cdesc_ack q0 k else q0
      else tx_queue s i)"
    using w by (auto simp: tq_def tx_reclaimed_def word_less_nat_alt n_def g)
  have lt: "al_udma_available_get q < n \<longleftrightarrow> unat (al_udma_available_get q) < xaction_tx_descs x" 
      "al_udma_available_get q < al_raid_xaction_rx_descs_count x \<longleftrightarrow> unat (al_udma_available_get q) < xaction_rx_descs x" for q
    using w by (simp_all add: word_less_nat_alt n_def)
  have "al_raid_dma_prepare crhp s i x mem m =
    (if al_udma_available_get rq < al_raid_xaction_rx_descs_count x then Some (RcErr ENOSPC, s, x, mem, m)
     else if al_udma_available_get tq < n then Some (RcErr ENOSPC, tx_q_update i tq s, x, mem, m)
     else let (rq', mem1) = al_raid_set_rx_descs (rq, mem) x; (tq', mem2) = raid_tx_descs (tq, mem1) x
          in do { m' \<leftarrow> al_udma_desc_action_add rq' (al_raid_xaction_rx_descs_count x) m;
                  Some (RcOk, tx_q_update i tq' (rx_q_update i rq' (tx_q_update i tq s)), x\<lparr>tx_descs_count := n\<rparr>, mem2, m') })"
    unfolding al_raid_dma_prepare_def
    by (cases "al_udma_available_get (tx_queue s i) < n"; cases "k = 0")
      (simp_all add: h asserts n_def [symmetric] tq g Let_def split_def)
  then show ?thesis by (simp only: lt)
qed

lemma prepare_ok:
  assumes "raid_q_ok s i" "xaction_fits s x"
    and "xaction_rx_descs x \<le> unat (al_udma_available_get (rx_queue s i))"
    and "xaction_tx_descs x \<le> unat (al_udma_available_get (tx_reclaimed crhp (tx_queue s i) (xaction_tx_descs x)))"
  obtains rq mem1 tq mem2 where
    "al_raid_dma_prepare crhp s i x mem m =
      Some (RcOk, tx_q_update i tq (rx_q_update i rq (tx_q_update i (tx_reclaimed crhp (tx_queue s i) (xaction_tx_descs x)) s)),
        x\<lparr>tx_descs_count := of_nat (xaction_tx_descs x)\<rparr>, mem2,
        al_reg_write32_relaxed m (rings_reg (rx_queue s i) rings_drtp_inc) (of_nat (xaction_rx_descs x)))"
    "ring_took (rx_queue s i, mem) (xaction_rx_descs x) (rq, mem1)"
    "ring_took (tx_reclaimed crhp (tx_queue s i) (xaction_tx_descs x), mem1) (xaction_tx_descs x) (tq, mem2)"
    "raid_tx_descs (tx_reclaimed crhp (tx_queue s i) (xaction_tx_descs x), mem1) x = (tq, mem2)"
proof -
  let ?rq = "rx_queue s i" and ?tq = "tx_reclaimed crhp (tx_queue s i) (xaction_tx_descs x)"
  let ?r = "al_raid_xaction_rx_descs_count x" and ?n = "al_raid_xaction_tx_descs_count x (meta_descs (op_attr_table (xop x)))"
  note ok = xaction_fitsD(1) [OF assms(2)] and w = descs_count_words [OF xaction_fitsD [OF assms(2)]]
  have rok: "udma_ring_ok ?rq" and tok: "udma_ring_ok ?tq"
    using assms(1) tx_reclaimed_ok(1) by (simp_all add: raid_q_ok_def)
  obtain rq mem1 where r: "al_raid_set_rx_descs (?rq, mem) x = (rq, mem1)" by fastforce
  obtain tq mem2 where t: "raid_tx_descs (?tq, mem1) x = (tq, mem2)" by fastforce
  have rt: "ring_took (?rq, mem) (xaction_rx_descs x) (rq, mem1)"
    using set_rx_take [OF rok ok assms(3), of mem] r by simp
  have tt: "ring_took (?tq, mem1) (xaction_tx_descs x) (tq, mem2)"
    using set_tx_take [OF tok assms(4), of mem1] t by simp
  have cnt: "?r = of_nat (xaction_rx_descs x)" "?n = of_nat (xaction_tx_descs x)"
    by (simp_all flip: w)
  have "0 < ?r" "?r \<le> q_size rq"
    using w rt assms(3) available_unat [OF rok] ring_tookD(2) [OF rt]
    by (auto simp: word_less_nat_alt word_le_nat_alt xaction_rx_descs_def)
  then have "al_raid_dma_prepare crhp s i x mem m =
      Some (RcOk, tx_q_update i tq (rx_q_update i rq (tx_q_update i ?tq s)),
        x\<lparr>tx_descs_count := of_nat (xaction_tx_descs x)\<rparr>, mem2,
        al_reg_write32_relaxed m (rings_reg ?rq rings_drtp_inc) (of_nat (xaction_rx_descs x)))"
    using assms(3,4) cnt ring_tookD(3) [OF rt]
    by (simp add: prepare_eq [OF assms(1,2)] r t al_udma_desc_action_add_def rings_reg_def)
  then show thesis using rt tt t by (rule that)
qed

text \<open>What a successful preparation adds to one ring.\<close>

definition ring_grew :: "al_udma_q \<Rightarrow> ptr list \<Rightarrow> nat \<Rightarrow> al_udma_q \<Rightarrow> bool" where
  "ring_grew q ds n q' \<longleftrightarrow> udma_ring_ok q' \<and> length ds = n \<and> udma_pend q' = udma_pend q @ ds"

text \<open>
  C9: a transaction that fits is submitted whole.  When the queue is a RAID queue, both rings have
  room (the transmit ring possibly after the completed descriptors are reclaimed), the call succeeds without
  an assertion: the receive ring grows by one descriptor per destination buffer (at least one), the
  transmit ring by one per source buffer plus the metadata descriptors of the operation, no other descriptor
  memory is written, the transaction records the number of transmit descriptors, and the only
  register write is the receive doorbell with the number of receive descriptors.
\<close>

theorem raid_prepare_submits:
  assumes "raid_q_ok s i" "xaction_fits s x"
    and "xaction_rx_descs x \<le> unat (al_udma_available_get (rx_queue s i))"
    and "xaction_tx_descs x \<le> unat (al_udma_available_get (tx_reclaimed crhp (tx_queue s i) (xaction_tx_descs x)))"
  shows "\<exists>s' mem' m' rds tds. al_raid_dma_prepare crhp s i x mem m =
      Some (RcOk, s', x\<lparr>tx_descs_count := of_nat (xaction_tx_descs x)\<rparr>, mem', m') \<and>
    ring_grew (rx_queue s i) rds (xaction_rx_descs x) (rx_queue s' i) \<and>
    ring_grew (tx_reclaimed crhp (tx_queue s i) (xaction_tx_descs x)) tds (xaction_tx_descs x) (tx_queue s' i) \<and>
    (\<forall>p. p \<notin> set rds \<union> set tds \<longrightarrow> mem' p = mem p) \<and>
    m' = al_reg_write32_relaxed m (rings_reg (rx_queue s i) rings_drtp_inc) (of_nat (xaction_rx_descs x))"
proof (rule prepare_ok [OF assms, of mem m], goal_cases)
  case (1 rq mem1 tq mem2)
  obtain rds where rds: "length rds = xaction_rx_descs x" "udma_pend rq = udma_pend (rx_queue s i) @ rds" "\<forall>p. p \<notin> set rds \<longrightarrow> mem1 p = mem p"
    using 1(2) by (rule ring_took_obtain)
  obtain tds where tds: "length tds = xaction_tx_descs x"
    "udma_pend tq = udma_pend (tx_reclaimed crhp (tx_queue s i) (xaction_tx_descs x)) @ tds" "\<forall>p. p \<notin> set tds \<longrightarrow> mem2 p = mem1 p"
    using 1(3) by (rule ring_took_obtain)
  show ?thesis
    using assms(1) rds tds ring_tookD(1) [OF 1(2)] ring_tookD(1) [OF 1(3)]
    by (simp add: 1(1) ring_grew_def raid_q_ok_def)
qed

text \<open>A DMA with RAID queues whose rings are \<open>tq\<close> and \<open>rq\<close>, and a copy of one buffer, for concrete instances.\<close>

definition demo_ssm :: "al_udma_q \<Rightarrow> al_udma_q \<Rightarrow> al_ssm_dma" where
  "demo_ssm tq rq = \<lparr>ssm_rev_id = 1,
     m2m_udma = \<lparr>m2m_name = None, m2m_udma_regs_base = 0, m2m_num_of_queues = 4,
       tx_udma = demo_udma\<lparr>udma_type := UDMA_TX, udma_q := replicate 4 tq\<rparr>, rx_udma = demo_udma\<lparr>udma_q := replicate 4 rq\<rparr>\<rparr>,
     q_types = replicate 4 AL_RAID_Q, ssm_max_src_descs = 31, ssm_max_dst_descs = 31\<rparr>"

definition demo_block :: "u64 \<Rightarrow> al_block" where
  "demo_block a = \<lparr>bufs = [\<lparr>buf_addr = a, buf_len = 64\<rparr>], blk_num = 1, tgtid = 0\<rparr>"

definition demo_xaction :: al_raid_transaction where
  "demo_xaction = \<lparr>xop = AL_RAID_OP_MEM_CPY, xflags = 0, srcs_blocks = [demo_block 0x1000], num_of_srcs = 1, total_src_bufs = 1,
     dsts_blocks = [demo_block 0x2000], num_of_dsts = 1, total_dst_bufs = 1, tx_descs_count = 0, coefs = [], q_index = 0,
     mem_set_data0 = 0, mem_set_data1 = 0, mem_set_flags = 0\<rparr>"

lemma demo_ssm_queues [simp]:
  "udma_q (tx_udma (m2m_udma (demo_ssm tq rq))) ! Suc 0 = tq" "udma_q (rx_udma (m2m_udma (demo_ssm tq rq))) ! Suc 0 = rq"
  by (simp_all add: demo_ssm_def)

lemma demo_ssm_ok: "udma_ring_ok tq \<Longrightarrow> udma_ring_ok rq \<Longrightarrow> raid_q_ok (demo_ssm tq rq) 1"
  by (simp add: raid_q_ok_def demo_ssm_def demo_udma_def)

lemma demo_xaction_descs: "xaction_tx_descs demo_xaction = 1" "xaction_rx_descs demo_xaction = 1" "xaction_ok demo_xaction"
  by (simp_all add: xaction_tx_descs_def xaction_rx_descs_def xaction_ok_def demo_xaction_def xaction_srcs_def xaction_dsts_def
      demo_block_def block_bufs_def)

lemma demo_xaction_fits: "xaction_fits (demo_ssm tq rq) demo_xaction"
  by (simp add: xaction_fits_def demo_xaction_descs) (simp add: demo_ssm_def)

definition demo_dmem :: desc_mem where
  "demo_dmem = (\<lambda>_. \<lparr>len_ctrl = 0, meta_ctrl = 0, buf_ptr = 0\<rparr>)"

lemma demo_q_views:
  "al_udma_available_get demo_q = 7" "udma_pend demo_q = []" "head_at 0 demo_q 0"
  by (simp_all add: al_udma_available_get_def demo_q_def udma_pend_def udma_in_flight_def head_at_def)

theorem raid_prepare_submits_witness:
  "\<exists>s' mem' m'. al_raid_dma_prepare 0 (demo_ssm demo_q demo_q) 1 demo_xaction demo_dmem \<lparr>regs = \<lambda>_. 0, wlog = []\<rparr> =
      Some (RcOk, s', demo_xaction\<lparr>tx_descs_count := 1\<rparr>, mem', m') \<and>
     length (udma_pend (tx_queue s' 1)) = 1 \<and> length (udma_pend (rx_queue s' 1)) = 1"
proof -
  let ?s = "demo_ssm demo_q demo_q"
  have t: "tx_reclaimed 0 demo_q (Suc 0) = demo_q" by (simp add: tx_reclaimed_def demo_q_views)
  show ?thesis
    using raid_prepare_submits [OF demo_ssm_ok [OF demo_q_ok demo_q_ok] demo_xaction_fits, of 0 demo_dmem "\<lparr>regs = \<lambda>_. 0, wlog = []\<rparr>"]
    by (auto simp: demo_xaction_descs t demo_q_views ring_grew_def simp del: length_udma_pend)
qed

text \<open>
  Without room nothing is submitted.  The call returns \<open>-ENOSPC\<close>; descriptor memory,
  registers, transaction and receive engine are unchanged, the queue stays usable and the transmit ring at most lost
  its completed descriptors.
\<close>

theorem raid_prepare_enospc:
  assumes "raid_q_ok s i" "xaction_fits s x" "head_at crhp (tx_queue s i) c"
    and "unat (al_udma_available_get (rx_queue s i)) < xaction_rx_descs x \<or>
      unat (al_udma_available_get (tx_queue s i)) + c < xaction_tx_descs x"
  shows "\<exists>s'. al_raid_dma_prepare crhp s i x mem m = Some (RcErr ENOSPC, s', x, mem, m) \<and>
    rx_udma (m2m_udma s') = rx_udma (m2m_udma s) \<and> raid_q_ok s' i \<and>
    (udma_pend (tx_queue s' i) = udma_pend (tx_queue s i) \<or>
     udma_pend (tx_queue s' i) = drop c (udma_pend (tx_queue s i)))"
proof -
  have ok: "udma_ring_ok (tx_queue s i)" using assms(1) by (simp add: raid_q_ok_def)
  note t = tx_reclaimed_step [OF ok assms(3), of "xaction_tx_descs x"]
  have q: "raid_q_ok (tx_q_update i q s) i" if "udma_ring_ok q" for q
    using that assms(1) by (simp add: raid_q_ok_def tx_q_update_def)
  from assms(4) show ?thesis
    using assms(1) t q prepare_eq [OF assms(1,2), of crhp mem m]
    by (auto simp: raid_q_ok_def split: if_splits)
qed

theorem raid_prepare_enospc_witness:
  "\<exists>s'. al_raid_dma_prepare 0 (demo_ssm demo_q (demo_q\<lparr>next_desc_idx := 7\<rparr>)) 1 demo_xaction demo_dmem \<lparr>regs = \<lambda>_. 0, wlog = []\<rparr> =
      Some (RcErr ENOSPC, s', demo_xaction, demo_dmem, \<lparr>regs = \<lambda>_. 0, wlog = []\<rparr>)"
proof -
  let ?rq = "demo_q\<lparr>next_desc_idx := 7\<rparr>"
  have rq: "udma_ring_ok ?rq" "al_udma_available_get ?rq = 0"
    unfolding udma_ring_ok_def
    by (intro conjI bexI [of _ 3]; simp add: demo_q_def mask_eq_exp_minus_1) (simp add: demo_q_def al_udma_available_get_def)
  show ?thesis
    using raid_prepare_enospc [OF demo_ssm_ok [OF demo_q_ok rq(1)] demo_xaction_fits, of 0 0 demo_dmem "\<lparr>regs = \<lambda>_. 0, wlog = []\<rparr>"]
    by (auto simp: demo_xaction_descs demo_q_views rq)
qed

subsection \<open>Contents of the transmit descriptors\<close>

text \<open>A source of one buffer, and the descriptor that source number \<open>k\<close> of \<open>n\<close> gets at ring position \<open>p\<close>.\<close>

definition one_buf :: "al_block \<Rightarrow> bool" where
  "one_buf b \<longleftrightarrow> blk_num b = 1 \<and> length (bufs b) = 1"

definition src_attr :: "al_raid_transaction \<Rightarrow> nat \<Rightarrow> nat \<Rightarrow> u32" where
  "src_attr x n k = opcode (op_attr_table (xop x)) OR
     (if have_g_coef (op_attr_table (xop x)) then ucast (coefs x ! k) else 0) OR
     (if k = 0 then AL_RAID_TX_DESC_META_FIRST_SOURCE else 0) OR
     (if k = n - 1 then AL_RAID_TX_DESC_META_LAST_SOURCE else 0) OR
     (if have_p_coef (op_attr_table (xop x)) \<and> \<not> (xop x = AL_RAID_OP_PQ_VAL \<and> k = unat (q_index x))
      then AL_RAID_TX_DESC_META_P_ENABLE else 0)"

definition src_flags :: "al_raid_transaction \<Rightarrow> nat \<Rightarrow> u32" where
  "src_flags x k = (if k = 0 then AL_M2S_DESC_FIRST else 0) OR
     (if xflags x AND AL_SSM_SRC_NO_SNOOP \<noteq> 0 then AL_M2S_DESC_NO_SNOOP_H else 0) OR
     (if k = 0 \<and> xflags x AND AL_SSM_BARRIER \<noteq> 0 then AL_M2S_DESC_DMB else 0)"

definition src_desc :: "al_raid_transaction \<Rightarrow> nat \<Rightarrow> nat \<Rightarrow> u32 \<Rightarrow> al_block \<Rightarrow> al_udma_desc" where
  "src_desc x n k rid b =
     \<lparr>len_ctrl = src_flags x k OR push_bit 24 rid OR (if k = n - 1 then AL_M2S_DESC_LAST else 0) OR
        (buf_len (hd (bufs b)) AND AL_M2S_DESC_LEN_MASK),
      meta_ctrl = src_attr x n k, buf_ptr = buf_addr (hd (bufs b)) OR push_bit 48 (ucast (tgtid b))\<rparr>"

lemma opcode_low: "AL_REG_MASK_CLEAR (opcode (op_attr_table op)) 0xFFFFF = opcode (op_attr_table op)"
proof -
  have "\<exists>v. opcode (op_attr_table op) = AL_RAID_OPCODE v" by (cases op; simp; blast)
  then obtain v where v: "opcode (op_attr_table op) = push_bit 20 v" by (auto simp: AL_RAID_OPCODE_def)
  have m: "(0xFFFFF :: u32) = mask 20" by (simp add: mask_eq_exp_minus_1)
  show ?thesis unfolding v m
    by (rule bit_word_eqI) (auto simp: AL_REG_MASK_CLEAR_def AL_REG_MASK_SET_VAL_def bit_simps)
qed

lemma block_attr_eq: 
  assumes "unat (num_of_srcs x) = n" "k < n"
  shows "tx_block_attr x (op_attr_table (xop x)) k = src_attr x n k" "of_nat k = num_of_srcs x - 1 \<longleftrightarrow> k = n - 1"
proof -
  have "n < 2 ^ LENGTH(32)" unfolding assms(1) [symmetric] by (rule unsigned_less)
  then have k: "unat (of_nat k :: u32) = k" using assms(2) by (simp add: unsigned_of_nat take_bit_nat_eq_self)
  have "num_of_srcs x \<noteq> 0" using assms by auto
  then have n: "unat (num_of_srcs x - 1) = n - 1" using assms(1) by (simp add: unat_minus_one)
  show last: "of_nat k = num_of_srcs x - 1 \<longleftrightarrow> k = n - 1" unfolding word_unat_eq_iff k n ..
  have c: "ucast c AND 0xFF = (ucast c :: u32)" for c :: u8
  proof -
    have "(0xFF :: u32) = mask 8" by (simp add: mask_eq_exp_minus_1)
    then show ?thesis by (simp only:) (rule bit_word_eqI, auto simp: bit_simps)
  qed
  show "tx_block_attr x (op_attr_table (xop x)) k = src_attr x n k"
    unfolding tx_block_attr_def src_attr_def last opcode_low c Let_def by (auto simp: ac_simps)
qed

lemma desc_all_fields:
  "d\<lparr>meta_ctrl := m, len_ctrl := l, buf_ptr := p\<rparr> = \<lparr>len_ctrl = l, meta_ctrl = m, buf_ptr = p\<rparr>" for d :: al_udma_desc
  by (cases d) simp

text \<open>One source block of one buffer, with the flags of the first block or of a later one.\<close>

lemma tx_one_block:
  assumes "udma_ring_ok q" "udma_submitted q p" "one_buf b" "unat (num_of_srcs x) = n" "k < n" "f = src_flags x k"
  obtains q' where "tx_bufs_loop (tx_block_attr x (op_attr_table (xop x)) k) (of_nat k = num_of_srcs x - 1) b 0 (block_bufs b) f (q, mem) =
      (src_flags x (Suc k), q', mem(desc_slot q p := src_desc x n k (lap_id (unat (q_size q)) p) b))"
    "udma_ring_ok q'" "udma_submitted q' (Suc p)" "q_size q' = q_size q" "desc_base_ptr q' = desc_base_ptr q"
proof -
  obtain d q1 where d: "al_udma_desc_get q = (d, q1)" by fastforce
  obtain r q2 where r: "al_udma_ring_id_get q1 = (r, q2)" by fastforce
  note st = desc_ring_id_step [OF assms(1,2) d r]
  have st2: "q_size q2 = q_size q \<and> desc_base_ptr q2 = desc_base_ptr q"
    using d r by (auto simp: al_udma_desc_get_def al_udma_ring_id_get_def Let_def split: if_splits)
  have "r = of_nat (unat r)" by simp
  also have "unat r = (1 + p div unat (q_size q)) mod 4" using st by blast
  finally have rid: "r = lap_id (unat (q_size q)) p" by (simp only: lap_id_def)
  obtain bf where bf: "bufs b = [bf]" "blk_num b = 1" using assms(3) by (auto simp: one_buf_def length_Suc_conv)
  have fl: "src_flags x k AND AL_M2S_DESC_NO_SNOOP_H = src_flags x (Suc k)"
    by (auto simp: src_flags_def desc_consts AL_BIT_def)
  note at = block_attr_eq [OF assms(4,5)]
  show thesis
  proof (rule that)
    show "tx_bufs_loop (tx_block_attr x (op_attr_table (xop x)) k) (of_nat k = num_of_srcs x - 1) b 0 (block_bufs b) f (q, mem) =
      (src_flags x (Suc k), q2, mem(desc_slot q p := src_desc x n k (lap_id (unat (q_size q)) p) b))"
      unfolding at using st assms(6)
      by (simp add: block_bufs_def bf tx_buf_put_def d r fl src_desc_def rid desc_slot_def
          AL_M2S_DESC_RING_ID_SHIFT_def AL_UDMA_DESC_TGTID_SHIFT_def desc_all_fields or.assoc)
  qed (use st st2 in auto)
qed

lemma tx_blocks_content:
  assumes "udma_ring_ok q" "udma_submitted q p" "\<forall>b \<in> set bls. one_buf b"
    "unat (num_of_srcs x) = n" "k + length bls \<le> n" "length bls < unat (q_size q)"
    "tx_blocks_loop x (op_attr_table (xop x)) k bls (src_flags x k) (q, mem) = (q', mem')"
  shows "udma_submitted q' (p + length bls) \<and>
    (\<forall>j < length bls. mem' (desc_slot q (p + j)) = src_desc x n (k + j) (lap_id (unat (q_size q)) (p + j)) (bls ! j)) \<and>
    (\<forall>a. (\<forall>j < length bls. a \<noteq> desc_slot q (p + j)) \<longrightarrow> mem' a = mem a)"
  using assms
proof (induction bls arbitrary: q p k mem)
  case Nil
  then show ?case by simp
next
  case (Cons b bls)
  let ?sz = "unat (q_size q)"
  obtain q1 where q1: "tx_bufs_loop (tx_block_attr x (op_attr_table (xop x)) k) (of_nat k = num_of_srcs x - 1) b 0 (block_bufs b)
      (src_flags x k) (q, mem) = (src_flags x (Suc k), q1, mem(desc_slot q p := src_desc x n k (lap_id ?sz p) b))"
    "udma_ring_ok q1" "udma_submitted q1 (Suc p)" "q_size q1 = q_size q" "desc_base_ptr q1 = desc_base_ptr q"
    using tx_one_block [OF Cons.prems(1,2) _ Cons.prems(4) _ refl, of b k mem] Cons.prems by auto
  have sl: "desc_slot q1 = desc_slot q" by (simp add: desc_slot_def q1 fun_eq_iff)
  have ih: "udma_submitted q' (Suc p + length bls) \<and>
    (\<forall>j < length bls. mem' (desc_slot q (Suc p + j)) = src_desc x n (Suc k + j) (lap_id ?sz (Suc p + j)) (bls ! j)) \<and>
    (\<forall>a. (\<forall>j < length bls. a \<noteq> desc_slot q (Suc p + j)) \<longrightarrow>
      mem' a = (mem(desc_slot q p := src_desc x n k (lap_id ?sz p) b)) a)"
    using Cons.IH [OF q1(2,3) _ Cons.prems(4), of "Suc k"] Cons.prems q1 by (simp add: sl)
  have fresh: "desc_slot q p \<noteq> desc_slot q (Suc p + j)" if "j < length bls" for j
    using mod_add_eq_imp_eq [of p 0 ?sz "Suc j"] that Cons.prems(6) by (auto simp: desc_slot_def)
  then have "mem' (desc_slot q p) = src_desc x n k (lap_id ?sz p) b" using ih by simp
  moreover have "mem' a = mem a" if "\<forall>j < length (b # bls). a \<noteq> desc_slot q (p + j)" for a
    using ih that [rule_format, of 0] that [rule_format, of "Suc j" for j] by simp
  ultimately show ?case using ih by (auto simp: less_Suc_eq_0_disj)
qed

text \<open>
  C15: the transmit descriptors of a transaction without metadata whose sources are single buffers (a copy,
  an XOR or a P+Q computation).  Descriptor \<open>k\<close> goes to the slot of submission number \<open>p + k\<close>
  with the ring id of its lap, carries FIRST exactly for the first source and LAST exactly for the last
  one, the no-snoop flag throughout, the barrier on the first only, the length, the address with the target id, and
  the opcode with the source's coefficient and position; the ring then stands at \<open>p + n\<close> and no other memory changed.
\<close>

theorem raid_tx_descs_content:
  assumes "udma_ring_ok q" "udma_submitted q p" "meta_descs (op_attr_table (xop x)) = 0"
    and "\<forall>b \<in> set (srcs_blocks x). one_buf b" "unat (num_of_srcs x) = length (srcs_blocks x)"
    and "length (srcs_blocks x) < unat (q_size q)"
    and "al_raid_set_tx_descs (q, mem) x 0 (op_attr_table (xop x)) = (q', mem')"
  shows "udma_submitted q' (p + length (srcs_blocks x)) \<and>
    (\<forall>k < length (srcs_blocks x). mem' (desc_slot q (p + k)) =
       src_desc x (length (srcs_blocks x)) k (lap_id (unat (q_size q)) (p + k)) (srcs_blocks x ! k)) \<and>
    (\<forall>a. (\<forall>k < length (srcs_blocks x). a \<noteq> desc_slot q (p + k)) \<longrightarrow> mem' a = mem a)"
proof -
  have "tx_blocks_loop x (op_attr_table (xop x)) 0 (srcs_blocks x) (src_flags x 0) (q, mem) = (q', mem')"
    using assms(5,7) by (simp add: al_raid_set_tx_descs_def xaction_srcs_def src_flags_def Let_def or.assoc split: if_splits)
  from tx_blocks_content [OF assms(1,2,4,5) _ assms(6) this] show ?thesis by simp
qed

theorem raid_tx_descs_content_witness:
  "snd (al_raid_set_tx_descs (demo_q, demo_dmem) demo_xaction 0 (op_attr_table AL_RAID_OP_MEM_CPY)) 0x80000 =
     \<lparr>len_ctrl = 0x0D000040, meta_ctrl = 0xC0000, buf_ptr = 0x1000\<rparr>"
proof -
  obtain q' mem' where e: "al_raid_set_tx_descs (demo_q, demo_dmem) demo_xaction 0 (op_attr_table (xop demo_xaction)) = (q', mem')"
    by fastforce
  have sub: "udma_submitted demo_q 0" by (simp add: udma_submitted_def demo_q_def)
  have "mem' (desc_slot demo_q 0) = src_desc demo_xaction 1 0 (lap_id 8 0) (demo_block 0x1000)"
    using raid_tx_descs_content [OF demo_q_ok sub _ _ _ _ e]
    by (simp add: demo_xaction_def one_buf_def demo_block_def) (simp add: demo_q_def)
  then show ?thesis using e
    by (simp add: desc_slot_def demo_q_def src_desc_def src_flags_def src_attr_def demo_xaction_def demo_block_def lap_id_def
        desc_consts AL_BIT_def AL_RAID_OPCODE_def AL_RAID_TX_DESC_META_FIRST_SOURCE_def AL_RAID_TX_DESC_META_LAST_SOURCE_def)
qed

subsection \<open>Completion\<close>

text \<open>
  C16: completion of a transaction.  When the receive queue stands at completion \<open>h\<close> and the engine has
  written a packet of \<open>j + 1\<close> new descriptors, the call reports it, returns the error bits of the packet's last
  descriptor and nothing else of that word, and acknowledges exactly the descriptors of the packet.  When
  the next descriptor is not new, the call reports nothing and leaves the DMA as it was.
\<close>

theorem raid_completion_outcome:
  assumes "unat i < unat (num_of_queues (rx_udma (m2m_udma s)))" "unat i < length (udma_q (rx_udma (m2m_udma s)))"
    and "comp_synced (rx_queue s i) h"
  shows "(rx_packet cmem (rx_queue s i) h j \<longrightarrow>
      (\<exists>s'. al_raid_dma_completion cmem s i =
          Some (True, Some (cmem (comp_slot (rx_queue s i) (h + j)) AND RX_COMP_STATUS_MASK), s') \<and>
        comp_synced (rx_queue s' i) (h + j + 1) \<and>
        udma_pend (rx_queue s' i) = drop (j + 1) (udma_pend (rx_queue s i)) \<and>
        tx_udma (m2m_udma s') = tx_udma (m2m_udma s))) \<and>
    (\<not> comp_new cmem (rx_queue s i) h \<longrightarrow> al_raid_dma_completion cmem s i = Some (False, None, s))"
proof (intro conjI impI)
  let ?q = "rx_queue s i"
  have h: "al_udma_q_handle_get (rx_udma (m2m_udma s)) i = (RcOk, Some ?q)"
    using assms(1) by (simp add: al_udma_q_handle_get_def word_le_nat_alt not_le)
  {
    assume p: "rx_packet cmem ?q h j"
    define c :: u32 where "c = of_nat (Suc j)"
    obtain q1 where q1: "al_udma_cdesc_packet_get cmem ?q = Some (c, Some (comp_slot ?q h), q1)"
      "\<And>i. i \<le> j \<Longrightarrow> al_cdesc_next q1 (comp_slot ?q h) (of_nat i) = Some (comp_slot ?q (h + i))"
      "comp_synced (al_udma_cdesc_ack q1 c) (h + Suc j)" "udma_pend (al_udma_cdesc_ack q1 c) = drop (Suc j) (udma_pend ?q)"
      "unat c = Suc j"
      unfolding c_def using packet_get_synced [OF assms(3) p] by blast
    have c1: "c \<noteq> 0" "1 < c \<longleftrightarrow> 0 < j" using q1(5) by (auto simp: word_less_nat_alt)
    have nxt: "(if 1 < c then al_cdesc_next q1 (comp_slot ?q h) (c - 1) else Some (comp_slot ?q h)) = Some (comp_slot ?q (h + j))"
      using q1(2) [of j] unfolding c1 by (simp add: c_def)
    have "al_raid_dma_completion cmem s i = Some (True, Some (cmem (comp_slot ?q (h + j)) AND RX_COMP_STATUS_MASK),
        rx_q_update i (al_udma_cdesc_ack q1 c) s)"
      by (simp add: al_raid_dma_completion_def h q1(1) c1(1) nxt)
    then show "\<exists>s'. al_raid_dma_completion cmem s i =
          Some (True, Some (cmem (comp_slot ?q (h + j)) AND RX_COMP_STATUS_MASK), s') \<and>
        comp_synced (rx_queue s' i) (h + j + 1) \<and> udma_pend (rx_queue s' i) = drop (j + 1) (udma_pend ?q) \<and>
        tx_udma (m2m_udma s') = tx_udma (m2m_udma s)"
      using q1(3,4) assms(2) by (simp add: rx_q_update_def)
  }
  assume nn: "\<not> comp_new cmem ?q h"
  show "al_raid_dma_completion cmem s i = Some (False, None, s)"
    using packet_get_none [OF assms(3) nn] by (simp add: al_raid_dma_completion_def h rx_q_update_def)
qed

theorem raid_completion_outcome_witness:
  "\<exists>s'. al_raid_dma_completion demo_cmem (demo_ssm demo_q demo_cq) 1 = Some (True, Some 0, s') \<and> comp_synced (rx_queue s' 1) 9"
proof -
  have syn: "comp_synced demo_cq 6" using demo_cq_ok by (simp add: comp_synced_def demo_cq_simps)
  have le2: "i \<le> 2 \<longleftrightarrow> i = 0 \<or> i = 1 \<or> i = 2" for i :: nat by auto
  have p: "rx_packet demo_cmem demo_cq 6 2"
    unfolding rx_packet_def
    by (intro conjI; simp add: less_2_cases_iff le2 demo_cq_simps udma_in_flight_def; auto simp: demo_cq_simps)
  have st: "demo_cmem (comp_slot demo_cq 8) AND RX_COMP_STATUS_MASK = 0"
    by (simp add: demo_cq_simps RX_COMP_STATUS_MASK_def AL_RAID_P_VAL_ERROR_def AL_RAID_Q_VAL_ERROR_def AL_RAID_BUS_PARITY_ERROR_def
        AL_RAID_SOURCE_LEN_ERROR_def AL_RAID_CMD_DECODE_ERROR_def AL_RAID_INTERNAL_ERROR_def)
  have n: "unat (1 :: u32) < unat (num_of_queues (rx_udma (m2m_udma (demo_ssm demo_q demo_cq))))"
    "unat (1 :: u32) < length (udma_q (rx_udma (m2m_udma (demo_ssm demo_q demo_cq))))"
    by (simp_all add: demo_ssm_def demo_udma_def)
  from raid_completion_outcome [OF n, of 6 demo_cmem 2] show ?thesis using syn p st by auto
qed


subsection \<open>The length of a fill\<close>

definition block_len :: "al_block \<Rightarrow> u32" where
  "block_len b = sum_list (map buf_len (block_bufs b))"

lemma fold_buf_len: "fold (\<lambda>buf t. t + buf_len buf) bs = (\<lambda>t. t + sum_list (map buf_len bs))"
  by (induction bs) (simp_all add: fun_eq_iff ac_simps)

lemma fold_const_add: "fold (\<lambda>_ t. t + v) xs (t :: u32) = t + of_nat (length xs) * v"
  by (induction xs arbitrary: t) (simp_all add: algebra_simps)

text \<open>
  The length a memory fill announces.  It is the number of destinations times the length of the \<^emph>\<open>first\<close> destination
  block (modulo 32 bits), so it is the total destination length whenever all blocks have the same length
  and the block array is as long as announced; with blocks of different lengths it is not (the witness of the
  divergence is the instance below).
\<close>

theorem raid_rx_get_len_value:
  assumes "dsts_blocks x = b # bs"
  shows "al_raid_rx_get_len x = num_of_dsts x * block_len b \<and>
    ((\<forall>c \<in> set bs. block_len c = block_len b) \<and> unat (num_of_dsts x) = length (dsts_blocks x) \<longrightarrow>
       al_raid_rx_get_len x = sum_list (map block_len (xaction_dsts x)))"
proof -
  have eq: "al_raid_rx_get_len x = num_of_dsts x * block_len b"
    by (simp add: al_raid_rx_get_len_def assms fold_buf_len fold_const_add flip: block_len_def)
  have "sum_list (map block_len bs) = of_nat (length bs) * block_len b" if "\<forall>c \<in> set bs. block_len c = block_len b"
    using that by (induction bs) (simp_all add: algebra_simps)
  moreover have "num_of_dsts x = of_nat (length (dsts_blocks x))" if "unat (num_of_dsts x) = length (dsts_blocks x)"
    unfolding that [symmetric] by simp
  ultimately show ?thesis using eq assms by (auto simp: xaction_dsts_def algebra_simps)
qed

theorem raid_rx_get_len_value_witness:
  "al_raid_rx_get_len (demo_xaction\<lparr>dsts_blocks := [demo_block 0, (demo_block 64)\<lparr>bufs := [\<lparr>buf_addr = 64, buf_len = 16\<rparr>]\<rparr>],
     num_of_dsts := 2\<rparr>) = 128"
  using raid_rx_get_len_value [of "demo_xaction\<lparr>dsts_blocks := [demo_block 0, (demo_block 64)\<lparr>bufs := [\<lparr>buf_addr = 64, buf_len = 16\<rparr>]\<rparr>],
     num_of_dsts := 2\<rparr>"]
  by (simp add: block_len_def block_bufs_def demo_block_def)

end
