(* ===== verification/Dma_Drv.thy ===== *)
theory Dma_Drv
  imports Raid_Props
begin

text \<open>
  The dmaengine driver (\<open>al_dma_drv.c\<close>, \<open>al_dma_drv.h\<close>): transaction cookies, the software
  descriptor ring of a channel, channel resources, preparation of copy, XOR and P+Q operations, issue, completion and the
  PCI probe and remove paths.

  What the kernel answers is an argument: the results of allocations, of the PCI calls and of the registration, the
  value of the transmit completion head register and the memory of the receive completion ring.
  Spin locks, tasklet bookkeeping and log messages have no state here.
\<close>

subsection \<open>Cookies\<close>

text \<open>
  Cookies are signed 32-bit integers; the kernel is compiled with wrap-around.  \<open>DMA_MIN_COOKIE\<close> is a constant of
  the kernel and an argument here.
\<close>

datatype dma_status = DMA_COMPLETE | DMA_IN_PROGRESS

record dma_chan =
  chan_cookie :: u32
  chan_completed_cookie :: u32

record dma_tx_state =
  st_last :: u32
  st_used :: u32
  st_residue :: u32
  st_in_flight_bytes :: u32

definition dma_cookie_assign :: "u32 \<Rightarrow> dma_chan \<Rightarrow> u32 \<times> dma_chan" where
  "dma_cookie_assign DMA_MIN_COOKIE chan =
     (let cookie = chan_cookie chan + 1;
          cookie = (if sint cookie < sint DMA_MIN_COOKIE then DMA_MIN_COOKIE else cookie)
      in (cookie, chan\<lparr>chan_cookie := cookie\<rparr>))"

text \<open>The descriptor's cookie is the first argument; its new value is zero.\<close>

definition dma_cookie_complete :: "u32 \<Rightarrow> dma_chan \<Rightarrow> u32 \<times> dma_chan" where
  "dma_cookie_complete tx_cookie chan = (0, chan\<lparr>chan_completed_cookie := tx_cookie\<rparr>)"

definition dma_cookie_status :: "dma_chan \<Rightarrow> u32 \<Rightarrow> dma_status \<times> dma_tx_state" where
  "dma_cookie_status chan cookie =
     (let used = chan_cookie chan; complete = chan_completed_cookie chan;
          state = \<lparr>st_last = complete, st_used = used, st_residue = 0, st_in_flight_bytes = 0\<rparr>
      in (if sint complete \<le> sint used then
            if sint cookie \<le> sint complete \<or> sint used < sint cookie then DMA_COMPLETE else DMA_IN_PROGRESS
          else
            if sint cookie \<le> sint complete \<and> sint used < sint cookie then DMA_COMPLETE else DMA_IN_PROGRESS,
          state))"

subsection \<open>Channels and devices\<close>

definition AL_DMA_MAX_XOR :: nat where "AL_DMA_MAX_XOR = 31"

text \<open>
  The flags of a request, as the driver tests them: the word is seen through its three named bits.
\<close>

record dma_ctrl_flags =
  DMA_PREP_INTERRUPT :: bool
  DMA_PREP_PQ_DISABLE_P :: bool
  DMA_PREP_PQ_DISABLE_Q :: bool

text \<open>A software descriptor; \<open>sd_chan\<close> is the channel set by \<open>dma_async_tx_descriptor_init\<close>.\<close>

record al_dma_sw_desc =
  sd_cookie :: u32
  sd_chan :: "nat option"
  sd_flags :: dma_ctrl_flags
  sd_tx_descs_count :: u32
  sd_is_memset :: bool

text \<open>
  \<open>head\<close>, \<open>tail\<close> and the ring size are never negative and are natural numbers; the software ring is \<^term>\<open>None\<close> when the
  pointer is \<open>NULL\<close>.
\<close>

record al_dma_chan =
  dchan :: dma_chan
  ch_idx :: nat
  sw_ring :: "al_dma_sw_desc list option"
  sw_ring_count :: nat
  ch_head :: nat
  ch_tail :: nat
  tx_ring :: ptr
  tx_ring_dma :: u64
  tx_cring :: ptr
  tx_cring_dma :: u64
  rx_ring :: ptr
  rx_ring_dma :: u64
  rx_cring :: ptr
  rx_cring_dma :: u64

record al_dma_device =
  dev_udma_regs :: ptr
  dev_app_regs :: ptr
  hal_dma :: al_ssm_dma
  dev_rev_id :: u8
  num_channels :: int
  channels :: "al_dma_chan list"

text \<open>The state the driver works on: device, descriptor memory, registers, and the coherent memory it holds.\<close>

record drv =
  dev :: al_dma_device
  dmem :: desc_mem
  io :: mmio
  coherent :: "(ptr \<times> u64) list"

definition ch_update :: "nat \<Rightarrow> (al_dma_chan \<Rightarrow> al_dma_chan) \<Rightarrow> drv \<Rightarrow> drv" where
  "ch_update c f s = s\<lparr>dev := (dev s)\<lparr>channels := (channels (dev s))[c := f (channels (dev s) ! c)]\<rparr>\<rparr>"

abbreviation drv_chan :: "drv \<Rightarrow> nat \<Rightarrow> al_dma_chan" where
  "drv_chan s c \<equiv> channels (dev s) ! c"

abbreviation drv_hal :: "drv \<Rightarrow> al_ssm_dma" where
  "drv_hal s \<equiv> hal_dma (dev s)"

subsection \<open>The software ring\<close>

text \<open>A pointer into the ring is its index; \<^term>\<open>None\<close> inside is \<open>NULL\<close>.\<close>

definition al_dma_get_sw_desc :: "al_dma_chan \<Rightarrow> nat option \<times> al_dma_chan" where
  "al_dma_get_sw_desc ch =
     (if (ch_head ch + 1) mod sw_ring_count ch = ch_tail ch then (None, ch)
      else (Some (ch_head ch), ch\<lparr>ch_head := (ch_head ch + 1) mod sw_ring_count ch\<rparr>))"

text \<open>\<open>ch->head = (ch->head - 1 + ch->sw_ring_count) % ch->sw_ring_count\<close> of the error paths.\<close>

definition sw_desc_undo :: "al_dma_chan \<Rightarrow> al_dma_chan" where
  "sw_desc_undo ch = ch\<lparr>ch_head := (ch_head ch + sw_ring_count ch - 1) mod sw_ring_count ch\<rparr>"

text \<open>Writing a software descriptor; a write through a null or wild pointer stops the kernel.\<close>

definition sw_desc_set :: "nat \<Rightarrow> (al_dma_sw_desc \<Rightarrow> al_dma_sw_desc) \<Rightarrow> al_dma_chan \<Rightarrow> al_dma_chan option" where
  "sw_desc_set i f ch =
     (case sw_ring ch of
        None \<Rightarrow> None
      | Some r \<Rightarrow> if i < length r then Some (ch\<lparr>sw_ring := Some (r[i := f (r ! i)])\<rparr>) else None)"

subsection \<open>dmaengine callbacks\<close>

definition al_dma_tx_status :: "al_dma_chan \<Rightarrow> u32 \<Rightarrow> dma_status \<times> dma_tx_state" where
  "al_dma_tx_status ch cookie = dma_cookie_status (dchan ch) cookie"

text \<open>Submission of descriptor \<open>i\<close> of channel \<open>c\<close>.\<close>

definition al_dma_tx_submit :: "u32 \<Rightarrow> nat \<Rightarrow> nat \<Rightarrow> drv \<Rightarrow> (u32 \<times> drv) option" where
  "al_dma_tx_submit min_cookie c i s =
     (let (cookie, dch) = dma_cookie_assign min_cookie (dchan (drv_chan s c))
      in do { ch \<leftarrow> sw_desc_set i (\<lambda>d. d\<lparr>sd_cookie := cookie\<rparr>) (drv_chan s c);
              Some (cookie, ch_update c (\<lambda>_. ch\<lparr>dchan := dch\<rparr>) s) })"

partial_function (option) issue_pending_loop ::
  "al_ssm_dma \<Rightarrow> al_dma_chan \<Rightarrow> mmio \<Rightarrow> nat \<Rightarrow> (al_dma_chan \<times> mmio \<times> nat) option" where
  "issue_pending_loop hal ch m submitted =
     (if ch_tail ch = ch_head ch then Some (ch, m, submitted)
      else
        Option.bind (sw_ring ch) (\<lambda>ring.
        Option.bind (al_assert (ch_tail ch < length ring)) (\<lambda>_.
        let count = sd_tx_descs_count (ring ! ch_tail ch); ch' = ch\<lparr>ch_tail := (ch_tail ch + 1) mod sw_ring_count ch\<rparr> in
        if 0 < sint count then
          Option.bind (al_raid_dma_action hal (of_nat (ch_idx ch)) count m) (\<lambda>m. issue_pending_loop hal ch' m (submitted + 1))
        else issue_pending_loop hal ch' m submitted)))"

text \<open>The second result says whether the clean-up tasklet was scheduled.\<close>

definition al_dma_issue_pending :: "nat \<Rightarrow> drv \<Rightarrow> (drv \<times> bool) option" where
  "al_dma_issue_pending c s =
     do { (ch, m, submitted) \<leftarrow> issue_pending_loop (drv_hal s) (drv_chan s c) (io s) 0;
          Some ((ch_update c (\<lambda>_. ch) s)\<lparr>io := m\<rparr>, 0 < submitted) }"

text \<open>The tasklet; the result collects the status of the completions it warned about.\<close>

partial_function (option) cleanup_loop :: "(ptr \<Rightarrow> u32) \<Rightarrow> u32 \<Rightarrow> al_ssm_dma \<Rightarrow> u32 list \<Rightarrow> (al_ssm_dma \<times> u32 list) option" where
  "cleanup_loop cmem idx hal warned =
     Option.bind (al_raid_dma_completion cmem hal idx) (\<lambda>r.
       case r of (ret, comp_status, hal) \<Rightarrow>
         if ret then
           (let warned = (case comp_status of
                None \<Rightarrow> warned
              | Some st \<Rightarrow> if st \<noteq> 0 then warned @ [st] else warned)
            in cleanup_loop cmem idx hal warned)
         else Some (hal, warned))"

definition al_dma_cleanup_tasklet :: "(ptr \<Rightarrow> u32) \<Rightarrow> nat \<Rightarrow> drv \<Rightarrow> (u32 list \<times> drv) option" where
  "al_dma_cleanup_tasklet cmem c s =
     do { (hal, warned) \<leftarrow> cleanup_loop cmem (of_nat (ch_idx (drv_chan s c))) (drv_hal s) [];
          Some (warned, s\<lparr>dev := (dev s)\<lparr>hal_dma := hal\<rparr>\<rparr>) }"

subsection \<open>Channel resources\<close>

text \<open>What the allocators answer; a null pointer is a failure.\<close>

record chan_allocs =
  got_sw_ring :: bool
  got_tx_ring :: "ptr \<times> u64"
  got_tx_cring :: "ptr \<times> u64"
  got_rx_ring :: "ptr \<times> u64"
  got_rx_cring :: "ptr \<times> u64"

definition zero_sw_desc :: al_dma_sw_desc where
  "zero_sw_desc = \<lparr>sd_cookie = 0, sd_chan = None,
     sd_flags = \<lparr>DMA_PREP_INTERRUPT = False, DMA_PREP_PQ_DISABLE_P = False, DMA_PREP_PQ_DISABLE_Q = False\<rparr>,
     sd_tx_descs_count = 0, sd_is_memset = False\<rparr>"

definition coherent_hold :: "ptr \<times> u64 \<Rightarrow> drv \<Rightarrow> drv" where
  "coherent_hold r s = s\<lparr>coherent := coherent s @ [r]\<rparr>"

definition dma_free_coherent :: "ptr \<Rightarrow> u64 \<Rightarrow> drv \<Rightarrow> drv" where
  "dma_free_coherent p d s = s\<lparr>coherent := remove1 (p, d) (coherent s)\<rparr>"

text \<open>The error labels of \<open>al_dma_alloc_chan_resources\<close>, from the last to the first.\<close>

definition err_tx_ring :: "nat \<Rightarrow> drv \<Rightarrow> (errno + nat) \<times> drv" where
  "err_tx_ring c s = (Inl ENOMEM, ch_update c (\<lambda>ch. ch\<lparr>sw_ring := None\<rparr>) s)"

definition err_tx_cring :: "nat \<Rightarrow> drv \<Rightarrow> (errno + nat) \<times> drv" where
  "err_tx_cring c s = err_tx_ring c (dma_free_coherent (tx_ring (drv_chan s c)) (tx_ring_dma (drv_chan s c)) s)"

definition err_rx_ring :: "nat \<Rightarrow> drv \<Rightarrow> (errno + nat) \<times> drv" where
  "err_rx_ring c s = err_tx_cring c (dma_free_coherent (tx_cring (drv_chan s c)) (tx_cring_dma (drv_chan s c)) s)"

definition err_rx_cring :: "nat \<Rightarrow> drv \<Rightarrow> (errno + nat) \<times> drv" where
  "err_rx_cring c s = err_rx_ring c (dma_free_coherent (rx_ring (drv_chan s c)) (rx_ring_dma (drv_chan s c)) s)"

definition err_q_init :: "nat \<Rightarrow> drv \<Rightarrow> (errno + nat) \<times> drv" where
  "err_q_init c s = err_rx_cring c (dma_free_coherent (rx_cring (drv_chan s c)) (rx_cring_dma (drv_chan s c)) s)"

definition sizeof_al_udma_cdesc :: u32 where "sizeof_al_udma_cdesc = 4"

definition tx_q_params :: "nat \<Rightarrow> al_dma_chan \<Rightarrow> al_udma_q_params" where
  "tx_q_params ring_size ch =
     \<lparr>qp_size = of_nat ring_size, qp_desc_base = tx_ring ch, qp_desc_phy_base = tx_ring_dma ch,
      qp_cdesc_base = tx_cring ch, qp_cdesc_phy_base = tx_cring_dma ch, qp_cdesc_size = sizeof_al_udma_cdesc, qp_adapter_rev_id = 0\<rparr>"

definition rx_q_params :: "nat \<Rightarrow> al_dma_chan \<Rightarrow> al_udma_q_params" where
  "rx_q_params ring_size ch =
     \<lparr>qp_size = of_nat ring_size, qp_desc_base = rx_ring ch, qp_desc_phy_base = rx_ring_dma ch,
      qp_cdesc_base = rx_cring ch, qp_cdesc_phy_base = rx_cring_dma ch, qp_cdesc_size = sizeof_al_udma_cdesc, qp_adapter_rev_id = 0\<rparr>"

text \<open>\<open>ring_alloc_order\<close> is the module parameter; the result is the ring size or a negated error number.\<close>

definition al_dma_alloc_chan_resources :: "nat \<Rightarrow> chan_allocs \<Rightarrow> nat \<Rightarrow> drv \<Rightarrow> ((errno + nat) \<times> drv) option" where
  "al_dma_alloc_chan_resources ring_alloc_order got c s =
     (let ring_size = 2 ^ ring_alloc_order;
          s = ch_update c (\<lambda>ch. ch\<lparr>sw_ring_count := ring_size,
                sw_ring := (if got_sw_ring got then Some (replicate ring_size zero_sw_desc) else None)\<rparr>) s
      in if \<not> got_sw_ring got then Some (Inl ENOMEM, s) else
      let s = ch_update c (\<lambda>ch. ch\<lparr>tx_ring := fst (got_tx_ring got), tx_ring_dma := snd (got_tx_ring got)\<rparr>) s
      in if fst (got_tx_ring got) = NULL then Some (err_tx_ring c s) else
      let s = coherent_hold (got_tx_ring got) s;
          s = ch_update c (\<lambda>ch. ch\<lparr>tx_cring := fst (got_tx_cring got), tx_cring_dma := snd (got_tx_cring got)\<rparr>) s
      in if fst (got_tx_cring got) = NULL then Some (err_tx_cring c s) else
      let s = coherent_hold (got_tx_cring got) s;
          s = ch_update c (\<lambda>ch. ch\<lparr>rx_ring := fst (got_rx_ring got), rx_ring_dma := snd (got_rx_ring got)\<rparr>) s
      in if fst (got_rx_ring got) = NULL then Some (err_rx_ring c s) else
      let s = coherent_hold (got_rx_ring got) s;
          s = ch_update c (\<lambda>ch. ch\<lparr>rx_cring := fst (got_rx_cring got), rx_cring_dma := snd (got_rx_cring got)\<rparr>) s
      in if fst (got_rx_cring got) = NULL then Some (err_rx_cring c s) else
      let s = coherent_hold (got_rx_cring got) s
      in do {
        (rc, hal, m) \<leftarrow> al_ssm_dma_q_init (drv_hal s) (of_nat (ch_idx (drv_chan s c)))
                         (tx_q_params ring_size (drv_chan s c)) (rx_q_params ring_size (drv_chan s c)) AL_RAID_Q (io s);
        let s = s\<lparr>dev := (dev s)\<lparr>hal_dma := hal\<rparr>, io := m\<rparr>;
        if rc \<noteq> RcOk then Some (err_q_init c s)
        else Some (Inr ring_size, ch_update c (\<lambda>ch. ch\<lparr>ch_head := 0, ch_tail := 0\<rparr>) s) })"

definition free_if :: "ptr \<Rightarrow> u64 \<Rightarrow> drv \<Rightarrow> drv" where
  "free_if p d s = (if p \<noteq> NULL then dma_free_coherent p d s else s)"

definition al_dma_free_chan_resources :: "nat \<Rightarrow> drv \<Rightarrow> drv" where
  "al_dma_free_chan_resources c s =
     (let ch = drv_chan s c in
      if sw_ring ch = None then s
      else
        let s = free_if (rx_cring ch) (rx_cring_dma ch) s;
            s = free_if (rx_ring ch) (rx_ring_dma ch) s;
            s = free_if (tx_cring ch) (tx_cring_dma ch) s;
            s = free_if (tx_ring ch) (tx_ring_dma ch) s
        in ch_update c (\<lambda>ch. ch\<lparr>sw_ring := None\<rparr>) s)"

subsection \<open>Preparation of operations\<close>

definition one_block :: "u64 \<Rightarrow> u64 \<Rightarrow> al_block" where
  "one_block addr len = \<lparr>bufs = [\<lparr>buf_addr = addr, buf_len = ucast len\<rparr>], blk_num = 1, tgtid = 0\<rparr>"

definition prep_flags :: "dma_ctrl_flags \<Rightarrow> u32" where
  "prep_flags flags =
     (let f = AL_SSM_SRC_NO_SNOOP OR AL_SSM_DEST_NO_SNOOP in if DMA_PREP_INTERRUPT flags then f OR AL_SSM_INTERRUPT else f)"

text \<open>The zeroed transaction with the fields the three functions set.\<close>

definition prep_xaction :: "al_raid_op \<Rightarrow> dma_ctrl_flags \<Rightarrow> al_block list \<Rightarrow> al_block list \<Rightarrow> u8 list \<Rightarrow> al_raid_transaction" where
  "prep_xaction op flags srcs dsts cfs =
     \<lparr>xop = op, xflags = prep_flags flags, srcs_blocks = srcs, num_of_srcs = of_nat (length srcs), total_src_bufs = of_nat (length srcs),
      dsts_blocks = dsts, num_of_dsts = of_nat (length dsts), total_dst_bufs = of_nat (length dsts), tx_descs_count = 0,
      coefs = cfs, q_index = 0, mem_set_data0 = 0, mem_set_data1 = 0, mem_set_flags = 0\<rparr>"

text \<open>
  The part from the lock to the unlock, the same in the three functions: take a software descriptor, prepare the
  transaction, give the descriptor back on failure, fill it in on success.  The result is the descriptor or \<open>NULL\<close>.
\<close>

definition prep_submit :: "u32 \<Rightarrow> nat \<Rightarrow> al_raid_transaction \<Rightarrow> dma_ctrl_flags \<Rightarrow> drv \<Rightarrow> (nat option \<times> drv) option" where
  "prep_submit crhp c x flags s =
     (case al_dma_get_sw_desc (drv_chan s c) of
        (None, _) \<Rightarrow> Some (None, s)
      | (Some i, ch) \<Rightarrow> do {
          (rc, hal, x, mem, m) \<leftarrow> al_raid_dma_prepare crhp (drv_hal s) (of_nat (ch_idx ch)) x (dmem s) (io s);
          let s = s\<lparr>dev := (dev s)\<lparr>hal_dma := hal\<rparr>, dmem := mem, io := m\<rparr>;
          if rc \<noteq> RcOk then Some (None, ch_update c (\<lambda>_. sw_desc_undo ch) s)
          else do {
            ch \<leftarrow> sw_desc_set i (\<lambda>d. d\<lparr>sd_tx_descs_count := tx_descs_count x, sd_is_memset := False,
                                         sd_chan := Some c, sd_flags := flags\<rparr>) ch;
            Some (Some i, ch_update c (\<lambda>_. ch) s) } })"

definition al_dma_prep_dma_memcpy ::
  "u32 \<Rightarrow> nat \<Rightarrow> u64 \<Rightarrow> u64 \<Rightarrow> u64 \<Rightarrow> dma_ctrl_flags \<Rightarrow> drv \<Rightarrow> (nat option \<times> drv) option" where
  "al_dma_prep_dma_memcpy crhp c dest src len flags s =
     prep_submit crhp c (prep_xaction AL_RAID_OP_MEM_CPY flags [one_block src len] [one_block dest len] []) flags s"

text \<open>\<open>kc\<close> tells which of the temporary allocations succeed.\<close>

definition al_dma_prep_dma_xor ::
  "u32 \<Rightarrow> bool \<times> bool \<Rightarrow> nat \<Rightarrow> u64 \<Rightarrow> u64 list \<Rightarrow> u64 \<Rightarrow> dma_ctrl_flags \<Rightarrow> drv \<Rightarrow> (nat option \<times> drv) option" where
  "al_dma_prep_dma_xor crhp kc c dest src len flags s =
     (if AL_DMA_MAX_XOR < length src then Some (None, s)
      else if \<not> fst kc then Some (None, s)
      else if \<not> snd kc then Some (None, s)
      else prep_submit crhp c
             (prep_xaction AL_RAID_OP_P_CALC flags (map (\<lambda>a. one_block a len) src) [one_block dest len] []) flags s)"

definition pq_dsts :: "u64 \<times> u64 \<Rightarrow> u64 \<Rightarrow> dma_ctrl_flags \<Rightarrow> al_block list" where
  "pq_dsts dst len flags =
     (if DMA_PREP_PQ_DISABLE_P flags then [] else [one_block (fst dst) len]) @
     (if DMA_PREP_PQ_DISABLE_Q flags then [] else [one_block (snd dst) len])"

definition pq_op :: "dma_ctrl_flags \<Rightarrow> al_raid_op" where
  "pq_op flags =
     (if DMA_PREP_PQ_DISABLE_P flags \<and> \<not> DMA_PREP_PQ_DISABLE_Q flags then AL_RAID_OP_Q_CALC
      else if \<not> DMA_PREP_PQ_DISABLE_P flags \<and> DMA_PREP_PQ_DISABLE_Q flags then AL_RAID_OP_P_CALC
      else AL_RAID_OP_PQ_CALC)"

definition al_dma_prep_dma_pq ::
  "u32 \<Rightarrow> bool \<times> bool \<times> bool \<Rightarrow> nat \<Rightarrow> u64 \<times> u64 \<Rightarrow> u64 list \<Rightarrow> u8 list \<Rightarrow> u64 \<Rightarrow> dma_ctrl_flags \<Rightarrow> drv \<Rightarrow> (nat option \<times> drv) option" where
  "al_dma_prep_dma_pq crhp kc c dst src scf len flags s =
     (if AL_DMA_MAX_XOR < length src then Some (None, s)
      else if \<not> fst kc then Some (None, s)
      else if \<not> fst (snd kc) then Some (None, s)
      else if \<not> snd (snd kc) then Some (None, s)
      else prep_submit crhp c
             (prep_xaction (pq_op flags) flags (map (\<lambda>a. one_block a len) src) (pq_dsts dst len flags) (take (length src) scf)) flags s)"

subsection \<open>PCI probe and remove\<close>

text \<open>The zero-initialised device that \<open>kzalloc\<close> returns.\<close>

definition zero_udma_q :: al_udma_q where
  "zero_udma_q = \<lparr>size_mask = 0, q_regs = NULL, desc_base_ptr = NULL, next_desc_idx = 0, desc_ring_id = 0, cdesc_base_ptr = NULL,
     cdesc_size = 0, next_cdesc_idx = 0, end_cdesc_ptr = NULL, comp_head_idx = 0, comp_head_ptr = NULL, pkt_crnt_descs = 0,
     comp_ring_id = 0, desc_phy_base = 0, cdesc_phy_base = 0, q_flags = 0, q_size = 0, q_status = AL_QUEUE_NOT_INITIALIZED,
     qid = 0, q_adapter_rev_id = 0\<rparr>"

definition zero_udma :: al_udma where
  "zero_udma = \<lparr>udma_name = '''', udma_type = UDMA_TX, udma_state = UDMA_DISABLE, num_of_queues = 0, udma_regs = NULL,
     gen_regs = NULL, udma_q = replicate DMA_MAX_Q zero_udma_q, udma_rev_id = 0\<rparr>"

definition zero_ssm_dma :: al_ssm_dma where
  "zero_ssm_dma = \<lparr>ssm_rev_id = 0,
     m2m_udma = \<lparr>m2m_name = None, m2m_udma_regs_base = NULL, m2m_num_of_queues = 0, tx_udma = zero_udma, rx_udma = zero_udma\<rparr>,
     q_types = replicate DMA_MAX_Q AL_CRYPT_AUTH_Q, ssm_max_src_descs = 0, ssm_max_dst_descs = 0\<rparr>"

definition zero_chan :: al_dma_chan where
  "zero_chan = \<lparr>dchan = \<lparr>chan_cookie = 0, chan_completed_cookie = 0\<rparr>, ch_idx = 0, sw_ring = None, sw_ring_count = 0,
     ch_head = 0, ch_tail = 0, tx_ring = NULL, tx_ring_dma = 0, tx_cring = NULL, tx_cring_dma = 0,
     rx_ring = NULL, rx_ring_dma = 0, rx_cring = NULL, rx_cring_dma = 0\<rparr>"

definition zero_device :: al_dma_device where
  "zero_device = \<lparr>dev_udma_regs = NULL, dev_app_regs = NULL, hal_dma = zero_ssm_dma, dev_rev_id = 0, num_channels = 0,
     channels = replicate DMA_MAX_Q zero_chan\<rparr>"

text \<open>What the kernel answers to the calls of the probe function, and the resources it hands out.\<close>

record probe_results =
  pr_kzalloc :: bool
  pr_enable :: rc
  pr_regions :: rc
  pr_dma_mask :: rc
  pr_bar0 :: ptr
  pr_bar4 :: ptr
  pr_revision :: u8
  pr_register :: rc

datatype pci_resource = Dev_memory | Pci_enabled | Pci_regions | Bar0_mapped | Bar4_mapped | Dma_registered | Sysfs_group

definition release_resource :: "pci_resource \<Rightarrow> pci_resource list \<Rightarrow> pci_resource list" where
  "release_resource r held = remove1 r held"

text \<open>The error labels of the probe function; each falls through to the next.\<close>

definition probe_err_free :: "pci_resource list \<Rightarrow> pci_resource list" where
  "probe_err_free held = release_resource Dev_memory held"

definition probe_err_disable :: "pci_resource list \<Rightarrow> pci_resource list" where
  "probe_err_disable held = probe_err_free (release_resource Pci_enabled held)"

definition probe_err_regions :: "pci_resource list \<Rightarrow> pci_resource list" where
  "probe_err_regions held = probe_err_disable (release_resource Pci_regions held)"

definition probe_err_unmap_udma :: "pci_resource list \<Rightarrow> pci_resource list" where
  "probe_err_unmap_udma held = probe_err_regions (release_resource Bar0_mapped held)"

definition probe_err_unmap_app :: "pci_resource list \<Rightarrow> pci_resource list" where
  "probe_err_unmap_app held = probe_err_unmap_udma (release_resource Bar4_mapped held)"

fun probe_channels :: "nat \<Rightarrow> nat \<Rightarrow> al_dma_chan list \<Rightarrow> al_dma_chan list" where
  "probe_channels i 0 chs = chs"
| "probe_channels i (Suc n) chs = probe_channels (Suc i) n (chs[i := (chs ! i)\<lparr>ch_idx := i\<rparr>])"

definition al_dma_pci_probe :: "int \<Rightarrow> probe_results \<Rightarrow> mmio \<Rightarrow> (rc \<times> pci_resource list \<times> al_dma_device \<times> mmio) option" where
  "al_dma_pci_probe max_channels pr m =
     (let aldev = zero_device in
      if \<not> pr_kzalloc pr then Some (RcErr ENOMEM, [], aldev, m) else
      let held = [Dev_memory] in
      if pr_enable pr \<noteq> RcOk then Some (pr_enable pr, probe_err_free held, aldev, m) else
      let held = held @ [Pci_enabled] in
      if pr_regions pr \<noteq> RcOk then Some (pr_regions pr, probe_err_disable held, aldev, m) else
      let held = held @ [Pci_regions] in
      if pr_dma_mask pr \<noteq> RcOk then Some (pr_dma_mask pr, probe_err_regions held, aldev, m) else
      let aldev = aldev\<lparr>dev_udma_regs := pr_bar0 pr\<rparr> in
      if dev_udma_regs aldev = NULL then Some (RcErr ENOMEM, probe_err_regions held, aldev, m) else
      let held = held @ [Bar0_mapped]; aldev = aldev\<lparr>dev_app_regs := pr_bar4 pr\<rparr> in
      if dev_app_regs aldev = NULL then Some (RcErr ENOMEM, probe_err_unmap_udma held, aldev, m) else
      let held = held @ [Bar4_mapped];
          n = min max_channels (int DMA_MAX_Q);
          aldev = aldev\<lparr>dev_rev_id := pr_revision pr, num_channels := n\<rparr>;
          hal_params = \<lparr>sp_rev_id = dev_rev_id aldev, sp_udma_regs_base = dev_udma_regs aldev, sp_name = Some ''al_dma'',
                        sp_num_of_queues = word_of_int n\<rparr>
      in do {
        (rc, hal, m) \<leftarrow> al_ssm_dma_init (hal_dma aldev) hal_params m;
        let aldev = aldev\<lparr>hal_dma := hal\<rparr>;
        if rc \<noteq> RcOk then Some (rc, probe_err_unmap_app held, aldev, m)
        else
          let (rc, hal, m) = al_ssm_dma_state_set (hal_dma aldev) UDMA_NORMAL m; aldev = aldev\<lparr>hal_dma := hal\<rparr>
          in if rc \<noteq> RcOk then Some (rc, probe_err_unmap_app held, aldev, m)
             else
               let m = al_raid_init (hal_dma aldev) (dev_app_regs aldev) m;
                   aldev = aldev\<lparr>channels := probe_channels 0 (nat n) (channels aldev)\<rparr>
               in if pr_register pr \<noteq> RcOk then Some (pr_register pr, probe_err_unmap_app held, aldev, m)
                  else Some (RcOk, held @ [Dma_registered, Sysfs_group], aldev, m) })"

definition al_dma_pci_remove :: "al_dma_device \<Rightarrow> pci_resource list \<Rightarrow> mmio \<Rightarrow> pci_resource list \<times> al_dma_device \<times> mmio" where
  "al_dma_pci_remove aldev held m =
     (let held = release_resource Sysfs_group held;
          held = release_resource Dma_registered held;
          (_, hal, m) = al_ssm_dma_state_set (hal_dma aldev) UDMA_DISABLE m;
          aldev = aldev\<lparr>hal_dma := hal\<rparr>;
          held = release_resource Bar4_mapped held;
          held = release_resource Bar0_mapped held;
          held = release_resource Pci_regions held;
          held = release_resource Pci_enabled held;
          held = release_resource Dev_memory held
      in (held, aldev, m))"

end
