(* ===== verification/Dma_Drv_Props.thy ===== *)
theory Dma_Drv_Props
  imports Dma_Drv
begin

text \<open>
  Correctness of the dmaengine driver: the software ring as an instance of the ring contract, issue of the pending
  descriptors, the doorbell accounting that ties software ring, transmit ring and registers together, the clean-up
  tasklet, cookies, channel resources and the probe path.
\<close>

subsection \<open>The software ring\<close>

definition sw_ring_ok :: "al_dma_chan \<Rightarrow> bool" where
  "sw_ring_ok ch \<longleftrightarrow> ch_head ch < sw_ring_count ch \<and> ch_tail ch < sw_ring_count ch \<and>
     (\<exists>r. sw_ring ch = Some r \<and> length r = sw_ring_count ch)"

definition sw_in_flight :: "al_dma_chan \<Rightarrow> nat" where
  "sw_in_flight ch = (ch_head ch + sw_ring_count ch - ch_tail ch) mod sw_ring_count ch"

text \<open>Descriptors handed out and not yet issued, oldest first.\<close>

definition sw_pend :: "al_dma_chan \<Rightarrow> nat list" where
  "sw_pend ch = ring_slots (sw_ring_count ch) (ch_tail ch) (sw_in_flight ch)"

definition sw_avail :: "al_dma_chan \<Rightarrow> nat" where
  "sw_avail ch = (ch_tail ch + sw_ring_count ch - (ch_head ch + 1)) mod sw_ring_count ch"

definition sw_release :: "al_dma_chan \<Rightarrow> nat \<Rightarrow> al_dma_chan" where
  "sw_release ch n = ch\<lparr>ch_tail := (ch_tail ch + n) mod sw_ring_count ch\<rparr>"

lemma sw_release_simps [simp]:
  "ch_idx (sw_release ch n) = ch_idx ch" "ch_head (sw_release ch n) = ch_head ch" "sw_ring (sw_release ch n) = sw_ring ch"
  "sw_ring_count (sw_release ch n) = sw_ring_count ch" "(sw_release ch n)\<lparr>ch_tail := t\<rparr> = ch\<lparr>ch_tail := t\<rparr>"
  by (simp_all add: sw_release_def)

lemma length_sw_pend [simp]: "length (sw_pend ch) = sw_in_flight ch"
  by (simp add: sw_pend_def)

lemma sw_flight_less: "sw_ring_ok ch \<Longrightarrow> sw_in_flight ch < sw_ring_count ch"
  by (auto simp: sw_ring_ok_def sw_in_flight_def)

lemma sw_flight_index: "sw_ring_ok ch \<Longrightarrow> (ch_tail ch + sw_in_flight ch) mod sw_ring_count ch = ch_head ch"
  by (simp add: sw_ring_ok_def sw_in_flight_def flight_index)

lemma sw_flight_eqI:
  assumes "sw_ring_ok ch" "f < sw_ring_count ch" "(ch_tail ch + f) mod sw_ring_count ch = ch_head ch"
  shows "sw_in_flight ch = f"
  using assms flight_unique [of "ch_tail ch" "sw_ring_count ch" f] by (simp add: sw_in_flight_def sw_ring_ok_def)

lemma sw_avail_flight: "sw_ring_ok ch \<Longrightarrow> sw_avail ch + sw_in_flight ch = sw_ring_count ch - 1"
  using ring_count [of "ch_head ch" "sw_ring_count ch" "ch_tail ch"] by (simp add: sw_ring_ok_def sw_avail_def sw_in_flight_def)

lemma head_back:
  fixes h n :: nat
  assumes "h < n"
  shows "((h + 1) mod n + (n - 1)) mod n = h"
proof -
  have "((h + 1) mod n + (n - 1)) mod n = (h + 1 + (n - 1)) mod n" by (rule mod_add_left_eq)
  also have "\<dots> = h" using assms by simp
  finally show ?thesis .
qed

lemma sw_avail_zero:
  assumes "sw_ring_ok ch"
  shows "sw_avail ch = 0 \<longleftrightarrow> (ch_head ch + 1) mod sw_ring_count ch = ch_tail ch"
proof
  assume "sw_avail ch = 0"
  then have "sw_in_flight ch + 1 = sw_ring_count ch" using sw_avail_flight [OF assms] assms by (auto simp: sw_ring_ok_def)
  then have "(ch_head ch + 1) mod sw_ring_count ch = (ch_tail ch + sw_ring_count ch) mod sw_ring_count ch"
    using sw_flight_index [OF assms] by (metis add.assoc mod_add_left_eq)
  then show "(ch_head ch + 1) mod sw_ring_count ch = ch_tail ch" using assms by (simp add: sw_ring_ok_def)
next
  assume e: "(ch_head ch + 1) mod sw_ring_count ch = ch_tail ch"
  have "(ch_tail ch + (sw_ring_count ch - 1)) mod sw_ring_count ch = ch_head ch"
    unfolding e [symmetric] using assms by (intro head_back) (simp add: sw_ring_ok_def)
  then have "sw_in_flight ch = sw_ring_count ch - 1" using assms by (intro sw_flight_eqI) (auto simp: sw_ring_ok_def)
  then show "sw_avail ch = 0" using sw_avail_flight [OF assms] by simp
qed

text \<open>Taking a descriptor, seen as an allocation of the ring contract.\<close>

definition sw_alloc :: "al_dma_chan \<Rightarrow> nat \<times> al_dma_chan" where
  "sw_alloc ch = (case al_dma_get_sw_desc ch of (Some i, ch') \<Rightarrow> (i, ch') | (None, ch') \<Rightarrow> (0, ch'))"

lemma get_sw_desc_eq:
  assumes "sw_ring_ok ch"
  shows "al_dma_get_sw_desc ch = (if sw_avail ch = 0 then (None, ch)
    else (Some (ch_head ch), ch\<lparr>ch_head := (ch_head ch + 1) mod sw_ring_count ch\<rparr>))"
  using sw_avail_zero [OF assms] by (simp add: al_dma_get_sw_desc_def)

lemma sw_head_step:
  assumes ok: "sw_ring_ok ch" and av: "0 < sw_avail ch"
  defines "ch' \<equiv> ch\<lparr>ch_head := (ch_head ch + 1) mod sw_ring_count ch\<rparr>"
  shows "sw_ring_ok ch' \<and> sw_pend ch' = sw_pend ch @ [ch_head ch]"
proof -
  let ?n = "sw_ring_count ch" and ?f = "sw_in_flight ch"
  have ok': "sw_ring_ok ch'" using ok by (auto simp: sw_ring_ok_def ch'_def)
  have "?f + 1 < ?n" using sw_avail_flight [OF ok] av by simp
  moreover have "(ch_tail ch + (?f + 1)) mod ?n = (ch_head ch + 1) mod ?n"
    using sw_flight_index [OF ok] by (metis add.assoc mod_add_left_eq)
  ultimately have "sw_in_flight ch' = ?f + 1"
    using ok' by (intro sw_flight_eqI) (simp_all add: ch'_def)
  then show ?thesis using ok' sw_flight_index [OF ok] by (simp add: sw_pend_def ch'_def ring_slots_Suc)
qed

lemma sw_release_step:
  assumes ok: "sw_ring_ok ch" and le: "n \<le> sw_in_flight ch"
  shows "sw_ring_ok (sw_release ch n) \<and> sw_pend (sw_release ch n) = drop n (sw_pend ch)"
proof -
  let ?c = "sw_ring_count ch" and ?f = "sw_in_flight ch" and ?ch = "sw_release ch n"
  have ok': "sw_ring_ok ?ch" using ok by (auto simp: sw_ring_ok_def sw_release_def)
  have "((ch_tail ch + n) mod ?c + (?f - n)) mod ?c = (ch_tail ch + n + (?f - n)) mod ?c" by (rule mod_add_left_eq)
  also have "ch_tail ch + n + (?f - n) = ch_tail ch + ?f" using le by simp
  finally have "sw_in_flight ?ch = ?f - n"
    using ok' sw_flight_less [OF ok] sw_flight_index [OF ok] by (intro sw_flight_eqI) (simp_all add: sw_release_def)
  then show ?thesis using ok' le by (simp add: sw_pend_def sw_release_def ring_slots_drop ring_slots_mod)
qed

interpretation sw: bounded_ring sw_ring_ok "\<lambda>ch. sw_ring_count ch - 1" sw_pend sw_avail sw_alloc sw_release
proof (unfold_locales, goal_cases)
  case (1 ch)
  then show ?case by (simp add: sw_avail_flight)
next
  case (2 ch)
  then show ?case using sw_flight_less [of ch] by (auto simp: sw_pend_def intro!: distinct_ring_slots)
next
  case (3 ch d ch')
  then show ?case using sw_head_step [of ch] by (auto simp: sw_alloc_def get_sw_desc_eq)
next
  case (4 ch n)
  then show ?case using sw_release_step [of ch n] by (simp add: sw_release_def)
qed

text \<open>The error paths undo the allocation exactly.\<close>

lemma sw_undo:
  assumes "sw_ring_ok ch"
  shows "sw_desc_undo (ch\<lparr>ch_head := (ch_head ch + 1) mod sw_ring_count ch\<rparr>) = ch"
  using assms head_back [of "ch_head ch" "sw_ring_count ch"] by (auto simp: sw_desc_undo_def sw_ring_ok_def)

subsection \<open>Issue\<close>

definition sw_counts :: "al_dma_chan \<Rightarrow> u32 list" where
  "sw_counts ch = map (\<lambda>i. sd_tx_descs_count (the (sw_ring ch) ! i)) (sw_pend ch)"

text \<open>A channel that may be issued: its queue exists and every pending descriptor announces a count the queue accepts.\<close>

definition tx_ready :: "al_ssm_dma \<Rightarrow> nat \<Rightarrow> bool" where
  "tx_ready hal i \<longleftrightarrow> i < unat (num_of_queues (tx_udma (m2m_udma hal)))"

definition count_ok :: "al_udma_q \<Rightarrow> u32 \<Rightarrow> bool" where
  "count_ok q n \<longleftrightarrow> 0 < sint n \<and> n \<le> q_size q"

lemma sw_pend_Cons:
  assumes "sw_ring_ok ch" "ch_tail ch \<noteq> ch_head ch"
  shows "sw_pend ch = ch_tail ch # sw_pend (sw_release ch 1)"
proof -
  have nz: "sw_in_flight ch \<noteq> 0"
  proof
    assume "sw_in_flight ch = 0"
    then have "ch_tail ch mod sw_ring_count ch = ch_head ch" using sw_flight_index [OF assms(1)] by simp
    then show False using assms by (simp add: sw_ring_ok_def)
  qed
  have "sw_pend ch ! 0 = ch_tail ch"
    using nz assms(1) by (simp add: sw_pend_def ring_slots_def sw_ring_ok_def)
  moreover have "sw_pend ch \<noteq> []" using nz by (metis length_sw_pend list.size(3))
  moreover have "sw_pend (sw_release ch 1) = drop 1 (sw_pend ch)" using sw_release_step [OF assms(1), of 1] nz by simp
  ultimately show ?thesis by (metis One_nat_def drop0 drop_Suc list.collapse hd_conv_nth)
qed

lemma sw_pend_Nil: "sw_ring_ok ch \<Longrightarrow> ch_tail ch = ch_head ch \<Longrightarrow> sw_pend ch = []"
  by (simp add: sw_pend_def sw_in_flight_def)

lemma sw_pend_bound: "sw_ring_ok ch \<Longrightarrow> i \<in> set (sw_pend ch) \<Longrightarrow> i < sw_ring_count ch"
  by (auto simp: sw_pend_def ring_slots_def sw_ring_ok_def)

abbreviation doorbell_reg :: "al_ssm_dma \<Rightarrow> nat \<Rightarrow> ptr" where
  "doorbell_reg hal i \<equiv> rings_reg (udma_q (tx_udma (m2m_udma hal)) ! i) rings_drtp_inc"

definition ring_doorbells :: "ptr \<Rightarrow> u32 list \<Rightarrow> mmio \<Rightarrow> mmio" where
  "ring_doorbells a ns m = fold (\<lambda>n m. al_reg_write32_relaxed m a n) ns m"

lemma raid_action_eq:
  assumes "tx_ready hal i" "i < 2 ^ 32" "count_ok (udma_q (tx_udma (m2m_udma hal)) ! i) n"
  shows "al_raid_dma_action hal (of_nat i) n m = Some (al_reg_write32_relaxed m (doorbell_reg hal i) n)"
proof -
  have u: "unat (of_nat i :: u32) = i" using assms(2) by (simp add: unsigned_of_nat take_bit_nat_eq_self)
  have "0 < n" using assms(3) by (auto simp: count_ok_def intro: word_neq_0_conv [THEN iffD1])
  then show ?thesis
    using assms by (simp add: al_raid_dma_action_def al_ssm_dma_action_def al_udma_q_handle_get_def word_le_nat_alt u
        tx_ready_def count_ok_def al_udma_desc_action_add_def not_le)
qed

lemma issue_loop_eq:
  assumes "sw_ring_ok ch" "tx_ready hal (ch_idx ch)" "ch_idx ch < 2 ^ 32"
    "\<forall>n \<in> set (sw_counts ch). count_ok (udma_q (tx_udma (m2m_udma hal)) ! ch_idx ch) n"
  shows "issue_pending_loop hal ch m k =
    Some (ch\<lparr>ch_tail := ch_head ch\<rparr>, ring_doorbells (doorbell_reg hal (ch_idx ch)) (sw_counts ch) m, k + length (sw_counts ch))"
  using assms
proof (induction "sw_in_flight ch" arbitrary: ch m k)
  case 0
  then have "ch_tail ch = ch_head ch" using sw_flight_index [of ch] by (simp add: sw_ring_ok_def)
  then show ?case using 0
    by (subst issue_pending_loop.simps) (simp add: sw_counts_def sw_pend_Nil ring_doorbells_def)
next
  case (Suc x)
  have ne: "ch_tail ch \<noteq> ch_head ch" using Suc.hyps(2) sw_pend_Nil [OF Suc.prems(1)] by (metis length_sw_pend list.size(3) nat.simps(3))
  let ?ch = "sw_release ch 1"
  note p = sw_pend_Cons [OF Suc.prems(1) ne]
  have ok: "sw_ring_ok ?ch" using sw_release_step [OF Suc.prems(1), of 1] Suc.hyps(2) by simp
  obtain r where r: "sw_ring ch = Some r" "length r = sw_ring_count ch" using Suc.prems(1) by (auto simp: sw_ring_ok_def)
  have cs: "sw_counts ch = sd_tx_descs_count (r ! ch_tail ch) # sw_counts ?ch"
    by (simp add: sw_counts_def p r(1))
  have x: "x = sw_in_flight ?ch" using Suc.hyps(2) p by (metis length_Cons length_sw_pend nat.inject)
  let ?n = "sd_tx_descs_count (r ! ch_tail ch)"
  have n: "count_ok (udma_q (tx_udma (m2m_udma hal)) ! ch_idx ch) ?n" using Suc.prems(4) cs by simp
  have lt: "ch_tail ch < length r" using Suc.prems(1) r by (simp add: sw_ring_ok_def)
  have ih: "issue_pending_loop hal ?ch m' (k + 1) =
      Some (ch\<lparr>ch_tail := ch_head ch\<rparr>, ring_doorbells (doorbell_reg hal (ch_idx ch)) (sw_counts ?ch) m', k + 1 + length (sw_counts ?ch))" for m'
    using Suc.hyps(1) [OF x ok] Suc.prems(2-4) cs by simp
  have s: "0 < sint ?n" using n by (simp add: count_ok_def)
  show ?case
    by (subst issue_pending_loop.simps)
      (use ne lt r s raid_action_eq [OF Suc.prems(2,3) n] ih cs in \<open>simp add: sw_release_def ring_doorbells_def\<close>)
qed

subsection \<open>Preparation\<close>

text \<open>A channel in operation.\<close>

abbreviation chan_q :: "drv \<Rightarrow> nat \<Rightarrow> u32" where
  "chan_q s c \<equiv> of_nat (ch_idx (drv_chan s c))"

definition chan_ok :: "drv \<Rightarrow> nat \<Rightarrow> bool" where
  "chan_ok s c \<longleftrightarrow> c < length (channels (dev s)) \<and> sw_ring_ok (drv_chan s c) \<and> ch_idx (drv_chan s c) < 2 ^ 32 \<and>
     raid_q_ok (drv_hal s) (chan_q s c) \<and> ssm_max_src_descs (drv_hal s) = 31 \<and> ssm_max_dst_descs (drv_hal s) = 31"

lemma unat_chan_q: "chan_ok s c \<Longrightarrow> unat (chan_q s c) = ch_idx (drv_chan s c)"
  by (simp add: chan_ok_def unsigned_of_nat take_bit_nat_eq_self)

lemma ch_update_simps [simp]:
  "drv_hal (ch_update c f s) = drv_hal s" "dmem (ch_update c f s) = dmem s" "io (ch_update c f s) = io s"
  "coherent (ch_update c f s) = coherent s" "length (channels (dev (ch_update c f s))) = length (channels (dev s))"
  "c < length (channels (dev s)) \<Longrightarrow> drv_chan (ch_update c f s) c = f (drv_chan s c)"
  by (simp_all add: ch_update_def)

lemma ch_update_same: "ch_update c (\<lambda>_. drv_chan s c) s = s"
  by (simp add: ch_update_def)

lemma q_update_more [simp]:
  "ssm_max_src_descs (tx_q_update i q s) = ssm_max_src_descs s" "ssm_max_dst_descs (tx_q_update i q s) = ssm_max_dst_descs s"
  "ssm_max_src_descs (rx_q_update i q s) = ssm_max_src_descs s" "ssm_max_dst_descs (rx_q_update i q s) = ssm_max_dst_descs s"
  "q_types (tx_q_update i q s) = q_types s" "q_types (rx_q_update i q s) = q_types s"
  "num_of_queues (tx_udma (m2m_udma (tx_q_update j q s))) = num_of_queues (tx_udma (m2m_udma s))"
  "num_of_queues (rx_udma (m2m_udma (rx_q_update j q s))) = num_of_queues (rx_udma (m2m_udma s))"
  "udma_type (tx_udma (m2m_udma (tx_q_update j q s))) = udma_type (tx_udma (m2m_udma s))"
  "udma_type (rx_udma (m2m_udma (rx_q_update j q s))) = udma_type (rx_udma (m2m_udma s))"
  "udma_regs (tx_udma (m2m_udma (tx_q_update j q s))) = udma_regs (tx_udma (m2m_udma s))"
  "udma_regs (rx_udma (m2m_udma (rx_q_update j q s))) = udma_regs (rx_udma (m2m_udma s))"
  by (simp_all add: tx_q_update_def rx_q_update_def)

lemma raid_q_ok_update:
  assumes "raid_q_ok hal i" "udma_ring_ok q"
  shows "raid_q_ok (tx_q_update i q hal) i" "raid_q_ok (rx_q_update i q hal) i"
  using assms by (simp_all add: raid_q_ok_def)

text \<open>
  The new software descriptor, and the state after a successful preparation that took the rings to \<open>tq\<close> and \<open>rq\<close>.
\<close>

definition prepared :: "u32 \<Rightarrow> nat \<Rightarrow> al_raid_transaction \<Rightarrow> dma_ctrl_flags \<Rightarrow> drv \<Rightarrow> al_udma_q \<Rightarrow> al_udma_q \<Rightarrow> desc_mem \<Rightarrow> drv" where
  "prepared crhp c x flags s tq rq mem =
     ch_update c (\<lambda>ch. ch\<lparr>ch_head := (ch_head ch + 1) mod sw_ring_count ch,
         sw_ring := map_option (\<lambda>r. r[ch_head ch := (r ! ch_head ch)\<lparr>sd_tx_descs_count := of_nat (xaction_tx_descs x),
           sd_is_memset := False, sd_chan := Some c, sd_flags := flags\<rparr>]) (sw_ring ch)\<rparr>)
       (s\<lparr>dev := (dev s)\<lparr>hal_dma := tx_q_update (chan_q s c) tq (rx_q_update (chan_q s c) rq
             (tx_q_update (chan_q s c) (tx_reclaimed crhp (tx_queue (drv_hal s) (chan_q s c)) (xaction_tx_descs x)) (drv_hal s)))\<rparr>,
          dmem := mem,
          io := al_reg_write32_relaxed (io s) (rings_reg (rx_queue (drv_hal s) (chan_q s c)) rings_drtp_inc) (of_nat (xaction_rx_descs x))\<rparr>)"

lemma prep_submit_cases:
  assumes "chan_ok s c" "xaction_fits (drv_hal s) x"
  defines "tq0 \<equiv> tx_queue (drv_hal s) (chan_q s c)"
  shows "(\<exists>s'. prep_submit crhp c x flags s = Some (None, s') \<and>
        (s' = s \<or> s' = s\<lparr>dev := (dev s)\<lparr>hal_dma := tx_q_update (chan_q s c) (tx_reclaimed crhp tq0 (xaction_tx_descs x)) (drv_hal s)\<rparr>\<rparr>)) \<or>
     (\<exists>rq mem1 tq mem2. prep_submit crhp c x flags s = Some (Some (ch_head (drv_chan s c)), prepared crhp c x flags s tq rq mem2) \<and>
        0 < sw_avail (drv_chan s c) \<and>
        ring_took (rx_queue (drv_hal s) (chan_q s c), dmem s) (xaction_rx_descs x) (rq, mem1) \<and>
        ring_took (tx_reclaimed crhp tq0 (xaction_tx_descs x), mem1) (xaction_tx_descs x) (tq, mem2) \<and>
        raid_tx_descs (tx_reclaimed crhp tq0 (xaction_tx_descs x), mem1) x = (tq, mem2))"
proof -
  let ?ch = "drv_chan s c" and ?i = "chan_q s c" and ?tq = "tx_reclaimed crhp tq0 (xaction_tx_descs x)"
  have ok: "sw_ring_ok ?ch" "raid_q_ok (drv_hal s) ?i" "c < length (channels (dev s))" using assms(1) by (simp_all add: chan_ok_def)
  obtain r where r: "sw_ring ?ch = Some r" "ch_head ?ch < length r" using ok(1) by (auto simp: sw_ring_ok_def)
  note undo = sw_undo [OF ok(1), simplified] and get = get_sw_desc_eq [OF ok(1)] and eq = prepare_eq [OF ok(2) assms(2)]
  consider (full) "sw_avail ?ch = 0"
    | (rx) "0 < sw_avail ?ch" "unat (al_udma_available_get (rx_queue (drv_hal s) ?i)) < xaction_rx_descs x"
    | (tx) "0 < sw_avail ?ch" "\<not> unat (al_udma_available_get (rx_queue (drv_hal s) ?i)) < xaction_rx_descs x"
        "unat (al_udma_available_get ?tq) < xaction_tx_descs x"
    | (room) "0 < sw_avail ?ch" "xaction_rx_descs x \<le> unat (al_udma_available_get (rx_queue (drv_hal s) ?i))"
        "xaction_tx_descs x \<le> unat (al_udma_available_get ?tq)"
    by (metis neq0_conv not_less)
  then show ?thesis
  proof cases
    case full
    then show ?thesis by (simp add: prep_submit_def get)
  next
    case rx
    then show ?thesis by (simp add: prep_submit_def get eq undo ch_update_same)
  next
    case tx
    then show ?thesis using ch_update_same [of c "s\<lparr>dev := (dev s)\<lparr>hal_dma := tx_q_update ?i ?tq (drv_hal s)\<rparr>\<rparr>"]
      by (simp add: prep_submit_def get eq undo tq0_def)
  next
    case room
    note fit = room(2) room(3) [unfolded tq0_def]
    show ?thesis
    proof (rule prepare_ok [OF ok(2) assms(2) fit, of "dmem s" "io s"], goal_cases)
      case (1 rq mem1 tq mem2)
      have "prep_submit crhp c x flags s = Some (Some (ch_head ?ch), prepared crhp c x flags s tq rq mem2)"
        using room(1) r 1(1) by (simp add: prep_submit_def get sw_desc_set_def prepared_def ch_update_def)
      then show ?thesis using room(1) 1(2-) unfolding tq0_def by blast
    qed
  qed
qed

subsection \<open>What the completion path can change\<close>

definition comp_upd :: "al_udma_q \<Rightarrow> al_udma_q \<Rightarrow> bool" where
  "comp_upd q q' \<longleftrightarrow>
     q'\<lparr>comp_ring_id := comp_ring_id q, pkt_crnt_descs := pkt_crnt_descs q, comp_head_ptr := comp_head_ptr q\<rparr> = q"

lemma comp_upd_refl: "comp_upd q q"
  by (simp add: comp_upd_def)

lemma comp_upd_trans:
  assumes "comp_upd q q1" "comp_upd q1 q2"
  shows "comp_upd q q2"
proof -
  let ?u = "\<lambda>a b :: al_udma_q. b\<lparr>comp_ring_id := comp_ring_id a, pkt_crnt_descs := pkt_crnt_descs a, comp_head_ptr := comp_head_ptr a\<rparr>"
  have "?u q (?u q1 q2) = q" using assms unfolding comp_upd_def by simp
  then show ?thesis unfolding comp_upd_def by simp
qed

lemma comp_upd_fields:
  "comp_upd q q1 \<Longrightarrow> comp_upd q (q1\<lparr>pkt_crnt_descs := n\<rparr>)" "comp_upd q q1 \<Longrightarrow> comp_upd q (q1\<lparr>comp_head_ptr := h\<rparr>)"
  "comp_upd q q1 \<Longrightarrow> comp_upd q (q1\<lparr>comp_ring_id := r\<rparr>)" 
  by (simp_all add: comp_upd_def)

lemma next_update_upd: "al_cdesc_next_update q p = (p', q') \<Longrightarrow> comp_upd q q'"
  by (auto simp: al_cdesc_next_update_def comp_upd_refl intro!: comp_upd_fields split: if_splits)

fun scan_q :: "packet_scan \<Rightarrow> al_udma_q" where
  "scan_q (Incomplete q) = q"
| "scan_q (Complete q _ _) = q"

lemma packet_loop_upd:
  assumes "packet_get_loop mem q p f n = Some sc"
  shows "comp_upd q (scan_q sc)"
proof (rule packet_get_loop.raw_induct [OF _ assms, where P = "\<lambda>mem q p f n sc. comp_upd q (scan_q sc)"], goal_cases)
  case (1 loop mem q p f n sc)
  obtain p' q' where nx: "al_cdesc_next_update q p = (p', q')" by fastforce
  have up: "comp_upd q q'" using next_update_upd [OF nx] .
  from 1(2) show ?case
    by (auto simp: Let_def comp_upd_refl nx split: if_splits dest!: 1(1) intro: comp_upd_trans [OF up] comp_upd_fields [OF comp_upd_fields(1) [OF up]])
qed

lemma packet_get_upd:
  assumes "al_udma_cdesc_packet_get mem q = Some (n, p, q')"
  shows "comp_upd q q'"
proof -
  have "comp_upd q (q3\<lparr>comp_head_ptr := nx\<rparr>)"
    if "packet_get_loop mem q a b c = Some (Complete q1 cur k)" "al_cdesc_next_update (q1\<lparr>pkt_crnt_descs := 0\<rparr>) cur = (nx, q3)"
    for a b c q1 q3 cur k nx
    using packet_loop_upd [OF that(1)] next_update_upd [OF that(2)]
    by (auto intro!: comp_upd_fields intro: comp_upd_trans [OF comp_upd_fields(1)])
  moreover have "comp_upd q q1" if "packet_get_loop mem q a b c = Some (Incomplete q1)" for a b c q1
    using packet_loop_upd [OF that] by simp
  ultimately show ?thesis using assms
    by (auto simp: al_udma_cdesc_packet_get_def Let_def comp_upd_refl split: if_splits packet_scan.splits prod.splits Option.bind_splits)
qed

text \<open>A receive queue after some completions: the submission side is untouched, the ring stays well formed.\<close>

definition rx_acked :: "al_udma_q \<Rightarrow> al_udma_q \<Rightarrow> bool" where
  "rx_acked q q' \<longleftrightarrow> comp_upd q (q'\<lparr>next_cdesc_idx := next_cdesc_idx q\<rparr>) \<and> (udma_ring_ok q \<longrightarrow> udma_ring_ok q')"

lemma rx_acked_trans:
  assumes "rx_acked q q1" "rx_acked q1 q2"
  shows "rx_acked q q2"
proof -
  have "comp_upd (q1\<lparr>next_cdesc_idx := next_cdesc_idx q\<rparr>) (q2\<lparr>next_cdesc_idx := next_cdesc_idx q\<rparr>)"
    using arg_cong [OF assms(2) [unfolded rx_acked_def comp_upd_def, THEN conjunct1], of "next_cdesc_idx_update (\<lambda>_. next_cdesc_idx q)"]
    unfolding comp_upd_def by (cases q2; cases q1) simp
  then show ?thesis using assms comp_upd_trans unfolding rx_acked_def by blast
qed

lemma comp_upd_acked:
  assumes "comp_upd q q'"
  shows "rx_acked q q'"
proof -
  have "udma_ring_ok (q'\<lparr>comp_ring_id := a, pkt_crnt_descs := b, comp_head_ptr := c\<rparr>) = udma_ring_ok q'" for a b c
    by (simp add: udma_ring_ok_def)
  then have "udma_ring_ok q = udma_ring_ok q'" using assms unfolding comp_upd_def by metis
  moreover have "next_cdesc_idx q' = next_cdesc_idx q" using arg_cong [OF assms [unfolded comp_upd_def], of next_cdesc_idx] by simp
  ultimately show ?thesis using assms by (simp add: rx_acked_def flip: \<open>next_cdesc_idx q' = next_cdesc_idx q\<close>)
qed

lemma ack_acked: "rx_acked q (al_udma_cdesc_ack q k)"
  by (auto simp: rx_acked_def comp_upd_def al_udma_cdesc_ack_def Let_def udma_ring_ok_def unat_and_mask unat_pow2)

lemma rx_ackedD:
  assumes "rx_acked q q'"
  shows "q_regs q' = q_regs q" "udma_ring_ok q \<Longrightarrow> udma_ring_ok q'"
  using arg_cong [OF assms [unfolded rx_acked_def comp_upd_def, THEN conjunct1], of q_regs] assms
  by (simp_all add: rx_acked_def)

lemma completion_shape:
  assumes "al_raid_dma_completion cmem hal i = Some (ret, st, hal')"
  shows "\<exists>q'. hal' = rx_q_update i q' hal \<and> rx_acked (udma_q (rx_udma (m2m_udma hal)) ! unat i) q'"
proof -
  let ?q = "udma_q (rx_udma (m2m_udma hal)) ! unat i"
  obtain n p q1 where g: "al_udma_cdesc_packet_get cmem ?q = Some (n, p, q1)" "hal' = rx_q_update i q1 hal \<or> hal' = rx_q_update i (al_udma_cdesc_ack q1 n) hal"
    using assms
    by (auto simp: al_raid_dma_completion_def al_udma_q_handle_get_def Let_def split: if_splits Option.bind_splits)
  have "rx_acked ?q q1" using packet_get_upd [OF g(1)] by (rule comp_upd_acked)
  then show ?thesis using g(2) ack_acked [of q1 n] by (auto intro: rx_acked_trans)
qed

lemma rx_q_update_twice: "rx_q_update i q (rx_q_update i q' hal) = rx_q_update i q hal"
  by (simp add: rx_q_update_def)

lemma rx_queue_update: "unat i < length (udma_q (rx_udma (m2m_udma hal))) \<Longrightarrow> udma_q (rx_udma (m2m_udma (rx_q_update i q hal))) ! unat i = q"
  by (simp add: rx_q_update_def)

lemma rx_acked_refl: "rx_acked q q"
  by (rule comp_upd_acked [OF comp_upd_refl])

lemma cleanup_loop_shape:
  assumes "cleanup_loop cmem i hal w = Some res" "unat i < length (udma_q (rx_udma (m2m_udma hal)))"
  shows "\<exists>q'. fst res = rx_q_update i q' hal \<and> rx_acked (udma_q (rx_udma (m2m_udma hal)) ! unat i) q'"
proof -
  have "unat i < length (udma_q (rx_udma (m2m_udma hal))) \<longrightarrow>
      (\<exists>q'. fst res = rx_q_update i q' hal \<and> rx_acked (udma_q (rx_udma (m2m_udma hal)) ! unat i) q')"
  proof (rule cleanup_loop.raw_induct [OF _ assms(1), where P = "\<lambda>cmem i hal w res. unat i < length (udma_q (rx_udma (m2m_udma hal))) \<longrightarrow>
      (\<exists>q'. fst res = rx_q_update i q' hal \<and> rx_acked (udma_q (rx_udma (m2m_udma hal)) ! unat i) q')"], goal_cases)
    case (1 loop cmem i hal w res)
    obtain ret st hal1 where c: "al_raid_dma_completion cmem hal i = Some (ret, st, hal1)"
      using 1(2) by (auto split: Option.bind_splits)
    obtain q1 where q1: "hal1 = rx_q_update i q1 hal" "rx_acked (udma_q (rx_udma (m2m_udma hal)) ! unat i) q1"
      using completion_shape [OF c] by auto
    show ?case
    proof (cases ret)
      case False
      then show ?thesis using 1(2) c q1 by auto
    next
      case True
      then obtain w1 where "loop cmem i hal1 w1 = Some res" using 1(2) c by (auto simp: Let_def)
      from 1(1) [OF this] show ?thesis using q1 by (auto simp: rx_q_update_twice intro: rx_acked_trans)
    qed
  qed
  then show ?thesis using assms(2) by simp
qed

subsection \<open>Doorbell accounting\<close>

text \<open>The sum of the values written to a doorbell register since the log began.\<close>

definition rung :: "mmio \<Rightarrow> ptr \<Rightarrow> nat" where
  "rung m a = sum_list (map (\<lambda>w. if fst w = a then unat (snd w) else 0) (wlog m))"

lemma rung_write: "rung (al_reg_write32_relaxed m b v) a = rung m a + (if b = a then unat v else 0)"
  by (simp add: rung_def al_reg_write32_relaxed_def al_reg_write32_def)

lemma rung_doorbells: "rung (ring_doorbells b ns m) a = rung m a + (if b = a then sum_list (map unat ns) else 0)"
  by (induction ns arbitrary: m) (simp_all add: ring_doorbells_def rung_write)

abbreviation tx_door :: "drv \<Rightarrow> nat \<Rightarrow> ptr" where
  "tx_door s c \<equiv> rings_reg (tx_queue (drv_hal s) (chan_q s c)) rings_drtp_inc"

abbreviation rx_door :: "drv \<Rightarrow> nat \<Rightarrow> ptr" where
  "rx_door s c \<equiv> rings_reg (rx_queue (drv_hal s) (chan_q s c)) rings_drtp_inc"

text \<open>
  The invariant of a channel: it is in operation; the pending software descriptors announce counts the transmit queue accepts;
  and of the descriptors written to the transmit ring (\<open>p\<close> of them) exactly those not yet announced by a doorbell
  are accounted for by the pending software descriptors.  \<open>d\<close> is what had been rung before.
\<close>

definition chan_inv :: "nat \<Rightarrow> drv \<Rightarrow> nat \<Rightarrow> bool" where
  "chan_inv d s c \<longleftrightarrow> chan_ok s c \<and> tx_door s c \<noteq> rx_door s c \<and>
     (\<forall>n \<in> set (sw_counts (drv_chan s c)). count_ok (tx_queue (drv_hal s) (chan_q s c)) n) \<and>
     (\<exists>p. udma_submitted (tx_queue (drv_hal s) (chan_q s c)) p \<and>
        p + d = rung (io s) (tx_door s c) + sum_list (map unat (sw_counts (drv_chan s c))))"

lemma sint_small: "0 < n \<Longrightarrow> n < 2 ^ 31 \<Longrightarrow> 0 < sint (of_nat n :: u32)"
  by (simp add: signed_of_nat signed_take_bit_int_eq_self)

lemma sw_counts_push:
  fixes d :: al_dma_sw_desc
  assumes "sw_ring_ok ch" "0 < sw_avail ch"
  defines "ch' \<equiv> ch\<lparr>ch_head := (ch_head ch + 1) mod sw_ring_count ch,
     sw_ring := map_option (\<lambda>r. r[ch_head ch := d]) (sw_ring ch)\<rparr>"
  shows "sw_ring_ok ch' \<and> sw_counts ch' = sw_counts ch @ [sd_tx_descs_count d]"
proof -
  let ?ch = "ch\<lparr>ch_head := (ch_head ch + 1) mod sw_ring_count ch\<rparr>"
  obtain r where r: "sw_ring ch = Some r" "length r = sw_ring_count ch" using assms(1) by (auto simp: sw_ring_ok_def)
  have st: "sw_ring_ok ?ch" "sw_pend ?ch = sw_pend ch @ [ch_head ch]" using sw_head_step [OF assms(1,2)] by auto
  have ok: "sw_ring_ok ch'" using st(1) r by (auto simp: sw_ring_ok_def ch'_def)
  have p: "sw_pend ch' = sw_pend ch @ [ch_head ch]"
    using st(2) by (simp add: sw_pend_def sw_in_flight_def ch'_def)
  have "ch_head ch \<notin> set (sw_pend ch)" using sw.pend_distinct [OF st(1)] st(2) by simp
  moreover have "ch_head ch < length r" using assms(1) r by (simp add: sw_ring_ok_def)
  ultimately have "map (\<lambda>i. sd_tx_descs_count (r[ch_head ch := d] ! i)) (sw_pend ch) = map (\<lambda>i. sd_tx_descs_count (r ! i)) (sw_pend ch)"
    by (intro map_cong) (auto simp: nth_list_update)
  then have "sw_counts ch' = sw_counts ch @ [sd_tx_descs_count d]"
    using r \<open>ch_head ch < length r\<close> unfolding sw_counts_def p by (simp add: ch'_def r(1))
  with ok show ?thesis by simp
qed

lemma prepared_inv:
  assumes "chan_inv d s c" "xaction_fits (drv_hal s) x" "0 < sw_avail (drv_chan s c)"
    and "ring_took (rx_queue (drv_hal s) (chan_q s c), dmem s) (xaction_rx_descs x) (rq, mem1)"
    and "ring_took (tx_reclaimed crhp (tx_queue (drv_hal s) (chan_q s c)) (xaction_tx_descs x), mem1) (xaction_tx_descs x) (tq, mem2)"
  shows "chan_inv d (prepared crhp c x flags s tq rq mem2) c"
proof -
  let ?i = "chan_q s c" and ?ch = "drv_chan s c" and ?n = "xaction_tx_descs x" and ?s = "prepared crhp c x flags s tq rq mem2"
  let ?t = "tx_queue (drv_hal s) ?i" and ?r = "rx_queue (drv_hal s) ?i"
  have ok: "chan_ok s c" "sw_ring_ok ?ch" "raid_q_ok (drv_hal s) ?i" "c < length (channels (dev s))"
    using assms(1) by (simp_all add: chan_inv_def chan_ok_def)
  have len: "unat ?i < length (udma_q (tx_udma (m2m_udma (drv_hal s))))" "unat ?i < length (udma_q (rx_udma (m2m_udma (drv_hal s))))"
    "udma_ring_ok ?t" "udma_ring_ok ?r"
    using ok(3) by (simp_all add: raid_q_ok_def)
  note rt = ring_tookD [OF assms(4), simplified] and tt = ring_tookD [OF assms(5), simplified]
  note rec = tx_reclaimed_ok [OF len(3)]
  define dsc where "dsc = (the (sw_ring ?ch) ! ch_head ?ch)\<lparr>sd_tx_descs_count := of_nat ?n, sd_is_memset := False, sd_chan := Some c, sd_flags := flags\<rparr>"
  have ch: "drv_chan ?s c = ?ch\<lparr>ch_head := (ch_head ?ch + 1) mod sw_ring_count ?ch, sw_ring := map_option (\<lambda>r. r[ch_head ?ch := dsc]) (sw_ring ?ch)\<rparr>"
    using ok(2,4) by (auto simp: prepared_def ch_update_def dsc_def sw_ring_ok_def)
  have idx: "chan_q ?s c = ?i" by (simp add: ch)
  have qs: "tx_queue (drv_hal ?s) ?i = tq" "rx_queue (drv_hal ?s) ?i = rq" using len by (simp_all add: prepared_def)
  have cnt: "sw_ring_ok (drv_chan ?s c)" "sw_counts (drv_chan ?s c) = sw_counts ?ch @ [of_nat ?n]"
    using sw_counts_push [OF ok(2) assms(3), of dsc] unfolding ch by (simp_all add: dsc_def)
  have doors: "tx_door ?s c = tx_door s c" "rx_door ?s c = rx_door s c"
    unfolding idx qs using rt(3) tt(3) rec(3) by (simp_all add: rings_reg_def)
  have chk: "chan_ok ?s c"
    using ok cnt(1) len rt(1) tt(1) rec(1) unfolding chan_ok_def idx
    by (simp add: prepared_def raid_q_ok_def)
  have n31: "?n \<le> 31" "0 < ?n" using assms(2) ok(1) by (simp_all add: xaction_fits_def chan_ok_def xaction_ok_def xaction_tx_descs_def)
  then have un: "unat (of_nat ?n :: u32) = ?n" by (simp add: unsigned_of_nat take_bit_nat_eq_self)
  have szt: "q_size tq = q_size ?t" using tt(2) rec(2) by simp
  have "unat (al_udma_available_get (tx_reclaimed crhp ?t ?n)) < unat (q_size ?t)"
    using available_unat [OF rec(1), of crhp ?n] in_flight_less [OF len(3)] unfolding rec(2) by linarith
  then have le: "?n \<le> unat (q_size ?t)" using assms(5) by (simp add: ring_took_def)
  have cok: "count_ok tq (of_nat ?n)"
    using n31 le by (auto simp: count_ok_def szt word_le_nat_alt un intro!: sint_small)
  have all: "\<forall>k \<in> set (sw_counts (drv_chan ?s c)). count_ok tq k"
    using assms(1) cok unfolding cnt(2) by (auto simp: chan_inv_def count_ok_def szt)
  obtain p where p: "udma_submitted ?t p" "p + d = rung (io s) (tx_door s c) + sum_list (map unat (sw_counts ?ch))"
    using assms(1) by (auto simp: chan_inv_def)
  have sub: "udma_submitted tq (p + ?n)" using p(1) tt(5) rec(4) by simp
  have rg: "rung (io ?s) (tx_door s c) = rung (io s) (tx_door s c)"
    using assms(1) by (simp add: prepared_def rung_write chan_inv_def)
  have "p + ?n + d = rung (io ?s) (tx_door ?s c) + sum_list (map unat (sw_counts (drv_chan ?s c)))"
    unfolding doors rg cnt(2) using p(2) by (simp add: un)
  then show ?thesis
    using chk all sub assms(1) unfolding chan_inv_def idx qs doors [unfolded idx qs] by (metis doors idx qs)
qed

subsection \<open>Operations on one channel leave the others alone\<close>

text \<open>The coherent memory a channel refers to.\<close>

definition chan_mem :: "al_dma_chan \<Rightarrow> (ptr \<times> u64) list" where
  "chan_mem ch = [(tx_ring ch, tx_ring_dma ch), (tx_cring ch, tx_cring_dma ch), (rx_ring ch, rx_ring_dma ch), (rx_cring ch, rx_cring_dma ch)]"

lemma chan_mem_simps [simp]:
  "chan_mem (ch\<lparr>ch_head := h\<rparr>) = chan_mem ch" "chan_mem (ch\<lparr>ch_tail := h\<rparr>) = chan_mem ch"
  "chan_mem (ch\<lparr>sw_ring := r\<rparr>) = chan_mem ch" "chan_mem (ch\<lparr>dchan := x\<rparr>) = chan_mem ch"
  by (simp_all add: chan_mem_def)

definition chan_local :: "nat \<Rightarrow> drv \<Rightarrow> drv \<Rightarrow> bool" where
  "chan_local c s s' \<longleftrightarrow>
     length (channels (dev s')) = length (channels (dev s)) \<and> (\<forall>k. k \<noteq> c \<longrightarrow> drv_chan s' k = drv_chan s k) \<and>
     ch_idx (drv_chan s' c) = ch_idx (drv_chan s c) \<and>
     (\<forall>j. j \<noteq> unat (chan_q s c) \<longrightarrow> udma_q (tx_udma (m2m_udma (drv_hal s'))) ! j = udma_q (tx_udma (m2m_udma (drv_hal s))) ! j \<and>
        udma_q (rx_udma (m2m_udma (drv_hal s'))) ! j = udma_q (rx_udma (m2m_udma (drv_hal s))) ! j) \<and>
     q_regs (tx_queue (drv_hal s') (chan_q s c)) = q_regs (tx_queue (drv_hal s) (chan_q s c)) \<and>
     q_regs (rx_queue (drv_hal s') (chan_q s c)) = q_regs (rx_queue (drv_hal s) (chan_q s c)) \<and>
     q_status (tx_queue (drv_hal s') (chan_q s c)) = q_status (tx_queue (drv_hal s) (chan_q s c)) \<and>
     length (udma_q (tx_udma (m2m_udma (drv_hal s')))) = length (udma_q (tx_udma (m2m_udma (drv_hal s)))) \<and>
     length (udma_q (rx_udma (m2m_udma (drv_hal s')))) = length (udma_q (rx_udma (m2m_udma (drv_hal s)))) \<and>
     num_of_queues (tx_udma (m2m_udma (drv_hal s'))) = num_of_queues (tx_udma (m2m_udma (drv_hal s))) \<and>
     num_of_queues (rx_udma (m2m_udma (drv_hal s'))) = num_of_queues (rx_udma (m2m_udma (drv_hal s))) \<and>
     q_types (drv_hal s') = q_types (drv_hal s) \<and> ssm_max_src_descs (drv_hal s') = ssm_max_src_descs (drv_hal s) \<and>
     ssm_max_dst_descs (drv_hal s') = ssm_max_dst_descs (drv_hal s) \<and>
     udma_type (tx_udma (m2m_udma (drv_hal s'))) = udma_type (tx_udma (m2m_udma (drv_hal s))) \<and>
     udma_type (rx_udma (m2m_udma (drv_hal s'))) = udma_type (rx_udma (m2m_udma (drv_hal s))) \<and>
     udma_regs (tx_udma (m2m_udma (drv_hal s'))) = udma_regs (tx_udma (m2m_udma (drv_hal s))) \<and>
     udma_regs (rx_udma (m2m_udma (drv_hal s'))) = udma_regs (rx_udma (m2m_udma (drv_hal s))) \<and>
     coherent s' = coherent s \<and> chan_mem (drv_chan s' c) = chan_mem (drv_chan s c) \<and>
     (\<forall>a. a \<noteq> tx_door s c \<and> a \<noteq> rx_door s c \<longrightarrow> rung (io s') a = rung (io s) a)"

lemma chan_local_refl: "chan_local c s s"
  by (simp add: chan_local_def)

lemma q_update_nth [simp]:
  "j \<noteq> unat i \<Longrightarrow> udma_q (tx_udma (m2m_udma (tx_q_update i q s))) ! j = udma_q (tx_udma (m2m_udma s)) ! j"
  "j \<noteq> unat i \<Longrightarrow> udma_q (rx_udma (m2m_udma (rx_q_update i q s))) ! j = udma_q (rx_udma (m2m_udma s)) ! j"
  by simp_all

lemma ch_update_other [simp]: "k \<noteq> c \<Longrightarrow> drv_chan (ch_update c f s) k = drv_chan s k"
  by (simp add: ch_update_def)

lemma q_status_kept:
  "ring_took s n s' \<Longrightarrow> q_status (fst s') = q_status (fst s)" "q_status (tx_reclaimed crhp q n) = q_status q"
  by (auto simp: ring_took_def tx_reclaimed_def al_udma_cdesc_get_all_def al_udma_cdesc_ack_def Let_def)

lemma prepared_local:
  assumes "chan_ok s c"
    and "ring_took (rx_queue (drv_hal s) (chan_q s c), dmem s) nr (rq, mem1)"
    and "ring_took (tx_reclaimed crhp (tx_queue (drv_hal s) (chan_q s c)) n, mem1) nt (tq, mem2)"
  shows "chan_local c s (prepared crhp c x flags s tq rq mem2)"
proof -
  have len: "unat (chan_q s c) < length (udma_q (tx_udma (m2m_udma (drv_hal s))))"
      "unat (chan_q s c) < length (udma_q (rx_udma (m2m_udma (drv_hal s))))"
      "udma_ring_ok (tx_queue (drv_hal s) (chan_q s c))" "c < length (channels (dev s))"
    using assms(1) by (simp_all add: chan_ok_def raid_q_ok_def)
  show ?thesis
    using len ring_tookD(3) [OF assms(2)] ring_tookD(3) [OF assms(3)] tx_reclaimed_ok(3) [OF len(3)]
      q_status_kept(1) [OF assms(3)] q_status_kept(2)
    by (simp add: chan_local_def prepared_def rung_write)
qed

lemma reclaim_local:
  assumes "chan_ok s c"
  shows "chan_local c s (s\<lparr>dev := (dev s)\<lparr>hal_dma := tx_q_update (chan_q s c)
      (tx_reclaimed crhp (tx_queue (drv_hal s) (chan_q s c)) n) (drv_hal s)\<rparr>\<rparr>)"
  using assms tx_reclaimed_ok(3) q_status_kept(2) by (simp add: chan_local_def chan_ok_def raid_q_ok_def)

lemma reclaim_inv:
  assumes "chan_inv d s c"
  shows "chan_inv d (s\<lparr>dev := (dev s)\<lparr>hal_dma := tx_q_update (chan_q s c)
      (tx_reclaimed crhp (tx_queue (drv_hal s) (chan_q s c)) n) (drv_hal s)\<rparr>\<rparr>) c"
proof -
  have ok: "udma_ring_ok (tx_queue (drv_hal s) (chan_q s c))" using assms by (simp add: chan_inv_def chan_ok_def raid_q_ok_def)
  show ?thesis
    using assms tx_reclaimed_ok [OF ok]
    by (simp add: chan_inv_def chan_ok_def raid_q_ok_def rings_reg_def count_ok_def)
qed

text \<open>Every outcome of a preparation keeps the invariant and is local.\<close>

lemma prep_submit_inv:
  assumes "chan_inv d s c" "xaction_fits (drv_hal s) x" "prep_submit crhp c x flags s = Some (r, s')"
  shows "chan_inv d s' c \<and> chan_local c s s'"
proof -
  have ok: "chan_ok s c" using assms(1) by (simp add: chan_inv_def)
  from prep_submit_cases [OF ok assms(2), of crhp flags] show ?thesis
    using assms(3) prepared_inv [OF assms(1,2)] prepared_local [OF ok] reclaim_local [OF ok] reclaim_inv [OF assms(1)]
      chan_local_refl [of c s] assms(1)
    by (elim disjE exE conjE) auto
qed

lemma tx_submit_inv:
  assumes "chan_inv d s c" "al_dma_tx_submit mc c i s = Some (k, s')"
  shows "chan_inv d s' c \<and> chan_local c s s'"
proof -
  obtain ck dch where a: "dma_cookie_assign mc (dchan (drv_chan s c)) = (ck, dch)" by fastforce
  obtain ch where ch: "sw_desc_set i (\<lambda>d. d\<lparr>sd_cookie := ck\<rparr>) (drv_chan s c) = Some ch"
      "s' = ch_update c (\<lambda>_. ch\<lparr>dchan := dch\<rparr>) s"
    using assms(2) a by (auto simp: al_dma_tx_submit_def split: Option.bind_splits)
  obtain r where r: "sw_ring (drv_chan s c) = Some r" "length r = sw_ring_count (drv_chan s c)" "i < length r"
      "ch = (drv_chan s c)\<lparr>sw_ring := Some (r[i := (r ! i)\<lparr>sd_cookie := ck\<rparr>])\<rparr>"
    using ch(1) assms(1) by (auto simp: sw_desc_set_def chan_inv_def chan_ok_def sw_ring_ok_def split: option.splits if_splits)
  have c: "c < length (channels (dev s))" using assms(1) by (simp add: chan_inv_def chan_ok_def)
  have cs: "sw_counts (ch\<lparr>dchan := dch\<rparr>) = sw_counts (drv_chan s c)"
  proof -
    have "sd_tx_descs_count (r[i := (r ! i)\<lparr>sd_cookie := ck\<rparr>] ! j) = sd_tx_descs_count (r ! j)" for j
      using r(3) by (cases "i = j") simp_all
    then show ?thesis using r by (simp add: sw_counts_def sw_pend_def sw_in_flight_def)
  qed
  have "sw_ring_ok (ch\<lparr>dchan := dch\<rparr>)" using assms(1) r by (simp add: sw_ring_ok_def chan_inv_def chan_ok_def)
  then show ?thesis
    using assms(1) c cs r(4) by (simp add: ch(2) chan_inv_def chan_ok_def chan_local_def)
qed

lemma issue_eq:
  assumes "chan_inv d s c"
  shows "al_dma_issue_pending c s =
    Some ((ch_update c (\<lambda>ch. ch\<lparr>ch_tail := ch_head ch\<rparr>) s)\<lparr>io := ring_doorbells (tx_door s c) (sw_counts (drv_chan s c)) (io s)\<rparr>,
      sw_counts (drv_chan s c) \<noteq> [])"
proof -
  let ?ch = "drv_chan s c"
  have ok: "chan_ok s c" using assms by (simp add: chan_inv_def)
  note u = unat_chan_q [OF ok]
  have pre: "sw_ring_ok ?ch" "tx_ready (drv_hal s) (ch_idx ?ch)" "ch_idx ?ch < 2 ^ 32"
    using ok u by (auto simp: chan_ok_def tx_ready_def raid_q_ok_def word_less_nat_alt)
  have "\<forall>n \<in> set (sw_counts ?ch). count_ok (udma_q (tx_udma (m2m_udma (drv_hal s))) ! ch_idx ?ch) n"
    using assms by (simp add: chan_inv_def u)
  from issue_loop_eq [OF pre this, of "io s" 0] show ?thesis
    by (simp add: al_dma_issue_pending_def u ch_update_def)
qed

lemma issue_inv:
  assumes "chan_inv d s c" "al_dma_issue_pending c s = Some (s', t)"
  shows "chan_inv d s' c \<and> chan_local c s s'"
proof -
  let ?ch = "drv_chan s c"
  have ok: "chan_ok s c" "sw_ring_ok ?ch" "c < length (channels (dev s))" using assms(1) by (simp_all add: chan_inv_def chan_ok_def)
  have s': "s' = (ch_update c (\<lambda>ch. ch\<lparr>ch_tail := ch_head ch\<rparr>) s)\<lparr>io := ring_doorbells (tx_door s c) (sw_counts ?ch) (io s)\<rparr>"
    using assms(2) by (simp add: issue_eq [OF assms(1)])
  have ch: "drv_chan s' c = ?ch\<lparr>ch_tail := ch_head ?ch\<rparr>" using ok(3) by (simp add: s')
  have ok': "sw_ring_ok (?ch\<lparr>ch_tail := ch_head ?ch\<rparr>)" using ok(2) by (simp add: sw_ring_ok_def)
  have cs: "sw_counts (?ch\<lparr>ch_tail := ch_head ?ch\<rparr>) = []"
    using sw_pend_Nil [OF ok'] by (simp add: sw_counts_def)
  have io: "rung (io s') (tx_door s c) = rung (io s) (tx_door s c) + sum_list (map unat (sw_counts ?ch))"
    by (simp add: s' rung_doorbells)
  have "chan_local c s s'" using ok(3) by (simp add: s' chan_local_def rung_doorbells)
  moreover have "chan_inv d s' c"
    using assms(1) ok' cs io unfolding chan_inv_def ch by (simp add: chan_ok_def ch) (simp add: s')
  ultimately show ?thesis by simp
qed

lemma cleanup_inv:
  assumes "chan_inv d s c" "al_dma_cleanup_tasklet cmem c s = Some (w, s')"
  shows "chan_inv d s' c \<and> chan_local c s s'"
proof -
  let ?i = "chan_q s c"
  have len: "unat ?i < length (udma_q (rx_udma (m2m_udma (drv_hal s))))" "udma_ring_ok (rx_queue (drv_hal s) ?i)"
    using assms(1) by (simp_all add: chan_inv_def chan_ok_def raid_q_ok_def)
  obtain hal w1 where l: "cleanup_loop cmem ?i (drv_hal s) [] = Some (hal, w1)" "s' = s\<lparr>dev := (dev s)\<lparr>hal_dma := hal\<rparr>\<rparr>"
    using assms(2) by (auto simp: al_dma_cleanup_tasklet_def split: Option.bind_splits)
  obtain q where q: "hal = rx_q_update ?i q (drv_hal s)" "rx_acked (rx_queue (drv_hal s) ?i) q"
    using cleanup_loop_shape [OF l(1) len(1)] by auto
  note qd = rx_ackedD [OF q(2)]
  show ?thesis
    using assms(1) len qd by (simp add: l(2) q(1) chan_local_def chan_inv_def chan_ok_def raid_q_ok_def rings_reg_def)
qed

subsection \<open>Transactions of the driver fit\<close>

lemma total_one_blocks: "total_bufs (map (\<lambda>a. one_block a len) src) = length src"
  by (induction src) (simp_all add: one_block_def block_bufs_def)

lemma prep_xaction_fits:
  assumes "ssm_max_src_descs hal = 31" "ssm_max_dst_descs hal = 31" "meta_descs (op_attr_table op) = 0"
    "0 < length src" "length src \<le> 31" "length dst \<le> 31"
  shows "xaction_fits hal (prep_xaction op flags (map (\<lambda>a. one_block a len) src) (map (\<lambda>a. one_block a len') dst) cf)"
proof -
  have "unat (of_nat (length src) :: u32) = length src" "unat (of_nat (length dst) :: u32) = length dst"
    using assms(5,6) by (simp_all add: unsigned_of_nat take_bit_nat_eq_self)
  then show ?thesis
    using assms by (simp add: xaction_fits_def xaction_ok_def xaction_tx_descs_def xaction_rx_descs_def prep_xaction_def
        xaction_srcs_def xaction_dsts_def total_one_blocks)
qed

lemma pq_dsts_map: "\<exists>dst'. pq_dsts dst len flags = map (\<lambda>a. one_block a len) dst' \<and> length dst' \<le> 2"
  by (auto simp: pq_dsts_def intro: exI [of _ "[]"] exI [of _ "[fst dst]"] exI [of _ "[snd dst]"] exI [of _ "[fst dst, snd dst]"])

lemma pq_op_meta: "meta_descs (op_attr_table (pq_op flags)) = 0"
  by (simp add: pq_op_def)

lemma driver_fits:
  assumes "chan_ok s c"
  shows "xaction_fits (drv_hal s) (prep_xaction AL_RAID_OP_MEM_CPY flags [one_block src len] [one_block dest len] [])"
    "srcs \<noteq> [] \<Longrightarrow> length srcs \<le> 31 \<Longrightarrow>
       xaction_fits (drv_hal s) (prep_xaction AL_RAID_OP_P_CALC flags (map (\<lambda>a. one_block a len) srcs) [one_block dest len] [])"
    "srcs \<noteq> [] \<Longrightarrow> length srcs \<le> 31 \<Longrightarrow>
       xaction_fits (drv_hal s) (prep_xaction (pq_op flags) flags (map (\<lambda>a. one_block a len) srcs) (pq_dsts dst len flags) cf)"
proof -
  note mx = assms [unfolded chan_ok_def]
  show "xaction_fits (drv_hal s) (prep_xaction AL_RAID_OP_MEM_CPY flags [one_block src len] [one_block dest len] [])"
    using prep_xaction_fits [of "drv_hal s" AL_RAID_OP_MEM_CPY "[src]" "[dest]"] mx by simp
  show "srcs \<noteq> [] \<Longrightarrow> length srcs \<le> 31 \<Longrightarrow>
       xaction_fits (drv_hal s) (prep_xaction AL_RAID_OP_P_CALC flags (map (\<lambda>a. one_block a len) srcs) [one_block dest len] [])"
    using prep_xaction_fits [of "drv_hal s" AL_RAID_OP_P_CALC srcs "[dest]"] mx by simp
  obtain ds where ds: "pq_dsts dst len flags = map (\<lambda>a. one_block a len) ds" "length ds \<le> 2"
    using pq_dsts_map [of dst len flags] by auto
  show "srcs \<noteq> [] \<Longrightarrow> length srcs \<le> 31 \<Longrightarrow>
       xaction_fits (drv_hal s) (prep_xaction (pq_op flags) flags (map (\<lambda>a. one_block a len) srcs) (pq_dsts dst len flags) cf)"
    unfolding ds(1) using prep_xaction_fits [OF _ _ pq_op_meta, of "drv_hal s" srcs ds] mx ds(2) by simp
qed

subsection \<open>Runs of the driver\<close>

text \<open>
  One step of a driver with active channels \<open>A\<close>: a preparation, a submission, an issue or a run of the clean-up tasklet on
  one channel.  Steps of different channels interleave freely; what the hardware and the allocators answer is arbitrary.
  XOR and P+Q requests have at least one source.
\<close>

inductive drv_step :: "u32 \<Rightarrow> nat set \<Rightarrow> drv \<Rightarrow> drv \<Rightarrow> bool" for mc :: u32 and A :: "nat set" where
  step_memcpy: "c \<in> A \<Longrightarrow> al_dma_prep_dma_memcpy crhp c dest src len flags s = Some (r, s') \<Longrightarrow> drv_step mc A s s'"
| step_xor: "c \<in> A \<Longrightarrow> srcs \<noteq> [] \<Longrightarrow> al_dma_prep_dma_xor crhp kc2 c dest srcs len flags s = Some (r, s') \<Longrightarrow> drv_step mc A s s'"
| step_pq: "c \<in> A \<Longrightarrow> srcs \<noteq> [] \<Longrightarrow> al_dma_prep_dma_pq crhp kc3 c dst srcs scf len flags s = Some (r, s') \<Longrightarrow> drv_step mc A s s'"
| step_submit: "c \<in> A \<Longrightarrow> al_dma_tx_submit mc c i s = Some (k, s') \<Longrightarrow> drv_step mc A s s'"
| step_issue: "c \<in> A \<Longrightarrow> al_dma_issue_pending c s = Some (s', t) \<Longrightarrow> drv_step mc A s s'"
| step_cleanup: "c \<in> A \<Longrightarrow> al_dma_cleanup_tasklet cmem c s = Some (w, s') \<Longrightarrow> drv_step mc A s s'"

definition drv_inv :: "(nat \<Rightarrow> nat) \<Rightarrow> nat set \<Rightarrow> drv \<Rightarrow> bool" where
  "drv_inv d A s \<longleftrightarrow> (\<forall>c \<in> A. chan_inv (d c) s c) \<and>
     (\<forall>c \<in> A. \<forall>k \<in> A. c \<noteq> k \<longrightarrow> ch_idx (drv_chan s c) \<noteq> ch_idx (drv_chan s k) \<and>
        tx_door s c \<noteq> tx_door s k \<and> tx_door s c \<noteq> rx_door s k)"

lemma local_view:
  assumes "chan_local c s s'" "k \<noteq> c \<Longrightarrow> unat (chan_q s k) \<noteq> unat (chan_q s c)"
  shows "ch_idx (drv_chan s' k) = ch_idx (drv_chan s k)" "tx_door s' k = tx_door s k" "rx_door s' k = rx_door s k"
proof -
  show i: "ch_idx (drv_chan s' k) = ch_idx (drv_chan s k)"
    using assms(1) unfolding chan_local_def by (cases "k = c") metis+
  show "tx_door s' k = tx_door s k" "rx_door s' k = rx_door s k"
    using assms unfolding chan_local_def i rings_reg_def by (cases "k = c"; metis)+
qed

lemma other_chan_inv:
  assumes "chan_inv d s k" "chan_local c s s'" "k \<noteq> c" "unat (chan_q s k) \<noteq> unat (chan_q s c)"
    "tx_door s k \<noteq> tx_door s c" "tx_door s k \<noteq> rx_door s c"
  shows "chan_inv d s' k"
proof -
  have ch: "drv_chan s' k = drv_chan s k" using assms(2,3) by (simp add: chan_local_def)
  have tq: "tx_queue (drv_hal s') (chan_q s k) = tx_queue (drv_hal s) (chan_q s k)"
    and rq: "rx_queue (drv_hal s') (chan_q s k) = rx_queue (drv_hal s) (chan_q s k)"
    using assms(2,4) unfolding chan_local_def by metis+
  have rg: "rung (io s') (tx_door s k) = rung (io s) (tx_door s k)" using assms(2,5,6) by (simp add: chan_local_def)
  have "raid_q_ok (drv_hal s') (chan_q s k) = raid_q_ok (drv_hal s) (chan_q s k)"
    using assms(2) unfolding raid_q_ok_def tq rq by (simp add: chan_local_def)
  then show ?thesis
    using assms(1,2) unfolding chan_inv_def chan_ok_def ch tq rq rg by (simp add: chan_local_def)
qed

lemma chan_inv_ok: "chan_inv d s c \<Longrightarrow> chan_ok s c"
  by (simp add: chan_inv_def)

lemma drv_step_local:
  assumes "drv_step mc A s s'" "drv_inv d A s"
  shows "\<exists>c \<in> A. chan_inv (d c) s' c \<and> chan_local c s s'"
  using assms(1)
proof cases
  case (step_memcpy c)
  then have inv: "chan_inv (d c) s c" using assms(2) by (simp add: drv_inv_def)
  then show ?thesis using step_memcpy prep_submit_inv [OF inv driver_fits(1) [OF chan_inv_ok [OF inv]]]
    unfolding al_dma_prep_dma_memcpy_def by blast
next
  case (step_xor c srcs crhp kc2 dest len flags r)
  then have inv: "chan_inv (d c) s c" using assms(2) by (simp add: drv_inv_def)
  show ?thesis
  proof (cases "s' = s")
    case True
    then show ?thesis using inv step_xor(1) chan_local_refl by blast
  next
    case False
    then have "length srcs \<le> 31" "prep_submit crhp c (prep_xaction AL_RAID_OP_P_CALC flags (map (\<lambda>a. one_block a len) srcs)
        [one_block dest len] []) flags s = Some (r, s')"
      using step_xor(3) by (auto simp: al_dma_prep_dma_xor_def AL_DMA_MAX_XOR_def split: if_splits)
    then show ?thesis using prep_submit_inv [OF inv driver_fits(2) [OF chan_inv_ok [OF inv] step_xor(2)]] step_xor(1) by blast
  qed
next
  case (step_pq c srcs crhp kc3 dst scf len flags r)
  then have inv: "chan_inv (d c) s c" using assms(2) by (simp add: drv_inv_def)
  show ?thesis
  proof (cases "s' = s")
    case True
    then show ?thesis using inv step_pq(1) chan_local_refl by blast
  next
    case False
    then have "length srcs \<le> 31" "prep_submit crhp c (prep_xaction (pq_op flags) flags (map (\<lambda>a. one_block a len) srcs)
        (pq_dsts dst len flags) (take (length srcs) scf)) flags s = Some (r, s')"
      using step_pq(3) by (auto simp: al_dma_prep_dma_pq_def AL_DMA_MAX_XOR_def split: if_splits)
    then show ?thesis using prep_submit_inv [OF inv driver_fits(3) [OF chan_inv_ok [OF inv] step_pq(2)]] step_pq(1) by blast
  qed
next
  case (step_submit c i k)
  then have "chan_inv (d c) s c" using assms(2) by (simp add: drv_inv_def)
  from tx_submit_inv [OF this step_submit(2)] step_submit(1) show ?thesis by blast
next
  case (step_issue c t)
  then have "chan_inv (d c) s c" using assms(2) by (simp add: drv_inv_def)
  from issue_inv [OF this step_issue(2)] step_issue(1) show ?thesis by blast
next
  case (step_cleanup c cmem w)
  then have "chan_inv (d c) s c" using assms(2) by (simp add: drv_inv_def)
  from cleanup_inv [OF this step_cleanup(2)] step_cleanup(1) show ?thesis by blast
qed

lemma drv_step_inv:
  assumes "drv_step mc A s s'" "drv_inv d A s"
  shows "drv_inv d A s'"
proof -
  obtain c where c: "c \<in> A" "chan_inv (d c) s' c" "chan_local c s s'" using drv_step_local [OF assms] by auto
  have u: "unat (chan_q s k) = ch_idx (drv_chan s k)" if "k \<in> A" for k
    using assms(2) that unat_chan_q [of s k] by (simp add: drv_inv_def chan_inv_def)
  have ne: "unat (chan_q s k) \<noteq> unat (chan_q s c)" if "k \<in> A" "k \<noteq> c" for k
    using assms(2) that c(1) u [OF that(1)] u [OF c(1)] unfolding drv_inv_def by metis
  have "chan_inv (d k) s' k" if "k \<in> A" for k
    using assms(2) c other_chan_inv [OF _ c(3), of "d k" k] ne that unfolding drv_inv_def by (cases "k = c") auto
  moreover have "ch_idx (drv_chan s' k) = ch_idx (drv_chan s k)" "tx_door s' k = tx_door s k" "rx_door s' k = rx_door s k" if "k \<in> A" for k
    using local_view [OF c(3)] ne that by metis+
  ultimately show ?thesis using assms(2) unfolding drv_inv_def by simp
qed

subsection \<open>Cookies\<close>

abbreviation completed :: "drv \<Rightarrow> nat \<Rightarrow> u32" where
  "completed s k \<equiv> chan_completed_cookie (dchan (drv_chan s k))"

lemma ch_update_completed:
  assumes "chan_completed_cookie (dchan (f (drv_chan s c))) = completed s c"
  shows "completed (ch_update c f s) k = completed s k"
proof (cases "k = c")
  case True
  then show ?thesis using assms by (cases "c < length (channels (dev s))") (simp_all add: ch_update_def list_update_beyond)
qed simp

lemma prep_submit_completed:
  assumes "prep_submit crhp c x flags s = Some (r, s')"
  shows "completed s' k = completed s k"
proof -
  have g: "dchan (snd (al_dma_get_sw_desc ch)) = dchan ch" "dchan (sw_desc_undo ch) = dchan ch" for ch
    by (simp_all add: al_dma_get_sw_desc_def sw_desc_undo_def)
  have st: "dchan ch' = dchan ch" if "sw_desc_set i f ch = Some ch'" for i f ch ch'
    using that by (auto simp: sw_desc_set_def split: option.splits if_splits)
  have u: "completed (ch_update c (\<lambda>_. ch') (s\<lparr>dev := (dev s)\<lparr>hal_dma := h\<rparr>, dmem := a, io := b\<rparr>)) k = completed s k"
    if "dchan ch' = dchan (drv_chan s c)" for ch' h a b
    using that ch_update_completed [of "\<lambda>_. ch'" "s\<lparr>dev := (dev s)\<lparr>hal_dma := h\<rparr>, dmem := a, io := b\<rparr>" c k] by simp
  obtain o' ch where og: "al_dma_get_sw_desc (drv_chan s c) = (o', ch)" by fastforce
  then have d: "dchan ch = dchan (drv_chan s c)" using g(1) [of "drv_chan s c"] by simp
  show ?thesis
    using assms og d
    by (auto simp: prep_submit_def Let_def split: option.splits if_splits Option.bind_splits dest!: st intro!: u simp: g)
qed

lemma issue_loop_dchan:
  assumes "issue_pending_loop hal ch m n = Some res"
  shows "dchan (fst res) = dchan ch"
proof (rule issue_pending_loop.raw_induct [OF _ assms, where P = "\<lambda>hal ch m n res. dchan (fst res) = dchan ch"], goal_cases)
  case (1 loop hal ch m n res)
  from 1(2) show ?case by (auto simp: Let_def split: if_splits Option.bind_splits dest!: 1(1))
qed

lemma drv_step_completed:
  assumes "drv_step mc A s s'"
  shows "completed s' k = completed s k"
  using assms
proof cases
  case (step_submit c i ck)
  obtain cc dch where a: "dma_cookie_assign mc (dchan (drv_chan s c)) = (cc, dch)" by fastforce
  then have "chan_completed_cookie dch = completed s c" by (auto simp: dma_cookie_assign_def Let_def)
  then show ?thesis
    using step_submit(2) a by (auto simp: al_dma_tx_submit_def split: Option.bind_splits intro!: ch_update_completed)
next
  case (step_issue c t)
  then obtain ch m n where l: "issue_pending_loop (drv_hal s) (drv_chan s c) (io s) 0 = Some (ch, m, n)"
      "s' = (ch_update c (\<lambda>_. ch) s)\<lparr>io := m\<rparr>"
    by (auto simp: al_dma_issue_pending_def split: Option.bind_splits)
  then show ?thesis using issue_loop_dchan [OF l(1)] by (simp add: ch_update_completed)
next
  case step_cleanup
  then show ?thesis by (auto simp: al_dma_cleanup_tasklet_def split: Option.bind_splits)
qed (auto simp: al_dma_prep_dma_memcpy_def al_dma_prep_dma_xor_def al_dma_prep_dma_pq_def split: if_splits dest: prep_submit_completed)

subsection \<open>Properties\<close>

text \<open>
  C5: doorbell accounting.  Whatever sequence of preparations, submissions, issues and clean-ups the channels go through,
  interleaved in any way, the invariant holds: every channel stays well formed, and the number of transmit descriptors
  written to its ring is the number announced to the hardware plus the counts of its pending software
  descriptors.  So no doorbell ever announces a descriptor that was not written.
\<close>

theorem drv_doorbell_accounting:
  assumes "drv_inv d A s" "(drv_step mc A)\<^sup>*\<^sup>* s s'"
  shows "drv_inv d A s'"
  using assms(2,1)
proof (induction rule: rtranclp_induct)
  case (step y z)
  then show ?case using drv_step_inv by blast
qed

text \<open>A device with one channel in operation, its software ring empty, for concrete instances.\<close>

definition demo_chan :: al_dma_chan where
  "demo_chan = zero_chan\<lparr>ch_idx := 1, sw_ring := Some (replicate 8 zero_sw_desc), sw_ring_count := 8\<rparr>"

definition demo_drv :: drv where
  "demo_drv = \<lparr>dev = zero_device\<lparr>hal_dma := demo_ssm demo_q (demo_q\<lparr>q_regs := 0x11000\<rparr>), channels := [demo_chan]\<rparr>,
     dmem = demo_dmem, io = \<lparr>regs = \<lambda>_. 0, wlog = []\<rparr>, coherent = []\<rparr>"

definition demo_flags :: dma_ctrl_flags where
  "demo_flags = \<lparr>DMA_PREP_INTERRUPT = True, DMA_PREP_PQ_DISABLE_P = False, DMA_PREP_PQ_DISABLE_Q = False\<rparr>"

lemma demo_drv_inv: "drv_inv (\<lambda>_. 0) {0} demo_drv"
proof -
  let ?rq = "demo_q\<lparr>q_regs := 0x11000\<rparr>"
  have rq: "udma_ring_ok ?rq" using demo_q_ok by (simp add: udma_ring_ok_def)
  have ch: "drv_chan demo_drv 0 = demo_chan" "drv_hal demo_drv = demo_ssm demo_q ?rq" "length (channels (dev demo_drv)) = 1"
    by (simp_all add: demo_drv_def)
  have sw: "sw_ring_ok demo_chan" "sw_counts demo_chan = []"
    by (simp_all add: sw_ring_ok_def demo_chan_def zero_chan_def sw_counts_def sw_pend_def sw_in_flight_def)
  have idx: "ch_idx demo_chan = 1" by (simp add: demo_chan_def)
  have mx: "ssm_max_src_descs (demo_ssm demo_q ?rq) = 31" "ssm_max_dst_descs (demo_ssm demo_q ?rq) = 31" by (simp_all add: demo_ssm_def)
  have "udma_submitted demo_q 0" by (simp add: udma_submitted_def demo_q_def)
  moreover have "rings_reg demo_q rings_drtp_inc \<noteq> rings_reg ?rq rings_drtp_inc" by (simp add: rings_reg_def demo_q_def)
  moreover have "rung (io demo_drv) a = 0" for a by (simp add: demo_drv_def rung_def)
  ultimately show ?thesis
    using demo_ssm_ok [OF demo_q_ok rq] sw mx by (simp add: drv_inv_def chan_inv_def chan_ok_def ch idx)
qed

lemma demo_inv0: "chan_inv 0 demo_drv 0"
  using demo_drv_inv by (simp add: drv_inv_def)

theorem drv_doorbell_accounting_witness:
  "\<exists>r s'. al_dma_prep_dma_memcpy 0 0 0x2000 0x1000 64 demo_flags demo_drv = Some (r, s') \<and> drv_inv (\<lambda>_. 0) {0} s'"
proof -
  have ok: "chan_ok demo_drv 0" using demo_inv0 by (rule chan_inv_ok)
  obtain r s' where e: "al_dma_prep_dma_memcpy 0 0 0x2000 0x1000 64 demo_flags demo_drv = Some (r, s')"
    using prep_submit_cases [OF ok driver_fits(1) [OF ok], of 0 demo_flags] unfolding al_dma_prep_dma_memcpy_def by blast
  then have "drv_step 1 {0} demo_drv s'" by (intro step_memcpy) auto
  then have "(drv_step 1 {0})\<^sup>*\<^sup>* demo_drv s'" by (rule r_into_rtranclp)
  from drv_doorbell_accounting [OF demo_drv_inv this] e show ?thesis by blast
qed

text \<open>
  C22: issue.  On a channel in operation \<open>al_dma_issue_pending\<close> returns, empties the software ring, rings the transmit doorbell
  once per pending descriptor in order, and afterwards every descriptor written to the transmit ring has been
  announced; the clean-up tasklet is scheduled exactly when something was issued.
\<close>

theorem issue_pending_announces_all:
  assumes "chan_inv d s c"
  shows "\<exists>s'. al_dma_issue_pending c s = Some (s', sw_pend (drv_chan s c) \<noteq> []) \<and>
    io s' = ring_doorbells (tx_door s c) (sw_counts (drv_chan s c)) (io s) \<and> sw_pend (drv_chan s' c) = [] \<and>
    (\<exists>p. udma_submitted (tx_queue (drv_hal s') (chan_q s' c)) p \<and> p + d = rung (io s') (tx_door s' c)) \<and>
    chan_inv d s' c"
proof -
  have c: "c < length (channels (dev s))" "sw_ring_ok (drv_chan s c)" using assms by (simp_all add: chan_inv_def chan_ok_def)
  let ?s = "(ch_update c (\<lambda>ch. ch\<lparr>ch_tail := ch_head ch\<rparr>) s)\<lparr>io := ring_doorbells (tx_door s c) (sw_counts (drv_chan s c)) (io s)\<rparr>"
  have e: "al_dma_issue_pending c s = Some (?s, sw_pend (drv_chan s c) \<noteq> [])"
    using issue_eq [OF assms] by (simp add: sw_counts_def)
  have inv: "chan_inv d ?s c" using issue_inv [OF assms e] by simp
  have ch: "drv_chan ?s c = (drv_chan s c)\<lparr>ch_tail := ch_head (drv_chan s c)\<rparr>" using c by simp
  have nil: "sw_pend (drv_chan ?s c) = []"
    unfolding ch using c(2) by (intro sw_pend_Nil) (simp_all add: sw_ring_ok_def)
  have "\<exists>p. udma_submitted (tx_queue (drv_hal ?s) (chan_q ?s c)) p \<and> p + d = rung (io ?s) (tx_door ?s c)"
    using inv nil unfolding chan_inv_def sw_counts_def by simp
  then show ?thesis using e inv nil by (intro exI [of _ ?s]) simp
qed

theorem issue_pending_announces_all_witness:
  "\<exists>s'. al_dma_issue_pending 0 demo_drv = Some (s', False)"
proof -
  have "sw_pend (drv_chan demo_drv 0) = []"
    by (simp add: demo_drv_def demo_chan_def zero_chan_def sw_pend_def sw_in_flight_def)
  then show ?thesis using issue_pending_announces_all [OF demo_inv0] by auto
qed

text \<open>
  C23: the driver never completes a cookie.  No step changes the completed cookie of any channel, so every cookie
  between it and the last one assigned is reported as in progress for ever, although the clean-up tasklet has
  acknowledged the transaction in the hardware.
\<close>

theorem cookies_never_complete:
  assumes "(drv_step mc A)\<^sup>*\<^sup>* s s'"
  shows "completed s' k = completed s k \<and>
    (sint (completed s k) < sint ck \<and> sint ck \<le> sint (chan_cookie (dchan (drv_chan s' k))) \<longrightarrow>
       fst (al_dma_tx_status (drv_chan s' k) ck) = DMA_IN_PROGRESS)"
proof -
  have "completed s' k = completed s k"
    using assms by (induction rule: rtranclp_induct) (simp_all add: drv_step_completed)
  then show ?thesis by (auto simp: al_dma_tx_status_def dma_cookie_status_def Let_def)
qed

theorem cookies_never_complete_witness:
  "\<exists>s'. (drv_step 1 {0})\<^sup>*\<^sup>* demo_drv s' \<and> fst (al_dma_tx_status (drv_chan s' 0) 1) = DMA_IN_PROGRESS"
proof -
  obtain s' where e: "al_dma_tx_submit 1 0 3 demo_drv = Some (1, s')" "chan_cookie (dchan (drv_chan s' 0)) = 1"
    by (simp add: al_dma_tx_submit_def dma_cookie_assign_def sw_desc_set_def demo_drv_def demo_chan_def zero_chan_def ch_update_def)
  then have run: "(drv_step 1 {0})\<^sup>*\<^sup>* demo_drv s'" by (intro r_into_rtranclp step_submit) auto
  have "completed demo_drv 0 = 0" by (simp add: demo_drv_def demo_chan_def zero_chan_def)
  then have "fst (al_dma_tx_status (drv_chan s' 0) 1) = DMA_IN_PROGRESS"
    using cookies_never_complete [OF run, of 0 1] e(2) by simp
  with run show ?thesis by blast
qed

end
