(* ===== verification/Dma_Drv_Life.thy ===== *)
theory Dma_Drv_Life
  imports Dma_Drv_Props "HOL-Library.Multiset"
begin

text \<open>
  The life of the driver: probe and remove, allocation and release of the resources of a channel, and the composition with
  the runs of the previous theory.  The resources the driver holds are accounted for on every path, error
  paths included, and the channel invariant, assumed so far, is established by the initialisation code.
\<close>

subsection \<open>Channel resources\<close>

text \<open>The four coherent allocations, in the order they are made.\<close>

definition chan_rings :: "chan_allocs \<Rightarrow> (ptr \<times> u64) list" where
  "chan_rings got = [got_tx_ring got, got_tx_cring got, got_rx_ring got, got_rx_cring got]"

definition all_allocated :: "chan_allocs \<Rightarrow> bool" where
  "all_allocated got \<longleftrightarrow> got_sw_ring got \<and> (\<forall>r \<in> set (chan_rings got). fst r \<noteq> NULL)"

text \<open>The channel with its rings attached.\<close>

definition chan_with :: "nat \<Rightarrow> chan_allocs \<Rightarrow> al_dma_chan \<Rightarrow> al_dma_chan" where
  "chan_with n got ch = ch\<lparr>sw_ring_count := n, sw_ring := Some (replicate n zero_sw_desc),
     tx_ring := fst (got_tx_ring got), tx_ring_dma := snd (got_tx_ring got),
     tx_cring := fst (got_tx_cring got), tx_cring_dma := snd (got_tx_cring got),
     rx_ring := fst (got_rx_ring got), rx_ring_dma := snd (got_rx_ring got),
     rx_cring := fst (got_rx_cring got), rx_cring_dma := snd (got_rx_cring got)\<rparr>"

lemma chan_with_simps [simp]:
  "ch_idx (chan_with n got ch) = ch_idx ch" "dchan (chan_with n got ch) = dchan ch"
  "sw_ring_count (chan_with n got ch) = n" "sw_ring (chan_with n got ch) = Some (replicate n zero_sw_desc)"
  by (simp_all add: chan_with_def)

lemma ch_update_twice: "c < length (channels (dev s)) \<Longrightarrow> ch_update c f (ch_update c g s) = ch_update c (\<lambda>ch. f (g ch)) s"
  by (simp add: ch_update_def)

lemma coherent_simps [simp]:
  "dev (coherent_hold r s) = dev s" "io (coherent_hold r s) = io s" "dmem (coherent_hold r s) = dmem s"
  "coherent (coherent_hold r s) = coherent s @ [r]"
  "dev (dma_free_coherent p d s) = dev s" "io (dma_free_coherent p d s) = io s" "dmem (dma_free_coherent p d s) = dmem s"
  "coherent (dma_free_coherent p d s) = remove1 (p, d) (coherent s)"
  by (simp_all add: coherent_hold_def dma_free_coherent_def)

lemma ch_update_coherent:
  "ch_update c f (coherent_hold r s) = coherent_hold r (ch_update c f s)"
  by (simp add: ch_update_def coherent_hold_def)

text \<open>With all allocations granted the function comes down to the initialisation of the queue pair.\<close>

abbreviation q_init_pair :: "nat \<Rightarrow> chan_allocs \<Rightarrow> nat \<Rightarrow> drv \<Rightarrow> (rc \<times> al_ssm_dma \<times> mmio) option" where
  "q_init_pair n got c s \<equiv> al_ssm_dma_q_init (drv_hal s) (chan_q s c) (tx_q_params n (chan_with n got (drv_chan s c)))
     (rx_q_params n (chan_with n got (drv_chan s c))) AL_RAID_Q (io s)"

definition chan_attached :: "nat \<Rightarrow> chan_allocs \<Rightarrow> nat \<Rightarrow> al_ssm_dma \<Rightarrow> mmio \<Rightarrow> drv \<Rightarrow> drv" where
  "chan_attached n got c hal m s =
     s\<lparr>dev := (dev s)\<lparr>hal_dma := hal, channels := (channels (dev s))[c := chan_with n got (drv_chan s c)]\<rparr>,
       io := m, coherent := coherent s @ chan_rings got\<rparr>"

lemma alloc_granted:
  assumes "c < length (channels (dev s))" "all_allocated got"
  shows "al_dma_alloc_chan_resources k got c s =
    (case q_init_pair (2 ^ k) got c s of
       None \<Rightarrow> None
     | Some (rc, hal, m) \<Rightarrow>
         Some (if rc \<noteq> RcOk then err_q_init c (chan_attached (2 ^ k) got c hal m s)
               else (Inr (2 ^ k), ch_update c (\<lambda>ch. ch\<lparr>ch_head := 0, ch_tail := 0\<rparr>) (chan_attached (2 ^ k) got c hal m s))))"
proof -
  let ?s = "coherent_hold (got_rx_cring got) (coherent_hold (got_rx_ring got) (coherent_hold (got_tx_cring got)
    (coherent_hold (got_tx_ring got) (ch_update c (chan_with (2 ^ k) got) s))))"
  have "al_dma_alloc_chan_resources k got c s =
    (case q_init_pair (2 ^ k) got c s of
       None \<Rightarrow> None
     | Some (rc, hal, m) \<Rightarrow> let s = ?s\<lparr>dev := (dev ?s)\<lparr>hal_dma := hal\<rparr>, io := m\<rparr> in
         Some (if rc \<noteq> RcOk then err_q_init c s else (Inr (2 ^ k), ch_update c (\<lambda>ch. ch\<lparr>ch_head := 0, ch_tail := 0\<rparr>) s)))"
    using assms
    by (simp add: al_dma_alloc_chan_resources_def Let_def all_allocated_def chan_rings_def ch_update_coherent ch_update_twice
        chan_with_def [symmetric] chan_with_def [abs_def, symmetric] if_distrib [of Some] split: option.split)
  moreover have "?s\<lparr>dev := (dev ?s)\<lparr>hal_dma := hal\<rparr>, io := m\<rparr> = chan_attached (2 ^ k) got c hal m s" for hal m
    by (simp add: chan_attached_def ch_update_def coherent_hold_def chan_rings_def)
  ultimately show ?thesis unfolding Let_def by (simp only:)
qed

text \<open>The error labels give back what was held, in whatever order the allocator answered.\<close>

lemma ch_update_held [simp]: "dev (ch_update c f s) = (dev s)\<lparr>channels := (channels (dev s))[c := f (drv_chan s c)]\<rparr>"
  by (simp add: ch_update_def)

lemma err_q_init_eq:
  "err_q_init c s = (Inl ENOMEM, (ch_update c (\<lambda>ch. ch\<lparr>sw_ring := None\<rparr>) s)\<lparr>coherent :=
     remove1 (tx_ring (drv_chan s c), tx_ring_dma (drv_chan s c)) (remove1 (tx_cring (drv_chan s c), tx_cring_dma (drv_chan s c))
       (remove1 (rx_ring (drv_chan s c), rx_ring_dma (drv_chan s c)) (remove1 (rx_cring (drv_chan s c), rx_cring_dma (drv_chan s c)) (coherent s))))\<rparr>)"
  by (simp add: err_q_init_def err_rx_cring_def err_rx_ring_def err_tx_cring_def err_tx_ring_def ch_update_def dma_free_coherent_def)

lemma mset_released: "mset (remove1 a (remove1 b (remove1 c (remove1 d (xs @ [a, b, c, d]))))) = mset xs"
  by simp

lemma alloc_refused:
  assumes "c < length (channels (dev s))" "\<not> all_allocated got"
  shows "\<exists>s'. al_dma_alloc_chan_resources k got c s = Some (Inl ENOMEM, s') \<and> sw_ring (drv_chan s' c) = None \<and>
    mset (coherent s') = mset (coherent s) \<and> (\<forall>j. j \<noteq> c \<longrightarrow> drv_chan s' j = drv_chan s j) \<and>
    ch_idx (drv_chan s' c) = ch_idx (drv_chan s c) \<and> dchan (drv_chan s' c) = dchan (drv_chan s c) \<and>
    length (channels (dev s')) = length (channels (dev s)) \<and> drv_hal s' = drv_hal s \<and> io s' = io s \<and> dmem s' = dmem s"
  using assms
  by (auto simp: al_dma_alloc_chan_resources_def Let_def all_allocated_def chan_rings_def err_rx_cring_def
      err_rx_ring_def err_tx_cring_def err_tx_ring_def)

subsection \<open>The queue pair\<close>

text \<open>
  The two engines of a device whose register block starts at \<open>B\<close>, with \<open>n\<close> queues each.  Doorbells are the registers at
  offset \<open>0x38\<close> of a queue's page.
\<close>

definition engines_ok :: "ptr \<Rightarrow> nat \<Rightarrow> al_ssm_dma \<Rightarrow> bool" where
  "engines_ok B n hal \<longleftrightarrow> n \<le> DMA_MAX_Q \<and> length (q_types hal) = DMA_MAX_Q \<and>
     ssm_max_src_descs hal = 31 \<and> ssm_max_dst_descs hal = 31 \<and>
     (let t = tx_udma (m2m_udma hal); r = rx_udma (m2m_udma hal) in
      udma_type t = UDMA_TX \<and> udma_regs t = B \<and> unat (num_of_queues t) = n \<and> length (udma_q t) = DMA_MAX_Q \<and>
      udma_type r = UDMA_RX \<and> udma_regs r = B + 0x10000 \<and> unat (num_of_queues r) = n \<and> length (udma_q r) = DMA_MAX_Q)"

definition config_regs :: "ptr \<Rightarrow> ptr set" where
  "config_regs B = {a. B \<le> a \<and> (a - B) mod 0x1000 \<noteq> 0x38}"

lemma config_regs_page: "(k mod 0x1000 \<noteq> 0x38) \<Longrightarrow> b = B + 0x1000 * j \<Longrightarrow> b + k \<in> config_regs B"
  by (simp add: config_regs_def)

lemma writes_in_rung: "writes_in m m' A \<Longrightarrow> a \<notin> A \<Longrightarrow> rung m' a = rung m a"
  by (auto simp: writes_in_def rung_def filter_empty_conv image_subset_iff)

lemma writes_in_trans: "writes_in m m' A \<Longrightarrow> writes_in m' m'' A \<Longrightarrow> writes_in m m'' A"
  unfolding writes_in_def by (metis append.assoc image_Un set_append Un_least)

lemma q_init_writes:
  assumes "al_udma_q_init u i qp m = Some (rc, u', m')" "udma_regs u = B + 0x1000 * j"
  shows "writes_in m m' (config_regs B)"
proof -
  let ?q = "q_init_fields u i qp (udma_q u ! unat i)"
  have page: "q_regs ?q = B + 0x1000 * (j + 1 + unat i)"
    using assms(2) by (simp add: q_init_fields_def reg_off)
  have r: "rings_reg q r \<in> config_regs B" if "r \<noteq> rings_drtp_inc" "q_regs q = q_regs ?q" for q r
    unfolding rings_reg_def using that by (intro config_regs_page [OF _ that(2) [unfolded page]]) (cases r; simp)
  have c: "m2s_q_reg q (m2s_q_rlimit rlimit_common_mask) \<in> config_regs B" "m2s_q_reg q m2s_q_comp_cfg \<in> config_regs B"
    "s2m_q_reg q s2m_q_comp_cfg \<in> config_regs B" if "q_regs q = q_regs ?q" for q
    unfolding m2s_q_reg_def s2m_q_reg_def by (intro config_regs_page [OF _ that [unfolded page]], simp)+
  have e: "udma_regs u + off_s2m_regs (s2m_regs_s2m_comp s2m_comp_cfg_1c) \<in> config_regs B"
    by (intro config_regs_page [OF _ assms(2)]) simp
  have cfg: "writes_in m (al_udma_q_config u ?q m) (config_regs B)"
    by (auto simp: al_udma_q_config_def Let_def c)
  have compl: "writes_in m (al_udma_q_config_compl u q m') (config_regs B)"
    if "writes_in m m' (config_regs B)" "q_regs q = q_regs ?q" for q m m'
    unfolding al_udma_q_config_compl_def Let_def using that c e by (auto split: if_split)
  have ptrs: "writes_in m m'' (config_regs B) \<and> q_regs q = q_regs ?q"
    if "al_udma_q_set_pointers u ?q m' = Some (q, m'')" "writes_in m m' (config_regs B)" for q m m' m''
    using that unfolding al_udma_q_set_pointers_def Let_def
    by (cases "cdesc_base_ptr ?q = NULL") (auto intro!: compl simp: r)
  have en: "writes_in m (snd (al_udma_q_enable q True m')) (config_regs B)"
    if "writes_in m m' (config_regs B)" "q_regs q = q_regs ?q" for q m m'
    using that r [of rings_cfg q] by (auto simp: al_udma_q_enable_def Let_def rings_reg_def)
  show ?thesis
  proof (cases "al_udma_q_set_pointers u ?q (al_udma_q_config u ?q m)")
    case None
    then show ?thesis using assms(1) by (auto simp: q_init_cases Let_def split: if_splits)
  next
    case (Some x)
    obtain q m1 where x: "al_udma_q_set_pointers u ?q (al_udma_q_config u ?q m) = Some (q, m1)"
      using Some by (cases x) simp
    from en [of m m1 q] ptrs [OF x cfg] show ?thesis
      using assms(1) x by (auto simp: q_init_cases Let_def split: if_splits)
  qed
qed

lemma q_init_result:
  assumes "al_udma_q_init u i qp m = Some (rc, u', m')"
  shows "\<exists>q. u' = u\<lparr>udma_q := (udma_q u)[unat i := q]\<rparr> \<and> (rc \<noteq> RcOk \<longrightarrow> u' = u \<and> m' = m) \<and>
    (rc = RcOk \<longrightarrow> udma_ring_ok q \<and> udma_submitted q 0 \<and> q_status q = AL_QUEUE_ENABLED \<and>
       q_regs q = udma_regs u + 0x1000 + 0x1000 * unat i)"
proof -
  let ?q = "q_init_fields u i qp (udma_q u ! unat i)"
  have rg: "q_regs ?q = udma_regs u + 0x1000 + 0x1000 * unat i" by (simp add: q_init_fields_def reg_off)
  show ?thesis
  proof (cases "rc = RcOk")
    case True
    then obtain q m1 where p: "al_udma_q_set_pointers u ?q (al_udma_q_config u ?q m) = Some (q, m1)" "q_params_ok qp"
      "u' = u\<lparr>udma_q := (udma_q u)[unat i := q\<lparr>q_status := AL_QUEUE_ENABLED\<rparr>]\<rparr>"
      using assms by (auto simp: q_init_cases Let_def split: if_splits option.splits)
    show ?thesis
      using True p(3) q_init_fields_ok [OF p(2), of u i "udma_q u ! unat i"] rg
      by (intro exI [of _ "q\<lparr>q_status := AL_QUEUE_ENABLED\<rparr>"]) (simp add: q_fields_after_pointers [OF p(1)])
  next
    case False
    then show ?thesis
      using assms by (intro exI [of _ "udma_q u ! unat i"]) (auto simp: q_init_cases Let_def split: if_splits option.splits)
  qed
qed

text \<open>
  The pair of queues \<open>i\<close>: whatever the outcome, only this pair changes and no doorbell is written; on success both queues are
  empty, well formed and enabled.
\<close>

definition pair_init :: "ptr \<Rightarrow> nat \<Rightarrow> al_ssm_dma \<Rightarrow> al_ssm_dma \<Rightarrow> bool" where
  "pair_init B i hal hal' \<longleftrightarrow>
     (let tq = udma_q (tx_udma (m2m_udma hal')) ! i; rq = udma_q (rx_udma (m2m_udma hal')) ! i in
      q_types hal' ! i = AL_RAID_Q \<and> udma_ring_ok tq \<and> udma_submitted tq 0 \<and> udma_ring_ok rq \<and>
      q_status tq = AL_QUEUE_ENABLED \<and> q_regs tq = B + 0x1000 + 0x1000 * i \<and> q_regs rq = B + 0x11000 + 0x1000 * i)"

definition pairs_kept :: "nat \<Rightarrow> al_ssm_dma \<Rightarrow> al_ssm_dma \<Rightarrow> bool" where
  "pairs_kept i hal hal' \<longleftrightarrow>
     (q_status (udma_q (tx_udma (m2m_udma hal')) ! i) \<noteq> AL_QUEUE_ENABLED \<longrightarrow>
        udma_q (tx_udma (m2m_udma hal')) ! i = udma_q (tx_udma (m2m_udma hal)) ! i) \<and>
     (\<forall>j. j \<noteq> i \<longrightarrow> q_types hal' ! j = q_types hal ! j \<and>
     udma_q (tx_udma (m2m_udma hal')) ! j = udma_q (tx_udma (m2m_udma hal)) ! j \<and>
     udma_q (rx_udma (m2m_udma hal')) ! j = udma_q (rx_udma (m2m_udma hal)) ! j)"

lemma ssm_q_init_result:
  assumes "al_ssm_dma_q_init hal i tp rp AL_RAID_Q m = Some (rc, hal', m')" "engines_ok B n hal" "unat i < n"
  shows "engines_ok B n hal' \<and> pairs_kept (unat i) hal hal' \<and> writes_in m m' (config_regs B) \<and>
    (rc = RcOk \<longrightarrow> pair_init B (unat i) hal hal')"
proof -
  let ?t = "tx_udma (m2m_udma hal)" and ?r = "rx_udma (m2m_udma hal)"
  note e = assms(2) [unfolded engines_ok_def Let_def]
  from assms(1) obtain rt t m1 where t: "al_udma_q_init ?t i (tp\<lparr>qp_adapter_rev_id := ssm_rev_id hal\<rparr>) m = Some (rt, t, m1)"
    by (auto simp: al_ssm_dma_q_init_def al_m2m_udma_q_init_def Let_def split: Option.bind_splits)
  obtain tq where tq: "t = ?t\<lparr>udma_q := (udma_q ?t)[unat i := tq]\<rparr>" "rt \<noteq> RcOk \<Longrightarrow> t = ?t"
    "rt = RcOk \<Longrightarrow> udma_ring_ok tq \<and> udma_submitted tq 0 \<and> q_status tq = AL_QUEUE_ENABLED \<and> q_regs tq = B + 0x1000 + 0x1000 * unat i"
    using q_init_result [OF t] e by auto
  have w1: "writes_in m m1 (config_regs B)" using q_init_writes [OF t, of B 0] e by simp
  show ?thesis
  proof (cases "rt = RcOk")
    case False
    then have "hal' = hal\<lparr>m2m_udma := (m2m_udma hal)\<lparr>tx_udma := t\<rparr>\<rparr>" "m' = m1" "rc \<noteq> RcOk"
      using assms(1) t by (auto simp: al_ssm_dma_q_init_def al_m2m_udma_q_init_def Let_def)
    then show ?thesis
      using w1 tq(2) [OF False] e assms(3) by (simp add: engines_ok_def pairs_kept_def Let_def)
  next
    case True
    from assms(1) t True obtain rr r where
      r: "al_udma_q_init ?r i (rp\<lparr>qp_adapter_rev_id := ssm_rev_id hal\<rparr>) m1 = Some (rr, r, m')" "rc = rr"
      and hal': "hal' = hal\<lparr>m2m_udma := (m2m_udma hal)\<lparr>tx_udma := t, rx_udma := r\<rparr>,
        q_types := if rr = RcOk then (q_types hal)[unat i := AL_RAID_Q] else q_types hal\<rparr>"
      by (auto simp: al_ssm_dma_q_init_def al_m2m_udma_q_init_def Let_def split: Option.bind_splits if_splits)
    obtain rq where rq: "r = ?r\<lparr>udma_q := (udma_q ?r)[unat i := rq]\<rparr>"
      "rr = RcOk \<Longrightarrow> udma_ring_ok rq \<and> q_regs rq = B + 0x11000 + 0x1000 * unat i"
    proof -
      obtain q where "r = ?r\<lparr>udma_q := (udma_q ?r)[unat i := q]\<rparr>"
        "rr = RcOk \<Longrightarrow> udma_ring_ok q \<and> q_regs q = udma_regs ?r + 0x1000 + 0x1000 * unat i"
        using q_init_result [OF r(1)] by blast
      then show ?thesis using e by (intro that [of q]) simp_all
    qed
    have w2: "writes_in m1 m' (config_regs B)" using q_init_writes [OF r(1), of B 16] e by simp
    have "engines_ok B n hal'" "pairs_kept (unat i) hal hal'"
      using e tq(3) [OF True] assms(3) unfolding hal' tq(1) rq(1) by (simp_all add: engines_ok_def pairs_kept_def Let_def)
    moreover have "rc = RcOk \<Longrightarrow> pair_init B (unat i) hal hal'"
      using e tq(3) [OF True] rq(2) r(2) assms(3) unfolding hal' tq(1) rq(1) by (simp add: pair_init_def Let_def)
    ultimately show ?thesis using writes_in_trans [OF w1 w2] by blast
  qed
qed

subsection \<open>Life of the channels\<close>

text \<open>
  The invariant of a device with register block \<open>B\<close>, \<open>n\<close> channels, active channels \<open>A\<close>; \<open>M\<close> is the coherent memory that was held
  before and \<open>d\<close> the doorbells that had been rung before.  Coherent memory is held exactly for the rings of the active channels,
  and a channel whose queue was never enabled has not been rung.
\<close>

abbreviation door_of :: "ptr \<Rightarrow> nat \<Rightarrow> ptr" where
  "door_of B k \<equiv> B + 0x1000 + 0x1000 * k + 0x38"

abbreviation txq :: "drv \<Rightarrow> nat \<Rightarrow> al_udma_q" where
  "txq s k \<equiv> udma_q (tx_udma (m2m_udma (drv_hal s))) ! k"

abbreviation rxq :: "drv \<Rightarrow> nat \<Rightarrow> al_udma_q" where
  "rxq s k \<equiv> udma_q (rx_udma (m2m_udma (drv_hal s))) ! k"

definition dev_ok :: "ptr \<Rightarrow> nat \<Rightarrow> drv \<Rightarrow> bool" where
  "dev_ok B n s \<longleftrightarrow> engines_ok B n (drv_hal s) \<and> length (channels (dev s)) = DMA_MAX_Q \<and> (\<forall>k<n. ch_idx (drv_chan s k) = k)"

definition active_ok :: "ptr \<Rightarrow> nat \<Rightarrow> drv \<Rightarrow> nat \<Rightarrow> bool" where
  "active_ok B d s k \<longleftrightarrow> chan_inv d s k \<and> q_regs (txq s k) = B + 0x1000 + 0x1000 * k \<and> q_regs (rxq s k) = B + 0x11000 + 0x1000 * k \<and>
     q_status (txq s k) = AL_QUEUE_ENABLED \<and> (\<forall>r \<in> set (chan_mem (drv_chan s k)). fst r \<noteq> NULL)"

definition life_inv :: "ptr \<Rightarrow> nat \<Rightarrow> (ptr \<times> u64) multiset \<Rightarrow> (nat \<Rightarrow> nat) \<Rightarrow> nat set \<Rightarrow> drv \<Rightarrow> bool" where
  "life_inv B n M d A s \<longleftrightarrow> dev_ok B n s \<and> A \<subseteq> {..<n} \<and> (\<forall>k \<in> A. active_ok B (d k) s k) \<and>
     (\<forall>k<n. q_status (txq s k) \<noteq> AL_QUEUE_ENABLED \<longrightarrow> rung (io s) (door_of B k) = d k) \<and>
     mset (coherent s) = M + (\<Sum>k \<in> A. mset (chan_mem (drv_chan s k)))"

lemma dev_okD:
  assumes "dev_ok B n s" "k < n"
  shows "k < length (channels (dev s))" "unat (chan_q s k) = k" "ch_idx (drv_chan s k) = k" "k < 4" "n \<le> 4" "unat (of_nat k :: u32) = k"
  using assms by (simp_all add: dev_ok_def engines_ok_def DMA_MAX_Q_def unsigned_of_nat take_bit_nat_eq_self)

lemma active_doors:
  assumes "dev_ok B n s" "k < n" "active_ok B d s k"
  shows "tx_door s k = door_of B k" "rx_door s k = door_of B k + 0x10000"
  using assms(3) unfolding dev_okD [OF assms(1,2)] by (simp_all add: active_ok_def rings_reg_def)

lemma life_drv_inv:
  assumes "life_inv B n M d A s"
  shows "drv_inv d A s"
proof -
  have dev: "dev_ok B n s" and A: "\<And>k. k \<in> A \<Longrightarrow> k < n" "\<And>k. k \<in> A \<Longrightarrow> active_ok B (d k) s k"
    using assms by (auto simp: life_inv_def)
  have "tx_door s c \<noteq> tx_door s k \<and> tx_door s c \<noteq> rx_door s k \<and> ch_idx (drv_chan s c) \<noteq> ch_idx (drv_chan s k)"
    if "c \<in> A" "k \<in> A" "c \<noteq> k" for c k
    using active_doors [OF dev A(1) A(2), of c] active_doors [OF dev A(1) A(2), of k] dev_okD [OF dev A(1), of c] dev_okD [OF dev A(1), of k] that
    by simp
  then show ?thesis using A(2) by (auto simp: drv_inv_def active_ok_def)
qed

lemma local_frame:
  assumes "chan_local c s s'" "dev_ok B n s" "c < n"
  shows "dev_ok B n s'" "q_regs (txq s' k) = q_regs (txq s k)" "q_regs (rxq s' k) = q_regs (rxq s k)"
    "q_status (txq s' k) = q_status (txq s k)" "chan_mem (drv_chan s' k) = chan_mem (drv_chan s k)" "coherent s' = coherent s"
proof -
  note c = dev_okD [OF assms(2,3)] and l = assms(1) [unfolded chan_local_def]
  have "ch_idx (drv_chan s' k) = ch_idx (drv_chan s k)" for k using l by (cases "k = c") auto
  then show "dev_ok B n s'" using assms(2) l by (simp add: dev_ok_def engines_ok_def Let_def)
  show "q_regs (txq s' k) = q_regs (txq s k)" "q_regs (rxq s' k) = q_regs (rxq s k)" "q_status (txq s' k) = q_status (txq s k)"
    "chan_mem (drv_chan s' k) = chan_mem (drv_chan s k)" "coherent s' = coherent s"
    using l unfolding c by (cases "k = c"; auto)+
qed

lemma life_run:
  assumes "life_inv B n M d A s" "drv_step mc A s s'"
  shows "life_inv B n M d A s'"
proof -
  note drv = life_drv_inv [OF assms(1)]
  have dev: "dev_ok B n s" and A: "\<And>k. k \<in> A \<Longrightarrow> k < n" "\<And>k. k \<in> A \<Longrightarrow> active_ok B (d k) s k"
    using assms(1) by (auto simp: life_inv_def)
  obtain c where c: "c \<in> A" "chan_local c s s'" using drv_step_local [OF assms(2) drv] by auto
  note f = local_frame [OF c(2) dev A(1) [OF c(1)]]
  have act: "active_ok B (d k) s' k" if "k \<in> A" for k
    using A(2) [OF that] drv_step_inv [OF assms(2) drv] that unfolding active_ok_def f drv_inv_def by simp
  have "rung (io s') (door_of B k) = d k" if k: "k < n" "q_status (txq s k) \<noteq> AL_QUEUE_ENABLED" for k
  proof -
    have "k \<noteq> c" using k(2) A(2) [OF c(1)] by (auto simp: active_ok_def)
    then have "rung (io s') (door_of B k) = rung (io s) (door_of B k)"
      using c(2) active_doors [OF dev A(1) A(2), OF c(1) c(1)] dev_okD(4) [OF dev k(1)] unfolding chan_local_def by simp
    then show ?thesis using assms(1) k by (simp add: life_inv_def)
  qed
  then show ?thesis using assms(1) f act by (simp add: life_inv_def)
qed

text \<open>Release: the coherent memory of the channel goes back, all else stays.\<close>

lemma free_eq:
  assumes "sw_ring (drv_chan s c) \<noteq> None" "\<forall>r \<in> set (chan_mem (drv_chan s c)). fst r \<noteq> NULL"
  shows "al_dma_free_chan_resources c s = ch_update c (\<lambda>ch. ch\<lparr>sw_ring := None\<rparr>)
    (s\<lparr>coherent := fold remove1 (rev (chan_mem (drv_chan s c))) (coherent s)\<rparr>)"
  using assms by (auto simp: al_dma_free_chan_resources_def free_if_def chan_mem_def Let_def dma_free_coherent_def)

lemma mset_fold_remove1: "mset (fold remove1 ys xs) = mset xs - mset ys"
  by (induction ys arbitrary: xs) simp_all

lemma chan_inv_frame:
  assumes "chan_inv d s k" "drv_chan s' k = drv_chan s k" "length (channels (dev s')) = length (channels (dev s))"
    "drv_hal s' = drv_hal s" "io s' = io s"
  shows "chan_inv d s' k"
  using assms by (simp add: chan_inv_def chan_ok_def)

lemma life_free:
  assumes "life_inv B n M d A s" "c \<in> A"
  shows "life_inv B n M d (A - {c}) (al_dma_free_chan_resources c s)"
proof -
  let ?s = "al_dma_free_chan_resources c s" and ?m = "\<lambda>k. mset (chan_mem (drv_chan s k))"
  have dev: "dev_ok B n s" and A: "A \<subseteq> {..<n}" "\<And>k. k \<in> A \<Longrightarrow> active_ok B (d k) s k"
    using assms(1) by (auto simp: life_inv_def)
  have c: "sw_ring (drv_chan s c) \<noteq> None" "\<forall>r \<in> set (chan_mem (drv_chan s c)). fst r \<noteq> NULL" "c < length (channels (dev s))"
    using A(2) [OF assms(2)] by (auto simp: active_ok_def chan_inv_def chan_ok_def sw_ring_ok_def)
  note eq = free_eq [OF c(1,2)]
  have same: "drv_hal ?s = drv_hal s" "io ?s = io s" "length (channels (dev ?s)) = length (channels (dev s))"
    "\<And>k. k \<noteq> c \<Longrightarrow> drv_chan ?s k = drv_chan s k" "\<And>k. ch_idx (drv_chan ?s k) = ch_idx (drv_chan s k)"
    using c(3) by (auto simp: eq nth_list_update)
  have fin: "finite A" using A(1) finite_subset by blast
  have act: "active_ok B (d k) ?s k" if "k \<in> A - {c}" for k
    using A(2) [of k] that chan_inv_frame [of "d k" s k ?s] by (simp add: active_ok_def same)
  have "mset (coherent ?s) = mset (coherent s) - ?m c" by (simp add: eq mset_fold_remove1)
  also have "\<dots> = M + (\<Sum>k \<in> A - {c}. ?m k)"
    using assms sum.remove [OF fin assms(2), of ?m] by (simp add: life_inv_def)
  also have "(\<Sum>k \<in> A - {c}. ?m k) = (\<Sum>k \<in> A - {c}. mset (chan_mem (drv_chan ?s k)))"
    by (rule sum.cong) (simp_all add: same)
  finally show ?thesis
    using assms(1) act unfolding life_inv_def dev_ok_def same by auto
qed

text \<open>
  Allocation on an inactive channel.  A refused or failed allocation leaves the channel inactive and gives back what it took; a
  successful one adds the channel, its queue pair empty and its software ring empty.
\<close>

lemma fresh_sw_ring:
  assumes "0 < n"
  shows "sw_ring_ok ((chan_with n got ch)\<lparr>ch_head := 0, ch_tail := 0\<rparr>)" "sw_counts ((chan_with n got ch)\<lparr>ch_head := 0, ch_tail := 0\<rparr>) = []"
  using assms by (simp_all add: sw_ring_ok_def sw_counts_def sw_pend_def sw_in_flight_def)

lemma chan_mem_with [simp]: "chan_mem (chan_with n got ch) = chan_rings got"
  by (simp add: chan_mem_def chan_with_def chan_rings_def)

lemma pair_chan_inv:
  assumes "pair_init B c hal (drv_hal s)" "dev_ok B n s" "c < n" "sw_ring_ok (drv_chan s c)" "sw_counts (drv_chan s c) = []"
  shows "chan_inv (rung (io s) (door_of B c)) s c"
proof -
  note p = assms(1) [unfolded pair_init_def Let_def] and c = dev_okD [OF assms(2,3)]
  note e = assms(2) [unfolded dev_ok_def engines_ok_def Let_def]
  have lt: "(of_nat c :: u32) < ucast (num_of_queues (tx_udma (m2m_udma (drv_hal s))))"
      "(of_nat c :: u32) < ucast (num_of_queues (rx_udma (m2m_udma (drv_hal s))))"
    using e assms(3) c(6) by (simp_all add: word_less_nat_alt)
  have ok: "chan_ok s c"
    using p e c lt assms(4) by (simp add: chan_ok_def raid_q_ok_def DMA_MAX_Q_def)
  show ?thesis
    unfolding chan_inv_def using ok p assms(5) c
    by (auto simp: rings_reg_def ac_simps intro!: exI [of _ 0])
qed

lemma attached_simps:
  assumes "c < length (channels (dev s))"
  shows "drv_chan (chan_attached n got c hal m s) c = chan_with n got (drv_chan s c)"
    "k \<noteq> c \<Longrightarrow> drv_chan (chan_attached n got c hal m s) k = drv_chan s k"
    "drv_hal (chan_attached n got c hal m s) = hal" "io (chan_attached n got c hal m s) = m"
    "length (channels (dev (chan_attached n got c hal m s))) = length (channels (dev s))"
    "coherent (chan_attached n got c hal m s) = coherent s @ chan_rings got"
  using assms by (simp_all add: chan_attached_def)

lemma mset_err_q_init:
  assumes "c < length (channels (dev s))"
  shows "mset (coherent (snd (err_q_init c (chan_attached n got c hal m s)))) = mset (coherent s)"
  using assms by (simp add: err_q_init_eq attached_simps chan_with_def chan_rings_def)

text \<open>What every allocation leaves alone, whatever its outcome.\<close>

definition alloc_frame :: "ptr \<Rightarrow> nat \<Rightarrow> drv \<Rightarrow> drv \<Rightarrow> bool" where
  "alloc_frame B c s s' \<longleftrightarrow> pairs_kept c (drv_hal s) (drv_hal s') \<and> writes_in (io s) (io s') (config_regs B) \<and>
     (\<forall>k. k \<noteq> c \<longrightarrow> drv_chan s' k = drv_chan s k) \<and> length (channels (dev s')) = length (channels (dev s))"

lemma alloc_result:
  assumes "dev_ok B n s" "c < n" "al_dma_alloc_chan_resources k got c s = Some (r, s')"
  shows "alloc_frame B c s s' \<and> dev_ok B n s' \<and>
    (case r of
       Inl e \<Rightarrow> e = ENOMEM \<and> sw_ring (drv_chan s' c) = None \<and> mset (coherent s') = mset (coherent s) \<and>
         (\<not> all_allocated got \<longrightarrow> drv_hal s' = drv_hal s)
     | Inr sz \<Rightarrow> sz = 2 ^ k \<and> all_allocated got \<and> chan_mem (drv_chan s' c) = chan_rings got \<and>
         coherent s' = coherent s @ chan_rings got \<and> q_status (txq s c) \<noteq> AL_QUEUE_ENABLED \<and>
         pair_init B c (drv_hal s) (drv_hal s') \<and> sw_ring_ok (drv_chan s' c) \<and> sw_counts (drv_chan s' c) = [])"
proof (cases "all_allocated got")
  case False
  note c = dev_okD [OF assms(1,2)]
  obtain s1 where s1: "al_dma_alloc_chan_resources k got c s = Some (Inl ENOMEM, s1)" "sw_ring (drv_chan s1 c) = None"
    "mset (coherent s1) = mset (coherent s)" "\<forall>j. j \<noteq> c \<longrightarrow> drv_chan s1 j = drv_chan s j"
    "ch_idx (drv_chan s1 c) = ch_idx (drv_chan s c)" "length (channels (dev s1)) = length (channels (dev s))"
    "drv_hal s1 = drv_hal s" "io s1 = io s"
    using alloc_refused [OF c(1) False, of k] by auto
  have "ch_idx (drv_chan s1 j) = ch_idx (drv_chan s j)" for j using s1(4,5) by (cases "j = c") auto
  then show ?thesis
    using assms(1,3) False s1 by (auto simp: alloc_frame_def pairs_kept_def dev_ok_def)
next
  case True
  note c = dev_okD [OF assms(1,2)]
  obtain rc hal m where q: "q_init_pair (2 ^ k) got c s = Some (rc, hal, m)"
    "(r, s') = (if rc \<noteq> RcOk then err_q_init c (chan_attached (2 ^ k) got c hal m s)
      else (Inr (2 ^ k), ch_update c (\<lambda>ch. ch\<lparr>ch_head := 0, ch_tail := 0\<rparr>) (chan_attached (2 ^ k) got c hal m s)))"
    using assms(3) alloc_granted [OF c(1) True, of k] by (auto split: option.splits)
  have e: "engines_ok B n (drv_hal s)" using assms(1) by (simp add: dev_ok_def)
  note res = ssm_q_init_result [OF q(1) e, unfolded c, OF assms(2)]
  note at = attached_simps [OF c(1), where n = "2 ^ k" and got = got and hal = hal and m = m]
  show ?thesis
  proof (cases "rc = RcOk")
    case False
    have idx: "ch_idx (drv_chan s' j) = ch_idx (drv_chan s j)" for j
      using q(2) False c(1) by (cases "j = c") (simp_all add: err_q_init_eq at)
    have s': "r = Inl ENOMEM" "drv_hal s' = hal" "io s' = m" "\<forall>j. j \<noteq> c \<longrightarrow> drv_chan s' j = drv_chan s j"
      "length (channels (dev s')) = length (channels (dev s))" "sw_ring (drv_chan s' c) = None"
      using q(2) False c(1) by (simp_all add: err_q_init_eq at)
    have "mset (coherent s') = mset (coherent s)"
      using q(2) False mset_err_q_init [OF c(1), of "2 ^ k" got hal m] by (metis snd_conv)
    then show ?thesis using assms(1) res idx s' True by (simp add: alloc_frame_def dev_ok_def)
  next
    case rc: True
    have s': "r = Inr (2 ^ k)" "s' = ch_update c (\<lambda>ch. ch\<lparr>ch_head := 0, ch_tail := 0\<rparr>) (chan_attached (2 ^ k) got c hal m s)"
      using q(2) rc by simp_all
    have idx: "ch_idx (drv_chan s' j) = ch_idx (drv_chan s j)" for j
      using c(1) by (cases "j = c") (simp_all add: s' at)
    have st: "q_status (txq s c) \<noteq> AL_QUEUE_ENABLED"
      using q(1) rc c unfolding al_ssm_dma_q_init_def al_m2m_udma_q_init_def Let_def
      by (auto simp: q_init_cases split: if_splits)
    show ?thesis
      using assms(1) res rc idx st True c(1) fresh_sw_ring [of "2 ^ k" got "drv_chan s c"]
      by (simp add: s' at alloc_frame_def dev_ok_def)
  qed
qed

lemma door_not_config: "door_of B k \<notin> config_regs B"
proof -
  have "(door_of B k - B) mod 0x1000 = (0x38 + 0x1000 * (k + 1)) mod 0x1000" by (rule arg_cong [of _ _ "\<lambda>x. x mod 0x1000"]) simp
  then show ?thesis unfolding config_regs_def by (simp only: mod_mult_self2) simp
qed

lemma alloc_rung: "alloc_frame B c s s' \<Longrightarrow> rung (io s') (door_of B k) = rung (io s) (door_of B k)"
  using writes_in_rung door_not_config unfolding alloc_frame_def by blast

lemma alloc_other:
  assumes "alloc_frame B c s s'" "dev_ok B n s" "dev_ok B n s'" "k < n" "k \<noteq> c" "active_ok B d s k"
  shows "active_ok B d s' k"
proof -
  have f: "drv_chan s' k = drv_chan s k" "txq s' k = txq s k" "rxq s' k = rxq s k" "q_types (drv_hal s') ! k = q_types (drv_hal s) ! k"
    using assms(1,5) by (simp_all add: alloc_frame_def pairs_kept_def)
  note k = dev_okD [OF assms(2,4)] dev_okD [OF assms(3,4)]
  note e = assms(2) [unfolded dev_ok_def engines_ok_def Let_def] assms(3) [unfolded dev_ok_def engines_ok_def Let_def]
  have "unat (num_of_queues (tx_udma (m2m_udma (drv_hal s')))) = unat (num_of_queues (tx_udma (m2m_udma (drv_hal s))))"
    "unat (num_of_queues (rx_udma (m2m_udma (drv_hal s')))) = unat (num_of_queues (rx_udma (m2m_udma (drv_hal s))))"
    using e by simp_all
  then have n: "num_of_queues (tx_udma (m2m_udma (drv_hal s'))) = num_of_queues (tx_udma (m2m_udma (drv_hal s)))"
    "num_of_queues (rx_udma (m2m_udma (drv_hal s'))) = num_of_queues (rx_udma (m2m_udma (drv_hal s)))"
    by (simp_all only: word_unat_eq_iff)
  have rg: "rung (io s') (tx_door s k) = rung (io s) (tx_door s k)"
    using alloc_rung [OF assms(1)] active_doors [OF assms(2,4,6)] by simp
  have ci: "chan_inv d s k" using assms(6) by (simp add: active_ok_def)
  have "chan_inv d s' k"
    using ci rg k e f n unfolding chan_inv_def chan_ok_def raid_q_ok_def by simp
  then show ?thesis using assms(6) f by (simp add: active_ok_def)
qed

lemma life_alloc:
  assumes "life_inv B n M d A s" "c < n" "c \<notin> A" "al_dma_alloc_chan_resources k got c s = Some (r, s')"
  shows "life_inv B n M d (if isl r then A else insert c A) s'"
proof -
  have dev: "dev_ok B n s" and A: "A \<subseteq> {..<n}" "\<And>k. k \<in> A \<Longrightarrow> active_ok B (d k) s k"
    using assms(1) by (auto simp: life_inv_def)
  note res = alloc_result [OF dev assms(2,4)]
  have fr: "alloc_frame B c s s'" "dev_ok B n s'" using res by simp_all
  have act: "active_ok B (d k) s' k" if "k \<in> A" for k
    using alloc_other [OF fr(1) dev fr(2), of k "d k"] A that assms(3) by auto
  have idle: "rung (io s') (door_of B j) = d j" if "j < n" "q_status (txq s' j) \<noteq> AL_QUEUE_ENABLED" for j
  proof -
    have "q_status (txq s j) \<noteq> AL_QUEUE_ENABLED"
      using that(2) fr(1) unfolding alloc_frame_def pairs_kept_def by (cases "j = c") auto
    then show ?thesis using assms(1) that(1) alloc_rung [OF fr(1)] by (simp add: life_inv_def)
  qed
  have mem: "(\<Sum>k \<in> A. mset (chan_mem (drv_chan s' k))) = (\<Sum>k \<in> A. mset (chan_mem (drv_chan s k)))"
    using fr(1) assms(3) by (intro sum.cong) (auto simp: alloc_frame_def)
  have fin: "finite A" using A(1) finite_subset by blast
  show ?thesis
  proof (cases r)
    case (Inl e)
    then show ?thesis using res act idle mem A(1) assms(1) by (simp add: life_inv_def)
  next
    case (Inr sz)
    then have new: "all_allocated got" "chan_mem (drv_chan s' c) = chan_rings got" "coherent s' = coherent s @ chan_rings got"
      "q_status (txq s c) \<noteq> AL_QUEUE_ENABLED" "pair_init B c (drv_hal s) (drv_hal s')" "sw_ring_ok (drv_chan s' c)" "sw_counts (drv_chan s' c) = []"
      using res by simp_all
    have "d c = rung (io s') (door_of B c)"
      using assms(1,2) new(4) alloc_rung [OF fr(1), of c] by (simp add: life_inv_def)
    then have "active_ok B (d c) s' c"
      using pair_chan_inv [OF new(5) fr(2) assms(2) new(6,7)] new(1,2,5) by (simp add: active_ok_def pair_init_def all_allocated_def Let_def)
    moreover have "mset (coherent s') = M + (\<Sum>k \<in> insert c A. mset (chan_mem (drv_chan s' k)))"
      using assms(1,3) fin mem new(2,3) by (simp add: life_inv_def)
    ultimately show ?thesis using Inr act idle fr(2) A(1) assms(2) by (simp add: life_inv_def)
  qed
qed

subsection \<open>Initialisation of the engines\<close>

lemma udma_init_result:
  assumes "al_udma_init u p m = (rc, u', m')" "length (udma_q u) = DMA_MAX_Q"
  shows "rc = (if up_num_of_queues p \<le> of_nat DMA_MAX_Q then RcOk else RcErr EINVAL)" "rc \<noteq> RcOk \<Longrightarrow> u' = u \<and> m' = m"
    "rc = RcOk \<Longrightarrow> udma_type u' = up_type p \<and> num_of_queues u' = up_num_of_queues p \<and> length (udma_q u') = DMA_MAX_Q \<and>
       udma_regs u' = up_udma_regs_base p + (if up_type p = UDMA_TX then 0 else 0x10000) \<and>
       (\<forall>k<DMA_MAX_Q. q_status (udma_q u' ! k) = AL_QUEUE_NOT_INITIALIZED)"
  using assms by (auto simp: al_udma_init_def Let_def reg_off not_le split: if_splits)

lemma max_descs_31:
  "\<exists>m'. al_udma_m2s_max_descs_set u (ucast AL_SSM_MAX_SRC_DESCS) m = Some m'"
  "\<exists>m'. al_udma_s2m_max_descs_set u (ucast AL_SSM_MAX_DST_DESCS) m = Some m'"
  by (simp_all add: al_udma_m2s_max_descs_set_def al_udma_s2m_max_descs_set_def Let_def AL_SSM_MAX_SRC_DESCS_def AL_SSM_MAX_DST_DESCS_def
      AL_UDMA_M2S_MAX_ALLOWED_DESCS_PER_PACKET_def AL_UDMA_S2M_MAX_ALLOWED_DESCS_PER_PACKET_def)

lemma ssm_init_result:
  assumes "length (udma_q (tx_udma (m2m_udma s))) = DMA_MAX_Q" "length (udma_q (rx_udma (m2m_udma s))) = DMA_MAX_Q"
    "length (q_types s) = DMA_MAX_Q"
  shows "\<exists>rc hal m'. al_ssm_dma_init s p m = Some (rc, hal, m') \<and>
    (if sp_num_of_queues p \<le> of_nat DMA_MAX_Q
     then rc = RcOk \<and> engines_ok (sp_udma_regs_base p) (unat (sp_num_of_queues p)) hal \<and>
       (\<forall>k<DMA_MAX_Q. q_status (udma_q (tx_udma (m2m_udma hal)) ! k) = AL_QUEUE_NOT_INITIALIZED \<and>
          q_status (udma_q (rx_udma (m2m_udma hal)) ! k) = AL_QUEUE_NOT_INITIALIZED)
     else rc = RcErr EINVAL \<and> m' = m)"
proof -
  let ?p = "\<lambda>t n. \<lparr>up_udma_regs_base = sp_udma_regs_base p, up_type = t, up_num_of_queues = sp_num_of_queues p, up_name = Some n\<rparr>"
  obtain r1 t m1 where t: "al_udma_init (tx_udma (m2m_udma s)) (?p UDMA_TX ''tx dma'') m = (r1, t, m1)" by (metis surj_pair)
  obtain m2 where m2: "al_udma_m2s_max_descs_set t (ucast AL_SSM_MAX_SRC_DESCS) m1 = Some m2" using max_descs_31 by blast
  obtain r2 r m3 where r: "al_udma_init (rx_udma (m2m_udma s)) (?p UDMA_RX ''rx dma'') m2 = (r2, r, m3)" by (metis surj_pair)
  obtain m4 where m4: "al_udma_s2m_max_descs_set r (ucast AL_SSM_MAX_DST_DESCS) m3 = Some m4" using max_descs_31 by blast
  note rt = udma_init_result [OF t assms(1)] and rr = udma_init_result [OF r assms(2)]
  have le: "unat (sp_num_of_queues p) \<le> DMA_MAX_Q" if "sp_num_of_queues p \<le> of_nat DMA_MAX_Q"
    using that by (simp add: word_le_nat_alt DMA_MAX_Q_def)
  show ?thesis
  proof (cases "sp_num_of_queues p \<le> of_nat DMA_MAX_Q")
    case True
    then have ok: "r1 = RcOk" "r2 = RcOk" using rt(1) rr(1) by simp_all
    let ?hal = "s\<lparr>ssm_rev_id := sp_rev_id p, ssm_max_src_descs := AL_SSM_MAX_SRC_DESCS, ssm_max_dst_descs := AL_SSM_MAX_DST_DESCS,
      m2m_udma := (m2m_udma s)\<lparr>m2m_name := sp_name p, m2m_udma_regs_base := sp_udma_regs_base p,
        m2m_num_of_queues := sp_num_of_queues p, tx_udma := t, rx_udma := r\<rparr>\<rparr>"
    have "al_ssm_dma_init s p m = Some (RcOk, ?hal, m4)"
      by (simp add: al_ssm_dma_init_def al_m2m_udma_init_def Let_def t m2 r m4 ok)
    moreover have "engines_ok (sp_udma_regs_base p) (unat (sp_num_of_queues p)) ?hal"
      using rt(3) [OF ok(1)] rr(3) [OF ok(2)] le [OF True] assms(3)
      by (simp add: engines_ok_def AL_SSM_MAX_SRC_DESCS_def AL_SSM_MAX_DST_DESCS_def)
    ultimately show ?thesis using True rt(3) [OF ok(1)] rr(3) [OF ok(2)] by simp
  next
    case False
    then have "r1 = RcErr EINVAL" "m1 = m" using rt by simp_all
    then show ?thesis using False by (simp add: al_ssm_dma_init_def al_m2m_udma_init_def Let_def t)
  qed
qed

lemma ssm_state_set_result:
  assumes "state \<in> {UDMA_NORMAL, UDMA_DISABLE}" "al_ssm_dma_state_set hal state m = (rc, hal', m')"
  shows "rc = RcOk" "engines_ok B n hal' = engines_ok B n hal"
    "udma_q (tx_udma (m2m_udma hal')) = udma_q (tx_udma (m2m_udma hal))"
    "udma_q (rx_udma (m2m_udma hal')) = udma_q (rx_udma (m2m_udma hal))"
    "udma_state (tx_udma (m2m_udma hal')) = state" "udma_state (rx_udma (m2m_udma hal')) = state"
  using assms
  by (auto simp: al_ssm_dma_state_set_def al_m2m_udma_state_set_def al_udma_state_set_def Let_def engines_ok_def split: if_splits)

lemma probe_channels_nth:
  assumes "i + n \<le> length chs"
  shows "length (probe_channels i n chs) = length chs"
    "probe_channels i n chs ! k = (if i \<le> k \<and> k < i + n then (chs ! k)\<lparr>ch_idx := k\<rparr> else chs ! k)"
  using assms by (induction n arbitrary: i chs) (auto simp: nth_list_update)

subsection \<open>Probe\<close>

text \<open>Everything the kernel must grant before the registration.\<close>

definition probe_granted :: "probe_results \<Rightarrow> bool" where
  "probe_granted pr \<longleftrightarrow> pr_kzalloc pr \<and> pr_enable pr = RcOk \<and> pr_regions pr = RcOk \<and> pr_dma_mask pr = RcOk \<and>
     pr_bar0 pr \<noteq> NULL \<and> pr_bar4 pr \<noteq> NULL"

abbreviation probe_queues :: "int \<Rightarrow> u8" where
  "probe_queues max_channels \<equiv> word_of_int (min max_channels (int DMA_MAX_Q))"

lemma probe_refused:
  assumes "\<not> probe_granted pr"
  shows "\<exists>rc aldev. al_dma_pci_probe max_channels pr m = Some (rc, [], aldev, m) \<and> rc \<noteq> RcOk"
  using assms
  by (auto simp: probe_granted_def al_dma_pci_probe_def Let_def probe_err_free_def probe_err_disable_def
      probe_err_regions_def probe_err_unmap_udma_def release_resource_def)

lemma zero_lengths:
  "length (udma_q (tx_udma (m2m_udma zero_ssm_dma))) = DMA_MAX_Q" "length (udma_q (rx_udma (m2m_udma zero_ssm_dma))) = DMA_MAX_Q"
  "length (q_types zero_ssm_dma) = DMA_MAX_Q" "hal_dma zero_device = zero_ssm_dma" "channels zero_device = replicate DMA_MAX_Q zero_chan"
  by (simp_all add: zero_ssm_dma_def zero_udma_def zero_device_def)

definition probed_ok :: "int \<Rightarrow> probe_results \<Rightarrow> al_dma_device \<Rightarrow> bool" where
  "probed_ok max_channels pr aldev \<longleftrightarrow>
     num_channels aldev = min max_channels (int DMA_MAX_Q) \<and>
     engines_ok (pr_bar0 pr) (unat (probe_queues max_channels)) (hal_dma aldev) \<and>
     udma_state (tx_udma (m2m_udma (hal_dma aldev))) = UDMA_NORMAL \<and> udma_state (rx_udma (m2m_udma (hal_dma aldev))) = UDMA_NORMAL \<and>
     (\<forall>k<DMA_MAX_Q. q_status (udma_q (tx_udma (m2m_udma (hal_dma aldev))) ! k) = AL_QUEUE_NOT_INITIALIZED \<and>
        q_status (udma_q (rx_udma (m2m_udma (hal_dma aldev))) ! k) = AL_QUEUE_NOT_INITIALIZED) \<and>
     length (channels aldev) = DMA_MAX_Q \<and>
     (\<forall>k < nat (num_channels aldev). channels aldev ! k = zero_chan\<lparr>ch_idx := k\<rparr>)"

lemma probe_granted_result:
  assumes "probe_granted pr"
  shows "\<exists>rc held aldev m'. al_dma_pci_probe max_channels pr m = Some (rc, held, aldev, m') \<and>
    (if probe_queues max_channels \<le> of_nat DMA_MAX_Q
     then rc = pr_register pr \<and> probed_ok max_channels pr aldev \<and>
       held = (if rc = RcOk then [Dev_memory, Pci_enabled, Pci_regions, Bar0_mapped, Bar4_mapped, Dma_registered, Sysfs_group] else [])
     else rc = RcErr EINVAL \<and> held = [] \<and> m' = m)"
proof -
  let ?n = "min max_channels (int DMA_MAX_Q)"
  let ?p = "\<lparr>sp_rev_id = pr_revision pr, sp_udma_regs_base = pr_bar0 pr, sp_name = Some ''al_dma'', sp_num_of_queues = word_of_int ?n\<rparr>"
  obtain rc hal m1 where i: "al_ssm_dma_init zero_ssm_dma ?p m = Some (rc, hal, m1)"
    "if probe_queues max_channels \<le> of_nat DMA_MAX_Q
     then rc = RcOk \<and> engines_ok (pr_bar0 pr) (unat (probe_queues max_channels)) hal \<and>
       (\<forall>k<DMA_MAX_Q. q_status (udma_q (tx_udma (m2m_udma hal)) ! k) = AL_QUEUE_NOT_INITIALIZED \<and>
          q_status (udma_q (rx_udma (m2m_udma hal)) ! k) = AL_QUEUE_NOT_INITIALIZED)
     else rc = RcErr EINVAL \<and> m1 = m"
    using ssm_init_result [OF zero_lengths(1-3), of ?p m] by (auto split: if_splits)
  obtain rs hal2 m2 where s: "al_ssm_dma_state_set hal UDMA_NORMAL m1 = (rs, hal2, m2)" by (metis surj_pair)
  note sr = ssm_state_set_result [OF _ s, simplified]
  have ch: "length (probe_channels 0 (nat ?n) (replicate DMA_MAX_Q zero_chan)) = DMA_MAX_Q"
    "\<And>k. k < nat ?n \<Longrightarrow> probe_channels 0 (nat ?n) (replicate DMA_MAX_Q zero_chan) ! k = zero_chan\<lparr>ch_idx := k\<rparr>"
    using probe_channels_nth [of 0 "nat ?n" "replicate DMA_MAX_Q zero_chan"] by simp_all
  note e = probe_err_free_def probe_err_disable_def probe_err_regions_def probe_err_unmap_udma_def probe_err_unmap_app_def release_resource_def
  show ?thesis
  proof (cases "probe_queues max_channels \<le> of_nat DMA_MAX_Q")
    case True
    let ?dev = "zero_device\<lparr>dev_udma_regs := pr_bar0 pr, dev_app_regs := pr_bar4 pr, dev_rev_id := pr_revision pr, num_channels := ?n,
      hal_dma := hal2, channels := probe_channels 0 (nat ?n) (replicate DMA_MAX_Q zero_chan)\<rparr>"
    have ok: "rc = RcOk" "probed_ok max_channels pr ?dev" using True i(2) sr ch by (simp_all add: probed_ok_def)
    obtain held m3 where "al_dma_pci_probe max_channels pr m = Some (pr_register pr, held, ?dev, m3)"
      "held = (if pr_register pr = RcOk then [Dev_memory, Pci_enabled, Pci_regions, Bar0_mapped, Bar4_mapped, Dma_registered, Sysfs_group] else [])"
      using assms i(1) s sr(1) ok(1)
      by (cases "pr_register pr = RcOk") (simp_all add: probe_granted_def al_dma_pci_probe_def Let_def zero_lengths e)
    then show ?thesis using True ok(2) by auto
  next
    case False
    then show ?thesis
      using assms i by (simp add: probe_granted_def al_dma_pci_probe_def Let_def zero_lengths e)
  qed
qed

subsection \<open>The driver from probe to remove\<close>

text \<open>
  A step of the whole driver on the set of active channels and the state: an operation of an active channel, an allocation of the
  resources of an inactive one, a release.  The core of the dmaengine framework allocates a channel only when it has no user.
\<close>

inductive life_step :: "u32 \<Rightarrow> nat \<Rightarrow> nat set \<times> drv \<Rightarrow> nat set \<times> drv \<Rightarrow> bool" for mc :: u32 and n :: nat where
  life_op: "drv_step mc A s s' \<Longrightarrow> life_step mc n (A, s) (A, s')"
| life_new: "c < n \<Longrightarrow> c \<notin> A \<Longrightarrow> al_dma_alloc_chan_resources k got c s = Some (r, s') \<Longrightarrow>
    life_step mc n (A, s) (if isl r then A else insert c A, s')"
| life_end: "c \<in> A \<Longrightarrow> life_step mc n (A, s) (A - {c}, al_dma_free_chan_resources c s)"

inductive_cases life_stepE: "life_step mc n (A, s) (A', s')"

lemma life_step_inv:
  assumes "life_step mc n (A, s) (A', s')" "life_inv B n M d A s"
  shows "life_inv B n M d A' s'"
  using assms(1)
proof (rule life_stepE)
  show "A' = A \<Longrightarrow> drv_step mc A s s' \<Longrightarrow> ?thesis" using life_run [OF assms(2)] by simp
  show "A' = (if isl r then A else insert c A) \<Longrightarrow> c < n \<Longrightarrow> c \<notin> A \<Longrightarrow>
    al_dma_alloc_chan_resources k got c s = Some (r, s') \<Longrightarrow> ?thesis" for c k got r
    using life_alloc [OF assms(2)] by metis
  show "A' = A - {c} \<Longrightarrow> s' = al_dma_free_chan_resources c s \<Longrightarrow> c \<in> A \<Longrightarrow> ?thesis" for c
    using life_free [OF assms(2)] by metis
qed

lemma life_steps_inv:
  assumes "(life_step mc n)\<^sup>*\<^sup>* x y" "life_inv B n M d (fst x) (snd x)"
  shows "life_inv B n M d (fst y) (snd y)"
  using assms
proof (induction rule: rtranclp_induct)
  case (step y z)
  then show ?case using life_step_inv [of mc n "fst y" "snd y" "fst z" "snd z"] by simp
qed simp

lemma probed_life_inv:
  assumes "probed_ok max_channels pr aldev" "0 \<le> max_channels"
  shows "life_inv (pr_bar0 pr) (nat (num_channels aldev)) (mset cs) (\<lambda>k. rung m (door_of (pr_bar0 pr) k)) {}
    \<lparr>dev = aldev, dmem = mem, io = m, coherent = cs\<rparr>"
proof -
  have "unat (probe_queues max_channels) = nat (num_channels aldev)"
  proof -
    define j where "j = nat (min max_channels (int DMA_MAX_Q))"
    have j: "j \<le> 4" "min max_channels (int DMA_MAX_Q) = int j" using assms(2) by (simp_all add: j_def DMA_MAX_Q_def nat_le_iff)
    have "unat (of_nat j :: u8) = j" using j(1) by (simp add: unsigned_of_nat take_bit_nat_eq_self)
    then show ?thesis using assms(1) unfolding probed_ok_def j(2) by simp
  qed
  then have "engines_ok (pr_bar0 pr) (nat (num_channels aldev)) (hal_dma aldev)"
    using assms(1) unfolding probed_ok_def by metis
  then show ?thesis using assms(1) by (simp add: life_inv_def dev_ok_def probed_ok_def DMA_MAX_Q_def)
qed

text \<open>A released channel cannot be allocated again: the release does not reset the queue, which stays enabled.\<close>

lemma enabled_realloc:
  assumes "c < length (channels (dev s))" "ch_idx (drv_chan s c) = c" "c < 4" "q_status (txq s c) = AL_QUEUE_ENABLED"
    "c < unat (num_of_queues (tx_udma (m2m_udma (drv_hal s))))"
  shows "\<exists>s'. al_dma_alloc_chan_resources k got c s = Some (Inl ENOMEM, s') \<and> mset (coherent s') = mset (coherent s)"
proof (cases "all_allocated got")
  case False
  then show ?thesis using alloc_refused [OF assms(1) False, of k] by auto
next
  case True
  have u: "unat (of_nat c :: u32) = c" using assms(3) by (simp add: unsigned_of_nat take_bit_nat_eq_self)
  have "q_init_pair (2 ^ k) got c s = Some (RcErr EIO, drv_hal s, io s)"
    using assms u by (simp add: al_ssm_dma_q_init_def al_m2m_udma_q_init_def q_init_cases Let_def)
  then show ?thesis
    using alloc_granted [OF assms(1) True, of k] mset_err_q_init [OF assms(1), of "2 ^ k" got "drv_hal s" "io s"]
    by (simp add: err_q_init_eq)
qed

text \<open>The allocation of a channel whose queues were never enabled succeeds when memory is granted and the rings are aligned.\<close>

definition rings_aligned :: "chan_allocs \<Rightarrow> bool" where
  "rings_aligned got \<longleftrightarrow> (\<forall>r \<in> set (chan_rings got). snd r AND 0xF = 0)"

lemma order_params:
  assumes "2 \<le> k" "k \<le> 16" "rings_aligned got"
  shows "q_params_ok (tx_q_params (2 ^ k) (chan_with (2 ^ k) got ch)\<lparr>qp_adapter_rev_id := v\<rparr>)"
    "q_params_ok (rx_q_params (2 ^ k) (chan_with (2 ^ k) got ch)\<lparr>qp_adapter_rev_id := v\<rparr>)"
    "q_bases_aligned (tx_q_params (2 ^ k) (chan_with (2 ^ k) got ch)\<lparr>qp_adapter_rev_id := v\<rparr>)"
    "q_bases_aligned (rx_q_params (2 ^ k) (chan_with (2 ^ k) got ch)\<lparr>qp_adapter_rev_id := v\<rparr>)"
proof -
  have "4 \<le> (2 ^ k :: u32) \<and> (2 ^ k :: u32) \<le> 65536 \<and> (2 ^ k :: u32) AND (2 ^ k - 1) = 0"
  proof -
    have "(4 :: nat) \<le> 2 ^ k" "2 ^ k \<le> (65536 :: nat)"
      using power_increasing [OF assms(1), of "2 :: nat"] power_increasing [OF assms(2), of "2 :: nat"] by simp_all
    moreover have "(2 ^ k :: u32) AND mask k = 0" by (rule bit_word_eqI) (auto simp: bit_simps)
    ultimately show ?thesis using assms by (simp add: word_le_nat_alt unat_pow2 mask_eq_exp_minus_1)
  qed
  then show "q_params_ok (tx_q_params (2 ^ k) (chan_with (2 ^ k) got ch)\<lparr>qp_adapter_rev_id := v\<rparr>)"
    "q_params_ok (rx_q_params (2 ^ k) (chan_with (2 ^ k) got ch)\<lparr>qp_adapter_rev_id := v\<rparr>)"
    by (simp_all add: q_params_ok_def tx_q_params_def rx_q_params_def)
  show "q_bases_aligned (tx_q_params (2 ^ k) (chan_with (2 ^ k) got ch)\<lparr>qp_adapter_rev_id := v\<rparr>)"
    "q_bases_aligned (rx_q_params (2 ^ k) (chan_with (2 ^ k) got ch)\<lparr>qp_adapter_rev_id := v\<rparr>)"
    using assms(3) by (simp_all add: q_bases_aligned_def tx_q_params_def rx_q_params_def chan_with_def rings_aligned_def chan_rings_def)
qed

lemma q_init_succeeds:
  assumes "unat i < unat (num_of_queues u)" "q_status (udma_q u ! unat i) \<noteq> AL_QUEUE_ENABLED" "q_params_ok qp" "q_bases_aligned qp"
  shows "\<exists>u' m'. al_udma_q_init u i qp m = Some (RcOk, u', m')"
proof -
  let ?q = "q_init_fields u i qp (udma_q u ! unat i)"
  have "\<exists>q m'. al_udma_q_set_pointers u ?q (al_udma_q_config u ?q m) = Some (q, m')"
    using assms(4) by (simp add: set_pointers_Some q_bases_aligned_def q_init_fields_def)
  then show ?thesis using assms(1-3) by (auto simp: q_init_cases Let_def)
qed

lemma alloc_succeeds:
  assumes "dev_ok B n s" "c < n" "q_status (txq s c) \<noteq> AL_QUEUE_ENABLED" "q_status (rxq s c) \<noteq> AL_QUEUE_ENABLED"
    "all_allocated got" "rings_aligned got" "2 \<le> k" "k \<le> 16"
  shows "\<exists>s'. al_dma_alloc_chan_resources k got c s = Some (Inr (2 ^ k), s')"
proof -
  note c = dev_okD [OF assms(1,2)] and p = order_params [OF assms(7,8,6), where ch = "drv_chan s c" and v = "ssm_rev_id (drv_hal s)"]
  note e = assms(1) [unfolded dev_ok_def engines_ok_def Let_def]
  let ?t = "tx_udma (m2m_udma (drv_hal s))" and ?r = "rx_udma (m2m_udma (drv_hal s))"
  have lt: "unat (chan_q s c) < unat (num_of_queues ?t)" "unat (chan_q s c) < unat (num_of_queues ?r)"
    unfolding c using e assms(2) by simp_all
  have st: "q_status (udma_q ?t ! unat (chan_q s c)) \<noteq> AL_QUEUE_ENABLED" "q_status (udma_q ?r ! unat (chan_q s c)) \<noteq> AL_QUEUE_ENABLED"
    unfolding c using assms(3,4) by simp_all
  obtain t m1 where t: "al_udma_q_init ?t (chan_q s c) (tx_q_params (2 ^ k) (chan_with (2 ^ k) got (drv_chan s c))
      \<lparr>qp_adapter_rev_id := ssm_rev_id (drv_hal s)\<rparr>) (io s) = Some (RcOk, t, m1)"
    using q_init_succeeds [OF lt(1) st(1) p(1,3)] by blast
  obtain r m2 where r: "al_udma_q_init ?r (chan_q s c) (rx_q_params (2 ^ k) (chan_with (2 ^ k) got (drv_chan s c))
      \<lparr>qp_adapter_rev_id := ssm_rev_id (drv_hal s)\<rparr>) m1 = Some (RcOk, r, m2)"
    using q_init_succeeds [OF lt(2) st(2) p(2,4)] by blast
  have "\<exists>hal. q_init_pair (2 ^ k) got c s = Some (RcOk, hal, m2)"
    by (simp add: al_ssm_dma_q_init_def al_m2m_udma_q_init_def Let_def t r)
  then show ?thesis using alloc_granted [OF c(1) assms(5), of k] by auto
qed

lemma probe_ok_probed:
  assumes "al_dma_pci_probe max_channels pr m = Some (RcOk, held, aldev, m')"
  shows "probed_ok max_channels pr aldev"
proof -
  have "probe_granted pr" using assms probe_refused [of pr max_channels m] by fastforce
  then show ?thesis using assms probe_granted_result [of pr max_channels m] by (auto split: if_splits)
qed

lemma reach_life_inv:
  assumes "al_dma_pci_probe max_channels pr m = Some (RcOk, held, aldev, m')" "0 \<le> max_channels"
    and "(life_step mc (nat (num_channels aldev)))\<^sup>*\<^sup>* ({}, \<lparr>dev = aldev, dmem = mem, io = m', coherent = []\<rparr>) (A, s)"
  shows "life_inv (pr_bar0 pr) (nat (num_channels aldev)) {#} (\<lambda>k. rung m' (door_of (pr_bar0 pr) k)) A s"
  using life_steps_inv [OF assms(3)] probed_life_inv [OF probe_ok_probed [OF assms(1)] assms(2), of "[]" m' mem] by simp

lemma probed_dev_ok:
  assumes "probed_ok max_channels pr aldev" "0 \<le> max_channels" "dev s = aldev"
  shows "dev_ok (pr_bar0 pr) (nat (num_channels aldev)) s"
proof -
  have "life_inv (pr_bar0 pr) (nat (num_channels aldev)) (mset (coherent s)) (\<lambda>k. rung (io s) (door_of (pr_bar0 pr) k)) {} s"
    using probed_life_inv [OF assms(1,2), of "coherent s" "io s" "dmem s"] assms(3) by (cases s) simp
  then show ?thesis by (simp add: life_inv_def)
qed

subsection \<open>Properties\<close>

text \<open>
  C4: the driver from probe on.  Start from a successful probe and let the framework allocate channels, run operations on the active ones
  in any interleaving, and release them.  At every moment each active channel satisfies its invariant, with the
  doorbells counted from the end of the probe; and the coherent memory held is exactly the four rings of every active channel,
  so nothing leaks on any error path and everything is given back when all channels are released.
\<close>

theorem driver_life_invariant:
  assumes "al_dma_pci_probe max_channels pr m = Some (RcOk, held, aldev, m')" "0 \<le> max_channels"
    and "(life_step mc (nat (num_channels aldev)))\<^sup>*\<^sup>* ({}, \<lparr>dev = aldev, dmem = mem, io = m', coherent = []\<rparr>) (A, s)"
  shows "drv_inv (\<lambda>k. rung m' (door_of (pr_bar0 pr) k)) A s \<and> A \<subseteq> {..<nat (num_channels aldev)} \<and>
    mset (coherent s) = (\<Sum>k \<in> A. mset (chan_mem (drv_chan s k)))"
  using reach_life_inv [OF assms] life_drv_inv by (auto simp: life_inv_def)

text \<open>A machine that grants everything, for concrete instances.\<close>

definition demo_pr :: probe_results where
  "demo_pr = \<lparr>pr_kzalloc = True, pr_enable = RcOk, pr_regions = RcOk, pr_dma_mask = RcOk, pr_bar0 = 0x100000, pr_bar4 = 0x200000,
     pr_revision = 2, pr_register = RcOk\<rparr>"

definition demo_got :: chan_allocs where
  "demo_got = \<lparr>got_sw_ring = True, got_tx_ring = (0x1000, 0x81000), got_tx_cring = (0x2000, 0x82000),
     got_rx_ring = (0x3000, 0x83000), got_rx_cring = (0x4000, 0x84000)\<rparr>"

lemma demo_granted: "probe_granted demo_pr" "all_allocated demo_got" "rings_aligned demo_got"
  by (simp_all add: probe_granted_def demo_pr_def all_allocated_def rings_aligned_def chan_rings_def demo_got_def)

lemma demo_probe:
  "\<exists>aldev m'. al_dma_pci_probe 4 demo_pr \<lparr>regs = \<lambda>_. 0, wlog = []\<rparr> = Some (RcOk,
     [Dev_memory, Pci_enabled, Pci_regions, Bar0_mapped, Bar4_mapped, Dma_registered, Sysfs_group], aldev, m') \<and>
     probed_ok 4 demo_pr aldev \<and> nat (num_channels aldev) = 4"
proof -
  have "(word_of_int (min 4 (int DMA_MAX_Q)) :: u8) \<le> of_nat DMA_MAX_Q" by (simp add: DMA_MAX_Q_def)
  moreover have "pr_register demo_pr = RcOk" by (simp add: demo_pr_def)
  ultimately show ?thesis
    using probe_granted_result [OF demo_granted(1), of 4 "\<lparr>regs = \<lambda>_. 0, wlog = []\<rparr>"] by (auto simp: probed_ok_def DMA_MAX_Q_def)
qed

lemma probed_alloc:
  assumes "probed_ok max_channels pr aldev" "0 \<le> max_channels" "c < nat (num_channels aldev)"
    "all_allocated got" "rings_aligned got" "2 \<le> k" "k \<le> 16" "dev s = aldev"
  shows "\<exists>s'. al_dma_alloc_chan_resources k got c s = Some (Inr (2 ^ k), s')"
proof -
  have dev: "dev_ok (pr_bar0 pr) (nat (num_channels aldev)) s" using probed_dev_ok [OF assms(1,2,8)] .
  then have "q_status (txq s c) \<noteq> AL_QUEUE_ENABLED" "q_status (rxq s c) \<noteq> AL_QUEUE_ENABLED"
    using assms(1,8) dev_okD(4) [OF dev assms(3)] by (simp_all add: probed_ok_def DMA_MAX_Q_def)
  from alloc_succeeds [OF dev assms(3) this assms(4-7)] show ?thesis .
qed

theorem driver_life_invariant_witness:
  "\<exists>held aldev m' s'. al_dma_pci_probe 4 demo_pr \<lparr>regs = \<lambda>_. 0, wlog = []\<rparr> = Some (RcOk, held, aldev, m') \<and>
     al_dma_alloc_chan_resources 10 demo_got 2 \<lparr>dev = aldev, dmem = demo_dmem, io = m', coherent = []\<rparr> = Some (Inr 1024, s') \<and>
     drv_inv (\<lambda>k. rung m' (door_of (pr_bar0 demo_pr) k)) {2} s' \<and> mset (coherent s') = mset (chan_mem (drv_chan s' 2))"
proof -
  obtain held aldev m' where p: "al_dma_pci_probe 4 demo_pr \<lparr>regs = \<lambda>_. 0, wlog = []\<rparr> = Some (RcOk, held, aldev, m')"
    "probed_ok 4 demo_pr aldev" "nat (num_channels aldev) = 4"
    using demo_probe by blast
  let ?s = "\<lparr>dev = aldev, dmem = demo_dmem, io = m', coherent = []\<rparr>"
  obtain s' where a: "al_dma_alloc_chan_resources 10 demo_got 2 ?s = Some (Inr (2 ^ 10), s')"
    using probed_alloc [OF p(2), of 2 demo_got 10 ?s] demo_granted p(3) by auto
  have "life_step 1 4 ({}, ?s) (if isl (Inr (2 ^ 10) :: errno + nat) then {} else insert 2 {}, s')"
    by (rule life_new [OF _ _ a]) simp_all
  then have "(life_step 1 (nat (num_channels aldev)))\<^sup>*\<^sup>* ({}, ?s) ({2}, s')" unfolding p(3) by simp
  from driver_life_invariant [OF p(1) _ this] show ?thesis using p(1) a by auto
qed

text \<open>
  C20: outcomes of the probe.  It always returns.  It succeeds exactly when the kernel grants every request and the
  number of channels, cut to a byte, is at most four; then both engines run, no queue is enabled, and the remove function
  gives back all seven resources and stops the engines.  When it fails nothing stays held; but when the registration is what
  failed, both engines are left running.
\<close>

theorem probe_outcome:
  "\<exists>rc held aldev m'. al_dma_pci_probe max_channels pr m = Some (rc, held, aldev, m') \<and>
    (rc = RcOk \<longleftrightarrow> probe_granted pr \<and> probe_queues max_channels \<le> of_nat DMA_MAX_Q \<and> pr_register pr = RcOk) \<and>
    (if rc = RcOk
     then probed_ok max_channels pr aldev \<and> length held = 7 \<and>
       (let (held', aldev', _) = al_dma_pci_remove aldev held m' in held' = [] \<and>
          udma_state (tx_udma (m2m_udma (hal_dma aldev'))) = UDMA_DISABLE \<and> udma_state (rx_udma (m2m_udma (hal_dma aldev'))) = UDMA_DISABLE)
     else held = [] \<and>
       (if probe_granted pr \<and> probe_queues max_channels \<le> of_nat DMA_MAX_Q then probed_ok max_channels pr aldev else m' = m))"
proof (cases "probe_granted pr")
  case False
  then show ?thesis using probe_refused [OF False, of max_channels m] by auto
next
  case True
  obtain rc held aldev m' where p: "al_dma_pci_probe max_channels pr m = Some (rc, held, aldev, m')"
    "if probe_queues max_channels \<le> of_nat DMA_MAX_Q
     then rc = pr_register pr \<and> probed_ok max_channels pr aldev \<and>
       held = (if rc = RcOk then [Dev_memory, Pci_enabled, Pci_regions, Bar0_mapped, Bar4_mapped, Dma_registered, Sysfs_group] else [])
     else rc = RcErr EINVAL \<and> held = [] \<and> m' = m"
    using probe_granted_result [OF True, of max_channels m] by blast
  obtain rs hal mm where s: "al_ssm_dma_state_set (hal_dma aldev) UDMA_DISABLE m' = (rs, hal, mm)" by (metis surj_pair)
  note sr = ssm_state_set_result [OF _ s, simplified]
  show ?thesis
    using p True sr by (auto simp: al_dma_pci_remove_def release_resource_def s split: if_splits)
qed

text \<open>
  The first allocation.  On a freshly probed device the allocation of any of its channels succeeds for every ring order from 2 to 16, when the
  memory is granted at aligned addresses; the channel then holds its four rings and satisfies its invariant.
\<close>

theorem first_allocation:
  assumes "al_dma_pci_probe max_channels pr m = Some (RcOk, held, aldev, m')" "0 \<le> max_channels" "c < nat (num_channels aldev)"
    and "all_allocated got" "rings_aligned got" "2 \<le> k" "k \<le> 16" "dev s = aldev" "io s = m'"
  shows "\<exists>s'. al_dma_alloc_chan_resources k got c s = Some (Inr (2 ^ k), s') \<and> coherent s' = coherent s @ chan_rings got \<and>
    chan_inv (rung m' (door_of (pr_bar0 pr) c)) s' c \<and> sw_pend (drv_chan s' c) = []"
proof -
  note p = probe_ok_probed [OF assms(1)]
  note dev = probed_dev_ok [OF p assms(2,8)]
  obtain s' where a: "al_dma_alloc_chan_resources k got c s = Some (Inr (2 ^ k), s')"
    using probed_alloc [OF p assms(2-8)] by blast
  note res = alloc_result [OF dev assms(3) a, simplified]
  have "chan_inv (rung (io s') (door_of (pr_bar0 pr) c)) s' c"
    using pair_chan_inv [OF _ _ assms(3)] res by blast
  moreover have "rung (io s') (door_of (pr_bar0 pr) c) = rung m' (door_of (pr_bar0 pr) c)"
    using alloc_rung res assms(9) by metis
  ultimately show ?thesis using a res by (simp add: sw_counts_def)
qed

theorem first_allocation_witness:
  "\<exists>aldev s s'. probed_ok 4 demo_pr aldev \<and> dev s = aldev \<and> al_dma_alloc_chan_resources 16 demo_got 3 s = Some (Inr 65536, s') \<and>
     coherent s' = coherent s @ chan_rings demo_got \<and> sw_pend (drv_chan s' 3) = []"
proof -
  obtain held aldev m' where p: "al_dma_pci_probe 4 demo_pr \<lparr>regs = \<lambda>_. 0, wlog = []\<rparr> = Some (RcOk, held, aldev, m')"
    "probed_ok 4 demo_pr aldev" "nat (num_channels aldev) = 4"
    using demo_probe by blast
  let ?s = "\<lparr>dev = aldev, dmem = demo_dmem, io = m', coherent = []\<rparr>"
  have "3 < nat (num_channels aldev)" unfolding p(3) by simp
  from first_allocation [OF p(1) _ this demo_granted(2,3), of 16 ?s]
  obtain s' where "al_dma_alloc_chan_resources 16 demo_got 3 ?s = Some (Inr 65536, s')" "coherent s' = chan_rings demo_got"
    "sw_pend (drv_chan s' 3) = []"
    by auto
  with p(2) show ?thesis by (intro exI [of _ aldev] exI [of _ ?s] exI [of _ s']) simp
qed

text \<open>
  C21: a released channel stays dead.  Whatever channel is released in a run of the driver, every later attempt to
  allocate it fails with \<open>-ENOMEM\<close>, even with all memory granted: the release does not reset the hardware queue, which is
  still marked enabled.  The failed attempt leaks nothing.
\<close>

theorem released_channel_not_reusable:
  assumes "al_dma_pci_probe max_channels pr m = Some (RcOk, held, aldev, m')" "0 \<le> max_channels"
    and "(life_step mc (nat (num_channels aldev)))\<^sup>*\<^sup>* ({}, \<lparr>dev = aldev, dmem = mem, io = m', coherent = []\<rparr>) (A, s)" "c \<in> A"
  defines "s1 \<equiv> al_dma_free_chan_resources c s"
  shows "\<exists>s2. al_dma_alloc_chan_resources k got c s1 = Some (Inl ENOMEM, s2) \<and> mset (coherent s2) = mset (coherent s1)"
proof -
  note life = reach_life_inv [OF assms(1-3)]
  let ?n = "nat (num_channels aldev)"
  have act: "active_ok (pr_bar0 pr) (rung m' (door_of (pr_bar0 pr) c)) s c" "c < ?n"
    using life assms(4) by (auto simp: life_inv_def)
  have ch: "sw_ring (drv_chan s c) \<noteq> None" "\<forall>r \<in> set (chan_mem (drv_chan s c)). fst r \<noteq> NULL"
    using act(1) by (auto simp: active_ok_def chan_inv_def chan_ok_def sw_ring_ok_def)
  have dev: "dev_ok (pr_bar0 pr) ?n s1" using life_free [OF life assms(4)] by (simp add: life_inv_def s1_def)
  have hal: "drv_hal s1 = drv_hal s" unfolding s1_def free_eq [OF ch] by simp
  have "q_status (txq s1 c) = AL_QUEUE_ENABLED" using act(1) by (simp add: hal active_ok_def)
  moreover have "c < unat (num_of_queues (tx_udma (m2m_udma (drv_hal s1))))"
    using dev act(2) by (simp add: dev_ok_def engines_ok_def Let_def)
  ultimately show ?thesis using enabled_realloc dev_okD [OF dev act(2)] by simp
qed

theorem released_channel_not_reusable_witness:
  "\<exists>s s1 s2. al_dma_alloc_chan_resources 10 demo_got 1 s = Some (Inr 1024, s1) \<and>
     al_dma_alloc_chan_resources 10 demo_got 1 (al_dma_free_chan_resources 1 s1) = Some (Inl ENOMEM, s2)"
proof -
  obtain held aldev m' where p: "al_dma_pci_probe 4 demo_pr \<lparr>regs = \<lambda>_. 0, wlog = []\<rparr> = Some (RcOk, held, aldev, m')"
    "probed_ok 4 demo_pr aldev" "nat (num_channels aldev) = 4"
    using demo_probe by blast
  let ?s = "\<lparr>dev = aldev, dmem = demo_dmem, io = m', coherent = []\<rparr>"
  obtain s' where a: "al_dma_alloc_chan_resources 10 demo_got 1 ?s = Some (Inr (2 ^ 10), s')"
    using probed_alloc [OF p(2), of 1 demo_got 10 ?s] demo_granted p(3) by auto
  have "life_step 1 4 ({}, ?s) (if isl (Inr (2 ^ 10) :: errno + nat) then {} else insert 1 {}, s')"
    by (rule life_new [OF _ _ a]) simp_all
  then have "(life_step 1 (nat (num_channels aldev)))\<^sup>*\<^sup>* ({}, ?s) ({1}, s')" unfolding p(3) by simp
  from released_channel_not_reusable [OF p(1) _ this, of 1 10 demo_got] show ?thesis using p(1) a by auto
qed

end
