(* ===== verification/Sgpo.thy ===== *)
theory Sgpo
  imports Reg_Utils
begin

text \<open>
  The serial GPIO output driver (\<open>modules/al_sgpo/al_sgpo.c\<close>): pins in groups of eight, one configuration vector
  register per pin, two mode bits per pin.  \<open>readl\<close> and \<open>writel\<close> are the accesses of \<open>Reg_Utils\<close>; spin locks and log
  messages have no state.  A bank of output pins is specified by the locale \<open>pin_bank\<close>, which the driver implements.
\<close>

subsection \<open>Registers\<close>

definition AL_SGPO_PINS_PER_GROUP :: u32 where "AL_SGPO_PINS_PER_GROUP = 8"
definition AL_SGPO_NUM_GROUPS_V2 :: u32 where "AL_SGPO_NUM_GROUPS_V2 = 4"
definition AL_SGPO_MAX_GROUPS :: u32 where "AL_SGPO_MAX_GROUPS = 8"

definition AL_SGPO_COMMON_CONTROL :: nat where "AL_SGPO_COMMON_CONTROL = 0x0000"
definition AL_SGPO_COMMON_OUT_EN_SGPO :: nat where "AL_SGPO_COMMON_OUT_EN_SGPO = 0x0008"
definition AL_SGPO_COMMON_OUT_EN_CPU_VDD :: nat where "AL_SGPO_COMMON_OUT_EN_CPU_VDD = 0x000c"

definition CTRL_SGI_ENABLE :: u32 where "CTRL_SGI_ENABLE = AL_BIT 3"
definition CTRL_CPU_VDD_EN :: u32 where "CTRL_CPU_VDD_EN = AL_BIT 7"
definition CTRL_CNTR_SCALE_MASK :: u32 where "CTRL_CNTR_SCALE_MASK = 0x00f00000"
definition CTRL_CNTR_SCALE_SHIFT :: nat where "CTRL_CNTR_SCALE_SHIFT = 20"
definition CTRL_CNTR_SCALE_NORMAL :: u32 where "CTRL_CNTR_SCALE_NORMAL = push_bit CTRL_CNTR_SCALE_SHIFT 0xd"

definition OUT_EN_SHCP :: u32 where "OUT_EN_SHCP = AL_BIT 0"
definition OUT_EN_STCP :: u32 where "OUT_EN_STCP = AL_BIT 1"
definition OUT_EN_DS_MASK :: u32 where "OUT_EN_DS_MASK = 0x0000003c"

definition AL_SGPO_GROUP_SIZE :: u32 where "AL_SGPO_GROUP_SIZE = 0x1000"
definition AL_SGPO_GROUP_BASE :: nat where "AL_SGPO_GROUP_BASE = 0x1000"
definition GRP_MODE :: u32 where "GRP_MODE = 0x0004"
definition GRP_VEC_BASE :: u32 where "GRP_VEC_BASE = 0x0400"

definition GRP_VEC :: "u32 \<Rightarrow> u32" where
  "GRP_VEC idx = GRP_VEC_BASE + idx * 4"

definition PIN_MODE_USER :: u32 where "PIN_MODE_USER = 0x3"

lemmas sgpo_consts = AL_SGPO_PINS_PER_GROUP_def AL_SGPO_NUM_GROUPS_V2_def AL_SGPO_MAX_GROUPS_def AL_SGPO_GROUP_SIZE_def
  AL_SGPO_GROUP_BASE_def GRP_MODE_def GRP_VEC_BASE_def PIN_MODE_USER_def AL_SGPO_COMMON_CONTROL_def
  AL_SGPO_COMMON_OUT_EN_SGPO_def AL_SGPO_COMMON_OUT_EN_CPU_VDD_def

subsection \<open>Pins\<close>

record al_sgpo =
  sgpo_regs :: ptr
  num_groups :: u32

definition al_sgpo_group_reg :: "al_sgpo \<Rightarrow> u32 \<Rightarrow> u32 \<Rightarrow> ptr" where
  "al_sgpo_group_reg sgpo grp offset =
     sgpo_regs sgpo + AL_SGPO_GROUP_BASE + unat (grp * AL_SGPO_GROUP_SIZE) + unat offset"

definition al_sgpo_rmw :: "ptr \<Rightarrow> u32 \<Rightarrow> u32 \<Rightarrow> mmio \<Rightarrow> mmio" where
  "al_sgpo_rmw reg msk val m =
     (let tmp = al_reg_read32 m reg in al_reg_write32 m reg ((tmp AND NOT msk) OR (val AND msk)))"

datatype gpio_direction = GPIO_LINE_DIRECTION_OUT | GPIO_LINE_DIRECTION_IN

definition al_sgpo_get_direction :: "u32 \<Rightarrow> gpio_direction" where
  "al_sgpo_get_direction offset = GPIO_LINE_DIRECTION_OUT"

definition al_sgpo_direction_output :: "al_sgpo \<Rightarrow> u32 \<Rightarrow> int \<Rightarrow> mmio \<Rightarrow> rc \<times> mmio" where
  "al_sgpo_direction_output sgpo offset value m =
     (let grp = offset div AL_SGPO_PINS_PER_GROUP; b = unat (offset mod AL_SGPO_PINS_PER_GROUP) in
      if num_groups sgpo \<le> grp then (RcErr EINVAL, m)
      else
        let m = al_sgpo_rmw (al_sgpo_group_reg sgpo grp GRP_MODE) (push_bit (b * 2) 0x3) (push_bit (b * 2) PIN_MODE_USER) m;
            m = al_reg_write32 m (al_sgpo_group_reg sgpo grp (GRP_VEC (push_bit b 1))) (if value \<noteq> 0 then push_bit b 1 else 0)
        in (RcOk, m))"

definition al_sgpo_set :: "al_sgpo \<Rightarrow> u32 \<Rightarrow> int \<Rightarrow> mmio \<Rightarrow> mmio" where
  "al_sgpo_set sgpo offset value m =
     (let grp = offset div AL_SGPO_PINS_PER_GROUP; b = unat (offset mod AL_SGPO_PINS_PER_GROUP) in
      if num_groups sgpo \<le> grp then m
      else al_reg_write32 m (al_sgpo_group_reg sgpo grp (GRP_VEC (push_bit b 1))) (if value \<noteq> 0 then push_bit b 1 else 0))"

definition al_sgpo_get :: "al_sgpo \<Rightarrow> u32 \<Rightarrow> mmio \<Rightarrow> errno + u32" where
  "al_sgpo_get sgpo offset m =
     (let grp = offset div AL_SGPO_PINS_PER_GROUP; b = unat (offset mod AL_SGPO_PINS_PER_GROUP) in
      if num_groups sgpo \<le> grp then Inl EINVAL
      else let val = al_reg_read32 m (al_sgpo_group_reg sgpo grp (GRP_VEC (push_bit b 1)))
           in Inr (drop_bit b val AND 1))"

definition al_sgpo_direction_input :: "u32 \<Rightarrow> rc" where
  "al_sgpo_direction_input offset = RcErr ENOTSUPP"

subsection \<open>Initialisation and probe\<close>

definition al_sgpo_hw_init :: "al_sgpo \<Rightarrow> mmio \<Rightarrow> mmio" where
  "al_sgpo_hw_init sgpo m =
     (let ctrl = sgpo_regs sgpo + AL_SGPO_COMMON_CONTROL;
          out_en = sgpo_regs sgpo + AL_SGPO_COMMON_OUT_EN_SGPO;
          out_en_vdd = sgpo_regs sgpo + AL_SGPO_COMMON_OUT_EN_CPU_VDD;
          m = al_sgpo_rmw ctrl CTRL_CNTR_SCALE_MASK CTRL_CNTR_SCALE_NORMAL m;
          m = al_sgpo_rmw out_en (OUT_EN_SHCP OR OUT_EN_STCP OR OUT_EN_DS_MASK) (OUT_EN_SHCP OR OUT_EN_STCP OR OUT_EN_DS_MASK) m;
          m = al_sgpo_rmw out_en_vdd 0x7 0x7 m;
          m = al_sgpo_rmw ctrl CTRL_CPU_VDD_EN CTRL_CPU_VDD_EN m
      in al_sgpo_rmw ctrl CTRL_SGI_ENABLE CTRL_SGI_ENABLE m)"

text \<open>
  \<open>DIV_ROUND_UP\<close> of the kernel on unsigned 32-bit operands.  What the kernel answers: the allocation, the mapped registers or an error, the
  \<open>ngpios\<close> property if there is one, and the registration of the chip.
\<close>

definition DIV_ROUND_UP :: "u32 \<Rightarrow> u32 \<Rightarrow> u32" where
  "DIV_ROUND_UP n d = (n + d - 1) div d"

record sgpo_answers =
  sa_kzalloc :: bool
  sa_regs :: "errno + ptr"
  sa_ngpios :: "u32 option"
  sa_add :: rc

text \<open>The result: status, the chip with the number of pins it was registered with, and the registers.\<close>

definition sgpo_groups :: "u32 option \<Rightarrow> u32" where
  "sgpo_groups ngpios =
     (case ngpios of
        None \<Rightarrow> AL_SGPO_NUM_GROUPS_V2
      | Some npins \<Rightarrow>
          let groups = DIV_ROUND_UP npins AL_SGPO_PINS_PER_GROUP
          in if AL_SGPO_MAX_GROUPS < groups then AL_SGPO_MAX_GROUPS else groups)"

definition al_sgpo_probe :: "sgpo_answers \<Rightarrow> mmio \<Rightarrow> rc \<times> (al_sgpo \<times> u32) option \<times> mmio" where
  "al_sgpo_probe k m =
     (if \<not> sa_kzalloc k then (RcErr ENOMEM, None, m)
      else case sa_regs k of
        Inl e \<Rightarrow> (RcErr e, None, m)
      | Inr r \<Rightarrow>
          let sgpo = \<lparr>sgpo_regs = r, num_groups = sgpo_groups (sa_ngpios k)\<rparr>;
              npins = num_groups sgpo * AL_SGPO_PINS_PER_GROUP;
              m = al_sgpo_hw_init sgpo m
          in if sa_add k \<noteq> RcOk then (sa_add k, None, m) else (RcOk, Some (sgpo, npins), m))"

subsection \<open>A bank of output pins\<close>

text \<open>
  The contract: a finite set of pins, each remembering the level it was last driven to; driving a pin outside the set does nothing.
\<close>

locale pin_bank =
  fixes ok :: "'s \<Rightarrow> bool" and pins :: "'s \<Rightarrow> nat set" and drive :: "nat \<Rightarrow> bool \<Rightarrow> 's \<Rightarrow> 's" and level :: "nat \<Rightarrow> 's \<Rightarrow> bool"
  assumes drive_ok: "ok s \<Longrightarrow> ok (drive p v s) \<and> pins (drive p v s) = pins s"
    and level_drive: "ok s \<Longrightarrow> p \<in> pins s \<Longrightarrow> q \<in> pins s \<Longrightarrow> level q (drive p v s) = (if p = q then v else level q s)"
    and drive_outside: "ok s \<Longrightarrow> p \<notin> pins s \<Longrightarrow> drive p v s = s"
begin

text \<open>The abstract state: the levels of the pins; a drive of an existing pin updates the map.\<close>

definition levels :: "'s \<Rightarrow> nat \<Rightarrow> bool option" where
  "levels s = (\<lambda>q. if q \<in> pins s then Some (level q s) else None)"

definition spec_drive :: "nat \<times> bool \<Rightarrow> (nat \<Rightarrow> bool option) \<Rightarrow> nat \<Rightarrow> bool option" where
  "spec_drive op f = (if fst op \<in> dom f then f(fst op \<mapsto> snd op) else f)"

lemma dom_levels: "dom (levels s) = pins s"
  by (auto simp: levels_def dom_def)

lemma levels_drive:
  assumes "ok s"
  shows "levels (drive p v s) = spec_drive (p, v) (levels s)"
  using drive_ok [OF assms, of p v] level_drive [OF assms, of p] drive_outside [OF assms, of p v] dom_levels [of s]
  by (cases "p \<in> pins s") (auto simp: levels_def spec_drive_def fun_eq_iff)

lemma levels_run:
  assumes "ok s"
  shows "levels (fold (\<lambda>(p, v). drive p v) ops s) = fold spec_drive ops (levels s)"
  using assms
proof (induction ops arbitrary: s)
  case (Cons op ops)
  then show ?case using drive_ok [OF Cons.prems, of "fst op" "snd op"] levels_drive [OF Cons.prems, of "fst op" "snd op"]
    by (simp add: case_prod_unfold)
qed simp

lemma level_run:
  assumes "ok s" "q \<in> pins s"
  shows "level q (fold (\<lambda>(p, v). drive p v) ops s) = (case filter (\<lambda>op. fst op = q) (rev ops) of [] \<Rightarrow> level q s | op # _ \<Rightarrow> snd op)"
  using assms
proof (induction ops rule: rev_induct)
  case (snoc op ops)
  let ?s = "fold (\<lambda>(p, v). drive p v) ops s"
  have ok: "ok ?s \<and> pins ?s = pins s" using snoc.prems(1)
    by (induction ops arbitrary: s) (auto simp: drive_ok)
  show ?case
  proof (cases "fst op \<in> pins s")
    case True
    then show ?thesis using ok snoc level_drive [of ?s "fst op" q "snd op"] by (simp add: case_prod_unfold)
  next
    case False
    then have "fst op \<noteq> q" using snoc.prems(2) by auto
    then show ?thesis using ok snoc False drive_outside [of ?s "fst op" "snd op"] by (simp add: case_prod_unfold)
  qed
qed simp

end

subsection \<open>The driver is a pin bank\<close>

text \<open>The register of a pin: distinct pins have distinct registers.\<close>

definition pin_reg :: "al_sgpo \<Rightarrow> nat \<Rightarrow> ptr" where
  "pin_reg c p = sgpo_regs c + 0x1400 + 0x1000 * (p div 8) + 4 * 2 ^ (p mod 8)"

definition sgpo_ok :: "al_sgpo \<times> mmio \<Rightarrow> bool" where
  "sgpo_ok s \<longleftrightarrow> unat (num_groups (fst s)) \<le> 8"

definition sgpo_pins :: "al_sgpo \<times> mmio \<Rightarrow> nat set" where
  "sgpo_pins s = {p. p < 8 * unat (num_groups (fst s))}"

definition sgpo_drive :: "nat \<Rightarrow> bool \<Rightarrow> al_sgpo \<times> mmio \<Rightarrow> al_sgpo \<times> mmio" where
  "sgpo_drive p v s = (if p < 2 ^ 32 then (fst s, al_sgpo_set (fst s) (of_nat p) (if v then 1 else 0) (snd s)) else s)"

definition sgpo_level :: "nat \<Rightarrow> al_sgpo \<times> mmio \<Rightarrow> bool" where
  "sgpo_level p s \<longleftrightarrow> al_sgpo_get (fst s) (of_nat p) (snd s) = Inr 1"

lemma pin_number:
  assumes "p < 2 ^ 32"
  shows "unat (of_nat p :: u32) = p" "unat ((of_nat p :: u32) div 8) = p div 8" "unat ((of_nat p :: u32) mod 8) = p mod 8"
proof -
  show p: "unat (of_nat p :: u32) = p" using assms by (simp add: unsigned_of_nat take_bit_nat_eq_self)
  show "unat ((of_nat p :: u32) div 8) = p div 8" "unat ((of_nat p :: u32) mod 8) = p mod 8"
    by (simp_all add: unat_div_distrib unat_mod_distrib p)
qed

lemma less8_cases: "k < 8 \<Longrightarrow> k \<in> {0, 1, 2, 3, 4, 5, 6, 7 :: nat}"
  by auto

lemma vec_offset: "k < 8 \<Longrightarrow> unat (GRP_VEC (push_bit k 1)) = 0x400 + 4 * 2 ^ k"
  by (drule less8_cases) (elim insertE emptyE; simp add: GRP_VEC_def GRP_VEC_BASE_def)

lemma group_offset: "unat g < 8 \<Longrightarrow> unat (g * AL_SGPO_GROUP_SIZE) = 0x1000 * unat g" for g :: u32
proof -
  assume "unat g < 8"
  then have "unat g * unat (0x1000 :: u32) < 2 ^ LENGTH(32)" by simp
  then show ?thesis by (simp add: AL_SGPO_GROUP_SIZE_def unat_mult_lem [THEN iffD1])
qed

lemma sgpo_pin_reg:
  assumes "p < 8 * unat (num_groups c)" "unat (num_groups c) \<le> 8"
  shows "\<not> num_groups c \<le> (of_nat p :: u32) div AL_SGPO_PINS_PER_GROUP"
    "al_sgpo_group_reg c ((of_nat p :: u32) div AL_SGPO_PINS_PER_GROUP)
       (GRP_VEC (push_bit (unat ((of_nat p :: u32) mod AL_SGPO_PINS_PER_GROUP)) 1)) = pin_reg c p"
proof -
  have p: "p < 2 ^ 32" using assms by simp
  have d: "p div 8 < unat (num_groups c)" using assms(1) by (simp add: less_mult_imp_div_less mult.commute)
  then show "\<not> num_groups c \<le> (of_nat p :: u32) div AL_SGPO_PINS_PER_GROUP"
    by (simp add: word_le_nat_alt AL_SGPO_PINS_PER_GROUP_def pin_number [OF p])
  have "unat ((of_nat p :: u32) div 8) < 8" using d assms(2) by (simp add: pin_number [OF p])
  then show "al_sgpo_group_reg c ((of_nat p :: u32) div AL_SGPO_PINS_PER_GROUP)
       (GRP_VEC (push_bit (unat ((of_nat p :: u32) mod AL_SGPO_PINS_PER_GROUP)) 1)) = pin_reg c p"
    unfolding al_sgpo_group_reg_def AL_SGPO_PINS_PER_GROUP_def
    by (simp add: group_offset vec_offset [simplified] pin_number [OF p] pin_reg_def AL_SGPO_GROUP_BASE_def)
qed

lemma pin_reg_inj: "pin_reg c p = pin_reg c q \<Longrightarrow> p = q"
proof -
  assume a: "pin_reg c p = pin_reg c q"
  have b: "4 * 2 ^ (n mod 8) \<le> (512 :: nat)" for n :: nat
    using less8_cases [of "n mod 8"] by (auto)
  have "0x1000 * (p div 8) + 4 * 2 ^ (p mod 8) = 0x1000 * (q div 8) + 4 * 2 ^ (q mod 8)"
    using a by (simp add: pin_reg_def)
  then have d: "p div 8 = q div 8" using b [of p] b [of q] by linarith
  then have "(2 :: nat) ^ (p mod 8) = 2 ^ (q mod 8)" using a by (simp add: pin_reg_def)
  then have "p mod 8 = q mod 8" by simp
  with d show "p = q" by (metis div_mult_mod_eq)
qed

lemma sgpo_set_eq:
  assumes "p < 8 * unat (num_groups c)" "unat (num_groups c) \<le> 8"
  shows "al_sgpo_set c (of_nat p) v m = al_reg_write32 m (pin_reg c p) (if v \<noteq> 0 then push_bit (p mod 8) 1 else 0)"
proof -
  have "p < 2 ^ 32" using assms by simp
  then show ?thesis
    using sgpo_pin_reg [OF assms] pin_number(3) [of p] by (simp add: al_sgpo_set_def Let_def AL_SGPO_PINS_PER_GROUP_def)
qed

lemma sgpo_get_eq:
  assumes "p < 8 * unat (num_groups c)" "unat (num_groups c) \<le> 8"
  shows "al_sgpo_get c (of_nat p) m = Inr (of_bool (bit (al_reg_read32 m (pin_reg c p)) (p mod 8)))"
proof -
  have p: "p < 2 ^ 32" using assms by simp
  have "drop_bit k x AND 1 = of_bool (bit x k)" for k and x :: u32
    by (simp add: and_one_eq mod_2_eq_odd bit_iff_odd_drop_bit)
  then show ?thesis
    using sgpo_pin_reg [OF assms] pin_number(3) [OF p] by (simp add: al_sgpo_get_def Let_def AL_SGPO_PINS_PER_GROUP_def)
qed

lemma sgpo_outside:
  assumes "8 * unat (num_groups c) \<le> p" "p < 2 ^ 32"
  shows "num_groups c \<le> (of_nat p :: u32) div AL_SGPO_PINS_PER_GROUP"
  using assms by (simp add: word_le_nat_alt AL_SGPO_PINS_PER_GROUP_def pin_number less_eq_div_iff_mult_less_eq mult.commute)

interpretation sgpo_bank: pin_bank sgpo_ok sgpo_pins sgpo_drive sgpo_level
proof
  fix s p v
  assume "sgpo_ok s"
  then show "sgpo_ok (sgpo_drive p v s) \<and> sgpo_pins (sgpo_drive p v s) = sgpo_pins s"
    by (simp add: sgpo_ok_def sgpo_pins_def sgpo_drive_def)
next
  fix s p q v
  assume ok: "sgpo_ok s" and p: "p \<in> sgpo_pins s" and q: "q \<in> sgpo_pins s"
  have "p < 2 ^ 32" using ok p by (simp add: sgpo_ok_def sgpo_pins_def)
  then have "sgpo_level q (sgpo_drive p v s) =
      bit (al_reg_read32 (al_reg_write32 (snd s) (pin_reg (fst s) p) (if v then push_bit (p mod 8) 1 else 0)) (pin_reg (fst s) q)) (q mod 8)"
    using ok p q by (simp add: sgpo_level_def sgpo_drive_def sgpo_ok_def sgpo_pins_def sgpo_set_eq sgpo_get_eq)
  also have "\<dots> = (if p = q then v else bit (al_reg_read32 (snd s) (pin_reg (fst s) q)) (q mod 8))"
    using pin_reg_inj [of "fst s" p q] by (auto simp: bit_simps)
  also have "bit (al_reg_read32 (snd s) (pin_reg (fst s) q)) (q mod 8) = sgpo_level q s"
    using ok q by (simp add: sgpo_level_def sgpo_ok_def sgpo_pins_def sgpo_get_eq)
  finally show "sgpo_level q (sgpo_drive p v s) = (if p = q then v else sgpo_level q s)" .
next
  fix s p v
  assume "sgpo_ok s" "p \<notin> sgpo_pins s"
  then show "sgpo_drive p v s = s"
    using sgpo_outside [of "fst s" p] by (cases s) (auto simp: sgpo_drive_def sgpo_pins_def al_sgpo_set_def Let_def)
qed

lemma rmw_set: "(x AND NOT k) OR (k AND k) = x OR k" "(x AND NOT k) OR k = x OR k" for x k :: u32
  by (rule bit_word_eqI; auto simp: bit_simps)+

subsection \<open>Properties\<close>

text \<open>
  C26: the pins are independent memories.  After any sequence of calls of \<open>al_sgpo_set\<close>, on pins inside or outside the
  chip and in any order, \<open>al_sgpo_get\<close> of an existing pin returns the level of the last call for that pin, and the level it had before when there
  was none.
\<close>

theorem sgpo_set_get:
  assumes "unat (num_groups c) \<le> 8" "q < 8 * unat (num_groups c)" "\<forall>op \<in> set ops. fst op < 2 ^ 32"
  shows "al_sgpo_get c (of_nat q) (fold (\<lambda>(p, v). al_sgpo_set c (of_nat p) (if v then 1 else 0)) ops m) =
    (case filter (\<lambda>op. fst op = q) (rev ops) of [] \<Rightarrow> al_sgpo_get c (of_nat q) m | op # _ \<Rightarrow> Inr (of_bool (snd op)))"
proof -
  let ?m = "fold (\<lambda>(p, v). al_sgpo_set c (of_nat p) (if v then 1 else 0)) ops m"
  have run: "fold (\<lambda>(p, v). sgpo_drive p v) ops (c, m) = (c, ?m)"
    using assms(3) by (induction ops arbitrary: m) (auto simp: sgpo_drive_def)
  have "sgpo_level q (c, ?m) = (case filter (\<lambda>op. fst op = q) (rev ops) of [] \<Rightarrow> sgpo_level q (c, m) | op # _ \<Rightarrow> snd op)"
    using sgpo_bank.level_run [of "(c, m)" q ops] assms(1,2) unfolding run by (simp add: sgpo_ok_def sgpo_pins_def)
  then show ?thesis
    using assms(1,2) by (auto simp: sgpo_level_def sgpo_get_eq split: list.splits)
qed

theorem sgpo_set_get_witness:
  "al_sgpo_get \<lparr>sgpo_regs = 0x1000, num_groups = 4\<rparr> 9
     (fold (\<lambda>(p, v). al_sgpo_set \<lparr>sgpo_regs = 0x1000, num_groups = 4\<rparr> (of_nat p) (if v then 1 else 0))
       [(9, False), (9, True), (8, False), (40, False)] \<lparr>regs = \<lambda>_. 0, wlog = []\<rparr>) = Inr 1"
  using sgpo_set_get [of "\<lparr>sgpo_regs = 0x1000, num_groups = 4\<rparr>" 9 "[(9, False), (9, True), (8, False), (40, False)]" "\<lparr>regs = \<lambda>_. 0, wlog = []\<rparr>"]
  by simp

text \<open>
  \<open>al_sgpo_direction_output\<close>.  A pin outside the chip is refused without a write.  For a pin of the chip the function writes the mode register of
  its group, giving that pin the two user-mode bits and leaving the bits of the seven others as they were, then
  its level, and nothing else.
\<close>

theorem sgpo_direction_output:
  assumes "p < 2 ^ 32" "unat (num_groups c) \<le> 8"
  defines "mode \<equiv> sgpo_regs c + 0x1004 + 0x1000 * (p div 8)"
  shows "al_sgpo_direction_output c (of_nat p) v m =
    (if p < 8 * unat (num_groups c) then
       (RcOk, al_reg_write32 (al_reg_write32 m mode (al_reg_read32 m mode OR push_bit (2 * (p mod 8)) 3))
          (pin_reg c p) (if v \<noteq> 0 then push_bit (p mod 8) 1 else 0))
     else (RcErr EINVAL, m))"
proof (cases "p < 8 * unat (num_groups c)")
  case False
  then show ?thesis using sgpo_outside [of c p] assms(1) by (simp add: al_sgpo_direction_output_def Let_def)
next
  case True
  note r = sgpo_pin_reg [OF True assms(2)] and n = pin_number [OF assms(1)]
  have "p div 8 < 8" using True assms(2) by (simp add: less_mult_imp_div_less)
  then have "al_sgpo_group_reg c ((of_nat p :: u32) div 8) GRP_MODE = mode"
    unfolding al_sgpo_group_reg_def by (simp add: group_offset n mode_def GRP_MODE_def AL_SGPO_GROUP_BASE_def)
  then show ?thesis
    using True r n by (simp add: al_sgpo_direction_output_def al_sgpo_rmw_def rmw_set Let_def AL_SGPO_PINS_PER_GROUP_def PIN_MODE_USER_def mult.commute)
qed

theorem sgpo_direction_output_witness:
  "fst (al_sgpo_direction_output \<lparr>sgpo_regs = 0x1000, num_groups = 4\<rparr> 31 1 \<lparr>regs = \<lambda>_. 0, wlog = []\<rparr>) = RcOk \<and>
   fst (al_sgpo_direction_output \<lparr>sgpo_regs = 0x1000, num_groups = 4\<rparr> 32 1 \<lparr>regs = \<lambda>_. 0, wlog = []\<rparr>) = RcErr EINVAL"
  using sgpo_direction_output [of 31 "\<lparr>sgpo_regs = 0x1000, num_groups = 4\<rparr>" 1 "\<lparr>regs = \<lambda>_. 0, wlog = []\<rparr>"]
    sgpo_direction_output [of 32 "\<lparr>sgpo_regs = 0x1000, num_groups = 4\<rparr>" 1 "\<lparr>regs = \<lambda>_. 0, wlog = []\<rparr>"]
  by simp

text \<open>The number of groups, over the naturals: the rounding wraps around for the seven largest values of the property.\<close>

lemma sgpo_groups_unat:
  "unat (sgpo_groups ngpios) =
     (case ngpios of None \<Rightarrow> 4 | Some n \<Rightarrow> if unat n < 2 ^ 32 - 7 then min 8 ((unat n + 7) div 8) else 0)"
proof (cases ngpios)
  case None
  then show ?thesis by (simp add: sgpo_groups_def AL_SGPO_NUM_GROUPS_V2_def)
next
  case (Some n)
  have d: "unat (DIV_ROUND_UP n 8) = (if unat n < 2 ^ 32 - 7 then (unat n + 7) div 8 else 0)"
  proof -
    have "n + 8 - 1 = n + 7" by simp
    then have e: "unat (DIV_ROUND_UP n 8) = unat (n + 7) div 8" unfolding DIV_ROUND_UP_def by (simp only:) (simp add: unat_div_distrib)
    have lt: "unat n < 2 ^ 32" using unsigned_less [of n] by simp
    have "unat (n + 7) = (unat n + 7) mod 2 ^ 32" by (simp add: unat_word_ariths)
    moreover have "(unat n + 7) mod 2 ^ 32 = (if unat n < 2 ^ 32 - 7 then unat n + 7 else unat n + 7 - 2 ^ 32)"
      using lt by (auto simp: le_mod_geq)
    ultimately show ?thesis using e lt by auto
  qed
  have "(8 :: u32) < DIV_ROUND_UP n 8 \<longleftrightarrow> 8 < unat (DIV_ROUND_UP n 8)" by (simp add: word_less_nat_alt)
  then show ?thesis
    using Some d by (simp add: sgpo_groups_def sgpo_consts Let_def min_def not_less)
qed

lemma rmw_read: "al_reg_read32 (al_sgpo_rmw a k v m) b = (if a = b then (al_reg_read32 m a AND NOT k) OR (v AND k) else al_reg_read32 m b)"
  by (simp add: al_sgpo_rmw_def)

lemma rmw_read_set: "al_reg_read32 (al_sgpo_rmw a k k m) b = (if a = b then al_reg_read32 m a OR k else al_reg_read32 m b)"
  by (simp only: rmw_read rmw_set)

text \<open>
  Probe.  It succeeds exactly when the kernel grants the allocation, the registers and the registration, and a chip exists exactly
  then.  The chip has four groups by default, otherwise the \<open>ngpios\<close> property rounded up to groups and cut to eight, except that a value within
  seven of \<open>2^32\<close> wraps around to no pins at all; it is registered with eight pins per group.  The hardware is left with the serialiser
  enabled, the blink rate set and all other control bits as they were.
\<close>

theorem sgpo_probe_outcome:
  shows "(case al_sgpo_probe k m of (rc, chip, m') \<Rightarrow>
    (rc = RcOk \<longleftrightarrow> sa_kzalloc k \<and> \<not> isl (sa_regs k) \<and> sa_add k = RcOk) \<and>
    (case chip of
       None \<Rightarrow> rc \<noteq> RcOk
     | Some (c, npins) \<Rightarrow> rc = RcOk \<and> sa_regs k = Inr (sgpo_regs c) \<and> unat npins = 8 * unat (num_groups c) \<and>
         unat (num_groups c) = (case sa_ngpios k of None \<Rightarrow> 4 | Some n \<Rightarrow> if unat n < 2 ^ 32 - 7 then min 8 ((unat n + 7) div 8) else 0) \<and>
         (let ctrl = al_reg_read32 m' (sgpo_regs c); old = al_reg_read32 m (sgpo_regs c) in
            ctrl = (old AND NOT 0xF00000) OR 0xD00088) \<and>
         al_reg_read32 m' (sgpo_regs c + 8) = al_reg_read32 m (sgpo_regs c + 8) OR 0x3F))"
proof (cases "sa_kzalloc k \<and> \<not> isl (sa_regs k) \<and> sa_add k = RcOk")
  case False
  then show ?thesis by (auto simp: al_sgpo_probe_def Let_def split: sum.splits prod.splits)
next
  case True
  then obtain r where r: "sa_regs k = Inr r" by (cases "sa_regs k") auto
  let ?c = "\<lparr>sgpo_regs = r, num_groups = sgpo_groups (sa_ngpios k)\<rparr>"
  have g: "unat (sgpo_groups (sa_ngpios k)) \<le> 8" by (auto simp: sgpo_groups_unat split: option.splits)
  then have n: "unat (sgpo_groups (sa_ngpios k) * 8) = 8 * unat (sgpo_groups (sa_ngpios k))"
    by (simp add: unat_word_ariths)
  have ctrl: "al_reg_read32 (al_sgpo_hw_init ?c m) r = (al_reg_read32 m r AND NOT 0xF00000) OR 0xD00088"
    unfolding al_sgpo_hw_init_def Let_def rmw_read_set rmw_read
    by (simp add: sgpo_consts CTRL_CNTR_SCALE_NORMAL_def CTRL_CNTR_SCALE_SHIFT_def CTRL_CNTR_SCALE_MASK_def
        CTRL_CPU_VDD_EN_def CTRL_SGI_ENABLE_def AL_BIT_def or.assoc)
  have out: "al_reg_read32 (al_sgpo_hw_init ?c m) (r + 8) = al_reg_read32 m (r + 8) OR 0x3F"
    unfolding al_sgpo_hw_init_def Let_def rmw_read_set rmw_read
    by (simp add: sgpo_consts OUT_EN_SHCP_def OUT_EN_STCP_def OUT_EN_DS_MASK_def AL_BIT_def or.assoc)
  show ?thesis
    using True r n ctrl out by (simp add: al_sgpo_probe_def Let_def sgpo_groups_unat AL_SGPO_PINS_PER_GROUP_def)
qed

end
