(* ===== verification/Pcie.thy ===== *)
theory Pcie
  imports Reg_Utils
begin

text \<open>
  The PCIe host drivers (\<open>patches/pcie-al-dbi-fix.c\<close>, \<open>patches/pcie-al-internal.c\<close>): configuration accesses of
  the external controller, which split the bus number between the address in the ECAM window and a target bus register, its
  initialisation, and the notifier that makes the units of the internal bus coherent.  Registers and the configuration space of one
  device are register spaces of \<open>Reg_Utils\<close>; what the kernel answers is an argument.
\<close>

subsection \<open>Macros of the PCI headers\<close>

definition PCI_SLOT :: "u32 \<Rightarrow> u32" where
  "PCI_SLOT devfn = drop_bit 3 devfn AND 0x1f"

definition PCI_FUNC :: "u32 \<Rightarrow> u32" where
  "PCI_FUNC devfn = devfn AND 0x07"

definition PCIE_ECAM_BUS_SHIFT :: nat where "PCIE_ECAM_BUS_SHIFT = 20"

definition PCIE_ECAM_OFFSET :: "u32 \<Rightarrow> u32 \<Rightarrow> u32 \<Rightarrow> u32" where
  "PCIE_ECAM_OFFSET bus devfn wh =
     push_bit PCIE_ECAM_BUS_SHIFT (bus AND 0xff) OR push_bit 12 (devfn AND 0xff) OR (wh AND 0xfff)"

subsection \<open>ACPI host bridge\<close>

text \<open>\<open>ecam_map\<close> is \<open>pci_ecam_map_bus\<close>; the result is an address or \<open>NULL\<close>.\<close>

definition al_pcie_map_bus :: "(u32 \<Rightarrow> u32 \<Rightarrow> nat \<Rightarrow> ptr) \<Rightarrow> ptr \<Rightarrow> u32 \<Rightarrow> u32 \<Rightarrow> u32 \<Rightarrow> nat \<Rightarrow> ptr" where
  "al_pcie_map_bus ecam_map dbi_base busr_start busnr devfn wh =
     (if busnr = busr_start then if 0 < PCI_SLOT devfn then NULL else dbi_base + wh
      else ecam_map busnr devfn wh)"

record acpi_answers =
  aa_pcie_alloc :: bool
  aa_res_alloc :: bool
  aa_rc_resources :: rc
  aa_remap :: "errno + ptr"

text \<open>The result is the status and the register base stored in the configuration window.\<close>

definition al_pcie_init :: "acpi_answers \<Rightarrow> rc \<times> ptr option" where
  "al_pcie_init k =
     (if \<not> aa_pcie_alloc k then (RcErr ENOMEM, None)
      else if \<not> aa_res_alloc k then (RcErr ENOMEM, None)
      else if aa_rc_resources k \<noteq> RcOk then (aa_rc_resources k, None)
      else case aa_remap k of Inl e \<Rightarrow> (RcErr e, None) | Inr b \<Rightarrow> (RcOk, Some b))"

subsection \<open>The external controller\<close>

definition AL_PCIE_REV_ID_2 :: u32 where "AL_PCIE_REV_ID_2 = 2"
definition AL_PCIE_REV_ID_3 :: u32 where "AL_PCIE_REV_ID_3 = 3"
definition AL_PCIE_REV_ID_4 :: u32 where "AL_PCIE_REV_ID_4 = 4"
definition AXI_BASE_OFFSET :: u32 where "AXI_BASE_OFFSET = 0"
definition DEVICE_ID_OFFSET :: u32 where "DEVICE_ID_OFFSET = 0x16c"
definition DEVICE_REV_ID :: u32 where "DEVICE_REV_ID = 0"
definition DEVICE_REV_ID_DEV_ID_X4 :: u32 where "DEVICE_REV_ID_DEV_ID_X4 = 0"
definition DEVICE_REV_ID_DEV_ID_X8 :: u32 where "DEVICE_REV_ID_DEV_ID_X8 = 2"
definition DEVICE_REV_ID_DEV_ID_X16 :: u32 where "DEVICE_REV_ID_DEV_ID_X16 = 4"
definition OB_CTRL_REV1_2_OFFSET :: u32 where "OB_CTRL_REV1_2_OFFSET = 0x0040"
definition OB_CTRL_REV3_5_OFFSET :: u32 where "OB_CTRL_REV3_5_OFFSET = 0x0030"
definition CFG_TARGET_BUS :: u32 where "CFG_TARGET_BUS = 0"
definition CFG_CONTROL :: u32 where "CFG_CONTROL = 4"

text \<open>\<open>FIELD_PREP\<close> and \<open>FIELD_GET\<close> with the masks \<open>GENMASK(7, 0)\<close>, \<open>GENMASK(15, 8)\<close>, \<open>GENMASK(23, 16)\<close>, \<open>GENMASK(31, 16)\<close>.\<close>

definition CFG_TARGET_BUS_MASK_PREP :: "u8 \<Rightarrow> u32" where "CFG_TARGET_BUS_MASK_PREP v = ucast v"
definition CFG_TARGET_BUS_BUSNUM_PREP :: "u8 \<Rightarrow> u32" where "CFG_TARGET_BUS_BUSNUM_PREP v = push_bit 8 (ucast v)"
definition CFG_CONTROL_SUBBUS_PREP :: "u8 \<Rightarrow> u32" where "CFG_CONTROL_SUBBUS_PREP v = push_bit 8 (ucast v)"
definition CFG_CONTROL_SEC_BUS_PREP :: "u8 \<Rightarrow> u32" where "CFG_CONTROL_SEC_BUS_PREP v = push_bit 16 (ucast v)"
definition CFG_CONTROL_SUBBUS_MASK :: u32 where "CFG_CONTROL_SUBBUS_MASK = 0x0000FF00"
definition CFG_CONTROL_SEC_BUS_MASK :: u32 where "CFG_CONTROL_SEC_BUS_MASK = 0x00FF0000"

record al_pcie_target_bus_cfg =
  reg_val :: u8
  reg_mask :: u8
  ecam_mask :: u8

record al_pcie =
  controller_base :: ptr
  ecam_size :: u64
  controller_rev_id :: u32
  ob_ctrl :: u32
  target_bus_cfg :: al_pcie_target_bus_cfg

definition al_pcie_controller_readl :: "al_pcie \<Rightarrow> u32 \<Rightarrow> mmio \<Rightarrow> u32" where
  "al_pcie_controller_readl pcie offset m = al_reg_read32 m (controller_base pcie + unat offset)"

definition al_pcie_controller_writel :: "al_pcie \<Rightarrow> u32 \<Rightarrow> u32 \<Rightarrow> mmio \<Rightarrow> mmio" where
  "al_pcie_controller_writel pcie offset val m = al_reg_write32_relaxed m (controller_base pcie + unat offset) val"

definition al_pcie_rev_id_get :: "al_pcie \<Rightarrow> mmio \<Rightarrow> errno + u32" where
  "al_pcie_rev_id_get pcie m =
     (let dev_rev_id_val = al_pcie_controller_readl pcie (AXI_BASE_OFFSET + DEVICE_ID_OFFSET + DEVICE_REV_ID) m;
          dev_id_val = drop_bit 16 dev_rev_id_val
      in if dev_id_val = DEVICE_REV_ID_DEV_ID_X4 then Inr AL_PCIE_REV_ID_2
         else if dev_id_val = DEVICE_REV_ID_DEV_ID_X8 then Inr AL_PCIE_REV_ID_3
         else if dev_id_val = DEVICE_REV_ID_DEV_ID_X16 then Inr AL_PCIE_REV_ID_4
         else Inl EINVAL)"

definition al_pcie_reg_offsets_set :: "al_pcie \<Rightarrow> rc \<times> al_pcie" where
  "al_pcie_reg_offsets_set pcie =
     (if controller_rev_id pcie = AL_PCIE_REV_ID_2 then (RcOk, pcie\<lparr>ob_ctrl := OB_CTRL_REV1_2_OFFSET\<rparr>)
      else if controller_rev_id pcie = AL_PCIE_REV_ID_3 \<or> controller_rev_id pcie = AL_PCIE_REV_ID_4
      then (RcOk, pcie\<lparr>ob_ctrl := OB_CTRL_REV3_5_OFFSET\<rparr>)
      else (RcErr EINVAL, pcie))"

definition al_pcie_target_bus_set :: "al_pcie \<Rightarrow> u8 \<Rightarrow> u8 \<Rightarrow> mmio \<Rightarrow> mmio" where
  "al_pcie_target_bus_set pcie target_bus mask_target_bus m =
     (let reg = CFG_TARGET_BUS_MASK_PREP mask_target_bus OR CFG_TARGET_BUS_BUSNUM_PREP target_bus
      in al_pcie_controller_writel pcie (AXI_BASE_OFFSET + ob_ctrl pcie + CFG_TARGET_BUS) reg m)"

definition al_pcie_conf_addr_map_bus :: "ptr \<Rightarrow> u32 \<Rightarrow> u32 \<Rightarrow> u32 \<Rightarrow> al_pcie \<Rightarrow> mmio \<Rightarrow> ptr \<times> al_pcie \<times> mmio" where
  "al_pcie_conf_addr_map_bus va_cfg0_base busnr devfn wh pcie m =
     (let cfg = target_bus_cfg pcie;
          busnr_ecam = busnr AND ucast (ecam_mask cfg);
          busnr_reg = busnr AND ucast (reg_mask cfg);
          (pcie, m) =
            (if busnr_reg \<noteq> ucast (reg_val cfg) then
               let cfg = cfg\<lparr>reg_val := ucast busnr_reg\<rparr>; pcie = pcie\<lparr>target_bus_cfg := cfg\<rparr>
               in (pcie, al_pcie_target_bus_set pcie (reg_val cfg) (reg_mask cfg) m)
             else (pcie, m))
      in (va_cfg0_base + unat (PCIE_ECAM_OFFSET busnr_ecam devfn wh), pcie, m))"

text \<open>\<open>bus\<close> is the bus number resource of the bridge, start and end, if it has one.\<close>

definition al_pcie_config_prepare :: "(u64 \<times> u64) option \<Rightarrow> al_pcie \<Rightarrow> mmio \<Rightarrow> rc \<times> al_pcie \<times> mmio" where
  "al_pcie_config_prepare bus pcie m =
     (case bus of
        None \<Rightarrow> (RcErr ENODEV, pcie, m)
      | Some (bus_start, bus_end) \<Rightarrow>
          let ecam_bus_mask = ucast (drop_bit PCIE_ECAM_BUS_SHIFT (ecam_size pcie) - 1) :: u32;
              ecam_bus_mask = (if 255 < ecam_bus_mask then 255 else ecam_bus_mask);
              ecam = ucast ecam_bus_mask :: u8;
              cfg = \<lparr>reg_val = ucast bus_start AND NOT ecam, reg_mask = NOT ecam, ecam_mask = ecam\<rparr>;
              pcie = pcie\<lparr>target_bus_cfg := cfg\<rparr>;
              m = al_pcie_target_bus_set pcie (reg_val cfg) (reg_mask cfg) m;
              secondary_bus = ucast (bus_start + 1) :: u8;
              subordinate_bus = ucast bus_end :: u8;
              cfg_control_offset = AXI_BASE_OFFSET + ob_ctrl pcie + CFG_CONTROL;
              cfg_control = al_pcie_controller_readl pcie cfg_control_offset m;
              reg = cfg_control AND NOT (CFG_CONTROL_SEC_BUS_MASK OR CFG_CONTROL_SUBBUS_MASK);
              reg = reg OR (CFG_CONTROL_SUBBUS_PREP subordinate_bus OR CFG_CONTROL_SEC_BUS_PREP secondary_bus)
          in (RcOk, pcie, al_pcie_controller_writel pcie cfg_control_offset reg m))"

definition al_pcie_host_init :: "(u64 \<times> u64) option \<Rightarrow> al_pcie \<Rightarrow> mmio \<Rightarrow> rc \<times> al_pcie \<times> mmio" where
  "al_pcie_host_init bus pcie m =
     (case al_pcie_rev_id_get pcie m of
        Inl e \<Rightarrow> (RcErr e, pcie, m)
      | Inr rev_id \<Rightarrow>
          let (rc, pcie) = al_pcie_reg_offsets_set (pcie\<lparr>controller_rev_id := rev_id\<rparr>)
          in if rc \<noteq> RcOk then (rc, pcie, m) else al_pcie_config_prepare bus pcie m)"

text \<open>
  Probe.  The answers of the kernel: the two allocations, the \<open>config\<close> resource (its size), the mapped controller registers, the mapped core registers, and
  \<open>dw_pcie_host_init\<close>, which calls back \<open>al_pcie_host_init\<close>.
\<close>

record pcie_answers =
  pa_alloc :: bool
  pa_dw_alloc :: bool
  pa_ecam :: "u64 option"
  pa_controller :: "errno + ptr"
  pa_dbi :: ptr

definition zero_pcie :: al_pcie where
  "zero_pcie = \<lparr>controller_base = NULL, ecam_size = 0, controller_rev_id = 0, ob_ctrl = 0,
     target_bus_cfg = \<lparr>reg_val = 0, reg_mask = 0, ecam_mask = 0\<rparr>\<rparr>"

definition al_pcie_probe :: "(al_pcie \<Rightarrow> mmio \<Rightarrow> rc \<times> al_pcie \<times> mmio) \<Rightarrow> pcie_answers \<Rightarrow> mmio \<Rightarrow> rc \<times> al_pcie option \<times> mmio" where
  "al_pcie_probe dw_pcie_host_init k m =
     (if \<not> pa_alloc k then (RcErr ENOMEM, None, m)
      else if \<not> pa_dw_alloc k then (RcErr ENOMEM, None, m)
      else case pa_ecam k of
        None \<Rightarrow> (RcErr ENOENT, None, m)
      | Some sz \<Rightarrow>
          (case pa_controller k of
             Inl e \<Rightarrow> (RcErr e, None, m)
           | Inr base \<Rightarrow>
               let pcie = zero_pcie\<lparr>ecam_size := sz, controller_base := base\<rparr> in
               if pa_dbi k = NULL then (RcErr ENOMEM, None, m)
               else let (rc, pcie, m) = dw_pcie_host_init pcie m in (rc, Some pcie, m)))"

subsection \<open>The internal bus\<close>

definition AL_ADAPTER_SMCC :: nat where "AL_ADAPTER_SMCC = 0x110"
definition AL_ADAPTER_SMCC_BUNDLE_SIZE :: nat where "AL_ADAPTER_SMCC_BUNDLE_SIZE = 0x20"
definition AL_ADAPTER_SMCC_CONF_SNOOP_OVR :: u32 where "AL_ADAPTER_SMCC_CONF_SNOOP_OVR = AL_BIT 0"
definition AL_ADAPTER_SMCC_CONF_SNOOP_EN :: u32 where "AL_ADAPTER_SMCC_CONF_SNOOP_EN = AL_BIT 1"
definition AL_ADAPTER_SMCC_SNOOP_BITS :: u32 where
  "AL_ADAPTER_SMCC_SNOOP_BITS = AL_ADAPTER_SMCC_CONF_SNOOP_OVR OR AL_ADAPTER_SMCC_CONF_SNOOP_EN"
definition AL_ADAPTER_SMCC_NUM_SUBMASTERS :: nat where "AL_ADAPTER_SMCC_NUM_SUBMASTERS = 4"
definition AL_ADAPTER_APP_CONTROL :: nat where "AL_ADAPTER_APP_CONTROL = 0x220"
definition AL_ADAPTER_APP_CONTROL_LO16 :: u32 where "AL_ADAPTER_APP_CONTROL_LO16 = 0x03ff"
definition AL_INTERNAL_SLOT_THRESHOLD :: u32 where "AL_INTERNAL_SLOT_THRESHOLD = 5"
definition PCI_VENDOR_ID_ANNAPURNA_LABS :: u16 where "PCI_VENDOR_ID_ANNAPURNA_LABS = 0x1c36"

datatype bus_event = BUS_NOTIFY_BIND_DRIVER | BUS_NOTIFY_OTHER

datatype notify = NOTIFY_DONE | NOTIFY_OK

record pci_dev =
  pci_devfn :: u32
  pci_vendor :: u16
  pci_is_root_bus :: bool

fun smcc_loop :: "nat \<Rightarrow> nat \<Rightarrow> u32 \<Rightarrow> mmio \<Rightarrow> mmio" where
  "smcc_loop i 0 val m = m"
| "smcc_loop i (Suc n) val m = smcc_loop (Suc i) n val (al_reg_write32 m (AL_ADAPTER_SMCC + i * AL_ADAPTER_SMCC_BUNDLE_SIZE) val)"

text \<open>The device is \<^term>\<open>None\<close> when it is not a PCI device; \<open>cfg\<close> is its configuration space.\<close>

definition al_pcie_internal_notifier :: "bus_event \<Rightarrow> pci_dev option \<Rightarrow> mmio \<Rightarrow> notify \<times> mmio" where
  "al_pcie_internal_notifier event d cfg =
     (if event \<noteq> BUS_NOTIFY_BIND_DRIVER then (NOTIFY_DONE, cfg)
      else case d of
        None \<Rightarrow> (NOTIFY_DONE, cfg)
      | Some pdev \<Rightarrow>
          if PCI_FUNC (pci_devfn pdev) \<noteq> 0 then (NOTIFY_DONE, cfg)
          else if \<not> pci_is_root_bus pdev then (NOTIFY_DONE, cfg)
          else if pci_vendor pdev \<noteq> PCI_VENDOR_ID_ANNAPURNA_LABS then (NOTIFY_DONE, cfg)
          else
            let slot = PCI_SLOT (pci_devfn pdev);
                val = al_reg_read32 cfg AL_ADAPTER_SMCC OR AL_ADAPTER_SMCC_SNOOP_BITS;
                cfg = al_reg_write32 cfg AL_ADAPTER_SMCC val;
                cfg = (if slot \<le> AL_INTERNAL_SLOT_THRESHOLD then smcc_loop 1 (AL_ADAPTER_SMCC_NUM_SUBMASTERS - 1) val cfg else cfg);
                val = al_reg_read32 cfg AL_ADAPTER_APP_CONTROL;
                val = (val AND 0xffff0000) OR AL_ADAPTER_APP_CONTROL_LO16
            in (NOTIFY_OK, al_reg_write32 cfg AL_ADAPTER_APP_CONTROL val))"

definition al_pcie_internal_ecam_init :: "rc \<Rightarrow> rc" where
  "al_pcie_internal_ecam_init bus_register_notifier = bus_register_notifier"

subsection \<open>The bus a configuration access reaches\<close>

text \<open>
  What the controller does with an access at offset \<open>off\<close> of the ECAM window when the target bus register holds \<open>reg\<close>: the bits of the bus
  number selected by the mask field come from the register, the others from the address.
\<close>

definition hw_target_bus :: "u32 \<Rightarrow> u32 \<Rightarrow> u8" where
  "hw_target_bus reg off =
     (let msk = ucast reg :: u8; num = ucast (drop_bit 8 reg) :: u8; addr = ucast (drop_bit 20 off) :: u8
      in (num AND msk) OR (addr AND NOT msk))"

definition target_reg :: "al_pcie \<Rightarrow> mmio \<Rightarrow> u32" where
  "target_reg pcie m = al_pcie_controller_readl pcie (AXI_BASE_OFFSET + ob_ctrl pcie + CFG_TARGET_BUS) m"

text \<open>The driver's record of the register agrees with it, and its two masks are complementary.\<close>

definition target_ok :: "al_pcie \<Rightarrow> mmio \<Rightarrow> bool" where
  "target_ok pcie m \<longleftrightarrow> reg_mask (target_bus_cfg pcie) = NOT (ecam_mask (target_bus_cfg pcie)) \<and>
     target_reg pcie m = CFG_TARGET_BUS_MASK_PREP (reg_mask (target_bus_cfg pcie)) OR CFG_TARGET_BUS_BUSNUM_PREP (reg_val (target_bus_cfg pcie))"

lemma target_fields:
  "ucast (CFG_TARGET_BUS_MASK_PREP k OR CFG_TARGET_BUS_BUSNUM_PREP v) = k"
  "ucast (drop_bit 8 (CFG_TARGET_BUS_MASK_PREP k OR CFG_TARGET_BUS_BUSNUM_PREP v)) = v"
  unfolding CFG_TARGET_BUS_MASK_PREP_def CFG_TARGET_BUS_BUSNUM_PREP_def
  by (rule bit_word_eqI, auto simp: bit_simps dest: bit_imp_le_length)+

lemma ecam_fields:
  "drop_bit 20 (PCIE_ECAM_OFFSET b d w) = b AND 0xff" "drop_bit 12 (PCIE_ECAM_OFFSET b d w) AND 0xff = d AND 0xff"
  "PCIE_ECAM_OFFSET b d w AND 0xfff = w AND 0xfff"
proof -
  have m: "(0xff :: u32) = mask 8" "(0xfff :: u32) = mask 12" by (simp_all add: mask_eq_exp_minus_1)
  show "drop_bit 20 (PCIE_ECAM_OFFSET b d w) = b AND 0xff" "drop_bit 12 (PCIE_ECAM_OFFSET b d w) AND 0xff = d AND 0xff"
    "PCIE_ECAM_OFFSET b d w AND 0xfff = w AND 0xfff"
    unfolding PCIE_ECAM_OFFSET_def PCIE_ECAM_BUS_SHIFT_def m by (rule bit_word_eqI, auto simp: bit_simps)+
qed

lemma map_bus_result:
  assumes "target_ok pcie m" "busnr < 256" "al_pcie_conf_addr_map_bus va busnr devfn wh pcie m = (addr, pcie', m')"
  defines "off \<equiv> PCIE_ECAM_OFFSET (busnr AND ucast (ecam_mask (target_bus_cfg pcie))) devfn wh"
  shows "addr = va + unat off" "target_ok pcie' m'" "ecam_mask (target_bus_cfg pcie') = ecam_mask (target_bus_cfg pcie)"
    "ecam_size pcie' = ecam_size pcie" "hw_target_bus (target_reg pcie' m') off = ucast busnr"
proof -
  let ?e = "ecam_mask (target_bus_cfg pcie)"
  let ?r = "busnr AND ucast (NOT ?e)"
  have rm: "reg_mask (target_bus_cfg pcie) = NOT ?e" using assms(1) by (simp add: target_ok_def)
  have "reg_val (target_bus_cfg pcie') = ucast ?r" and ok: "target_ok pcie' m'" and e: "ecam_mask (target_bus_cfg pcie') = ?e"
    and sz: "ecam_size pcie' = ecam_size pcie" and a: "addr = va + unat off"
    using assms(1,3) unfolding al_pcie_conf_addr_map_bus_def Let_def rm off_def
    by (auto simp: target_ok_def target_reg_def al_pcie_target_bus_set_def al_pcie_controller_readl_def
        al_pcie_controller_writel_def al_reg_write32_relaxed_def split: if_splits)
  then show "addr = va + unat off" "target_ok pcie' m'" "ecam_mask (target_bus_cfg pcie') = ?e" "ecam_size pcie' = ecam_size pcie"
    by simp_all
  have reg: "target_reg pcie' m' = CFG_TARGET_BUS_MASK_PREP (NOT ?e) OR CFG_TARGET_BUS_BUSNUM_PREP (ucast ?r)"
    using ok \<open>reg_val (target_bus_cfg pcie') = ucast ?r\<close> e by (simp add: target_ok_def)
  have "hw_target_bus (target_reg pcie' m') off = (ucast ?r AND NOT ?e) OR (ucast ((busnr AND ucast ?e) AND 0xff) AND NOT (NOT ?e))"
    unfolding hw_target_bus_def Let_def reg off_def target_fields ecam_fields by (rule refl)
  also have "\<dots> = ucast busnr"
  proof -
    have m: "(0xff :: u32) = mask 8" by (simp add: mask_eq_exp_minus_1)
    show ?thesis unfolding m by (rule bit_word_eqI) (auto simp: bit_simps)
  qed
  finally show "hw_target_bus (target_reg pcie' m') off = ucast busnr" .
qed

lemma config_prepare_result:
  assumes "al_pcie_config_prepare bus pcie m = (rc, pcie', m')" "bus = Some (st, en)"
  shows "rc = RcOk" "target_ok pcie' m'" "ecam_size pcie' = ecam_size pcie" "ob_ctrl pcie' = ob_ctrl pcie" "controller_base pcie' = controller_base pcie"
    "2 ^ 20 \<le> unat (ecam_size pcie) \<Longrightarrow> (unat (ecam_mask (target_bus_cfg pcie')) + 1) * 2 ^ 20 \<le> unat (ecam_size pcie)"
proof -
  have ne: "controller_base p + unat (AXI_BASE_OFFSET + o' + CFG_CONTROL) \<noteq> controller_base p + unat (AXI_BASE_OFFSET + o' + CFG_TARGET_BUS)" for p o'
    by (simp add: AXI_BASE_OFFSET_def CFG_CONTROL_def CFG_TARGET_BUS_def flip: word_unat_eq_iff)
  show "rc = RcOk" "target_ok pcie' m'" "ecam_size pcie' = ecam_size pcie" "ob_ctrl pcie' = ob_ctrl pcie" "controller_base pcie' = controller_base pcie"
    using assms ne
    by (auto simp: al_pcie_config_prepare_def Let_def target_ok_def target_reg_def al_pcie_target_bus_set_def al_pcie_controller_readl_def
        al_pcie_controller_writel_def al_reg_write32_relaxed_def)
  define x where "x = drop_bit 20 (ecam_size pcie) - 1"
  define y where "y = (ucast x :: u32)"
  have e: "ecam_mask (target_bus_cfg pcie') = ucast (if 255 < y then 255 else y)"
    using assms by (auto simp: al_pcie_config_prepare_def Let_def x_def y_def PCIE_ECAM_BUS_SHIFT_def)
  assume big: "2 ^ 20 \<le> unat (ecam_size pcie)"
  have d: "unat (drop_bit 20 (ecam_size pcie)) = unat (ecam_size pcie) div 2 ^ 20" by (simp add: drop_bit_eq_div unat_div_distrib)
  have "1 \<le> unat (ecam_size pcie) div 2 ^ 20" using div_le_mono [OF big, of "2 ^ 20"] by simp
  then have x: "unat x + 1 = unat (ecam_size pcie) div 2 ^ 20"
    unfolding x_def using d by (subst unat_minus_one) (auto simp: unat_eq_zero)
  have "unat y \<le> unat x" unfolding y_def by (simp add: unsigned_ucast_eq take_bit_nat_less_eq_self)
  moreover have "unat (ucast (if 255 < y then 255 else y) :: u8) \<le> unat y"
    by (auto simp: unsigned_ucast_eq take_bit_nat_less_eq_self word_less_nat_alt)
  ultimately have "unat (ecam_mask (target_bus_cfg pcie')) + 1 \<le> unat (ecam_size pcie) div 2 ^ 20" using x e by simp
  then have "(unat (ecam_mask (target_bus_cfg pcie')) + 1) * 2 ^ 20 \<le> unat (ecam_size pcie) div 2 ^ 20 * 2 ^ 20"
    by (rule mult_le_mono1)
  also have "\<dots> \<le> unat (ecam_size pcie)" by (simp add: div_times_less_eq_dividend)
  finally show "(unat (ecam_mask (target_bus_cfg pcie')) + 1) * 2 ^ 20 \<le> unat (ecam_size pcie)" .
qed

lemma ecam_offset_bound:
  fixes e :: u8
  shows "unat (PCIE_ECAM_OFFSET (b AND ucast e) d w) < (unat e + 1) * 2 ^ 20"
proof -
  let ?o = "PCIE_ECAM_OFFSET (b AND ucast e) d w"
  have "unat ?o div 2 ^ 20 = unat (drop_bit 20 ?o)" by (simp add: drop_bit_eq_div unat_div_distrib)
  also have "\<dots> = unat ((b AND ucast e) AND 0xff)" by (simp only: ecam_fields)
  also have "\<dots> \<le> unat (ucast e :: u32)"
    using word_and_le1 [of "b AND ucast e" "0xff"] word_and_le2 [of b "ucast e"] word_and_le2 [of "0xff" "b AND ucast e"]
    by (metis and.commute order.trans word_and_le1 word_and_le2 word_le_nat_alt)
  finally have "unat ?o div 2 ^ 20 < unat e + 1" by simp
  then show ?thesis using div_less_iff_less_mult [of "2 ^ 20" "unat ?o" "unat e + 1"] by simp
qed

lemma host_init_result:
  assumes "al_pcie_host_init bus pcie m = (RcOk, pcie', m')"
  shows "target_ok pcie' m'" "ecam_size pcie' = ecam_size pcie"
    "2 ^ 20 \<le> unat (ecam_size pcie) \<Longrightarrow> (unat (ecam_mask (target_bus_cfg pcie')) + 1) * 2 ^ 20 \<le> unat (ecam_size pcie)"
proof -
  obtain rev p1 where p1: "al_pcie_reg_offsets_set (pcie\<lparr>controller_rev_id := rev\<rparr>) = (RcOk, p1)"
    "al_pcie_config_prepare bus p1 m = (RcOk, pcie', m')"
    using assms by (auto simp: al_pcie_host_init_def split: sum.splits prod.splits if_splits)
  obtain st en where b: "bus = Some (st, en)" using p1(2) by (cases bus) (auto simp: al_pcie_config_prepare_def)
  have sz: "ecam_size p1 = ecam_size pcie" using p1(1) by (auto simp: al_pcie_reg_offsets_set_def split: if_splits)
  note r = config_prepare_result [OF p1(2) b]
  show "target_ok pcie' m'" "ecam_size pcie' = ecam_size pcie"
    "2 ^ 20 \<le> unat (ecam_size pcie) \<Longrightarrow> (unat (ecam_mask (target_bus_cfg pcie')) + 1) * 2 ^ 20 \<le> unat (ecam_size pcie)"
    using r sz by simp_all
qed

text \<open>A sequence of accesses; the result is the address of the last one.\<close>

fun map_bus_run :: "ptr \<Rightarrow> (u32 \<times> u32 \<times> u32) list \<Rightarrow> al_pcie \<times> mmio \<Rightarrow> al_pcie \<times> mmio" where
  "map_bus_run va [] s = s"
| "map_bus_run va ((b, d, w) # as) s = (let (_, s) = al_pcie_conf_addr_map_bus va b d w (fst s) (snd s) in map_bus_run va as s)"

lemma map_bus_run_ok:
  assumes "target_ok (fst s) (snd s)" "\<forall>a \<in> set as. fst a < 256" "map_bus_run va as s = s'"
  shows "target_ok (fst s') (snd s') \<and> ecam_mask (target_bus_cfg (fst s')) = ecam_mask (target_bus_cfg (fst s)) \<and> ecam_size (fst s') = ecam_size (fst s)"
  using assms
proof (induction as arbitrary: s)
  case (Cons a as)
  obtain b d w where a: "a = (b, d, w)" by (cases a) auto
  obtain addr p1 m1 where m: "al_pcie_conf_addr_map_bus va b d w (fst s) (snd s) = (addr, p1, m1)" by (metis surj_pair)
  have "b < 256" using Cons.prems(2) a by simp
  note r = map_bus_result [OF Cons.prems(1) this m]
  show ?case using Cons.IH [of "(p1, m1)"] Cons.prems r m a by simp
qed simp

subsection \<open>Properties\<close>

text \<open>
  C24: configuration accesses reach the bus they name.  After a successful \<open>al_pcie_host_init\<close> and any sequence of configuration accesses, a further access to a
  bus below 256 gives an address at which, with the target bus register as it then is, the controller addresses exactly that bus, device,
  function and register; the address lies inside the ECAM window when the window has at least one megabyte.
\<close>

theorem pcie_access_reaches_bus:
  assumes "al_pcie_host_init bus pcie m0 = (RcOk, pcie0, m1)" "\<forall>a \<in> set as. fst a < 256"
    and "map_bus_run va as (pcie0, m1) = (pcie1, m2)" "busnr < 256"
    and "al_pcie_conf_addr_map_bus va busnr devfn wh pcie1 m2 = (addr, pcie2, m3)"
  shows "\<exists>off. addr = va + unat off \<and> hw_target_bus (target_reg pcie2 m3) off = ucast busnr \<and>
    drop_bit 12 off AND 0xff = devfn AND 0xff \<and> off AND 0xfff = wh AND 0xfff \<and>
    (2 ^ 20 \<le> unat (ecam_size pcie) \<longrightarrow> unat off < unat (ecam_size pcie))"
proof -
  note h = host_init_result [OF assms(1)]
  have r: "target_ok pcie1 m2" "ecam_mask (target_bus_cfg pcie1) = ecam_mask (target_bus_cfg pcie0)"
    using map_bus_run_ok [of "(pcie0, m1)" as, OF _ assms(2,3)] h by auto
  note m = map_bus_result [OF r(1) assms(4,5)]
  let ?o = "PCIE_ECAM_OFFSET (busnr AND ucast (ecam_mask (target_bus_cfg pcie1))) devfn wh"
  have "unat ?o < (unat (ecam_mask (target_bus_cfg pcie0)) + 1) * 2 ^ 20" using ecam_offset_bound unfolding r(2) .
  then have "2 ^ 20 \<le> unat (ecam_size pcie) \<longrightarrow> unat ?o < unat (ecam_size pcie)" using h(3) by linarith
  then show ?thesis using m(1,5) ecam_fields(2,3) by blast
qed

theorem pcie_access_reaches_bus_witness:
  "\<exists>pcie0 m1 addr pcie2 m3.
     al_pcie_host_init (Some (0, 255)) (zero_pcie\<lparr>ecam_size := 0x400000\<rparr>) \<lparr>regs = \<lambda>_. 0, wlog = []\<rparr> = (RcOk, pcie0, m1) \<and>
     al_pcie_conf_addr_map_bus 0 7 8 4 pcie0 m1 = (addr, pcie2, m3) \<and>
     (\<exists>off. hw_target_bus (target_reg pcie2 m3) off = 7 \<and> unat off < 0x400000)"
proof -
  let ?p = "zero_pcie\<lparr>ecam_size := 0x400000\<rparr>" and ?m = "\<lparr>regs = \<lambda>_. 0, wlog = []\<rparr> :: mmio"
  obtain pcie0 m1 where h: "al_pcie_host_init (Some (0, 255)) ?p ?m = (RcOk, pcie0, m1)"
    by (simp add: al_pcie_host_init_def al_pcie_rev_id_get_def al_pcie_controller_readl_def al_reg_read32_def
        al_pcie_reg_offsets_set_def al_pcie_config_prepare_def Let_def DEVICE_REV_ID_DEV_ID_X4_def)
  obtain addr pcie2 m3 where a: "al_pcie_conf_addr_map_bus 0 7 8 4 pcie0 m1 = (addr, pcie2, m3)" by (metis surj_pair)
  have "\<exists>off. hw_target_bus (target_reg pcie2 m3) off = 7 \<and> unat off < 0x400000"
    using pcie_access_reaches_bus [OF h, of "[]" 0 pcie0 m1 7 8 4 addr pcie2 m3] a by auto
  with h a show ?thesis by blast
qed

text \<open>The registers after the notifier has acted on a device.\<close>

definition coherent_regs :: "pci_dev \<Rightarrow> (ptr \<Rightarrow> u32) \<Rightarrow> ptr \<Rightarrow> u32" where
  "coherent_regs pdev f =
     (let smcc = f 0x110 OR 3;
          g = f(0x110 := smcc);
          g = (if PCI_SLOT (pci_devfn pdev) \<le> 5 then g(0x130 := smcc, 0x150 := smcc, 0x170 := smcc) else g)
      in g(0x220 := (f 0x220 AND 0xffff0000) OR 0x3ff))"

lemma coherent_regs_idem: "coherent_regs pdev (coherent_regs pdev f) = coherent_regs pdev f"
proof -
  have "(x AND 0xffff0000 OR 0x3ff) AND 0xffff0000 OR 0x3ff = x AND 0xffff0000 OR (0x3ff :: u32)" for x
    by (simp add: and_or_distrib and.assoc)
  moreover have "(x OR 3) OR 3 = x OR (3 :: u32)" for x by (simp add: or.assoc)
  ultimately show ?thesis by (auto simp: coherent_regs_def Let_def fun_eq_iff)
qed

definition notifier_acts :: "bus_event \<Rightarrow> pci_dev option \<Rightarrow> bool" where
  "notifier_acts event d \<longleftrightarrow> event = BUS_NOTIFY_BIND_DRIVER \<and>
     (case d of None \<Rightarrow> False
      | Some pdev \<Rightarrow> PCI_FUNC (pci_devfn pdev) = 0 \<and> pci_is_root_bus pdev \<and> pci_vendor pdev = 0x1c36)"

lemma notifier_regs:
  assumes "notifier_acts event (Some pdev)"
  shows "fst (al_pcie_internal_notifier event (Some pdev) cfg) = NOTIFY_OK"
    "regs (snd (al_pcie_internal_notifier event (Some pdev) cfg)) = coherent_regs pdev (regs cfg)"
  using assms
  by (simp_all add: notifier_acts_def al_pcie_internal_notifier_def coherent_regs_def Let_def PCI_VENDOR_ID_ANNAPURNA_LABS_def
      AL_ADAPTER_SMCC_def AL_ADAPTER_SMCC_BUNDLE_SIZE_def AL_ADAPTER_SMCC_SNOOP_BITS_def AL_ADAPTER_SMCC_CONF_SNOOP_OVR_def
      AL_ADAPTER_SMCC_CONF_SNOOP_EN_def AL_BIT_def AL_ADAPTER_SMCC_NUM_SUBMASTERS_def AL_ADAPTER_APP_CONTROL_def
      AL_ADAPTER_APP_CONTROL_LO16_def AL_INTERNAL_SLOT_THRESHOLD_def al_reg_write32_def al_reg_read32_def eval_nat_numeral fun_upd_twist)

text \<open>
  The notifier of the internal bus.  It acts exactly when a driver binds to function 0 of an Annapurna device on the root bus; otherwise it writes nothing.
  When it acts, the snoop bits of sub-master 0 are set and its other bits kept; for slots up to 5 the sub-masters 1 to 3 get the same value;
  the low half of the application control register becomes \<open>0x3ff\<close> and its high half is kept; no other register changes; and a second
  notification for the same device changes no register any more.
\<close>

theorem internal_notifier_outcome:
  "case al_pcie_internal_notifier event d cfg of (r, cfg') \<Rightarrow>
     (if notifier_acts event d
      then r = NOTIFY_OK \<and> regs cfg' = coherent_regs (the d) (regs cfg) \<and> regs (snd (al_pcie_internal_notifier event d cfg')) = regs cfg'
      else r = NOTIFY_DONE \<and> cfg' = cfg)"
proof (cases "notifier_acts event d")
  case True
  then obtain pdev where d: "d = Some pdev" by (auto simp: notifier_acts_def split: option.splits)
  note n = notifier_regs [OF True [unfolded d]]
  show ?thesis using True n n(2) [of "snd (al_pcie_internal_notifier event d cfg)"] coherent_regs_idem
    by (simp add: d case_prod_beta)
next
  case False
  then show ?thesis
    by (auto simp: notifier_acts_def al_pcie_internal_notifier_def PCI_VENDOR_ID_ANNAPURNA_LABS_def split: option.splits if_splits)
qed

end
