(* ===== verification/Rtl8370mb.thy ===== *)
theory Rtl8370mb
  imports Prelude
begin

text \<open>
  The set-up of the RTL8370MB switch (\<open>modules/rtl8370mb/rtl8370mb_init.c\<close>): register access through four MDIO operations with retries, the
  initialisation sequence and the character device.  The MDIO bus belongs to another driver: its answers are a function of the
  operations so far and the new operation; the log of all operations is the state.  The mutex around each sequence makes the four operations adjacent in the
  log.
\<close>

subsection \<open>Constants\<close>

definition SMI_CTRL0_REG :: nat where "SMI_CTRL0_REG = 31"
definition SMI_CTRL1_REG :: nat where "SMI_CTRL1_REG = 21"
definition SMI_ADDRESS_REG :: nat where "SMI_ADDRESS_REG = 23"
definition SMI_DATA_WRITE_REG :: nat where "SMI_DATA_WRITE_REG = 24"
definition SMI_DATA_READ_REG :: nat where "SMI_DATA_READ_REG = 25"
definition SMI_ADDR_OP :: u32 where "SMI_ADDR_OP = 0x000E"
definition SMI_READ_OP :: u32 where "SMI_READ_OP = 0x0001"
definition SMI_WRITE_OP :: u32 where "SMI_WRITE_OP = 0x0003"

definition CHIP_ID_REG :: u32 where "CHIP_ID_REG = 0x1300"
definition CHIP_VER_REG :: u32 where "CHIP_VER_REG = 0x1301"
definition MAGIC_REG :: u32 where "MAGIC_REG = 0x13C2"
definition MAGIC_VALUE :: u32 where "MAGIC_VALUE = 0x0249"
definition DI_SELECT_REG0 :: u32 where "DI_SELECT_REG0 = 0x1305"
definition EXT_MODE_DISABLE :: u32 where "EXT_MODE_DISABLE = 0"
definition EXT_MODE_RGMII :: u32 where "EXT_MODE_RGMII = 1"
definition EXT_RGMXF_REG1 :: u32 where "EXT_RGMXF_REG1 = 0x1307"
definition RGMXF_TXDELAY :: u32 where "RGMXF_TXDELAY = 0x0008"
definition RGMXF_RXDELAY_1 :: u32 where "RGMXF_RXDELAY_1 = 0x0001"
definition DI_FORCE_REG1 :: u32 where "DI_FORCE_REG1 = 0x1311"
definition FORCE_EN :: u32 where "FORCE_EN = 0x1000"
definition FORCE_LINK :: u32 where "FORCE_LINK = 0x0010"
definition FORCE_DUPLEX :: u32 where "FORCE_DUPLEX = 0x0004"
definition FORCE_SPEED_1000M :: u32 where "FORCE_SPEED_1000M = 0x0002"
definition CPU_PORT_MASK_REG :: u32 where "CPU_PORT_MASK_REG = 0x1219"
definition CPU_CTRL_REG :: u32 where "CPU_CTRL_REG = 0x121A"
definition CPU_CTRL_EN :: u32 where "CPU_CTRL_EN = 0x0001"
definition CPU_CTRL_INSERTMODE_NONE :: u32 where "CPU_CTRL_INSERTMODE_NONE = 0x0004"
definition CPU_CTRL_TRAP_PORT_1 :: u32 where "CPU_CTRL_TRAP_PORT_1 = 0x0008"
definition PORT_ISO_BASE :: u32 where "PORT_ISO_BASE = 0x08A2"
definition MSTI_CTRL_BASE :: u32 where "MSTI_CTRL_BASE = 0x0A00"
definition STP_FORWARDING :: u32 where "STP_FORWARDING = 3"
definition LUT_LEARN_LIMIT_BASE :: u32 where "LUT_LEARN_LIMIT_BASE = 0x0A20"
definition LEARN_LIMIT_MAX :: u32 where "LEARN_LIMIT_MAX = 2112"
definition CFG0_MAX_LEN_REG :: u32 where "CFG0_MAX_LEN_REG = 0x088C"
definition CFG0_MAX_LEN_MAX :: u32 where "CFG0_MAX_LEN_MAX = 0x3FFF"

definition NUM_PHY_PORTS :: nat where "NUM_PHY_PORTS = 8"
definition EXT1_PORT :: nat where "EXT1_PORT = 9"
definition ALL_PORTS_MASK :: u32 where "ALL_PORTS_MASK = 0x02FF"
definition NUM_PORTS :: nat where "NUM_PORTS = 11"
definition SMI_RETRIES :: nat where "SMI_RETRIES = 10"

lemmas rtl_consts = SMI_CTRL0_REG_def SMI_CTRL1_REG_def SMI_ADDRESS_REG_def SMI_DATA_WRITE_REG_def SMI_DATA_READ_REG_def
  SMI_ADDR_OP_def SMI_READ_OP_def SMI_WRITE_OP_def CHIP_ID_REG_def CHIP_VER_REG_def MAGIC_REG_def MAGIC_VALUE_def DI_SELECT_REG0_def
  EXT_MODE_DISABLE_def EXT_MODE_RGMII_def EXT_RGMXF_REG1_def RGMXF_TXDELAY_def RGMXF_RXDELAY_1_def DI_FORCE_REG1_def FORCE_EN_def
  FORCE_LINK_def FORCE_DUPLEX_def FORCE_SPEED_1000M_def CPU_PORT_MASK_REG_def CPU_CTRL_REG_def CPU_CTRL_EN_def
  CPU_CTRL_INSERTMODE_NONE_def CPU_CTRL_TRAP_PORT_1_def PORT_ISO_BASE_def MSTI_CTRL_BASE_def STP_FORWARDING_def
  LUT_LEARN_LIMIT_BASE_def LEARN_LIMIT_MAX_def CFG0_MAX_LEN_REG_def CFG0_MAX_LEN_MAX_def NUM_PHY_PORTS_def EXT1_PORT_def
  ALL_PORTS_MASK_def NUM_PORTS_def

text \<open>Error numbers of the kernel, negated by the code that returns them.\<close>

definition E_TIMEDOUT :: int where "E_TIMEDOUT = 110"
definition E_NODEV :: int where "E_NODEV = 19"
definition E_FAULT :: int where "E_FAULT = 14"
definition E_NOTTY :: int where "E_NOTTY = 25"
definition E_PROBE_DEFER :: int where "E_PROBE_DEFER = 517"

subsection \<open>SMI over MDIO\<close>

text \<open>An operation at the switch's PHY address; a bus write takes a 16-bit value.\<close>

datatype mdio_op = MWrite nat u16 | MRead nat

type_synonym mdio_bus = "mdio_op list \<Rightarrow> mdio_op \<Rightarrow> int"

definition mdio_write :: "mdio_bus \<Rightarrow> nat \<Rightarrow> u32 \<Rightarrow> mdio_op list \<Rightarrow> int \<times> mdio_op list" where
  "mdio_write ans r v lg = (let op = MWrite r (ucast v) in (ans lg op, lg @ [op]))"

definition mdio_read :: "mdio_bus \<Rightarrow> nat \<Rightarrow> mdio_op list \<Rightarrow> int \<times> mdio_op list" where
  "mdio_read ans r lg = (let op = MRead r in (ans lg op, lg @ [op]))"

text \<open>The body of one retry; the boolean says that the sequence went through.\<close>

definition smi_read_once :: "mdio_bus \<Rightarrow> u32 \<Rightarrow> mdio_op list \<Rightarrow> bool \<times> int \<times> mdio_op list" where
  "smi_read_once bus reg lg =
     (let (ret, lg) = mdio_write bus SMI_CTRL0_REG SMI_ADDR_OP lg in if ret \<noteq> 0 then (False, ret, lg) else
      let (ret, lg) = mdio_write bus SMI_ADDRESS_REG reg lg in if ret \<noteq> 0 then (False, ret, lg) else
      let (ret, lg) = mdio_write bus SMI_CTRL1_REG SMI_READ_OP lg in if ret \<noteq> 0 then (False, ret, lg) else
      let (ret, lg) = mdio_read bus SMI_DATA_READ_REG lg in (0 \<le> ret, ret, lg))"

fun smi_read_loop :: "mdio_bus \<Rightarrow> u32 \<Rightarrow> nat \<Rightarrow> int \<Rightarrow> mdio_op list \<Rightarrow> int \<times> u32 option \<times> mdio_op list" where
  "smi_read_loop bus reg 0 ret lg = (if ret < 0 then ret else - E_TIMEDOUT, None, lg)"
| "smi_read_loop bus reg (Suc n) ret lg =
     (case smi_read_once bus reg lg of
        (True, ret, lg) \<Rightarrow> (0, Some (word_of_int ret), lg)
      | (False, ret, lg) \<Rightarrow> smi_read_loop bus reg n ret lg)"

definition smi_read :: "mdio_bus \<Rightarrow> u32 \<Rightarrow> mdio_op list \<Rightarrow> int \<times> u32 option \<times> mdio_op list" where
  "smi_read bus reg lg = smi_read_loop bus reg SMI_RETRIES 0 lg"

definition smi_write_once :: "mdio_bus \<Rightarrow> u32 \<Rightarrow> u32 \<Rightarrow> mdio_op list \<Rightarrow> int \<times> mdio_op list" where
  "smi_write_once bus reg val lg =
     (let (ret, lg) = mdio_write bus SMI_CTRL0_REG SMI_ADDR_OP lg in if ret \<noteq> 0 then (ret, lg) else
      let (ret, lg) = mdio_write bus SMI_ADDRESS_REG reg lg in if ret \<noteq> 0 then (ret, lg) else
      let (ret, lg) = mdio_write bus SMI_DATA_WRITE_REG val lg in if ret \<noteq> 0 then (ret, lg) else
      mdio_write bus SMI_CTRL1_REG SMI_WRITE_OP lg)"

fun smi_write_loop :: "mdio_bus \<Rightarrow> u32 \<Rightarrow> u32 \<Rightarrow> nat \<Rightarrow> int \<Rightarrow> mdio_op list \<Rightarrow> int \<times> mdio_op list" where
  "smi_write_loop bus reg val 0 ret lg = (if ret \<noteq> 0 then ret else - E_TIMEDOUT, lg)"
| "smi_write_loop bus reg val (Suc n) ret lg =
     (let (ret, lg) = smi_write_once bus reg val lg
      in if ret = 0 then (0, lg) else smi_write_loop bus reg val n ret lg)"

definition smi_write :: "mdio_bus \<Rightarrow> u32 \<Rightarrow> u32 \<Rightarrow> mdio_op list \<Rightarrow> int \<times> mdio_op list" where
  "smi_write bus reg val lg = smi_write_loop bus reg val SMI_RETRIES 0 lg"

definition smi_update :: "mdio_bus \<Rightarrow> u32 \<Rightarrow> u32 \<Rightarrow> u32 \<Rightarrow> mdio_op list \<Rightarrow> int \<times> mdio_op list" where
  "smi_update bus reg msk val lg =
     (case smi_read bus reg lg of
        (ret, None, lg) \<Rightarrow> (ret, lg)
      | (ret, Some orig, lg) \<Rightarrow> smi_write bus reg ((orig AND NOT msk) OR (val AND msk)) lg)"

subsection \<open>The character device\<close>

record rtl8370mb_smi_msg =
  msg_reg :: u16
  msg_val :: u16

datatype rtl_cmd = RTL8370MB_SMI_READ | RTL8370MB_SMI_WRITE | RTL_CMD_OTHER

text \<open>
  \<open>bus\<close> is the bus the module holds, if any; \<open>from_user\<close> the message read from user memory, or nothing on a fault; \<open>to_user\<close> says whether
  the copy back works.  The result is the return value, the message written back and the log.
\<close>

definition rtl8370mb_ioctl ::
  "mdio_bus option \<Rightarrow> rtl_cmd \<Rightarrow> rtl8370mb_smi_msg option \<Rightarrow> bool \<Rightarrow> mdio_op list \<Rightarrow> int \<times> rtl8370mb_smi_msg option \<times> mdio_op list" where
  "rtl8370mb_ioctl bus cmd from_user to_user lg =
     (case bus of
        None \<Rightarrow> (- E_NODEV, None, lg)
      | Some bus \<Rightarrow>
          (case from_user of
             None \<Rightarrow> (- E_FAULT, None, lg)
           | Some msg \<Rightarrow>
               (case cmd of
                  RTL8370MB_SMI_READ \<Rightarrow>
                    (case smi_read bus (ucast (msg_reg msg)) lg of
                       (ret, None, lg) \<Rightarrow> (ret, None, lg)
                     | (ret, Some val, lg) \<Rightarrow>
                         let msg = msg\<lparr>msg_val := ucast (val AND 0xFFFF)\<rparr>
                         in if \<not> to_user then (- E_FAULT, None, lg) else (0, Some msg, lg))
                | RTL8370MB_SMI_WRITE \<Rightarrow> (let (ret, lg) = smi_write bus (ucast (msg_reg msg)) (ucast (msg_val msg)) lg in (ret, None, lg))
                | RTL_CMD_OTHER \<Rightarrow> (- E_NOTTY, None, lg))))"

subsection \<open>Module initialisation\<close>

definition port_iso_mask :: "nat \<Rightarrow> u32" where
  "port_iso_mask port =
     (if NUM_PHY_PORTS \<le> port \<and> port \<noteq> EXT1_PORT then 0 else ALL_PORTS_MASK AND NOT (push_bit port 1))"

fun port_iso_loop :: "mdio_bus \<Rightarrow> nat \<Rightarrow> nat \<Rightarrow> mdio_op list \<Rightarrow> mdio_op list" where
  "port_iso_loop bus port 0 lg = lg"
| "port_iso_loop bus port (Suc n) lg =
     port_iso_loop bus (Suc port) n (snd (smi_write bus (PORT_ISO_BASE + of_nat port) (port_iso_mask port) lg))"

definition stp_val :: u32 where
  "stp_val = fold (\<lambda>port v. v OR push_bit (port * 2) STP_FORWARDING) [0..<8] 0"

fun learn_loop :: "mdio_bus \<Rightarrow> nat \<Rightarrow> nat \<Rightarrow> mdio_op list \<Rightarrow> mdio_op list" where
  "learn_loop bus port 0 lg = lg"
| "learn_loop bus port (Suc n) lg =
     learn_loop bus (Suc port) n (snd (smi_write bus (LUT_LEARN_LIMIT_BASE + of_nat port) LEARN_LIMIT_MAX lg))"

text \<open>The label \<open>lock\<close>.\<close>

definition rtl_lock :: "mdio_bus \<Rightarrow> int \<Rightarrow> mdio_op list \<Rightarrow> int \<times> bool \<times> mdio_op list" where
  "rtl_lock bus ret lg = (ret, False, snd (smi_write bus MAGIC_REG 0 lg))"

text \<open>
  The result: the return value, whether the module holds the bus and the device is registered, and the log.  \<open>misc_register\<close> is the answer of
  the registration.  Variables that a failed read leaves alone keep their initial zero.
\<close>

definition rtl8370mb_module_init :: "mdio_bus option \<Rightarrow> int \<Rightarrow> mdio_op list \<Rightarrow> int \<times> bool \<times> mdio_op list" where
  "rtl8370mb_module_init shared_bus misc_register lg =
     (case shared_bus of
        None \<Rightarrow> (- E_PROBE_DEFER, False, lg)
      | Some bus \<Rightarrow>
          let (ret, lg) = smi_write bus MAGIC_REG MAGIC_VALUE lg in
          if ret \<noteq> 0 then (ret, False, lg) else
          let (ret, id, lg) = smi_read bus CHIP_ID_REG lg; chip_id = (case id of None \<Rightarrow> 0 | Some v \<Rightarrow> v) in
          if ret \<noteq> 0 then rtl_lock bus ret lg else
          let (_, _, lg) = smi_read bus CHIP_VER_REG lg in
          if chip_id \<noteq> 0x6368 \<and> chip_id \<noteq> 0x0801 \<and> chip_id \<noteq> 0x6367 then rtl_lock bus (- E_NODEV) lg else
          let (ret, lg) = smi_update bus DI_SELECT_REG0 0x00F0 (push_bit 4 EXT_MODE_RGMII) lg in
          if ret \<noteq> 0 then rtl_lock bus ret lg else
          let (_, lg) = smi_write bus EXT_RGMXF_REG1 (RGMXF_TXDELAY OR RGMXF_RXDELAY_1) lg;
              (ret, lg) = smi_write bus DI_FORCE_REG1 (FORCE_EN OR FORCE_LINK OR FORCE_DUPLEX OR FORCE_SPEED_1000M) lg in
          if ret \<noteq> 0 then rtl_lock bus ret lg else
          let (_, lg) = smi_update bus DI_SELECT_REG0 0x000F EXT_MODE_DISABLE lg;
              lg = port_iso_loop bus 0 NUM_PORTS lg;
              (_, lg) = smi_write bus MSTI_CTRL_BASE stp_val lg;
              (_, lg) = smi_write bus (MSTI_CTRL_BASE + 1) (push_bit 2 STP_FORWARDING) lg;
              lg = learn_loop bus 0 NUM_PHY_PORTS lg;
              (_, lg) = smi_write bus (LUT_LEARN_LIMIT_BASE + of_nat EXT1_PORT) LEARN_LIMIT_MAX lg;
              (_, lg) = smi_write bus CFG0_MAX_LEN_REG CFG0_MAX_LEN_MAX lg;
              (_, lg) = smi_write bus CPU_PORT_MASK_REG (push_bit EXT1_PORT 1) lg;
              (_, lg) = smi_write bus CPU_CTRL_REG (CPU_CTRL_EN OR CPU_CTRL_INSERTMODE_NONE OR CPU_CTRL_TRAP_PORT_1) lg;
              registered = (misc_register = 0);
              (_, lg) = smi_write bus MAGIC_REG 0 lg
          in (0, registered, lg))"

text \<open>Module exit: the device is deregistered and the bus forgotten, whatever the registration had answered.\<close>

definition rtl8370mb_module_exit :: "bool \<Rightarrow> bool" where
  "rtl8370mb_module_exit registered = False"

subsection \<open>The switch side of the protocol\<close>

text \<open>
  The register access protocol of the switch: an address register, a data register, and a control register that performs the write.  The register file after
  a log of operations.
\<close>

record smi_switch =
  sw_addr :: u16
  sw_data :: u16
  sw_file :: "u16 \<Rightarrow> u16"

definition sw_step :: "mdio_op \<Rightarrow> smi_switch \<Rightarrow> smi_switch" where
  "sw_step op s =
     (case op of
        MRead r \<Rightarrow> s
      | MWrite r v \<Rightarrow>
          if r = 23 then s\<lparr>sw_addr := v\<rparr>
          else if r = 24 then s\<lparr>sw_data := v\<rparr>
          else if r = 21 \<and> v = 3 then s\<lparr>sw_file := (sw_file s)(sw_addr s := sw_data s)\<rparr>
          else s)"

definition sw_after :: "smi_switch \<Rightarrow> mdio_op list \<Rightarrow> smi_switch" where
  "sw_after s lg = fold sw_step lg s"

abbreviation file_after :: "smi_switch \<Rightarrow> mdio_op list \<Rightarrow> u16 \<Rightarrow> u16" where
  "file_after s lg \<equiv> sw_file (sw_after s lg)"

definition write_seq :: "u32 \<Rightarrow> u32 \<Rightarrow> mdio_op list" where
  "write_seq reg val = [MWrite 31 0xE, MWrite 23 (ucast reg), MWrite 24 (ucast val), MWrite 21 3]"

definition read_seq :: "u32 \<Rightarrow> mdio_op list" where
  "read_seq reg = [MWrite 31 0xE, MWrite 23 (ucast reg), MWrite 21 1, MRead 25]"

lemma sw_after_append [simp]: "sw_after s (xs @ ys) = sw_after (sw_after s xs) ys"
  by (simp add: sw_after_def)

lemma file_write_seq: "file_after s (write_seq reg val) = (sw_file s)(ucast reg := ucast val)"
  by (simp add: sw_after_def write_seq_def sw_step_def)

lemma file_write_part: "k < 4 \<Longrightarrow> file_after s (take k (write_seq reg val)) = sw_file s"
proof -
  assume "k < 4"
  then have "k = 0 \<or> k = 1 \<or> k = 2 \<or> k = 3" by linarith
  then show ?thesis by (auto simp: sw_after_def write_seq_def sw_step_def numeral_3_eq_3 numeral_2_eq_2)
qed

lemma file_read_part: "file_after s (take k (read_seq reg)) = sw_file s"
proof (cases "k < 4")
  case True
  then have "k = 0 \<or> k = 1 \<or> k = 2 \<or> k = 3" by linarith
  then show ?thesis by (auto simp: sw_after_def read_seq_def sw_step_def numeral_3_eq_3 numeral_2_eq_2)
qed (simp add: sw_after_def read_seq_def sw_step_def)

text \<open>One attempt performs a prefix of the sequence, the whole of it when it succeeds.\<close>

lemma write_once_shape:
  assumes "smi_write_once bus reg val lg = (ret, lg')"
  shows "\<exists>k. 1 \<le> k \<and> k \<le> 4 \<and> lg' = lg @ take k (write_seq reg val) \<and> (ret = 0 \<longrightarrow> k = 4)"
proof -
  have s: "take 1 (write_seq reg val) = [MWrite 31 0xE]" "take 2 (write_seq reg val) = [MWrite 31 0xE, MWrite 23 (ucast reg)]"
    "take 3 (write_seq reg val) = [MWrite 31 0xE, MWrite 23 (ucast reg), MWrite 24 (ucast val)]" "take 4 (write_seq reg val) = write_seq reg val"
    by (simp_all add: write_seq_def)
  have "lg' \<in> {lg @ take 1 (write_seq reg val), lg @ take 2 (write_seq reg val), lg @ take 3 (write_seq reg val)} \<and> ret \<noteq> 0 \<or> lg' = lg @ take 4 (write_seq reg val)"
    using assms unfolding s by (auto simp: smi_write_once_def mdio_write_def Let_def rtl_consts write_seq_def split: if_splits)
  then consider k where "k \<in> {1, 2, 3}" "lg' = lg @ take k (write_seq reg val)" "ret \<noteq> 0" | "lg' = lg @ take 4 (write_seq reg val)"
    by auto
  then show ?thesis by cases (auto intro: exI [of _ 1] exI [of _ 2] exI [of _ 3] exI [of _ 4])
qed

lemma read_once_shape:
  assumes "smi_read_once bus reg lg = (ok, ret, lg')"
  shows "\<exists>k. k \<le> 4 \<and> lg' = lg @ take k (read_seq reg) \<and> (ok \<longrightarrow> k = 4 \<and> ret = bus (lg @ take 3 (read_seq reg)) (MRead 25))"
proof -
  have s: "take 1 (read_seq reg) = [MWrite 31 0xE]" "take 2 (read_seq reg) = [MWrite 31 0xE, MWrite 23 (ucast reg)]"
    "take 3 (read_seq reg) = [MWrite 31 0xE, MWrite 23 (ucast reg), MWrite 21 1]" "take 4 (read_seq reg) = read_seq reg"
    by (simp_all add: read_seq_def)
  have "lg' \<in> {lg @ take 1 (read_seq reg), lg @ take 2 (read_seq reg), lg @ take 3 (read_seq reg)} \<and> \<not> ok \<or>
      lg' = lg @ take 4 (read_seq reg) \<and> ret = bus (lg @ take 3 (read_seq reg)) (MRead 25)"
    using assms unfolding s by (auto simp: smi_read_once_def mdio_write_def mdio_read_def Let_def rtl_consts read_seq_def split: if_splits)
  then show ?thesis by (elim disjE conjE insertE emptyE) (auto intro: exI [of _ 1] exI [of _ 2] exI [of _ 3] exI [of _ 4])
qed

lemma write_loop_file:
  assumes "smi_write_loop bus reg val n ret lg = (r, lg')"
  shows "(\<exists>ops. lg' = lg @ ops \<and> length ops \<le> 4 * n) \<and>
    file_after s lg' \<in> {file_after s lg, (file_after s lg)(ucast reg := ucast val)} \<and>
    (r = 0 \<longrightarrow> file_after s lg' = (file_after s lg)(ucast reg := ucast val) \<and> (\<exists>pre. lg' = pre @ write_seq reg val))"
  using assms
proof (induction n arbitrary: ret lg)
  case 0
  then show ?case by (auto simp: E_TIMEDOUT_def split: if_splits)
next
  case (Suc n)
  obtain ret1 lg1 where o: "smi_write_once bus reg val lg = (ret1, lg1)" by (metis surj_pair)
  obtain k where k: "1 \<le> k" "k \<le> 4" "lg1 = lg @ take k (write_seq reg val)" "ret1 = 0 \<longrightarrow> k = 4"
    using write_once_shape [OF o] by auto
  have four: "take 4 (write_seq reg val) = write_seq reg val" by (simp add: write_seq_def)
  have f1: "file_after s lg1 = (if k = 4 then (file_after s lg)(ucast reg := ucast val) else file_after s lg)"
    using k(2) file_write_part [of k] by (auto simp: k(3) file_write_seq four)
  have len: "length (take k (write_seq reg val)) \<le> 4" using k(2) by simp
  show ?case
  proof (cases "ret1 = 0")
    case True
    then have "lg' = lg @ write_seq reg val" "r = 0" using Suc.prems o k four by simp_all
    then show ?thesis by (auto simp: file_write_seq) (simp add: write_seq_def)
  next
    case False
    then have "smi_write_loop bus reg val n ret1 lg1 = (r, lg')" using Suc.prems o by simp
    note ih = Suc.IH [OF this]
    obtain ops where ops: "lg' = lg1 @ ops" "length ops \<le> 4 * n" using ih by auto
    have "\<exists>ops. lg' = lg @ ops \<and> length ops \<le> 4 * Suc n"
      using ops len k(3) by (intro exI [of _ "take k (write_seq reg val) @ ops"]) simp
    then show ?thesis using ih f1 by (auto split: if_splits)
  qed
qed

lemma read_loop_file:
  assumes "smi_read_loop bus reg n ret lg = (r, v, lg')"
  shows "file_after s lg' = file_after s lg \<and> (r = 0 \<longleftrightarrow> v \<noteq> None)"
  using assms
proof (induction n arbitrary: ret lg)
  case 0
  then show ?case by (auto simp: E_TIMEDOUT_def split: if_splits)
next
  case (Suc n)
  obtain ok ret1 lg1 where o: "smi_read_once bus reg lg = (ok, ret1, lg1)" by (metis surj_pair)
  then obtain k where "lg1 = lg @ take k (read_seq reg)" using read_once_shape by blast
  then have "file_after s lg1 = file_after s lg" by (simp add: file_read_part)
  then show ?case using Suc o by (cases ok) auto
qed

subsection \<open>A bus without errors\<close>

text \<open>Writes are acknowledged and reads of the data register return the addressed register of a switch that started in \<open>s\<close>.\<close>

definition healthy :: "smi_switch \<Rightarrow> mdio_bus \<Rightarrow> bool" where
  "healthy s bus \<longleftrightarrow> (\<forall>lg r v. bus lg (MWrite r v) = 0) \<and>
     (\<forall>lg. bus lg (MRead 25) = uint (file_after s lg (sw_addr (sw_after s lg))))"

lemma healthy_write:
  assumes "healthy s bus"
  shows "smi_write bus reg val lg = (0, lg @ write_seq reg val)"
  using assms by (simp add: smi_write_def SMI_RETRIES_def numeral_eq_Suc smi_write_once_def mdio_write_def healthy_def)
    (simp add: rtl_consts write_seq_def)

lemma healthy_read:
  assumes "healthy s bus"
  shows "smi_read bus reg lg = (0, Some (ucast (file_after s lg (ucast reg))), lg @ read_seq reg)"
proof -
  have "sw_addr (sw_after s (lg @ [MWrite 31 14, MWrite 23 (ucast reg), MWrite 21 1])) = ucast reg"
    "file_after s (lg @ [MWrite 31 14, MWrite 23 (ucast reg), MWrite 21 1]) = file_after s lg"
    by (simp_all add: sw_after_def sw_step_def)
  then have "bus (lg @ [MWrite 31 14, MWrite 23 (ucast reg), MWrite 21 1]) (MRead 25) = uint (file_after s lg (ucast reg))"
    using assms unfolding healthy_def by simp
  moreover have "\<And>lg r v. bus lg (MWrite r v) = 0" using assms by (simp add: healthy_def)
  ultimately have "smi_read_once bus reg lg = (True, uint (file_after s lg (ucast reg)), lg @ read_seq reg)"
    by (simp add: smi_read_once_def mdio_write_def mdio_read_def rtl_consts read_seq_def)
  then have "smi_read bus reg lg = (0, Some (word_of_int (uint (file_after s lg (ucast reg)))), lg @ read_seq reg)"
    by (simp add: smi_read_def SMI_RETRIES_def numeral_eq_Suc)
  then show ?thesis by simp
qed

lemma file_read_seq [simp]: "file_after s (read_seq reg) = sw_file s"
  using file_read_part [of s 4 reg] by (simp add: read_seq_def)

lemma healthy_update:
  assumes "healthy s bus"
  shows "smi_update bus reg msk val lg = (0, lg @ read_seq reg @ write_seq reg ((ucast (file_after s lg (ucast reg)) AND NOT msk) OR (val AND msk)))"
  by (simp add: smi_update_def healthy_read [OF assms] healthy_write [OF assms])

lemma healthy_iso:
  assumes "healthy s bus"
  shows "file_after s (port_iso_loop bus p n lg) =
    fold (\<lambda>k f. f(ucast (PORT_ISO_BASE + of_nat k) := ucast (port_iso_mask k))) [p..<p + n] (file_after s lg)"
  by (induction n arbitrary: p lg) (simp_all add: healthy_write [OF assms] file_write_seq upt_rec)

lemma healthy_learn:
  assumes "healthy s bus"
  shows "file_after s (learn_loop bus p n lg) =
    fold (\<lambda>k f. f(ucast (LUT_LEARN_LIMIT_BASE + of_nat k) := ucast LEARN_LIMIT_MAX)) [p..<p + n] (file_after s lg)"
  by (induction n arbitrary: p lg) (simp_all add: healthy_write [OF assms] file_write_seq upt_rec)

subsection \<open>Properties\<close>

text \<open>
  A register write under bus errors.  For every behaviour of the bus, \<open>smi_write\<close> returns after at most forty operations; the register file of the switch is either
  untouched or has the one register updated, so a sequence cut off by an error never disturbs another register; and the result zero means that the
  write took place, its four operations adjacent at the end of the log.
\<close>

theorem smi_write_outcome:
  assumes "smi_write bus reg val lg = (r, lg')"
  shows "(\<exists>ops. lg' = lg @ ops \<and> length ops \<le> 40) \<and>
    file_after s lg' \<in> {file_after s lg, (file_after s lg)(ucast reg := ucast val)} \<and>
    (r = 0 \<longrightarrow> file_after s lg' = (file_after s lg)(ucast reg := ucast val) \<and> (\<exists>pre. lg' = pre @ write_seq reg val))"
  using write_loop_file [OF assms [unfolded smi_write_def SMI_RETRIES_def], of s] by simp

theorem smi_write_outcome_witness:
  "\<exists>lg'. smi_write (\<lambda>lg op. if length lg < 3 then - 5 else 0) 0x1311 0x1016 [] = (0, lg') \<and>
     file_after \<lparr>sw_addr = 0, sw_data = 0, sw_file = \<lambda>_. 0\<rparr> lg' 0x1311 = 0x1016"
proof -
  let ?bus = "(\<lambda>lg op. if length lg < 3 then - 5 else 0) :: mdio_bus"
  obtain lg' where w: "smi_write ?bus 0x1311 0x1016 [] = (0, lg')"
    by (simp add: smi_write_def SMI_RETRIES_def numeral_eq_Suc smi_write_once_def mdio_write_def)
  show ?thesis using smi_write_outcome [OF w, of "\<lparr>sw_addr = 0, sw_data = 0, sw_file = \<lambda>_. 0\<rparr>"] w by auto
qed

definition active_ports :: "nat set" where "active_ports = {0, 1, 2, 3, 4, 5, 6, 7, 9}"

text \<open>The register file after initialisation, as the sequence of updates the code performs.\<close>

definition init_file :: "(u16 \<Rightarrow> u16) \<Rightarrow> u16 \<Rightarrow> u16" where
  "init_file f =
     (let f = f(0x13C2 := 0x0249);
          f = f(0x1305 := ucast ((ucast (f 0x1305) AND NOT 0xF0) OR (0x10 :: u32)));
          f = f(0x1307 := 9, 0x1311 := 0x1016);
          f = f(0x1305 := ucast (ucast (f 0x1305) AND NOT (0xF :: u32)));
          f = fold (\<lambda>k f. f(ucast (0x08A2 + of_nat k :: u32) := ucast (port_iso_mask k))) [0..<11] f;
          f = f(0x0A00 := 0xFFFF, 0x0A01 := 0xC);
          f = fold (\<lambda>k f. f(ucast (0x0A20 + of_nat k :: u32) := 2112)) [0..<8] f
      in f(0x0A29 := 2112, 0x088C := 0x3FFF, 0x1219 := 0x200, 0x121A := 0xD, 0x13C2 := 0))"

lemma stp_val_eq: "stp_val = 0xFFFF"
  by (simp add: stp_val_def STP_FORWARDING_def upt_rec)

lemma init_healthy:
  assumes "healthy s bus" "sw_file s 0x1300 \<in> {0x6368, 0x0801, 0x6367}"
  shows "\<exists>lg. rtl8370mb_module_init (Some bus) misc [] = (0, misc = 0, lg) \<and> file_after s lg = init_file (sw_file s)"
proof -
  have nil: "sw_after s [] = s" by (simp add: sw_after_def)
  have id: "ucast (sw_file s 0x1300) \<in> {0x6368, 0x0801, 0x6367 :: u32}" using assms(2) by auto
  note w = healthy_write [OF assms(1)] and r = healthy_read [OF assms(1)] and u = healthy_update [OF assms(1)]
  show ?thesis
    using id
    by (auto simp: rtl8370mb_module_init_def w r u nil file_write_seq healthy_iso [OF assms(1)] healthy_learn [OF assms(1)]
        rtl_consts stp_val_eq init_file_def Let_def)
qed

lemma init_file_iso: "i < 11 \<Longrightarrow> init_file f (0x08A2 + of_nat i) = ucast (port_iso_mask i)"
proof -
  assume "i < 11"
  then have "i \<in> {0, 1, 2, 3, 4, 5, 6, 7, 8, 9, 10}" unfolding insert_iff empty_iff by presburger
  then show ?thesis by (elim insertE emptyE) (simp_all add: init_file_def Let_def upt_rec port_iso_mask_def NUM_PHY_PORTS_def EXT1_PORT_def)
qed

lemma bit_numerals: "bit (512 :: int) n \<longleftrightarrow> n = 9" "bit (16 :: int) n \<longleftrightarrow> n = 4"
  using bit_exp_iff [of 9 n, where 'a = int] bit_exp_iff [of 4 n, where 'a = int] by auto

lemma bit_port_mask: "j < 16 \<Longrightarrow> i < 11 \<Longrightarrow> bit (ucast (port_iso_mask i) :: u16) j \<longleftrightarrow> i \<in> active_ports \<and> j \<in> active_ports \<and> i \<noteq> j"
proof -
  have m: "(0x2FF :: u32) = mask 8 OR 512" by (simp add: mask_eq_exp_minus_1)
  assume j: "j < 16" and i: "i < 11"
  have "j \<in> active_ports \<longleftrightarrow> j < 8 \<or> j = 9" "i \<in> active_ports \<longleftrightarrow> i < 8 \<or> i = 9" by (auto simp: active_ports_def)
  then show ?thesis using j i unfolding port_iso_mask_def ALL_PORTS_MASK_def NUM_PHY_PORTS_def EXT1_PORT_def m
    by (auto simp: bit_simps bit_numerals)
qed

lemma init_file_mode: "init_file f 0x1305 = (f 0x1305 AND 0xFF00) OR 0x10"
proof -
  have m: "(0xF0 :: u32) = push_bit 4 (mask 4)" "(0xF :: u32) = mask 4"
    "(0xFF00 :: u16) = push_bit 8 (mask 8)" by (simp_all add: mask_eq_exp_minus_1)
  have "ucast (ucast (ucast ((ucast x AND NOT 0xF0) OR (0x10 :: u32)) :: u16) AND NOT (0xF :: u32)) = (x AND 0xFF00) OR (0x10 :: u16)" for x :: u16
    unfolding m by (rule bit_word_eqI) (auto simp: bit_simps bit_numerals)
  then show ?thesis by (simp add: init_file_def Let_def upt_rec)
qed

text \<open>
  C25: the initialised switch.  On a bus without errors and a supported chip, module initialisation succeeds and leaves the switch as intended: the
  eight LAN ports and the CPU port 9 can all send to one another and not to themselves, the ports 8 and 10 are cut off in both directions, all active ports
  forward, the CPU port is 9, its interface is forced to 1000 Mbit/s full duplex in RGMII mode, the other bits of the mode register above the two
  interface fields are kept, and the register protection is on again.
\<close>

theorem rtl_init_configures_switch:
  assumes "healthy s bus" "sw_file s 0x1300 \<in> {0x6368, 0x0801, 0x6367}"
  shows "\<exists>lg. rtl8370mb_module_init (Some bus) misc [] = (0, misc = 0, lg) \<and>
    (let f = file_after s lg in
     (\<forall>i < 11. \<forall>j < 16. bit (f (0x08A2 + of_nat i)) j \<longleftrightarrow> i \<in> active_ports \<and> j \<in> active_ports \<and> i \<noteq> j) \<and>
     f 0x0A00 = 0xFFFF \<and> f 0x0A01 = 0x000C \<and> f 0x1219 = 0x0200 \<and> f 0x121A = 0x000D \<and> f 0x1311 = 0x1016 \<and>
     f 0x1305 = (sw_file s 0x1305 AND 0xFF00) OR 0x10 \<and> f 0x13C2 = 0)"
proof -
  obtain lg where lg: "rtl8370mb_module_init (Some bus) misc [] = (0, misc = 0, lg)" "file_after s lg = init_file (sw_file s)"
    using init_healthy [OF assms] by blast
  have "init_file f 0x0A00 = 0xFFFF" "init_file f 0x0A01 = 0x000C" "init_file f 0x1219 = 0x0200" "init_file f 0x121A = 0x000D"
    "init_file f 0x1311 = 0x1016" "init_file f 0x13C2 = 0" for f
    by (simp_all add: init_file_def Let_def upt_rec)
  then show ?thesis
    using lg(1) init_file_iso bit_port_mask init_file_mode by (intro exI [of _ lg]) (simp add: lg(2))
qed

text \<open>A healthy bus: it answers as the switch does.\<close>

definition demo_switch :: smi_switch where
  "demo_switch = \<lparr>sw_addr = 0, sw_data = 0, sw_file = (\<lambda>_. 0)(0x1300 := 0x6368)\<rparr>"

definition demo_bus :: mdio_bus where
  "demo_bus lg op = (case op of MWrite r v \<Rightarrow> 0 | MRead r \<Rightarrow> uint (file_after demo_switch lg (sw_addr (sw_after demo_switch lg))))"

theorem rtl_init_configures_switch_witness:
  "\<exists>lg. rtl8370mb_module_init (Some demo_bus) 0 [] = (0, True, lg) \<and> file_after demo_switch lg 0x1311 = 0x1016"
proof -
  have "healthy demo_switch demo_bus" by (simp add: healthy_def demo_bus_def)
  from rtl_init_configures_switch [OF this, of 0] show ?thesis by (auto simp: demo_switch_def Let_def)
qed

end
