(* ===== verification/Eth_Hal.thy ===== *)
theory Eth_Hal
  imports Desc_Ring
begin

text \<open>
  The data path of the Ethernet HAL (\<open>al_hal_eth.h\<close>, \<open>al_hal_eth_main.c\<close>): packets with their metadata,
  transmit descriptors of a packet, doorbells, transmit completion, receive buffers and received packets.  Bit
  fields have the word type of their width; an enumeration that the code converts to an integer is that integer.  The
  build option \<open>AL_ETH_EX\<close> is not set, so a packet has at most 19 buffers and no extended metadata.
\<close>

subsection \<open>Constants\<close>

definition AL_ETH_PKT_MAX_BUFS :: u32 where "AL_ETH_PKT_MAX_BUFS = 19"

definition AL_ETH_PROTO_ID_UNKNOWN :: u32 where "AL_ETH_PROTO_ID_UNKNOWN = 0"
definition AL_ETH_PROTO_ID_IPv4 :: u32 where "AL_ETH_PROTO_ID_IPv4 = 8"
definition AL_ETH_PROTO_ID_IPv6 :: u32 where "AL_ETH_PROTO_ID_IPv6 = 11"
definition AL_ETH_PROTO_ID_TCP :: u32 where "AL_ETH_PROTO_ID_TCP = 12"
definition AL_ETH_PROTO_ID_UDP :: u32 where "AL_ETH_PROTO_ID_UDP = 13"

definition AL_ETH_TX_FLAGS_TSO :: u32 where "AL_ETH_TX_FLAGS_TSO = AL_BIT 7"
definition AL_ETH_TX_FLAGS_IPV4_L3_CSUM :: u32 where "AL_ETH_TX_FLAGS_IPV4_L3_CSUM = AL_BIT 13"
definition AL_ETH_TX_FLAGS_L4_CSUM :: u32 where "AL_ETH_TX_FLAGS_L4_CSUM = AL_BIT 14"
definition AL_ETH_TX_FLAGS_L4_PARTIAL_CSUM :: u32 where "AL_ETH_TX_FLAGS_L4_PARTIAL_CSUM = AL_BIT 17"
definition AL_ETH_TX_FLAGS_L2_MACSEC_PKT :: u32 where "AL_ETH_TX_FLAGS_L2_MACSEC_PKT = AL_BIT 16"
definition AL_ETH_TX_FLAGS_L2_DIS_FCS :: u32 where "AL_ETH_TX_FLAGS_L2_DIS_FCS = AL_BIT 15"
definition AL_ETH_TX_FLAGS_TS :: u32 where "AL_ETH_TX_FLAGS_TS = AL_BIT 21"
definition AL_ETH_TX_FLAGS_INT :: u32 where "AL_ETH_TX_FLAGS_INT = AL_M2S_DESC_INT_EN"
definition AL_ETH_TX_FLAGS_NO_SNOOP :: u32 where "AL_ETH_TX_FLAGS_NO_SNOOP = AL_M2S_DESC_NO_SNOOP_H"

definition AL_ETH_TX_PKT_UDMA_FLAGS :: u32 where
  "AL_ETH_TX_PKT_UDMA_FLAGS = AL_ETH_TX_FLAGS_NO_SNOOP OR AL_ETH_TX_FLAGS_INT"

definition AL_ETH_TX_PKT_META_FLAGS :: u32 where
  "AL_ETH_TX_PKT_META_FLAGS =
     AL_ETH_TX_FLAGS_IPV4_L3_CSUM OR AL_ETH_TX_FLAGS_L4_CSUM OR AL_ETH_TX_FLAGS_L4_PARTIAL_CSUM OR
     AL_ETH_TX_FLAGS_L2_MACSEC_PKT OR AL_ETH_TX_FLAGS_L2_DIS_FCS OR AL_ETH_TX_FLAGS_TSO OR AL_ETH_TX_FLAGS_TS"

definition AL_ETH_TX_SRC_VLAN_CNT_SHIFT :: nat where "AL_ETH_TX_SRC_VLAN_CNT_SHIFT = 5"
definition AL_ETH_TX_L4_PROTO_IDX_SHIFT :: nat where "AL_ETH_TX_L4_PROTO_IDX_SHIFT = 8"
definition AL_ETH_TX_TUNNEL_MODE_SHIFT :: nat where "AL_ETH_TX_TUNNEL_MODE_SHIFT = 18"
definition AL_ETH_TX_OUTER_L3_PROTO_SHIFT :: nat where "AL_ETH_TX_OUTER_L3_PROTO_SHIFT = 20"
definition AL_ETH_TX_VLAN_MOD_ADD_SHIFT :: nat where "AL_ETH_TX_VLAN_MOD_ADD_SHIFT = 22"
definition AL_ETH_TX_VLAN_MOD_DEL_SHIFT :: nat where "AL_ETH_TX_VLAN_MOD_DEL_SHIFT = 24"
definition AL_ETH_TX_VLAN_MOD_E_SEL_SHIFT :: nat where "AL_ETH_TX_VLAN_MOD_E_SEL_SHIFT = 26"
definition AL_ETH_TX_VLAN_MOD_VID_SEL_SHIFT :: nat where "AL_ETH_TX_VLAN_MOD_VID_SEL_SHIFT = 28"
definition AL_ETH_TX_VLAN_MOD_PBIT_SEL_SHIFT :: nat where "AL_ETH_TX_VLAN_MOD_PBIT_SEL_SHIFT = 30"

definition AL_ETH_TX_META_STORE :: u32 where "AL_ETH_TX_META_STORE = push_bit 21 1"
definition AL_ETH_TX_META_L3_LEN_MASK :: u32 where "AL_ETH_TX_META_L3_LEN_MASK = 0xff"
definition AL_ETH_TX_META_L3_OFF_MASK :: u32 where "AL_ETH_TX_META_L3_OFF_MASK = 0xff"
definition AL_ETH_TX_META_L3_OFF_SHIFT :: nat where "AL_ETH_TX_META_L3_OFF_SHIFT = 8"
definition AL_ETH_TX_META_MSS_LSB_VAL_SHIFT :: nat where "AL_ETH_TX_META_MSS_LSB_VAL_SHIFT = 22"
definition AL_ETH_TX_META_MSS_MSB_TS_VAL_SHIFT :: nat where "AL_ETH_TX_META_MSS_MSB_TS_VAL_SHIFT = 16"
definition AL_ETH_TX_META_OUTER_L3_LEN_MASK :: u32 where "AL_ETH_TX_META_OUTER_L3_LEN_MASK = 0x1f"
definition AL_ETH_TX_META_OUTER_L3_LEN_SHIFT :: nat where "AL_ETH_TX_META_OUTER_L3_LEN_SHIFT = 24"
definition AL_ETH_TX_META_OUTER_L3_OFF_HIGH_MASK :: u32 where "AL_ETH_TX_META_OUTER_L3_OFF_HIGH_MASK = 0x18"
definition AL_ETH_TX_META_OUTER_L3_OFF_HIGH_SHIFT :: nat where "AL_ETH_TX_META_OUTER_L3_OFF_HIGH_SHIFT = 10"
definition AL_ETH_TX_META_OUTER_L3_OFF_LOW_MASK :: u32 where "AL_ETH_TX_META_OUTER_L3_OFF_LOW_MASK = 0x07"
definition AL_ETH_TX_META_OUTER_L3_OFF_LOW_SHIFT :: nat where "AL_ETH_TX_META_OUTER_L3_OFF_LOW_SHIFT = 29"

definition AL_ETH_RX_FLAGS_TGTID_MASK :: u32 where "AL_ETH_RX_FLAGS_TGTID_MASK = AL_FIELD_MASK 15 0"
definition AL_ETH_RX_FLAGS_INT :: u32 where "AL_ETH_RX_FLAGS_INT = AL_M2S_DESC_INT_EN"
definition AL_ETH_RX_ERROR :: u32 where "AL_ETH_RX_ERROR = AL_BIT 16"
definition AL_ETH_RX_FLAGS_L4_CSUM_ERR :: u32 where "AL_ETH_RX_FLAGS_L4_CSUM_ERR = AL_BIT 14"
definition AL_ETH_RX_FLAGS_L3_CSUM_ERR :: u32 where "AL_ETH_RX_FLAGS_L3_CSUM_ERR = AL_BIT 13"

definition AL_ETH_RX_L3_PROTO_IDX_MASK :: u32 where "AL_ETH_RX_L3_PROTO_IDX_MASK = 0x1F"
definition AL_ETH_RX_L4_PROTO_IDX_MASK :: u32 where "AL_ETH_RX_L4_PROTO_IDX_MASK = 0x1F"
definition AL_ETH_RX_L4_PROTO_IDX_SHIFT :: nat where "AL_ETH_RX_L4_PROTO_IDX_SHIFT = 8"
definition AL_ETH_RX_L3_OFFSET_SHIFT :: nat where "AL_ETH_RX_L3_OFFSET_SHIFT = 9"
definition AL_ETH_RX_L3_OFFSET_MASK :: u32 where "AL_ETH_RX_L3_OFFSET_MASK = push_bit AL_ETH_RX_L3_OFFSET_SHIFT 0x7f"
definition AL_ETH_RX_HASH_SHIFT :: nat where "AL_ETH_RX_HASH_SHIFT = 16"
definition AL_ETH_RX_HASH_MASK :: u32 where "AL_ETH_RX_HASH_MASK = push_bit AL_ETH_RX_HASH_SHIFT 0xffff"

definition AL_S2M_DESC_LEN2_SHIFT :: nat where "AL_S2M_DESC_LEN2_SHIFT = 16"
definition AL_S2M_DESC_LEN2_MASK :: u32 where "AL_S2M_DESC_LEN2_MASK = push_bit AL_S2M_DESC_LEN2_SHIFT 0x3fff"
definition AL_S2M_DESC_LEN2_GRANULARITY_SHIFT :: nat where "AL_S2M_DESC_LEN2_GRANULARITY_SHIFT = 6"
definition AL_UDMA_CDESC_BUF1_USED :: u32 where "AL_UDMA_CDESC_BUF1_USED = AL_BIT 30"
definition AL_UDMA_CDESC_DDP :: u32 where "AL_UDMA_CDESC_DDP = AL_BIT 29"
definition AL_UDMA_CDESC_BUF2_USED :: u32 where "AL_UDMA_CDESC_BUF2_USED = AL_BIT 31"

lemmas eth_flag_consts = AL_ETH_TX_FLAGS_TSO_def AL_ETH_TX_FLAGS_IPV4_L3_CSUM_def AL_ETH_TX_FLAGS_L4_CSUM_def
  AL_ETH_TX_FLAGS_L4_PARTIAL_CSUM_def AL_ETH_TX_FLAGS_L2_MACSEC_PKT_def AL_ETH_TX_FLAGS_L2_DIS_FCS_def
  AL_ETH_TX_FLAGS_TS_def AL_ETH_TX_FLAGS_INT_def AL_ETH_TX_FLAGS_NO_SNOOP_def AL_ETH_TX_PKT_UDMA_FLAGS_def
  AL_ETH_TX_PKT_META_FLAGS_def

lemmas eth_shift_consts = AL_ETH_TX_SRC_VLAN_CNT_SHIFT_def AL_ETH_TX_L4_PROTO_IDX_SHIFT_def AL_ETH_TX_TUNNEL_MODE_SHIFT_def
  AL_ETH_TX_OUTER_L3_PROTO_SHIFT_def AL_ETH_TX_VLAN_MOD_ADD_SHIFT_def AL_ETH_TX_VLAN_MOD_DEL_SHIFT_def
  AL_ETH_TX_VLAN_MOD_E_SEL_SHIFT_def AL_ETH_TX_VLAN_MOD_VID_SEL_SHIFT_def AL_ETH_TX_VLAN_MOD_PBIT_SEL_SHIFT_def

lemmas eth_meta_consts = AL_ETH_TX_META_STORE_def AL_ETH_TX_META_L3_LEN_MASK_def AL_ETH_TX_META_L3_OFF_MASK_def
  AL_ETH_TX_META_L3_OFF_SHIFT_def AL_ETH_TX_META_MSS_LSB_VAL_SHIFT_def AL_ETH_TX_META_MSS_MSB_TS_VAL_SHIFT_def
  AL_ETH_TX_META_OUTER_L3_LEN_MASK_def AL_ETH_TX_META_OUTER_L3_LEN_SHIFT_def AL_ETH_TX_META_OUTER_L3_OFF_HIGH_MASK_def
  AL_ETH_TX_META_OUTER_L3_OFF_HIGH_SHIFT_def AL_ETH_TX_META_OUTER_L3_OFF_LOW_MASK_def AL_ETH_TX_META_OUTER_L3_OFF_LOW_SHIFT_def

subsection \<open>Packets\<close>

record al_eth_meta_data =
  md_store :: "1 word"
  words_valid :: "4 word"
  vlan1_cfi_sel :: "2 word"
  vlan2_vid_sel :: "2 word"
  vlan2_cfi_sel :: "2 word"
  vlan2_pbits_sel :: "2 word"
  vlan2_ether_sel :: "2 word"
  vlan1_new_vid :: "12 word"
  vlan1_new_cfi :: "1 word"
  vlan1_new_pbits :: "3 word"
  vlan2_new_vid :: "12 word"
  vlan2_new_cfi :: "1 word"
  vlan2_new_pbits :: "3 word"
  l3_header_len :: u8
  l3_header_offset :: u8
  l4_header_len :: u8
  mss_idx_sel :: "3 word"
  ts_index :: "4 word"
  mss_val :: "14 word"
  outer_l3_offset :: u8
  outer_l3_len :: u8

record al_eth_pkt =
  pkt_flags :: u32
  l3_proto_idx :: u32
  l4_proto_idx :: u32
  source_vlan_count :: "2 word"
  vlan_mod_add_count :: "2 word"
  vlan_mod_del_count :: "2 word"
  vlan_mod_v1_ether_sel :: "2 word"
  vlan_mod_v1_vid_sel :: "2 word"
  vlan_mod_v1_pbits_sel :: "2 word"
  tunnel_mode :: u32
  outer_l3_proto_idx :: u32
  pkt_tgtid :: u16
  rx_header_len :: u32
  pkt_meta :: "al_eth_meta_data option"
  rxhash :: u16
  pkt_l3_offset :: u16
  num_of_bufs :: u8
  pkt_bufs :: "al_buf list"

text \<open>The Ethernet view of a 16-byte completion descriptor.\<close>

record al_eth_rx_cdesc =
  rxc_ctrl_meta :: u32
  rxc_len :: u32
  rxc_word2 :: u32
  rxc_word3 :: u32

subsection \<open>Transmission\<close>

text \<open>
  The four words of the metadata descriptor.  \<open>flags\<close> is the running flag word of the packet, \<open>ring_id\<close> the
  shifted ring id, \<open>pflags\<close> the flags of the packet.
\<close>

definition eth_meta_words :: "u32 \<Rightarrow> u32 \<Rightarrow> u32 \<Rightarrow> al_eth_meta_data \<Rightarrow> u32 \<times> u32 \<times> u32 \<times> u32" where
  "eth_meta_words flags ring_id pflags md =
     (let w0 = 0; w1 = 0; w2 = 0; w3 = 0;
          w0 = w0 OR (flags OR AL_M2S_DESC_META_DATA);
          w0 = AL_REG_MASK_CLEAR w0 AL_M2S_DESC_CONCAT;
          w0 = w0 OR ring_id;
          w0 = w0 OR push_bit 12 (ucast (words_valid md));
          w0 = (if md_store md \<noteq> 0 then w0 OR AL_ETH_TX_META_STORE else w0);
          w0 = (if words_valid md AND 1 \<noteq> 0 then
                  w0 OR ucast (vlan1_cfi_sel md) OR push_bit 2 (ucast (vlan2_vid_sel md)) OR
                  push_bit 4 (ucast (vlan2_cfi_sel md)) OR push_bit 6 (ucast (vlan2_pbits_sel md)) OR
                  push_bit 8 (ucast (vlan2_ether_sel md))
                else w0);
          w1 = (if words_valid md AND 2 \<noteq> 0 then
                  ucast (vlan1_new_vid md) OR push_bit 12 (ucast (vlan1_new_cfi md)) OR
                  push_bit 13 (ucast (vlan1_new_pbits md)) OR push_bit 16 (ucast (vlan2_new_vid md)) OR
                  push_bit 28 (ucast (vlan2_new_cfi md)) OR push_bit 29 (ucast (vlan2_new_pbits md))
                else w1)
      in if words_valid md AND 4 \<noteq> 0 then
           let w2 = ucast (l3_header_len md) AND AL_ETH_TX_META_L3_LEN_MASK;
               w2 = w2 OR push_bit AL_ETH_TX_META_L3_OFF_SHIFT (ucast (l3_header_offset md) AND AL_ETH_TX_META_L3_OFF_MASK);
               w2 = w2 OR push_bit 16 (ucast (l4_header_len md) AND 0x3f);
               w0 = (if pflags AND AL_ETH_TX_FLAGS_TS \<noteq> 0
                     then w0 OR push_bit AL_ETH_TX_META_MSS_MSB_TS_VAL_SHIFT (ucast (ts_index md))
                     else w0 OR push_bit AL_ETH_TX_META_MSS_MSB_TS_VAL_SHIFT (drop_bit 10 (ucast (mss_val md) AND 0x3c00)));
               w2 = w2 OR push_bit AL_ETH_TX_META_MSS_LSB_VAL_SHIFT (ucast (mss_val md) AND 0x03ff);
               l3_offset = drop_bit 1 (ucast (outer_l3_offset md));
               w0 = w0 OR push_bit AL_ETH_TX_META_OUTER_L3_OFF_HIGH_SHIFT
                            (drop_bit 3 (l3_offset AND AL_ETH_TX_META_OUTER_L3_OFF_HIGH_MASK));
               w3 = w3 OR push_bit AL_ETH_TX_META_OUTER_L3_OFF_LOW_SHIFT
                            (l3_offset AND AL_ETH_TX_META_OUTER_L3_OFF_LOW_MASK);
               w3 = w3 OR push_bit AL_ETH_TX_META_OUTER_L3_LEN_SHIFT
                            (drop_bit 2 (ucast (outer_l3_len md)) AND AL_ETH_TX_META_OUTER_L3_LEN_MASK)
           in (w0, w1, w2, w3)
         else (w0, w1, w2, w3))"

text \<open>The metadata descriptor; the running flags lose FIRST and INT afterwards.\<close>

definition eth_tx_meta_put :: "u32 \<Rightarrow> al_eth_meta_data \<Rightarrow> u32 \<Rightarrow> al_udma_q \<times> desc_mem \<Rightarrow> u32 \<times> al_udma_q \<times> desc_mem" where
  "eth_tx_meta_put pflags md flags = (\<lambda>(q, mem).
     let (tx_desc, q) = al_udma_desc_get q;
         (rid, q) = al_udma_ring_id_get q;
         ring_id = push_bit AL_M2S_DESC_RING_ID_SHIFT rid;
         (w0, w1, w2, w3) = eth_meta_words flags ring_id pflags md;
         flags = AL_REG_MASK_CLEAR flags (AL_M2S_DESC_FIRST OR AL_ETH_TX_FLAGS_INT)
     in (flags, q, mem(tx_desc := (mem tx_desc)\<lparr>len_ctrl := w0, meta_ctrl := w1, buf_ptr := tx_meta_ptr w2 w3\<rparr>)))"

text \<open>The control word of the packet, written with its first buffer.\<close>

definition eth_tx_meta_ctrl :: "al_eth_pkt \<Rightarrow> u32" where
  "eth_tx_meta_ctrl pkt =
     (let m = pkt_flags pkt AND AL_ETH_TX_PKT_META_FLAGS;
          m = m OR l3_proto_idx pkt;
          m = m OR push_bit AL_ETH_TX_L4_PROTO_IDX_SHIFT (l4_proto_idx pkt);
          m = m OR push_bit AL_ETH_TX_SRC_VLAN_CNT_SHIFT (ucast (source_vlan_count pkt));
          m = m OR push_bit AL_ETH_TX_VLAN_MOD_ADD_SHIFT (ucast (vlan_mod_add_count pkt));
          m = m OR push_bit AL_ETH_TX_VLAN_MOD_DEL_SHIFT (ucast (vlan_mod_del_count pkt));
          m = m OR push_bit AL_ETH_TX_VLAN_MOD_E_SEL_SHIFT (ucast (vlan_mod_v1_ether_sel pkt));
          m = m OR push_bit AL_ETH_TX_VLAN_MOD_VID_SEL_SHIFT (ucast (vlan_mod_v1_vid_sel pkt));
          m = m OR push_bit AL_ETH_TX_VLAN_MOD_PBIT_SEL_SHIFT (ucast (vlan_mod_v1_pbits_sel pkt));
          m = m OR push_bit AL_ETH_TX_TUNNEL_MODE_SHIFT (tunnel_mode pkt)
      in if outer_l3_proto_idx pkt = AL_ETH_PROTO_ID_IPv4 then m OR push_bit AL_ETH_TX_OUTER_L3_PROTO_SHIFT 1 else m)"

text \<open>One buffer: \<open>n\<close> is the number of buffers, \<open>i\<close> the index of this one, \<open>flags\<close> the running flags.\<close>

definition eth_tx_buf_put :: "u32 \<Rightarrow> u64 \<Rightarrow> nat \<Rightarrow> nat \<Rightarrow> al_buf \<Rightarrow> u32 \<Rightarrow> al_udma_q \<times> desc_mem \<Rightarrow> al_udma_q \<times> desc_mem" where
  "eth_tx_buf_put mctrl tgt n i buf flags = (\<lambda>(q, mem).
     let flags_len = flags;
         (tx_desc, q) = al_udma_desc_get q;
         (rid, q) = al_udma_ring_id_get q;
         ring_id = push_bit AL_M2S_DESC_RING_ID_SHIFT rid;
         flags_len = flags_len OR ring_id;
         flags_len = (if i = n - 1 then flags_len OR AL_M2S_DESC_LAST else flags_len);
         flags_len = flags_len OR (buf_len buf AND AL_M2S_DESC_LEN_MASK);
         d = (mem tx_desc)\<lparr>len_ctrl := flags_len\<rparr>;
         d = (if i = 0 then d\<lparr>meta_ctrl := mctrl\<rparr> else d)
     in (q, mem(tx_desc := d\<lparr>buf_ptr := buf_addr buf OR tgt\<rparr>)))"

fun eth_tx_bufs_loop :: "u32 \<Rightarrow> u64 \<Rightarrow> nat \<Rightarrow> nat \<Rightarrow> al_buf list \<Rightarrow> u32 \<Rightarrow> al_udma_q \<times> desc_mem \<Rightarrow> al_udma_q \<times> desc_mem" where
  "eth_tx_bufs_loop mctrl tgt n i [] flags s = s"
| "eth_tx_bufs_loop mctrl tgt n i (buf # bs) flags s =
     (let s = eth_tx_buf_put mctrl tgt n i buf flags s;
          flags = flags AND AL_ETH_TX_FLAGS_NO_SNOOP;
          flags = flags OR AL_M2S_DESC_CONCAT
      in eth_tx_bufs_loop mctrl tgt n (Suc i) bs flags s)"

text \<open>The result is the number of descriptors (0 when the ring has no room), the queue and descriptor memory.\<close>

definition al_eth_tx_pkt_prepare :: "al_eth_pkt \<Rightarrow> al_udma_q \<times> desc_mem \<Rightarrow> (u32 \<times> al_udma_q \<times> desc_mem) option" where
  "al_eth_tx_pkt_prepare pkt s =
     (let flags = AL_M2S_DESC_FIRST OR AL_M2S_DESC_CONCAT OR (pkt_flags pkt AND AL_ETH_TX_FLAGS_INT);
          tgt = push_bit AL_UDMA_DESC_TGTID_SHIFT (ucast (pkt_tgtid pkt)) :: u64;
          tx_descs = ucast (num_of_bufs pkt);
          tx_descs = (if pkt_meta pkt \<noteq> None then tx_descs + 1 else tx_descs)
      in if al_udma_available_get (fst s) < tx_descs then Some (0, s)
         else
           let (flags, s) = (case pkt_meta pkt of None \<Rightarrow> (flags, s) | Some md \<Rightarrow> eth_tx_meta_put (pkt_flags pkt) md flags s)
           in do {
             al_assert (pkt_flags pkt AND (AL_ETH_TX_FLAGS_L4_CSUM OR AL_ETH_TX_FLAGS_L4_PARTIAL_CSUM) \<noteq> AL_ETH_TX_FLAGS_L4_PARTIAL_CSUM);
             al_assert (pkt_flags pkt AND (AL_ETH_TX_FLAGS_TSO OR AL_ETH_TX_FLAGS_TS) \<noteq> AL_ETH_TX_FLAGS_TSO OR AL_ETH_TX_FLAGS_TS);
             let flags = flags OR (pkt_flags pkt AND AL_ETH_TX_PKT_UDMA_FLAGS);
             let n = unat (num_of_bufs pkt);
             Some (tx_descs, eth_tx_bufs_loop (eth_tx_meta_ctrl pkt) tgt n 0 (take n (pkt_bufs pkt)) flags s) })"

definition al_eth_tx_dma_action :: "al_udma_q \<Rightarrow> u32 \<Rightarrow> mmio \<Rightarrow> mmio option" where
  "al_eth_tx_dma_action q tx_descs m = al_udma_desc_action_add q tx_descs m"

text \<open>\<open>crhp\<close> is the completion head register at the time of the read.\<close>

definition al_eth_comp_tx_get :: "al_udma_q \<Rightarrow> u32 \<Rightarrow> u32 \<times> al_udma_q" where
  "al_eth_comp_tx_get q crhp =
     (let (rc, _, q) = al_udma_cdesc_get_all q crhp False
      in if rc \<noteq> 0 then (rc, al_udma_cdesc_ack q rc) else (rc, q))"

subsection \<open>Reception\<close>

definition al_eth_rx_buffer_add ::
  "al_udma \<Rightarrow> al_buf \<Rightarrow> u32 \<Rightarrow> al_buf option \<Rightarrow> al_udma_q \<times> desc_mem \<Rightarrow> (rc \<times> al_udma_q \<times> desc_mem) option" where
  "al_eth_rx_buffer_add u buf flags header_buf = (\<lambda>(q, mem).
     let tgt = push_bit AL_UDMA_DESC_TGTID_SHIFT (ucast (flags AND AL_ETH_RX_FLAGS_TGTID_MASK)) :: u64;
         flags_len = AL_REG_MASK_CLEAR flags AL_ETH_RX_FLAGS_TGTID_MASK
     in if al_udma_available_get q < 1 then Some (RcErr ENOSPC, q, mem)
        else
          let (rx_desc, q) = al_udma_desc_get q;
              (rid, q) = al_udma_ring_id_get q;
              flags_len = flags_len OR push_bit AL_S2M_DESC_RING_ID_SHIFT rid;
              flags_len = flags_len OR (buf_len buf AND AL_S2M_DESC_LEN_MASK);
              d = mem rx_desc
          in do {
            (flags_len, d) \<leftarrow>
              (if flags AND AL_S2M_DESC_DUAL_BUF \<noteq> 0 then do {
                 hb \<leftarrow> header_buf;
                 al_assert (AL_UDMA_REV_ID_2 \<le> udma_rev_id u \<or> AL_ADDR_HIGH (buf_addr buf) = AL_ADDR_HIGH (buf_addr hb));
                 Some (flags_len OR (push_bit AL_S2M_DESC_LEN2_SHIFT (drop_bit AL_S2M_DESC_LEN2_GRANULARITY_SHIFT (buf_len hb))
                                     AND AL_S2M_DESC_LEN2_MASK),
                       d\<lparr>meta_ctrl := AL_ADDR_LOW (buf_addr hb)\<rparr>) }
               else Some (flags_len, d));
            Some (RcOk, q, mem(rx_desc := d\<lparr>len_ctrl := flags_len, buf_ptr := buf_addr buf OR tgt\<rparr>)) })"

definition al_eth_rx_buffer_action :: "al_udma_q \<Rightarrow> u32 \<Rightarrow> mmio \<Rightarrow> mmio option" where
  "al_eth_rx_buffer_action q descs_num m = al_udma_desc_action_add q descs_num m"

text \<open>
  \<open>cmem\<close> is the completion ring.  The loop keeps the descriptor read last; its initial value is not used
  because a packet has at least one descriptor.
\<close>

definition rx_buf_get :: "al_eth_rx_cdesc \<Rightarrow> nat \<Rightarrow> al_eth_pkt \<Rightarrow> al_eth_pkt" where
  "rx_buf_get rx_desc i pkt =
     (let buf1_len = rxc_len rx_desc;
          pkt = (if i = 0 \<and> rxc_word2 rx_desc AND AL_UDMA_CDESC_BUF2_USED \<noteq> 0
                 then pkt\<lparr>rx_header_len := drop_bit AL_S2M_DESC_LEN2_SHIFT (rxc_word2 rx_desc AND AL_S2M_DESC_LEN2_MASK)\<rparr>
                 else pkt);
          len = (if rxc_ctrl_meta rx_desc AND AL_UDMA_CDESC_BUF1_USED \<noteq> 0 \<and> rxc_ctrl_meta rx_desc AND AL_UDMA_CDESC_DDP = 0
                 then buf1_len AND AL_S2M_DESC_LEN_MASK else 0)
      in pkt\<lparr>pkt_bufs := (pkt_bufs pkt)[i := (pkt_bufs pkt ! i)\<lparr>buf_len := len\<rparr>]\<rparr>)"

fun pkt_rx_loop :: "(ptr \<Rightarrow> al_eth_rx_cdesc) \<Rightarrow> al_udma_q \<Rightarrow> ptr \<Rightarrow> nat \<Rightarrow> nat \<Rightarrow> al_eth_rx_cdesc \<times> al_eth_pkt \<Rightarrow> (al_eth_rx_cdesc \<times> al_eth_pkt) option" where
  "pkt_rx_loop cmem q cdesc i 0 s = Some s"
| "pkt_rx_loop cmem q cdesc i (Suc n) (_, pkt) =
     do { p \<leftarrow> al_cdesc_next q cdesc (of_nat i);
          pkt_rx_loop cmem q cdesc (Suc i) n (cmem p, rx_buf_get (cmem p) i pkt) }"

definition al_eth_pkt_rx :: "(ptr \<Rightarrow> al_eth_rx_cdesc) \<Rightarrow> al_udma_q \<Rightarrow> al_eth_pkt \<Rightarrow> (u32 \<times> al_udma_q \<times> al_eth_pkt) option" where
  "al_eth_pkt_rx cmem q pkt =
     do { (rc, cdesc, q) \<leftarrow> al_udma_cdesc_packet_get (\<lambda>p. rxc_ctrl_meta (cmem p)) q;
          if rc = 0 then Some (0, q, pkt)
          else do {
            al_assert (rc \<le> AL_ETH_PKT_MAX_BUFS);
            cdesc \<leftarrow> cdesc;
            (rx_desc, pkt) \<leftarrow> pkt_rx_loop cmem q cdesc 0 (unat rc) (cmem cdesc, pkt\<lparr>rx_header_len := 0\<rparr>);
            let pkt = pkt\<lparr>pkt_flags := rxc_ctrl_meta rx_desc\<rparr>;
            let pkt = pkt\<lparr>l3_proto_idx := pkt_flags pkt AND AL_ETH_RX_L3_PROTO_IDX_MASK,
                          l4_proto_idx := drop_bit AL_ETH_RX_L4_PROTO_IDX_SHIFT (pkt_flags pkt) AND AL_ETH_RX_L4_PROTO_IDX_MASK,
                          rxhash := ucast (drop_bit AL_ETH_RX_HASH_SHIFT (rxc_len rx_desc AND AL_ETH_RX_HASH_MASK)),
                          pkt_l3_offset := ucast (drop_bit AL_ETH_RX_L3_OFFSET_SHIFT (rxc_word2 rx_desc AND AL_ETH_RX_L3_OFFSET_MASK))\<rparr>;
            Some (rc, al_udma_cdesc_ack q rc, pkt) } }"

end
