(* ===== verification/Eth_Hal_Props.thy ===== *)
theory Eth_Hal_Props
  imports Eth_Hal
begin

text \<open>
  Correctness of the Ethernet data path: the descriptors of a transmitted packet, the packing of its metadata, the
  posting of receive buffers and the packets fetched from the completion ring.  The loops are shown to be
  groups of submissions (\<open>desc_puts\<close>), so that the ring facts of \<open>Desc_Ring\<close> apply.
\<close>

subsection \<open>Transmit descriptors\<close>

text \<open>
  What the descriptors of a packet should hold.  Every buffer descriptor is concatenated to the one before and keeps the
  no-snoop choice; FIRST and LAST delimit the packet; the control word goes with the first buffer.
\<close>

definition eth_buf_flags :: "al_eth_pkt \<Rightarrow> nat \<Rightarrow> u32" where
  "eth_buf_flags pkt i =
     AL_M2S_DESC_CONCAT OR (pkt_flags pkt AND AL_ETH_TX_FLAGS_NO_SNOOP) OR
     (if i = 0 then pkt_flags pkt AND AL_ETH_TX_FLAGS_INT else 0) OR
     (if i = 0 \<and> pkt_meta pkt = None then AL_M2S_DESC_FIRST else 0)"

definition eth_buf_desc :: "al_eth_pkt \<Rightarrow> nat \<Rightarrow> u32 \<Rightarrow> al_udma_desc \<Rightarrow> al_udma_desc" where
  "eth_buf_desc pkt i rid old =
     \<lparr>len_ctrl = eth_buf_flags pkt i OR push_bit 24 rid OR (if i = unat (num_of_bufs pkt) - 1 then AL_M2S_DESC_LAST else 0) OR
        (buf_len (pkt_bufs pkt ! i) AND AL_M2S_DESC_LEN_MASK),
      meta_ctrl = (if i = 0 then eth_tx_meta_ctrl pkt else meta_ctrl old),
      buf_ptr = buf_addr (pkt_bufs pkt ! i) OR push_bit 48 (ucast (pkt_tgtid pkt))\<rparr>"

definition eth_meta_desc :: "al_eth_pkt \<Rightarrow> al_eth_meta_data \<Rightarrow> u32 \<Rightarrow> al_udma_desc \<Rightarrow> al_udma_desc" where
  "eth_meta_desc pkt md rid old =
     (let (w0, w1, w2, w3) = eth_meta_words (AL_M2S_DESC_FIRST OR AL_M2S_DESC_CONCAT OR (pkt_flags pkt AND AL_ETH_TX_FLAGS_INT))
            (push_bit 24 rid) (pkt_flags pkt) md
      in \<lparr>len_ctrl = w0, meta_ctrl = w1, buf_ptr = tx_meta_ptr w2 w3\<rparr>)"

definition eth_pkt_descs :: "al_eth_pkt \<Rightarrow> (u32 \<Rightarrow> al_udma_desc \<Rightarrow> al_udma_desc) list" where
  "eth_pkt_descs pkt =
     (case pkt_meta pkt of None \<Rightarrow> [] | Some md \<Rightarrow> [eth_meta_desc pkt md]) @ map (eth_buf_desc pkt) [0..<unat (num_of_bufs pkt)]"

text \<open>The flag combinations that the code accepts, and a packet whose buffer count fits its array.\<close>

definition eth_pkt_ok :: "al_eth_pkt \<Rightarrow> bool" where
  "eth_pkt_ok pkt \<longleftrightarrow> unat (num_of_bufs pkt) \<le> length (pkt_bufs pkt) \<and>
     \<not> (AL_REG_MASK_IS_SET (pkt_flags pkt) AL_ETH_TX_FLAGS_L4_PARTIAL_CSUM \<and> \<not> AL_REG_MASK_IS_SET (pkt_flags pkt) AL_ETH_TX_FLAGS_L4_CSUM) \<and>
     \<not> (AL_REG_MASK_IS_SET (pkt_flags pkt) AL_ETH_TX_FLAGS_TSO \<and> AL_REG_MASK_IS_SET (pkt_flags pkt) AL_ETH_TX_FLAGS_TS)"

lemma and_AL_BIT: "x AND AL_BIT k = (if bit x k then AL_BIT k else 0)" for x :: u32
  by (rule bit_word_eqI) (auto simp: bit_simps)

lemma u32_eq_iff: "x = y \<longleftrightarrow> (\<forall>n<32. bit x n \<longleftrightarrow> bit y n)" for x y :: u32
  using bit_word_eqI [of x y] by auto

lemma AL_BIT_eq_0 [simp]: "AL_BIT k = (0 :: u32) \<longleftrightarrow> 32 \<le> k"
  by (auto simp: u32_eq_iff bit_AL_BIT not_less [symmetric])

lemma or_AL_BIT_eq:
  assumes "j < 32" "k < 32" "j \<noteq> k"
  shows "x AND (AL_BIT j OR AL_BIT k) = (AL_BIT k :: u32) \<longleftrightarrow> bit x k \<and> \<not> bit x j"
    "x AND (AL_BIT j OR AL_BIT k) = (AL_BIT j OR AL_BIT k :: u32) \<longleftrightarrow> bit x k \<and> bit x j"
  using assms by (auto simp: u32_eq_iff bit_AL_BIT bit_and_iff bit_or_iff)

lemma eth_pkt_ok_flags:
  "eth_pkt_ok pkt \<longleftrightarrow> unat (num_of_bufs pkt) \<le> length (pkt_bufs pkt) \<and>
     pkt_flags pkt AND (AL_ETH_TX_FLAGS_L4_CSUM OR AL_ETH_TX_FLAGS_L4_PARTIAL_CSUM) \<noteq> AL_ETH_TX_FLAGS_L4_PARTIAL_CSUM \<and>
     pkt_flags pkt AND (AL_ETH_TX_FLAGS_TSO OR AL_ETH_TX_FLAGS_TS) \<noteq> AL_ETH_TX_FLAGS_TSO OR AL_ETH_TX_FLAGS_TS"
  unfolding eth_pkt_ok_def AL_REG_MASK_IS_SET_def eth_flag_consts by (simp add: and_AL_BIT or_AL_BIT_eq)

lemma eth_buf_flags_next:
  "(eth_buf_flags pkt i AND AL_ETH_TX_FLAGS_NO_SNOOP) OR AL_M2S_DESC_CONCAT = eth_buf_flags pkt (Suc i)"
  unfolding eth_buf_flags_def eth_flag_consts desc_consts by (rule bit_word_eqI) (auto simp: bit_simps)

lemma eth_buf_put_eq:
  assumes "i < unat (num_of_bufs pkt)"
  shows "eth_tx_buf_put (eth_tx_meta_ctrl pkt) (push_bit 48 (ucast (pkt_tgtid pkt))) (unat (num_of_bufs pkt)) i
    (pkt_bufs pkt ! i) (eth_buf_flags pkt i) = desc_put (eth_buf_desc pkt i)"
  unfolding eth_tx_buf_put_def desc_put_def eth_buf_desc_def AL_M2S_DESC_RING_ID_SHIFT_def
  by (auto simp: Let_def split_def fun_eq_iff or.assoc)

lemma eth_bufs_loop_eq:
  assumes "i \<le> n" "n = unat (num_of_bufs pkt)" "n \<le> length (pkt_bufs pkt)"
  shows "eth_tx_bufs_loop (eth_tx_meta_ctrl pkt) (push_bit 48 (ucast (pkt_tgtid pkt))) n i
    (drop i (take n (pkt_bufs pkt))) (eth_buf_flags pkt i) s = desc_puts (map (eth_buf_desc pkt) [i..<n]) s"
  using assms(1)
proof (induction i arbitrary: s rule: inc_induct)
  case base
  then show ?case by simp
next
  case (step i)
  have d: "drop i (take n (pkt_bufs pkt)) = (pkt_bufs pkt ! i) # drop (Suc i) (take n (pkt_bufs pkt))"
    using step assms(3) by (simp add: Cons_nth_drop_Suc [symmetric])
  have u: "[i..<n] = i # [Suc i..<n]" using step by (simp add: upt_conv_Cons)
  show ?case unfolding d u
    using step eth_buf_put_eq [of i pkt] assms(2) by (simp add: eth_buf_flags_next)
qed

lemma eth_meta_put_eq:
  "eth_tx_meta_put (pkt_flags pkt) md (AL_M2S_DESC_FIRST OR AL_M2S_DESC_CONCAT OR (pkt_flags pkt AND AL_ETH_TX_FLAGS_INT)) s =
     (AL_M2S_DESC_CONCAT, desc_put (eth_meta_desc pkt md) s)"
proof -
  have "AL_REG_MASK_CLEAR (AL_M2S_DESC_FIRST OR AL_M2S_DESC_CONCAT OR (pkt_flags pkt AND AL_ETH_TX_FLAGS_INT))
      (AL_M2S_DESC_FIRST OR AL_ETH_TX_FLAGS_INT) = AL_M2S_DESC_CONCAT"
    unfolding AL_REG_MASK_CLEAR_def AL_REG_MASK_SET_VAL_def eth_flag_consts desc_consts
    by (rule bit_word_eqI) (auto simp: bit_simps)
  then show ?thesis
    unfolding eth_tx_meta_put_def desc_put_def eth_meta_desc_def AL_M2S_DESC_RING_ID_SHIFT_def
    by (auto simp: Let_def split_def fun_eq_iff)
qed

lemma length_eth_pkt_descs:
  "length (eth_pkt_descs pkt) = unat (num_of_bufs pkt) + (if pkt_meta pkt = None then 0 else 1)"
  by (simp add: eth_pkt_descs_def split: option.split)

lemma eth_descs_count:
  "(if pkt_meta pkt \<noteq> None then ucast (num_of_bufs pkt) + 1 else ucast (num_of_bufs pkt) :: u32) =
     of_nat (length (eth_pkt_descs pkt))"
  "length (eth_pkt_descs pkt) \<le> 256"
  "unat (of_nat (length (eth_pkt_descs pkt)) :: u32) = length (eth_pkt_descs pkt)"
proof -
  have b: "unat (num_of_bufs pkt) < 2 ^ LENGTH(8)" by (rule unsigned_less)
  then show "length (eth_pkt_descs pkt) \<le> 256" by (simp add: length_eth_pkt_descs)
  then show "unat (of_nat (length (eth_pkt_descs pkt)) :: u32) = length (eth_pkt_descs pkt)"
    by (simp add: unsigned_of_nat take_bit_nat_eq_self)
  have "(ucast (num_of_bufs pkt) :: u32) = of_nat (unat (num_of_bufs pkt))" by simp
  then show "(if pkt_meta pkt \<noteq> None then ucast (num_of_bufs pkt) + 1 else ucast (num_of_bufs pkt) :: u32) =
     of_nat (length (eth_pkt_descs pkt))"
    by (simp only: length_eth_pkt_descs of_nat_add) simp
qed

lemma eth_prepare_eq:
  assumes "eth_pkt_ok pkt"
  shows "al_eth_tx_pkt_prepare pkt s =
    (if unat (al_udma_available_get (fst s)) < length (eth_pkt_descs pkt) then Some (0, s)
     else Some (of_nat (length (eth_pkt_descs pkt)), desc_puts (eth_pkt_descs pkt) s))"
proof -
  have fl: "AL_M2S_DESC_FIRST OR AL_M2S_DESC_CONCAT OR (pkt_flags pkt AND AL_ETH_TX_FLAGS_INT) OR
      (pkt_flags pkt AND AL_ETH_TX_PKT_UDMA_FLAGS) = eth_buf_flags pkt 0" if "pkt_meta pkt = None"
    using that unfolding eth_buf_flags_def eth_flag_consts desc_consts by (intro bit_word_eqI) (auto simp: bit_simps)
  have fm: "AL_M2S_DESC_CONCAT OR (pkt_flags pkt AND AL_ETH_TX_PKT_UDMA_FLAGS) = eth_buf_flags pkt 0" if "pkt_meta pkt = Some md" for md
    using that unfolding eth_buf_flags_def eth_flag_consts desc_consts by (intro bit_word_eqI) (auto simp: bit_simps)
  have l: "eth_tx_bufs_loop (eth_tx_meta_ctrl pkt) (push_bit AL_UDMA_DESC_TGTID_SHIFT (ucast (pkt_tgtid pkt))) (unat (num_of_bufs pkt)) 0
      (take (unat (num_of_bufs pkt)) (pkt_bufs pkt)) (eth_buf_flags pkt 0) s' =
    desc_puts (map (eth_buf_desc pkt) [0..<unat (num_of_bufs pkt)]) s'" for s'
    using eth_bufs_loop_eq [of 0 _ pkt s'] assms by (simp add: eth_pkt_ok_def AL_UDMA_DESC_TGTID_SHIFT_def)
  have lt: "al_udma_available_get (fst s) < of_nat (length (eth_pkt_descs pkt)) \<longleftrightarrow>
      unat (al_udma_available_get (fst s)) < length (eth_pkt_descs pkt)"
    by (simp only: word_less_nat_alt eth_descs_count(3))
  have as: "al_assert (pkt_flags pkt AND (AL_ETH_TX_FLAGS_L4_CSUM OR AL_ETH_TX_FLAGS_L4_PARTIAL_CSUM) \<noteq> AL_ETH_TX_FLAGS_L4_PARTIAL_CSUM) = Some ()"
    "al_assert (pkt_flags pkt AND (AL_ETH_TX_FLAGS_TSO OR AL_ETH_TX_FLAGS_TS) \<noteq> AL_ETH_TX_FLAGS_TSO OR AL_ETH_TX_FLAGS_TS) = Some ()"
    using assms by (simp_all add: eth_pkt_ok_flags)
  note eq = al_eth_tx_pkt_prepare_def [of pkt s, unfolded Let_def eth_descs_count(1) lt as]
  show ?thesis
  proof (cases "pkt_meta pkt")
    case None
    then show ?thesis unfolding eq using fl l by (simp add: eth_pkt_descs_def or.assoc)
  next
    case (Some md)
    then show ?thesis unfolding eq using fm l by (simp add: eth_pkt_descs_def eth_meta_put_eq)
  qed
qed

lemma lt4_bits: "\<not> bit rid n" if "rid < 4" "2 \<le> n" for rid :: u32
proof -
  have "unat rid < 2 ^ 2" using that(1) by (simp add: word_less_nat_alt)
  then have "rid = take_bit 2 rid" by (simp add: word_unat_eq_iff unsigned_take_bit_eq take_bit_nat_eq_self)
  then show ?thesis using that(2) by (metis bit_take_bit_iff not_le)
qed

text \<open>FIRST and LAST bits of the descriptors; a ring id has two bits.\<close>

lemma eth_buf_desc_marks:
  assumes "rid < 4"
  shows "bit (len_ctrl (eth_buf_desc pkt i rid old)) 26 \<longleftrightarrow> i = 0 \<and> pkt_meta pkt = None"
    "bit (len_ctrl (eth_buf_desc pkt i rid old)) 27 \<longleftrightarrow> i = unat (num_of_bufs pkt) - 1"
proof -
  have r: "\<not> bit rid 2" "\<not> bit rid 3" using lt4_bits [OF assms] by simp_all
  have m: "AL_M2S_DESC_LEN_MASK = mask 20" by (simp add: desc_consts mask_eq_exp_minus_1)
  show "bit (len_ctrl (eth_buf_desc pkt i rid old)) 26 \<longleftrightarrow> i = 0 \<and> pkt_meta pkt = None"
    "bit (len_ctrl (eth_buf_desc pkt i rid old)) 27 \<longleftrightarrow> i = unat (num_of_bufs pkt) - 1"
    unfolding eth_buf_desc_def eth_buf_flags_def m eth_flag_consts AL_M2S_DESC_CONCAT_def AL_M2S_DESC_NO_SNOOP_H_def
      AL_M2S_DESC_INT_EN_def AL_M2S_DESC_FIRST_def AL_M2S_DESC_LAST_def
    using r by (auto simp: bit_simps)
qed

text \<open>The field masks of the metadata words in the form that bit-level reasoning uses.\<close>

lemma eth_meta_masks:
  "AL_ETH_TX_META_L3_LEN_MASK = mask 8" "AL_ETH_TX_META_L3_OFF_MASK = mask 8" "(0x3f :: u32) = mask 6"
  "(0x3c00 :: u32) = push_bit 10 (mask 4)" "(0x03ff :: u32) = mask 10"
  "AL_ETH_TX_META_OUTER_L3_OFF_HIGH_MASK = push_bit 3 (mask 2)" "AL_ETH_TX_META_OUTER_L3_OFF_LOW_MASK = mask 3"
  "AL_ETH_TX_META_OUTER_L3_LEN_MASK = mask 5"
  by (simp_all add: eth_meta_consts mask_eq_exp_minus_1)

lemmas eth_meta_shifts = AL_ETH_TX_META_STORE_def AL_ETH_TX_META_L3_OFF_SHIFT_def AL_ETH_TX_META_MSS_LSB_VAL_SHIFT_def
  AL_ETH_TX_META_MSS_MSB_TS_VAL_SHIFT_def AL_ETH_TX_META_OUTER_L3_LEN_SHIFT_def AL_ETH_TX_META_OUTER_L3_OFF_HIGH_SHIFT_def
  AL_ETH_TX_META_OUTER_L3_OFF_LOW_SHIFT_def

text \<open>The metadata words as plain unions of their fields.\<close>

lemma eth_meta_words_eq:
  "eth_meta_words flags ring_id pflags md =
     (AL_REG_MASK_CLEAR (flags OR AL_BIT 23) (AL_BIT 31) OR ring_id OR push_bit 12 (ucast (words_valid md)) OR
        (if md_store md \<noteq> 0 then AL_BIT 21 else 0) OR
        (if words_valid md AND 1 \<noteq> 0 then
           ucast (vlan1_cfi_sel md) OR push_bit 2 (ucast (vlan2_vid_sel md)) OR push_bit 4 (ucast (vlan2_cfi_sel md)) OR
           push_bit 6 (ucast (vlan2_pbits_sel md)) OR push_bit 8 (ucast (vlan2_ether_sel md)) else 0) OR
        (if words_valid md AND 4 \<noteq> 0 then
           push_bit 16 (if pflags AND AL_ETH_TX_FLAGS_TS \<noteq> 0 then ucast (ts_index md) else take_bit 4 (drop_bit 10 (ucast (mss_val md)))) OR
           push_bit 10 (take_bit 2 (drop_bit 4 (ucast (outer_l3_offset md)))) else 0),
      (if words_valid md AND 2 \<noteq> 0 then
         ucast (vlan1_new_vid md) OR push_bit 12 (ucast (vlan1_new_cfi md)) OR push_bit 13 (ucast (vlan1_new_pbits md)) OR
         push_bit 16 (ucast (vlan2_new_vid md)) OR push_bit 28 (ucast (vlan2_new_cfi md)) OR push_bit 29 (ucast (vlan2_new_pbits md)) else 0),
      (if words_valid md AND 4 \<noteq> 0 then
         ucast (l3_header_len md) OR push_bit 8 (ucast (l3_header_offset md)) OR push_bit 16 (take_bit 6 (ucast (l4_header_len md))) OR
         push_bit 22 (take_bit 10 (ucast (mss_val md))) else 0),
      (if words_valid md AND 4 \<noteq> 0 then
         push_bit 29 (take_bit 3 (drop_bit 1 (ucast (outer_l3_offset md)))) OR
         push_bit 24 (take_bit 5 (drop_bit 2 (ucast (outer_l3_len md)))) else 0))"
proof -
  have m: "drop_bit 10 (x AND push_bit 10 (mask 4)) = take_bit 4 (drop_bit 10 x)"
    "drop_bit 3 (drop_bit 1 x AND push_bit 3 (mask 2)) = take_bit 2 (drop_bit 4 x)"
    "x AND mask k = take_bit k x" for x :: u32 and k
    by (rule bit_word_eqI; auto simp: bit_simps take_bit_eq_mask)+
  have t: "take_bit 8 (ucast x) = (ucast x :: u32)" for x :: u8
    by (rule bit_word_eqI) (auto simp: bit_simps dest: bit_imp_le_length)
  have st: "AL_ETH_TX_META_STORE = AL_BIT 21" by (simp add: AL_ETH_TX_META_STORE_def AL_BIT_def)
  show ?thesis
    unfolding eth_meta_words_def Let_def eth_meta_masks st eth_meta_shifts(2-) m t AL_M2S_DESC_META_DATA_def AL_M2S_DESC_CONCAT_def
    by (simp add: or.assoc)
qed

lemma bit_if_0: "bit (if c then x else 0) n \<longleftrightarrow> c \<and> bit x n" for x :: "'a::len word"
  by simp

lemma bit_beyond: "LENGTH('a) \<le> n \<Longrightarrow> \<not> bit x n" for x :: "'a::len word"
  by (auto dest: bit_imp_le_length)

lemmas field_bits = bit_or_iff bit_if_0 bit_and_iff bit_not_iff bit_AL_BIT bit_push_bit_iff bit_take_bit_iff bit_drop_bit_eq
  bit_unsigned_iff bit_beyond AL_REG_MASK_CLEAR_def AL_REG_MASK_SET_VAL_def

text \<open>The fields that metadata word 0 holds, for flags above bit 25 and a two-bit ring id.\<close>

lemma eth_meta_word0_fields:
  assumes "take_bit 26 flags = 0" "rid < 4" "eth_meta_words flags (push_bit 24 rid) pflags md = (w0, w1, w2, w3)"
  shows "ucast (drop_bit 12 w0) = words_valid md" "bit w0 21 \<longleftrightarrow> md_store md \<noteq> 0" "take_bit 2 (drop_bit 24 w0) = rid"
    "bit w0 23" "\<not> bit w0 31" "26 \<le> n \<Longrightarrow> n < 31 \<Longrightarrow> bit w0 n \<longleftrightarrow> bit flags n"
    "words_valid md AND 1 \<noteq> 0 \<Longrightarrow> ucast w0 = vlan1_cfi_sel md"
    "words_valid md AND 1 \<noteq> 0 \<Longrightarrow> ucast (drop_bit 2 w0) = vlan2_vid_sel md"
    "words_valid md AND 1 \<noteq> 0 \<Longrightarrow> ucast (drop_bit 4 w0) = vlan2_cfi_sel md"
    "words_valid md AND 1 \<noteq> 0 \<Longrightarrow> ucast (drop_bit 6 w0) = vlan2_pbits_sel md"
    "words_valid md AND 1 \<noteq> 0 \<Longrightarrow> ucast (drop_bit 8 w0) = vlan2_ether_sel md"
    "words_valid md AND 4 \<noteq> 0 \<Longrightarrow> pflags AND AL_ETH_TX_FLAGS_TS \<noteq> 0 \<Longrightarrow> ucast (drop_bit 16 w0) = ts_index md"
proof -
  have f: "\<not> bit flags k" if "k < 26" for k
    using assms(1) that by (metis bit_0_eq bit_take_bit_iff bot_apply bot_bool_def)
  note r = lt4_bits [OF assms(2)]
  have w0: "w0 = fst (eth_meta_words flags (push_bit 24 rid) pflags md)" using assms(3) by simp
  note w = w0 [unfolded eth_meta_words_eq fst_conv]
  show "bit w0 21 \<longleftrightarrow> md_store md \<noteq> 0" "bit w0 23" "\<not> bit w0 31"
    unfolding w using f r by (simp_all add: field_bits)
  show "26 \<le> n \<Longrightarrow> n < 31 \<Longrightarrow> bit w0 n \<longleftrightarrow> bit flags n"
    unfolding w using f r by (simp add: field_bits)
  show "take_bit 2 (drop_bit 24 w0) = rid"
  proof (rule bit_word_eqI)
    fix n show "bit (take_bit 2 (drop_bit 24 w0)) n = bit rid n"
      unfolding w using f r by (cases "n < 2") (simp_all add: field_bits)
  qed
  show "ucast (drop_bit 12 w0) = words_valid md"
    unfolding w by (rule bit_word_eqI) (use f r in \<open>simp add: field_bits\<close>)
  show "words_valid md AND 1 \<noteq> 0 \<Longrightarrow> ucast w0 = vlan1_cfi_sel md"
    "words_valid md AND 1 \<noteq> 0 \<Longrightarrow> ucast (drop_bit 2 w0) = vlan2_vid_sel md"
    "words_valid md AND 1 \<noteq> 0 \<Longrightarrow> ucast (drop_bit 4 w0) = vlan2_cfi_sel md"
    "words_valid md AND 1 \<noteq> 0 \<Longrightarrow> ucast (drop_bit 6 w0) = vlan2_pbits_sel md"
    "words_valid md AND 1 \<noteq> 0 \<Longrightarrow> ucast (drop_bit 8 w0) = vlan2_ether_sel md"
    unfolding w by (rule bit_word_eqI, use f r in \<open>simp add: field_bits\<close>)+
  show "words_valid md AND 4 \<noteq> 0 \<Longrightarrow> pflags AND AL_ETH_TX_FLAGS_TS \<noteq> 0 \<Longrightarrow> ucast (drop_bit 16 w0) = ts_index md"
    unfolding w by (rule bit_word_eqI) (use f r in \<open>simp add: field_bits\<close>)
qed

lemma eth_meta_word123_fields:
  assumes "take_bit 26 flags = 0" "rid < 4" "eth_meta_words flags (push_bit 24 rid) pflags md = (w0, w1, w2, w3)"
  shows "words_valid md AND 2 \<noteq> 0 \<Longrightarrow> ucast w1 = vlan1_new_vid md"
    "words_valid md AND 2 \<noteq> 0 \<Longrightarrow> ucast (drop_bit 12 w1) = vlan1_new_cfi md"
    "words_valid md AND 2 \<noteq> 0 \<Longrightarrow> ucast (drop_bit 13 w1) = vlan1_new_pbits md"
    "words_valid md AND 2 \<noteq> 0 \<Longrightarrow> ucast (drop_bit 16 w1) = vlan2_new_vid md"
    "words_valid md AND 2 \<noteq> 0 \<Longrightarrow> ucast (drop_bit 28 w1) = vlan2_new_cfi md"
    "words_valid md AND 2 \<noteq> 0 \<Longrightarrow> ucast (drop_bit 29 w1) = vlan2_new_pbits md"
    "words_valid md AND 4 \<noteq> 0 \<Longrightarrow> ucast w2 = l3_header_len md"
    "words_valid md AND 4 \<noteq> 0 \<Longrightarrow> ucast (drop_bit 8 w2) = l3_header_offset md"
    "words_valid md AND 4 \<noteq> 0 \<Longrightarrow> ucast (drop_bit 16 w2) = (ucast (l4_header_len md) :: 6 word)"
    "words_valid md AND 4 \<noteq> 0 \<Longrightarrow> ucast (drop_bit 22 w2) = (ucast (mss_val md) :: 10 word)"
    "words_valid md AND 4 \<noteq> 0 \<Longrightarrow> pflags AND AL_ETH_TX_FLAGS_TS = 0 \<Longrightarrow>
       ucast (drop_bit 22 w2 OR push_bit 10 (drop_bit 16 w0)) = mss_val md"
    "words_valid md AND 4 \<noteq> 0 \<Longrightarrow>
       take_bit 3 (drop_bit 29 w3) OR push_bit 3 (take_bit 2 (drop_bit 10 w0)) = drop_bit 1 (take_bit 6 (ucast (outer_l3_offset md)))"
    "words_valid md AND 4 \<noteq> 0 \<Longrightarrow> take_bit 5 (drop_bit 24 w3) = drop_bit 2 (take_bit 7 (ucast (outer_l3_len md)))"
proof -
  have f: "\<not> bit flags k" if "k < 26" for k
    using assms(1) that by (metis bit_0_eq bit_take_bit_iff bot_apply bot_bool_def)
  note r = lt4_bits [OF assms(2)]
  have e: "w0 = fst (eth_meta_words flags (push_bit 24 rid) pflags md)" "w1 = fst (snd (eth_meta_words flags (push_bit 24 rid) pflags md))"
    "w2 = fst (snd (snd (eth_meta_words flags (push_bit 24 rid) pflags md)))"
    "w3 = snd (snd (snd (eth_meta_words flags (push_bit 24 rid) pflags md)))" using assms(3) by simp_all
  note w = e [unfolded eth_meta_words_eq fst_conv snd_conv]
  show "words_valid md AND 2 \<noteq> 0 \<Longrightarrow> ucast w1 = vlan1_new_vid md"
    "words_valid md AND 2 \<noteq> 0 \<Longrightarrow> ucast (drop_bit 12 w1) = vlan1_new_cfi md"
    "words_valid md AND 2 \<noteq> 0 \<Longrightarrow> ucast (drop_bit 13 w1) = vlan1_new_pbits md"
    "words_valid md AND 2 \<noteq> 0 \<Longrightarrow> ucast (drop_bit 16 w1) = vlan2_new_vid md"
    "words_valid md AND 2 \<noteq> 0 \<Longrightarrow> ucast (drop_bit 28 w1) = vlan2_new_cfi md"
    "words_valid md AND 2 \<noteq> 0 \<Longrightarrow> ucast (drop_bit 29 w1) = vlan2_new_pbits md"
    unfolding w(2) by (rule bit_word_eqI, simp add: field_bits)+
  show "words_valid md AND 4 \<noteq> 0 \<Longrightarrow> ucast w2 = l3_header_len md"
    "words_valid md AND 4 \<noteq> 0 \<Longrightarrow> ucast (drop_bit 8 w2) = l3_header_offset md"
    "words_valid md AND 4 \<noteq> 0 \<Longrightarrow> ucast (drop_bit 16 w2) = (ucast (l4_header_len md) :: 6 word)"
    "words_valid md AND 4 \<noteq> 0 \<Longrightarrow> ucast (drop_bit 22 w2) = (ucast (mss_val md) :: 10 word)"
    unfolding w(3) by (rule bit_word_eqI, simp add: field_bits)+
  show "words_valid md AND 4 \<noteq> 0 \<Longrightarrow> take_bit 5 (drop_bit 24 w3) = drop_bit 2 (take_bit 7 (ucast (outer_l3_len md)))"
    unfolding w(4) by (rule bit_word_eqI) (auto simp: field_bits)
  show "words_valid md AND 4 \<noteq> 0 \<Longrightarrow>
       take_bit 3 (drop_bit 29 w3) OR push_bit 3 (take_bit 2 (drop_bit 10 w0)) = drop_bit 1 (take_bit 6 (ucast (outer_l3_offset md)))"
  proof (rule bit_word_eqI)
    fix n :: nat assume v: "words_valid md AND 4 \<noteq> 0"
    consider "n < 3" | "3 \<le> n" "n < 5" | "5 \<le> n" by linarith
    then show "bit (take_bit 3 (drop_bit 29 w3) OR push_bit 3 (take_bit 2 (drop_bit 10 w0))) n \<longleftrightarrow>
      bit (drop_bit 1 (take_bit 6 (ucast (outer_l3_offset md))) :: u32) n"
      unfolding w(1,4) using f r v by cases (simp_all add: field_bits less_diff_conv2)
  qed
  show "words_valid md AND 4 \<noteq> 0 \<Longrightarrow> pflags AND AL_ETH_TX_FLAGS_TS = 0 \<Longrightarrow>
       ucast (drop_bit 22 w2 OR push_bit 10 (drop_bit 16 w0)) = mss_val md"
  proof (rule bit_word_eqI)
    fix n :: nat assume v: "words_valid md AND 4 \<noteq> 0" "pflags AND AL_ETH_TX_FLAGS_TS = 0" and n: "n < LENGTH(14)"
    consider "n < 10" | "10 \<le> n" by linarith
    then show "bit (ucast (drop_bit 22 w2 OR push_bit 10 (drop_bit 16 w0)) :: 14 word) n \<longleftrightarrow> bit (mss_val md) n"
      unfolding w(1,3) using f r v n by cases (simp_all add: field_bits less_diff_conv2)
  qed
qed

lemma tx_flags_low: "take_bit 26 (AL_M2S_DESC_FIRST OR AL_M2S_DESC_CONCAT OR (f AND AL_ETH_TX_FLAGS_INT)) = 0"
  unfolding eth_flag_consts desc_consts by (rule bit_word_eqI) (auto simp: bit_simps)

lemma eth_meta_desc_marks:
  assumes "rid < 4"
  shows "bit (len_ctrl (eth_meta_desc pkt md rid old)) 26" "\<not> bit (len_ctrl (eth_meta_desc pkt md rid old)) 27"
proof -
  let ?f = "AL_M2S_DESC_FIRST OR AL_M2S_DESC_CONCAT OR (pkt_flags pkt AND AL_ETH_TX_FLAGS_INT)"
  obtain w0 w1 w2 w3 where w: "eth_meta_words ?f (push_bit 24 rid) (pkt_flags pkt) md = (w0, w1, w2, w3)"
    by (metis surj_pair)
  note h = eth_meta_word0_fields(6) [OF tx_flags_low assms w]
  have l: "len_ctrl (eth_meta_desc pkt md rid old) = w0" by (simp add: eth_meta_desc_def w)
  show "bit (len_ctrl (eth_meta_desc pkt md rid old)) 26" "\<not> bit (len_ctrl (eth_meta_desc pkt md rid old)) 27"
    unfolding l using h [of 26] h [of 27] by (simp_all add: bit_simps eth_flag_consts desc_consts)
qed

lemma lap_id_lt4: "lap_id n p < 4"
proof -
  have "(1 + p div n) mod 4 < 4" by simp
  then show ?thesis unfolding lap_id_def by (simp add: word_less_nat_alt unsigned_of_nat take_bit_nat_eq_self)
qed

text \<open>The packet is delimited: FIRST on its first descriptor only, LAST on its last descriptor only.\<close>

lemma eth_pkt_descs_marks:
  assumes "0 < unat (num_of_bufs pkt)" "j < length (eth_pkt_descs pkt)" "rid < 4"
  shows "bit (len_ctrl ((eth_pkt_descs pkt ! j) rid old)) 26 \<longleftrightarrow> j = 0"
    "bit (len_ctrl ((eth_pkt_descs pkt ! j) rid old)) 27 \<longleftrightarrow> j = length (eth_pkt_descs pkt) - 1"
proof -
  note b = eth_buf_desc_marks [OF assms(3)] eth_meta_desc_marks [OF assms(3)]
  show "bit (len_ctrl ((eth_pkt_descs pkt ! j) rid old)) 26 \<longleftrightarrow> j = 0"
    "bit (len_ctrl ((eth_pkt_descs pkt ! j) rid old)) 27 \<longleftrightarrow> j = length (eth_pkt_descs pkt) - 1"
    using assms(1,2) b by (cases "pkt_meta pkt"; cases j; simp add: eth_pkt_descs_def; linarith)+
qed

text \<open>
  C10: transmission of a packet.  Without room for all its descriptors nothing is submitted and the call returns 0.
  Otherwise the packet takes one descriptor per buffer and one for its metadata, in consecutive slots with the ring
  id of their lap, with exactly the specified contents; the first descriptor and no other is marked FIRST, the last
  and no other is marked LAST, no other memory changes and the call returns the number of descriptors.
\<close>

theorem eth_tx_prepare_outcome:
  assumes "udma_ring_ok q" "udma_submitted q p" "eth_pkt_ok pkt" "0 < unat (num_of_bufs pkt)"
  defines "k \<equiv> length (eth_pkt_descs pkt)"
  shows "(unat (al_udma_available_get q) < k \<longrightarrow> al_eth_tx_pkt_prepare pkt (q, mem) = Some (0, q, mem)) \<and>
    (k \<le> unat (al_udma_available_get q) \<longrightarrow>
      (\<exists>q' mem'. al_eth_tx_pkt_prepare pkt (q, mem) = Some (of_nat k, q', mem') \<and>
        udma_ring_ok q' \<and> udma_submitted q' (p + k) \<and> unat (al_udma_available_get q') + k = unat (al_udma_available_get q) \<and>
        (\<forall>j < k. mem' (desc_slot q (p + j)) = (eth_pkt_descs pkt ! j) (lap_id (unat (q_size q)) (p + j)) (mem (desc_slot q (p + j))) \<and>
          (bit (len_ctrl (mem' (desc_slot q (p + j)))) 26 \<longleftrightarrow> j = 0) \<and>
          (bit (len_ctrl (mem' (desc_slot q (p + j)))) 27 \<longleftrightarrow> j = k - 1)) \<and>
        (\<forall>a. (\<forall>j < k. a \<noteq> desc_slot q (p + j)) \<longrightarrow> mem' a = mem a)))"
proof (intro conjI impI)
  assume "unat (al_udma_available_get q) < k"
  then show "al_eth_tx_pkt_prepare pkt (q, mem) = Some (0, q, mem)" by (simp add: eth_prepare_eq [OF assms(3)] k_def)
next
  assume room: "k \<le> unat (al_udma_available_get q)"
  obtain q' mem' where p: "desc_puts (eth_pkt_descs pkt) (q, mem) = (q', mem')" by fastforce
  have took: "ring_took (q, mem) k (q', mem')"
    using desc_puts_took [of "(q, mem)" "eth_pkt_descs pkt"] room assms(1) p by (simp add: k_def)
  have lt: "length (eth_pkt_descs pkt) < unat (q_size q)"
    using room available_unat [OF assms(1)] in_flight_less [OF assms(1)] by (simp add: k_def)
  note c = desc_puts_content [OF assms(1,2) lt p, folded k_def]
  have "al_eth_tx_pkt_prepare pkt (q, mem) = Some (of_nat k, q', mem')"
    using room p by (simp add: eth_prepare_eq [OF assms(3)] k_def)
  moreover have "unat (al_udma_available_get q') + k = unat (al_udma_available_get q)"
    using took by (simp add: ring_took_def)
  ultimately show "\<exists>q' mem'. al_eth_tx_pkt_prepare pkt (q, mem) = Some (of_nat k, q', mem') \<and>
        udma_ring_ok q' \<and> udma_submitted q' (p + k) \<and> unat (al_udma_available_get q') + k = unat (al_udma_available_get q) \<and>
        (\<forall>j < k. mem' (desc_slot q (p + j)) = (eth_pkt_descs pkt ! j) (lap_id (unat (q_size q)) (p + j)) (mem (desc_slot q (p + j))) \<and>
          (bit (len_ctrl (mem' (desc_slot q (p + j)))) 26 \<longleftrightarrow> j = 0) \<and>
          (bit (len_ctrl (mem' (desc_slot q (p + j)))) 27 \<longleftrightarrow> j = k - 1)) \<and>
        (\<forall>a. (\<forall>j < k. a \<noteq> desc_slot q (p + j)) \<longrightarrow> mem' a = mem a)"
    using c ring_tookD(1) [OF took] eth_pkt_descs_marks [OF assms(4) _ lap_id_lt4, folded k_def]
    by (intro exI [of _ q'] exI [of _ mem']) simp
qed

text \<open>A packet of two buffers with metadata for segmentation offload, for concrete instances.\<close>

definition demo_md :: al_eth_meta_data where
  "demo_md = \<lparr>md_store = 0, words_valid = 4, vlan1_cfi_sel = 0, vlan2_vid_sel = 0, vlan2_cfi_sel = 0, vlan2_pbits_sel = 0,
     vlan2_ether_sel = 0, vlan1_new_vid = 0, vlan1_new_cfi = 0, vlan1_new_pbits = 0, vlan2_new_vid = 0, vlan2_new_cfi = 0,
     vlan2_new_pbits = 0, l3_header_len = 20, l3_header_offset = 14, l4_header_len = 5, mss_idx_sel = 0, ts_index = 0,
     mss_val = 1460, outer_l3_offset = 0, outer_l3_len = 0\<rparr>"

definition demo_pkt :: al_eth_pkt where
  "demo_pkt = \<lparr>pkt_flags = AL_ETH_TX_FLAGS_INT, l3_proto_idx = 8, l4_proto_idx = 12, source_vlan_count = 0, vlan_mod_add_count = 0,
     vlan_mod_del_count = 0, vlan_mod_v1_ether_sel = 0, vlan_mod_v1_vid_sel = 0, vlan_mod_v1_pbits_sel = 0, tunnel_mode = 0,
     outer_l3_proto_idx = 0, pkt_tgtid = 0, rx_header_len = 0, pkt_meta = Some demo_md, rxhash = 0, pkt_l3_offset = 0,
     num_of_bufs = 2, pkt_bufs = replicate 19 \<lparr>buf_addr = 0x7000, buf_len = 100\<rparr>\<rparr>"

lemma demo_pkt_ok: "eth_pkt_ok demo_pkt" "length (eth_pkt_descs demo_pkt) = 3" "0 < unat (num_of_bufs demo_pkt)"
  by (simp_all add: eth_pkt_ok_flags demo_pkt_def eth_flag_consts desc_consts AL_BIT_def length_eth_pkt_descs)

theorem eth_tx_prepare_outcome_witness:
  "\<forall>mem. \<exists>q' mem'. al_eth_tx_pkt_prepare demo_pkt (demo_q, mem) = Some (3, q', mem') \<and> bit (len_ctrl (mem' 0x80020)) 27"
proof
  fix mem
  have s: "udma_submitted demo_q 0" by (simp add: udma_submitted_def demo_q_def)
  have a: "unat (al_udma_available_get demo_q) = 7" by (simp add: al_udma_available_get_def demo_q_def)
  from eth_tx_prepare_outcome [OF demo_q_ok s demo_pkt_ok(1,3), of mem] obtain q' mem' where
    r: "al_eth_tx_pkt_prepare demo_pkt (demo_q, mem) = Some (of_nat 3, q', mem')"
    "\<forall>j < 3. bit (len_ctrl (mem' (desc_slot demo_q (0 + j)))) 27 \<longleftrightarrow> j = 3 - 1"
    unfolding demo_pkt_ok(2) a by auto
  from r(2) have "bit (len_ctrl (mem' (desc_slot demo_q (0 + 2)))) 27" by simp
  with r(1) show "\<exists>q' mem'. al_eth_tx_pkt_prepare demo_pkt (demo_q, mem) = Some (3, q', mem') \<and> bit (len_ctrl (mem' 0x80020)) 27"
    by (auto simp: desc_slot_def demo_q_def)
qed

text \<open>
  C27: what of the metadata of a packet survives its packing into the four words of a descriptor.  The mask of valid words, the store mark, the ring id, the
  packet marks and the metadata mark are intact.  Of the valid words all VLAN fields and the offset and length of the inner header read back exactly, and so
  does the segment size, which is split over two words, unless the packet asks for a time stamp; then the index of the time stamp register reads back
  and only the low ten bits of the segment size.  The header length in words keeps its low six bits, the outer offset is kept up to 64 bytes in units of two and the outer
  length up to 128 bytes in units of four.  The field \<open>mss_idx_sel\<close> is not packed at all.
\<close>

theorem eth_meta_roundtrip:
  assumes "take_bit 26 flags = 0" "rid < 4" "eth_meta_words flags (push_bit 24 rid) pflags md = (w0, w1, w2, w3)"
  shows "ucast (drop_bit 12 w0) = words_valid md \<and> (bit w0 21 \<longleftrightarrow> md_store md \<noteq> 0) \<and> take_bit 2 (drop_bit 24 w0) = rid \<and>
    bit w0 23 \<and> \<not> bit w0 31 \<and> (\<forall>n. 26 \<le> n \<and> n < 31 \<longrightarrow> bit w0 n = bit flags n) \<and>
    (words_valid md AND 1 \<noteq> 0 \<longrightarrow> ucast w0 = vlan1_cfi_sel md \<and> ucast (drop_bit 2 w0) = vlan2_vid_sel md \<and>
       ucast (drop_bit 4 w0) = vlan2_cfi_sel md \<and> ucast (drop_bit 6 w0) = vlan2_pbits_sel md \<and>
       ucast (drop_bit 8 w0) = vlan2_ether_sel md) \<and>
    (words_valid md AND 2 \<noteq> 0 \<longrightarrow> ucast w1 = vlan1_new_vid md \<and> ucast (drop_bit 12 w1) = vlan1_new_cfi md \<and>
       ucast (drop_bit 13 w1) = vlan1_new_pbits md \<and> ucast (drop_bit 16 w1) = vlan2_new_vid md \<and>
       ucast (drop_bit 28 w1) = vlan2_new_cfi md \<and> ucast (drop_bit 29 w1) = vlan2_new_pbits md) \<and>
    (words_valid md AND 4 \<noteq> 0 \<longrightarrow> ucast w2 = l3_header_len md \<and> ucast (drop_bit 8 w2) = l3_header_offset md \<and>
       ucast (drop_bit 16 w2) = (ucast (l4_header_len md) :: 6 word) \<and>
       (if pflags AND AL_ETH_TX_FLAGS_TS \<noteq> 0 then ucast (drop_bit 16 w0) = ts_index md \<and> ucast (drop_bit 22 w2) = (ucast (mss_val md) :: 10 word)
        else ucast (drop_bit 22 w2 OR push_bit 10 (drop_bit 16 w0)) = mss_val md) \<and>
       take_bit 3 (drop_bit 29 w3) OR push_bit 3 (take_bit 2 (drop_bit 10 w0)) = drop_bit 1 (take_bit 6 (ucast (outer_l3_offset md))) \<and>
       take_bit 5 (drop_bit 24 w3) = drop_bit 2 (take_bit 7 (ucast (outer_l3_len md)))) \<and>
    (\<forall>x. eth_meta_words flags (push_bit 24 rid) pflags (md\<lparr>mss_idx_sel := x\<rparr>) = (w0, w1, w2, w3))"
proof -
  have "eth_meta_words flags (push_bit 24 rid) pflags (md\<lparr>mss_idx_sel := x\<rparr>) = eth_meta_words flags (push_bit 24 rid) pflags md" for x
    by (simp add: eth_meta_words_eq split del: if_split cong: if_cong)
  then show ?thesis using eth_meta_word0_fields [OF assms] eth_meta_word123_fields [OF assms] assms(3) by auto
qed

theorem eth_meta_roundtrip_witness:
  "\<exists>w0 w1 w2 w3. eth_meta_words AL_M2S_DESC_FIRST (push_bit 24 1) 0 demo_md = (w0, w1, w2, w3) \<and>
     (ucast (drop_bit 22 w2 OR push_bit 10 (drop_bit 16 w0)) :: 14 word) = 1460"
proof -
  obtain w0 w1 w2 w3 where w: "eth_meta_words AL_M2S_DESC_FIRST (push_bit 24 1) 0 demo_md = (w0, w1, w2, w3)" by (metis surj_pair)
  have "take_bit 26 AL_M2S_DESC_FIRST = 0" by (simp add: desc_consts AL_BIT_def)
  from eth_meta_roundtrip [OF this _ w] have "(ucast (drop_bit 22 w2 OR push_bit 10 (drop_bit 16 w0)) :: 14 word) = mss_val demo_md"
    by (simp add: demo_md_def)
  with w show ?thesis by (auto simp: demo_md_def)
qed

subsection \<open>Receive buffers\<close>

text \<open>The descriptor of a receive buffer; \<^term>\<open>None\<close> when an assertion on the header buffer fails.\<close>

definition eth_rx_desc :: "al_udma \<Rightarrow> al_buf \<Rightarrow> u32 \<Rightarrow> al_buf option \<Rightarrow> (u32 \<Rightarrow> al_udma_desc \<Rightarrow> al_udma_desc) option" where
  "eth_rx_desc u buf flags hb =
     (let base = (\<lambda>rid. AL_REG_MASK_CLEAR flags AL_ETH_RX_FLAGS_TGTID_MASK OR push_bit 24 rid OR (buf_len buf AND AL_S2M_DESC_LEN_MASK));
          p = buf_addr buf OR push_bit 48 (ucast (flags AND AL_ETH_RX_FLAGS_TGTID_MASK))
      in if flags AND AL_S2M_DESC_DUAL_BUF = 0 then Some (\<lambda>rid old. \<lparr>len_ctrl = base rid, meta_ctrl = meta_ctrl old, buf_ptr = p\<rparr>)
         else case hb of
           None \<Rightarrow> None
         | Some h \<Rightarrow> if AL_UDMA_REV_ID_2 \<le> udma_rev_id u \<or> AL_ADDR_HIGH (buf_addr buf) = AL_ADDR_HIGH (buf_addr h)
             then Some (\<lambda>rid old. \<lparr>len_ctrl = base rid OR (push_bit 16 (drop_bit 6 (buf_len h)) AND AL_S2M_DESC_LEN2_MASK),
                    meta_ctrl = AL_ADDR_LOW (buf_addr h), buf_ptr = p\<rparr>)
             else None)"

lemma eth_rx_buffer_add_eq:
  "al_eth_rx_buffer_add u buf flags hb s =
     (if al_udma_available_get (fst s) = 0 then Some (RcErr ENOSPC, s)
      else map_option (\<lambda>f. (RcOk, desc_put f s)) (eth_rx_desc u buf flags hb))"
proof -
  have z: "a < 1 \<longleftrightarrow> a = 0" for a :: u32 by (simp add: word_less_nat_alt unat_eq_zero)
  show ?thesis
    unfolding al_eth_rx_buffer_add_def eth_rx_desc_def desc_put_def z Let_def AL_S2M_DESC_RING_ID_SHIFT_def
      AL_UDMA_DESC_TGTID_SHIFT_def AL_S2M_DESC_LEN2_SHIFT_def AL_S2M_DESC_LEN2_GRANULARITY_SHIFT_def
    by (cases s; cases hb) (auto simp: split_def al_assert_def or.assoc)
qed

subsection \<open>Received packets\<close>

definition rx_len :: "al_eth_rx_cdesc \<Rightarrow> u32" where
  "rx_len d = (if bit (rxc_ctrl_meta d) 30 \<and> \<not> bit (rxc_ctrl_meta d) 29 then take_bit 16 (rxc_len d) else 0)"

lemma rx_buf_get_eq:
  "rx_buf_get d i pkt =
     (let pkt = (if i = 0 \<and> bit (rxc_word2 d) 31 then pkt\<lparr>rx_header_len := take_bit 14 (drop_bit 16 (rxc_word2 d))\<rparr> else pkt)
      in pkt\<lparr>pkt_bufs := (pkt_bufs pkt)[i := (pkt_bufs pkt ! i)\<lparr>buf_len := rx_len d\<rparr>]\<rparr>)"
proof -
  have b: "x AND AL_BIT k \<noteq> 0 \<longleftrightarrow> bit x k" "x AND AL_BIT k = 0 \<longleftrightarrow> \<not> bit x k" if "k < 32" for x :: u32 and k
    using that by (simp_all add: and_AL_BIT)
  have m: "AL_S2M_DESC_LEN_MASK = mask 16" "AL_S2M_DESC_LEN2_MASK = push_bit 16 (mask 14)"
    by (simp_all add: desc_consts AL_S2M_DESC_LEN2_MASK_def AL_S2M_DESC_LEN2_SHIFT_def mask_eq_exp_minus_1)
  have d: "drop_bit 16 (x AND push_bit 16 (mask 14)) = take_bit 14 (drop_bit 16 x)" for x :: u32
    by (rule bit_word_eqI) (auto simp: bit_simps)
  show ?thesis
    unfolding rx_buf_get_def rx_len_def m AL_S2M_DESC_LEN2_SHIFT_def d AL_UDMA_CDESC_BUF1_USED_def AL_UDMA_CDESC_BUF2_USED_def
      AL_UDMA_CDESC_DDP_def by (simp add: b take_bit_eq_mask)
qed

text \<open>The effect of the receive loop on the packet, descriptor by descriptor.\<close>

definition rx_bufs_get :: "(nat \<Rightarrow> al_eth_rx_cdesc) \<Rightarrow> nat \<Rightarrow> al_eth_pkt \<Rightarrow> al_eth_pkt" where
  "rx_bufs_get d n pkt = fold (\<lambda>i. rx_buf_get (d i) i) [0..<n] pkt"

lemma pkt_rx_loop_eq:
  assumes "\<And>k. k < i + n \<Longrightarrow> al_cdesc_next q c (of_nat k) = Some (slot k)"
  shows "pkt_rx_loop cmem q c i n (x, pkt) =
    Some (if n = 0 then x else cmem (slot (i + n - 1)), fold (\<lambda>k. rx_buf_get (cmem (slot k)) k) [i..<i + n] pkt)"
  using assms
proof (induction n arbitrary: i x pkt)
  case (Suc n)
  have u: "[i..<i + Suc n] = i # [Suc i..<Suc i + n]" by (simp add: upt_conv_Cons)
  have "pkt_rx_loop cmem q c (Suc i) n (cmem (slot i), rx_buf_get (cmem (slot i)) i pkt) =
    Some (if n = 0 then cmem (slot i) else cmem (slot (Suc i + n - 1)),
      fold (\<lambda>k. rx_buf_get (cmem (slot k)) k) [Suc i..<Suc i + n] (rx_buf_get (cmem (slot i)) i pkt))"
    using Suc.prems by (intro Suc.IH) simp
  then show ?case unfolding u using Suc.prems [of i] by (simp split: if_splits)
qed simp

lemma rx_bufs_get_bufs:
  "n \<le> length (pkt_bufs pkt) \<Longrightarrow>
     pkt_bufs (rx_bufs_get d n pkt) = map (\<lambda>i. (pkt_bufs pkt ! i)\<lparr>buf_len := rx_len (d i)\<rparr>) [0..<n] @ drop n (pkt_bufs pkt)"
proof (induction n)
  case (Suc n)
  have dr: "drop n (pkt_bufs pkt) = pkt_bufs pkt ! n # drop (Suc n) (pkt_bufs pkt)"
    using Suc.prems by (simp add: Cons_nth_drop_Suc)
  have "pkt_bufs (rx_bufs_get d (Suc n) pkt) =
      (pkt_bufs (rx_bufs_get d n pkt))[n := (pkt_bufs (rx_bufs_get d n pkt) ! n)\<lparr>buf_len := rx_len (d n)\<rparr>]"
    by (simp add: rx_bufs_get_def rx_buf_get_eq Let_def)
  then show ?case using Suc by (simp add: dr list_update_append nth_append)
qed (simp add: rx_bufs_get_def)

lemma rx_bufs_get_header:
  "0 < n \<Longrightarrow> rx_header_len (rx_bufs_get d n pkt) =
     (if bit (rxc_word2 (d 0)) 31 then take_bit 14 (drop_bit 16 (rxc_word2 (d 0))) else rx_header_len pkt)"
proof (induction n)
  case (Suc n)
  have "rx_header_len (rx_bufs_get d (Suc n) pkt) =
    (if n = 0 \<and> bit (rxc_word2 (d 0)) 31 then take_bit 14 (drop_bit 16 (rxc_word2 (d 0))) else rx_header_len (rx_bufs_get d n pkt))"
    by (auto simp: rx_bufs_get_def rx_buf_get_eq Let_def)
  then show ?case using Suc by (cases n) (auto simp: rx_bufs_get_def)
qed simp

lemma rx_bufs_get_len: "length (pkt_bufs (rx_bufs_get d n pkt)) = length (pkt_bufs pkt)"
  by (induction n) (simp_all add: rx_bufs_get_def rx_buf_get_eq Let_def)

lemma eth_pkt_rx_eq:
  fixes cmem :: "ptr \<Rightarrow> al_eth_rx_cdesc"
  assumes "comp_synced q h" "rx_packet (\<lambda>p. rxc_ctrl_meta (cmem p)) q h j"
  defines "d \<equiv> \<lambda>i. cmem (comp_slot q (h + i))"
  obtains q' where "al_eth_pkt_rx cmem q pkt =
      (if j < 19 then Some (of_nat (Suc j), q',
         (rx_bufs_get d (Suc j) (pkt\<lparr>rx_header_len := 0\<rparr>))\<lparr>pkt_flags := rxc_ctrl_meta (d j),
            l3_proto_idx := take_bit 5 (rxc_ctrl_meta (d j)), l4_proto_idx := take_bit 5 (drop_bit 8 (rxc_ctrl_meta (d j))),
            rxhash := ucast (drop_bit 16 (rxc_len (d j))), pkt_l3_offset := ucast (take_bit 7 (drop_bit 9 (rxc_word2 (d j))))\<rparr>)
       else None)"
    "comp_synced q' (h + j + 1)" "udma_pend q' = drop (j + 1) (udma_pend q)"
    "q' = al_udma_cdesc_ack (q\<lparr>comp_ring_id := lap_id (unat (q_size q)) (h + Suc j), pkt_crnt_descs := 0,
      comp_head_ptr := comp_slot q (h + Suc j)\<rparr>) (of_nat (Suc j))"
proof -
  define c :: u32 where "c = of_nat (Suc j)"
  obtain q1 where q1: "al_udma_cdesc_packet_get (\<lambda>p. rxc_ctrl_meta (cmem p)) q = Some (c, Some (comp_slot q h), q1)"
    "\<And>i. i \<le> j \<Longrightarrow> al_cdesc_next q1 (comp_slot q h) (of_nat i) = Some (comp_slot q (h + i))"
    "comp_synced (al_udma_cdesc_ack q1 c) (h + Suc j)" "udma_pend (al_udma_cdesc_ack q1 c) = drop (Suc j) (udma_pend q)"
    "unat c = Suc j"
    "q1 = q\<lparr>comp_ring_id := lap_id (unat (q_size q)) (h + Suc j), pkt_crnt_descs := 0, comp_head_ptr := comp_slot q (h + Suc j)\<rparr>"
    unfolding c_def using packet_get_synced [OF assms(1,2)] by blast
  have c0: "c \<noteq> 0" "c \<le> AL_ETH_PKT_MAX_BUFS \<longleftrightarrow> j < 19"
    using q1(5) by (auto simp: word_le_nat_alt AL_ETH_PKT_MAX_BUFS_def)
  have lp: "pkt_rx_loop cmem q1 (comp_slot q h) 0 (unat c) (x, p) = Some (d j, rx_bufs_get d (Suc j) p)" for x p
    using pkt_rx_loop_eq [of 0 "Suc j" q1 "comp_slot q h" "\<lambda>i. comp_slot q (h + i)" cmem x p] q1(2)
    by (simp only: q1(5) rx_bufs_get_def d_def) simp
  have m: "x AND AL_ETH_RX_L3_PROTO_IDX_MASK = take_bit 5 x" "x AND AL_ETH_RX_L4_PROTO_IDX_MASK = take_bit 5 x"
    "drop_bit AL_ETH_RX_HASH_SHIFT (x AND AL_ETH_RX_HASH_MASK) = drop_bit 16 x"
    "drop_bit AL_ETH_RX_L3_OFFSET_SHIFT (x AND AL_ETH_RX_L3_OFFSET_MASK) = take_bit 7 (drop_bit 9 x)" for x
  proof -
    have k: "AL_ETH_RX_L3_PROTO_IDX_MASK = mask 5" "AL_ETH_RX_L4_PROTO_IDX_MASK = mask 5" "AL_ETH_RX_HASH_MASK = push_bit 16 (mask 16)"
      "AL_ETH_RX_L3_OFFSET_MASK = push_bit 9 (mask 7)" "AL_ETH_RX_HASH_SHIFT = 16" "AL_ETH_RX_L3_OFFSET_SHIFT = 9"
      by (simp_all add: AL_ETH_RX_L3_PROTO_IDX_MASK_def AL_ETH_RX_L4_PROTO_IDX_MASK_def AL_ETH_RX_HASH_MASK_def
          AL_ETH_RX_L3_OFFSET_MASK_def AL_ETH_RX_HASH_SHIFT_def AL_ETH_RX_L3_OFFSET_SHIFT_def mask_eq_exp_minus_1)
    show "x AND AL_ETH_RX_L3_PROTO_IDX_MASK = take_bit 5 x" "x AND AL_ETH_RX_L4_PROTO_IDX_MASK = take_bit 5 x"
      unfolding k by (simp_all only: take_bit_eq_mask [symmetric])
    show "drop_bit AL_ETH_RX_HASH_SHIFT (x AND AL_ETH_RX_HASH_MASK) = drop_bit 16 x"
      "drop_bit AL_ETH_RX_L3_OFFSET_SHIFT (x AND AL_ETH_RX_L3_OFFSET_MASK) = take_bit 7 (drop_bit 9 x)"
      unfolding k by (rule bit_word_eqI, auto simp: field_bits bit_mask_iff dest: bit_imp_le_length)+
  qed
  show thesis
  proof (rule that [of "al_udma_cdesc_ack q1 c"])
    show "al_eth_pkt_rx cmem q pkt =
      (if j < 19 then Some (of_nat (Suc j), al_udma_cdesc_ack q1 c,
         (rx_bufs_get d (Suc j) (pkt\<lparr>rx_header_len := 0\<rparr>))\<lparr>pkt_flags := rxc_ctrl_meta (d j),
            l3_proto_idx := take_bit 5 (rxc_ctrl_meta (d j)), l4_proto_idx := take_bit 5 (drop_bit 8 (rxc_ctrl_meta (d j))),
            rxhash := ucast (drop_bit 16 (rxc_len (d j))), pkt_l3_offset := ucast (take_bit 7 (drop_bit 9 (rxc_word2 (d j))))\<rparr>)
       else None)"
      unfolding al_eth_pkt_rx_def q1(1) c_def [symmetric] m
      by (simp add: c0 lp AL_ETH_RX_L4_PROTO_IDX_SHIFT_def al_assert_def)
  qed (use q1 in \<open>simp_all add: c_def\<close>)
qed

text \<open>
  C28: reception of a packet.  When the engine has completed a packet of \<open>j + 1\<close> descriptors (at most 19), the
  call returns that count, the length of every buffer as its own descriptor reports it with the addresses kept,
  the header length of the first descriptor, and flags, protocols, hash and offset of the last one; it acknowledges
  exactly the descriptors of the packet.  A packet of more descriptors stops the kernel; without a new descriptor nothing changes.
\<close>

theorem eth_pkt_rx_outcome:
  fixes cmem :: "ptr \<Rightarrow> al_eth_rx_cdesc"
  assumes "comp_synced q h" "length (pkt_bufs pkt) = 19"
  defines "d \<equiv> \<lambda>i. cmem (comp_slot q (h + i))"
  shows "(rx_packet (\<lambda>p. rxc_ctrl_meta (cmem p)) q h j \<and> j < 19 \<longrightarrow>
      (\<exists>q' pkt'. al_eth_pkt_rx cmem q pkt = Some (of_nat (j + 1), q', pkt') \<and>
        comp_synced q' (h + j + 1) \<and> udma_pend q' = drop (j + 1) (udma_pend q) \<and>
        length (pkt_bufs pkt') = 19 \<and> map buf_addr (pkt_bufs pkt') = map buf_addr (pkt_bufs pkt) \<and>
        (\<forall>i \<le> j. buf_len (pkt_bufs pkt' ! i) = rx_len (d i)) \<and>
        rx_header_len pkt' = (if bit (rxc_word2 (d 0)) 31 then take_bit 14 (drop_bit 16 (rxc_word2 (d 0))) else 0) \<and>
        pkt_flags pkt' = rxc_ctrl_meta (d j) \<and> l3_proto_idx pkt' = take_bit 5 (rxc_ctrl_meta (d j)) \<and>
        l4_proto_idx pkt' = take_bit 5 (drop_bit 8 (rxc_ctrl_meta (d j))) \<and> rxhash pkt' = ucast (drop_bit 16 (rxc_len (d j))) \<and>
        pkt_l3_offset pkt' = ucast (take_bit 7 (drop_bit 9 (rxc_word2 (d j)))))) \<and>
    (rx_packet (\<lambda>p. rxc_ctrl_meta (cmem p)) q h j \<and> 19 \<le> j \<longrightarrow> al_eth_pkt_rx cmem q pkt = None) \<and>
    (\<not> comp_new (\<lambda>p. rxc_ctrl_meta (cmem p)) q h \<longrightarrow> al_eth_pkt_rx cmem q pkt = Some (0, q, pkt))"
proof (intro conjI impI; (elim conjE)?)
  assume p: "rx_packet (\<lambda>p. rxc_ctrl_meta (cmem p)) q h j" and j: "j < 19"
  have b: "pkt_bufs (rx_bufs_get d (Suc j) (pkt\<lparr>rx_header_len := 0\<rparr>)) =
      map (\<lambda>i. (pkt_bufs pkt ! i)\<lparr>buf_len := rx_len (d i)\<rparr>) [0..<Suc j] @ drop (Suc j) (pkt_bufs pkt)"
    using rx_bufs_get_bufs [of "Suc j" "pkt\<lparr>rx_header_len := 0\<rparr>" d] j assms(2) by simp
  have a: "map buf_addr (pkt_bufs (rx_bufs_get d (Suc j) (pkt\<lparr>rx_header_len := 0\<rparr>))) = map buf_addr (pkt_bufs pkt)"
    unfolding b using j assms(2) by (intro nth_equalityI) (auto simp: nth_append simp del: upt_Suc)
  have l: "buf_len (pkt_bufs (rx_bufs_get d (Suc j) (pkt\<lparr>rx_header_len := 0\<rparr>)) ! i) = rx_len (d i)" if "i \<le> j" for i
    unfolding b using that by (simp add: nth_append del: upt_Suc)
  note h = rx_bufs_get_header [of "Suc j" d "pkt\<lparr>rx_header_len := 0\<rparr>"] rx_bufs_get_len [of d "Suc j" "pkt\<lparr>rx_header_len := 0\<rparr>"]
  show "\<exists>q' pkt'. al_eth_pkt_rx cmem q pkt = Some (of_nat (j + 1), q', pkt') \<and>
        comp_synced q' (h + j + 1) \<and> udma_pend q' = drop (j + 1) (udma_pend q) \<and>
        length (pkt_bufs pkt') = 19 \<and> map buf_addr (pkt_bufs pkt') = map buf_addr (pkt_bufs pkt) \<and>
        (\<forall>i \<le> j. buf_len (pkt_bufs pkt' ! i) = rx_len (d i)) \<and>
        rx_header_len pkt' = (if bit (rxc_word2 (d 0)) 31 then take_bit 14 (drop_bit 16 (rxc_word2 (d 0))) else 0) \<and>
        pkt_flags pkt' = rxc_ctrl_meta (d j) \<and> l3_proto_idx pkt' = take_bit 5 (rxc_ctrl_meta (d j)) \<and>
        l4_proto_idx pkt' = take_bit 5 (drop_bit 8 (rxc_ctrl_meta (d j))) \<and> rxhash pkt' = ucast (drop_bit 16 (rxc_len (d j))) \<and>
        pkt_l3_offset pkt' = ucast (take_bit 7 (drop_bit 9 (rxc_word2 (d j))))"
    using j a l h assms(2) by (rule_tac eth_pkt_rx_eq [OF assms(1) p, of pkt]) (simp add: d_def del: of_nat_Suc)
next
  assume p: "rx_packet (\<lambda>p. rxc_ctrl_meta (cmem p)) q h j" and j: "19 \<le> j"
  show "al_eth_pkt_rx cmem q pkt = None" using j by (rule_tac eth_pkt_rx_eq [OF assms(1) p, of pkt]) simp
next
  assume n: "\<not> comp_new (\<lambda>p. rxc_ctrl_meta (cmem p)) q h"
  show "al_eth_pkt_rx cmem q pkt = Some (0, q, pkt)"
    using packet_get_none [OF assms(1) n] by (simp add: al_eth_pkt_rx_def)
qed


text \<open>A completion ring in which the packet of \<open>demo_cmem\<close> carries 100 bytes per buffer.\<close>

definition demo_eth_cmem :: "ptr \<Rightarrow> al_eth_rx_cdesc" where
  "demo_eth_cmem p = \<lparr>rxc_ctrl_meta = demo_cmem p OR AL_BIT 30, rxc_len = 0xABCD0064, rxc_word2 = 0, rxc_word3 = 0\<rparr>"

theorem eth_pkt_rx_outcome_witness:
  "\<exists>q' pkt'. al_eth_pkt_rx demo_eth_cmem demo_cq demo_pkt = Some (3, q', pkt') \<and> comp_synced q' 9 \<and>
     buf_len (pkt_bufs pkt' ! 2) = 100 \<and> rxhash pkt' = 0xABCD"
proof -
  have syn: "comp_synced demo_cq 6" using demo_cq_ok by (simp add: comp_synced_def demo_cq_simps)
  have le2: "i \<le> 2 \<longleftrightarrow> i = 0 \<or> i = 1 \<or> i = 2" for i :: nat by auto
  have p: "rx_packet (\<lambda>p. rxc_ctrl_meta (demo_eth_cmem p)) demo_cq 6 2"
    unfolding rx_packet_def demo_eth_cmem_def
    by (intro conjI; simp add: less_2_cases_iff le2 demo_cq_simps udma_in_flight_def AL_BIT_def; auto simp: demo_cq_simps)
  have l: "rx_len (demo_eth_cmem a) = 100" for a
    by (simp add: rx_len_def demo_eth_cmem_def demo_cmem_def bit_or_iff bit_AL_BIT)
  have hl: "rxc_len (demo_eth_cmem a) = 0xABCD0064" for a by (simp add: demo_eth_cmem_def)
  have len: "length (pkt_bufs demo_pkt) = 19" by (simp add: demo_pkt_def)
  obtain q' pkt' where r: "al_eth_pkt_rx demo_eth_cmem demo_cq demo_pkt = Some (of_nat (2 + 1), q', pkt')" "comp_synced q' (6 + 2 + 1)"
    "\<forall>i\<le>2. buf_len (pkt_bufs pkt' ! i) = rx_len (demo_eth_cmem (comp_slot demo_cq (6 + i)))"
    "rxhash pkt' = ucast (drop_bit 16 (rxc_len (demo_eth_cmem (comp_slot demo_cq (6 + 2)))))"
    using eth_pkt_rx_outcome [OF syn len, of demo_eth_cmem 2] p by auto
  from r show ?thesis by (intro exI [of _ q'] exI [of _ pkt']) (simp add: l hl)
qed

end
