(* ===== verification/Eth_Tso.thy ===== *)
theory Eth_Tso
  imports Eth_Hal
begin

text \<open>
  Segmentation offload in the transmit path of the network driver (\<open>al_eth_main.c\<close>): the segment size is reduced
  when the last segment would be a frame below the Ethernet minimum of 60 bytes.
\<close>

subsection \<open>The code\<close>

definition ETH_ZLEN :: u32 where "ETH_ZLEN = 60"
definition AL_ETH_TSO_FIX_MIN_MSS :: u32 where "AL_ETH_TSO_FIX_MIN_MSS = 64"
definition AL_ETH_TSO_FIX_FAST_MSS_THRESOLD :: u32 where "AL_ETH_TSO_FIX_FAST_MSS_THRESOLD = 260"

definition al_eth_is_mss_valid :: "u32 \<Rightarrow> u32 \<Rightarrow> u32 \<Rightarrow> bool" where
  "al_eth_is_mss_valid mss total_payload_len header_len =
     (let res_payload_len = total_payload_len mod mss
      in res_payload_len = 0 \<or> ETH_ZLEN \<le> header_len + res_payload_len)"

text \<open>
  \<open>header_len\<close> is the transport offset plus the TCP header length, \<open>skb_len\<close> and \<open>gso_size\<close> are fields of the
  socket buffer.  The comparison of the segment count with the pad is unsigned as in C; the search runs over signed numbers.
  The result is the status and the \<open>gso_size\<close> stored back.
\<close>

definition al_eth_tx_tso_mss_fix :: "u32 \<Rightarrow> u32 \<Rightarrow> u32 \<Rightarrow> u16 \<Rightarrow> rc \<times> u16" where
  "al_eth_tx_tso_mss_fix skb_len header_len orig_mss gso_size =
     (let total_payload_len = skb_len - header_len
      in if al_eth_is_mss_valid orig_mss total_payload_len header_len then (RcOk, gso_size)
         else if orig_mss < AL_ETH_TSO_FIX_MIN_MSS then (RcErr EINVAL, gso_size)
         else
           let last_frame_pad = 60 - sint header_len;
               new_mss =
                 (if AL_ETH_TSO_FIX_FAST_MSS_THRESOLD \<le> orig_mss then
                    if total_payload_len div orig_mss < of_int last_frame_pad then orig_mss - of_int last_frame_pad
                    else orig_mss - 1
                  else
                    case find (\<lambda>i. al_eth_is_mss_valid (orig_mss - of_nat i) total_payload_len header_len)
                           [1..<Suc (nat last_frame_pad)] of
                      Some i \<Rightarrow> orig_mss - of_nat i
                    | None \<Rightarrow> orig_mss)
           in (RcOk, ucast new_mss))"

subsection \<open>Remainders after a reduction of the segment size\<close>

text \<open>
  \<open>tso_ok pad t m\<close>: segments of \<open>m\<close> bytes cut \<open>t\<close> bytes without a rest or with a rest of at least \<open>pad\<close> bytes.
\<close>

definition tso_ok :: "nat \<Rightarrow> nat \<Rightarrow> nat \<Rightarrow> bool" where
  "tso_ok pad t m \<longleftrightarrow> t mod m = 0 \<or> pad \<le> t mod m"

lemma tso_ok_by_rem:
  fixes V :: int
  assumes "int t = K * int m + V" "pad \<le> m" "0 < m"
  shows "0 \<le> V \<and> V < int m \<and> (V = 0 \<or> int pad \<le> V) \<Longrightarrow> tso_ok pad t m"
    "V < 0 \<and> int pad \<le> V + int m \<Longrightarrow> tso_ok pad t m"
proof -
  have e: "int (t mod m) = V mod int m" using assms(1) by (simp add: zmod_int)
  show "0 \<le> V \<and> V < int m \<and> (V = 0 \<or> int pad \<le> V) \<Longrightarrow> tso_ok pad t m"
    using e by (auto simp: tso_ok_def)
  assume v: "V < 0 \<and> int pad \<le> V + int m"
  then have "V mod int m = V + int m" using assms(3) by (subst mod_add_self2 [symmetric], intro mod_pos_pos_trivial) auto
  then show "tso_ok pad t m" using e v by (auto simp: tso_ok_def)
qed

lemma tso_fast:
  assumes "260 \<le> o'" "t \<le> 65535" "o' \<le> t" "0 < t mod o'" "t mod o' < pad" "pad \<le> 6"
  shows "tso_ok pad t (if t div o' < pad then o' - pad else o' - 1)"
proof -
  define k r where "k = t div o'" and "r = t mod o'"
  have t: "t = k * o' + r" unfolding k_def r_def by (rule div_mult_mod_eq [symmetric])
  have "k * 260 \<le> k * o'" using assms(1) by simp
  then have "k * 260 \<le> 65535" using t assms(2) by linarith
  then have k: "k \<le> 252" "1 \<le> k"
    using assms(1,3) by (simp_all add: k_def Suc_le_eq div_greater_zero_iff)
  show ?thesis
  proof (cases "k < pad")
    case True
    have "int t = int k * int (o' - pad) + (int k * int pad + int r)" using t assms(1,6) by (simp add: of_nat_diff algebra_simps)
    moreover have "int pad \<le> int k * int pad + int r" using k(2) by (simp add: mult_le_cancel_right1 add_increasing2)
    moreover have "k * pad \<le> 5 * 6" using True assms(6) by (intro mult_le_mono) auto
    moreover have "int k * int pad + int r < int (o' - pad)" using \<open>k * pad \<le> 5 * 6\<close> assms(1,5,6) r_def by (simp add: of_nat_mult [symmetric] del: of_nat_mult)
    ultimately show ?thesis using True tso_ok_by_rem(1) [of t "int k" "o' - pad" _ pad] assms(1,6) k_def by auto
  next
    case False
    have "int t = int k * int (o' - 1) + (int k + int r)" using t assms(1) by (simp add: of_nat_diff algebra_simps)
    then show ?thesis using False tso_ok_by_rem(1) [of t "int k" "o' - 1" _ pad] assms k r_def k_def by auto
  qed
qed

lemma tso_rem_step:
  fixes k a m s r i :: int
  assumes "k = a * (m - 1) + s - r"
  shows "k * (m - i) + (k * i + r) = (k + i * a) * (m - i) + (i * (i - 1) * a + i * s - (i - 1) * r)"
  unfolding assms by (simp add: algebra_simps)

text \<open>
  The arithmetic core: for every pad from 2 to 6 one of the reductions by 2 to 5 leaves an acceptable remainder.  The
  unacceptable remainders of the reductions are excluded one after the other.
\<close>

definition bad_rem :: "int \<Rightarrow> int \<Rightarrow> int \<Rightarrow> int \<Rightarrow> bool" where
  "bad_rem P M i W \<longleftrightarrow> \<not> (0 \<le> W \<and> W < M - i \<and> (W = 0 \<or> P \<le> W)) \<and> \<not> (W < 0 \<and> P \<le> W + (M - i))"

lemma no_bad_rems:
  fixes A S R M P :: int
  assumes f: "1 \<le> A" "A \<le> 16" "1 \<le> S" "S < P" "1 \<le> R" "R < P" "64 \<le> M" "P \<le> 6"
    and c: "bad_rem P M 2 (2*A + 2*S - R)" "3 \<le> P \<Longrightarrow> bad_rem P M 3 (6*A + 3*S - 2*R)"
      "4 \<le> P \<Longrightarrow> bad_rem P M 4 (12*A + 4*S - 3*R)" "5 \<le> P \<Longrightarrow> bad_rem P M 5 (20*A + 5*S - 4*R)"
  shows False
proof -
  have v2: "1 \<le> 2*A + 2*S - R" "2*A + 2*S - R < P" using c(1) f unfolding bad_rem_def by linarith+
  have p3: "3 \<le> P" using v2 f by linarith
  have v3: "1 \<le> 6*A + 3*S - 2*R" "6*A + 3*S - 2*R < P" using c(2) [OF p3] f v2 unfolding bad_rem_def by linarith+
  have p4: "4 \<le> P" using v2 v3 f by linarith
  have v4: "1 \<le> 12*A + 4*S - 3*R" "12*A + 4*S - 3*R < P" using c(3) [OF p4] f v2 v3 unfolding bad_rem_def by linarith+
  have p5: "5 \<le> P" using v2 v3 v4 f by linarith
  show False using c(4) [OF p5] f v2 v3 v4 unfolding bad_rem_def by linarith
qed

lemma tso_slow:
  assumes "64 \<le> o'" "t \<le> 65535" "o' \<le> t" "0 < t mod o'" "t mod o' < pad" "pad \<le> 6"
  shows "\<exists>i \<in> {1..pad}. tso_ok pad t (o' - i)"
proof (rule ccontr)
  assume no: "\<not> (\<exists>i \<in> {1..pad}. tso_ok pad t (o' - i))"
  define k r where "k = t div o'" and "r = t mod o'"
  have t: "t = k * o' + r" unfolding k_def r_def by (rule div_mult_mod_eq [symmetric])
  have "k * 64 \<le> k * o'" using assms(1) by simp
  then have "k * 64 \<le> 65535" using t assms(2) by linarith
  then have k: "k \<le> 1023" "1 \<le> k"
    using assms(1,3) by (simp_all add: k_def Suc_le_eq div_greater_zero_iff)
  define a s where "a = (k + r) div (o' - 1)" and "s = (k + r) mod (o' - 1)"
  have ks: "k + r = a * (o' - 1) + s" unfolding a_def s_def by (rule div_mult_mod_eq [symmetric])
  have r: "1 \<le> r" "r < pad" using assms by (auto simp: r_def)
  have bad: "\<not> (0 \<le> V \<and> V < int (o' - i) \<and> (V = 0 \<or> int pad \<le> V))" "\<not> (V < 0 \<and> int pad \<le> V + int (o' - i))"
    if "1 \<le> i" "i \<le> pad" "int t = K * int (o' - i) + V" for i K V
  proof -
    have m: "pad \<le> o' - i" "0 < o' - i" using that assms(1,6) by linarith+
    have "\<not> tso_ok pad t (o' - i)" using no that by auto
    then show "\<not> (0 \<le> V \<and> V < int (o' - i) \<and> (V = 0 \<or> int pad \<le> V))" "\<not> (V < 0 \<and> int pad \<le> V + int (o' - i))"
      using tso_ok_by_rem [OF that(3) m] by blast+
  qed
  have rem: "int t = int k * int (o' - i) + (int k * int i + int r)" if "i \<le> pad" for i
    using t that assms(1,6) by (simp add: of_nat_diff algebra_simps)
  have s1: "1 \<le> s" "s < pad"
  proof -
    have "t mod (o' - 1) = s" 
    proof -
      obtain o1 where o1: "o' = Suc o1" using assms(1) by (cases o') auto
      have "t = k * (o' - 1) + (k + r)" unfolding t o1 by simp
      then show ?thesis unfolding s_def by simp
    qed
    moreover have "\<not> tso_ok pad t (o' - 1)" using no r by auto
    ultimately show "1 \<le> s" "s < pad" by (auto simp: tso_ok_def)
  qed
  have apos: "1 \<le> a"
  proof (rule ccontr)
    assume "\<not> 1 \<le> a"
    then have e: "k + r = s" using ks by simp
    have "k * pad \<le> 4 * 6" using e s1 r assms(6) by (intro mult_le_mono) auto
    moreover have "int pad \<le> int k * int pad + int r" using k(2) by (simp add: mult_le_cancel_right1 add_increasing2)
    moreover have "int k * int pad + int r < int (o' - pad)" using \<open>k * pad \<le> 4 * 6\<close> assms(1,6) r by (simp add: of_nat_mult [symmetric] del: of_nat_mult)
    ultimately show False using bad(1) [OF _ _ rem, of pad] r by auto
  qed
  have "63 \<le> o' - 1" using assms(1) by linarith
  then have "a * 63 \<le> a * (o' - 1)" by (rule mult_le_mono2)
  then have a16: "a \<le> 16" using ks k r assms(6) by linarith
  have V: "int t = (int k + int i * int a) * int (o' - i) + (int i * int (i - 1) * int a + int i * int s - (int i - 1) * int r)" if "1 \<le> i" "i \<le> pad" for i
  proof -
    have "int (k + r) = int (a * (o' - 1) + s)" using ks by simp
    then have "int k = int a * (int o' - 1) + int s - int r" using assms(1) by (simp add: of_nat_diff)
    moreover have "int (o' - i) = int o' - int i" "int (i - 1) = int i - 1" using that assms(1,6) by (simp_all add: of_nat_diff)
    moreover have "int t = int k * (int o' - int i) + (int k * int i + int r)" using rem that calculation(2) by simp
    ultimately show ?thesis using tso_rem_step [of "int k" "int a" "int o'" "int s" "int r" "int i"] by simp
  qed
  have c: "bad_rem (int pad) (int o') (int i) W"
    if "1 \<le> i" "i \<le> pad" "W = int i * int (i - 1) * int a + int i * int s - (int i - 1) * int r" for i W
  proof -
    have "int (o' - i) = int o' - int i" using that assms(1,6) by (simp add: of_nat_diff)
    then show ?thesis using bad [OF that(1,2) V] that by (auto simp: bad_rem_def)
  qed
  show False
    using c [of 2] c [of 3] c [of 4] c [of 5] apos a16 s1 r assms(1,6)
    by (intro no_bad_rems [of "int a" "int s" "int pad" "int r" "int o'"]) auto
qed

subsection \<open>The fix\<close>

lemma mss_valid_tso_ok:
  assumes "unat header_len < 2 ^ 31" "unat t < 2 ^ 31"
  shows "al_eth_is_mss_valid m t header_len \<longleftrightarrow> tso_ok (60 - unat header_len) (unat t) (unat m)"
proof -
  have r: "unat (t mod m) = unat t mod unat m" by (simp add: unat_mod_distrib)
  have "unat t mod unat m < 2 ^ 31" using assms(2) by (rule le_less_trans [OF mod_less_eq_dividend])
  then have "unat header_len + unat (t mod m) < 2 ^ 31 + 2 ^ 31" using assms(1) unfolding r by (rule add_strict_mono [rotated])
  then have "unat header_len + unat (t mod m) < 2 ^ LENGTH(32)" by simp
  then have s: "unat (header_len + t mod m) = unat header_len + unat t mod unat m"
    unfolding r [symmetric] by (rule unat_add_lem [THEN iffD1])
  have z: "t mod m = 0 \<longleftrightarrow> unat t mod unat m = 0" unfolding r [symmetric] by (simp add: unat_eq_zero)
  show ?thesis
    unfolding al_eth_is_mss_valid_def Let_def ETH_ZLEN_def word_le_nat_alt s z tso_ok_def by auto
qed

lemma sint_unat: "unat x < 2 ^ 31 \<Longrightarrow> sint x = int (unat x)" for x :: u32
proof -
  assume x: "unat x < 2 ^ 31"
  have u: "uint x = int (unat x)" by simp
  have "signed_take_bit 31 (int k) = int k" if "k < 2 ^ 31" for k
    using that by (intro signed_take_bit_int_eq_self) simp_all
  from this [OF x] have "signed_take_bit (LENGTH(32) - Suc 0) (int (unat x)) = int (unat x)" by simp
  then show ?thesis unfolding sint_uint u .
qed

lemma find_first:
  assumes "\<exists>i \<in> {1..n}. P i"
  obtains i where "find P [1..<Suc n] = Some i" "P i" "1 \<le> i" "i \<le> n"
proof (cases "find P [1..<Suc n]")
  case None
  then show ?thesis using assms by (auto simp: find_None_iff)
next
  case (Some i)
  then have "P i" "i \<in> set [1..<Suc n]" by (auto simp: find_Some_iff simp del: upt_Suc)
  then show ?thesis using that Some by auto
qed

lemma unat_reduce: "k \<le> unat m \<Longrightarrow> unat (m - of_nat k) = unat m - k" for m :: u32
proof -
  assume k: "k \<le> unat m"
  then have "k < 2 ^ LENGTH(32)" using unsigned_less [of m] by (rule le_less_trans)
  then have "unat (of_nat k :: u32) = k" by (simp add: unsigned_of_nat take_bit_nat_eq_self)
  with k show ?thesis by (simp add: unat_sub word_le_nat_alt)
qed

text \<open>The reduced segment size, as a number.\<close>

lemma tso_fix_new_mss:
  fixes orig total header :: u32
  assumes "54 \<le> unat header" "unat header < 2 ^ 31" "64 \<le> unat orig" "unat orig \<le> unat total" "unat total \<le> 65535"
    and "\<not> al_eth_is_mss_valid orig total header"
  defines "new_mss \<equiv> (if AL_ETH_TSO_FIX_FAST_MSS_THRESOLD \<le> orig then
      if total div orig < of_int (60 - sint header) then orig - of_int (60 - sint header) else orig - 1
    else case find (\<lambda>i. al_eth_is_mss_valid (orig - of_nat i) total header) [1..<Suc (nat (60 - sint header))] of
        Some i \<Rightarrow> orig - of_nat i | None \<Rightarrow> orig)"
  shows "\<exists>j \<le> 6. unat new_mss = unat orig - j \<and> al_eth_is_mss_valid new_mss total header"
proof -
  define pad where "pad = 60 - unat header"
  have ok: "al_eth_is_mss_valid m total header \<longleftrightarrow> tso_ok pad (unat total) (unat m)" for m
    using mss_valid_tso_ok [of header total m] assms(2,5) by (simp add: pad_def)
  have inv: "0 < unat total mod unat orig" "unat total mod unat orig < pad"
    using assms(6) by (auto simp: ok tso_ok_def)
  have p: "pad \<le> 6" "0 < pad" using assms(1) inv by (auto simp: pad_def)
  have sp: "60 - sint header = int pad" using p assms(2) by (simp add: sint_unat pad_def)
  have ofp: "(of_int (60 - sint header) :: u32) = of_nat pad" by (simp add: sp)
  have up: "unat (of_nat pad :: u32) = pad" using p by (simp add: unsigned_of_nat take_bit_nat_eq_self)
  have d: "total div orig < of_nat pad \<longleftrightarrow> unat total div unat orig < pad"
    by (simp add: word_less_nat_alt unat_div_distrib up)
  have red: "unat (orig - of_nat i) = unat orig - i" if "i \<le> 6" for i
    using that assms(3) by (intro unat_reduce) simp
  show ?thesis
  proof (cases "AL_ETH_TSO_FIX_FAST_MSS_THRESOLD \<le> orig")
    case True
    then have big: "260 \<le> unat orig" by (simp add: word_le_nat_alt AL_ETH_TSO_FIX_FAST_MSS_THRESOLD_def)
    have "unat new_mss = unat orig - (if unat total div unat orig < pad then pad else 1)"
      using True red [of pad] red [of 1] p unfolding new_mss_def ofp d by simp
    moreover have "tso_ok pad (unat total) (unat orig - (if unat total div unat orig < pad then pad else 1))"
      using tso_fast [OF big assms(5,4) inv p(1)] by (simp split: if_splits)
    ultimately show ?thesis using p by (intro exI [of _ "if unat total div unat orig < pad then pad else 1"]) (simp add: ok)
  next
    case False
    have "\<exists>i \<in> {1..pad}. al_eth_is_mss_valid (orig - of_nat i) total header"
      using tso_slow [OF assms(3,5,4) inv p(1)] red p(1) by (auto simp: ok)
    then obtain i where i: "find (\<lambda>i. al_eth_is_mss_valid (orig - of_nat i) total header) [1..<Suc pad] = Some i"
      "al_eth_is_mss_valid (orig - of_nat i) total header" "1 \<le> i" "i \<le> pad"
      by (rule find_first)
    have "new_mss = orig - of_nat i" using False i(1) by (simp add: new_mss_def sp del: upt_Suc)
    then show ?thesis using i red [of i] p(1) by (intro exI [of _ i]) simp
  qed
qed

text \<open>
  C29: the segmentation fix works.  For every TCP packet of at least one full segment and at most 65535 bytes of
  payload, with headers of at least 54 bytes and a segment size of at least 64, the fix succeeds with a
  segment size at most six smaller for which every segment is a full-size Ethernet frame.  A smaller
  segment size with a short last segment is refused with \<open>-EINVAL\<close> and left alone.
\<close>

theorem tso_mss_fix_valid:
  assumes "54 \<le> unat header_len" "unat header_len < 2 ^ 31" "header_len \<le> skb_len"
    and "unat gso_size \<le> unat skb_len - unat header_len" "unat skb_len - unat header_len \<le> 65535"
  shows "(64 \<le> unat gso_size \<longrightarrow>
      (\<exists>g. al_eth_tx_tso_mss_fix skb_len header_len (ucast gso_size) gso_size = (RcOk, g) \<and>
        al_eth_is_mss_valid (ucast g) (skb_len - header_len) header_len \<and> g \<le> gso_size \<and> unat gso_size \<le> unat g + 6)) \<and>
    (unat gso_size < 64 \<and> \<not> al_eth_is_mss_valid (ucast gso_size) (skb_len - header_len) header_len \<longrightarrow>
      al_eth_tx_tso_mss_fix skb_len header_len (ucast gso_size) gso_size = (RcErr EINVAL, gso_size))"
proof (intro conjI impI)
  let ?t = "skb_len - header_len" and ?o = "ucast gso_size :: u32"
  have t: "unat ?t = unat skb_len - unat header_len" using assms(3) by (simp add: unat_sub)
  have lt: "?o < AL_ETH_TSO_FIX_MIN_MSS \<longleftrightarrow> unat gso_size < 64"
    by (simp add: word_less_nat_alt AL_ETH_TSO_FIX_MIN_MSS_def)
  {
    assume big: "64 \<le> unat gso_size"
    show "\<exists>g. al_eth_tx_tso_mss_fix skb_len header_len ?o gso_size = (RcOk, g) \<and>
        al_eth_is_mss_valid (ucast g) ?t header_len \<and> g \<le> gso_size \<and> unat gso_size \<le> unat g + 6"
    proof (cases "al_eth_is_mss_valid ?o ?t header_len")
      case True
      then show ?thesis by (intro exI [of _ gso_size]) (simp add: al_eth_tx_tso_mss_fix_def)
    next
      case False
      define n where "n = (if AL_ETH_TSO_FIX_FAST_MSS_THRESOLD \<le> ?o then
          if ?t div ?o < of_int (60 - sint header_len) then ?o - of_int (60 - sint header_len) else ?o - 1
        else case find (\<lambda>i. al_eth_is_mss_valid (?o - of_nat i) ?t header_len) [1..<Suc (nat (60 - sint header_len))] of
            Some i \<Rightarrow> ?o - of_nat i | None \<Rightarrow> ?o)"
      obtain j where j: "j \<le> 6" "unat n = unat ?o - j" "al_eth_is_mss_valid n ?t header_len"
        using tso_fix_new_mss [OF assms(1,2) _ _ _ False, folded n_def] big assms(4,5) t by auto
      have "unat gso_size < 2 ^ LENGTH(16)" by (rule unsigned_less)
      then have nl: "unat n < 2 ^ 16" using j(2) by simp
      then have "ucast (ucast n :: u16) = n" by (simp add: word_unat_eq_iff unsigned_ucast_eq unsigned_take_bit_eq take_bit_nat_eq_self)
      moreover have "unat (ucast n :: u16) = unat gso_size - j"
        using nl j(2) by (simp add: unsigned_ucast_eq take_bit_nat_eq_self)
      moreover have "al_eth_tx_tso_mss_fix skb_len header_len ?o gso_size = (RcOk, ucast n)"
        using False big lt unfolding al_eth_tx_tso_mss_fix_def n_def Let_def by simp
      ultimately show ?thesis using j by (intro exI [of _ "ucast n"]) (simp add: word_le_nat_alt)
    qed
  }
  assume "unat gso_size < 64 \<and> \<not> al_eth_is_mss_valid ?o ?t header_len"
  then show "al_eth_tx_tso_mss_fix skb_len header_len ?o gso_size = (RcErr EINVAL, gso_size)"
    using lt by (simp add: al_eth_tx_tso_mss_fix_def)
qed

theorem tso_mss_fix_valid_witness:
  "\<exists>g. al_eth_tx_tso_mss_fix (54 + 2 * 1460 + 1) 54 1460 1460 = (RcOk, g) \<and>
     al_eth_is_mss_valid (ucast g) (54 + 2 * 1460 + 1 - 54) 54 \<and> g \<le> 1460"
  using tso_mss_fix_valid [of 54 "54 + 2 * 1460 + 1" 1460] by (auto simp: word_le_nat_alt)

end
