(* ===== verification/Eth_Tx.thy ===== *)
theory Eth_Tx
  imports Eth_Hal_Props Eth_Tso
begin

text \<open>
  The transmit path of the network driver (\<open>al_eth_main.c\<close>): resources of the transmit queues, checksum and
  segmentation offload, transmission of a socket buffer, completion, release of uncompleted buffers.

  A socket buffer is the record of the values the driver reads; its pointer is \<open>skb_id\<close>.  The answers of the kernel are
  arguments: \<open>pad\<close> is \<open>eth_skb_pad\<close> (\<^term>\<open>None\<close> when it failed and released the buffer), \<open>dma i\<close> is the address that mapping number
  \<open>i\<close> of a call got (0 is the linear part, \<open>i + 1\<close> is fragment \<open>i\<close>; \<^term>\<open>None\<close> is a mapping error).  The calls into the
  kernel that hand over or give back resources are recorded in \<open>tx_log\<close>.  \<^term>\<open>None\<close> as the result of an operation is a
  kernel stop: an assertion, \<open>BUG\<close>, the use of a null pointer or an access outside an array.  Log messages, prefetches,
  memory barriers and the statistics lock have no effect here.
\<close>

subsection \<open>Constants\<close>

text \<open>\<open>MAX_SKB_FRAGS\<close> has its default kernel configuration.\<close>

definition MAX_SKB_FRAGS :: u32 where "MAX_SKB_FRAGS = 17"
definition AL_ETH_DEFAULT_TX_SW_DESCS :: nat where "AL_ETH_DEFAULT_TX_SW_DESCS = 2 * 512"
definition AL_ETH_DEFAULT_TX_HW_DESCS :: nat where "AL_ETH_DEFAULT_TX_HW_DESCS = 2 * 512"

definition AL_ETH_TX_WAKEUP_THRESH :: u32 where
  "AL_ETH_TX_WAKEUP_THRESH =
     (if of_nat AL_ETH_DEFAULT_TX_SW_DESCS div 4 < MAX_SKB_FRAGS + 2
      then of_nat AL_ETH_DEFAULT_TX_SW_DESCS div 4 else MAX_SKB_FRAGS + 2)"

definition AL_ETH_TX_RING_IDX_NEXT :: "u16 \<Rightarrow> u16" where
  "AL_ETH_TX_RING_IDX_NEXT idx = (idx + 1) AND (of_nat AL_ETH_DEFAULT_TX_SW_DESCS - 1)"

definition IPPROTO_TCP :: u8 where "IPPROTO_TCP = 6"
definition IPPROTO_UDP :: u8 where "IPPROTO_UDP = 17"
definition IPVERSION :: "4 word" where "IPVERSION = 4"
definition ETH_P_8021Q_be :: u16 where "ETH_P_8021Q_be = 0x0081"
definition VLAN_HLEN :: u32 where "VLAN_HLEN = 4"

lemmas tx_consts = MAX_SKB_FRAGS_def AL_ETH_DEFAULT_TX_SW_DESCS_def AL_ETH_DEFAULT_TX_HW_DESCS_def
  AL_ETH_TX_WAKEUP_THRESH_def

subsection \<open>State\<close>

text \<open>\<open>skb_frags\<close> are the lengths of the fragments.\<close>

record sk_buff =
  skb_id :: nat
  skb_len :: u32
  skb_headlen :: u32
  skb_frags :: "u32 list"
  gso_size :: u16
  csum_partial :: bool
  ip_version :: "4 word"
  ip_protocol :: u8
  ipv6_nexthdr :: u8
  skb_protocol :: u16
  network_header_len :: u32
  network_offset :: u32
  transport_offset :: u32
  tcp_doff :: "4 word"

record al_eth_tx_buffer =
  tx_skb :: "sk_buff option"
  tx_hal_pkt :: al_eth_pkt
  tx_descs :: u32

text \<open>The fields of \<open>struct al_eth_ring\<close> that transmission uses; the empty list is the null pointer.\<close>

record al_eth_tx_ring =
  tx_dma_q :: al_udma_q
  next_to_use :: u16
  next_to_clean :: u16
  unmask_reg_offset :: ptr
  unmask_val :: u32
  hal_meta :: al_eth_meta_data
  tx_buffer_info :: "al_eth_tx_buffer list"
  sw_count :: nat
  hw_count :: nat
  descs_size :: nat
  ring_packets :: u32
  ring_bytes :: u32
  tx_q_params :: al_udma_q_params
  stat_packets :: u64
  stat_bytes :: u64

datatype tx_event =
    MapSingle u64 u32 | MapPage u64 u32 | UnmapSingle u64 u32 | UnmapPage u64 u32
  | KfreeSkb nat | TxSentQueue u32 | TxCompletedQueue u32 u32 | TxResetQueue

text \<open>One transmit queue with the memory of its descriptors, the registers, the stop flag of the kernel's queue and the log.\<close>

record tx_state =
  tx_ring :: al_eth_tx_ring
  tx_mem :: desc_mem
  tx_io :: mmio
  txq_stopped :: bool
  tx_log :: "tx_event list"

subsection \<open>Checksum and segmentation offload\<close>

definition tcp_hdrlen :: "sk_buff \<Rightarrow> u32" where
  "tcp_hdrlen skb = ucast (tcp_doff skb) * 4"

text \<open>
  The results are the status, the metadata of the ring, the packet and the socket buffer, whose segment size may have
  been reduced.  The packet points to the metadata of the ring; the pointer is used before the next call only, so the
  packet holds its value.
\<close>

definition al_eth_tx_csum :: "al_eth_meta_data \<Rightarrow> al_eth_pkt \<Rightarrow> sk_buff \<Rightarrow> rc \<times> al_eth_meta_data \<times> al_eth_pkt \<times> sk_buff" where
  "al_eth_tx_csum meta hal_pkt skb =
     (let mss = ucast (gso_size skb) :: u32
      in if csum_partial skb \<or> mss \<noteq> 0 then
           let hal_pkt = hal_pkt\<lparr>pkt_flags := pkt_flags hal_pkt OR
                 (if mss \<noteq> 0 then AL_ETH_TX_FLAGS_TSO OR AL_ETH_TX_FLAGS_L4_CSUM
                  else AL_ETH_TX_FLAGS_L4_CSUM OR AL_ETH_TX_FLAGS_L4_PARTIAL_CSUM)\<rparr>;
               (hal_pkt, l4_protocol) =
                 (if ip_version skb = IPVERSION then
                    (hal_pkt\<lparr>l3_proto_idx := AL_ETH_PROTO_ID_IPv4,
                       pkt_flags := (if mss \<noteq> 0 then pkt_flags hal_pkt OR AL_ETH_TX_FLAGS_IPV4_L3_CSUM else pkt_flags hal_pkt)\<rparr>,
                     ip_protocol skb)
                  else if ip_version skb = 6 then (hal_pkt\<lparr>l3_proto_idx := AL_ETH_PROTO_ID_IPv6\<rparr>, ipv6_nexthdr skb)
                  else (hal_pkt, 0));
               (rc, hal_pkt, skb) =
                 (if l4_protocol = IPPROTO_TCP then
                    let hal_pkt = hal_pkt\<lparr>l4_proto_idx := AL_ETH_PROTO_ID_TCP\<rparr>
                    in if mss \<noteq> 0 then
                         let (rc, g) = al_eth_tx_tso_mss_fix (skb_len skb) (transport_offset skb + tcp_hdrlen skb) mss (gso_size skb)
                         in (rc, hal_pkt, skb\<lparr>gso_size := g\<rparr>)
                       else (RcOk, hal_pkt, skb)
                  else if l4_protocol = IPPROTO_UDP then (RcOk, hal_pkt\<lparr>l4_proto_idx := AL_ETH_PROTO_ID_UDP\<rparr>, skb)
                  else (RcOk, hal_pkt, skb))
           in if rc \<noteq> RcOk then (rc, meta, hal_pkt, skb)
              else
                let hal_pkt = hal_pkt\<lparr>source_vlan_count := (if skb_protocol skb = ETH_P_8021Q_be then 1 else 0)\<rparr>;
                    meta = meta\<lparr>words_valid := 4,
                      l3_header_len := ucast (network_header_len skb),
                      l3_header_offset := ucast (network_offset skb - VLAN_HLEN * ucast (source_vlan_count hal_pkt)),
                      l4_header_len := ucast (tcp_doff skb),
                      mss_idx_sel := 0,
                      mss_val := ucast (gso_size skb)\<rparr>
                in (RcOk, meta, hal_pkt\<lparr>pkt_meta := Some meta\<rparr>, skb)
         else (RcOk, meta, hal_pkt\<lparr>pkt_meta := None\<rparr>, skb))"

subsection \<open>Transmission\<close>

text \<open>The unmapping of the linear part and of \<open>n\<close> pages, in the order of the buffers.\<close>

definition unmap_bufs :: "al_buf list \<Rightarrow> nat \<Rightarrow> tx_event list option" where
  "unmap_bufs bfs n =
     (if n < length bfs
      then Some (UnmapSingle (buf_addr (bfs ! 0)) (buf_len (bfs ! 0)) #
                 map (\<lambda>j. UnmapPage (buf_addr (bfs ! Suc j)) (buf_len (bfs ! Suc j))) [0..<n])
      else None)"

text \<open>
  The loop that maps the fragments: \<open>i\<close> fragments are mapped, the result is the number of mapped fragments and whether all
  are.
\<close>

fun map_frags :: "(nat \<Rightarrow> u64 option) \<Rightarrow> nat \<Rightarrow> u32 list \<Rightarrow> al_buf list \<times> tx_event list \<Rightarrow> (nat \<times> bool \<times> al_buf list \<times> tx_event list) option" where
  "map_frags dma i [] (bfs, log) = Some (i, True, bfs, log)"
| "map_frags dma i (len # frags) (bfs, log) =
     (case dma (Suc i) of
        None \<Rightarrow> Some (i, False, bfs, log)
      | Some a \<Rightarrow>
          if Suc i < length bfs
          then map_frags dma (Suc i) frags (bfs[Suc i := \<lparr>buf_addr = a, buf_len = len\<rparr>], log @ [MapPage a len])
          else None)"

text \<open>The slot of the packet in \<open>tx_buffer_info\<close> is rewritten.\<close>

definition set_tx_info :: "nat \<Rightarrow> al_eth_tx_buffer \<Rightarrow> tx_state \<Rightarrow> tx_state" where
  "set_tx_info i info s = s\<lparr>tx_ring := (tx_ring s)\<lparr>tx_buffer_info := (tx_buffer_info (tx_ring s))[i := info]\<rparr>\<rparr>"

definition tx_emit :: "tx_event list \<Rightarrow> tx_state \<Rightarrow> tx_state" where
  "tx_emit evs s = s\<lparr>tx_log := tx_log s @ evs\<rparr>"

text \<open>The labels \<open>tx_csum_error\<close> and \<open>dma_error\<close>; \<open>i\<close> fragments were mapped.\<close>

definition xmit_error :: "nat \<Rightarrow> al_eth_tx_buffer \<Rightarrow> sk_buff \<Rightarrow> nat \<Rightarrow> tx_state \<Rightarrow> tx_state option" where
  "xmit_error ntu tx_info skb i s =
     (let tx_info = tx_info\<lparr>tx_skb := None\<rparr>; s = set_tx_info ntu tx_info s
      in do { ev \<leftarrow> unmap_bufs (pkt_bufs (tx_hal_pkt tx_info)) i;
              Some (tx_emit (ev @ [KfreeSkb (skb_id skb)]) s) })"

text \<open>After the mapping of all buffers: accounting, descriptors, flow control, doorbell.\<close>

definition xmit_submit :: "nat \<Rightarrow> al_eth_tx_buffer \<Rightarrow> sk_buff \<Rightarrow> tx_state \<Rightarrow> tx_state option" where
  "xmit_submit ntu tx_info skb s =
     (let last_frag = length (skb_frags skb);
          hal_pkt = (tx_hal_pkt tx_info)\<lparr>num_of_bufs := of_nat (1 + last_frag)\<rparr>
      in do {
        al_assert (last_frag \<le> unat (AL_ETH_PKT_MAX_BUFS - 2));
        let s = tx_emit [TxSentQueue (skb_len skb)] s;
        let r = tx_ring s;
        let r = r\<lparr>stat_packets := stat_packets r + 1, stat_bytes := stat_bytes r + ucast (skb_len skb)\<rparr>;
        let r = r\<lparr>next_to_use := AL_ETH_TX_RING_IDX_NEXT (of_nat ntu)\<rparr>;
        (descs, q, mem) \<leftarrow> al_eth_tx_pkt_prepare hal_pkt (tx_dma_q r, tx_mem s);
        let s = s\<lparr>tx_ring := r\<lparr>tx_dma_q := q\<rparr>, tx_mem := mem\<rparr>;
        let s = set_tx_info ntu (tx_info\<lparr>tx_hal_pkt := hal_pkt, tx_descs := descs\<rparr>) s;
        let s = (if al_udma_available_get q < MAX_SKB_FRAGS + 2 then s\<lparr>txq_stopped := True\<rparr> else s);
        m \<leftarrow> al_eth_tx_dma_action q descs (tx_io s);
        Some (s\<lparr>tx_io := m\<rparr>) })"

text \<open>Every path that returns has the result \<open>NETDEV_TX_OK\<close>.\<close>

definition al_eth_start_xmit :: "(sk_buff \<Rightarrow> sk_buff option) \<Rightarrow> (nat \<Rightarrow> u64 option) \<Rightarrow> sk_buff \<Rightarrow> tx_state \<Rightarrow> tx_state option" where
  "al_eth_start_xmit pad dma skb s =
     (case pad skb of
        None \<Rightarrow> Some (tx_emit [KfreeSkb (skb_id skb)] s)
      | Some skb \<Rightarrow>
          let r = tx_ring s; ntu = unat (next_to_use r)
          in if length (tx_buffer_info r) \<le> ntu then None
             else
               let tx_info = (tx_buffer_info r ! ntu)\<lparr>tx_skb := Some skb\<rparr>;
                   hal_pkt = (tx_hal_pkt tx_info)\<lparr>pkt_flags := AL_ETH_TX_FLAGS_INT\<rparr>;
                   (rc, meta, hal_pkt, skb) = al_eth_tx_csum (hal_meta r) hal_pkt skb;
                   tx_info = tx_info\<lparr>tx_skb := Some skb, tx_hal_pkt := hal_pkt\<rparr>;
                   s = set_tx_info ntu tx_info (s\<lparr>tx_ring := r\<lparr>hal_meta := meta\<rparr>\<rparr>)
               in if rc \<noteq> RcOk then xmit_error ntu tx_info skb 0 s
                  else case dma 0 of
                    None \<Rightarrow> Some (tx_emit [KfreeSkb (skb_id skb)] s)
                  | Some a \<Rightarrow>
                      let len = skb_headlen skb;
                          bfs = (pkt_bufs hal_pkt)[0 := \<lparr>buf_addr = a, buf_len = len\<rparr>]
                      in do {
                        (i, mapped, bfs, log) \<leftarrow> map_frags dma 0 (skb_frags skb) (bfs, [MapSingle a len]);
                        let tx_info = tx_info\<lparr>tx_hal_pkt := hal_pkt\<lparr>pkt_bufs := bfs\<rparr>\<rparr>;
                        let s = tx_emit log (set_tx_info ntu tx_info s);
                        if mapped then xmit_submit ntu tx_info skb s else xmit_error ntu tx_info skb i s })"

subsection \<open>Completion\<close>

lemma filter_update_None:
  assumes "i < length xs" "P (xs ! i)" "\<not> P y"
  shows "length (filter P (xs[i := y])) < length (filter P xs)"
proof -
  have xs: "xs = take i xs @ xs ! i # drop (Suc i) xs" using assms(1) by (rule id_take_nth_drop)
  have up: "xs[i := y] = take i xs @ y # drop (Suc i) xs" using assms(1) by (rule upd_conv_take_nth_drop)
  show ?thesis unfolding up by (subst (3) xs) (simp add: assms)
qed

text \<open>
  The loop of \<open>al_eth_tx_poll\<close>.  It ends because every round takes a socket buffer out of the ring: a slot without one
  stops the kernel.
\<close>

function tx_poll_loop :: "u32 \<Rightarrow> u16 \<Rightarrow> u32 \<Rightarrow> u32 \<Rightarrow> tx_state \<Rightarrow> (u16 \<times> u32 \<times> u32 \<times> tx_state) option" where
  "tx_poll_loop total_done ntc tx_pkt tx_bytes s =
     (if total_done = 0 then Some (ntc, tx_pkt, tx_bytes, s)
      else if length (tx_buffer_info (tx_ring s)) \<le> unat ntc then None
      else
        let tx_info = tx_buffer_info (tx_ring s) ! unat ntc
        in if total_done < tx_descs tx_info then Some (ntc, tx_pkt, tx_bytes, s)
           else case tx_skb tx_info of
             None \<Rightarrow> None
           | Some skb \<Rightarrow>
               (case unmap_bufs (pkt_bufs (tx_hal_pkt tx_info)) (unat (num_of_bufs (tx_hal_pkt tx_info)) - 1) of
                  None \<Rightarrow> None
                | Some ev \<Rightarrow>
                    let s = tx_emit (ev @ [KfreeSkb (skb_id skb)]) (set_tx_info (unat ntc) (tx_info\<lparr>tx_skb := None\<rparr>) s);
                        tx_bytes = tx_bytes + skb_len skb;
                        tx_pkt = tx_pkt + 1;
                        r = tx_ring s;
                        s = s\<lparr>tx_ring := r\<lparr>ring_packets := ring_packets r + tx_pkt, ring_bytes := ring_bytes r + tx_bytes\<rparr>\<rparr>
                    in tx_poll_loop (total_done - tx_descs tx_info) (AL_ETH_TX_RING_IDX_NEXT ntc) tx_pkt tx_bytes s))"
  by pat_completeness auto

termination
  by (relation "measure (\<lambda>(_, _, _, _, s). length (filter (\<lambda>b. tx_skb b \<noteq> None) (tx_buffer_info (tx_ring s))))")
    (auto simp: tx_emit_def set_tx_info_def intro!: filter_update_None)

declare tx_poll_loop.simps [simp del]

text \<open>\<open>crhp\<close> is the completion head register at the time of the poll.\<close>

definition al_eth_tx_poll :: "u32 \<Rightarrow> tx_state \<Rightarrow> tx_state option" where
  "al_eth_tx_poll crhp s =
     (let (total_done, q) = al_eth_comp_tx_get (tx_dma_q (tx_ring s)) crhp;
          s = s\<lparr>tx_ring := (tx_ring s)\<lparr>tx_dma_q := q\<rparr>\<rparr>
      in do {
        (ntc, tx_pkt, tx_bytes, s) \<leftarrow> tx_poll_loop total_done (next_to_clean (tx_ring s)) 0 0 s;
        let s = tx_emit [TxCompletedQueue tx_pkt tx_bytes] s;
        let r = (tx_ring s)\<lparr>next_to_clean := ntc\<rparr>;
        let s = s\<lparr>tx_ring := r\<rparr>;
        let s = (if txq_stopped s \<and> AL_ETH_TX_WAKEUP_THRESH < al_udma_available_get (tx_dma_q r)
                 then s\<lparr>txq_stopped := False\<rparr> else s);
        Some (s\<lparr>tx_io := al_reg_write32_relaxed (tx_io s) (unmask_reg_offset r) (unmask_val r)\<rparr>) })"

subsection \<open>Release of uncompleted buffers\<close>

fun free_tx_bufs_loop :: "nat list \<Rightarrow> tx_state \<Rightarrow> tx_state option" where
  "free_tx_bufs_loop [] s = Some s"
| "free_tx_bufs_loop (i # is) s =
     (if length (tx_buffer_info (tx_ring s)) \<le> i then None
      else let tx_info = tx_buffer_info (tx_ring s) ! i
           in case tx_skb tx_info of
                None \<Rightarrow> free_tx_bufs_loop is s
              | Some skb \<Rightarrow> do {
                  ev \<leftarrow> unmap_bufs (pkt_bufs (tx_hal_pkt tx_info)) (unat (num_of_bufs (tx_hal_pkt tx_info)) - 1);
                  free_tx_bufs_loop is (tx_emit (ev @ [KfreeSkb (skb_id skb)]) s) })"

definition al_eth_free_tx_bufs :: "tx_state \<Rightarrow> tx_state option" where
  "al_eth_free_tx_bufs s =
     do { s \<leftarrow> free_tx_bufs_loop [0..<AL_ETH_DEFAULT_TX_SW_DESCS] s; Some (tx_emit [TxResetQueue] s) }"

subsection \<open>Resources of the transmit queues\<close>

text \<open>The entries that \<open>kzalloc\<close> returns.\<close>

definition zero_meta :: al_eth_meta_data where
  "zero_meta = \<lparr>md_store = 0, words_valid = 0, vlan1_cfi_sel = 0, vlan2_vid_sel = 0, vlan2_cfi_sel = 0, vlan2_pbits_sel = 0,
     vlan2_ether_sel = 0, vlan1_new_vid = 0, vlan1_new_cfi = 0, vlan1_new_pbits = 0, vlan2_new_vid = 0, vlan2_new_cfi = 0,
     vlan2_new_pbits = 0, l3_header_len = 0, l3_header_offset = 0, l4_header_len = 0, mss_idx_sel = 0, ts_index = 0,
     mss_val = 0, outer_l3_offset = 0, outer_l3_len = 0\<rparr>"

definition zero_pkt :: al_eth_pkt where
  "zero_pkt = \<lparr>pkt_flags = 0, l3_proto_idx = 0, l4_proto_idx = 0, source_vlan_count = 0, vlan_mod_add_count = 0,
     vlan_mod_del_count = 0, vlan_mod_v1_ether_sel = 0, vlan_mod_v1_vid_sel = 0, vlan_mod_v1_pbits_sel = 0, tunnel_mode = 0,
     outer_l3_proto_idx = 0, pkt_tgtid = 0, rx_header_len = 0, pkt_meta = None, rxhash = 0, pkt_l3_offset = 0,
     num_of_bufs = 0, pkt_bufs = replicate (unat AL_ETH_PKT_MAX_BUFS) \<lparr>buf_addr = 0, buf_len = 0\<rparr>\<rparr>"

definition zero_tx_buffer :: al_eth_tx_buffer where
  "zero_tx_buffer = \<lparr>tx_skb = None, tx_hal_pkt = zero_pkt, tx_descs = 0\<rparr>"

text \<open>
  The transmit rings of the adapter and the memory that the driver holds for them.  The answers of the allocators for queue
  \<open>i\<close> are \<open>kz i\<close> (whether \<open>kzalloc\<close> succeeds) and \<open>coh i\<close> (the addresses of the coherent memory).
\<close>

datatype tx_res = TxInfoMem nat | TxDescMem ptr

record tx_adapter =
  ad_tx_rings :: "al_eth_tx_ring list"
  ad_held :: "tx_res list"

definition set_ring :: "nat \<Rightarrow> al_eth_tx_ring \<Rightarrow> tx_adapter \<Rightarrow> tx_adapter" where
  "set_ring i r ad = ad\<lparr>ad_tx_rings := (ad_tx_rings ad)[i := r]\<rparr>"

definition hold :: "tx_res \<Rightarrow> tx_adapter \<Rightarrow> tx_adapter" where
  "hold x ad = ad\<lparr>ad_held := ad_held ad @ [x]\<rparr>"

definition give_back :: "tx_res \<Rightarrow> tx_adapter \<Rightarrow> tx_adapter" where
  "give_back x ad = ad\<lparr>ad_held := remove1 x (ad_held ad)\<rparr>"

definition al_eth_setup_tx_resources ::
  "(nat \<Rightarrow> bool) \<Rightarrow> (nat \<Rightarrow> (ptr \<times> u64) option) \<Rightarrow> nat \<Rightarrow> tx_adapter \<Rightarrow> rc \<times> tx_adapter" where
  "al_eth_setup_tx_resources kz coh i ad =
     (let r = ad_tx_rings ad ! i
      in if \<not> kz i then (RcErr ENOMEM, set_ring i (r\<lparr>tx_buffer_info := []\<rparr>) ad)
         else
           let r = r\<lparr>tx_buffer_info := replicate (sw_count r) zero_tx_buffer\<rparr>;
               ad = hold (TxInfoMem i) ad;
               r = r\<lparr>descs_size := hw_count r * sizeof_al_udma_desc,
                     tx_q_params := (tx_q_params r)\<lparr>qp_size := of_nat (hw_count r)\<rparr>\<rparr>
           in case coh i of
                None \<Rightarrow> (RcErr ENOMEM, set_ring i (r\<lparr>tx_q_params := (tx_q_params r)\<lparr>qp_desc_base := NULL\<rparr>\<rparr>) ad)
              | Some (base, phy) \<Rightarrow>
                  let ad = hold (TxDescMem base) ad;
                      r = r\<lparr>tx_q_params := (tx_q_params r)\<lparr>qp_desc_base := base, qp_desc_phy_base := phy,
                              qp_cdesc_base := NULL, qp_cdesc_size := 8\<rparr>\<rparr>;
                      r = r\<lparr>stat_packets := 0, stat_bytes := 0, next_to_use := 0, next_to_clean := 0\<rparr>
                  in (RcOk, set_ring i r ad))"

definition al_eth_free_tx_resources :: "nat \<Rightarrow> tx_adapter \<Rightarrow> tx_adapter" where
  "al_eth_free_tx_resources i ad =
     (let r = ad_tx_rings ad ! i;
          ad = (if tx_buffer_info r \<noteq> [] then give_back (TxInfoMem i) ad else ad);
          r = r\<lparr>tx_buffer_info := []\<rparr>
      in if qp_desc_base (tx_q_params r) = NULL then set_ring i r ad
         else set_ring i (r\<lparr>tx_q_params := (tx_q_params r)\<lparr>qp_desc_base := NULL\<rparr>\<rparr>)
                (give_back (TxDescMem (qp_desc_base (tx_q_params r))) ad))"

text \<open>\<open>setup_loop n i\<close> sets up the queues \<open>i\<close> to \<open>i + n - 1\<close> and rewinds at the first failure.\<close>

fun setup_tx_loop ::
  "(nat \<Rightarrow> bool) \<Rightarrow> (nat \<Rightarrow> (ptr \<times> u64) option) \<Rightarrow> nat \<Rightarrow> nat \<Rightarrow> tx_adapter \<Rightarrow> rc \<times> tx_adapter" where
  "setup_tx_loop kz coh 0 i ad = (RcOk, ad)"
| "setup_tx_loop kz coh (Suc n) i ad =
     (let (rc, ad) = al_eth_setup_tx_resources kz coh i ad
      in if rc = RcOk then setup_tx_loop kz coh n (Suc i) ad
         else (rc, fold al_eth_free_tx_resources (rev [0..<i]) ad))"

definition al_eth_setup_all_tx_resources ::
  "(nat \<Rightarrow> bool) \<Rightarrow> (nat \<Rightarrow> (ptr \<times> u64) option) \<Rightarrow> tx_adapter \<Rightarrow> rc \<times> tx_adapter" where
  "al_eth_setup_all_tx_resources kz coh ad = setup_tx_loop kz coh (length (ad_tx_rings ad)) 0 ad"

definition al_eth_free_all_tx_resources :: "tx_adapter \<Rightarrow> tx_adapter" where
  "al_eth_free_all_tx_resources ad =
     fold (\<lambda>i ad. if qp_desc_base (tx_q_params (ad_tx_rings ad ! i)) \<noteq> NULL then al_eth_free_tx_resources i ad else ad)
       [0..<length (ad_tx_rings ad)] ad"

end
