(* ===== verification/Iofic.thy ===== *)
theory Iofic
  imports Reg_Utils
begin

text \<open>
  The interrupt controller (\<open>al_hal_iofic.c\<close>, \<open>al_hal_udma_iofic.c\<close>, \<open>al_hal_udma_iofic.h\<close>): control, cause and mask
  registers of the interrupt groups, moderation, the configuration of a UDMA.

  Its registers have side effects, so the register access is an argument: \<open>dev_rd\<close> and \<open>dev_wr\<close> on a device state.
  What the register documentation (\<open>al_hal_iofic_regs.h\<close>) promises of a group of interrupts is in \<open>grp_rd\<close>, \<open>grp_wr\<close> and \<open>grp_event\<close>; the locale
  \<open>iofic_semantics\<close> is a device that behaves so while the hardware acts between any two register accesses, and an executable device with a schedule of hardware events
  interprets it.
\<close>

subsection \<open>Registers\<close>

definition AL_IOFIC_MAX_GROUPS :: nat where "AL_IOFIC_MAX_GROUPS = 4"
definition AL_INT_GROUP_A :: nat where "AL_INT_GROUP_A = 0"
definition AL_INT_GROUP_B :: nat where "AL_INT_GROUP_B = 1"
definition AL_INT_GROUP_C :: nat where "AL_INT_GROUP_C = 2"
definition AL_INT_GROUP_D :: nat where "AL_INT_GROUP_D = 3"

lemmas iofic_groups = AL_IOFIC_MAX_GROUPS_def AL_INT_GROUP_A_def AL_INT_GROUP_B_def AL_INT_GROUP_C_def AL_INT_GROUP_D_def

definition INT_CONTROL_GRP_CLEAR_ON_READ :: u32 where "INT_CONTROL_GRP_CLEAR_ON_READ = AL_BIT 0"
definition INT_CONTROL_GRP_AUTO_MASK :: u32 where "INT_CONTROL_GRP_AUTO_MASK = AL_BIT 1"
definition INT_CONTROL_GRP_AUTO_CLEAR :: u32 where "INT_CONTROL_GRP_AUTO_CLEAR = AL_BIT 2"
definition INT_CONTROL_GRP_SET_ON_POSEDGE :: u32 where "INT_CONTROL_GRP_SET_ON_POSEDGE = AL_BIT 3"
definition INT_CONTROL_GRP_MOD_RST :: u32 where "INT_CONTROL_GRP_MOD_RST = AL_BIT 4"
definition INT_CONTROL_GRP_MASK_MSI_X :: u32 where "INT_CONTROL_GRP_MASK_MSI_X = AL_BIT 5"
definition INT_CONTROL_GRP_MOD_INTV_MASK :: u32 where "INT_CONTROL_GRP_MOD_INTV_MASK = 0x00FF0000"
definition INT_CONTROL_GRP_MOD_INTV_SHIFT :: nat where "INT_CONTROL_GRP_MOD_INTV_SHIFT = 16"
definition INT_CONTROL_GRP_MOD_RES_MASK :: u32 where "INT_CONTROL_GRP_MOD_RES_MASK = 0x0F000000"
definition INT_CONTROL_GRP_MOD_RES_SHIFT :: nat where "INT_CONTROL_GRP_MOD_RES_SHIFT = 24"
definition INT_MOD_INTV_MASK :: u32 where "INT_MOD_INTV_MASK = 0x000000FF"
definition INT_MOD_INTV_SHIFT :: nat where "INT_MOD_INTV_SHIFT = 0"
definition INT_MSIX_TGTID_MASK :: u32 where "INT_MSIX_TGTID_MASK = 0x0000FFFF"
definition INT_MSIX_TGTID_SHIFT :: nat where "INT_MSIX_TGTID_SHIFT = 0"
definition INT_MSIX_TGTID_EN_SHIFT :: nat where "INT_MSIX_TGTID_EN_SHIFT = 31"

text \<open>The registers of a group, and their addresses for a controller at \<open>base\<close>.\<close>

datatype iofic_grp_reg =
    int_cause_grp | int_cause_set_grp | int_mask_grp | int_mask_clear_grp
  | int_status_grp | int_control_grp | int_abort_msk_grp | int_log_msk_grp

fun grp_reg_off :: "iofic_grp_reg \<Rightarrow> nat" where
  "grp_reg_off int_cause_grp = 0x0"
| "grp_reg_off int_cause_set_grp = 0x8"
| "grp_reg_off int_mask_grp = 0x10"
| "grp_reg_off int_mask_clear_grp = 0x18"
| "grp_reg_off int_status_grp = 0x20"
| "grp_reg_off int_control_grp = 0x28"
| "grp_reg_off int_abort_msk_grp = 0x30"
| "grp_reg_off int_log_msk_grp = 0x38"

definition ctrl_reg :: "ptr \<Rightarrow> nat \<Rightarrow> iofic_grp_reg \<Rightarrow> ptr" where
  "ctrl_reg base group_no r = base + 0x40 * group_no + grp_reg_off r"

definition grp_int_mod_reg :: "ptr \<Rightarrow> nat \<Rightarrow> nat \<Rightarrow> ptr" where
  "grp_int_mod_reg base group_no vector = base + 0x400 + 0x100 * group_no + 8 * vector"

definition grp_int_tgtid_reg :: "ptr \<Rightarrow> nat \<Rightarrow> nat \<Rightarrow> ptr" where
  "grp_int_tgtid_reg base group_no vector = base + 0x400 + 0x100 * group_no + 8 * vector + 4"

record 's reg_dev =
  dev_rd :: "ptr \<Rightarrow> 's \<Rightarrow> u32 \<times> 's"
  dev_wr :: "ptr \<Rightarrow> u32 \<Rightarrow> 's \<Rightarrow> 's"

text \<open>Plain memory: what the other theories use for registers without side effects.\<close>

definition plain_dev :: "mmio reg_dev" where
  "plain_dev = \<lparr>dev_rd = (\<lambda>p m. (al_reg_read32 m p, m)), dev_wr = (\<lambda>p v m. al_reg_write32 m p v)\<rparr>"

definition dev_write32_masked :: "'s reg_dev \<Rightarrow> ptr \<Rightarrow> u32 \<Rightarrow> u32 \<Rightarrow> 's \<Rightarrow> 's" where
  "dev_write32_masked D p m v s = (let (temp, s) = dev_rd D p s in dev_wr D p (AL_MASK_VAL m v temp) s)"

subsection \<open>The controller\<close>

definition iofic_check :: "ptr \<Rightarrow> nat \<Rightarrow> unit option" where
  "iofic_check base group_no = do { al_assert (base \<noteq> NULL); al_assert (group_no < AL_IOFIC_MAX_GROUPS) }"

definition al_iofic_config :: "'s reg_dev \<Rightarrow> ptr \<Rightarrow> nat \<Rightarrow> u32 \<Rightarrow> 's \<Rightarrow> 's option" where
  "al_iofic_config D base group_no flags s =
     do { iofic_check base group_no; Some (dev_wr D (ctrl_reg base group_no int_control_grp) flags s) }"

definition al_iofic_moder_res_config :: "'s reg_dev \<Rightarrow> ptr \<Rightarrow> nat \<Rightarrow> u8 \<Rightarrow> 's \<Rightarrow> 's option" where
  "al_iofic_moder_res_config D base group_no resolution s =
     do { iofic_check base group_no;
          let (reg, s) = dev_rd D (ctrl_reg base group_no int_control_grp) s;
          let reg = AL_REG_FIELD_SET reg INT_CONTROL_GRP_MOD_RES_MASK INT_CONTROL_GRP_MOD_RES_SHIFT (ucast resolution);
          Some (dev_wr D (ctrl_reg base group_no int_control_grp) reg s) }"

definition al_iofic_legacy_moder_interval_config :: "'s reg_dev \<Rightarrow> ptr \<Rightarrow> nat \<Rightarrow> u8 \<Rightarrow> 's \<Rightarrow> 's option" where
  "al_iofic_legacy_moder_interval_config D base group_no interval s =
     do { iofic_check base group_no;
          let (reg, s) = dev_rd D (ctrl_reg base group_no int_control_grp) s;
          let reg = AL_REG_FIELD_SET reg INT_CONTROL_GRP_MOD_INTV_MASK INT_CONTROL_GRP_MOD_INTV_SHIFT (ucast interval);
          Some (dev_wr D (ctrl_reg base group_no int_control_grp) reg s) }"

definition al_iofic_msix_moder_interval_config :: "'s reg_dev \<Rightarrow> ptr \<Rightarrow> nat \<Rightarrow> u8 \<Rightarrow> u8 \<Rightarrow> 's \<Rightarrow> 's option" where
  "al_iofic_msix_moder_interval_config D base group_no vector interval s =
     do { iofic_check base group_no;
          let (reg, s) = dev_rd D (grp_int_mod_reg base group_no (unat vector)) s;
          let reg = AL_REG_FIELD_SET reg INT_MOD_INTV_MASK INT_MOD_INTV_SHIFT (ucast interval);
          Some (dev_wr D (grp_int_mod_reg base group_no (unat vector)) reg s) }"

definition al_iofic_msix_tgtid_attributes_config :: "'s reg_dev \<Rightarrow> ptr \<Rightarrow> nat \<Rightarrow> u8 \<Rightarrow> u32 \<Rightarrow> u8 \<Rightarrow> 's \<Rightarrow> 's option" where
  "al_iofic_msix_tgtid_attributes_config D base group_no vector tgtid tgtid_en s =
     do { iofic_check base group_no;
          let reg = AL_REG_FIELD_SET 0 INT_MSIX_TGTID_MASK INT_MSIX_TGTID_SHIFT tgtid;
          let reg = AL_REG_BIT_VAL_SET reg INT_MSIX_TGTID_EN_SHIFT (ucast tgtid_en);
          Some (dev_wr D (grp_int_tgtid_reg base group_no (unat vector)) reg s) }"

definition al_iofic_unmask_offset_get :: "ptr \<Rightarrow> nat \<Rightarrow> ptr option" where
  "al_iofic_unmask_offset_get base group_no =
     do { iofic_check base group_no; Some (ctrl_reg base group_no int_mask_clear_grp) }"

definition al_iofic_unmask :: "'s reg_dev \<Rightarrow> ptr \<Rightarrow> nat \<Rightarrow> u32 \<Rightarrow> 's \<Rightarrow> 's option" where
  "al_iofic_unmask D base group_no m s =
     do { iofic_check base group_no; Some (dev_wr D (ctrl_reg base group_no int_mask_clear_grp) (NOT m) s) }"

definition al_iofic_mask :: "'s reg_dev \<Rightarrow> ptr \<Rightarrow> nat \<Rightarrow> u32 \<Rightarrow> 's \<Rightarrow> 's option" where
  "al_iofic_mask D base group_no m s =
     do { iofic_check base group_no;
          let (reg, s) = dev_rd D (ctrl_reg base group_no int_mask_grp) s;
          Some (dev_wr D (ctrl_reg base group_no int_mask_grp) (reg OR m) s) }"

definition al_iofic_read_mask :: "'s reg_dev \<Rightarrow> ptr \<Rightarrow> nat \<Rightarrow> 's \<Rightarrow> (u32 \<times> 's) option" where
  "al_iofic_read_mask D base group_no s =
     do { iofic_check base group_no; Some (dev_rd D (ctrl_reg base group_no int_mask_grp) s) }"

definition al_iofic_read_cause :: "'s reg_dev \<Rightarrow> ptr \<Rightarrow> nat \<Rightarrow> 's \<Rightarrow> (u32 \<times> 's) option" where
  "al_iofic_read_cause D base group_no s =
     do { iofic_check base group_no; Some (dev_rd D (ctrl_reg base group_no int_cause_grp) s) }"

definition al_iofic_clear_cause :: "'s reg_dev \<Rightarrow> ptr \<Rightarrow> nat \<Rightarrow> u32 \<Rightarrow> 's \<Rightarrow> 's option" where
  "al_iofic_clear_cause D base group_no m s =
     do { iofic_check base group_no; Some (dev_wr D (ctrl_reg base group_no int_cause_grp) (NOT m) s) }"

definition al_iofic_read_and_clear_cause :: "'s reg_dev \<Rightarrow> ptr \<Rightarrow> nat \<Rightarrow> 's \<Rightarrow> (u32 \<times> 's) option" where
  "al_iofic_read_and_clear_cause D base group_no s =
     do { iofic_check base group_no;
          (cause, s) \<leftarrow> al_iofic_read_cause D base group_no s;
          let (flags, s) = dev_rd D (ctrl_reg base group_no int_control_grp) s;
          s \<leftarrow> (if flags AND INT_CONTROL_GRP_CLEAR_ON_READ = 0 then al_iofic_clear_cause D base group_no cause s else Some s);
          Some (cause, s) }"

definition al_iofic_set_cause :: "'s reg_dev \<Rightarrow> ptr \<Rightarrow> nat \<Rightarrow> u32 \<Rightarrow> 's \<Rightarrow> 's option" where
  "al_iofic_set_cause D base group_no m s =
     do { iofic_check base group_no; Some (dev_wr D (ctrl_reg base group_no int_cause_set_grp) m s) }"

definition al_iofic_abort_mask :: "'s reg_dev \<Rightarrow> ptr \<Rightarrow> nat \<Rightarrow> u32 \<Rightarrow> 's \<Rightarrow> 's option" where
  "al_iofic_abort_mask D base group_no m s =
     do { iofic_check base group_no; Some (dev_wr D (ctrl_reg base group_no int_abort_msk_grp) m s) }"

definition al_iofic_abort_mask_read :: "'s reg_dev \<Rightarrow> ptr \<Rightarrow> nat \<Rightarrow> 's \<Rightarrow> (u32 \<times> 's) option" where
  "al_iofic_abort_mask_read D base group_no s =
     do { iofic_check base group_no; Some (dev_rd D (ctrl_reg base group_no int_abort_msk_grp) s) }"

definition al_iofic_abort_mask_set :: "'s reg_dev \<Rightarrow> ptr \<Rightarrow> nat \<Rightarrow> u32 \<Rightarrow> 's \<Rightarrow> 's option" where
  "al_iofic_abort_mask_set D base group_no m s =
     do { iofic_check base group_no; Some (dev_write32_masked D (ctrl_reg base group_no int_abort_msk_grp) m m s) }"

definition al_iofic_abort_mask_clear :: "'s reg_dev \<Rightarrow> ptr \<Rightarrow> nat \<Rightarrow> u32 \<Rightarrow> 's \<Rightarrow> 's option" where
  "al_iofic_abort_mask_clear D base group_no m s =
     do { iofic_check base group_no; Some (dev_write32_masked D (ctrl_reg base group_no int_abort_msk_grp) m (NOT m) s) }"

definition al_iofic_interrupt_moderation_reset :: "'s reg_dev \<Rightarrow> ptr \<Rightarrow> nat \<Rightarrow> 's \<Rightarrow> 's option" where
  "al_iofic_interrupt_moderation_reset D base group_no s =
     do { iofic_check base group_no;
          let (reg, s) = dev_rd D (ctrl_reg base group_no int_control_grp) s;
          let reg = reg OR INT_CONTROL_GRP_MOD_RST;
          Some (dev_wr D (ctrl_reg base group_no int_control_grp) reg s) }"

subsection \<open>The controllers of a UDMA\<close>

text \<open>An unknown mode of the enumeration is \<open>AL_IOFIC_MODE_OTHER\<close>.\<close>

datatype al_iofic_mode = AL_IOFIC_MODE_LEGACY | AL_IOFIC_MODE_MSIX_PER_Q | AL_IOFIC_MODE_MSIX_PER_GROUP | AL_IOFIC_MODE_OTHER

datatype al_udma_iofic_level = AL_UDMA_IOFIC_LEVEL_PRIMARY | AL_UDMA_IOFIC_LEVEL_SECONDARY

text \<open>Offsets of \<open>struct udma_iofic_regs\<close> in the unit registers.\<close>

definition main_iofic :: "ptr \<Rightarrow> ptr" where "main_iofic unit_base = unit_base + 0x1C000"
definition secondary_iofic_ctrl :: "ptr \<Rightarrow> ptr" where "secondary_iofic_ctrl unit_base = unit_base + 0x1C000 + 0x400 + 0x1c00"

definition al_udma_main_iofic_config :: "'s reg_dev \<Rightarrow> ptr \<Rightarrow> al_iofic_mode \<Rightarrow> 's \<Rightarrow> (rc \<times> 's) option" where
  "al_udma_main_iofic_config D base mode s =
     (case mode of
        AL_IOFIC_MODE_LEGACY \<Rightarrow> do {
          s \<leftarrow> al_iofic_config D base AL_INT_GROUP_A
            (INT_CONTROL_GRP_SET_ON_POSEDGE OR INT_CONTROL_GRP_MASK_MSI_X OR INT_CONTROL_GRP_CLEAR_ON_READ) s;
          s \<leftarrow> al_iofic_config D base AL_INT_GROUP_B (INT_CONTROL_GRP_CLEAR_ON_READ OR INT_CONTROL_GRP_MASK_MSI_X) s;
          s \<leftarrow> al_iofic_config D base AL_INT_GROUP_C (INT_CONTROL_GRP_CLEAR_ON_READ OR INT_CONTROL_GRP_MASK_MSI_X) s;
          s \<leftarrow> al_iofic_config D base AL_INT_GROUP_D
            (INT_CONTROL_GRP_SET_ON_POSEDGE OR INT_CONTROL_GRP_MASK_MSI_X OR INT_CONTROL_GRP_CLEAR_ON_READ) s;
          Some (RcOk, s) }
      | AL_IOFIC_MODE_MSIX_PER_Q \<Rightarrow> do {
          s \<leftarrow> al_iofic_config D base AL_INT_GROUP_A
            (INT_CONTROL_GRP_SET_ON_POSEDGE OR INT_CONTROL_GRP_AUTO_MASK OR INT_CONTROL_GRP_AUTO_CLEAR) s;
          s \<leftarrow> al_iofic_config D base AL_INT_GROUP_B
            (INT_CONTROL_GRP_AUTO_CLEAR OR INT_CONTROL_GRP_AUTO_MASK OR INT_CONTROL_GRP_CLEAR_ON_READ) s;
          s \<leftarrow> al_iofic_config D base AL_INT_GROUP_C
            (INT_CONTROL_GRP_AUTO_CLEAR OR INT_CONTROL_GRP_AUTO_MASK OR INT_CONTROL_GRP_CLEAR_ON_READ) s;
          s \<leftarrow> al_iofic_config D base AL_INT_GROUP_D
            (INT_CONTROL_GRP_SET_ON_POSEDGE OR INT_CONTROL_GRP_CLEAR_ON_READ OR INT_CONTROL_GRP_MASK_MSI_X) s;
          Some (RcOk, s) }
      | AL_IOFIC_MODE_MSIX_PER_GROUP \<Rightarrow> do {
          s \<leftarrow> al_iofic_config D base AL_INT_GROUP_A
            (INT_CONTROL_GRP_SET_ON_POSEDGE OR INT_CONTROL_GRP_AUTO_CLEAR OR INT_CONTROL_GRP_AUTO_MASK) s;
          s \<leftarrow> al_iofic_config D base AL_INT_GROUP_B (INT_CONTROL_GRP_CLEAR_ON_READ OR INT_CONTROL_GRP_MASK_MSI_X) s;
          s \<leftarrow> al_iofic_config D base AL_INT_GROUP_C (INT_CONTROL_GRP_CLEAR_ON_READ OR INT_CONTROL_GRP_MASK_MSI_X) s;
          s \<leftarrow> al_iofic_config D base AL_INT_GROUP_D
            (INT_CONTROL_GRP_SET_ON_POSEDGE OR INT_CONTROL_GRP_CLEAR_ON_READ OR INT_CONTROL_GRP_MASK_MSI_X) s;
          Some (RcOk, s) }
      | AL_IOFIC_MODE_OTHER \<Rightarrow> Some (RcErr EINVAL, s))"

definition al_udma_iofic_config :: "'s reg_dev \<Rightarrow> ptr \<Rightarrow> al_iofic_mode \<Rightarrow> u32 \<Rightarrow> u32 \<Rightarrow> u32 \<Rightarrow> u32 \<Rightarrow> 's \<Rightarrow> (rc \<times> 's) option" where
  "al_udma_iofic_config D unit_base mode m2s_errors_disable m2s_aborts_disable s2m_errors_disable s2m_aborts_disable s =
     do { (rc, s) \<leftarrow> al_udma_main_iofic_config D (main_iofic unit_base) mode s;
          if rc \<noteq> RcOk then Some (rc, s)
          else do {
            s \<leftarrow> al_iofic_unmask D (secondary_iofic_ctrl unit_base) AL_INT_GROUP_A (NOT m2s_errors_disable) s;
            s \<leftarrow> al_iofic_abort_mask D (secondary_iofic_ctrl unit_base) AL_INT_GROUP_A m2s_aborts_disable s;
            s \<leftarrow> al_iofic_unmask D (secondary_iofic_ctrl unit_base) AL_INT_GROUP_B (NOT s2m_errors_disable) s;
            s \<leftarrow> al_iofic_abort_mask D (secondary_iofic_ctrl unit_base) AL_INT_GROUP_B s2m_aborts_disable s;
            Some (RcOk, s) } }"

definition al_udma_iofic_reg_base_get :: "ptr \<Rightarrow> al_udma_iofic_level \<Rightarrow> ptr" where
  "al_udma_iofic_reg_base_get unit_base level =
     (if level = AL_UDMA_IOFIC_LEVEL_PRIMARY then main_iofic unit_base else secondary_iofic_ctrl unit_base)"

definition al_udma_iofic_level_and_group_valid :: "al_udma_iofic_level \<Rightarrow> nat \<Rightarrow> bool" where
  "al_udma_iofic_level_and_group_valid level group_no \<longleftrightarrow>
     level = AL_UDMA_IOFIC_LEVEL_PRIMARY \<and> group_no < 4 \<or> level = AL_UDMA_IOFIC_LEVEL_SECONDARY \<and> group_no < 2"

definition al_udma_iofic_unmask_offset_get :: "ptr \<Rightarrow> al_udma_iofic_level \<Rightarrow> nat \<Rightarrow> ptr option" where
  "al_udma_iofic_unmask_offset_get unit_base level group_no =
     do { al_assert (al_udma_iofic_level_and_group_valid level group_no);
          al_iofic_unmask_offset_get (al_udma_iofic_reg_base_get unit_base level) group_no }"

definition al_udma_iofic_unmask :: "'s reg_dev \<Rightarrow> ptr \<Rightarrow> al_udma_iofic_level \<Rightarrow> nat \<Rightarrow> u32 \<Rightarrow> 's \<Rightarrow> 's option" where
  "al_udma_iofic_unmask D unit_base level group_no m s =
     do { al_assert (al_udma_iofic_level_and_group_valid level group_no);
          al_iofic_unmask D (al_udma_iofic_reg_base_get unit_base level) group_no m s }"

definition al_udma_iofic_mask :: "'s reg_dev \<Rightarrow> ptr \<Rightarrow> al_udma_iofic_level \<Rightarrow> nat \<Rightarrow> u32 \<Rightarrow> 's \<Rightarrow> 's option" where
  "al_udma_iofic_mask D unit_base level group_no m s =
     do { al_assert (al_udma_iofic_level_and_group_valid level group_no);
          al_iofic_mask D (al_udma_iofic_reg_base_get unit_base level) group_no m s }"

definition al_udma_iofic_read_cause :: "'s reg_dev \<Rightarrow> ptr \<Rightarrow> al_udma_iofic_level \<Rightarrow> nat \<Rightarrow> 's \<Rightarrow> (u32 \<times> 's) option" where
  "al_udma_iofic_read_cause D unit_base level group_no s =
     do { al_assert (al_udma_iofic_level_and_group_valid level group_no);
          al_iofic_read_cause D (al_udma_iofic_reg_base_get unit_base level) group_no s }"

definition al_udma_iofic_clear_cause :: "'s reg_dev \<Rightarrow> ptr \<Rightarrow> al_udma_iofic_level \<Rightarrow> nat \<Rightarrow> u32 \<Rightarrow> 's \<Rightarrow> 's option" where
  "al_udma_iofic_clear_cause D unit_base level group_no m s =
     do { al_assert (al_udma_iofic_level_and_group_valid level group_no);
          al_iofic_clear_cause D (al_udma_iofic_reg_base_get unit_base level) group_no m s }"

definition al_udma_iofic_read_and_clear_cause :: "'s reg_dev \<Rightarrow> ptr \<Rightarrow> al_udma_iofic_level \<Rightarrow> nat \<Rightarrow> 's \<Rightarrow> (u32 \<times> 's) option" where
  "al_udma_iofic_read_and_clear_cause D unit_base level group_no s =
     do { al_assert (al_udma_iofic_level_and_group_valid level group_no);
          al_iofic_read_and_clear_cause D (al_udma_iofic_reg_base_get unit_base level) group_no s }"

definition al_udma_iofic_set_cause :: "'s reg_dev \<Rightarrow> ptr \<Rightarrow> al_udma_iofic_level \<Rightarrow> nat \<Rightarrow> u32 \<Rightarrow> 's \<Rightarrow> 's option" where
  "al_udma_iofic_set_cause D unit_base level group_no value_set s =
     do { al_assert (al_udma_iofic_level_and_group_valid level group_no);
          al_iofic_set_cause D (al_udma_iofic_reg_base_get unit_base level) group_no value_set s }"

subsection \<open>The documented behaviour of the registers\<close>

text \<open>
  A group of interrupts.  Beside its registers it keeps a trace, latest entry first: interrupts that were raised, MSI-X messages that were sent and
  acknowledged, values of the cause register that software read, and values that a collection returned to its caller.
\<close>

datatype iofic_note = Raised u32 | Sent nat | ReadCause u32 | Reported u32

record iofic_grp =
  g_cause :: u32
  g_mask :: u32
  g_control :: u32
  g_abort :: u32
  g_log :: "iofic_note list"

text \<open>
  Reading the cause clears it when the group is in clear-on-read mode.  Writing 0 to a bit of the cause or mask-clear register clears the bit, writing 1 has
  no effect; the cause-set register sets bits; the moderation reset bit of the control register negates itself.  The code does not read the registers for
  setting causes and clearing masks, nor the status and log registers.
\<close>

fun grp_rd :: "iofic_grp_reg \<Rightarrow> iofic_grp \<Rightarrow> u32 \<times> iofic_grp" where
  "grp_rd int_cause_grp x = (g_cause x, x\<lparr>g_cause := (if bit (g_control x) 0 then 0 else g_cause x), g_log := ReadCause (g_cause x) # g_log x\<rparr>)"
| "grp_rd int_mask_grp x = (g_mask x, x)"
| "grp_rd int_control_grp x = (g_control x, x)"
| "grp_rd int_abort_msk_grp x = (g_abort x, x)"
| "grp_rd _ x = (0, x)"

fun grp_wr :: "iofic_grp_reg \<Rightarrow> u32 \<Rightarrow> iofic_grp \<Rightarrow> iofic_grp" where
  "grp_wr int_cause_grp v x = x\<lparr>g_cause := g_cause x AND v\<rparr>"
| "grp_wr int_cause_set_grp v x = x\<lparr>g_cause := g_cause x OR v, g_log := Raised v # g_log x\<rparr>"
| "grp_wr int_mask_grp v x = x\<lparr>g_mask := v\<rparr>"
| "grp_wr int_mask_clear_grp v x = x\<lparr>g_mask := g_mask x AND v\<rparr>"
| "grp_wr int_control_grp v x = x\<lparr>g_control := v AND NOT INT_CONTROL_GRP_MOD_RST\<rparr>"
| "grp_wr int_abort_msk_grp v x = x\<lparr>g_abort := v\<rparr>"
| "grp_wr _ v x = x"

text \<open>
  What the hardware does by itself: it raises interrupts, and it sends the MSI-X message of a pending unmasked interrupt unless the group is barred from it.
  When the message is acknowledged the cause bit is cleared in auto-clear mode and the mask bit is set in auto-mask mode.
\<close>

definition grp_raise :: "u32 \<Rightarrow> iofic_grp \<Rightarrow> iofic_grp" where
  "grp_raise m x = x\<lparr>g_cause := g_cause x OR m, g_log := Raised m # g_log x\<rparr>"

definition grp_msix :: "nat \<Rightarrow> iofic_grp \<Rightarrow> iofic_grp" where
  "grp_msix n x =
     (if bit (g_cause x) n \<and> \<not> bit (g_mask x) n \<and> g_control x AND INT_CONTROL_GRP_MASK_MSI_X = 0
      then x\<lparr>g_cause := (if g_control x AND INT_CONTROL_GRP_AUTO_CLEAR \<noteq> 0 then unset_bit n (g_cause x) else g_cause x),
             g_mask := (if g_control x AND INT_CONTROL_GRP_AUTO_MASK \<noteq> 0 then set_bit n (g_mask x) else g_mask x),
             g_log := Sent n # g_log x\<rparr>
      else x)"

datatype iofic_event = HwRaise al_udma_iofic_level nat u32 | HwMsix al_udma_iofic_level nat nat

fun grp_event :: "al_udma_iofic_level \<Rightarrow> nat \<Rightarrow> iofic_event \<Rightarrow> iofic_grp \<Rightarrow> iofic_grp" where
  "grp_event l g (HwRaise l' g' m) x = (if l' = l \<and> g' = g then grp_raise m x else x)"
| "grp_event l g (HwMsix l' g' n) x = (if l' = l \<and> g' = g then grp_msix n x else x)"

text \<open>
  A device in which hardware and software interleave: \<open>hw\<close> is what the hardware does before an access takes effect.
\<close>

locale iofic_semantics =
  fixes D :: "'s reg_dev" and base :: ptr and n :: nat and get :: "nat \<Rightarrow> 's \<Rightarrow> iofic_grp" and put :: "nat \<Rightarrow> iofic_grp \<Rightarrow> 's \<Rightarrow> 's" and hw :: "'s \<Rightarrow> 's"
  assumes base: "base \<noteq> NULL" and groups: "n \<le> 4"
    and rd: "g < n \<Longrightarrow> dev_rd D (ctrl_reg base g r) s = (fst (grp_rd r (get g (hw s))), put g (snd (grp_rd r (get g (hw s)))) (hw s))"
    and wr: "g < n \<Longrightarrow> dev_wr D (ctrl_reg base g r) v s = put g (grp_wr r v (get g (hw s))) (hw s)"
    and put_get [simp]: "put g (get g s) s = s"
    and get_put [simp]: "get g (put g x s) = x"
    and hw_control: "g_control (get g (hw s)) = g_control (get g s)"
begin

lemma check_ok: "g < n \<Longrightarrow> iofic_check base g = Some ()"
  using base groups by (simp add: iofic_check_def AL_IOFIC_MAX_GROUPS_def)

text \<open>An operation that accesses one group once.\<close>

definition modify :: "nat \<Rightarrow> (iofic_grp \<Rightarrow> iofic_grp) \<Rightarrow> 's \<Rightarrow> 's" where
  "modify g f s = put g (f (get g (hw s))) (hw s)"

lemma unmask_effect: "g < n \<Longrightarrow> al_iofic_unmask D base g m s = Some (modify g (\<lambda>x. x\<lparr>g_mask := g_mask x AND NOT m\<rparr>) s)"
  by (simp add: al_iofic_unmask_def check_ok wr modify_def)

lemma mask_effect: "g < n \<Longrightarrow> al_iofic_mask D base g m s = Some (modify g (\<lambda>x. x\<lparr>g_mask := g_mask (get g (hw s)) OR m\<rparr>) (hw s))"
  by (simp add: al_iofic_mask_def check_ok rd wr modify_def)

lemma set_effect: "g < n \<Longrightarrow> al_iofic_set_cause D base g m s = Some (modify g (grp_raise m) s)"
  by (simp add: al_iofic_set_cause_def check_ok wr modify_def grp_raise_def)

lemma config_effect: "g < n \<Longrightarrow> al_iofic_config D base g v s = Some (modify g (\<lambda>x. x\<lparr>g_control := v AND NOT INT_CONTROL_GRP_MOD_RST\<rparr>) s)"
  by (simp add: al_iofic_config_def check_ok wr modify_def)

lemma abort_effect: "g < n \<Longrightarrow> al_iofic_abort_mask D base g v s = Some (modify g (\<lambda>x. x\<lparr>g_abort := v\<rparr>) s)"
  by (simp add: al_iofic_abort_mask_def check_ok wr modify_def)

text \<open>
  A collection: the read, then the hardware before the control register is read, and without clear-on-read the hardware again before the causes that
  were read are cleared.
\<close>

lemma read_and_clear_effect:
  fixes s :: 's
  defines "v g \<equiv> g_cause (get g (hw s))" and "s1 g \<equiv> modify g (\<lambda>x. snd (grp_rd int_cause_grp x)) s"
  assumes "g < n"
  shows "al_iofic_read_and_clear_cause D base g s =
    Some (v g, if bit (g_control (get g s)) 0 then hw (s1 g) else modify g (\<lambda>x. x\<lparr>g_cause := g_cause x AND NOT (v g)\<rparr>) (hw (s1 g)))"
proof -
  have f: "c AND INT_CONTROL_GRP_CLEAR_ON_READ = 0 \<longleftrightarrow> \<not> bit c 0" for c :: u32
    by (simp add: INT_CONTROL_GRP_CLEAR_ON_READ_def AL_BIT_def and_one_eq odd_iff_mod_2_eq_one bit_0)
  have "g_control (get g (hw (s1 g))) = g_control (get g s)" by (simp add: hw_control s1_def modify_def)
  then show ?thesis using assms(3)
    by (simp add: al_iofic_read_and_clear_cause_def al_iofic_read_cause_def al_iofic_clear_cause_def check_ok rd wr f modify_def v_def s1_def del: bit_0)
qed

end

subsection \<open>An executable device\<close>

text \<open>
  The two controllers of a UDMA at \<open>u\<close>: four groups in the main controller, two in the secondary one.  The schedule lists, for every register access to
  come, the hardware events before it; no events happen after its end.  The registers of the moderation timers are not part of this device.
\<close>

record iofic_state =
  io_grp :: "al_udma_iofic_level \<Rightarrow> nat \<Rightarrow> iofic_grp"
  io_sched :: "iofic_event list list"

definition hw_step :: "iofic_state \<Rightarrow> iofic_state" where
  "hw_step s = (case io_sched s of [] \<Rightarrow> s
     | es # ess \<Rightarrow> \<lparr>io_grp = (\<lambda>l g. fold (grp_event l g) es (io_grp s l g)), io_sched = ess\<rparr>)"

definition put_grp :: "al_udma_iofic_level \<Rightarrow> nat \<Rightarrow> iofic_grp \<Rightarrow> iofic_state \<Rightarrow> iofic_state" where
  "put_grp l g x s = s\<lparr>io_grp := (io_grp s)(l := (io_grp s l)(g := x))\<rparr>"

definition grp_reg_at :: "nat \<Rightarrow> iofic_grp_reg option" where
  "grp_reg_at off = map_of (map (\<lambda>r. (grp_reg_off r, r)) [int_cause_grp, int_cause_set_grp, int_mask_grp, int_mask_clear_grp,
     int_status_grp, int_control_grp, int_abort_msk_grp, int_log_msk_grp]) off"

definition iofic_decode :: "ptr \<Rightarrow> ptr \<Rightarrow> (al_udma_iofic_level \<times> nat \<times> iofic_grp_reg) option" where
  "iofic_decode u p =
     (let at = (\<lambda>l d. map_option (\<lambda>r. (l, d div 0x40, r)) (grp_reg_at (d mod 0x40)))
      in if main_iofic u \<le> p \<and> p < main_iofic u + 0x100 then at AL_UDMA_IOFIC_LEVEL_PRIMARY (p - main_iofic u)
         else if secondary_iofic_ctrl u \<le> p \<and> p < secondary_iofic_ctrl u + 0x80 then at AL_UDMA_IOFIC_LEVEL_SECONDARY (p - secondary_iofic_ctrl u)
         else None)"

definition udma_iofic_dev :: "ptr \<Rightarrow> iofic_state reg_dev" where
  "udma_iofic_dev u = \<lparr>
     dev_rd = (\<lambda>p s. let s = hw_step s in case iofic_decode u p of
        Some (l, g, r) \<Rightarrow> (case grp_rd r (io_grp s l g) of (v, x) \<Rightarrow> (v, put_grp l g x s))
      | None \<Rightarrow> (0, s)),
     dev_wr = (\<lambda>p v s. let s = hw_step s in case iofic_decode u p of
        Some (l, g, r) \<Rightarrow> put_grp l g (grp_wr r v (io_grp s l g)) s
      | None \<Rightarrow> s)\<rparr>"

definition level_groups :: "al_udma_iofic_level \<Rightarrow> nat" where
  "level_groups l = (case l of AL_UDMA_IOFIC_LEVEL_PRIMARY \<Rightarrow> 4 | AL_UDMA_IOFIC_LEVEL_SECONDARY \<Rightarrow> 2)"

lemma grp_reg_off_lt: "grp_reg_off r < 0x40"
  by (cases r) simp_all

lemma grp_reg_at_off: "grp_reg_at (grp_reg_off r) = Some r"
  by (cases r) (simp_all add: grp_reg_at_def)

lemma iofic_base_nonnull: "main_iofic u \<noteq> NULL" "secondary_iofic_ctrl u \<noteq> NULL"
  by (simp_all add: main_iofic_def secondary_iofic_ctrl_def)

lemma decode_ctrl:
  assumes "g < level_groups l"
  shows "iofic_decode u (ctrl_reg (al_udma_iofic_reg_base_get u l) g r) = Some (l, g, r)"
proof -
  have d: "(0x40 * g + k) div 0x40 = g" "(0x40 * g + k) mod 0x40 = k" if "k < 0x40" for g k :: nat
    using that by simp_all
  note lt = grp_reg_off_lt [of r]
  show ?thesis using assms lt d [OF lt] grp_reg_at_off [of r]
    by (cases l) (simp_all add: iofic_decode_def ctrl_reg_def level_groups_def al_udma_iofic_reg_base_get_def main_iofic_def secondary_iofic_ctrl_def add.assoc)
qed

lemma grp_event_control: "g_control (fold (grp_event l g) es x) = g_control x"
proof (induction es arbitrary: x)
  case (Cons e es)
  have "g_control (grp_event l g e x) = g_control x" by (cases e) (simp_all add: grp_raise_def grp_msix_def)
  then show ?case using Cons.IH by simp
qed simp

interpretation lev: iofic_semantics "udma_iofic_dev u" "al_udma_iofic_reg_base_get u l" "level_groups l" "\<lambda>g s. io_grp s l g" "put_grp l" hw_step for u l
proof
  show "al_udma_iofic_reg_base_get u l \<noteq> NULL" by (simp add: al_udma_iofic_reg_base_get_def main_iofic_def secondary_iofic_ctrl_def)
  show "level_groups l \<le> 4" by (cases l) (simp_all add: level_groups_def)
qed (auto simp: udma_iofic_dev_def decode_ctrl put_grp_def hw_step_def grp_event_control Let_def split: option.splits prod.splits list.splits)

subsection \<open>Properties\<close>

text \<open>What software does with a group: it raises interrupts, collects the pending ones, masks and unmasks.  A collection notes what it returned.\<close>

datatype iofic_op = SwRaise u32 | Collect | MaskOp u32 | UnmaskOp u32

fun iofic_run :: "ptr \<Rightarrow> al_udma_iofic_level \<Rightarrow> nat \<Rightarrow> iofic_op list \<Rightarrow> iofic_state \<Rightarrow> (u32 list \<times> iofic_state) option" where
  "iofic_run u level g [] s = Some ([], s)"
| "iofic_run u level g (SwRaise m # ops) s =
     do { s \<leftarrow> al_udma_iofic_set_cause (udma_iofic_dev u) u level g m s; iofic_run u level g ops s }"
| "iofic_run u level g (Collect # ops) s =
     do { (v, s) \<leftarrow> al_udma_iofic_read_and_clear_cause (udma_iofic_dev u) u level g s;
          let x = io_grp s level g;
          (vs, s) \<leftarrow> iofic_run u level g ops (put_grp level g (x\<lparr>g_log := Reported v # g_log x\<rparr>) s); Some (v # vs, s) }"
| "iofic_run u level g (MaskOp m # ops) s =
     do { s \<leftarrow> al_udma_iofic_mask (udma_iofic_dev u) u level g m s; iofic_run u level g ops s }"
| "iofic_run u level g (UnmaskOp m # ops) s =
     do { s \<leftarrow> al_udma_iofic_unmask (udma_iofic_dev u) u level g m s; iofic_run u level g ops s }"

text \<open>
  Whether interrupt \<open>n\<close>, pending at first as \<open>c\<close> says, has been raised and not been answered since.  A message answers it; with clear-on-read the read of the
  cause answers it, otherwise the return of a collection with the bit.
\<close>

fun unanswered :: "bool \<Rightarrow> u32 \<Rightarrow> nat \<Rightarrow> iofic_note list \<Rightarrow> bool" where
  "unanswered cor c n [] \<longleftrightarrow> bit c n"
| "unanswered cor c n (Raised m # log) \<longleftrightarrow> bit m n \<or> unanswered cor c n log"
| "unanswered cor c n (Sent k # log) \<longleftrightarrow> k \<noteq> n \<and> unanswered cor c n log"
| "unanswered cor c n (ReadCause v # log) \<longleftrightarrow> (cor \<longrightarrow> \<not> bit v n) \<and> unanswered cor c n log"
| "unanswered cor c n (Reported v # log) \<longleftrightarrow> (\<not> cor \<longrightarrow> \<not> bit v n) \<and> unanswered cor c n log"

fun raised_bits :: "u32 \<Rightarrow> iofic_note list \<Rightarrow> u32" where
  "raised_bits c [] = c"
| "raised_bits c (Raised m # log) = m OR raised_bits c log"
| "raised_bits c (_ # log) = raised_bits c log"

text \<open>Messages and values read stand for interrupts that were raised before.\<close>

fun genuine :: "u32 \<Rightarrow> iofic_note list \<Rightarrow> bool" where
  "genuine c [] \<longleftrightarrow> True"
| "genuine c (Sent k # log) \<longleftrightarrow> bit (raised_bits c log) k \<and> genuine c log"
| "genuine c (ReadCause v # log) \<longleftrightarrow> v AND NOT (raised_bits c log) = 0 \<and> genuine c log"
| "genuine c (_ # log) \<longleftrightarrow> genuine c log"

fun reads_of :: "iofic_note list \<Rightarrow> u32 list" where
  "reads_of [] = []"
| "reads_of (ReadCause v # log) = v # reads_of log"
| "reads_of (_ # log) = reads_of log"

fun mask_after :: "iofic_op list \<Rightarrow> u32 \<Rightarrow> u32" where
  "mask_after [] x = x"
| "mask_after (MaskOp m # ops) x = mask_after ops (x OR m)"
| "mask_after (UnmaskOp m # ops) x = mask_after ops (x AND NOT m)"
| "mask_after (_ # ops) x = mask_after ops x"

text \<open>
  The invariant of a group with control word \<open>ctl\<close>: \<open>w\<close> are causes already cleared that the running collection is about to return, \<open>S\<close> is the mask that
  software asked for.
\<close>

definition grp_inv :: "u32 \<Rightarrow> u32 \<Rightarrow> u32 \<Rightarrow> u32 \<Rightarrow> iofic_grp \<Rightarrow> bool" where
  "grp_inv c ctl w S x \<longleftrightarrow> g_control x = ctl \<and>
     (\<forall>n. unanswered (bit ctl 0) c n (g_log x) \<longrightarrow> bit (g_cause x) n \<or> bit w n) \<and>
     (\<forall>n. bit (g_cause x) n \<longrightarrow> bit (raised_bits c (g_log x)) n) \<and> genuine c (g_log x) \<and>
     (\<forall>n. bit S n \<longrightarrow> bit (g_mask x) n) \<and> (ctl AND INT_CONTROL_GRP_AUTO_MASK = 0 \<longrightarrow> g_mask x = S)"

lemma grp_inv_event: "grp_inv c ctl w S x \<Longrightarrow> grp_inv c ctl w S (grp_event l g e x) \<and> reads_of (g_log (grp_event l g e x)) = reads_of (g_log x)"
  by (cases e) (auto simp: grp_inv_def grp_raise_def grp_msix_def bit_or_iff bit_set_bit_iff bit_unset_bit_iff)

lemma grp_inv_events:
  "grp_inv c ctl w S x \<Longrightarrow> grp_inv c ctl w S (fold (grp_event l g) es x) \<and> reads_of (g_log (fold (grp_event l g) es x)) = reads_of (g_log x)"
proof (induction es arbitrary: x)
  case (Cons e es)
  show ?case using Cons.IH [of "grp_event l g e x"] grp_inv_event [OF Cons.prems, of l g e] by simp
qed simp

text \<open>The groups other than the one that software works on see the hardware events only.\<close>

definition others_hw :: "al_udma_iofic_level \<Rightarrow> nat \<Rightarrow> iofic_state \<Rightarrow> iofic_state \<Rightarrow> bool" where
  "others_hw level g s s' \<longleftrightarrow> (\<exists>k. io_sched s' = drop k (io_sched s) \<and>
     (\<forall>l h. (l, h) \<noteq> (level, g) \<longrightarrow> io_grp s' l h = fold (grp_event l h) (concat (take k (io_sched s))) (io_grp s l h)))"

lemma others_hw_refl: "others_hw level g s s"
  unfolding others_hw_def by (intro exI [of _ 0]) simp

lemma others_hw_trans:
  assumes "others_hw level g s s1" "others_hw level g s1 s2"
  shows "others_hw level g s s2"
proof -
  obtain k j where k: "io_sched s1 = drop k (io_sched s)"
    "\<forall>l h. (l, h) \<noteq> (level, g) \<longrightarrow> io_grp s1 l h = fold (grp_event l h) (concat (take k (io_sched s))) (io_grp s l h)"
    and j: "io_sched s2 = drop j (io_sched s1)"
    "\<forall>l h. (l, h) \<noteq> (level, g) \<longrightarrow> io_grp s2 l h = fold (grp_event l h) (concat (take j (io_sched s1))) (io_grp s1 l h)"
    using assms unfolding others_hw_def by blast
  have "io_sched s2 = drop (k + j) (io_sched s)" using k(1) j(1) by (simp add: add.commute)
  then show ?thesis unfolding others_hw_def by (intro exI [of _ "k + j"]) (use k j(2) in \<open>auto simp: take_add\<close>)
qed

lemma others_hw_step: "others_hw level g s (hw_step s)"
  unfolding others_hw_def by (rule exI [of _ 1]) (auto simp: hw_step_def split: list.splits)

lemma others_put: "others_hw level g s s' \<Longrightarrow> others_hw level g s (put_grp level g x s')"
  unfolding others_hw_def put_grp_def by (auto simp: fun_upd_apply)

text \<open>One access of software to a group, and a step of the hardware, under the invariant.\<close>

definition run_inv :: "al_udma_iofic_level \<Rightarrow> nat \<Rightarrow> u32 \<Rightarrow> u32 \<Rightarrow> u32 \<Rightarrow> u32 \<Rightarrow> u32 list \<Rightarrow> iofic_state \<Rightarrow> iofic_state \<Rightarrow> bool" where
  "run_inv level g c ctl w S vs s0 s \<longleftrightarrow> grp_inv c ctl w S (io_grp s level g) \<and> rev (reads_of (g_log (io_grp s level g))) = vs \<and> others_hw level g s0 s"

lemma run_inv_hw: "run_inv level g c ctl w S vs s0 s \<Longrightarrow> run_inv level g c ctl w S vs s0 (hw_step s)"
  using others_hw_trans [OF _ others_hw_step] grp_inv_events [of c ctl w S]
  by (auto simp: run_inv_def hw_step_def split: list.splits)

lemma run_inv_put:
  assumes "run_inv level g c ctl w S vs s0 s" "grp_inv c ctl w S (io_grp s level g) \<Longrightarrow> grp_inv c ctl w' S' x" "rev (reads_of (g_log x)) = vs'"
  shows "run_inv level g c ctl w' S' vs' s0 (put_grp level g x s)"
  using assms others_put by (auto simp: run_inv_def put_grp_def)

lemmas run_inv_modify = run_inv_put [OF run_inv_hw]

lemma level_valid: "al_udma_iofic_level_and_group_valid level g \<longleftrightarrow> g < level_groups level"
  by (cases level) (auto simp: al_udma_iofic_level_and_group_valid_def level_groups_def)

lemma set_cause_inv:
  assumes "g < level_groups level" "run_inv level g c ctl 0 S vs s0 s"
  shows "\<exists>s'. al_udma_iofic_set_cause (udma_iofic_dev u) u level g m s = Some s' \<and> run_inv level g c ctl 0 S vs s0 s'"
proof -
  let ?x = "io_grp (hw_step s) level g"
  have r: "rev (reads_of (g_log ?x)) = vs" using run_inv_hw [OF assms(2)] by (simp add: run_inv_def)
  have "run_inv level g c ctl 0 S vs s0 (put_grp level g (grp_raise m ?x) (hw_step s))"
    by (rule run_inv_modify [OF assms(2)]) (use r in \<open>auto simp: grp_inv_def grp_raise_def bit_or_iff\<close>)
  then show ?thesis using assms(1) by (simp add: al_udma_iofic_set_cause_def level_valid lev.set_effect lev.modify_def)
qed

lemma unmask_inv:
  assumes "g < level_groups level" "run_inv level g c ctl 0 S vs s0 s"
  shows "\<exists>s'. al_udma_iofic_unmask (udma_iofic_dev u) u level g m s = Some s' \<and> run_inv level g c ctl 0 (S AND NOT m) vs s0 s'"
proof -
  let ?x = "io_grp (hw_step s) level g"
  have r: "rev (reads_of (g_log ?x)) = vs" using run_inv_hw [OF assms(2)] by (simp add: run_inv_def)
  have "run_inv level g c ctl 0 (S AND NOT m) vs s0 (put_grp level g (?x\<lparr>g_mask := g_mask ?x AND NOT m\<rparr>) (hw_step s))"
    by (rule run_inv_modify [OF assms(2)]) (use r in \<open>auto simp: grp_inv_def bit_and_iff\<close>)
  then show ?thesis using assms(1) by (simp add: al_udma_iofic_unmask_def level_valid lev.unmask_effect lev.modify_def)
qed

text \<open>Masking reads and writes the mask: what software asked for is kept although the hardware may set further bits in between.\<close>

lemma mask_inv:
  assumes "g < level_groups level" "run_inv level g c ctl 0 S vs s0 s"
  shows "\<exists>s'. al_udma_iofic_mask (udma_iofic_dev u) u level g m s = Some s' \<and> run_inv level g c ctl 0 (S OR m) vs s0 s'"
proof -
  let ?x = "io_grp (hw_step s) level g" and ?y = "io_grp (hw_step (hw_step s)) level g"
  note i = run_inv_hw [OF assms(2)]
  have r: "rev (reads_of (g_log ?y)) = vs" using run_inv_hw [OF i] by (simp add: run_inv_def)
  have x: "\<forall>n. bit S n \<longrightarrow> bit (g_mask ?x) n" "ctl AND INT_CONTROL_GRP_AUTO_MASK = 0 \<longrightarrow> g_mask ?x = S" using i by (simp_all add: run_inv_def grp_inv_def)
  have "run_inv level g c ctl 0 (S OR m) vs s0 (put_grp level g (?y\<lparr>g_mask := g_mask ?x OR m\<rparr>) (hw_step (hw_step s)))"
    by (rule run_inv_modify [OF i]) (use r x in \<open>auto simp: grp_inv_def bit_or_iff\<close>)
  then show ?thesis using assms(1) by (simp add: al_udma_iofic_mask_def level_valid lev.mask_effect lev.modify_def)
qed

lemma bits_within: "v AND NOT r = 0 \<longleftrightarrow> (\<forall>n. bit v n \<longrightarrow> bit r n)" for v r :: u32
proof
  assume e: "v AND NOT r = 0"
  show "\<forall>n. bit v n \<longrightarrow> bit r n"
  proof (intro allI impI)
    fix n assume "bit v n"
    then have "bit (v AND NOT r) n \<or> bit r n" by (auto simp: bit_simps dest: bit_imp_le_length)
    then show "bit r n" using e by simp
  qed
qed (auto intro!: bit_word_eqI simp: bit_simps)

lemma grp_inv_clear:
  assumes "grp_inv c ctl 0 S y"
  shows "grp_inv c ctl v S (y\<lparr>g_cause := g_cause y AND NOT v\<rparr>)"
proof -
  have b: "bit (g_cause y AND NOT v) n \<longleftrightarrow> bit (g_cause y) n \<and> \<not> bit v n" for n
    by (auto simp: bit_simps dest: bit_imp_le_length)
  show ?thesis using assms by (auto simp: grp_inv_def b simp del: bit_0)
qed

lemma collect_inv:
  assumes "g < level_groups level" "run_inv level g c ctl 0 S vs s0 s"
  shows "\<exists>v s'. al_udma_iofic_read_and_clear_cause (udma_iofic_dev u) u level g s = Some (v, s') \<and>
    (let x = io_grp s' level g in run_inv level g c ctl 0 S (vs @ [v]) s0 (put_grp level g (x\<lparr>g_log := Reported v # g_log x\<rparr>) s'))"
proof -
  let ?x = "io_grp (hw_step s) level g"
  let ?v = "g_cause ?x" and ?s1 = "put_grp level g (snd (grp_rd int_cause_grp ?x)) (hw_step s)"
  let ?s2 = "hw_step ?s1"
  let ?y = "io_grp (hw_step ?s2) level g"
  let ?s3 = "put_grp level g (?y\<lparr>g_cause := g_cause ?y AND NOT ?v\<rparr>) (hw_step ?s2)"
  note i = run_inv_hw [OF assms(2)]
  have r: "rev (reads_of (g_log ?x)) = vs" and c: "g_control ?x = ctl" "g_control (io_grp s level g) = ctl"
    using i assms(2) by (simp_all add: run_inv_def grp_inv_def)
  have i2: "run_inv level g c ctl 0 S (vs @ [?v]) s0 ?s2"
    by (rule run_inv_hw, rule run_inv_modify [OF assms(2)]) (use r c in \<open>auto simp: grp_inv_def bits_within\<close>)
  have i3: "run_inv level g c ctl ?v S (vs @ [?v]) s0 ?s3"
  proof (rule run_inv_modify [OF i2])
    show "rev (reads_of (g_log (?y\<lparr>g_cause := g_cause ?y AND NOT ?v\<rparr>))) = vs @ [?v]" using run_inv_hw [OF i2] by (simp add: run_inv_def)
  qed (rule grp_inv_clear)
  show ?thesis
  proof (cases "bit ctl 0")
    case True
    let ?z = "io_grp ?s2 level g"
    have "run_inv level g c ctl 0 S (vs @ [?v]) s0 (put_grp level g (?z\<lparr>g_log := Reported ?v # g_log ?z\<rparr>) ?s2)"
      by (rule run_inv_put [OF i2]) (use i2 True in \<open>auto simp: run_inv_def grp_inv_def\<close>)
    then show ?thesis using assms(1) c True
      by (simp add: al_udma_iofic_read_and_clear_cause_def level_valid lev.read_and_clear_effect lev.modify_def Let_def del: bit_0)
  next
    case False
    let ?z = "io_grp ?s3 level g"
    have "run_inv level g c ctl 0 S (vs @ [?v]) s0 (put_grp level g (?z\<lparr>g_log := Reported ?v # g_log ?z\<rparr>) ?s3)"
      by (rule run_inv_put [OF i3]) (use i3 False in \<open>auto simp: run_inv_def grp_inv_def simp del: bit_0\<close>)
    then show ?thesis using assms(1) c False
      by (simp add: al_udma_iofic_read_and_clear_cause_def level_valid lev.read_and_clear_effect lev.modify_def Let_def del: bit_0)
  qed
qed

lemma iofic_run_inv:
  assumes "g < level_groups level" "run_inv level g c ctl 0 S vs s0 s"
  shows "\<exists>vs' s'. iofic_run u level g ops s = Some (vs', s') \<and> run_inv level g c ctl 0 (mask_after ops S) (vs @ vs') s0 s'"
  using assms(2)
proof (induction ops arbitrary: S vs s)
  case (Cons p ops)
  show ?case
  proof (cases p)
    case (SwRaise m)
    then show ?thesis using set_cause_inv [OF assms(1) Cons.prems, of u m] Cons.IH by fastforce
  next
    case Collect
    obtain v s1 where s1: "al_udma_iofic_read_and_clear_cause (udma_iofic_dev u) u level g s = Some (v, s1)"
      "run_inv level g c ctl 0 S (vs @ [v]) s0 (put_grp level g ((io_grp s1 level g)\<lparr>g_log := Reported v # g_log (io_grp s1 level g)\<rparr>) s1)"
      using collect_inv [OF assms(1) Cons.prems, of u] by (auto simp: Let_def)
    then show ?thesis using Cons.IH [OF s1(2)] Collect by (auto simp: Let_def)
  next
    case (MaskOp m)
    then show ?thesis using mask_inv [OF assms(1) Cons.prems, of u m] Cons.IH by fastforce
  next
    case (UnmaskOp m)
    then show ?thesis using unmask_inv [OF assms(1) Cons.prems, of u m] Cons.IH by fastforce
  qed
qed auto

text \<open>
  C11: the interrupt controller loses no interrupt, whatever the hardware does between any two register accesses.  For every schedule of interrupts raised and
  MSI-X messages sent (with their automatic clearing and masking) and every sequence of interrupts raised by software, collections, maskings and unmaskings of
  a group, at either level and for every control word: the calls succeed; an interrupt that was raised and has not been answered since is still pending, where
  a message answers it, a read of the cause does in clear-on-read mode, and otherwise the return of a collection with its bit; nothing is pending, read or sent that was not raised;
  the values returned are those that were read; a bit that software masked stays masked, and without auto-mask the mask is exactly what software asked for; all other
  groups see the hardware events only.
\<close>

theorem iofic_no_lost_interrupt:
  fixes s :: iofic_state and level :: al_udma_iofic_level and g :: nat
  defines "x0 \<equiv> io_grp s level g"
  assumes "al_udma_iofic_level_and_group_valid level g" "g_log x0 = []"
  shows "\<exists>vs s'. iofic_run u level g ops s = Some (vs, s') \<and>
    (let x = io_grp s' level g in
      (\<forall>n. unanswered (bit (g_control x0) 0) (g_cause x0) n (g_log x) \<longrightarrow> bit (g_cause x) n) \<and>
      (\<forall>n. bit (g_cause x) n \<longrightarrow> bit (raised_bits (g_cause x0) (g_log x)) n) \<and> genuine (g_cause x0) (g_log x) \<and>
      rev (reads_of (g_log x)) = vs \<and>
      (\<forall>n. bit (mask_after ops (g_mask x0)) n \<longrightarrow> bit (g_mask x) n) \<and>
      (g_control x0 AND INT_CONTROL_GRP_AUTO_MASK = 0 \<longrightarrow> g_mask x = mask_after ops (g_mask x0))) \<and>
    others_hw level g s s'"
proof -
  have "run_inv level g (g_cause x0) (g_control x0) 0 (g_mask x0) [] s s"
    using assms(3) others_hw_refl by (simp add: run_inv_def grp_inv_def x0_def)
  moreover have "g < level_groups level" using assms(2) by (simp add: level_valid)
  ultimately obtain vs s' where "iofic_run u level g ops s = Some (vs, s')"
    "run_inv level g (g_cause x0) (g_control x0) 0 (mask_after ops (g_mask x0)) vs s s'"
    using iofic_run_inv by fastforce
  then show ?thesis by (auto simp: run_inv_def grp_inv_def Let_def simp del: bit_0)
qed

text \<open>Interrupts 0 and 2 are raised before a collection; while it runs, after its read, interrupt 3 is raised.\<close>

definition demo_iofic :: iofic_state where
  "demo_iofic = \<lparr>io_grp = (\<lambda>_ _. \<lparr>g_cause = 0, g_mask = 0xFFFFFFFF, g_control = 0, g_abort = 0, g_log = []\<rparr>),
     io_sched = [[HwRaise AL_UDMA_IOFIC_LEVEL_PRIMARY 1 5], [], [HwRaise AL_UDMA_IOFIC_LEVEL_PRIMARY 1 8]]\<rparr>"

lemma demo_iofic_run:
  "\<exists>s'. iofic_run 0x1000 AL_UDMA_IOFIC_LEVEL_PRIMARY 1 [Collect] demo_iofic = Some ([5], s') \<and>
     g_log (io_grp s' AL_UDMA_IOFIC_LEVEL_PRIMARY 1) = [Reported 5, Raised 8, ReadCause 5, Raised 5]"
  by (simp add: al_udma_iofic_read_and_clear_cause_def level_valid level_groups_def lev.read_and_clear_effect lev.modify_def demo_iofic_def hw_step_def put_grp_def
      grp_raise_def Let_def)

theorem iofic_no_lost_interrupt_witness:
  "\<exists>s'. iofic_run 0x1000 AL_UDMA_IOFIC_LEVEL_PRIMARY 1 [Collect] demo_iofic = Some ([5], s') \<and> bit (g_cause (io_grp s' AL_UDMA_IOFIC_LEVEL_PRIMARY 1)) 3"
proof -
  have v: "al_udma_iofic_level_and_group_valid AL_UDMA_IOFIC_LEVEL_PRIMARY 1" "g_log (io_grp demo_iofic AL_UDMA_IOFIC_LEVEL_PRIMARY 1) = []"
    by (simp_all add: al_udma_iofic_level_and_group_valid_def demo_iofic_def)
  obtain s' where s': "iofic_run 0x1000 AL_UDMA_IOFIC_LEVEL_PRIMARY 1 [Collect] demo_iofic = Some ([5], s')"
    "g_log (io_grp s' AL_UDMA_IOFIC_LEVEL_PRIMARY 1) = [Reported 5, Raised 8, ReadCause 5, Raised 5]"
    using demo_iofic_run by blast
  obtain vs s2 where s2: "iofic_run 0x1000 AL_UDMA_IOFIC_LEVEL_PRIMARY 1 [Collect] demo_iofic = Some (vs, s2)"
    "\<forall>n. unanswered (bit (g_control (io_grp demo_iofic AL_UDMA_IOFIC_LEVEL_PRIMARY 1)) 0) (g_cause (io_grp demo_iofic AL_UDMA_IOFIC_LEVEL_PRIMARY 1)) n
      (g_log (io_grp s2 AL_UDMA_IOFIC_LEVEL_PRIMARY 1)) \<longrightarrow> bit (g_cause (io_grp s2 AL_UDMA_IOFIC_LEVEL_PRIMARY 1)) n"
    using iofic_no_lost_interrupt [OF v, of "0x1000" "[Collect]"] unfolding Let_def by blast
  have "s2 = s'" using s2(1) s'(1) by simp
  then have "bit (g_cause (io_grp s' AL_UDMA_IOFIC_LEVEL_PRIMARY 1)) 3" using spec [OF s2(2), of 3] s'(2) by simp
  then show ?thesis using s'(1) by blast
qed

text \<open>
  Masking is not safe against auto-mask: the bit that the hardware sets between the read and the write of the mask register is cleared again.  Here the message
  of interrupt 0 is sent while software masks interrupt 1.
\<close>

lemma mask_undoes_auto_mask:
  fixes x :: iofic_grp
  assumes "g_cause x = 1" "g_mask x = 0" "g_control x = INT_CONTROL_GRP_AUTO_MASK"
  shows "\<exists>s'. al_udma_iofic_mask (udma_iofic_dev u) u AL_UDMA_IOFIC_LEVEL_PRIMARY 0 2
      \<lparr>io_grp = (\<lambda>_ _. x), io_sched = [[], [HwMsix AL_UDMA_IOFIC_LEVEL_PRIMARY 0 0]]\<rparr> = Some s' \<and>
    g_log (io_grp s' AL_UDMA_IOFIC_LEVEL_PRIMARY 0) = Sent 0 # g_log x \<and> g_mask (io_grp s' AL_UDMA_IOFIC_LEVEL_PRIMARY 0) = 2"
  using assms by (simp add: al_udma_iofic_mask_def level_valid level_groups_def lev.mask_effect lev.modify_def hw_step_def put_grp_def grp_msix_def
      INT_CONTROL_GRP_MASK_MSI_X_def INT_CONTROL_GRP_AUTO_CLEAR_def INT_CONTROL_GRP_AUTO_MASK_def AL_BIT_def)

text \<open>
  The control word of every group of the main controller: in legacy mode all groups are collected by reading and raise no MSI-X; in
  MSI-X mode group A (and in the per-queue mode B and C) clears and masks itself when its message is sent.
\<close>

fun mode_control :: "al_iofic_mode \<Rightarrow> nat \<Rightarrow> u32" where
  "mode_control AL_IOFIC_MODE_LEGACY g = (if g = 1 \<or> g = 2 then 0x21 else 0x29)"
| "mode_control AL_IOFIC_MODE_MSIX_PER_Q g = (if g = 0 then 0x0E else if g = 3 then 0x29 else 0x07)"
| "mode_control AL_IOFIC_MODE_MSIX_PER_GROUP g = (if g = 0 then 0x0E else if g = 3 then 0x29 else 0x21)"
| "mode_control AL_IOFIC_MODE_OTHER g = 0"

lemma dev_wr_groups:
  "io_sched s = [] \<Longrightarrow> g < 4 \<Longrightarrow> dev_wr (udma_iofic_dev u) (ctrl_reg (main_iofic u) g r) v s =
     put_grp AL_UDMA_IOFIC_LEVEL_PRIMARY g (grp_wr r v (io_grp s AL_UDMA_IOFIC_LEVEL_PRIMARY g)) s"
  "io_sched s = [] \<Longrightarrow> g < 2 \<Longrightarrow> dev_wr (udma_iofic_dev u) (ctrl_reg (secondary_iofic_ctrl u) g r) v s =
     put_grp AL_UDMA_IOFIC_LEVEL_SECONDARY g (grp_wr r v (io_grp s AL_UDMA_IOFIC_LEVEL_SECONDARY g)) s"
  using lev.wr [of g AL_UDMA_IOFIC_LEVEL_PRIMARY u r v s] lev.wr [of g AL_UDMA_IOFIC_LEVEL_SECONDARY u r v s]
  by (simp_all add: level_groups_def al_udma_iofic_reg_base_get_def hw_step_def)

lemmas iofic_config_defs = al_udma_iofic_config_def al_udma_main_iofic_config_def al_iofic_config_def al_iofic_unmask_def
  al_iofic_abort_mask_def iofic_check_def iofic_base_nonnull iofic_groups dev_wr_groups put_grp_def

lemmas iofic_control_bits = INT_CONTROL_GRP_CLEAR_ON_READ_def INT_CONTROL_GRP_AUTO_MASK_def INT_CONTROL_GRP_AUTO_CLEAR_def
  INT_CONTROL_GRP_SET_ON_POSEDGE_def INT_CONTROL_GRP_MOD_RST_def INT_CONTROL_GRP_MASK_MSI_X_def AL_BIT_def

text \<open>
  Configuring the interrupts of a UDMA, while the hardware is quiet, gives every group of the main controller the control word of the mode, leaves its cause, mask
  and abort registers alone, unmasks in the secondary controller exactly the errors that are not disabled (group A for
  memory-to-stream, group B for stream-to-memory), sets the abort masks there and touches nothing else; a mode outside the
  enumeration is refused with \<open>-EINVAL\<close> before any register is written.
\<close>

definition iofic_configured :: "al_iofic_mode \<Rightarrow> u32 \<Rightarrow> u32 \<Rightarrow> u32 \<Rightarrow> u32 \<Rightarrow> al_udma_iofic_level \<Rightarrow> nat \<Rightarrow> iofic_grp \<Rightarrow> iofic_grp" where
  "iofic_configured mode me ma se sa l g x =
     (case l of AL_UDMA_IOFIC_LEVEL_PRIMARY \<Rightarrow> if g < 4 then x\<lparr>g_control := mode_control mode g\<rparr> else x
      | AL_UDMA_IOFIC_LEVEL_SECONDARY \<Rightarrow>
          if g = 0 then x\<lparr>g_mask := g_mask x AND me, g_abort := ma\<rparr> else if g = 1 then x\<lparr>g_mask := g_mask x AND se, g_abort := sa\<rparr> else x)"

lemma udma_iofic_config_eq:
  assumes "mode \<noteq> AL_IOFIC_MODE_OTHER" "io_sched s = []"
  shows "al_udma_iofic_config (udma_iofic_dev u) u mode me ma se sa s =
     Some (RcOk, s\<lparr>io_grp := (\<lambda>l g. iofic_configured mode me ma se sa l g (io_grp s l g))\<rparr>)"
proof -
  have g: "g < 4 \<longleftrightarrow> g = 0 \<or> g = 1 \<or> g = 2 \<or> g = 3" for g :: nat by linarith
  show ?thesis
    by (cases mode; rule option.expand; use assms in \<open>simp add: iofic_config_defs iofic_control_bits iofic_configured_def g fun_eq_iff split: al_udma_iofic_level.split\<close>)
qed

theorem udma_iofic_config_outcome:
  assumes "io_sched s = []"
  shows "al_udma_iofic_config (udma_iofic_dev u) u mode me ma se sa s = Some (
     if mode = AL_IOFIC_MODE_OTHER then (RcErr EINVAL, s)
     else (RcOk, s\<lparr>io_grp := (\<lambda>l g. iofic_configured mode me ma se sa l g (io_grp s l g))\<rparr>))"
  using assms by (simp add: udma_iofic_config_eq) (simp add: al_udma_iofic_config_def al_udma_main_iofic_config_def)

end
