(* ===== verification/Eth_Moder.thy ===== *)
theory Eth_Moder
  imports Iofic
begin

text \<open>
  Interrupts of the network driver (\<open>al_eth_main.c\<close>): set-up of the interrupt controller, masks, fixed and adaptive
  interrupt moderation.

  The two static tables of the driver are a state of their own.  A table is a list of five entries.  The registers of the interrupt controller are
  reached through the device of theory \<open>Iofic\<close>.
\<close>

subsection \<open>Clock and intervals\<close>

datatype al_eth_ref_clk_freq =
    AL_ETH_REF_FREQ_375_MHZ | AL_ETH_REF_FREQ_187_5_MHZ | AL_ETH_REF_FREQ_250_MHZ | AL_ETH_REF_FREQ_500_MHZ | AL_ETH_REF_FREQ_428_MHZ

fun AL_ETH_REF_CLK_FREQ_TO_HZ :: "al_eth_ref_clk_freq \<Rightarrow> u32" where
  "AL_ETH_REF_CLK_FREQ_TO_HZ AL_ETH_REF_FREQ_375_MHZ = 375000000"
| "AL_ETH_REF_CLK_FREQ_TO_HZ AL_ETH_REF_FREQ_500_MHZ = 500000000"
| "AL_ETH_REF_CLK_FREQ_TO_HZ AL_ETH_REF_FREQ_187_5_MHZ = 187500000"
| "AL_ETH_REF_CLK_FREQ_TO_HZ AL_ETH_REF_FREQ_250_MHZ = 250000000"
| "AL_ETH_REF_CLK_FREQ_TO_HZ AL_ETH_REF_FREQ_428_MHZ = 428000000"

definition AL_ETH_INTR_MODERATION_RESOLUTION :: u32 where "AL_ETH_INTR_MODERATION_RESOLUTION = 1"

definition AL_ETH_INTR_MODERATION_RESOLUTION_NSECS :: "u32 \<Rightarrow> u32" where
  "AL_ETH_INTR_MODERATION_RESOLUTION_NSECS sb_clk_freq = ((AL_ETH_INTR_MODERATION_RESOLUTION + 1) * 256 * 1000000) div sb_clk_freq"

definition AL_ETH_INTR_LOWEST_USECS :: u32 where "AL_ETH_INTR_LOWEST_USECS = 0"
definition AL_ETH_INTR_LOW_USECS :: u32 where "AL_ETH_INTR_LOW_USECS = 32"
definition AL_ETH_INTR_MID_USECS :: u32 where "AL_ETH_INTR_MID_USECS = 80"
definition AL_ETH_INTR_HIGH_USECS :: u32 where "AL_ETH_INTR_HIGH_USECS = 128"
definition AL_ETH_INTR_HIGHEST_USECS :: u32 where "AL_ETH_INTR_HIGHEST_USECS = 192"

definition AL_ETH_INTR_INITIAL_TX_INTERVAL_USECS :: u32 where "AL_ETH_INTR_INITIAL_TX_INTERVAL_USECS = 196"
definition AL_ETH_INTR_INITIAL_RX_INTERVAL_USECS :: u32 where "AL_ETH_INTR_INITIAL_RX_INTERVAL_USECS = 0"

definition AL_ETH_INTR_LOWEST_VALUE :: "u32 \<Rightarrow> u32" where
  "AL_ETH_INTR_LOWEST_VALUE sb_clk_freq = 1000 * AL_ETH_INTR_LOWEST_USECS div AL_ETH_INTR_MODERATION_RESOLUTION_NSECS sb_clk_freq"
definition AL_ETH_INTR_LOW_VALUE :: "u32 \<Rightarrow> u32" where
  "AL_ETH_INTR_LOW_VALUE sb_clk_freq = 1000 * AL_ETH_INTR_LOW_USECS div AL_ETH_INTR_MODERATION_RESOLUTION_NSECS sb_clk_freq"
definition AL_ETH_INTR_MID_VALUE :: "u32 \<Rightarrow> u32" where
  "AL_ETH_INTR_MID_VALUE sb_clk_freq = 1000 * AL_ETH_INTR_MID_USECS div AL_ETH_INTR_MODERATION_RESOLUTION_NSECS sb_clk_freq"
definition AL_ETH_INTR_HIGH_VALUE :: "u32 \<Rightarrow> u32" where
  "AL_ETH_INTR_HIGH_VALUE sb_clk_freq = 1000 * AL_ETH_INTR_HIGH_USECS div AL_ETH_INTR_MODERATION_RESOLUTION_NSECS sb_clk_freq"
definition AL_ETH_INTR_HIGHEST_VALUE :: "u32 \<Rightarrow> u32" where
  "AL_ETH_INTR_HIGHEST_VALUE sb_clk_freq = 1000 * AL_ETH_INTR_HIGHEST_USECS div AL_ETH_INTR_MODERATION_RESOLUTION_NSECS sb_clk_freq"

lemmas intr_values = AL_ETH_INTR_LOWEST_VALUE_def AL_ETH_INTR_LOW_VALUE_def AL_ETH_INTR_MID_VALUE_def AL_ETH_INTR_HIGH_VALUE_def
  AL_ETH_INTR_HIGHEST_VALUE_def AL_ETH_INTR_LOWEST_USECS_def AL_ETH_INTR_LOW_USECS_def AL_ETH_INTR_MID_USECS_def
  AL_ETH_INTR_HIGH_USECS_def AL_ETH_INTR_HIGHEST_USECS_def AL_ETH_INTR_MODERATION_RESOLUTION_NSECS_def
  AL_ETH_INTR_MODERATION_RESOLUTION_def

subsection \<open>The moderation tables\<close>

definition AL_ETH_INTR_MODERATION_LOWEST :: nat where "AL_ETH_INTR_MODERATION_LOWEST = 0"
definition AL_ETH_INTR_MODERATION_LOW :: nat where "AL_ETH_INTR_MODERATION_LOW = 1"
definition AL_ETH_INTR_MODERATION_MID :: nat where "AL_ETH_INTR_MODERATION_MID = 2"
definition AL_ETH_INTR_MODERATION_HIGH :: nat where "AL_ETH_INTR_MODERATION_HIGH = 3"
definition AL_ETH_INTR_MODERATION_HIGHEST :: nat where "AL_ETH_INTR_MODERATION_HIGHEST = 4"
definition AL_ETH_INTR_MAX_NUM_OF_LEVELS :: nat where "AL_ETH_INTR_MAX_NUM_OF_LEVELS = 5"

lemmas intr_levels = AL_ETH_INTR_MODERATION_LOWEST_def AL_ETH_INTR_MODERATION_LOW_def AL_ETH_INTR_MODERATION_MID_def
  AL_ETH_INTR_MODERATION_HIGH_def AL_ETH_INTR_MODERATION_HIGHEST_def AL_ETH_INTR_MAX_NUM_OF_LEVELS_def

record al_eth_intr_moderation_entry =
  intr_moderation_interval :: u32
  packets_per_interval :: u32
  bytes_per_interval :: u32

record moder_tables =
  default_moderation_table :: "al_eth_intr_moderation_entry list"
  initial_moderation_table :: "al_eth_intr_moderation_entry list"

text \<open>The static initialisers: the intervals are zero.\<close>

definition moderation_table_init :: "al_eth_intr_moderation_entry list" where
  "moderation_table_init =
     [\<lparr>intr_moderation_interval = 0, packets_per_interval = 3, bytes_per_interval = 2 * 1524\<rparr>,
      \<lparr>intr_moderation_interval = 0, packets_per_interval = 12, bytes_per_interval = 16 * 1024\<rparr>,
      \<lparr>intr_moderation_interval = 0, packets_per_interval = 48, bytes_per_interval = 64 * 1024\<rparr>,
      \<lparr>intr_moderation_interval = 0, packets_per_interval = 96, bytes_per_interval = 128 * 1024\<rparr>,
      \<lparr>intr_moderation_interval = 0, packets_per_interval = 128, bytes_per_interval = 192 * 1024\<rparr>]"

definition moder_tables_init :: moder_tables where
  "moder_tables_init = \<lparr>default_moderation_table = moderation_table_init, initial_moderation_table = moderation_table_init\<rparr>"

definition sb_clk_freq_of :: "al_eth_ref_clk_freq \<Rightarrow> u32" where
  "sb_clk_freq_of ref_clk_freq = AL_ETH_REF_CLK_FREQ_TO_HZ ref_clk_freq div 1000"

definition set_interval :: "nat \<Rightarrow> u32 \<Rightarrow> al_eth_intr_moderation_entry list \<Rightarrow> al_eth_intr_moderation_entry list" where
  "set_interval level v tab = tab[level := (tab ! level)\<lparr>intr_moderation_interval := v\<rparr>]"

definition al_eth_init_intr_default_moderation_table_intervals :: "al_eth_ref_clk_freq \<Rightarrow> moder_tables \<Rightarrow> moder_tables" where
  "al_eth_init_intr_default_moderation_table_intervals ref_clk_freq tabs =
     (let sb_clk_freq = sb_clk_freq_of ref_clk_freq;
          tab = default_moderation_table tabs;
          tab = set_interval AL_ETH_INTR_MODERATION_LOWEST (AL_ETH_INTR_LOWEST_VALUE sb_clk_freq) tab;
          tab = set_interval AL_ETH_INTR_MODERATION_LOW (AL_ETH_INTR_LOW_VALUE sb_clk_freq) tab;
          tab = set_interval AL_ETH_INTR_MODERATION_MID (AL_ETH_INTR_MID_VALUE sb_clk_freq) tab;
          tab = set_interval AL_ETH_INTR_MODERATION_HIGH (AL_ETH_INTR_HIGH_VALUE sb_clk_freq) tab;
          tab = set_interval AL_ETH_INTR_MODERATION_HIGHEST (AL_ETH_INTR_HIGHEST_VALUE sb_clk_freq) tab
      in tabs\<lparr>default_moderation_table := tab\<rparr>)"

definition al_eth_initial_moderation_table_restore_default :: "moder_tables \<Rightarrow> moder_tables" where
  "al_eth_initial_moderation_table_restore_default tabs =
     tabs\<lparr>initial_moderation_table := fold (\<lambda>i tab. tab[i := default_moderation_table tabs ! i])
       [0..<AL_ETH_INTR_MAX_NUM_OF_LEVELS] (initial_moderation_table tabs)\<rparr>"

definition al_eth_init_intr_moderation_entry :: "nat \<Rightarrow> al_eth_intr_moderation_entry \<Rightarrow> moder_tables \<Rightarrow> moder_tables" where
  "al_eth_init_intr_moderation_entry level entry tabs =
     (if AL_ETH_INTR_MAX_NUM_OF_LEVELS \<le> level then tabs
      else tabs\<lparr>initial_moderation_table := (initial_moderation_table tabs)[level := entry]\<rparr>)"

text \<open>\<open>entry\<close> is the previous content of the structure that the caller passes.\<close>

definition al_eth_get_intr_moderation_entry :: "nat \<Rightarrow> al_eth_intr_moderation_entry \<Rightarrow> moder_tables \<Rightarrow> al_eth_intr_moderation_entry" where
  "al_eth_get_intr_moderation_entry level entry tabs =
     (if AL_ETH_INTR_MAX_NUM_OF_LEVELS \<le> level then entry else initial_moderation_table tabs ! level)"

definition al_eth_configure_intr_moderation_table ::
  "moder_tables \<Rightarrow> al_eth_intr_moderation_entry list \<Rightarrow> al_eth_intr_moderation_entry list" where
  "al_eth_configure_intr_moderation_table tabs tab =
     fold (\<lambda>i tab. tab[i := initial_moderation_table tabs ! i]) [0..<AL_ETH_INTR_MAX_NUM_OF_LEVELS] tab"

subsection \<open>Adaptive moderation\<close>

datatype al_eth_direction = AL_ETH_TX | AL_ETH_RX

text \<open>The fields of \<open>struct al_eth_ring\<close> that moderation uses; the level is an unsigned enumeration.\<close>

record ring_moder =
  md_packets :: u32
  md_bytes :: u32
  moderation_table_indx :: nat
  smoothed_interval :: u32

definition new_moderation_level :: "al_eth_intr_moderation_entry list \<Rightarrow> u32 \<Rightarrow> u32 \<Rightarrow> nat \<Rightarrow> nat" where
  "new_moderation_level tab packets bytes cur =
     (let entry = tab ! cur
      in if cur = AL_ETH_INTR_MODERATION_LOWEST then
           (if packets_per_interval entry < packets \<or> bytes_per_interval entry < bytes then cur + 1 else cur)
         else
           let preceding = tab ! (cur - 1)
           in if packets \<le> packets_per_interval preceding \<or> bytes \<le> bytes_per_interval preceding then cur - 1
              else if packets_per_interval entry < packets \<or> bytes_per_interval entry < bytes
              then (if cur \<noteq> AL_ETH_INTR_MODERATION_HIGHEST then cur + 1 else cur)
              else cur)"

definition al_eth_update_intr_moderation ::
  "'s reg_dev \<Rightarrow> ptr \<Rightarrow> al_eth_intr_moderation_entry list \<Rightarrow> nat \<Rightarrow> al_eth_direction \<Rightarrow> ring_moder \<times> 's \<Rightarrow> (ring_moder \<times> 's) option" where
  "al_eth_update_intr_moderation D udma_base tab qid direction = (\<lambda>(ring, s).
     let packets = md_packets ring; bytes = md_bytes ring
     in if packets = 0 \<or> bytes = 0 then Some (ring, s)
        else if AL_ETH_INTR_MAX_NUM_OF_LEVELS \<le> moderation_table_indx ring then Some (ring, s)
        else
          let new_indx = new_moderation_level tab packets bytes (moderation_table_indx ring);
              ring = ring\<lparr>md_packets := 0, md_bytes := 0\<rparr>;
              smoothed = ((intr_moderation_interval (tab ! new_indx) * 4 + 6 * smoothed_interval ring) + 5) div 10;
              ring = ring\<lparr>smoothed_interval := smoothed, moderation_table_indx := new_indx\<rparr>
          in do { s \<leftarrow> al_iofic_msix_moder_interval_config D (main_iofic udma_base)
                    (if direction = AL_ETH_TX then AL_INT_GROUP_C else AL_INT_GROUP_B) (of_nat qid) (ucast smoothed) s;
                  Some (ring, s) })"

subsection \<open>The interrupts of the adapter\<close>

datatype board_t = ALPINE_INTEGRATED | ALPINE_NIC | ALPINE_NIC_V2_10 | ALPINE_NIC_V2_25 | ALPINE_NIC_V2_25_DUAL

record int_adapter =
  udma_base :: ptr
  board_type :: board_t
  ref_clk_freq :: al_eth_ref_clk_freq
  msix_vecs :: nat
  num_tx_queues :: nat
  num_rx_queues :: nat
  tx_usecs :: u32
  rx_usecs :: u32
  adaptive_intr_rate :: bool
  int_mode :: al_iofic_mode
  intr_moderation_table :: "al_eth_intr_moderation_entry list"

fun moder_queues :: "'s reg_dev \<Rightarrow> ptr \<Rightarrow> nat \<Rightarrow> u32 \<Rightarrow> nat list \<Rightarrow> 's \<Rightarrow> 's option" where
  "moder_queues D base grp interval [] s = Some s"
| "moder_queues D base grp interval (qid # qs) s =
     do { s \<leftarrow> al_iofic_msix_moder_interval_config D (main_iofic base) grp (of_nat qid) (ucast interval) s;
          moder_queues D base grp interval qs s }"

definition al_eth_set_coalesce :: "'s reg_dev \<Rightarrow> u32 \<Rightarrow> u32 \<Rightarrow> int_adapter \<times> 's \<Rightarrow> (int_adapter \<times> 's) option" where
  "al_eth_set_coalesce D tx rx = (\<lambda>(ad, s).
     let res = AL_ETH_INTR_MODERATION_RESOLUTION_NSECS (sb_clk_freq_of (ref_clk_freq ad))
     in do {
       (ad, s) \<leftarrow> (if tx_usecs ad \<noteq> tx then
           let interval = 1000 * tx div res
           in do { al_assert (interval \<le> 255);
                   let ad = ad\<lparr>tx_usecs := interval * res div 1000\<rparr>;
                   s \<leftarrow> moder_queues D (udma_base ad) AL_INT_GROUP_C interval [0..<num_tx_queues ad] s;
                   Some (ad, s) }
         else Some (ad, s));
       if rx_usecs ad \<noteq> rx then
         let interval = 1000 * rx div res
         in do { al_assert (interval \<le> 255);
                 let ad = ad\<lparr>rx_usecs := interval * res div 1000\<rparr>;
                 s \<leftarrow> moder_queues D (udma_base ad) AL_INT_GROUP_B interval [0..<num_rx_queues ad] s;
                 Some (ad, s) }
       else Some (ad, s) })"

text \<open>The members of \<open>struct ethtool_coalesce\<close> that the driver uses.\<close>

record ethtool_coalesce =
  rx_coalesce_usecs :: u32
  rx_coalesce_usecs_irq :: u32
  tx_coalesce_usecs :: u32
  tx_coalesce_usecs_irq :: u32
  use_adaptive_rx_coalesce :: bool
  use_adaptive_tx_coalesce :: bool

definition al_eth_get_coalesce :: "int_adapter \<Rightarrow> ethtool_coalesce \<Rightarrow> ethtool_coalesce" where
  "al_eth_get_coalesce ad c = c\<lparr>tx_coalesce_usecs := tx_usecs ad, tx_coalesce_usecs_irq := tx_usecs ad,
     rx_coalesce_usecs := rx_usecs ad, rx_coalesce_usecs_irq := rx_usecs ad, use_adaptive_rx_coalesce := adaptive_intr_rate ad\<rparr>"

definition al_eth_ethtool_set_coalesce :: "'s reg_dev \<Rightarrow> ethtool_coalesce \<Rightarrow> int_adapter \<times> 's \<Rightarrow> (rc \<times> int_adapter \<times> 's) option" where
  "al_eth_ethtool_set_coalesce D c = (\<lambda>(ad, s).
     let res = AL_ETH_INTR_MODERATION_RESOLUTION_NSECS (sb_clk_freq_of (ref_clk_freq ad));
         rx = (if rx_coalesce_usecs c \<noteq> rx_usecs ad then rx_coalesce_usecs c else rx_coalesce_usecs_irq c);
         tx = (if tx_coalesce_usecs c \<noteq> tx_usecs ad then tx_coalesce_usecs c else tx_coalesce_usecs_irq c)
     in if adaptive_intr_rate ad then Some (RcErr EINVAL, ad, s)
        else if use_adaptive_tx_coalesce c then Some (RcErr EINVAL, ad, s)
        else if 255 * res div 1000 < tx then Some (RcErr EINVAL, ad, s)
        else if 255 * res div 1000 < rx then Some (RcErr EINVAL, ad, s)
        else do { (ad, s) \<leftarrow> al_eth_set_coalesce D tx rx (ad, s); Some (RcOk, ad, s) })"

definition al_eth_configure_int_mode :: "'s reg_dev \<Rightarrow> moder_tables \<Rightarrow> int_adapter \<times> 's \<Rightarrow> (rc \<times> int_adapter \<times> 's) option" where
  "al_eth_configure_int_mode D tabs = (\<lambda>(ad, s).
     let m2s_errors_disable = 0x480; m2s_aborts_disable = 0x480; s2m_errors_disable = 0x1E0; s2m_aborts_disable = 0x1E0
     in if msix_vecs ad = 1 then Some (RcErr EIO, ad, s)
        else
          let mode = (if msix_vecs ad = 0 then AL_IOFIC_MODE_LEGACY else AL_IOFIC_MODE_MSIX_PER_Q);
              (m2s_errors_disable, s2m_aborts_disable) =
                (if board_type ad \<noteq> ALPINE_INTEGRATED
                 then (m2s_errors_disable OR push_bit 25 0x3f OR push_bit 25 0x3f, s2m_aborts_disable OR push_bit 25 0x3f OR push_bit 25 0x3f)
                 else (m2s_errors_disable, s2m_aborts_disable))
          in do {
            (rc, s) \<leftarrow> al_udma_iofic_config D (udma_base ad) mode m2s_errors_disable m2s_aborts_disable s2m_errors_disable s2m_aborts_disable s;
            if rc \<noteq> RcOk then Some (RcErr EIO, ad, s)
            else do {
              let ad = ad\<lparr>int_mode := mode\<rparr>;
              let intr_mod_res = AL_ETH_INTR_MODERATION_RESOLUTION;
              s \<leftarrow> al_iofic_moder_res_config D (main_iofic (udma_base ad)) AL_INT_GROUP_B (ucast intr_mod_res) s;
              s \<leftarrow> al_iofic_moder_res_config D (main_iofic (udma_base ad)) AL_INT_GROUP_C (ucast intr_mod_res) s;
              (ad, s) \<leftarrow> (if adaptive_intr_rate ad then do {
                   (ad, s) \<leftarrow> al_eth_set_coalesce D AL_ETH_INTR_INITIAL_TX_INTERVAL_USECS AL_ETH_INTR_INITIAL_RX_INTERVAL_USECS (ad, s);
                   Some (ad\<lparr>intr_moderation_table := al_eth_configure_intr_moderation_table tabs (intr_moderation_table ad)\<rparr>, s) }
                 else Some (ad, s));
              Some (RcOk, ad, s) } })"

definition AL_INT_GROUP_A_GROUP_B_SUM :: u32 where "AL_INT_GROUP_A_GROUP_B_SUM = AL_BIT 0"
definition AL_INT_GROUP_A_GROUP_C_SUM :: u32 where "AL_INT_GROUP_A_GROUP_C_SUM = AL_BIT 1"
definition AL_INT_GROUP_A_GROUP_D_SUM :: u32 where "AL_INT_GROUP_A_GROUP_D_SUM = AL_BIT 2"

definition al_eth_interrupts_unmask :: "'s reg_dev \<Rightarrow> int_adapter \<Rightarrow> 's \<Rightarrow> 's option" where
  "al_eth_interrupts_unmask D ad s =
     (let group_a_mask = AL_INT_GROUP_A_GROUP_D_SUM;
          group_b_mask = push_bit (num_rx_queues ad) 1 - 1;
          group_c_mask = push_bit (num_tx_queues ad) 1 - 1;
          group_d_mask = push_bit 8 3;
          group_a_mask = (if int_mode ad = AL_IOFIC_MODE_LEGACY
            then group_a_mask OR (AL_INT_GROUP_A_GROUP_B_SUM OR AL_INT_GROUP_A_GROUP_C_SUM OR AL_INT_GROUP_A_GROUP_D_SUM) else group_a_mask)
      in do {
        s \<leftarrow> al_udma_iofic_unmask D (udma_base ad) AL_UDMA_IOFIC_LEVEL_PRIMARY AL_INT_GROUP_A group_a_mask s;
        s \<leftarrow> al_udma_iofic_unmask D (udma_base ad) AL_UDMA_IOFIC_LEVEL_PRIMARY AL_INT_GROUP_B group_b_mask s;
        s \<leftarrow> al_udma_iofic_unmask D (udma_base ad) AL_UDMA_IOFIC_LEVEL_PRIMARY AL_INT_GROUP_C group_c_mask s;
        al_udma_iofic_unmask D (udma_base ad) AL_UDMA_IOFIC_LEVEL_PRIMARY AL_INT_GROUP_D group_d_mask s })"

definition al_eth_interrupts_mask :: "'s reg_dev \<Rightarrow> int_adapter \<Rightarrow> 's \<Rightarrow> 's option" where
  "al_eth_interrupts_mask D ad s =
     do { s \<leftarrow> al_udma_iofic_mask D (udma_base ad) AL_UDMA_IOFIC_LEVEL_PRIMARY AL_INT_GROUP_A 0x7 s;
          s \<leftarrow> al_udma_iofic_mask D (udma_base ad) AL_UDMA_IOFIC_LEVEL_PRIMARY AL_INT_GROUP_B 0xF s;
          s \<leftarrow> al_udma_iofic_mask D (udma_base ad) AL_UDMA_IOFIC_LEVEL_PRIMARY AL_INT_GROUP_C 0xF s;
          al_udma_iofic_mask D (udma_base ad) AL_UDMA_IOFIC_LEVEL_PRIMARY AL_INT_GROUP_D 0xFFFFFFFF s }"

subsection \<open>Registers in plain memory\<close>

text \<open>The interval that the controller applies to a vector.\<close>

definition moder_interval :: "ptr \<Rightarrow> nat \<Rightarrow> nat \<Rightarrow> mmio \<Rightarrow> u32" where
  "moder_interval base grp v m = take_bit 8 (al_reg_read32 m (grp_int_mod_reg (main_iofic base) grp v))"

lemma moder_config_plain:
  assumes "grp < 4"
  obtains m' where "al_iofic_msix_moder_interval_config plain_dev (main_iofic base) grp v x m = Some m'"
    "\<And>g w. g < 4 \<Longrightarrow> w < 32 \<Longrightarrow> unat v < 32 \<Longrightarrow> moder_interval base g w m' = (if g = grp \<and> w = unat v then ucast x else moder_interval base g w m)"
proof -
  let ?p = "grp_int_mod_reg (main_iofic base) grp (unat v)"
  let ?r = "AL_REG_FIELD_SET (al_reg_read32 m ?p) INT_MOD_INTV_MASK INT_MOD_INTV_SHIFT (ucast x)"
  have c: "iofic_check (main_iofic base) grp = Some ()"
    using assms by (simp add: iofic_check_def iofic_base_nonnull AL_IOFIC_MAX_GROUPS_def)
  have b: "take_bit 8 ?r = ucast x"
  proof (rule bit_word_eqI)
    fix n assume "n < LENGTH(32)"
    have mk: "INT_MOD_INTV_MASK = mask 8" by (simp add: INT_MOD_INTV_MASK_def mask_eq_exp_minus_1)
    show "bit (take_bit 8 ?r) n = bit (ucast x :: u32) n"
      unfolding mk by (auto simp: AL_REG_FIELD_SET_def INT_MOD_INTV_SHIFT_def bit_simps dest: bit_imp_le_length)
  qed
  have inj: "grp_int_mod_reg (main_iofic base) g w = ?p \<longleftrightarrow> g = grp \<and> w = unat v" if "w < 32" "unat v < 32" for g w
  proof -
    have "g = grp \<and> w = unat v" if eq: "256 * g + 8 * w = 256 * grp + 8 * unat v"
    proof -
      have "(w + 32 * g) div 32 = (unat v + 32 * grp) div 32" using eq by (intro arg_cong [where f = "\<lambda>x. x div 32"]) linarith
      then have "g = grp" using \<open>w < 32\<close> \<open>unat v < 32\<close> by simp
      with eq show ?thesis by simp
    qed
    then show ?thesis by (auto simp: grp_int_mod_reg_def)
  qed
  show thesis
  proof (rule that)
    show "al_iofic_msix_moder_interval_config plain_dev (main_iofic base) grp v x m = Some (al_reg_write32 m ?p ?r)"
      by (simp add: al_iofic_msix_moder_interval_config_def c plain_dev_def)
    show "moder_interval base g w (al_reg_write32 m ?p ?r) = (if g = grp \<and> w = unat v then ucast x else moder_interval base g w m)"
      if "w < 32" "unat v < 32" for g w
      using inj [OF that, of g] b by (simp add: moder_interval_def al_reg_read32_def al_reg_write32_def)
  qed
qed

lemma ucast_u8_id: "unat x < 256 \<Longrightarrow> (ucast (ucast x :: u8) :: u32) = x"
  by (simp add: word_unat_eq_iff unsigned_ucast_eq unsigned_take_bit_eq take_bit_nat_eq_self)

subsection \<open>Smoothing\<close>

lemma smooth_unat:
  fixes x s :: u32
  assumes "unat x \<le> 2 ^ 28" "unat s \<le> 2 ^ 28"
  shows "unat ((x * 4 + 6 * s + 5) div 10) = (unat x * 4 + 6 * unat s + 5) div 10"
proof -
  have "unat x * 4 + 6 * unat s + 5 < 2 ^ 32" using assms by simp
  moreover have "unat x * 4 + 6 * unat s < 2 ^ 32" "unat x * 4 < 2 ^ 32" "6 * unat s < 2 ^ 32" using assms by simp_all
  ultimately show ?thesis by (simp add: unat_div unat_word_ariths)
qed

lemma smooth_between:
  fixes x s lo hi :: nat
  assumes "lo \<le> x" "x \<le> hi" "lo \<le> s" "s \<le> hi"
  shows "lo \<le> (x * 4 + 6 * s + 5) div 10 \<and> (x * 4 + 6 * s + 5) div 10 \<le> hi"
  using assms by linarith

lemma smooth_closer:
  fixes x s :: nat
  assumes "\<bar>int s - int x\<bar> \<le> int d + 1"
  shows "\<bar>int ((x * 4 + 6 * s + 5) div 10) - int x\<bar> \<le> int (d - 1) + 1"
  using assms by linarith

lemma new_level_range:
  assumes "cur < 5"
  shows "new_moderation_level tab p b cur < 5 \<and> new_moderation_level tab p b cur \<le> cur + 1 \<and> cur \<le> new_moderation_level tab p b cur + 1"
  using assms by (auto simp: new_moderation_level_def intr_levels Let_def)

subsection \<open>Sequences of updates\<close>

text \<open>Before every update the ring has counted the given packets and bytes.\<close>

fun moder_run ::
  "'s reg_dev \<Rightarrow> ptr \<Rightarrow> al_eth_intr_moderation_entry list \<Rightarrow> nat \<Rightarrow> al_eth_direction \<Rightarrow> (u32 \<times> u32) list \<Rightarrow> ring_moder \<times> 's \<Rightarrow> (ring_moder \<times> 's) option" where
  "moder_run D base tab qid dir [] rs = Some rs"
| "moder_run D base tab qid dir ((p, b) # loads) (ring, s) =
     do { rs \<leftarrow> al_eth_update_intr_moderation D base tab qid dir (ring\<lparr>md_packets := p, md_bytes := b\<rparr>, s);
          moder_run D base tab qid dir loads rs }"

definition dir_group :: "al_eth_direction \<Rightarrow> nat" where
  "dir_group dir = (if dir = AL_ETH_TX then 2 else 1)"

text \<open>The table and the ring are in range: five levels, intervals between \<open>lo\<close> and \<open>hi\<close>.\<close>

definition moder_ok :: "nat \<Rightarrow> nat \<Rightarrow> al_eth_intr_moderation_entry list \<Rightarrow> ring_moder \<Rightarrow> bool" where
  "moder_ok lo hi tab ring \<longleftrightarrow> length tab = 5 \<and> (\<forall>e \<in> set tab. lo \<le> unat (intr_moderation_interval e) \<and> unat (intr_moderation_interval e) \<le> hi) \<and>
     moderation_table_indx ring < 5 \<and> lo \<le> unat (smoothed_interval ring) \<and> unat (smoothed_interval ring) \<le> hi"

lemma moder_update_step:
  assumes "moder_ok lo hi tab ring" "hi \<le> 255" "qid < 32"
  defines "l \<equiv> new_moderation_level tab (md_packets ring) (md_bytes ring) (moderation_table_indx ring)"
  obtains ring' m' where "al_eth_update_intr_moderation plain_dev base tab qid dir (ring, m) = Some (ring', m')" "moder_ok lo hi tab ring'"
    "if md_packets ring = 0 \<or> md_bytes ring = 0 then ring' = ring \<and> m' = m
     else moderation_table_indx ring' = l \<and> moder_interval base (dir_group dir) qid m' = smoothed_interval ring' \<and>
       unat (smoothed_interval ring') = (unat (intr_moderation_interval (tab ! l)) * 4 + 6 * unat (smoothed_interval ring) + 5) div 10"
    "moder_interval base (dir_group dir) qid m = smoothed_interval ring \<Longrightarrow> moder_interval base (dir_group dir) qid m' = smoothed_interval ring'"
proof (cases "md_packets ring = 0 \<or> md_bytes ring = 0")
  case True
  with assms(1) show ?thesis by (intro that [of ring m]) (auto simp: al_eth_update_intr_moderation_def)
next
  case False
  let ?g = "if dir = AL_ETH_TX then AL_INT_GROUP_C else AL_INT_GROUP_B"
  let ?s = "(intr_moderation_interval (tab ! l) * 4 + 6 * smoothed_interval ring + 5) div 10"
  have ok: "length tab = 5" "moderation_table_indx ring < 5" "lo \<le> unat (smoothed_interval ring)" "unat (smoothed_interval ring) \<le> hi"
    using assms(1) by (simp_all add: moder_ok_def)
  have l: "l < 5" unfolding l_def using new_level_range [OF ok(2)] by blast
  have e: "lo \<le> unat (intr_moderation_interval (tab ! l))" "unat (intr_moderation_interval (tab ! l)) \<le> hi"
    using assms(1) l by (simp_all add: moder_ok_def)
  have s: "unat ?s = (unat (intr_moderation_interval (tab ! l)) * 4 + 6 * unat (smoothed_interval ring) + 5) div 10"
    using e ok assms(2) by (intro smooth_unat) simp_all
  have r: "lo \<le> unat ?s" "unat ?s \<le> hi" unfolding s using smooth_between [OF e ok(3,4)] by blast+
  have u: "unat (of_nat qid :: u8) = qid" using assms(3) by (simp add: unsigned_of_nat take_bit_nat_eq_self)
  have t: "(ucast (ucast ?s :: u8) :: u32) = ?s"
    using r assms(2) by (intro ucast_u8_id) simp
  have g: "?g < 4" "?g = dir_group dir" by (auto simp: iofic_groups dir_group_def)
  obtain m' where m': "al_iofic_msix_moder_interval_config plain_dev (main_iofic base) ?g (of_nat qid) (ucast ?s) m = Some m'"
    "moder_interval base ?g qid m' = ?s"
  proof -
    obtain m' where m': "al_iofic_msix_moder_interval_config plain_dev (main_iofic base) ?g (of_nat qid) (ucast ?s) m = Some m'"
      "\<And>g w. g < 4 \<Longrightarrow> w < 32 \<Longrightarrow> unat (of_nat qid :: u8) < 32 \<Longrightarrow>
         moder_interval base g w m' = (if g = ?g \<and> w = unat (of_nat qid :: u8) then ucast (ucast ?s :: u8) else moder_interval base g w m)"
      using moder_config_plain [OF g(1), of base "of_nat qid" "ucast ?s" m] by blast
    have "moder_interval base ?g qid m' = ?s" unfolding m'(2) [OF g(1) assms(3), unfolded u, OF assms(3)] t by simp
    then show thesis using m'(1) that by blast
  qed
  show ?thesis
  proof (rule that)
    show "al_eth_update_intr_moderation plain_dev base tab qid dir (ring, m) =
      Some (ring\<lparr>md_packets := 0, md_bytes := 0, smoothed_interval := ?s, moderation_table_indx := l\<rparr>, m')"
      using False ok(2) m'(1) by (simp add: al_eth_update_intr_moderation_def Let_def l_def AL_ETH_INTR_MAX_NUM_OF_LEVELS_def)
  qed (use False assms(1) l r m'(2) g(2) s in \<open>simp_all add: moder_ok_def\<close>)
qed

lemma moder_run_ok:
  assumes "moder_ok lo hi tab ring" "hi \<le> 255" "qid < 32" "moder_interval base (dir_group dir) qid m = smoothed_interval ring"
  shows "\<exists>ring' m'. moder_run plain_dev base tab qid dir loads (ring, m) = Some (ring', m') \<and> moder_ok lo hi tab ring' \<and>
    moder_interval base (dir_group dir) qid m' = smoothed_interval ring'"
  using assms(1,4)
proof (induction loads arbitrary: ring m)
  case (Cons pb loads)
  obtain p b where pb: "pb = (p, b)" by fastforce
  let ?r = "ring\<lparr>md_packets := p, md_bytes := b\<rparr>"
  have ok: "moder_ok lo hi tab ?r" using Cons.prems(1) by (simp add: moder_ok_def)
  have sm: "moder_interval base (dir_group dir) qid m = smoothed_interval ?r" using Cons.prems(2) by simp
  obtain ring1 m1 where st: "al_eth_update_intr_moderation plain_dev base tab qid dir (?r, m) = Some (ring1, m1)" "moder_ok lo hi tab ring1"
    "moder_interval base (dir_group dir) qid m1 = smoothed_interval ring1"
    using moder_update_step [OF ok assms(2,3), of base dir m] sm by blast
  from Cons.IH [OF st(2,3)] st(1) show ?case by (simp add: pb)
qed simp

subsection \<open>Properties\<close>

definition driver_table :: "al_eth_ref_clk_freq \<Rightarrow> al_eth_intr_moderation_entry list \<Rightarrow> al_eth_intr_moderation_entry list" where
  "driver_table clk old = al_eth_configure_intr_moderation_table
     (al_eth_initial_moderation_table_restore_default (al_eth_init_intr_default_moderation_table_intervals clk moder_tables_init)) old"

lemma five_fold:
  assumes "length old = 5" "length new = 5"
  shows "fold (\<lambda>i tab. tab[i := new ! i]) [0..<AL_ETH_INTR_MAX_NUM_OF_LEVELS] old = new"
proof -
  obtain a b c d e where old: "old = [a, b, c, d, e]" using assms(1) by (auto simp: length_Suc_conv numeral_eq_Suc)
  obtain a' b' c' d' e' where new: "new = [a', b', c', d', e']" using assms(2) by (auto simp: length_Suc_conv numeral_eq_Suc)
  have u: "[0..<5] = [0, 1, 2, 3, 4 :: nat]" by (simp add: upt_conv_Cons)
  show ?thesis unfolding AL_ETH_INTR_MAX_NUM_OF_LEVELS_def u old new by simp
qed

lemma driver_table_eq:
  assumes "length old = 5"
  shows "driver_table clk old = map2 (\<lambda>e v. e\<lparr>intr_moderation_interval := v (sb_clk_freq_of clk)\<rparr>) moderation_table_init
    [AL_ETH_INTR_LOWEST_VALUE, AL_ETH_INTR_LOW_VALUE, AL_ETH_INTR_MID_VALUE, AL_ETH_INTR_HIGH_VALUE, AL_ETH_INTR_HIGHEST_VALUE]"
proof -
  have l: "length moderation_table_init = 5" by (simp add: moderation_table_init_def)
  show ?thesis
    unfolding driver_table_def al_eth_configure_intr_moderation_table_def al_eth_initial_moderation_table_restore_default_def
    by (simp add: five_fold assms l al_eth_init_intr_default_moderation_table_intervals_def moder_tables_init_def set_interval_def Let_def)
      (simp add: moderation_table_init_def intr_levels)
qed

lemma driver_table_range:
  assumes "length old = 5" "e \<in> set (driver_table clk old)"
  shows "unat (intr_moderation_interval e) \<le> 187"
  using assms(2) unfolding driver_table_eq [OF assms(1)]
  by (cases clk) (auto simp: moderation_table_init_def sb_clk_freq_of_def intr_values)

text \<open>
  C33: adaptive moderation stays in range.  With the table that the driver computes for any reference clock, from a ring as the driver
  initialises it, for every sequence of measured loads: every update succeeds, the level is one of the five and moves by at most one level
  per update, the smoothed interval never exceeds 187 units, so that the 8-bit register holds exactly the smoothed interval.
\<close>

theorem moderation_in_range:
  assumes "length old = 5" "qid < 32" "moderation_table_indx ring = AL_ETH_INTR_MODERATION_LOWEST"
    "smoothed_interval ring = AL_ETH_INTR_LOWEST_VALUE (sb_clk_freq_of clk)" "moder_interval base (dir_group dir) qid m = 0"
  shows "\<exists>ring' m'. moder_run plain_dev base (driver_table clk old) qid dir loads (ring, m) = Some (ring', m') \<and>
    moderation_table_indx ring' < AL_ETH_INTR_MAX_NUM_OF_LEVELS \<and> unat (smoothed_interval ring') \<le> 187 \<and>
    moder_interval base (dir_group dir) qid m' = smoothed_interval ring' \<and>
    (\<forall>p b. let l = new_moderation_level (driver_table clk old) p b (moderation_table_indx ring')
           in l \<le> moderation_table_indx ring' + 1 \<and> moderation_table_indx ring' \<le> l + 1)"
proof -
  have z: "AL_ETH_INTR_LOWEST_VALUE (sb_clk_freq_of clk) = 0" by (cases clk) (simp_all add: intr_values sb_clk_freq_of_def)
  have len: "length (driver_table clk old) = 5" by (simp add: driver_table_eq [OF assms(1)] moderation_table_init_def)
  have ok: "moder_ok 0 187 (driver_table clk old) ring"
    using assms driver_table_range [OF assms(1)] z len by (simp add: moder_ok_def intr_levels)
  have h: "(187::nat) \<le> 255" "moder_interval base (dir_group dir) qid m = smoothed_interval ring" using assms z by simp_all
  obtain ring' m' where r: "moder_run plain_dev base (driver_table clk old) qid dir loads (ring, m) = Some (ring', m')"
    "moder_ok 0 187 (driver_table clk old) ring'" "moder_interval base (dir_group dir) qid m' = smoothed_interval ring'"
    using moder_run_ok [OF ok h(1) assms(2) h(2), of loads] by blast
  have i: "moderation_table_indx ring' < 5" "unat (smoothed_interval ring') \<le> 187" using r(2) by (simp_all add: moder_ok_def)
  show ?thesis using r i new_level_range [OF i(1)] by (intro exI [of _ ring'] exI [of _ m']) (simp add: AL_ETH_INTR_MAX_NUM_OF_LEVELS_def Let_def)
qed

definition idle_ring :: ring_moder where
  "idle_ring = \<lparr>md_packets = 0, md_bytes = 0, moderation_table_indx = 0, smoothed_interval = 0\<rparr>"

definition zero_entry :: al_eth_intr_moderation_entry where
  "zero_entry = \<lparr>intr_moderation_interval = 0, packets_per_interval = 0, bytes_per_interval = 0\<rparr>"

theorem moderation_in_range_witness:
  "\<exists>ring' m'. moder_run plain_dev 0x10000 (driver_table AL_ETH_REF_FREQ_500_MHZ (replicate 5 zero_entry)) 2 AL_ETH_RX [(100, 50000), (7, 900)]
       (idle_ring, \<lparr>regs = (\<lambda>_. 0), wlog = []\<rparr>) = Some (ring', m') \<and> unat (smoothed_interval ring') \<le> 187"
proof -
  have h: "length (replicate 5 zero_entry) = 5" "(2::nat) < 32" "moderation_table_indx idle_ring = AL_ETH_INTR_MODERATION_LOWEST"
    "smoothed_interval idle_ring = AL_ETH_INTR_LOWEST_VALUE (sb_clk_freq_of AL_ETH_REF_FREQ_500_MHZ)"
    "moder_interval 0x10000 (dir_group AL_ETH_RX) 2 \<lparr>regs = (\<lambda>_. 0), wlog = []\<rparr> = 0"
    by (simp_all add: idle_ring_def intr_levels intr_values sb_clk_freq_of_def moder_interval_def al_reg_read32_def)
  from moderation_in_range [OF h, of "[(100, 50000), (7, 900)]"] show ?thesis by blast
qed

text \<open>
  C34: adaptive moderation converges.  While the load keeps the level, the smoothed interval comes within one unit of the interval of the level, after
  at most as many updates as the initial distance.
\<close>

theorem moderation_converges:
  fixes ring :: ring_moder and tab :: "al_eth_intr_moderation_entry list"
  defines "x \<equiv> unat (intr_moderation_interval (tab ! moderation_table_indx ring))"
  assumes "moder_ok lo hi tab ring" "hi \<le> 255" "qid < 32" "p \<noteq> 0" "b \<noteq> 0"
    and "new_moderation_level tab p b (moderation_table_indx ring) = moderation_table_indx ring"
    and "\<bar>int (unat (smoothed_interval ring)) - int x\<bar> \<le> int n"
  shows "\<exists>ring' m'. moder_run plain_dev base tab qid dir (replicate n (p, b)) (ring, m) = Some (ring', m') \<and>
    moderation_table_indx ring' = moderation_table_indx ring \<and> \<bar>int (unat (smoothed_interval ring')) - int x\<bar> \<le> 1"
proof -
  define i where "i = moderation_table_indx ring"
  have "\<exists>ring' m'. moder_run plain_dev base tab qid dir (replicate k (p, b)) (r, m) = Some (ring', m') \<and>
      moderation_table_indx ring' = i \<and> \<bar>int (unat (smoothed_interval ring')) - int x\<bar> \<le> int (d - k) + 1"
    if "moder_ok lo hi tab r" "moderation_table_indx r = i" "\<bar>int (unat (smoothed_interval r)) - int x\<bar> \<le> int d + 1" for k d r m
    using that
  proof (induction k arbitrary: d r m)
    case (Suc k)
    let ?r = "r\<lparr>md_packets := p, md_bytes := b\<rparr>"
    have ok: "moder_ok lo hi tab ?r" using Suc.prems(1) by (simp add: moder_ok_def)
    have ne: "\<not> (md_packets ?r = 0 \<or> md_bytes ?r = 0)" using assms(5,6) by simp
    have l: "new_moderation_level tab (md_packets ?r) (md_bytes ?r) (moderation_table_indx ?r) = i"
      using assms(7) Suc.prems(2) by (simp add: i_def)
    obtain r1 m1 where st: "al_eth_update_intr_moderation plain_dev base tab qid dir (?r, m) = Some (r1, m1)" "moder_ok lo hi tab r1"
      "moderation_table_indx r1 = i"
      "unat (smoothed_interval r1) = (x * 4 + 6 * unat (smoothed_interval r) + 5) div 10"
      using moder_update_step [OF ok assms(3,4), of base dir m, unfolded l if_not_P [OF ne]] by (simp add: x_def i_def) blast
    have "\<bar>int (unat (smoothed_interval r1)) - int x\<bar> \<le> int (d - 1) + 1" unfolding st(4) by (rule smooth_closer [OF Suc.prems(3)])
    from Suc.IH [OF st(2,3) this, of m1] st(1) show ?case by simp
  qed auto
  from this [OF assms(2), of n n m] assms(8) show ?thesis by (simp add: i_def)
qed

lemma demo_level:
  "moder_ok 0 187 (driver_table AL_ETH_REF_FREQ_500_MHZ (replicate 5 zero_entry)) (idle_ring\<lparr>moderation_table_indx := 2\<rparr>)"
  "new_moderation_level (driver_table AL_ETH_REF_FREQ_500_MHZ (replicate 5 zero_entry)) 30 40000 2 = 2"
  "unat (intr_moderation_interval (driver_table AL_ETH_REF_FREQ_500_MHZ (replicate 5 zero_entry) ! 2)) = 78"
proof -
  have t: "driver_table AL_ETH_REF_FREQ_500_MHZ (replicate 5 zero_entry) =
    [\<lparr>intr_moderation_interval = 0, packets_per_interval = 3, bytes_per_interval = 3048\<rparr>,
      \<lparr>intr_moderation_interval = 31, packets_per_interval = 12, bytes_per_interval = 16384\<rparr>,
      \<lparr>intr_moderation_interval = 78, packets_per_interval = 48, bytes_per_interval = 65536\<rparr>,
      \<lparr>intr_moderation_interval = 125, packets_per_interval = 96, bytes_per_interval = 131072\<rparr>,
      \<lparr>intr_moderation_interval = 187, packets_per_interval = 128, bytes_per_interval = 196608\<rparr>]"
    by (simp add: driver_table_eq moderation_table_init_def intr_values sb_clk_freq_of_def)
  show "moder_ok 0 187 (driver_table AL_ETH_REF_FREQ_500_MHZ (replicate 5 zero_entry)) (idle_ring\<lparr>moderation_table_indx := 2\<rparr>)"
    "new_moderation_level (driver_table AL_ETH_REF_FREQ_500_MHZ (replicate 5 zero_entry)) 30 40000 2 = 2"
    "unat (intr_moderation_interval (driver_table AL_ETH_REF_FREQ_500_MHZ (replicate 5 zero_entry) ! 2)) = 78"
    unfolding t by (simp_all add: moder_ok_def idle_ring_def new_moderation_level_def intr_levels)
qed

theorem moderation_converges_witness:
  "\<forall>m. \<exists>ring' m'. moder_run plain_dev 0x10000 (driver_table AL_ETH_REF_FREQ_500_MHZ (replicate 5 zero_entry)) 2 AL_ETH_RX (replicate 78 (30, 40000))
       (idle_ring\<lparr>moderation_table_indx := 2\<rparr>, m) = Some (ring', m') \<and> \<bar>int (unat (smoothed_interval ring')) - 78\<bar> \<le> 1"
proof
  fix m
  have c: "(187::nat) \<le> 255" "(2::nat) < 32" "(30::u32) \<noteq> 0" "(40000::u32) \<noteq> 0" by simp_all
  have l: "new_moderation_level (driver_table AL_ETH_REF_FREQ_500_MHZ (replicate 5 zero_entry)) 30 40000
      (moderation_table_indx (idle_ring\<lparr>moderation_table_indx := 2\<rparr>)) = moderation_table_indx (idle_ring\<lparr>moderation_table_indx := 2\<rparr>)"
    using demo_level(2) by simp
  have d: "\<bar>int (unat (smoothed_interval (idle_ring\<lparr>moderation_table_indx := 2\<rparr>))) -
      int (unat (intr_moderation_interval (driver_table AL_ETH_REF_FREQ_500_MHZ (replicate 5 zero_entry) !
        moderation_table_indx (idle_ring\<lparr>moderation_table_indx := 2\<rparr>))))\<bar> \<le> int 78"
    using demo_level(3) by (simp add: idle_ring_def)
  have i: "moderation_table_indx (idle_ring\<lparr>moderation_table_indx := 2\<rparr>) = 2" by simp
  note r = moderation_converges [OF demo_level(1) c l d, where base = "0x10000" and dir = AL_ETH_RX and m = m]
  show "\<exists>ring' m'. moder_run plain_dev 0x10000 (driver_table AL_ETH_REF_FREQ_500_MHZ (replicate 5 zero_entry)) 2 AL_ETH_RX (replicate 78 (30, 40000))
       (idle_ring\<lparr>moderation_table_indx := 2\<rparr>, m) = Some (ring', m') \<and> \<bar>int (unat (smoothed_interval ring')) - 78\<bar> \<le> 1"
    using r [unfolded i demo_level(3) of_nat_numeral] by blast
qed

subsection \<open>Fixed moderation\<close>

lemma moder_queues_plain:
  assumes "grp < 4" "\<forall>q \<in> set qs. q < 32" "unat x < 256"
  shows "\<exists>m'. moder_queues plain_dev base grp x qs m = Some m' \<and>
    (\<forall>g<4. \<forall>w<32. moder_interval base g w m' = (if g = grp \<and> w \<in> set qs then x else moder_interval base g w m))"
  using assms(2)
proof (induction qs arbitrary: m)
  case (Cons q qs)
  have u: "unat (of_nat q :: u8) = q" "q < 32" using Cons.prems by (simp_all add: unsigned_of_nat take_bit_nat_eq_self)
  obtain m1 where m1: "al_iofic_msix_moder_interval_config plain_dev (main_iofic base) grp (of_nat q) (ucast x) m = Some m1"
    "\<And>g w. g < 4 \<Longrightarrow> w < 32 \<Longrightarrow> unat (of_nat q :: u8) < 32 \<Longrightarrow>
       moder_interval base g w m1 = (if g = grp \<and> w = unat (of_nat q :: u8) then ucast (ucast x :: u8) else moder_interval base g w m)"
    using moder_config_plain [OF assms(1), of base "of_nat q" "ucast x" m] by blast
  have at1: "moder_interval base g w m1 = (if g = grp \<and> w = q then x else moder_interval base g w m)" if "g < 4" "w < 32" for g w
    using m1(2) [OF that, unfolded u(1), OF u(2)] ucast_u8_id [OF assms(3)] by simp
  obtain m2 where "moder_queues plain_dev base grp x qs m1 = Some m2"
    "\<forall>g<4. \<forall>w<32. moder_interval base g w m2 = (if g = grp \<and> w \<in> set qs then x else moder_interval base g w m1)"
    using Cons.IH [of m1] Cons.prems by auto
  then show ?case using m1(1) at1 by auto
qed simp

lemma resolution_bounds:
  "1024 \<le> unat (AL_ETH_INTR_MODERATION_RESOLUTION_NSECS (sb_clk_freq_of clk))"
  "unat (AL_ETH_INTR_MODERATION_RESOLUTION_NSECS (sb_clk_freq_of clk)) \<le> 2730"
  by (cases clk; simp add: sb_clk_freq_of_def intr_values)+

text \<open>A request within the limit: the interval fits the register and loses less than four microseconds.\<close>

lemma coalesce_interval:
  fixes t r :: u32
  assumes "1024 \<le> unat r" "unat r \<le> 2730" "\<not> 255 * r div 1000 < t"
  shows "unat (1000 * t div r) \<le> 255" "unat ((1000 * t div r) * r div 1000) \<le> unat t"
    "unat t \<le> unat ((1000 * t div r) * r div 1000) + 3"
proof -
  have "unat (255 * r) = 255 * unat r" using assms(2) by (simp add: unat_word_ariths)
  then have t: "unat t \<le> 255 * unat r div 1000" using assms(3) by (simp add: word_less_nat_alt unat_div not_less)
  then have "unat (1000 * t) = 1000 * unat t" using assms(2) by (simp add: unat_word_ariths)
  then have i: "unat (1000 * t div r) = 1000 * unat t div unat r" by (simp add: unat_div)
  have "1000 * unat t \<le> 255 * unat r" using t by linarith
  then have "1000 * unat t div unat r \<le> 255 * unat r div unat r" by (rule div_le_mono)
  then have le: "1000 * unat t div unat r \<le> 255" using assms(1) by simp
  then show "unat (1000 * t div r) \<le> 255" using i by simp
  define k where "k = 1000 * unat t div unat r * unat r"
  have "k \<le> 255 * 2730" unfolding k_def using le assms(2) by (rule mult_le_mono)
  then have m: "unat ((1000 * t div r) * r) = k" unfolding k_def i [symmetric] by (simp add: unat_word_ariths(2))
  have "k + 1000 * unat t mod unat r = 1000 * unat t" "1000 * unat t mod unat r < unat r"
    unfolding k_def using assms(1) by simp_all
  then have "k \<le> 1000 * unat t" "1000 * unat t < k + 2730" using assms(2) by linarith+
  then have "k div 1000 \<le> unat t" "unat t \<le> k div 1000 + 3" by linarith+
  then show "unat ((1000 * t div r) * r div 1000) \<le> unat t" "unat t \<le> unat ((1000 * t div r) * r div 1000) + 3"
    using m by (simp_all add: unat_div)
qed

text \<open>What one half of \<open>al_eth_set_coalesce\<close> does for the direction with the given group, queues, current and requested time.\<close>

definition coalesce_done :: "ptr \<Rightarrow> nat \<Rightarrow> nat \<Rightarrow> u32 \<Rightarrow> u32 \<Rightarrow> u32 \<Rightarrow> u32 \<Rightarrow> mmio \<Rightarrow> mmio \<Rightarrow> bool" where
  "coalesce_done base grp n res cur req cur' m m' \<longleftrightarrow>
     unat cur' \<le> unat req \<and> unat req \<le> unat cur' + 3 \<and>
     (\<forall>w<n. moder_interval base grp w m' = (if cur = req then moder_interval base grp w m else 1000 * req div res))"

text \<open>
  C35: setting the moderation with \<open>ethtool\<close>.  The request is refused with \<open>-EINVAL\<close> and without any effect when adaptive moderation is on or
  requested, or when a time is longer than 255 units.  Otherwise it succeeds (the kernel is never stopped): both times are set with an error
  of at most three microseconds, never above the request, and every queue of a direction whose time changes gets the interval in its
  register.
\<close>

theorem ethtool_coalesce_outcome:
  fixes ad :: int_adapter and c :: ethtool_coalesce
  assumes "num_tx_queues ad \<le> 4" "num_rx_queues ad \<le> 4"
  defines "res \<equiv> AL_ETH_INTR_MODERATION_RESOLUTION_NSECS (sb_clk_freq_of (ref_clk_freq ad))"
    and "rx \<equiv> (if rx_coalesce_usecs c \<noteq> rx_usecs ad then rx_coalesce_usecs c else rx_coalesce_usecs_irq c)"
    and "tx \<equiv> (if tx_coalesce_usecs c \<noteq> tx_usecs ad then tx_coalesce_usecs c else tx_coalesce_usecs_irq c)"
  shows "if adaptive_intr_rate ad \<or> use_adaptive_tx_coalesce c \<or> 255 * res div 1000 < tx \<or> 255 * res div 1000 < rx
    then al_eth_ethtool_set_coalesce plain_dev c (ad, m) = Some (RcErr EINVAL, ad, m)
    else \<exists>tx' rx' m'. al_eth_ethtool_set_coalesce plain_dev c (ad, m) = Some (RcOk, ad\<lparr>tx_usecs := tx', rx_usecs := rx'\<rparr>, m') \<and>
      coalesce_done (udma_base ad) AL_INT_GROUP_C (num_tx_queues ad) res (tx_usecs ad) tx tx' m m' \<and>
      coalesce_done (udma_base ad) AL_INT_GROUP_B (num_rx_queues ad) res (rx_usecs ad) rx rx' m m'"
proof (cases "adaptive_intr_rate ad \<or> use_adaptive_tx_coalesce c \<or> 255 * res div 1000 < tx \<or> 255 * res div 1000 < rx")
  case True
  then show ?thesis unfolding if_P [OF True] al_eth_ethtool_set_coalesce_def
    by (simp only: Let_def prod.case res_def [symmetric] rx_def [symmetric] tx_def [symmetric]) auto
next
  case False
  note rb = resolution_bounds [of "ref_clk_freq ad", folded res_def]
  have lim: "\<not> 255 * res div 1000 < tx" "\<not> 255 * res div 1000 < rx" using False by auto
  note ti = coalesce_interval [OF rb lim(1)] and ri = coalesce_interval [OF rb lim(2)]
  have q: "\<forall>q \<in> set [0..<num_tx_queues ad]. q < 32" "\<forall>q \<in> set [0..<num_rx_queues ad]. q < 32" using assms(1,2) by auto
  have g: "AL_INT_GROUP_C < 4" "AL_INT_GROUP_B < 4" "AL_INT_GROUP_C \<noteq> AL_INT_GROUP_B" by (simp_all add: iofic_groups)
  have small: "unat (1000 * tx div res) < 256" "unat (1000 * rx div res) < 256" using ti(1) ri(1) by simp_all
  have a: "1000 * tx div res \<le> 255" "1000 * rx div res \<le> 255" using ti(1) ri(1) by (simp_all add: word_le_nat_alt)
  define tx' where "tx' = (if tx_usecs ad = tx then tx else (1000 * tx div res) * res div 1000)"
  define rx' where "rx' = (if rx_usecs ad = rx then rx else (1000 * rx div res) * res div 1000)"
  have acc: "unat tx' \<le> unat tx" "unat tx \<le> unat tx' + 3" "unat rx' \<le> unat rx" "unat rx \<le> unat rx' + 3"
    unfolding tx'_def rx'_def using ti(2,3) ri(2,3) by simp_all
  obtain m1 where m1: "(if tx_usecs ad \<noteq> tx then moder_queues plain_dev (udma_base ad) AL_INT_GROUP_C (1000 * tx div res) [0..<num_tx_queues ad] m else Some m) = Some m1"
    "\<forall>g<4. \<forall>w<32. moder_interval (udma_base ad) g w m1 = (if tx_usecs ad \<noteq> tx \<and> g = AL_INT_GROUP_C \<and> w < num_tx_queues ad then 1000 * tx div res
       else moder_interval (udma_base ad) g w m)"
    using moder_queues_plain [OF g(1) q(1) small(1), of "udma_base ad" m] by (cases "tx_usecs ad = tx") auto
  obtain m2 where m2: "(if rx_usecs ad \<noteq> rx then moder_queues plain_dev (udma_base ad) AL_INT_GROUP_B (1000 * rx div res) [0..<num_rx_queues ad] m1 else Some m1) = Some m2"
    "\<forall>g<4. \<forall>w<32. moder_interval (udma_base ad) g w m2 = (if rx_usecs ad \<noteq> rx \<and> g = AL_INT_GROUP_B \<and> w < num_rx_queues ad then 1000 * rx div res
       else moder_interval (udma_base ad) g w m1)"
    using moder_queues_plain [OF g(2) q(2) small(2), of "udma_base ad" m1] by (cases "rx_usecs ad = rx") auto
  have "al_eth_set_coalesce plain_dev tx rx (ad, m) = Some (ad\<lparr>tx_usecs := tx', rx_usecs := rx'\<rparr>, m2)"
    using m1(1) m2(1) a unfolding al_eth_set_coalesce_def tx'_def rx'_def
    by (cases "tx_usecs ad = tx"; cases "rx_usecs ad = rx") (simp_all add: res_def [symmetric] Let_def)
  then have "al_eth_ethtool_set_coalesce plain_dev c (ad, m) = Some (RcOk, ad\<lparr>tx_usecs := tx', rx_usecs := rx'\<rparr>, m2)"
    using False unfolding al_eth_ethtool_set_coalesce_def by (simp add: res_def [symmetric] rx_def [symmetric] tx_def [symmetric] Let_def)
  moreover have "moder_interval (udma_base ad) AL_INT_GROUP_C w m2 = (if tx_usecs ad = tx then moder_interval (udma_base ad) AL_INT_GROUP_C w m else 1000 * tx div res)"
    if "w < num_tx_queues ad" for w
    using m1(2) m2(2) g that assms(1) by simp
  moreover have "moder_interval (udma_base ad) AL_INT_GROUP_B w m2 = (if rx_usecs ad = rx then moder_interval (udma_base ad) AL_INT_GROUP_B w m else 1000 * rx div res)"
    if "w < num_rx_queues ad" for w
    using m1(2) m2(2) g that assms(2) by simp
  ultimately show ?thesis unfolding if_not_P [OF False] using acc by (auto simp: coalesce_done_def)
qed

definition demo_coalesce :: ethtool_coalesce where
  "demo_coalesce = \<lparr>rx_coalesce_usecs = 100, rx_coalesce_usecs_irq = 0, tx_coalesce_usecs = 50, tx_coalesce_usecs_irq = 0,
     use_adaptive_rx_coalesce = False, use_adaptive_tx_coalesce = False\<rparr>"

definition demo_int_adapter :: int_adapter where
  "demo_int_adapter = \<lparr>udma_base = 0x10000, board_type = ALPINE_NIC, ref_clk_freq = AL_ETH_REF_FREQ_375_MHZ, msix_vecs = 9, num_tx_queues = 4,
     num_rx_queues = 4, tx_usecs = 0, rx_usecs = 0, adaptive_intr_rate = False, int_mode = AL_IOFIC_MODE_MSIX_PER_Q,
     intr_moderation_table = replicate 5 zero_entry\<rparr>"

theorem ethtool_coalesce_outcome_witness:
  "\<forall>m. \<exists>ad' m'. al_eth_ethtool_set_coalesce plain_dev demo_coalesce (demo_int_adapter, m) = Some (RcOk, ad', m') \<and>
     moder_interval 0x10000 AL_INT_GROUP_C 3 m' = 36"
proof
  fix m
  have "num_tx_queues demo_int_adapter \<le> 4" "num_rx_queues demo_int_adapter \<le> 4" by (simp_all add: demo_int_adapter_def)
  from ethtool_coalesce_outcome [OF this, of demo_coalesce m]
  show "\<exists>ad' m'. al_eth_ethtool_set_coalesce plain_dev demo_coalesce (demo_int_adapter, m) = Some (RcOk, ad', m') \<and>
     moder_interval 0x10000 AL_INT_GROUP_C 3 m' = 36"
    by (auto simp: demo_int_adapter_def demo_coalesce_def sb_clk_freq_of_def intr_values coalesce_done_def)
qed

lemma dev_rd_control:
  assumes "io_sched s = []" "g < 4"
  shows "dev_rd (udma_iofic_dev u) (ctrl_reg (main_iofic u) g int_control_grp) s = (g_control (io_grp s AL_UDMA_IOFIC_LEVEL_PRIMARY g), s)"
  using lev.rd [of g AL_UDMA_IOFIC_LEVEL_PRIMARY u int_control_grp s] assms
  by (simp add: level_groups_def al_udma_iofic_reg_base_get_def hw_step_def)

subsection \<open>The interrupt mode\<close>

lemma moder_config_dev:
  assumes "g < 4" "io_sched s = []"
  shows "al_iofic_msix_moder_interval_config (udma_iofic_dev u) (main_iofic u) g v x s = Some s"
proof -
  have "unat v < 256" using unsigned_less [of v] by simp
  then have "iofic_decode u (grp_int_mod_reg (main_iofic u) g (unat v)) = None"
    using assms by (simp add: iofic_decode_def grp_int_mod_reg_def main_iofic_def secondary_iofic_ctrl_def)
  then show ?thesis using assms
    by (simp add: al_iofic_msix_moder_interval_config_def iofic_check_def iofic_base_nonnull AL_IOFIC_MAX_GROUPS_def udma_iofic_dev_def hw_step_def)
qed

lemma moder_queues_dev: "g < 4 \<Longrightarrow> io_sched s = [] \<Longrightarrow> moder_queues (udma_iofic_dev u) u g x qs s = Some s"
  by (induction qs) (simp_all add: moder_config_dev)

lemma initial_coalesce_dev:
  fixes ad :: int_adapter
  assumes "io_sched s = []"
  obtains tx where "al_eth_set_coalesce (udma_iofic_dev (udma_base ad)) AL_ETH_INTR_INITIAL_TX_INTERVAL_USECS AL_ETH_INTR_INITIAL_RX_INTERVAL_USECS (ad, s) =
      Some (ad\<lparr>tx_usecs := tx, rx_usecs := 0\<rparr>, s)" "unat tx \<le> 196" "196 \<le> unat tx + 3"
proof -
  let ?res = "AL_ETH_INTR_MODERATION_RESOLUTION_NSECS (sb_clk_freq_of (ref_clk_freq ad))"
  have lim: "\<not> 255 * ?res div 1000 < 196" by (cases "ref_clk_freq ad") (simp_all add: sb_clk_freq_of_def intr_values)
  note ti = coalesce_interval [OF resolution_bounds lim]
  have a: "1000 * 196 div ?res \<le> 255" using ti(1) by (simp add: word_le_nat_alt)
  define tx where "tx = (if tx_usecs ad = 196 then 196 else (1000 * 196 div ?res) * ?res div 1000)"
  show thesis
  proof (rule that)
    show "al_eth_set_coalesce (udma_iofic_dev (udma_base ad)) AL_ETH_INTR_INITIAL_TX_INTERVAL_USECS AL_ETH_INTR_INITIAL_RX_INTERVAL_USECS (ad, s) =
      Some (ad\<lparr>tx_usecs := tx, rx_usecs := 0\<rparr>, s)"
      using a unfolding al_eth_set_coalesce_def AL_ETH_INTR_INITIAL_TX_INTERVAL_USECS_def AL_ETH_INTR_INITIAL_RX_INTERVAL_USECS_def tx_def
      by (cases "tx_usecs ad = 196"; cases "rx_usecs ad = 0") 
        (auto simp: moder_queues_dev assms iofic_groups Let_def intro!: int_adapter.equality)
    show "unat tx \<le> 196" "196 \<le> unat tx + 3" unfolding tx_def using ti(2,3) by (simp_all split: if_splits)
  qed
qed

text \<open>
  The interrupt mode of the adapter.  Without MSI-X the legacy mode is configured, with more than one vector the per-queue mode; a single
  vector is refused with \<open>-EIO\<close> and no register is written.  The moderation resolution is set in the groups of the queues, with adaptive moderation
  the initial times (at most three microseconds below 196) and the table are set.  The error and abort masks go to the secondary controller.
  The hardware is quiet meanwhile.  On a board that is not integrated the causes of bits 25 to 30 are added to the error mask of memory-to-stream and to the abort mask of
  stream-to-memory only: the other two masks leave them enabled.
\<close>

theorem configure_int_mode_outcome:
  fixes ad :: int_adapter
  defines "mode \<equiv> (if msix_vecs ad = 0 then AL_IOFIC_MODE_LEGACY else AL_IOFIC_MODE_MSIX_PER_Q)"
    and "nic \<equiv> (if board_type ad = ALPINE_INTEGRATED then 0 else 0x7E000000)"
  assumes quiet: "io_sched s = []"
  shows "if msix_vecs ad = 1 then al_eth_configure_int_mode (udma_iofic_dev (udma_base ad)) tabs (ad, s) = Some (RcErr EIO, ad, s)
    else \<exists>tx s'. al_eth_configure_int_mode (udma_iofic_dev (udma_base ad)) tabs (ad, s) = Some (RcOk,
        if adaptive_intr_rate ad then ad\<lparr>int_mode := mode, tx_usecs := tx, rx_usecs := 0,
          intr_moderation_table := al_eth_configure_intr_moderation_table tabs (intr_moderation_table ad)\<rparr> else ad\<lparr>int_mode := mode\<rparr>, s') \<and>
      unat tx \<le> 196 \<and> 196 \<le> unat tx + 3 \<and>
      (\<forall>l g. io_grp s' l g =
        (let x = iofic_configured mode (0x480 OR nic) 0x480 0x1E0 (0x1E0 OR nic) l g (io_grp s l g)
         in if l = AL_UDMA_IOFIC_LEVEL_PRIMARY \<and> (g = 1 \<or> g = 2) then x\<lparr>g_control := mode_control mode g OR 0x01000000\<rparr> else x))"
proof (cases "msix_vecs ad = 1")
  case True
  then show ?thesis by (simp add: al_eth_configure_int_mode_def)
next
  case False
  have ne: "mode \<noteq> AL_IOFIC_MODE_OTHER" by (simp add: mode_def)
  have res: "AL_REG_FIELD_SET (mode_control mode g) INT_CONTROL_GRP_MOD_RES_MASK INT_CONTROL_GRP_MOD_RES_SHIFT (ucast (ucast AL_ETH_INTR_MODERATION_RESOLUTION :: u8)) =
      mode_control mode g OR 0x01000000" for g
    by (simp add: mode_def AL_REG_FIELD_SET_def INT_CONTROL_GRP_MOD_RES_MASK_def INT_CONTROL_GRP_MOD_RES_SHIFT_def AL_ETH_INTR_MODERATION_RESOLUTION_def)
  have nic: "(if board_type ad \<noteq> ALPINE_INTEGRATED
                 then (0x480 OR push_bit 25 0x3f OR push_bit 25 0x3f, 0x1E0 OR push_bit 25 0x3f OR push_bit 25 0x3f)
                 else (0x480, 0x1E0)) = (0x480 OR nic, 0x1E0 OR nic :: u32)"
    by (simp add: nic_def)
  have k: "(mode_control mode g OR 0x01000000) AND NOT INT_CONTROL_GRP_MOD_RST = mode_control mode g OR 0x01000000" for g
    by (simp add: mode_def INT_CONTROL_GRP_MOD_RST_def AL_BIT_def)
  define s2 where "s2 = s\<lparr>io_grp := (\<lambda>l g.
        let x = iofic_configured mode (0x480 OR nic) 0x480 0x1E0 (0x1E0 OR nic) l g (io_grp s l g)
        in if l = AL_UDMA_IOFIC_LEVEL_PRIMARY \<and> (g = 1 \<or> g = 2) then x\<lparr>g_control := mode_control mode g OR 0x01000000\<rparr> else x)\<rparr>"
  let ?u = "udma_base ad"
  have reg: "do { (rc, s) \<leftarrow> al_udma_iofic_config (udma_iofic_dev ?u) ?u mode (0x480 OR nic) 0x480 0x1E0 (0x1E0 OR nic) s;
        s \<leftarrow> al_iofic_moder_res_config (udma_iofic_dev ?u) (main_iofic ?u) AL_INT_GROUP_B (ucast AL_ETH_INTR_MODERATION_RESOLUTION) s;
        s \<leftarrow> al_iofic_moder_res_config (udma_iofic_dev ?u) (main_iofic ?u) AL_INT_GROUP_C (ucast AL_ETH_INTR_MODERATION_RESOLUTION) s;
        Some (rc, s) } = Some (RcOk, s2)"
    by (simp add: udma_iofic_config_eq ne quiet al_iofic_moder_res_config_def iofic_check_def iofic_base_nonnull iofic_groups dev_rd_control
        dev_wr_groups put_grp_def iofic_configured_def res k s2_def fun_eq_iff)
  obtain tx where tx: "al_eth_set_coalesce (udma_iofic_dev ?u) AL_ETH_INTR_INITIAL_TX_INTERVAL_USECS AL_ETH_INTR_INITIAL_RX_INTERVAL_USECS (ad\<lparr>int_mode := mode\<rparr>, s2) =
      Some (ad\<lparr>int_mode := mode, tx_usecs := tx, rx_usecs := 0\<rparr>, s2)" "unat tx \<le> 196" "196 \<le> unat tx + 3"
    using initial_coalesce_dev [of s2 "ad\<lparr>int_mode := mode\<rparr>"] quiet by (auto simp: s2_def)
  have "al_eth_configure_int_mode (udma_iofic_dev ?u) tabs (ad, s) = Some (RcOk,
        if adaptive_intr_rate ad then ad\<lparr>int_mode := mode, tx_usecs := tx, rx_usecs := 0,
          intr_moderation_table := al_eth_configure_intr_moderation_table tabs (intr_moderation_table ad)\<rparr> else ad\<lparr>int_mode := mode\<rparr>, s2)"
    using reg tx(1) False unfolding al_eth_configure_int_mode_def
    by (auto simp: Let_def nic mode_def [symmetric] bind_eq_Some_conv split: if_splits)
  then show ?thesis unfolding if_not_P [OF False] using tx(2,3) by (auto simp: s2_def)
qed

theorem configure_int_mode_outcome_witness:
  "\<exists>ad' s'. al_eth_configure_int_mode (udma_iofic_dev 0x10000) moder_tables_init (demo_int_adapter, demo_iofic\<lparr>io_sched := []\<rparr>) = Some (RcOk, ad', s') \<and>
     g_mask (io_grp s' AL_UDMA_IOFIC_LEVEL_SECONDARY 0) = 0x7E000480 \<and> g_abort (io_grp s' AL_UDMA_IOFIC_LEVEL_SECONDARY 0) = 0x480"
proof -
  have d: "msix_vecs demo_int_adapter \<noteq> 1" "udma_base demo_int_adapter = 0x10000" "board_type demo_int_adapter \<noteq> ALPINE_INTEGRATED"
    by (simp_all add: demo_int_adapter_def)
  have q: "io_sched (demo_iofic\<lparr>io_sched := []\<rparr>) = []" by simp
  from configure_int_mode_outcome [OF q, of demo_int_adapter moder_tables_init, unfolded if_not_P [OF d(1)] if_not_P [OF d(3)] d(2)]
  show ?thesis by (auto simp: demo_iofic_def iofic_configured_def)
qed

end
