(* ===== verification/Eth_Rx.thy ===== *)
theory Eth_Rx
  imports Eth_Tx Eth_Moder
begin

text \<open>
  The receive path of the network driver (\<open>al_eth_main.c\<close>): buffers and their refill, socket buffers for received packets with VLAN
  extraction and checksum, the polling function, release of the buffers.

  What the kernel answers is an argument: the socket buffers, page fragments and mappings it hands out (\<open>rx_env\<close>, \<^term>\<open>None\<close> for a
  failure), the layout of its memory (\<open>head_page\<close>, \<open>page_address\<close>, \<open>virt_addr_valid\<close>, \<open>frag_size_of\<close>, \<open>rx_offset\<close>) and \<open>eth_type_trans\<close>.
  \<open>rx_pmem\<close> is the memory of the buffers, byte by byte.  The calls that take or give back resources and those that hand a packet to
  the network stack are recorded in \<open>rx_log\<close>.  \<^term>\<open>None\<close> as a result is a kernel stop: an assertion, \<open>BUG_ON\<close>, a null pointer or
  an access outside an array; a completion for a slot without a buffer counts as one.
\<close>

subsection \<open>Constants\<close>

definition AL_ETH_DEFAULT_RX_DESCS :: nat where "AL_ETH_DEFAULT_RX_DESCS = 2 * 512"
definition AL_ETH_DEFAULT_MIN_RX_BUFF_ALLOC_SIZE :: u32 where "AL_ETH_DEFAULT_MIN_RX_BUFF_ALLOC_SIZE = 600"
definition ETH_HLEN :: u32 where "ETH_HLEN = 14"
definition ETH_FCS_LEN :: u32 where "ETH_FCS_LEN = 4"
definition ETH_ALEN :: nat where "ETH_ALEN = 6"

definition AL_ETH_RX_RING_IDX_NEXT :: "u16 \<Rightarrow> u16" where
  "AL_ETH_RX_RING_IDX_NEXT idx = (idx + 1) AND (of_nat AL_ETH_DEFAULT_RX_DESCS - 1)"

definition AL_ETH_RX_RING_IDX_ADD :: "u16 \<Rightarrow> u32 \<Rightarrow> u16" where
  "AL_ETH_RX_RING_IDX_ADD idx n = ucast ((ucast idx + n) AND (of_nat AL_ETH_DEFAULT_RX_DESCS - 1))"


subsection \<open>State\<close>

text \<open>A fragment of a socket buffer is a page, an offset and a length; the hash is paired with the layer that it covers.\<close>

datatype pkt_hash_types = PKT_HASH_TYPE_L3 | PKT_HASH_TYPE_L4

record rx_skb =
  rskb_id :: nat
  rskb_linear :: "u8 list"
  rskb_frags :: "(ptr \<times> nat \<times> u32) list"
  rskb_len :: u32
  rskb_data_len :: u32
  rskb_truesize :: u32
  rskb_vlan :: "u16 option"
  csum_unnecessary :: bool
  rskb_hash :: "(u32 \<times> pkt_hash_types) option"
  rskb_queue :: nat

text \<open>\<open>struct al_eth_rx_buffer\<close>; \<^term>\<open>None\<close> is the null pointer.\<close>

record al_eth_rx_buffer =
  rb_page :: ptr
  rb_page_offset :: nat
  rb_data :: "ptr option"
  rb_data_size :: u32
  rb_frag_size :: u32
  rb_dma :: u64
  rb_buf :: al_buf

text \<open>The fields of \<open>struct al_eth_ring\<close> that reception uses.\<close>

record al_eth_rx_ring =
  rx_hal_pkt :: al_eth_pkt
  rx_dma_q :: al_udma_q
  rx_next_to_use :: u16
  rx_next_to_clean :: u16
  rx_unmask_reg_offset :: ptr
  rx_unmask_val :: u32
  rx_buffer_info :: "al_eth_rx_buffer list"
  rx_moder :: ring_moder
  rx_stat_packets :: u64
  rx_stat_bytes :: u64
  skb_alloc_fail :: u64
  dma_mapping_err :: u64
  small_copy_len_pkt :: u64

datatype rx_event =
    AllocFrag ptr | RxMap u64 u32 | RxUnmap u64 u32 | SyncForCpu u64 u32 | SyncForDevice u64 u32 | PutPage ptr
  | GroReceive rx_skb | GroFrags rx_skb | NapiSchedule | NapiComplete

record rx_state =
  rx_ring :: al_eth_rx_ring
  rx_mem :: desc_mem
  rx_io :: mmio
  rx_pmem :: "ptr \<Rightarrow> u8"
  rx_log :: "rx_event list"

text \<open>The adapter, its network device and the memory layout of the kernel.\<close>

record rx_cfg =
  rxq_id :: nat
  rx_udma :: al_udma
  rx_udma_base :: ptr
  mtu :: u32
  max_rx_buff_alloc_size :: u32
  small_copy_len :: u32
  feature_vlan_rx :: bool
  feature_rxcsum :: bool
  feature_rxhash :: bool
  rx_adaptive :: bool
  rx_moder_table :: "al_eth_intr_moderation_entry list"
  rx_offset :: nat
  frag_size_of :: "u32 \<Rightarrow> u32"
  head_page :: "ptr \<Rightarrow> ptr"
  page_address :: "ptr \<Rightarrow> ptr"
  virt_addr_valid :: "ptr \<Rightarrow> bool"

text \<open>
  What one call meets: the completion ring, the socket buffer that packet number \<open>k\<close> of the call gets, \<open>eth_type_trans\<close>, and the page fragment and mapping
  that refill number \<open>i\<close> of the call gets.
\<close>

record rx_env =
  e_cmem :: "ptr \<Rightarrow> al_eth_rx_cdesc"
  e_skb :: "nat \<Rightarrow> rx_skb option"
  e_type_trans :: "rx_skb \<Rightarrow> rx_skb"
  e_frag :: "nat \<Rightarrow> ptr option"
  e_map :: "nat \<Rightarrow> u64 option"

definition rx_emit :: "rx_event list \<Rightarrow> rx_state \<Rightarrow> rx_state" where
  "rx_emit evs s = s\<lparr>rx_log := rx_log s @ evs\<rparr>"

definition set_rx_info :: "nat \<Rightarrow> al_eth_rx_buffer \<Rightarrow> rx_state \<Rightarrow> rx_state" where
  "set_rx_info i b s = s\<lparr>rx_ring := (rx_ring s)\<lparr>rx_buffer_info := (rx_buffer_info (rx_ring s))[i := b]\<rparr>\<rparr>"

definition add_bytes :: "u32 \<Rightarrow> rx_state \<Rightarrow> rx_state" where
  "add_bytes n s = s\<lparr>rx_ring := (rx_ring s)\<lparr>rx_moder := (rx_moder (rx_ring s))\<lparr>md_bytes := md_bytes (rx_moder (rx_ring s)) + n\<rparr>\<rparr>\<rparr>"

subsection \<open>VLAN extraction\<close>

definition memmove :: "ptr \<Rightarrow> ptr \<Rightarrow> nat \<Rightarrow> (ptr \<Rightarrow> u8) \<Rightarrow> ptr \<Rightarrow> u8" where
  "memmove dst src n pmem = (\<lambda>a. if dst \<le> a \<and> a < dst + n then pmem (src + (a - dst)) else pmem a)"

text \<open>The protocol of \<open>struct vlan_ethhdr\<close> is at offset 12, the tag control information at offset 14, both in network order.\<close>

definition al_eth_vlan_hwaccel_check_and_put :: "rx_cfg \<Rightarrow> rx_skb \<Rightarrow> ptr \<Rightarrow> (ptr \<Rightarrow> u8) \<Rightarrow> bool \<times> rx_skb" where
  "al_eth_vlan_hwaccel_check_and_put cfg skb veh pmem =
     (if feature_vlan_rx cfg \<and> pmem (veh + 12) = 0x81 \<and> pmem (veh + 13) = 0x00
      then (True, skb\<lparr>rskb_vlan := Some (push_bit 8 (ucast (pmem (veh + 14))) OR ucast (pmem (veh + 15)))\<rparr>)
      else (False, skb))"

definition al_eth_vlan_rx_frag :: "rx_cfg \<Rightarrow> rx_skb \<Rightarrow> ptr \<Rightarrow> (ptr \<Rightarrow> u8) \<Rightarrow> rx_skb \<times> (ptr \<Rightarrow> u8)" where
  "al_eth_vlan_rx_frag cfg skb va pmem =
     (let (put, skb) = al_eth_vlan_hwaccel_check_and_put cfg skb va pmem
      in if put then
           (skb\<lparr>rskb_len := rskb_len skb - VLAN_HLEN, rskb_data_len := rskb_data_len skb - VLAN_HLEN,
                rskb_frags := (case rskb_frags skb of [] \<Rightarrow> [] | (page, off, sz) # fs \<Rightarrow> (page, off + unat VLAN_HLEN, sz - VLAN_HLEN) # fs)\<rparr>,
            memmove (va + unat VLAN_HLEN) va (2 * ETH_ALEN) pmem)
         else (skb, pmem))"

definition al_eth_vlan_rx_linear :: "rx_cfg \<Rightarrow> rx_skb \<Rightarrow> ptr \<Rightarrow> u32 \<Rightarrow> (ptr \<Rightarrow> u8) \<Rightarrow> rx_skb \<times> ptr \<times> u32 \<times> (ptr \<Rightarrow> u8)" where
  "al_eth_vlan_rx_linear cfg skb va len pmem =
     (let (put, skb) = al_eth_vlan_hwaccel_check_and_put cfg skb va pmem
      in if put then (skb, va + unat VLAN_HLEN, len - VLAN_HLEN, memmove (va + unat VLAN_HLEN) va (2 * ETH_ALEN) pmem)
         else (skb, va, len, pmem))"

subsection \<open>Received packets\<close>

text \<open>A fragment is added behind the others; a socket buffer has room for \<open>MAX_SKB_FRAGS\<close> of them.\<close>

definition add_frag :: "ptr \<Rightarrow> nat \<Rightarrow> u32 \<Rightarrow> u32 \<Rightarrow> rx_skb \<Rightarrow> rx_skb option" where
  "add_frag page off len truesize skb =
     (if length (rskb_frags skb) < unat MAX_SKB_FRAGS
      then Some (skb\<lparr>rskb_frags := rskb_frags skb @ [(page, off, len)], rskb_len := rskb_len skb + len,
                     rskb_data_len := rskb_data_len skb + len, rskb_truesize := rskb_truesize skb + truesize\<rparr>)
      else None)"

text \<open>The buffers behind the first one: the loop over \<open>bufs[1]\<close>, \<open>bufs[2]\<close>, \<dots> with the remaining lengths.\<close>

fun rx_skb_loop :: "rx_cfg \<Rightarrow> u32 list \<Rightarrow> rx_skb \<Rightarrow> u16 \<Rightarrow> rx_state \<Rightarrow> (rx_skb \<times> u16 \<times> rx_state) option" where
  "rx_skb_loop cfg [] skb ntc s = Some (skb, ntc, s)"
| "rx_skb_loop cfg (len # lens) skb ntc s =
     (if length (rx_buffer_info (rx_ring s)) \<le> unat ntc then None
      else
        let rx_info = rx_buffer_info (rx_ring s) ! unat ntc;
            s = add_bytes len s;
            s = rx_emit [RxUnmap (rb_dma rx_info) (rb_data_size rx_info)] s
        in do {
          skb \<leftarrow> add_frag (rb_page rx_info) (rb_page_offset rx_info + rx_offset cfg) len (rb_data_size rx_info) skb;
          rx_skb_loop cfg lens skb (AL_ETH_RX_RING_IDX_NEXT ntc) (set_rx_info (unat ntc) (rx_info\<lparr>rb_data := None\<rparr>) s) })"

definition count_alloc_fail :: "rx_state \<Rightarrow> rx_state" where
  "count_alloc_fail s = s\<lparr>rx_ring := (rx_ring s)\<lparr>skb_alloc_fail := skb_alloc_fail (rx_ring s) + 1\<rparr>\<rparr>"

text \<open>\<open>kskb\<close> is the socket buffer that \<open>netdev_alloc_skb_ip_align\<close> or \<open>napi_get_frags\<close> returns.\<close>

definition al_eth_rx_skb ::
  "rx_cfg \<Rightarrow> (rx_skb \<Rightarrow> rx_skb) \<Rightarrow> rx_skb option \<Rightarrow> al_eth_pkt \<Rightarrow> u32 \<Rightarrow> u16 \<Rightarrow> rx_state \<Rightarrow> (rx_skb option \<times> u16 \<times> rx_state) option" where
  "al_eth_rx_skb cfg type_trans kskb hal_pkt descs ntc s =
     (if length (rx_buffer_info (rx_ring s)) \<le> unat ntc \<or> length (pkt_bufs hal_pkt) < unat descs then None
      else
        let rx_info = rx_buffer_info (rx_ring s) ! unat ntc;
            len = buf_len (pkt_bufs hal_pkt ! 0)
        in case rb_data rx_info of
          None \<Rightarrow> None
        | Some data \<Rightarrow>
            let va = data + rx_offset cfg
            in if len \<le> small_copy_len cfg then
                 (case kskb of
                    None \<Rightarrow> Some (None, ntc, count_alloc_fail s)
                  | Some skb \<Rightarrow>
                      let orig_len = len;
                          s = rx_emit [SyncForCpu (rb_dma rx_info) orig_len] s;
                          (skb, va, len, pmem) =
                            (if 0 < source_vlan_count hal_pkt then al_eth_vlan_rx_linear cfg skb va len (rx_pmem s) else (skb, va, len, rx_pmem s));
                          skb = skb\<lparr>rskb_linear := map pmem [va..<va + unat len]\<rparr>;
                          s = rx_emit [SyncForDevice (rb_dma rx_info) orig_len] (s\<lparr>rx_pmem := pmem\<rparr>);
                          skb = skb\<lparr>rskb_len := rskb_len skb + len\<rparr>;
                          skb = type_trans skb
                      in Some (Some skb, AL_ETH_RX_RING_IDX_NEXT ntc, add_bytes orig_len s))
               else
                 let s = rx_emit [RxUnmap (rb_dma rx_info) (rb_data_size rx_info)] s
                 in case kskb of
                      None \<Rightarrow> Some (None, ntc, count_alloc_fail s)
                    | Some skb \<Rightarrow> do {
                        skb \<leftarrow> add_frag (rb_page rx_info) (rb_page_offset rx_info + rx_offset cfg) len len skb;
                        let s = add_bytes len s;
                        let (skb, pmem) = al_eth_vlan_rx_frag cfg skb va (rx_pmem s);
                        let s = set_rx_info (unat ntc) (rx_info\<lparr>rb_data := None\<rparr>) (s\<lparr>rx_pmem := pmem\<rparr>);
                        (skb, ntc, s) \<leftarrow> rx_skb_loop cfg (map buf_len (drop 1 (take (unat descs) (pkt_bufs hal_pkt)))) skb (AL_ETH_RX_RING_IDX_NEXT ntc) s;
                        Some (Some skb, ntc, s) })"

definition al_eth_rx_checksum :: "rx_cfg \<Rightarrow> al_eth_pkt \<Rightarrow> rx_skb \<Rightarrow> rx_skb" where
  "al_eth_rx_checksum cfg hal_pkt skb =
     (if \<not> feature_rxcsum cfg then skb
      else if l3_proto_idx hal_pkt = AL_ETH_PROTO_ID_IPv4 \<and> pkt_flags hal_pkt AND AL_ETH_RX_FLAGS_L3_CSUM_ERR \<noteq> 0 then skb
      else if l4_proto_idx hal_pkt = AL_ETH_PROTO_ID_TCP \<or> l4_proto_idx hal_pkt = AL_ETH_PROTO_ID_UDP then
        (if pkt_flags hal_pkt AND AL_ETH_RX_FLAGS_L4_CSUM_ERR \<noteq> 0 then skb else skb\<lparr>csum_unnecessary := True\<rparr>)
      else skb)"

subsection \<open>Buffers\<close>

definition rx_data_size :: "rx_cfg \<Rightarrow> u32" where
  "rx_data_size cfg = max (min (mtu cfg + ETH_HLEN + ETH_FCS_LEN + VLAN_HLEN) (max_rx_buff_alloc_size cfg)) AL_ETH_DEFAULT_MIN_RX_BUFF_ALLOC_SIZE"

definition al_eth_alloc_rx_frag ::
  "rx_cfg \<Rightarrow> ptr option \<Rightarrow> u64 option \<Rightarrow> al_eth_rx_buffer \<Rightarrow> rx_state \<Rightarrow> (rc \<times> al_eth_rx_buffer \<times> rx_state) option" where
  "al_eth_alloc_rx_frag cfg frag dma rx_info s =
     (if rb_data rx_info \<noteq> None then Some (RcOk, rx_info, s)
      else
        let rx_info = rx_info\<lparr>rb_data_size := rx_data_size cfg\<rparr>;
            rx_info = rx_info\<lparr>rb_frag_size := frag_size_of cfg (rb_data_size rx_info)\<rparr>
        in case frag of
             None \<Rightarrow> Some (RcErr ENOMEM, rx_info, s)
           | Some data \<Rightarrow>
               let s = rx_emit [AllocFrag data] s
               in case dma of
                    None \<Rightarrow> Some (RcErr EIO, rx_info, rx_emit [PutPage (head_page cfg data)]
                      (s\<lparr>rx_ring := (rx_ring s)\<lparr>dma_mapping_err := dma_mapping_err (rx_ring s) + 1\<rparr>\<rparr>))
                  | Some a \<Rightarrow>
                      let s = rx_emit [RxMap a (rb_data_size rx_info)] s;
                          rx_info = rx_info\<lparr>rb_data := Some data\<rparr>
                      in do {
                        al_assert (virt_addr_valid cfg data);
                        let rx_info = rx_info\<lparr>rb_page := head_page cfg data\<rparr>;
                        let rx_info = rx_info\<lparr>rb_page_offset := data - page_address cfg (rb_page rx_info)\<rparr>;
                        Some (RcOk, rx_info\<lparr>rb_dma := a, rb_buf := \<lparr>buf_addr = a, buf_len = rb_data_size rx_info\<rparr>\<rparr>, s) })"

definition al_eth_free_rx_frag :: "rx_cfg \<Rightarrow> al_eth_rx_buffer \<Rightarrow> rx_state \<Rightarrow> al_eth_rx_buffer \<times> rx_state" where
  "al_eth_free_rx_frag cfg rx_info s =
     (case rb_data rx_info of
        None \<Rightarrow> (rx_info, s)
      | Some data \<Rightarrow>
          (rx_info\<lparr>rb_data := None\<rparr>, rx_emit [RxUnmap (buf_addr (rb_buf rx_info)) (rb_data_size rx_info), PutPage (head_page cfg data)] s))"

text \<open>The result is the number of buffers posted and the next slot; \<open>i\<close> counts the rounds.\<close>

fun refill_loop :: "rx_cfg \<Rightarrow> rx_env \<Rightarrow> nat \<Rightarrow> nat \<Rightarrow> u16 \<Rightarrow> rx_state \<Rightarrow> (nat \<times> u16 \<times> rx_state) option" where
  "refill_loop cfg e 0 i ntu s = Some (i, ntu, s)"
| "refill_loop cfg e (Suc n) i ntu s =
     (if length (rx_buffer_info (rx_ring s)) \<le> unat ntu then None
      else do {
        (rc, rx_info, s) \<leftarrow> al_eth_alloc_rx_frag cfg (e_frag e i) (e_map e i) (rx_buffer_info (rx_ring s) ! unat ntu) s;
        let s = set_rx_info (unat ntu) rx_info s;
        if rc \<noteq> RcOk then Some (i, ntu, s)
        else do {
          (rc, q, mem) \<leftarrow> al_eth_rx_buffer_add (rx_udma cfg) (rb_buf rx_info) AL_ETH_RX_FLAGS_INT None (rx_dma_q (rx_ring s), rx_mem s);
          let s = s\<lparr>rx_ring := (rx_ring s)\<lparr>rx_dma_q := q\<rparr>, rx_mem := mem\<rparr>;
          if rc \<noteq> RcOk then Some (i, ntu, s)
          else refill_loop cfg e n (Suc i) (AL_ETH_RX_RING_IDX_NEXT ntu) s } })"

definition al_eth_refill_rx_bufs :: "rx_cfg \<Rightarrow> rx_env \<Rightarrow> nat \<Rightarrow> rx_state \<Rightarrow> (nat \<times> rx_state) option" where
  "al_eth_refill_rx_bufs cfg e num s =
     do { (i, ntu, s) \<leftarrow> refill_loop cfg e num 0 (rx_next_to_use (rx_ring s)) s;
          s \<leftarrow> (if i \<noteq> 0 then do { m \<leftarrow> al_eth_rx_buffer_action (rx_dma_q (rx_ring s)) (of_nat i) (rx_io s); Some (s\<lparr>rx_io := m\<rparr>) }
               else Some s);
          Some (i, s\<lparr>rx_ring := (rx_ring s)\<lparr>rx_next_to_use := ntu\<rparr>\<rparr>) }"

fun free_rx_bufs_loop :: "rx_cfg \<Rightarrow> nat list \<Rightarrow> rx_state \<Rightarrow> rx_state option" where
  "free_rx_bufs_loop cfg [] s = Some s"
| "free_rx_bufs_loop cfg (i # is) s =
     (if length (rx_buffer_info (rx_ring s)) \<le> i then None
      else
        let rx_info = rx_buffer_info (rx_ring s) ! i
        in if rb_data rx_info \<noteq> None
           then let (rx_info, s) = al_eth_free_rx_frag cfg rx_info s in free_rx_bufs_loop cfg is (set_rx_info i rx_info s)
           else free_rx_bufs_loop cfg is s)"

definition al_eth_free_rx_bufs :: "rx_cfg \<Rightarrow> rx_state \<Rightarrow> rx_state option" where
  "al_eth_free_rx_bufs cfg s = free_rx_bufs_loop cfg [0..<AL_ETH_DEFAULT_RX_DESCS] s"

subsection \<open>Polling\<close>

text \<open>The rest of a round for a packet that got a socket buffer; the result is its length and whether it was copied.\<close>

definition rx_deliver :: "rx_cfg \<Rightarrow> al_eth_pkt \<Rightarrow> rx_skb \<Rightarrow> rx_state \<Rightarrow> u32 \<times> bool \<times> rx_state" where
  "rx_deliver cfg hal_pkt skb s =
     (let skb = al_eth_rx_checksum cfg hal_pkt skb;
          skb = (if feature_rxhash cfg then
              let hash = push_bit 16 (ucast (rxhash hal_pkt)) XOR ucast (rxhash hal_pkt) :: u32;
                  type = (if l4_proto_idx hal_pkt = AL_ETH_PROTO_ID_TCP \<or> l4_proto_idx hal_pkt = AL_ETH_PROTO_ID_UDP
                          then PKT_HASH_TYPE_L4 else PKT_HASH_TYPE_L3)
              in skb\<lparr>rskb_hash := Some (hash, type)\<rparr> else skb);
          skb = skb\<lparr>rskb_queue := rxq_id cfg\<rparr>
      in if buf_len (pkt_bufs hal_pkt ! 0) \<le> small_copy_len cfg
         then (rskb_len skb, True, rx_emit [GroReceive skb] s) else (rskb_len skb, False, rx_emit [GroFrags skb] s))"

text \<open>
  The loop: at most \<open>n\<close> more rounds.  The accumulated values are the packets received, their bytes and the copied packets.
\<close>

record rx_totals =
  work_done :: nat
  total_len :: u32
  small_pkts :: u32

definition count_round :: "u32 \<Rightarrow> bool \<Rightarrow> rx_totals \<Rightarrow> rx_totals" where
  "count_round len small t =
     t\<lparr>work_done := work_done t + 1, total_len := total_len t + len, small_pkts := small_pkts t + (if small then 1 else 0)\<rparr>"

fun rx_poll_loop :: "rx_cfg \<Rightarrow> rx_env \<Rightarrow> nat \<Rightarrow> nat \<Rightarrow> u16 \<Rightarrow> rx_totals \<Rightarrow> rx_state \<Rightarrow> (u16 \<times> rx_totals \<times> rx_state) option" where
  "rx_poll_loop cfg e 0 k ntc t s = Some (ntc, t, s)"
| "rx_poll_loop cfg e (Suc n) k ntc t s =
     do { (descs, q, hal_pkt) \<leftarrow> al_eth_pkt_rx (e_cmem e) (rx_dma_q (rx_ring s)) (rx_hal_pkt (rx_ring s));
          let s = s\<lparr>rx_ring := (rx_ring s)\<lparr>rx_dma_q := q, rx_hal_pkt := hal_pkt\<rparr>\<rparr>;
          if descs = 0 then Some (ntc, t, s)
          else
            let s = s\<lparr>rx_ring := (rx_ring s)\<lparr>rx_moder := (rx_moder (rx_ring s))\<lparr>md_packets := md_packets (rx_moder (rx_ring s)) + 1\<rparr>\<rparr>\<rparr>
            in if pkt_flags hal_pkt AND (AL_ETH_RX_ERROR OR AL_UDMA_CDESC_ERROR) \<noteq> 0
               then rx_poll_loop cfg e n (Suc k) (AL_ETH_RX_RING_IDX_ADD ntc descs) (count_round 0 False t) s
               else do {
                 (skb, ntc, s) \<leftarrow> al_eth_rx_skb cfg (e_type_trans e) (e_skb e k) hal_pkt descs ntc s;
                 case skb of
                   None \<Rightarrow> Some (AL_ETH_RX_RING_IDX_ADD ntc descs, t, s)
                 | Some skb \<Rightarrow>
                     let (len, small, s) = rx_deliver cfg hal_pkt skb s
                     in rx_poll_loop cfg e n (Suc k) ntc (count_round len small t) s } }"

text \<open>
  The budget is a non-negative \<open>int\<close> that is decremented before it is tested: with a budget of 0 it only reaches 0 again after
  \<open>2\<^sup>32\<close> rounds.
\<close>

definition al_eth_rx_poll :: "rx_cfg \<Rightarrow> rx_env \<Rightarrow> nat \<Rightarrow> rx_state \<Rightarrow> (nat \<times> rx_state) option" where
  "al_eth_rx_poll cfg e budget s =
     do { (ntc, t, s) \<leftarrow> rx_poll_loop cfg e (if budget = 0 then 2 ^ 32 else budget) 0 (rx_next_to_clean (rx_ring s))
            \<lparr>work_done = 0, total_len = 0, small_pkts = 0\<rparr> s;
          let r = (rx_ring s)\<lparr>rx_next_to_clean := ntc\<rparr>;
          let r = r\<lparr>rx_stat_bytes := rx_stat_bytes r + ucast (total_len t), rx_stat_packets := rx_stat_packets r + of_nat (work_done t),
                    small_copy_len_pkt := small_copy_len_pkt r + ucast (small_pkts t)\<rparr>;
          let s = s\<lparr>rx_ring := r\<rparr>;
          let refill_required = unat (al_udma_available_get (rx_dma_q r));
          (refill_actual, s) \<leftarrow> al_eth_refill_rx_bufs cfg e refill_required s;
          if refill_actual < refill_required then Some (work_done t, rx_emit [NapiSchedule] s)
          else if work_done t < budget then do {
            let s = rx_emit [NapiComplete] s;
            (md, m) \<leftarrow> (if rx_adaptive cfg
               then al_eth_update_intr_moderation plain_dev (rx_udma_base cfg) (rx_moder_table cfg) (rxq_id cfg) AL_ETH_RX (rx_moder (rx_ring s), rx_io s)
               else Some (rx_moder (rx_ring s), rx_io s));
            let s = s\<lparr>rx_ring := (rx_ring s)\<lparr>rx_moder := md\<rparr>, rx_io := m\<rparr>;
            Some (work_done t, s\<lparr>rx_io := al_reg_write32_relaxed (rx_io s) (rx_unmask_reg_offset (rx_ring s)) (rx_unmask_val (rx_ring s))\<rparr>) }
          else Some (work_done t, s) }"

end
