(* ===== verification/Eth_Rx_Ring.thy ===== *)
theory Eth_Rx_Ring
  imports Eth_Rx "HOL-Library.Multiset"
begin

text \<open>
  Reception as a ring of buffers: slot \<open>k mod 1024\<close> of the driver belongs to descriptor number \<open>k\<close> of the hardware ring.  Completion number
  \<open>h\<close> is the next one and \<open>f\<close> buffers are posted.  Every DMA mapping and every page reference is accounted for.
\<close>

subsection \<open>Indices\<close>

lemma unat_rx_idx_next: "unat (AL_ETH_RX_RING_IDX_NEXT i) = (unat i + 1) mod 1024"
proof -
  have m: "(of_nat AL_ETH_DEFAULT_RX_DESCS - 1 :: u16) = mask 10"
    by (simp add: AL_ETH_DEFAULT_RX_DESCS_def mask_eq_exp_minus_1)
  show ?thesis unfolding AL_ETH_RX_RING_IDX_NEXT_def m using unat_add_and_mask [of 10 i 1] by simp
qed

lemma unat_rx_idx_add: "unat (AL_ETH_RX_RING_IDX_ADD i n) = (unat i + unat n) mod 1024"
proof -
  have m: "(of_nat AL_ETH_DEFAULT_RX_DESCS - 1 :: u32) = mask 10"
    by (simp add: AL_ETH_DEFAULT_RX_DESCS_def mask_eq_exp_minus_1)
  have i: "unat (ucast i :: u32) = unat i" using unsigned_less [of i] by (simp add: unsigned_ucast_eq take_bit_nat_eq_self)
  have "unat ((ucast i + n) AND mask 10 :: u32) = (unat i + unat n) mod 1024"
    using unat_add_and_mask [of 10 "ucast i :: u32" n] i by simp
  moreover have "(unat i + unat n) mod 1024 < 2 ^ 16" by (rule less_trans [of _ 1024]) simp_all
  ultimately show ?thesis unfolding AL_ETH_RX_RING_IDX_ADD_def m by (simp add: unsigned_ucast_eq unsigned_take_bit_eq take_bit_nat_eq_self)
qed

lemma slot_neq:
  fixes k l :: nat
  assumes "k < l" "l < k + 1024"
  shows "k mod 1024 \<noteq> l mod 1024"
proof -
  have "l - k < 1024" "0 < l - k" "k + (l - k) = l" using assms by linarith+
  then show ?thesis using mod_add_eq_imp_eq [of k 0 1024 "l - k"] by auto
qed

subsection \<open>Accounting\<close>

fun ev_maps :: "rx_event \<Rightarrow> (u64 \<times> u32) multiset" where
  "ev_maps (RxMap a l) = {#(a, l)#}" | "ev_maps _ = {#}"

fun ev_unmaps :: "rx_event \<Rightarrow> (u64 \<times> u32) multiset" where
  "ev_unmaps (RxUnmap a l) = {#(a, l)#}" | "ev_unmaps _ = {#}"

fun ev_allocs :: "rx_cfg \<Rightarrow> rx_event \<Rightarrow> ptr multiset" where
  "ev_allocs cfg (AllocFrag d) = {#head_page cfg d#}" | "ev_allocs cfg _ = {#}"

fun ev_puts :: "rx_event \<Rightarrow> ptr multiset" where
  "ev_puts (PutPage p) = {#p#}" | "ev_puts _ = {#}"

definition skb_pages :: "rx_skb \<Rightarrow> ptr multiset" where
  "skb_pages skb = mset (map fst (rskb_frags skb))"

fun ev_given :: "rx_event \<Rightarrow> ptr multiset" where
  "ev_given (GroFrags skb) = skb_pages skb" | "ev_given _ = {#}"

abbreviation total_of :: "('e \<Rightarrow> 'a multiset) \<Rightarrow> 'e list \<Rightarrow> 'a multiset" where
  "total_of g log \<equiv> sum_list (map g log)"

definition slot_map :: "al_eth_rx_buffer \<Rightarrow> (u64 \<times> u32) multiset" where
  "slot_map b = (if rb_data b = None then {#} else {#(rb_dma b, rb_data_size b)#})"

definition slot_page :: "al_eth_rx_buffer \<Rightarrow> ptr multiset" where
  "slot_page b = (if rb_data b = None then {#} else {#rb_page b#})"

lemma total_update:
  fixes g :: "'e \<Rightarrow> 'a multiset"
  assumes "i < length xs"
  shows "total_of g (xs[i := y]) + g (xs ! i) = total_of g xs + g y"
proof -
  have xs: "xs = take i xs @ xs ! i # drop (Suc i) xs" using assms by (rule id_take_nth_drop)
  have up: "xs[i := y] = take i xs @ y # drop (Suc i) xs" using assms by (rule upd_conv_take_nth_drop)
  have "total_of g xs = total_of g (take i xs) + g (xs ! i) + total_of g (drop (Suc i) xs)" by (subst xs) (simp add: ac_simps)
  then show ?thesis unfolding up by (simp add: ac_simps)
qed

subsection \<open>The invariant\<close>

text \<open>The buffer of a slot, if it has one, is what its fields say.\<close>

definition slot_ok :: "rx_cfg \<Rightarrow> al_eth_rx_buffer \<Rightarrow> bool" where
  "slot_ok cfg b \<longleftrightarrow> (\<forall>d. rb_data b = Some d \<longrightarrow>
     rb_buf b = \<lparr>buf_addr = rb_dma b, buf_len = rb_data_size b\<rparr> \<and> rb_page b = head_page cfg d \<and>
     rb_page_offset b = d - page_address cfg (rb_page b) \<and> unat (rb_data_size b) < 2 ^ 16)"

text \<open>Descriptor number \<open>k\<close> makes the engine write to the mapped buffer of its slot.\<close>

definition posted :: "al_udma_q \<Rightarrow> desc_mem \<Rightarrow> al_eth_rx_buffer \<Rightarrow> nat \<Rightarrow> bool" where
  "posted q mem b k \<longleftrightarrow> rb_data b \<noteq> None \<and> buf_ptr (mem (desc_slot q k)) = rb_dma b \<and>
     take_bit 16 (len_ctrl (mem (desc_slot q k))) = rb_data_size b"

text \<open>\<open>P\<close> are the pages in a socket buffer that is being built.\<close>

definition rx_core :: "rx_cfg \<Rightarrow> nat \<Rightarrow> nat \<Rightarrow> ptr multiset \<Rightarrow> al_udma_q \<Rightarrow> al_eth_rx_buffer list \<Rightarrow> desc_mem \<Rightarrow> rx_event list \<Rightarrow> bool" where
  "rx_core cfg h f P q info mem log \<longleftrightarrow>
     comp_synced q h \<and> q_size q = 1024 \<and> udma_in_flight q = f \<and> udma_submitted q (h + f) \<and> length info = 1024 \<and>
     (\<forall>k. h \<le> k \<and> k < h + f \<longrightarrow> posted q mem (info ! (k mod 1024)) k) \<and>
     (\<forall>b \<in> set info. slot_ok cfg b) \<and>
     total_of ev_maps log = total_of ev_unmaps log + total_of slot_map info \<and>
     total_of (ev_allocs cfg) log = total_of ev_puts log + total_of ev_given log + P + total_of slot_page info"

lemma rx_coreD:
  assumes "rx_core cfg h f P q info mem log"
  shows "comp_synced q h" "q_size q = 1024" "udma_in_flight q = f" "udma_submitted q (h + f)" "length info = 1024"
    "h \<le> k \<Longrightarrow> k < h + f \<Longrightarrow> posted q mem (info ! (k mod 1024)) k" "i < 1024 \<Longrightarrow> slot_ok cfg (info ! i)" "f \<le> 1023" "udma_ring_ok q"
proof -
  show r: "udma_ring_ok q" using assms by (simp add: rx_core_def comp_synced_def comp_ring_ok_def)
  show "f \<le> 1023" using in_flight_less [OF r] assms by (auto simp: rx_core_def)
qed (use assms in \<open>auto simp: rx_core_def\<close>)

text \<open>Events without resources do not matter.\<close>

definition neutral :: "rx_event \<Rightarrow> bool" where
  "neutral ev \<longleftrightarrow> ev_maps ev = {#} \<and> ev_unmaps ev = {#} \<and> (\<forall>cfg. ev_allocs cfg ev = {#}) \<and> ev_puts ev = {#} \<and> ev_given ev = {#}"

lemma neutral_events [simp]:
  "neutral (SyncForCpu a l)" "neutral (SyncForDevice a l)" "neutral (GroReceive skb)" "neutral NapiSchedule" "neutral NapiComplete"
  by (simp_all add: neutral_def)

lemma rx_core_neutral: "neutral ev \<Longrightarrow> rx_core cfg h f P q info mem (log @ [ev]) = rx_core cfg h f P q info mem log"
  by (simp add: rx_core_def neutral_def)

lemma rx_core_given: "rx_core cfg h f (P + skb_pages skb) q info mem log \<Longrightarrow> rx_core cfg h f P q info mem (log @ [GroFrags skb])"
  by (simp add: rx_core_def ac_simps)

text \<open>Unmapping the buffer of a slot that is not posted and passing its page on.\<close>

lemma rx_core_take:
  assumes "rx_core cfg h f P q info mem log" "i < 1024" "rb_data (info ! i) \<noteq> None" "\<And>k. h \<le> k \<Longrightarrow> k < h + f \<Longrightarrow> k mod 1024 \<noteq> i"
  shows "rx_core cfg h f (add_mset (rb_page (info ! i)) P) q (info[i := (info ! i)\<lparr>rb_data := None\<rparr>]) mem
    (log @ [RxUnmap (rb_dma (info ! i)) (rb_data_size (info ! i))])"
proof -
  let ?b = "(info ! i)\<lparr>rb_data := None\<rparr>"
  note d = rx_coreD [OF assms(1)]
  have i: "i < length info" using assms(2) d(5) by simp
  have m: "total_of slot_map (info[i := ?b]) + {#(rb_dma (info ! i), rb_data_size (info ! i))#} = total_of slot_map info"
    using total_update [OF i, of slot_map ?b] assms(3) by (simp add: slot_map_def)
  have p: "total_of slot_page (info[i := ?b]) + {#rb_page (info ! i)#} = total_of slot_page info"
    using total_update [OF i, of slot_page ?b] assms(3) by (simp add: slot_page_def)
  have "posted q mem (info[i := ?b] ! (k mod 1024)) k" if "h \<le> k" "k < h + f" for k
    using assms(4) [OF that] d(6) [OF that] by simp
  moreover have "\<forall>b \<in> set (info[i := ?b]). slot_ok cfg b"
    using assms(1) set_update_subset_insert [of info i ?b] by (auto simp: rx_core_def slot_ok_def)
  ultimately show ?thesis using assms(1) m p by (auto simp: rx_core_def ac_simps)
qed

subsection \<open>Taking a packet from the hardware ring\<close>

lemma rx_bufs_get_vlan: "source_vlan_count (rx_bufs_get d n pkt) = source_vlan_count pkt"
  by (induction n) (simp_all add: rx_bufs_get_def rx_buf_get_eq Let_def)

lemma rx_core_pkt:
  fixes cmem :: "ptr \<Rightarrow> al_eth_rx_cdesc"
  assumes "rx_core cfg h f P q info mem log" "rx_packet (\<lambda>p. rxc_ctrl_meta (cmem p)) q h j" "j < 19" "length (pkt_bufs pkt) = 19"
  obtains q' pkt' where "al_eth_pkt_rx cmem q pkt = Some (of_nat (Suc j), q', pkt')"
    "rx_core cfg (h + Suc j) (f - Suc j) P q' info mem log" "length (pkt_bufs pkt') = 19" "Suc j \<le> f" "comp_slot q' = comp_slot q"
    "\<And>i. i \<le> j \<Longrightarrow> buf_len (pkt_bufs pkt' ! i) = rx_len (cmem (comp_slot q (h + i)))"
    "pkt_flags pkt' = rxc_ctrl_meta (cmem (comp_slot q (h + j)))" "source_vlan_count pkt' = source_vlan_count pkt"
    "desc_slot q' = desc_slot q" "q_regs q' = q_regs q"
proof -
  note d = rx_coreD [OF assms(1)]
  let ?d = "\<lambda>i. cmem (comp_slot q (h + i))"
  define pkt' where p: "pkt' = (rx_bufs_get ?d (Suc j) (pkt\<lparr>rx_header_len := 0\<rparr>))\<lparr>pkt_flags := rxc_ctrl_meta (?d j),
      l3_proto_idx := take_bit 5 (rxc_ctrl_meta (?d j)), l4_proto_idx := take_bit 5 (drop_bit 8 (rxc_ctrl_meta (?d j))),
      rxhash := ucast (drop_bit 16 (rxc_len (?d j))), pkt_l3_offset := ucast (take_bit 7 (drop_bit 9 (rxc_word2 (?d j))))\<rparr>"
  obtain q' where q': "al_eth_pkt_rx cmem q pkt = Some (of_nat (Suc j), q', pkt')" "comp_synced q' (h + j + 1)"
    "udma_pend q' = drop (j + 1) (udma_pend q)"
    "q' = al_udma_cdesc_ack (q\<lparr>comp_ring_id := lap_id (unat (q_size q)) (h + Suc j), pkt_crnt_descs := 0,
      comp_head_ptr := comp_slot q (h + Suc j)\<rparr>) (of_nat (Suc j))"
    by (rule eth_pkt_rx_eq [OF d(1) assms(2), of pkt, unfolded if_P [OF assms(3)], folded p])
  have le: "Suc j \<le> f" using assms(2) d(3) by (simp add: rx_packet_def)
  have fl: "udma_in_flight q' = f - Suc j" using arg_cong [OF q'(3), of length] d(3) by simp
  have fr: "q_size q' = q_size q" "next_desc_idx q' = next_desc_idx q" "desc_ring_id q' = desc_ring_id q" "desc_base_ptr q' = desc_base_ptr q"
    "cdesc_base_ptr q' = cdesc_base_ptr q" "cdesc_size q' = cdesc_size q" "q_regs q' = q_regs q"
    unfolding q'(4) by (simp_all add: al_udma_cdesc_ack_def Let_def)
  have sl: "desc_slot q' = desc_slot q" "comp_slot q' = comp_slot q" by (simp_all add: desc_slot_def comp_slot_def fr fun_eq_iff)
  have "rx_core cfg (h + Suc j) (f - Suc j) P q' info mem log"
    using assms(1) q'(2) fl le by (simp add: rx_core_def fr udma_submitted_def posted_def sl)
  moreover have "buf_len (pkt_bufs pkt' ! i) = rx_len (cmem (comp_slot q (h + i)))" if "i \<le> j" for i
    using that assms(3,4) unfolding p by (simp add: rx_bufs_get_bufs nth_append del: upt_Suc)
  ultimately show thesis using le assms(4)
    by (intro that [OF q'(1)]) (simp_all add: sl fr, simp_all add: p rx_bufs_get_len rx_bufs_get_vlan)
qed

lemma rx_core_idle:
  assumes "rx_core cfg h f P q info mem log" "\<not> comp_new (\<lambda>p. rxc_ctrl_meta (cmem p)) q h"
  shows "al_eth_pkt_rx cmem q pkt = Some (0, q, pkt)"
  using packet_get_none [OF rx_coreD(1) [OF assms(1)] assms(2)] by (simp add: al_eth_pkt_rx_def)

subsection \<open>Building the socket buffer\<close>

text \<open>What the functions on the packet leave alone.\<close>

definition rx_frame :: "rx_state \<Rightarrow> rx_state \<Rightarrow> bool" where
  "rx_frame s s' \<longleftrightarrow> rx_dma_q (rx_ring s') = rx_dma_q (rx_ring s) \<and> rx_hal_pkt (rx_ring s') = rx_hal_pkt (rx_ring s) \<and>
     rx_next_to_use (rx_ring s') = rx_next_to_use (rx_ring s) \<and> rx_mem s' = rx_mem s \<and> rx_io s' = rx_io s"

abbreviation rx_inv :: "rx_cfg \<Rightarrow> nat \<Rightarrow> nat \<Rightarrow> ptr multiset \<Rightarrow> rx_state \<Rightarrow> bool" where
  "rx_inv cfg h f P s \<equiv> rx_core cfg h f P (rx_dma_q (rx_ring s)) (rx_buffer_info (rx_ring s)) (rx_mem s) (rx_log s)"

lemma rx_upd_simps [simp]:
  "rx_ring (rx_emit ev s) = rx_ring s" "rx_mem (rx_emit ev s) = rx_mem s" "rx_io (rx_emit ev s) = rx_io s" "rx_pmem (rx_emit ev s) = rx_pmem s"
  "rx_log (rx_emit ev s) = rx_log s @ ev"
  "rx_dma_q (rx_ring (set_rx_info i b s)) = rx_dma_q (rx_ring s)" "rx_mem (set_rx_info i b s) = rx_mem s" "rx_log (set_rx_info i b s) = rx_log s"
  "rx_buffer_info (rx_ring (set_rx_info i b s)) = (rx_buffer_info (rx_ring s))[i := b]"
  "rx_dma_q (rx_ring (add_bytes n s)) = rx_dma_q (rx_ring s)" "rx_mem (add_bytes n s) = rx_mem s" "rx_log (add_bytes n s) = rx_log s"
  "rx_buffer_info (rx_ring (add_bytes n s)) = rx_buffer_info (rx_ring s)"
  "rx_pmem (add_bytes n s) = rx_pmem s" "rx_pmem (set_rx_info i b s) = rx_pmem s"
  by (simp_all add: rx_emit_def set_rx_info_def add_bytes_def)

lemma rx_frame_simps [simp]:
  "rx_frame s s" "rx_frame s (rx_emit ev s') = rx_frame s s'" "rx_frame s (set_rx_info i b s') = rx_frame s s'"
  "rx_frame s (add_bytes n s') = rx_frame s s'" "rx_frame s (s'\<lparr>rx_pmem := m\<rparr>) = rx_frame s s'" "rx_frame s (count_alloc_fail s') = rx_frame s s'"
  by (simp_all add: rx_frame_def rx_emit_def set_rx_info_def add_bytes_def count_alloc_fail_def)

lemma rx_frame_trans: "rx_frame s s1 \<Longrightarrow> rx_frame s1 s2 \<Longrightarrow> rx_frame s s2"
  by (simp add: rx_frame_def)

text \<open>The fragment of slot number \<open>k\<close>.\<close>

definition slot_frag :: "rx_cfg \<Rightarrow> al_eth_rx_buffer list \<Rightarrow> nat \<Rightarrow> u32 \<Rightarrow> ptr \<times> nat \<times> u32" where
  "slot_frag cfg info k len = (rb_page (info ! (k mod 1024)), rb_page_offset (info ! (k mod 1024)) + rx_offset cfg, len)"

lemma rx_skb_loop_ok:
  assumes "rx_inv cfg h f (P + skb_pages skb) s" "c + length lens = h" "h + f \<le> c + 1023" "unat ntc = c mod 1024"
    and "\<And>k. c \<le> k \<Longrightarrow> k < h \<Longrightarrow> rb_data (rx_buffer_info (rx_ring s) ! (k mod 1024)) \<noteq> None"
    and "length (rskb_frags skb) + length lens \<le> 17"
  shows "\<exists>skb' ntc' s'. rx_skb_loop cfg lens skb ntc s = Some (skb', ntc', s') \<and> unat ntc' = h mod 1024 \<and>
    rx_inv cfg h f (P + skb_pages skb') s' \<and> rx_frame s s' \<and>
    rskb_frags skb' = rskb_frags skb @ map2 (slot_frag cfg (rx_buffer_info (rx_ring s))) [c..<h] lens"
  using assms
proof (induction lens arbitrary: skb ntc s c)
  case Nil
  then show ?case by simp
next
  case (Cons len lens)
  let ?info = "rx_buffer_info (rx_ring s)"
  let ?i = "c mod 1024"
  let ?b = "?info ! ?i"
  have i: "unat ntc = ?i" "?i < 1024" using Cons.prems(4) by simp_all
  have len: "length ?info = 1024" using rx_coreD(5) [OF Cons.prems(1)] .
  have ne: "rb_data ?b \<noteq> None" using Cons.prems(2,5) by simp
  have out: "k mod 1024 \<noteq> ?i" if "h \<le> k" "k < h + f" for k
    using slot_neq [of c k] that Cons.prems(2,3) by simp
  define skb1 where "skb1 = skb\<lparr>rskb_frags := rskb_frags skb @ [slot_frag cfg ?info c len], rskb_len := rskb_len skb + len,
     rskb_data_len := rskb_data_len skb + len, rskb_truesize := rskb_truesize skb + rb_data_size ?b\<rparr>"
  define s1 where "s1 = set_rx_info ?i (?b\<lparr>rb_data := None\<rparr>) (rx_emit [RxUnmap (rb_dma ?b) (rb_data_size ?b)] (add_bytes len s))"
  have st: "rx_skb_loop cfg (len # lens) skb ntc s = rx_skb_loop cfg lens skb1 (AL_ETH_RX_RING_IDX_NEXT ntc) s1"
  proof -
    have "\<not> length ?info \<le> unat ntc" using len i by simp
    then show ?thesis using Cons.prems(6) by (simp add: Let_def i(1) add_frag_def MAX_SKB_FRAGS_def skb1_def s1_def slot_frag_def)
  qed
  have pg: "skb_pages skb1 = add_mset (rb_page ?b) (skb_pages skb)" by (simp add: skb1_def skb_pages_def slot_frag_def)
  have c1: "rx_inv cfg h f (P + skb_pages skb1) s1"
    using rx_core_take [OF Cons.prems(1) i(2) ne out] by (simp add: s1_def pg)
  have info1: "rx_buffer_info (rx_ring s1) ! (k mod 1024) = ?info ! (k mod 1024)" if "Suc c \<le> k" "k < h" for k
    using slot_neq [of c k] that Cons.prems(2,3) by (simp add: s1_def)
  have "\<exists>skb' ntc' s'. rx_skb_loop cfg lens skb1 (AL_ETH_RX_RING_IDX_NEXT ntc) s1 = Some (skb', ntc', s') \<and> unat ntc' = h mod 1024 \<and>
    rx_inv cfg h f (P + skb_pages skb') s' \<and> rx_frame s1 s' \<and>
    rskb_frags skb' = rskb_frags skb1 @ map2 (slot_frag cfg (rx_buffer_info (rx_ring s1))) [Suc c..<h] lens"
  proof (rule Cons.IH [OF c1])
    show "Suc c + length lens = h" "h + f \<le> Suc c + 1023" using Cons.prems(2,3) by simp_all
    show "unat (AL_ETH_RX_RING_IDX_NEXT ntc) = Suc c mod 1024" by (simp add: unat_rx_idx_next i mod_Suc_eq)
    show "rb_data (rx_buffer_info (rx_ring s1) ! (k mod 1024)) \<noteq> None" if "Suc c \<le> k" "k < h" for k
      using info1 [OF that] Cons.prems(5) that by simp
    show "length (rskb_frags skb1) + length lens \<le> 17" using Cons.prems(6) by (simp add: skb1_def)
  qed
  moreover have "map2 (slot_frag cfg (rx_buffer_info (rx_ring s1))) [Suc c..<h] lens = map2 (slot_frag cfg ?info) [Suc c..<h] lens"
    using info1 by (intro map_cong refl) (auto simp: slot_frag_def dest!: set_zip_leftD)
  moreover have "[c..<h] = c # [Suc c..<h]" using Cons.prems(2) by (simp add: upt_conv_Cons)
  moreover have "rx_frame s s1" by (simp add: s1_def)
  ultimately show ?case unfolding st by (auto simp: skb1_def intro: rx_frame_trans)
qed

text \<open>The VLAN header is removed from the first fragment when the network device asks for it and the frame is tagged.\<close>

definition vlan_tagged :: "rx_cfg \<Rightarrow> (ptr \<Rightarrow> u8) \<Rightarrow> ptr \<Rightarrow> bool" where
  "vlan_tagged cfg pmem va \<longleftrightarrow> feature_vlan_rx cfg \<and> pmem (va + 12) = 0x81 \<and> pmem (va + 13) = 0x00"

definition first_frag :: "rx_cfg \<Rightarrow> (ptr \<Rightarrow> u8) \<Rightarrow> ptr \<Rightarrow> ptr \<times> nat \<times> u32 \<Rightarrow> ptr \<times> nat \<times> u32" where
  "first_frag cfg pmem va = (\<lambda>(page, off, len). if vlan_tagged cfg pmem va then (page, off + 4, len - 4) else (page, off, len))"

lemma vlan_rx_frag_frags:
  "rskb_frags skb = [x] \<Longrightarrow> rskb_frags (fst (al_eth_vlan_rx_frag cfg skb va pmem)) = [first_frag cfg pmem va x]"
  by (cases x) (simp add: al_eth_vlan_rx_frag_def al_eth_vlan_hwaccel_check_and_put_def first_frag_def vlan_tagged_def VLAN_HLEN_def Let_def)

lemma fst_first_frag: "fst (first_frag cfg pmem va x) = fst x"
  by (cases x) (simp add: first_frag_def)

lemma count_alloc_fail_simps [simp]:
  "rx_dma_q (rx_ring (count_alloc_fail s)) = rx_dma_q (rx_ring s)" "rx_buffer_info (rx_ring (count_alloc_fail s)) = rx_buffer_info (rx_ring s)"
  "rx_mem (count_alloc_fail s) = rx_mem s" "rx_log (count_alloc_fail s) = rx_log s"
  by (simp_all add: count_alloc_fail_def)

text \<open>A received packet of \<open>j + 1\<close> buffers in the slots from number \<open>c\<close> on, after its descriptors were acknowledged.\<close>

definition rx_arrived :: "rx_cfg \<Rightarrow> nat \<Rightarrow> nat \<Rightarrow> nat \<Rightarrow> al_eth_pkt \<Rightarrow> rx_state \<Rightarrow> bool" where
  "rx_arrived cfg c j f pkt s \<longleftrightarrow> rx_inv cfg (c + Suc j) f {#} s \<and> Suc j + f \<le> 1023 \<and> length (pkt_bufs pkt) = 19 \<and> j < 17 \<and>
     (\<forall>k. c \<le> k \<and> k \<le> c + j \<longrightarrow> rb_data (rx_buffer_info (rx_ring s) ! (k mod 1024)) \<noteq> None) \<and>
     (0 < j \<longrightarrow> small_copy_len cfg < buf_len (pkt_bufs pkt ! 0))"

lemma rx_skb_small:
  assumes "rx_arrived cfg c j f pkt s" "unat ntc = c mod 1024" "buf_len (pkt_bufs pkt ! 0) \<le> small_copy_len cfg"
  shows "\<exists>r ntc' s'. al_eth_rx_skb cfg tt kskb pkt (of_nat (Suc j)) ntc s = Some (r, ntc', s') \<and> rx_frame s s' \<and>
    rx_inv cfg (c + Suc j) f {#} s' \<and> (if kskb = None then r = None \<and> ntc' = ntc else r \<noteq> None \<and> unat ntc' = (c + Suc j) mod 1024)"
proof -
  let ?i = "c mod 1024"
  have j: "j = 0" using assms(1,3) by (auto simp: rx_arrived_def)
  have inv: "rx_inv cfg (c + Suc j) f {#} s" using assms(1) by (simp add: rx_arrived_def)
  have d: "length (rx_buffer_info (rx_ring s)) = 1024" "\<not> length (pkt_bufs pkt) < unat (of_nat (Suc j) :: u32)"
    using assms(1) rx_coreD(5) [OF inv] j by (simp_all add: rx_arrived_def)
  obtain x where x: "rb_data (rx_buffer_info (rx_ring s) ! ?i) = Some x" using assms(1) by (auto simp: rx_arrived_def)
  have g: "\<not> (length (rx_buffer_info (rx_ring s)) \<le> unat ntc \<or> length (pkt_bufs pkt) < unat (of_nat (Suc j) :: u32))"
    using d assms(2) by simp
  have nx: "unat (AL_ETH_RX_RING_IDX_NEXT ntc) = (c + Suc j) mod 1024" by (simp add: unat_rx_idx_next assms(2) j mod_Suc_eq)
  show ?thesis
  proof (cases kskb)
    case None
    then show ?thesis unfolding al_eth_rx_skb_def if_not_P [OF g]
      using assms(3) inv by (simp add: Let_def assms(2) x)
  next
    case (Some skb)
    have inv': "rx_core cfg (c + Suc j) f {#} (rx_dma_q (rx_ring s)) (rx_buffer_info (rx_ring s)) (rx_mem s) ((rx_log s @ [SyncForCpu a l]) @ [SyncForDevice a' l'])"
      for a l a' l' using inv by (simp only: rx_core_neutral neutral_events)
    show ?thesis unfolding al_eth_rx_skb_def if_not_P [OF g]
      using assms(3) inv' nx by (simp add: Let_def assms(2) x Some split_def)
  qed
qed

lemma rx_skb_large:
  fixes s :: rx_state and pkt :: al_eth_pkt
  assumes "rx_arrived cfg c j f pkt s" "unat ntc = c mod 1024" "small_copy_len cfg < buf_len (pkt_bufs pkt ! 0)" "rskb_frags skb = []"
  defines "info \<equiv> rx_buffer_info (rx_ring s)" and "lens \<equiv> map buf_len (take (Suc j) (pkt_bufs pkt))"
  shows "\<exists>skb' ntc' s'. al_eth_rx_skb cfg tt (Some skb) pkt (of_nat (Suc j)) ntc s = Some (Some skb', ntc', s') \<and> rx_frame s s' \<and>
    rx_inv cfg (c + Suc j) f (skb_pages skb') s' \<and> unat ntc' = (c + Suc j) mod 1024 \<and>
    rskb_frags skb' = first_frag cfg (rx_pmem s) (the (rb_data (info ! (c mod 1024))) + rx_offset cfg) (slot_frag cfg info c (hd lens)) #
      map2 (slot_frag cfg info) [Suc c..<c + Suc j] (tl lens)"
proof -
  let ?i = "c mod 1024" and ?h = "c + Suc j"
  let ?b = "info ! ?i"
  have inv: "rx_inv cfg ?h f {#} s" and sz: "Suc j + f \<le> 1023" "length (pkt_bufs pkt) = 19" "j < 17"
    and have_data: "\<And>k. c \<le> k \<Longrightarrow> k \<le> c + j \<Longrightarrow> rb_data (info ! (k mod 1024)) \<noteq> None"
    using assms(1) by (auto simp: rx_arrived_def info_def)
  have len: "length info = 1024" using rx_coreD(5) [OF inv] by (simp add: info_def)
  obtain x where x: "rb_data ?b = Some x" using have_data [of c] by auto
  have uj: "unat (of_nat (Suc j) :: u32) = Suc j"
    using sz(3) by (simp only: unsigned_of_nat) (simp add: take_bit_nat_eq_self)
  have g: "\<not> (length (rx_buffer_info (rx_ring s)) \<le> unat ntc \<or> length (pkt_bufs pkt) < unat (of_nat (Suc j) :: u32))"
    using len assms(2) sz unfolding uj by (simp add: info_def)
  have ls: "lens = buf_len (pkt_bufs pkt ! 0) # map buf_len (drop 1 (take (Suc j) (pkt_bufs pkt)))"
    unfolding lens_def using sz(2) by (cases "pkt_bufs pkt") simp_all
  define l0 where "l0 = buf_len (pkt_bufs pkt ! 0)"
  define skb0 where "skb0 = skb\<lparr>rskb_frags := [slot_frag cfg info c l0], rskb_len := rskb_len skb + l0,
     rskb_data_len := rskb_data_len skb + l0, rskb_truesize := rskb_truesize skb + l0\<rparr>"
  define s1 where "s1 = add_bytes l0 (rx_emit [RxUnmap (rb_dma ?b) (rb_data_size ?b)] s)"
  define vp where "vp = al_eth_vlan_rx_frag cfg skb0 (x + rx_offset cfg) (rx_pmem s1)"
  define s2 where "s2 = set_rx_info ?i (?b\<lparr>rb_data := None\<rparr>) (s1\<lparr>rx_pmem := snd vp\<rparr>)"
  have st: "al_eth_rx_skb cfg tt (Some skb) pkt (of_nat (Suc j)) ntc s =
    do { (skb, ntc, s) \<leftarrow> rx_skb_loop cfg (tl lens) (fst vp) (AL_ETH_RX_RING_IDX_NEXT ntc) s2; Some (Some skb, ntc, s) }"
    unfolding al_eth_rx_skb_def if_not_P [OF g]
    using assms(3) by (simp add: Let_def assms(2) x info_def [symmetric] add_frag_def assms(4) MAX_SKB_FRAGS_def uj ls split_def
        s2_def vp_def s1_def skb0_def l0_def slot_frag_def not_le del: of_nat_Suc)
  have fr: "rskb_frags (fst vp) = [first_frag cfg (rx_pmem s) (x + rx_offset cfg) (slot_frag cfg info c l0)]"
    unfolding vp_def by (rule trans, rule vlan_rx_frag_frags) (simp_all add: skb0_def s1_def)
  have pg: "skb_pages (fst vp) = {#rb_page ?b#}" by (simp add: skb_pages_def fr fst_first_frag) (simp add: slot_frag_def)
  have ne: "rb_data (rx_buffer_info (rx_ring s) ! ?i) \<noteq> None" using x by (simp add: info_def)
  have out: "k mod 1024 \<noteq> ?i" if "?h \<le> k" "k < ?h + f" for k
    using slot_neq [of c k] that sz(1) by simp
  have c2: "rx_inv cfg ?h f ({#} + skb_pages (fst vp)) s2"
    using rx_core_take [OF inv _ ne out] by (simp add: s2_def s1_def pg info_def)
  have info2: "rx_buffer_info (rx_ring s2) ! (k mod 1024) = info ! (k mod 1024)" if "Suc c \<le> k" "k < ?h" for k
    using slot_neq [of c k] that sz(3) by (simp add: s2_def s1_def info_def)
  obtain skb' ntc' s' where lp: "rx_skb_loop cfg (tl lens) (fst vp) (AL_ETH_RX_RING_IDX_NEXT ntc) s2 = Some (skb', ntc', s')"
    "unat ntc' = ?h mod 1024" "rx_inv cfg ?h f ({#} + skb_pages skb') s'" "rx_frame s2 s'"
    "rskb_frags skb' = rskb_frags (fst vp) @ map2 (slot_frag cfg (rx_buffer_info (rx_ring s2))) [Suc c..<?h] (tl lens)"
  proof -
    have "\<exists>skb' ntc' s'. rx_skb_loop cfg (tl lens) (fst vp) (AL_ETH_RX_RING_IDX_NEXT ntc) s2 = Some (skb', ntc', s') \<and> unat ntc' = ?h mod 1024 \<and>
      rx_inv cfg ?h f ({#} + skb_pages skb') s' \<and> rx_frame s2 s' \<and>
      rskb_frags skb' = rskb_frags (fst vp) @ map2 (slot_frag cfg (rx_buffer_info (rx_ring s2))) [Suc c..<?h] (tl lens)"
    proof (rule rx_skb_loop_ok [OF c2])
      show "Suc c + length (tl lens) = ?h" using sz by (simp add: lens_def)
      show "?h + f \<le> Suc c + 1023" using sz by simp
      show "unat (AL_ETH_RX_RING_IDX_NEXT ntc) = Suc c mod 1024" by (simp add: unat_rx_idx_next assms(2) mod_Suc_eq)
      show "rb_data (rx_buffer_info (rx_ring s2) ! (k mod 1024)) \<noteq> None" if "Suc c \<le> k" "k < ?h" for k
        using info2 [OF that] have_data [of k] that by simp
      show "length (rskb_frags (fst vp)) + length (tl lens) \<le> 17" using sz by (simp add: fr lens_def)
    qed
    then show thesis using that by blast
  qed
  have "map2 (slot_frag cfg (rx_buffer_info (rx_ring s2))) [Suc c..<?h] (tl lens) = map2 (slot_frag cfg info) [Suc c..<?h] (tl lens)"
    using info2 by (intro map_cong refl) (auto simp: slot_frag_def dest!: set_zip_leftD)
  moreover have "rx_frame s s2" by (simp add: s2_def s1_def)
  moreover have "hd lens = l0" by (simp add: ls l0_def)
  ultimately show ?thesis unfolding st lp(1) using lp(2-5) fr x by (auto intro: rx_frame_trans)
qed

subsection \<open>The polling loop\<close>

text \<open>
  What lies in the completion ring from number \<open>h\<close> on: packets of \<open>j + 1\<close> descriptors for each \<open>j\<close> of the list, at most 17, and nothing behind them.  A packet of
  several buffers has a first buffer that is too long to be copied, and a packet that is not copied gets a socket buffer.
\<close>

definition pkt_at :: "(ptr \<Rightarrow> al_eth_rx_cdesc) \<Rightarrow> al_udma_q \<Rightarrow> nat \<Rightarrow> nat \<Rightarrow> bool" where
  "pkt_at cmem q h j \<longleftrightarrow> (\<forall>i<j. \<not> comp_last (\<lambda>p. rxc_ctrl_meta (cmem p)) q (h + i)) \<and> comp_last (\<lambda>p. rxc_ctrl_meta (cmem p)) q (h + j) \<and>
     (\<forall>i\<le>j. comp_new (\<lambda>p. rxc_ctrl_meta (cmem p)) q (h + i))"

fun rx_stream :: "rx_cfg \<Rightarrow> rx_env \<Rightarrow> al_udma_q \<Rightarrow> nat \<Rightarrow> nat \<Rightarrow> nat list \<Rightarrow> bool" where
  "rx_stream cfg e q k h [] \<longleftrightarrow> \<not> comp_new (\<lambda>p. rxc_ctrl_meta (e_cmem e p)) q h"
| "rx_stream cfg e q k h (j # js) \<longleftrightarrow> pkt_at (e_cmem e) q h j \<and> j < 17 \<and>
     (0 < j \<longrightarrow> small_copy_len cfg < rx_len (e_cmem e (comp_slot q h))) \<and>
     (small_copy_len cfg < rx_len (e_cmem e (comp_slot q h)) \<longrightarrow> e_skb e k \<noteq> None) \<and> rx_stream cfg e q (Suc k) (h + Suc j) js"

lemma rx_stream_cong:
  assumes "comp_slot q' = comp_slot q" "q_size q' = q_size q"
  shows "rx_stream cfg e q' k h js = rx_stream cfg e q k h js"
  by (induction js arbitrary: k h) (simp_all add: pkt_at_def comp_new_def comp_last_def assms)

definition descs_in :: "nat list \<Rightarrow> nat" where
  "descs_in js = sum_list (map Suc js)"

lemma descs_in_Cons [simp]: "descs_in [] = 0" "descs_in (j # js) = Suc j + descs_in js"
  by (simp_all add: descs_in_def)

lemma deliver_frags:
  obtains skb' l b where "rx_deliver cfg pkt skb s = (l, b, rx_emit [if buf_len (pkt_bufs pkt ! 0) \<le> small_copy_len cfg then GroReceive skb' else GroFrags skb'] s)"
    "rskb_frags skb' = rskb_frags skb"
proof -
  have "rskb_frags (al_eth_rx_checksum cfg pkt skb) = rskb_frags skb" by (simp add: al_eth_rx_checksum_def)
  moreover define skb' where "skb' = (if feature_rxhash cfg then (al_eth_rx_checksum cfg pkt skb)\<lparr>rskb_hash :=
      Some (push_bit 16 (ucast (rxhash pkt)) XOR ucast (rxhash pkt), if l4_proto_idx pkt = AL_ETH_PROTO_ID_TCP \<or> l4_proto_idx pkt = AL_ETH_PROTO_ID_UDP
        then PKT_HASH_TYPE_L4 else PKT_HASH_TYPE_L3)\<rparr> else al_eth_rx_checksum cfg pkt skb)\<lparr>rskb_queue := rxq_id cfg\<rparr>"
  ultimately have fr: "rskb_frags skb' = rskb_frags skb" by simp
  have "rx_deliver cfg pkt skb s = (rskb_len skb', buf_len (pkt_bufs pkt ! 0) \<le> small_copy_len cfg,
      rx_emit [if buf_len (pkt_bufs pkt ! 0) \<le> small_copy_len cfg then GroReceive skb' else GroFrags skb'] s)"
    unfolding rx_deliver_def skb'_def Let_def by simp
  then show thesis using that fr by blast
qed

text \<open>What a round does to the rest of the state.\<close>

definition rx_keeps :: "rx_state \<Rightarrow> rx_state \<Rightarrow> bool" where
  "rx_keeps s s' \<longleftrightarrow> rx_next_to_use (rx_ring s') = rx_next_to_use (rx_ring s) \<and> rx_mem s' = rx_mem s \<and> rx_io s' = rx_io s \<and>
     length (pkt_bufs (rx_hal_pkt (rx_ring s'))) = 19"

lemma rx_keeps_trans: "rx_keeps s s1 \<Longrightarrow> rx_keeps s1 s2 \<Longrightarrow> rx_keeps s s2"
  by (simp add: rx_keeps_def)

text \<open>One packet: the outcome of a round, before the recursive call.\<close>

lemma rx_round:
  fixes s :: rx_state
  assumes inv: "rx_inv cfg h f {#} s" and pb: "length (pkt_bufs (rx_hal_pkt (rx_ring s))) = 19" and ntc: "unat ntc = h mod 1024"
    and st: "rx_stream cfg e (rx_dma_q (rx_ring s)) k h (j # js)" and le: "descs_in (j # js) \<le> f"
    and fresh: "\<forall>i skb. e_skb e i = Some skb \<longrightarrow> rskb_frags skb = []"
  obtains (on) ntc' s' l b where "rx_poll_loop cfg e (Suc n) k ntc t s = rx_poll_loop cfg e n (Suc k) ntc' (count_round l b t) s'"
      "rx_inv cfg (h + Suc j) (f - Suc j) {#} s'" "unat ntc' = (h + Suc j) mod 1024" "rx_keeps s s'"
      "rx_stream cfg e (rx_dma_q (rx_ring s')) (Suc k) (h + Suc j) js"
    | (fail) ntc' s' where "rx_poll_loop cfg e (Suc n) k ntc t s = Some (ntc', t, s')" "e_skb e k = None"
      "rx_inv cfg (h + Suc j) (f - Suc j) {#} s'" "unat ntc' = (h + Suc j) mod 1024" "rx_keeps s s'"
proof -
  let ?q = "rx_dma_q (rx_ring s)"
  have p: "pkt_at (e_cmem e) ?q h j" "j < 17" using st by simp_all
  have rp: "rx_packet (\<lambda>p. rxc_ctrl_meta (e_cmem e p)) ?q h j"
    using p(1) le rx_coreD(3) [OF inv] by (simp add: rx_packet_def pkt_at_def)
  have j19: "j < 19" using p(2) by simp
  obtain q' pkt' where q': "al_eth_pkt_rx (e_cmem e) ?q (rx_hal_pkt (rx_ring s)) = Some (of_nat (Suc j), q', pkt')"
    "rx_core cfg (h + Suc j) (f - Suc j) {#} q' (rx_buffer_info (rx_ring s)) (rx_mem s) (rx_log s)" "length (pkt_bufs pkt') = 19" "comp_slot q' = comp_slot ?q"
    "\<And>i. i \<le> j \<Longrightarrow> buf_len (pkt_bufs pkt' ! i) = rx_len (e_cmem e (comp_slot ?q (h + i)))"
    using rx_core_pkt [OF inv rp j19 pb] by blast
  define s1 where "s1 = s\<lparr>rx_ring := (rx_ring s)\<lparr>rx_dma_q := q', rx_hal_pkt := pkt',
    rx_moder := (rx_moder (rx_ring s))\<lparr>md_packets := md_packets (rx_moder (rx_ring s)) + 1\<rparr>\<rparr>\<rparr>"
  have uj: "unat (of_nat (Suc j) :: u32) = Suc j" using p(2) by (simp only: unsigned_of_nat) (simp add: take_bit_nat_eq_self)
  then have nz: "(of_nat (Suc j) :: u32) \<noteq> 0" by (metis nat.distinct(1) unsigned_0)
  have k1: "rx_keeps s s1" by (simp add: rx_keeps_def s1_def q'(3))
  have kf: "rx_keeps s s'" if "rx_frame s1 s'" for s' using that k1 by (simp add: rx_keeps_def rx_frame_def)
  have inv1: "rx_inv cfg (h + Suc j) (f - Suc j) {#} s1" using q'(2) by (simp add: s1_def)
  have sz: "q_size q' = q_size ?q" using rx_coreD(2) [OF q'(2)] rx_coreD(2) [OF inv] by simp
  have st1: "rx_stream cfg e q' (Suc k) (h + Suc j) js"
    using st rx_stream_cong [OF q'(4) sz] by simp
  have add: "unat (AL_ETH_RX_RING_IDX_ADD ntc (of_nat (Suc j))) = (h + Suc j) mod 1024"
    by (simp only: unat_rx_idx_add uj ntc mod_add_left_eq)
  show thesis
  proof (cases "pkt_flags pkt' AND (AL_ETH_RX_ERROR OR AL_UDMA_CDESC_ERROR) \<noteq> 0")
    case True
    show thesis
    proof (rule on)
      show "rx_poll_loop cfg e (Suc n) k ntc t s =
          rx_poll_loop cfg e n (Suc k) (AL_ETH_RX_RING_IDX_ADD ntc (of_nat (Suc j))) (count_round 0 False t) s1"
        using True nz by (simp add: q'(1) s1_def Let_def del: of_nat_Suc)
    qed (use inv1 add k1 st1 in \<open>simp_all add: s1_def del: of_nat_Suc\<close>)
  next
    case False
    have eq: "rx_poll_loop cfg e (Suc n) k ntc t s = do {
       (skb, ntc, s) \<leftarrow> al_eth_rx_skb cfg (e_type_trans e) (e_skb e k) pkt' (of_nat (Suc j)) ntc s1;
       case skb of None \<Rightarrow> Some (AL_ETH_RX_RING_IDX_ADD ntc (of_nat (Suc j)), t, s)
       | Some skb \<Rightarrow> let (len, small, s) = rx_deliver cfg pkt' skb s in rx_poll_loop cfg e n (Suc k) ntc (count_round len small t) s }"
      using False nz by (simp add: q'(1) s1_def Let_def del: of_nat_Suc)
    have l0: "buf_len (pkt_bufs pkt' ! 0) = rx_len (e_cmem e (comp_slot ?q h))" using q'(5) [of 0] by simp
    have dat: "rb_data (rx_buffer_info (rx_ring s1) ! (i mod 1024)) \<noteq> None" if "h \<le> i" "i \<le> h + j" for i
      using rx_coreD(6) [OF inv, of i] that le by (simp add: posted_def s1_def)
    have arr: "rx_arrived cfg h j (f - Suc j) pkt' s1"
      using inv1 dat q'(3) p(2) st l0 le rx_coreD(8) [OF inv] by (auto simp: rx_arrived_def)
    show thesis
    proof (cases "buf_len (pkt_bufs pkt' ! 0) \<le> small_copy_len cfg")
      case small: True
      obtain r ntc' s' where r: "al_eth_rx_skb cfg (e_type_trans e) (e_skb e k) pkt' (of_nat (Suc j)) ntc s1 = Some (r, ntc', s')" "rx_frame s1 s'"
        "rx_inv cfg (h + Suc j) (f - Suc j) {#} s'"
        "if e_skb e k = None then r = None \<and> ntc' = ntc else r \<noteq> None \<and> unat ntc' = (h + Suc j) mod 1024"
        using rx_skb_small [OF arr ntc small] by blast
      show thesis
      proof (cases "e_skb e k")
        case None
        then have n: "r = None" "ntc' = ntc" using r(4) by simp_all
        show thesis
        proof (rule fail)
          show "rx_poll_loop cfg e (Suc n) k ntc t s = Some (AL_ETH_RX_RING_IDX_ADD ntc (of_nat (Suc j)), t, s')"
            unfolding eq r(1) by (simp add: n)
        qed (use None r add kf in simp_all)
      next
        case (Some skb)
        then obtain skb1 where skb1: "r = Some skb1" "unat ntc' = (h + Suc j) mod 1024" using r(4) by auto
        obtain skb2 l b where dl: "rx_deliver cfg pkt' skb1 s' = (l, b, rx_emit [GroReceive skb2] s')"
          using deliver_frags [of cfg pkt' skb1 s', unfolded if_P [OF small]] by blast
        show thesis
        proof (rule on)
          show "rx_poll_loop cfg e (Suc n) k ntc t s = rx_poll_loop cfg e n (Suc k) ntc' (count_round l b t) (rx_emit [GroReceive skb2] s')"
            unfolding eq r(1) by (simp add: skb1(1) dl)
        qed (use r skb1 kf st1 in \<open>simp_all add: rx_core_neutral rx_frame_def s1_def\<close>)
      qed
    next
      case False
      then have big: "small_copy_len cfg < buf_len (pkt_bufs pkt' ! 0)" by simp
      then obtain skb where skb: "e_skb e k = Some skb" using st l0 by auto
      obtain skb1 ntc' s' where r: "al_eth_rx_skb cfg (e_type_trans e) (e_skb e k) pkt' (of_nat (Suc j)) ntc s1 = Some (Some skb1, ntc', s')" "rx_frame s1 s'"
        "rx_inv cfg (h + Suc j) (f - Suc j) (skb_pages skb1) s'" "unat ntc' = (h + Suc j) mod 1024"
        using rx_skb_large [OF arr ntc big fresh [rule_format, OF skb]] unfolding skb by blast
      obtain skb2 l b where dl: "rx_deliver cfg pkt' skb1 s' = (l, b, rx_emit [GroFrags skb2] s')" "rskb_frags skb2 = rskb_frags skb1"
        using deliver_frags [of cfg pkt' skb1 s', unfolded if_not_P [OF False]] by blast
      show thesis
      proof (rule on)
        show "rx_poll_loop cfg e (Suc n) k ntc t s = rx_poll_loop cfg e n (Suc k) ntc' (count_round l b t) (rx_emit [GroFrags skb2] s')"
          unfolding eq r(1) by (simp add: dl(1))
        show "rx_inv cfg (h + Suc j) (f - Suc j) {#} (rx_emit [GroFrags skb2] s')"
          using r(3) dl(2) by (simp add: rx_core_given skb_pages_def)
      qed (use r kf st1 in \<open>simp_all add: rx_frame_def s1_def\<close>)
    qed
  qed
qed

text \<open>
  The loop consumes \<open>m\<close> whole packets.  It stops early only when the kernel has no socket buffer for a packet to be copied; that packet is
  consumed too, but not counted.
\<close>

lemma rx_poll_loop_ok:
  assumes "\<forall>i skb. e_skb e i = Some skb \<longrightarrow> rskb_frags skb = []"
    and "rx_inv cfg h f {#} s" "length (pkt_bufs (rx_hal_pkt (rx_ring s))) = 19" "unat ntc = h mod 1024"
    and "rx_stream cfg e (rx_dma_q (rx_ring s)) k h js" "descs_in js \<le> f"
  shows "\<exists>ntc' t' s' m. rx_poll_loop cfg e n k ntc t s = Some (ntc', t', s') \<and> m \<le> min n (length js) \<and>
    rx_inv cfg (h + descs_in (take m js)) (f - descs_in (take m js)) {#} s' \<and> unat ntc' = (h + descs_in (take m js)) mod 1024 \<and> rx_keeps s s' \<and>
    (if \<exists>i. k \<le> i \<and> i < k + m \<and> e_skb e i = None then work_done t' \<le> work_done t + m
     else m = min n (length js) \<and> work_done t' = work_done t + m)"
  using assms(2-)
proof (induction n arbitrary: k h f ntc t s js)
  case 0
  then show ?case by (intro exI [of _ ntc] exI [of _ t] exI [of _ s] exI [of _ 0]) (simp add: rx_keeps_def)
next
  case (Suc n)
  show ?case
  proof (cases js)
    case Nil
    then have "rx_poll_loop cfg e (Suc n) k ntc t s = Some (ntc, t, s)"
      using Suc.prems(4) rx_core_idle [OF Suc.prems(1), of "e_cmem e"] by simp
    then show ?thesis using Suc.prems Nil
      by (intro exI [of _ ntc] exI [of _ t] exI [of _ s] exI [of _ 0]) (simp add: rx_keeps_def)
  next
    case (Cons j js')
    note st = Suc.prems(4) [unfolded Cons] and le = Suc.prems(5) [unfolded Cons]
    show ?thesis
    proof (rule rx_round [OF Suc.prems(1-3) st le assms(1), where n = n and t = t])
      fix ntc1 s1 l b
      assume on: "rx_poll_loop cfg e (Suc n) k ntc t s = rx_poll_loop cfg e n (Suc k) ntc1 (count_round l b t) s1"
        "rx_inv cfg (h + Suc j) (f - Suc j) {#} s1" "unat ntc1 = (h + Suc j) mod 1024" "rx_keeps s s1"
        "rx_stream cfg e (rx_dma_q (rx_ring s1)) (Suc k) (h + Suc j) js'"
      have b: "length (pkt_bufs (rx_hal_pkt (rx_ring s1))) = 19" "descs_in js' \<le> f - Suc j" using on(4) le by (simp_all add: rx_keeps_def)
      obtain ntc' t' s' m where ih: "rx_poll_loop cfg e n (Suc k) ntc1 (count_round l b t) s1 = Some (ntc', t', s')" "m \<le> min n (length js')"
        "rx_inv cfg (h + Suc j + descs_in (take m js')) (f - Suc j - descs_in (take m js')) {#} s'"
        "unat ntc' = (h + Suc j + descs_in (take m js')) mod 1024" "rx_keeps s1 s'"
        "if \<exists>i. Suc k \<le> i \<and> i < Suc k + m \<and> e_skb e i = None then work_done t' \<le> work_done (count_round l b t) + m
         else m = min n (length js') \<and> work_done t' = work_done (count_round l b t) + m"
        using Suc.IH [OF on(2) b(1) on(3,5) b(2), of "count_round l b t"] by blast
      have w: "work_done (count_round l b t) = Suc (work_done t)" by (simp add: count_round_def)
      have wd: "if \<exists>i. k \<le> i \<and> i < k + Suc m \<and> e_skb e i = None then work_done t' \<le> work_done t + Suc m
         else Suc m = min (Suc n) (length js) \<and> work_done t' = work_done t + Suc m"
      proof (cases "\<exists>i. Suc k \<le> i \<and> i < Suc k + m \<and> e_skb e i = None")
        case True
        then obtain i where "Suc k \<le> i" "i < Suc k + m" "e_skb e i = None" by blast
        then have "\<exists>i. k \<le> i \<and> i < k + Suc m \<and> e_skb e i = None" by (intro exI [of _ i]) simp
        then show ?thesis using True ih(6) w by simp
      next
        case False
        then show ?thesis using ih(6) w by (simp add: Cons)
      qed
      have e: "h + descs_in (take (Suc m) js) = h + Suc j + descs_in (take m js')" "f - descs_in (take (Suc m) js) = f - Suc j - descs_in (take m js')"
        by (simp_all add: Cons)
      have mm: "Suc m \<le> min (Suc n) (length js)" using ih(2) by (simp add: Cons)
      show ?thesis
        by (rule exI [of _ ntc'], rule exI [of _ t'], rule exI [of _ s'], rule exI [of _ "Suc m"], unfold e on(1))
          (intro conjI ih(1,3,4) wd mm rx_keeps_trans [OF on(4) ih(5)])
    next
      fix ntc1 s1
      assume fail: "rx_poll_loop cfg e (Suc n) k ntc t s = Some (ntc1, t, s1)" "e_skb e k = None"
        "rx_inv cfg (h + Suc j) (f - Suc j) {#} s1" "unat ntc1 = (h + Suc j) mod 1024" "rx_keeps s s1"
      have "\<exists>i. k \<le> i \<and> i < k + 1 \<and> e_skb e i = None" using fail(2) by (intro exI [of _ k]) simp
      then show ?thesis using fail by (intro exI [of _ ntc1] exI [of _ t] exI [of _ s1] exI [of _ 1]) (simp add: Cons)
    qed
  qed
qed

subsection \<open>Refilling\<close>

lemma rx_data_size_small: "unat (mtu cfg) \<le> 9216 \<Longrightarrow> unat (rx_data_size cfg) < 2 ^ 16"
proof -
  assume a: "unat (mtu cfg) \<le> 9216"
  have "unat (mtu cfg + ETH_HLEN + ETH_FCS_LEN + VLAN_HLEN) = unat (mtu cfg) + 22"
    using a by (simp add: ETH_HLEN_def ETH_FCS_LEN_def VLAN_HLEN_def unat_word_ariths)
  then have "unat (min (mtu cfg + ETH_HLEN + ETH_FCS_LEN + VLAN_HLEN) (max_rx_buff_alloc_size cfg)) \<le> 9238"
    using a by (simp add: min_def word_le_nat_alt)
  then show ?thesis by (simp add: rx_data_size_def max_def AL_ETH_DEFAULT_MIN_RX_BUFF_ALLOC_SIZE_def)
qed

text \<open>The result of a refill: the slot has a buffer, or the failed attempt gave back what it had.\<close>

lemma alloc_rx_frag_ok:
  assumes inv: "rx_inv cfg h f {#} s" and i: "i < 1024" and free: "\<And>k. h \<le> k \<Longrightarrow> k < h + f \<Longrightarrow> k mod 1024 \<noteq> i"
    and mt: "unat (mtu cfg) \<le> 9216" and val: "\<And>d. frag = Some d \<Longrightarrow> virt_addr_valid cfg d"
  shows "\<exists>rc b s'. al_eth_alloc_rx_frag cfg frag dma (rx_buffer_info (rx_ring s) ! i) s = Some (rc, b, s') \<and>
    rx_inv cfg h f {#} (set_rx_info i b s') \<and> rx_dma_q (rx_ring s') = rx_dma_q (rx_ring s) \<and> rx_mem s' = rx_mem s \<and> rx_io s' = rx_io s \<and>
    rx_buffer_info (rx_ring s') = rx_buffer_info (rx_ring s) \<and> rx_hal_pkt (rx_ring s') = rx_hal_pkt (rx_ring s) \<and>
    rx_next_to_clean (rx_ring s') = rx_next_to_clean (rx_ring s) \<and>
    (if rb_data (rx_buffer_info (rx_ring s) ! i) = None \<and> (frag = None \<or> dma = None) then rc \<noteq> RcOk
     else rc = RcOk \<and> rb_data b \<noteq> None \<and> slot_ok cfg b)"
proof -
  let ?info = "rx_buffer_info (rx_ring s)"
  let ?b = "?info ! i"
  note d = rx_coreD [OF inv]
  have len: "i < length ?info" using i d(5) by simp
  have keep: "?info[i := ?b] = ?info" by simp
  have other: "posted (rx_dma_q (rx_ring s)) (rx_mem s) (?info[i := b] ! (k mod 1024)) k" if "h \<le> k" "k < h + f" for k b
    using free [OF that] d(6) [OF that] by simp
  have oks: "\<forall>x \<in> set (?info[i := b]). slot_ok cfg x" if "slot_ok cfg b" for b
    using inv set_update_subset_insert [of ?info i b] that by (auto simp: rx_core_def)
  show ?thesis
  proof (cases "rb_data ?b")
    case (Some x)
    then show ?thesis using inv d(7) [OF i] by (simp add: al_eth_alloc_rx_frag_def)
  next
    case None
    let ?b1 = "?b\<lparr>rb_data_size := rx_data_size cfg, rb_frag_size := frag_size_of cfg (rx_data_size cfg)\<rparr>"
    have m: "total_of slot_map (?info[i := b]) = total_of slot_map ?info + slot_map b"
      "total_of slot_page (?info[i := b]) = total_of slot_page ?info + slot_page b" for b
      using total_update [OF len, of slot_map b] total_update [OF len, of slot_page b] None by (simp_all add: slot_map_def slot_page_def)
    have b1: "slot_map ?b1 = {#}" "slot_page ?b1 = {#}" "slot_ok cfg ?b1" using None by (simp_all add: slot_map_def slot_page_def slot_ok_def)
    show ?thesis
    proof (cases frag)
      case fn: None
      have "rx_core cfg h f {#} (rx_dma_q (rx_ring s)) (?info[i := ?b1]) (rx_mem s) (rx_log s)"
        using inv other oks [OF b1(3)] by (simp add: rx_core_def m b1)
      then show ?thesis using None fn by (simp add: al_eth_alloc_rx_frag_def Let_def)
    next
      case (Some x)
      show ?thesis
      proof (cases dma)
        case dn: None
        have "rx_core cfg h f {#} (rx_dma_q (rx_ring s)) (?info[i := ?b1]) (rx_mem s) (rx_log s @ [AllocFrag x, PutPage (head_page cfg x)])"
          using inv other oks [OF b1(3)] by (simp add: rx_core_def m b1)
        then show ?thesis using None Some dn by (simp add: al_eth_alloc_rx_frag_def Let_def rx_emit_def)
      next
        case dm: (Some a)
        let ?b2 = "?b1\<lparr>rb_data := Some x, rb_page := head_page cfg x, rb_page_offset := x - page_address cfg (head_page cfg x), rb_dma := a,
           rb_buf := \<lparr>buf_addr = a, buf_len = rx_data_size cfg\<rparr>\<rparr>"
        have b2: "slot_map ?b2 = {#(a, rx_data_size cfg)#}" "slot_page ?b2 = {#head_page cfg x#}" "slot_ok cfg ?b2"
          using rx_data_size_small [OF mt] by (simp_all add: slot_map_def slot_page_def slot_ok_def)
        have "rx_core cfg h f {#} (rx_dma_q (rx_ring s)) (?info[i := ?b2]) (rx_mem s) (rx_log s @ [AllocFrag x, RxMap a (rx_data_size cfg)])"
          using inv other oks [OF b2(3)] by (simp add: rx_core_def m b2)
        then show ?thesis using None Some dm val [OF Some] b2(3) by (simp add: al_eth_alloc_rx_frag_def Let_def rx_emit_def)
      qed
    qed
  qed
qed

text \<open>Posting the buffer of the next slot.\<close>

lemma rx_desc_words:
  assumes "unat (buf_len b) < 2 ^ 16"
  obtains g where "eth_rx_desc u b AL_ETH_RX_FLAGS_INT None = Some g"
    "\<And>rid old. buf_ptr (g rid old) = buf_addr b" "\<And>rid old. take_bit 16 (len_ctrl (g rid old)) = buf_len b"
proof -
  have fl: "AL_ETH_RX_FLAGS_INT AND AL_S2M_DESC_DUAL_BUF = 0" "AL_ETH_RX_FLAGS_INT AND AL_ETH_RX_FLAGS_TGTID_MASK = 0"
    "take_bit 16 (AL_REG_MASK_CLEAR AL_ETH_RX_FLAGS_INT AL_ETH_RX_FLAGS_TGTID_MASK) = 0"
    by (simp_all add: AL_ETH_RX_FLAGS_INT_def AL_S2M_DESC_DUAL_BUF_def AL_ETH_RX_FLAGS_TGTID_MASK_def desc_consts AL_BIT_def AL_FIELD_MASK_def
        AL_REG_MASK_CLEAR_def AL_BIT_MASK_def AL_REG_MASK_SET_VAL_def mask_eq_exp_minus_1)
  have lm: "AL_S2M_DESC_LEN_MASK = mask 16" by (simp add: desc_consts mask_eq_exp_minus_1)
  have p: "take_bit 16 (push_bit 24 r :: u32) = 0" for r by (rule bit_word_eqI) (auto simp: bit_simps)
  have b: "take_bit 16 (buf_len b) = buf_len b"
    using assms by (simp add: word_unat_eq_iff unsigned_take_bit_eq take_bit_nat_eq_self)
  show thesis
  proof (rule that)
    show "eth_rx_desc u b AL_ETH_RX_FLAGS_INT None = Some (\<lambda>rid old. \<lparr>len_ctrl = AL_REG_MASK_CLEAR AL_ETH_RX_FLAGS_INT AL_ETH_RX_FLAGS_TGTID_MASK OR push_bit 24 rid OR
        (buf_len b AND AL_S2M_DESC_LEN_MASK), meta_ctrl = meta_ctrl old, buf_ptr = buf_addr b\<rparr>)"
      by (simp add: eth_rx_desc_def fl)
  qed (simp_all add: take_bit_or fl p lm b flip: take_bit_eq_mask)
qed

lemma rx_core_post:
  assumes inv: "rx_core cfg h f {#} q info mem log" and b: "rb_data (info ! ((h + f) mod 1024)) \<noteq> None"
  shows "if f = 1023 then al_eth_rx_buffer_add u (rb_buf (info ! ((h + f) mod 1024))) AL_ETH_RX_FLAGS_INT None (q, mem) = Some (RcErr ENOSPC, q, mem)
    else \<exists>q' mem'. al_eth_rx_buffer_add u (rb_buf (info ! ((h + f) mod 1024))) AL_ETH_RX_FLAGS_INT None (q, mem) = Some (RcOk, q', mem') \<and>
      rx_core cfg h (Suc f) {#} q' info mem' log \<and> q_regs q' = q_regs q"
proof -
  let ?b = "info ! ((h + f) mod 1024)"
  note d = rx_coreD [OF inv]
  have av: "unat (al_udma_available_get q) = 1023 - f" using available_unat [OF d(9)] d(2,3) by simp
  have ok: "slot_ok cfg ?b" using d(7) by simp
  then have bb: "rb_buf ?b = \<lparr>buf_addr = rb_dma ?b, buf_len = rb_data_size ?b\<rparr>" "unat (buf_len (rb_buf ?b)) < 2 ^ 16"
    using b by (auto simp: slot_ok_def)
  obtain g where g: "eth_rx_desc u (rb_buf ?b) AL_ETH_RX_FLAGS_INT None = Some g"
    "\<And>rid old. buf_ptr (g rid old) = buf_addr (rb_buf ?b)" "\<And>rid old. take_bit 16 (len_ctrl (g rid old)) = buf_len (rb_buf ?b)"
    using rx_desc_words [OF bb(2)] by blast
  show ?thesis
  proof (cases "f = 1023")
    case True
    then have "al_udma_available_get q = 0" using av by (simp add: unat_eq_0)
    then show ?thesis using True by (simp add: eth_rx_buffer_add_eq)
  next
    case False
    then have pos: "0 < unat (al_udma_available_get q)" using av d(8) by simp
    then have nz: "al_udma_available_get q \<noteq> 0" by auto
    obtain q' where q': "desc_put g (q, mem) = (q', mem(desc_slot q (h + f) := g (lap_id (unat (q_size q)) (h + f)) (mem (desc_slot q (h + f)))))"
      "udma_submitted q' (Suc (h + f))" using desc_put_at [OF d(9,4)] by blast
    let ?mem = "mem(desc_slot q (h + f) := g (lap_id (unat (q_size q)) (h + f)) (mem (desc_slot q (h + f))))"
    have took: "ring_took (q, mem) 1 (q', ?mem)" using desc_put_took [of "(q, mem)" g] d(9) pos q'(1) by simp
    obtain i r where qe: "q' = q\<lparr>next_desc_idx := i, desc_ring_id := r\<rparr>" and ok': "udma_ring_ok q'"
      using took by (auto simp: ring_took_def)
    obtain ds where "length ds = 1" "udma_pend q' = udma_pend q @ ds" using ring_took_obtain [OF took] by blast
    then have fl: "udma_in_flight q' = Suc f" using d(3) by (metis One_nat_def add.commute length_append length_udma_pend plus_1_eq_Suc)
    have sl: "desc_slot q' = desc_slot q" by (simp add: qe desc_slot_def fun_eq_iff)
    have syn: "comp_synced q' h" using d(1) ok' by (simp add: comp_synced_def comp_ring_ok_def comp_at_def comp_slot_def qe)
    have "posted q' ?mem (info ! (k mod 1024)) k" if "h \<le> k" "k < h + Suc f" for k
    proof (cases "k = h + f")
      case True
      then show ?thesis using b g(2,3) bb(1) by (simp add: posted_def sl)
    next
      case ne: False
      then have "k mod 1024 \<noteq> (h + f) mod 1024" using that False d(8) by (intro slot_neq) simp_all
      then have "desc_slot q k \<noteq> desc_slot q (h + f)" by (simp add: desc_slot_def d(2))
      then show ?thesis using d(6) [of k] that ne by (simp add: posted_def sl)
    qed
    then have "rx_core cfg h (Suc f) {#} q' info ?mem log"
      using inv syn fl q'(2) by (simp add: rx_core_def qe)
    then show ?thesis using False nz g(1) q'(1) by (auto simp: eth_rx_buffer_add_eq qe)
  qed
qed

lemma refill_loop_ok:
  assumes "rx_inv cfg h f {#} s" "unat ntu = (h + f) mod 1024" and mt: "unat (mtu cfg) \<le> 9216"
    and val: "\<forall>i d. e_frag e i = Some d \<longrightarrow> virt_addr_valid cfg d"
  shows "\<exists>m ntu' s'. refill_loop cfg e n i ntu s = Some (i + m, ntu', s') \<and> m \<le> n \<and> rx_inv cfg h (f + m) {#} s' \<and> unat ntu' = (h + f + m) mod 1024 \<and>
    rx_io s' = rx_io s \<and> q_regs (rx_dma_q (rx_ring s')) = q_regs (rx_dma_q (rx_ring s)) \<and> rx_hal_pkt (rx_ring s') = rx_hal_pkt (rx_ring s) \<and>
    rx_next_to_clean (rx_ring s') = rx_next_to_clean (rx_ring s) \<and>
    ((\<forall>x. e_frag e x \<noteq> None \<and> e_map e x \<noteq> None) \<and> f + n \<le> 1023 \<longrightarrow> m = n)"
  using assms(1,2)
proof (induction n arbitrary: i f ntu s)
  case (Suc n)
  let ?i = "(h + f) mod 1024"
  note d = rx_coreD [OF Suc.prems(1)]
  have free: "k mod 1024 \<noteq> ?i" if "h \<le> k" "k < h + f" for k using slot_neq [of k "h + f"] that d(8) by simp
  obtain rc b s1 where al: "al_eth_alloc_rx_frag cfg (e_frag e i) (e_map e i) (rx_buffer_info (rx_ring s) ! ?i) s = Some (rc, b, s1)"
    "rx_inv cfg h f {#} (set_rx_info ?i b s1)" "rx_dma_q (rx_ring s1) = rx_dma_q (rx_ring s)" "rx_io s1 = rx_io s"
    "rx_buffer_info (rx_ring s1) = rx_buffer_info (rx_ring s)" "rx_hal_pkt (rx_ring s1) = rx_hal_pkt (rx_ring s)"
    "rx_next_to_clean (rx_ring s1) = rx_next_to_clean (rx_ring s)"
    "if rb_data (rx_buffer_info (rx_ring s) ! ?i) = None \<and> (e_frag e i = None \<or> e_map e i = None) then rc \<noteq> RcOk
     else rc = RcOk \<and> rb_data b \<noteq> None \<and> slot_ok cfg b"
    using alloc_rx_frag_ok [OF Suc.prems(1) _ free mt, where frag = "e_frag e i" and dma = "e_map e i"] val by auto
  define s2 where "s2 = set_rx_info ?i b s1"
  have s2: "rx_inv cfg h f {#} s2" "rx_io s2 = rx_io s" "rx_dma_q (rx_ring s2) = rx_dma_q (rx_ring s)" "rx_hal_pkt (rx_ring s2) = rx_hal_pkt (rx_ring s)"
    "rx_next_to_clean (rx_ring s2) = rx_next_to_clean (rx_ring s)" "rx_buffer_info (rx_ring s2) ! ?i = b"
    using al d(5) by (simp_all add: s2_def) (simp_all add: set_rx_info_def)
  have g: "\<not> length (rx_buffer_info (rx_ring s)) \<le> unat ntu" using Suc.prems(2) d(5) by simp
  show ?case
  proof (cases "rc = RcOk")
    case False
    then have "refill_loop cfg e (Suc n) i ntu s = Some (i, ntu, s2)"
      using al(1) g Suc.prems(2) by (simp add: s2_def)
    moreover have "\<not> (\<forall>x. e_frag e x \<noteq> None \<and> e_map e x \<noteq> None)" using False al(8) by (auto split: if_splits)
    ultimately show ?thesis using s2 Suc.prems(2) by (intro exI [of _ 0] exI [of _ ntu] exI [of _ s2]) simp
  next
    case True
    then have bd: "rb_data (rx_buffer_info (rx_ring s2) ! ?i) \<noteq> None" using al(8) s2(6) by (auto split: if_splits)
    have eq: "refill_loop cfg e (Suc n) i ntu s = do {
        (rc, q, mem) \<leftarrow> al_eth_rx_buffer_add (rx_udma cfg) (rb_buf b) AL_ETH_RX_FLAGS_INT None (rx_dma_q (rx_ring s2), rx_mem s2);
        let s = s2\<lparr>rx_ring := (rx_ring s2)\<lparr>rx_dma_q := q\<rparr>, rx_mem := mem\<rparr>;
        if rc \<noteq> RcOk then Some (i, ntu, s) else refill_loop cfg e n (Suc i) (AL_ETH_RX_RING_IDX_NEXT ntu) s }"
      using al(1) g Suc.prems(2) True by (simp add: s2_def Let_def)
    show ?thesis
    proof (cases "f = 1023")
      case full: True
      then have "refill_loop cfg e (Suc n) i ntu s = Some (i, ntu, s2)"
        using rx_core_post [OF s2(1) bd, of "rx_udma cfg", unfolded s2(6) if_P [OF full]] unfolding eq by (simp add: Let_def)
      then show ?thesis using s2 Suc.prems(2) full by (intro exI [of _ 0] exI [of _ ntu] exI [of _ s2]) simp
    next
      case nf: False
      obtain q' mem' where q': "al_eth_rx_buffer_add (rx_udma cfg) (rb_buf b) AL_ETH_RX_FLAGS_INT None (rx_dma_q (rx_ring s2), rx_mem s2) = Some (RcOk, q', mem')"
        "rx_core cfg h (Suc f) {#} q' (rx_buffer_info (rx_ring s2)) mem' (rx_log s2)" "q_regs q' = q_regs (rx_dma_q (rx_ring s2))"
        using rx_core_post [OF s2(1) bd, of "rx_udma cfg", unfolded s2(6) if_not_P [OF nf]] by blast
      define s3 where "s3 = s2\<lparr>rx_ring := (rx_ring s2)\<lparr>rx_dma_q := q'\<rparr>, rx_mem := mem'\<rparr>"
      have i3: "rx_inv cfg h (Suc f) {#} s3" using q'(2) by (simp add: s3_def)
      have n3: "unat (AL_ETH_RX_RING_IDX_NEXT ntu) = (h + Suc f) mod 1024" by (simp add: unat_rx_idx_next Suc.prems(2) mod_Suc_eq)
      obtain m ntu' s' where ih: "refill_loop cfg e n (Suc i) (AL_ETH_RX_RING_IDX_NEXT ntu) s3 = Some (Suc i + m, ntu', s')" "m \<le> n"
        "rx_inv cfg h (Suc f + m) {#} s'" "unat ntu' = (h + Suc f + m) mod 1024" "rx_io s' = rx_io s3" "q_regs (rx_dma_q (rx_ring s')) = q_regs (rx_dma_q (rx_ring s3))"
        "rx_hal_pkt (rx_ring s') = rx_hal_pkt (rx_ring s3)" "rx_next_to_clean (rx_ring s') = rx_next_to_clean (rx_ring s3)"
        "(\<forall>x. e_frag e x \<noteq> None \<and> e_map e x \<noteq> None) \<and> Suc f + n \<le> 1023 \<longrightarrow> m = n"
        using Suc.IH [OF i3 n3, of "Suc i"] by blast
      have "refill_loop cfg e (Suc n) i ntu s = Some (i + Suc m, ntu', s')" unfolding eq q'(1) using ih(1) by (simp add: s3_def)
      then show ?thesis using ih(2-) s2 q'(3) by (intro exI [of _ "Suc m"] exI [of _ ntu'] exI [of _ s']) (simp add: s3_def)
    qed
  qed
qed simp

subsection \<open>The operations keep the invariant\<close>

definition rx_ok :: "rx_cfg \<Rightarrow> nat \<Rightarrow> nat \<Rightarrow> rx_state \<Rightarrow> bool" where
  "rx_ok cfg h f s \<longleftrightarrow> rx_inv cfg h f {#} s \<and> unat (rx_next_to_clean (rx_ring s)) = h mod 1024 \<and>
     unat (rx_next_to_use (rx_ring s)) = (h + f) mod 1024 \<and> length (pkt_bufs (rx_hal_pkt (rx_ring s))) = 19"

text \<open>What the driver may expect of the kernel: new socket buffers are empty, page fragments have valid addresses.\<close>

definition env_ok :: "rx_cfg \<Rightarrow> rx_env \<Rightarrow> bool" where
  "env_ok cfg e \<longleftrightarrow> (\<forall>i skb. e_skb e i = Some skb \<longrightarrow> rskb_frags skb = []) \<and> (\<forall>i d. e_frag e i = Some d \<longrightarrow> virt_addr_valid cfg d)"

definition no_failures :: "rx_env \<Rightarrow> bool" where
  "no_failures e \<longleftrightarrow> (\<forall>i. e_skb e i \<noteq> None \<and> e_frag e i \<noteq> None \<and> e_map e i \<noteq> None)"

lemma refill_ok:
  assumes "rx_ok cfg h f s" "env_ok cfg e" "unat (mtu cfg) \<le> 9216"
  obtains m s' where "al_eth_refill_rx_bufs cfg e n s = Some (m, s')" "m \<le> n" "rx_ok cfg h (f + m) s'"
    "no_failures e \<Longrightarrow> f + n \<le> 1023 \<Longrightarrow> m = n"
    "rx_io s' = (if m = 0 then rx_io s else al_reg_write32_relaxed (rx_io s) (rings_reg (rx_dma_q (rx_ring s)) rings_drtp_inc) (of_nat m))"
    "rx_hal_pkt (rx_ring s') = rx_hal_pkt (rx_ring s)"
proof -
  have i: "rx_inv cfg h f {#} s" "unat (rx_next_to_use (rx_ring s)) = (h + f) mod 1024" using assms(1) by (simp_all add: rx_ok_def)
  have v: "\<forall>i d. e_frag e i = Some d \<longrightarrow> virt_addr_valid cfg d" using assms(2) by (simp add: env_ok_def)
  obtain m ntu' s1 where lp: "refill_loop cfg e n 0 (rx_next_to_use (rx_ring s)) s = Some (0 + m, ntu', s1)" "m \<le> n" "rx_inv cfg h (f + m) {#} s1"
    "unat ntu' = (h + f + m) mod 1024" "rx_io s1 = rx_io s" "q_regs (rx_dma_q (rx_ring s1)) = q_regs (rx_dma_q (rx_ring s))"
    "rx_hal_pkt (rx_ring s1) = rx_hal_pkt (rx_ring s)" "rx_next_to_clean (rx_ring s1) = rx_next_to_clean (rx_ring s)"
    "(\<forall>x. e_frag e x \<noteq> None \<and> e_map e x \<noteq> None) \<and> f + n \<le> 1023 \<longrightarrow> m = n"
    using refill_loop_ok [OF i assms(3) v, where n = n and i = 0] by blast
  define io where "io = (if m = 0 then rx_io s else al_reg_write32_relaxed (rx_io s) (rings_reg (rx_dma_q (rx_ring s)) rings_drtp_inc) (of_nat m))"
  define s2 where "s2 = s1\<lparr>rx_io := io\<rparr>"
  have m: "m \<le> 1023" using rx_coreD(8) [OF lp(3)] by simp
  have um: "unat (of_nat m :: u32) = m" using m by (simp add: unsigned_of_nat take_bit_nat_eq_self)
  have db: "al_eth_rx_buffer_action (rx_dma_q (rx_ring s1)) (of_nat m) (rx_io s1) =
      Some (al_reg_write32_relaxed (rx_io s) (rings_reg (rx_dma_q (rx_ring s)) rings_drtp_inc) (of_nat m))" if "m \<noteq> 0"
  proof -
    have "(0 :: u32) < of_nat m" "(of_nat m :: u32) \<le> 1024" using that m um by (simp_all add: word_less_nat_alt word_le_nat_alt)
    then show ?thesis by (simp add: al_eth_rx_buffer_action_def al_udma_desc_action_add_def rx_coreD(2) [OF lp(3)] rings_reg_def lp(5,6))
  qed
  show thesis
  proof (rule that)
    show "al_eth_refill_rx_bufs cfg e n s = Some (m, s2\<lparr>rx_ring := (rx_ring s2)\<lparr>rx_next_to_use := ntu'\<rparr>\<rparr>)"
    proof (cases "m = 0")
      case True
      then have "s2 = s1" using lp(5) by (simp add: s2_def io_def)
      then show ?thesis using lp(1) True by (simp add: al_eth_refill_rx_bufs_def)
    next
      case False
      then show ?thesis using lp(1) db by (simp add: al_eth_refill_rx_bufs_def s2_def io_def)
    qed
    show "rx_ok cfg h (f + m) (s2\<lparr>rx_ring := (rx_ring s2)\<lparr>rx_next_to_use := ntu'\<rparr>\<rparr>)"
      using assms(1) lp by (simp add: rx_ok_def s2_def add.assoc)
    show "m = n" if "no_failures e" "f + n \<le> 1023" using lp(9) that by (simp add: no_failures_def)
  qed (use lp(2,7) in \<open>simp_all add: s2_def io_def\<close>)
qed

lemma update_moderation_some:
  obtains md m' where "al_eth_update_intr_moderation plain_dev base tab qn AL_ETH_RX (r, m) = Some (md, m')"
proof -
  have c: "iofic_check (main_iofic base) AL_INT_GROUP_B = Some ()" by (simp add: iofic_check_def iofic_base_nonnull iofic_groups)
  have "al_eth_update_intr_moderation plain_dev base tab qn AL_ETH_RX (r, m) \<noteq> None"
    by (simp add: al_eth_update_intr_moderation_def al_iofic_msix_moder_interval_config_def c plain_dev_def Let_def)
  then show thesis using that by force
qed

lemma rx_poll_ok:
  fixes s :: rx_state
  assumes "rx_ok cfg h f s" "env_ok cfg e" "unat (mtu cfg) \<le> 9216"
    and "rx_stream cfg e (rx_dma_q (rx_ring s)) 0 h js" "descs_in js \<le> f"
  obtains w s' m r where "al_eth_rx_poll cfg e budget s = Some (w, s')" "m \<le> length js" "w \<le> m" "0 < budget \<Longrightarrow> m \<le> budget"
    "rx_ok cfg (h + descs_in (take m js)) (f - descs_in (take m js) + r) s'"
    "no_failures e \<Longrightarrow> 0 < budget \<Longrightarrow> w = min budget (length js) \<and> m = w \<and> f - descs_in (take m js) + r = 1023"
proof -
  let ?n = "if budget = 0 then 2 ^ 32 else budget :: nat" and ?t = "\<lparr>work_done = 0, total_len = 0, small_pkts = 0\<rparr>"
  have o: "rx_inv cfg h f {#} s" "length (pkt_bufs (rx_hal_pkt (rx_ring s))) = 19" "unat (rx_next_to_clean (rx_ring s)) = h mod 1024"
    "unat (rx_next_to_use (rx_ring s)) = (h + f) mod 1024"
    using assms(1) by (simp_all add: rx_ok_def)
  have fresh: "\<forall>i skb. e_skb e i = Some skb \<longrightarrow> rskb_frags skb = []" using assms(2) by (simp add: env_ok_def)
  obtain ntc t s1 m where lp: "rx_poll_loop cfg e ?n 0 (rx_next_to_clean (rx_ring s)) ?t s = Some (ntc, t, s1)" "m \<le> min ?n (length js)"
    "rx_inv cfg (h + descs_in (take m js)) (f - descs_in (take m js)) {#} s1" "unat ntc = (h + descs_in (take m js)) mod 1024" "rx_keeps s s1"
    "if \<exists>i. 0 \<le> i \<and> i < 0 + m \<and> e_skb e i = None then work_done t \<le> work_done ?t + m
     else m = min ?n (length js) \<and> work_done t = work_done ?t + m"
    using rx_poll_loop_ok [OF fresh o(1,2,3) assms(4,5), where n = ?n and t = ?t] by blast
  let ?D = "descs_in (take m js)"
  define h1 where "h1 = h + ?D"
  define f1 where "f1 = f - ?D"
  have "?D \<le> descs_in js" unfolding descs_in_def by (metis append_take_drop_id le_add1 map_append sum_list_append)
  then have hf: "h1 + f1 = h + f" using assms(5) by (simp add: h1_def f1_def)
  define s2 where "s2 = (let r = (rx_ring s1)\<lparr>rx_next_to_clean := ntc\<rparr>;
      r = r\<lparr>rx_stat_bytes := rx_stat_bytes r + ucast (total_len t), rx_stat_packets := rx_stat_packets r + of_nat (work_done t),
                    small_copy_len_pkt := small_copy_len_pkt r + ucast (small_pkts t)\<rparr> in s1\<lparr>rx_ring := r\<rparr>)"
  have k: "rx_next_to_use (rx_ring s1) = rx_next_to_use (rx_ring s)" "length (pkt_bufs (rx_hal_pkt (rx_ring s1))) = 19" using lp(5) by (simp_all add: rx_keeps_def)
  have ok2: "rx_ok cfg h1 f1 s2" using lp(3,4) k o(4) hf by (simp add: rx_ok_def s2_def h1_def [symmetric] f1_def [symmetric] Let_def)
  have q2: "rx_dma_q (rx_ring s2) = rx_dma_q (rx_ring s1)" by (simp add: s2_def Let_def)
  have av: "unat (al_udma_available_get (rx_dma_q (rx_ring s2))) = 1023 - f1" "f1 \<le> 1023"
    using available_unat [OF rx_coreD(9) [OF lp(3)]] rx_coreD(2,3,8) [OF lp(3)] by (simp_all add: q2 f1_def)
  obtain r s3 where r: "al_eth_refill_rx_bufs cfg e (1023 - f1) s2 = Some (r, s3)" "r \<le> 1023 - f1" "rx_ok cfg h1 (f1 + r) s3"
    "no_failures e \<Longrightarrow> f1 + (1023 - f1) \<le> 1023 \<Longrightarrow> r = 1023 - f1"
    using refill_ok [OF ok2 assms(2,3), of "1023 - f1"] by blast
  have ev: "rx_ok cfg h1 (f1 + r) (rx_emit [x] s3)" if "neutral x" for x using r(3) that by (simp add: rx_ok_def rx_core_neutral)
  have "al_eth_rx_poll cfg e budget s = do {
      (refill_actual, s) \<leftarrow> Some (r, s3);
      if refill_actual < 1023 - f1 then Some (work_done t, rx_emit [NapiSchedule] s)
      else if work_done t < budget then do {
        let s = rx_emit [NapiComplete] s;
        (md, m) \<leftarrow> (if rx_adaptive cfg
           then al_eth_update_intr_moderation plain_dev (rx_udma_base cfg) (rx_moder_table cfg) (rxq_id cfg) AL_ETH_RX (rx_moder (rx_ring s), rx_io s)
           else Some (rx_moder (rx_ring s), rx_io s));
        let s = s\<lparr>rx_ring := (rx_ring s)\<lparr>rx_moder := md\<rparr>, rx_io := m\<rparr>;
        Some (work_done t, s\<lparr>rx_io := al_reg_write32_relaxed (rx_io s) (rx_unmask_reg_offset (rx_ring s)) (rx_unmask_val (rx_ring s))\<rparr>) }
      else Some (work_done t, s) }"
    unfolding al_eth_rx_poll_def lp(1) r(1) [symmetric] av(1) [symmetric] s2_def by (simp add: Let_def)
  moreover obtain md io where "al_eth_update_intr_moderation plain_dev (rx_udma_base cfg) (rx_moder_table cfg) (rxq_id cfg) AL_ETH_RX (rx_moder (rx_ring s3), rx_io s3) = Some (md, io)"
    using update_moderation_some by blast
  ultimately obtain s4 where s4: "al_eth_rx_poll cfg e budget s = Some (work_done t, s4)" "rx_ok cfg h1 (f1 + r) s4"
    using r(3) ev [of NapiSchedule] ev [of NapiComplete] that
    by (cases "r < 1023 - f1"; cases "work_done t < budget"; cases "rx_adaptive cfg") (auto simp: rx_ok_def Let_def)
  show thesis
  proof (rule that [OF s4(1)])
    show "rx_ok cfg (h + ?D) (f - ?D + r) s4" using s4(2) by (simp add: h1_def f1_def)
    show "work_done t = min budget (length js) \<and> m = work_done t \<and> f - ?D + r = 1023" if "no_failures e" "0 < budget"
    proof -
      have n: "\<not> (\<exists>i. 0 \<le> i \<and> i < 0 + m \<and> e_skb e i = None)" using that(1) by (simp add: no_failures_def)
      show ?thesis using lp(6) [unfolded if_not_P [OF n]] r(4) that av(2) by (simp add: f1_def)
    qed
  qed (use lp(2,6) in \<open>auto split: if_splits\<close>)
qed

end
