(* ===== verification/Eth_Rx_Props.thy ===== *)
theory Eth_Rx_Props
  imports Eth_Rx_Ring
begin

text \<open>
  Properties of the receive path: the release of the buffers, histories of a queue and their accounting, what a poll does, the contents of received packets, the shape
  of the ring, and a defect on the path without socket buffers.
\<close>

subsection \<open>Releasing the buffers\<close>

definition rx_released :: "rx_cfg \<Rightarrow> rx_state \<Rightarrow> rx_state \<Rightarrow> bool" where
  "rx_released cfg s s' \<longleftrightarrow>
     total_of ev_maps (rx_log s') = total_of ev_maps (rx_log s) \<and> total_of (ev_allocs cfg) (rx_log s') = total_of (ev_allocs cfg) (rx_log s) \<and>
     total_of ev_given (rx_log s') = total_of ev_given (rx_log s) \<and>
     total_of ev_unmaps (rx_log s') + total_of slot_map (rx_buffer_info (rx_ring s')) = total_of ev_unmaps (rx_log s) + total_of slot_map (rx_buffer_info (rx_ring s)) \<and>
     total_of ev_puts (rx_log s') + total_of slot_page (rx_buffer_info (rx_ring s')) = total_of ev_puts (rx_log s) + total_of slot_page (rx_buffer_info (rx_ring s)) \<and>
     length (rx_buffer_info (rx_ring s')) = length (rx_buffer_info (rx_ring s)) \<and>
     (\<forall>i. rb_data (rx_buffer_info (rx_ring s) ! i) = None \<longrightarrow> rb_data (rx_buffer_info (rx_ring s') ! i) = None)"

lemma rx_released_refl: "rx_released cfg s s"
  by (simp add: rx_released_def)

lemma rx_released_trans: "rx_released cfg s s1 \<Longrightarrow> rx_released cfg s1 s2 \<Longrightarrow> rx_released cfg s s2"
  by (simp add: rx_released_def)

lemma free_one_slot:
  assumes "i < length (rx_buffer_info (rx_ring s))" "slot_ok cfg (rx_buffer_info (rx_ring s) ! i)"
    and "al_eth_free_rx_frag cfg (rx_buffer_info (rx_ring s) ! i) s = (b, s1)"
  shows "rx_released cfg s (set_rx_info i b s1)" "rb_data b = None" "rx_buffer_info (rx_ring s1) = rx_buffer_info (rx_ring s)"
proof -
  let ?info = "rx_buffer_info (rx_ring s)"
  note up = total_update [OF assms(1), of slot_map b] total_update [OF assms(1), of slot_page b]
  have "rx_released cfg s (set_rx_info i b s1) \<and> rb_data b = None \<and> rx_buffer_info (rx_ring s1) = ?info"
  proof (cases "rb_data (?info ! i)")
    case None
    then have "b = ?info ! i" "s1 = s" using assms(3) by (auto simp: al_eth_free_rx_frag_def)
    then show ?thesis using None by (simp add: rx_released_def)
  next
    case (Some d)
    then have b: "b = (?info ! i)\<lparr>rb_data := None\<rparr>" "s1 = rx_emit [RxUnmap (rb_dma (?info ! i)) (rb_data_size (?info ! i)), PutPage (rb_page (?info ! i))] s"
      using assms(2,3) by (auto simp: al_eth_free_rx_frag_def slot_ok_def)
    then have "total_of slot_map (?info[i := b]) + {#(rb_dma (?info ! i), rb_data_size (?info ! i))#} = total_of slot_map ?info"
      "total_of slot_page (?info[i := b]) + {#rb_page (?info ! i)#} = total_of slot_page ?info"
      using up Some by (simp_all add: slot_map_def slot_page_def)
    moreover have "rb_data (?info[i := b] ! k) = None" if "rb_data (?info ! k) = None" for k
      using that assms(1) by (cases "k = i") (simp_all add: b(1))
    ultimately show ?thesis by (simp add: b(2) rx_released_def ac_simps) (simp add: b(1))
  qed
  then show "rx_released cfg s (set_rx_info i b s1)" "rb_data b = None" "rx_buffer_info (rx_ring s1) = rx_buffer_info (rx_ring s)" by simp_all
qed

lemma free_loop_ok:
  assumes "\<forall>b \<in> set (rx_buffer_info (rx_ring s)). slot_ok cfg b" "\<forall>i \<in> set is. i < length (rx_buffer_info (rx_ring s))"
  shows "\<exists>s'. free_rx_bufs_loop cfg is s = Some s' \<and> rx_released cfg s s' \<and> (\<forall>i \<in> set is. rb_data (rx_buffer_info (rx_ring s') ! i) = None)"
  using assms
proof (induction "is" arbitrary: s)
  case Nil
  then show ?case by (simp add: rx_released_refl)
next
  case (Cons i "is")
  let ?info = "rx_buffer_info (rx_ring s)"
  obtain b s1 where f: "al_eth_free_rx_frag cfg (?info ! i) s = (b, s1)" by force
  have i: "i < length ?info" "slot_ok cfg (?info ! i)" using Cons.prems by simp_all
  note o = free_one_slot [OF i f]
  let ?s = "set_rx_info i b s1"
  have st: "free_rx_bufs_loop cfg (i # is) s = free_rx_bufs_loop cfg is ?s"
  proof (cases "rb_data (?info ! i) = None")
    case True
    then have "?s = s" using f by (auto simp: al_eth_free_rx_frag_def set_rx_info_def)
    then show ?thesis using True i(1) by simp
  next
    case False
    then show ?thesis using f i(1) by (simp add: Let_def)
  qed
  have "\<forall>x \<in> set (rx_buffer_info (rx_ring ?s)). slot_ok cfg x"
    using Cons.prems(1) set_update_subset_insert [of ?info i b] o(2,3) by (auto simp: slot_ok_def)
  then obtain s' where s': "free_rx_bufs_loop cfg is ?s = Some s'" "rx_released cfg ?s s'" "\<forall>i \<in> set is. rb_data (rx_buffer_info (rx_ring s') ! i) = None"
    using Cons.IH [of ?s] Cons.prems(2) o(3) by auto
  have "rb_data (rx_buffer_info (rx_ring ?s) ! i) = None" using o(2,3) i(1) by simp
  then have "rb_data (rx_buffer_info (rx_ring s') ! i) = None" using s'(2) unfolding rx_released_def by blast
  then show ?case unfolding st using s' rx_released_trans [OF o(1) s'(2)] by simp
qed

lemma no_data_totals:
  assumes "\<forall>b \<in> set info. rb_data b = None"
  shows "total_of slot_map info = {#}" "total_of slot_page info = {#}"
  using assms by (induction info) (simp_all add: slot_map_def slot_page_def)

lemma free_rx_bufs_released:
  assumes "length (rx_buffer_info (rx_ring s)) = 1024" "\<forall>b \<in> set (rx_buffer_info (rx_ring s)). slot_ok cfg b"
  obtains s' where "al_eth_free_rx_bufs cfg s = Some s'" "rx_released cfg s s'"
    "total_of slot_map (rx_buffer_info (rx_ring s')) = {#}" "total_of slot_page (rx_buffer_info (rx_ring s')) = {#}"
proof -
  obtain s' where s': "al_eth_free_rx_bufs cfg s = Some s'" "rx_released cfg s s'" "\<forall>i \<in> set [0..<1024]. rb_data (rx_buffer_info (rx_ring s') ! i) = None"
    using free_loop_ok [OF assms(2), of "[0..<1024]"] assms(1) by (auto simp: al_eth_free_rx_bufs_def AL_ETH_DEFAULT_RX_DESCS_def)
  have "length (rx_buffer_info (rx_ring s')) = 1024" using s'(2) assms(1) by (simp add: rx_released_def)
  then have "\<forall>b \<in> set (rx_buffer_info (rx_ring s')). rb_data b = None" using s'(3) by (metis in_set_conv_nth atLeast0LessThan lessThan_iff set_upt)
  then show thesis using that [OF s'(1,2)] no_data_totals by blast
qed

lemma free_rx_bufs_ok:
  assumes "rx_inv cfg h f {#} s"
  obtains s' where "al_eth_free_rx_bufs cfg s = Some s'" "total_of ev_maps (rx_log s') = total_of ev_unmaps (rx_log s')"
    "total_of (ev_allocs cfg) (rx_log s') = total_of ev_puts (rx_log s') + total_of ev_given (rx_log s')"
proof -
  have l: "length (rx_buffer_info (rx_ring s)) = 1024" "\<forall>b \<in> set (rx_buffer_info (rx_ring s)). slot_ok cfg b"
    using assms by (simp_all add: rx_core_def)
  obtain s' where s': "al_eth_free_rx_bufs cfg s = Some s'" "rx_released cfg s s'"
    "total_of slot_map (rx_buffer_info (rx_ring s')) = {#}" "total_of slot_page (rx_buffer_info (rx_ring s')) = {#}"
    using free_rx_bufs_released [OF l] by blast
  then show thesis using that [OF s'(1)] assms by (simp add: rx_released_def rx_core_def)
qed

subsection \<open>Histories of a receive queue\<close>

text \<open>A queue as the driver sets it up: no buffers, the indices at the start.\<close>

definition rx_fresh :: "rx_state \<Rightarrow> bool" where
  "rx_fresh s \<longleftrightarrow> comp_synced (rx_dma_q (rx_ring s)) 0 \<and> q_size (rx_dma_q (rx_ring s)) = 1024 \<and> udma_in_flight (rx_dma_q (rx_ring s)) = 0 \<and>
     udma_submitted (rx_dma_q (rx_ring s)) 0 \<and> length (rx_buffer_info (rx_ring s)) = 1024 \<and> (\<forall>b \<in> set (rx_buffer_info (rx_ring s)). rb_data b = None) \<and>
     rx_next_to_clean (rx_ring s) = 0 \<and> rx_next_to_use (rx_ring s) = 0 \<and> length (pkt_bufs (rx_hal_pkt (rx_ring s))) = 19 \<and> rx_log s = []"

text \<open>
  Refills and polls in any order, with any failures of the allocations and any packets in the completion ring; the hardware may write to the memory of
  the buffers at any time.  \<open>h\<close> counts the completions that were handled.
\<close>

inductive rx_run :: "rx_cfg \<Rightarrow> rx_state \<Rightarrow> nat \<Rightarrow> bool" where
  fresh: "rx_fresh s \<Longrightarrow> rx_run cfg s 0"
| hw_write: "rx_run cfg s h \<Longrightarrow> rx_run cfg (s\<lparr>rx_pmem := pm\<rparr>) h"
| refill: "rx_run cfg s h \<Longrightarrow> env_ok cfg e \<Longrightarrow> al_eth_refill_rx_bufs cfg e n s = Some (m, s') \<Longrightarrow> rx_run cfg s' h"
| poll: "rx_run cfg s h \<Longrightarrow> env_ok cfg e \<Longrightarrow> rx_stream cfg e (rx_dma_q (rx_ring s)) 0 h js \<Longrightarrow> descs_in js \<le> udma_in_flight (rx_dma_q (rx_ring s)) \<Longrightarrow>
    al_eth_rx_poll cfg e budget s = Some (w, s') \<Longrightarrow>
    rx_run cfg s' (h + (unat (rx_next_to_clean (rx_ring s')) + 1024 - unat (rx_next_to_clean (rx_ring s))) mod 1024)"

lemma fresh_rx_ok: "rx_fresh s \<Longrightarrow> rx_ok cfg 0 0 s"
proof -
  assume a: "rx_fresh s"
  then have n: "\<forall>b \<in> set (rx_buffer_info (rx_ring s)). rb_data b = None" by (simp add: rx_fresh_def)
  note no_data_totals [OF n]
  moreover have "\<forall>b \<in> set (rx_buffer_info (rx_ring s)). slot_ok cfg b" using n by (simp add: slot_ok_def)
  ultimately show ?thesis using a by (simp add: rx_ok_def rx_core_def rx_fresh_def)
qed

lemma clean_steps:
  fixes h d c c' :: nat
  assumes "c' = (h + d) mod 1024" "c = h mod 1024" "d < 1024"
  shows "(c' + 1024 - c) mod 1024 = d"
proof -
  have "c < 1024" using assms(2) by simp
  then have "(c' + 1024 - c) mod 1024 + c = d + c \<or> ((c' + 1024 - c) mod 1024 + c) mod 1024 = (d + c) mod 1024 "
    using assms by (simp add: mod_simps ac_simps)
  then show ?thesis using mod_add_eq_imp_eq [of c "(c' + 1024 - c) mod 1024" 1024 d] assms(3) by (auto simp: ac_simps)
qed

lemma rx_ok_in_flight: "rx_ok cfg h f s \<Longrightarrow> udma_in_flight (rx_dma_q (rx_ring s)) = f"
  by (simp add: rx_ok_def rx_core_def)

lemma descs_in_take: "descs_in (take m js) \<le> descs_in js"
  unfolding descs_in_def by (metis append_take_drop_id le_add1 map_append sum_list_append)

lemma rx_run_ok:
  assumes "rx_run cfg s h" "unat (mtu cfg) \<le> 9216"
  shows "rx_ok cfg h (udma_in_flight (rx_dma_q (rx_ring s))) s"
  using assms
proof (induction rule: rx_run.induct)
  case (fresh s cfg)
  then show ?case using fresh_rx_ok [of s cfg] rx_ok_in_flight by fastforce
next
  case (hw_write cfg s h pm)
  then show ?case by (simp add: rx_ok_def)
next
  case (refill cfg s h e n m s')
  then show ?case using refill_ok [of cfg h _ s e n] rx_ok_in_flight by (metis Pair_inject option.inject)
next
  case (poll cfg s h e js budget w s')
  let ?f = "udma_in_flight (rx_dma_q (rx_ring s))"
  have ok: "rx_ok cfg h ?f s" using poll.IH poll.prems by simp
  obtain m r where m: "rx_ok cfg (h + descs_in (take m js)) (?f - descs_in (take m js) + r) s'"
    using rx_poll_ok [OF ok poll.hyps(2) poll.prems poll.hyps(3,4), of budget] poll.hyps(5) by (metis Pair_inject option.inject)
  have "?f \<le> 1023" using ok rx_coreD(8) by (auto simp: rx_ok_def)
  then have d: "descs_in (take m js) < 1024" using poll.hyps(4) descs_in_take [of m js] by linarith
  have "(unat (rx_next_to_clean (rx_ring s')) + 1024 - unat (rx_next_to_clean (rx_ring s))) mod 1024 = descs_in (take m js)"
    using ok m by (intro clean_steps [where h = h] d) (simp_all add: rx_ok_def)
  then show ?case using m rx_ok_in_flight [OF m] by simp
qed

subsection \<open>Contents of received packets\<close>

definition frag_bytes :: "rx_cfg \<Rightarrow> (ptr \<Rightarrow> u8) \<Rightarrow> ptr \<times> nat \<times> u32 \<Rightarrow> u8 list" where
  "frag_bytes cfg pm = (\<lambda>(page, off, len). map pm [page_address cfg page + off..<page_address cfg page + off + unat len])"

text \<open>What the hardware wrote to slot number \<open>k\<close>.\<close>

definition buf_start :: "rx_cfg \<Rightarrow> al_eth_rx_buffer list \<Rightarrow> nat \<Rightarrow> ptr" where
  "buf_start cfg info k = the (rb_data (info ! (k mod 1024))) + rx_offset cfg"

definition buf_bytes :: "rx_cfg \<Rightarrow> (ptr \<Rightarrow> u8) \<Rightarrow> al_eth_rx_buffer list \<Rightarrow> nat \<Rightarrow> u32 \<Rightarrow> u8 list" where
  "buf_bytes cfg pm info k len = map pm [buf_start cfg info k..<buf_start cfg info k + unat len]"

definition frame_bytes :: "rx_cfg \<Rightarrow> (ptr \<Rightarrow> u8) \<Rightarrow> al_eth_rx_buffer list \<Rightarrow> nat \<Rightarrow> u32 list \<Rightarrow> u8 list" where
  "frame_bytes cfg pm info c lens = concat (map2 (buf_bytes cfg pm info) [c..<c + length lens] lens)"

definition frame_tagged :: "rx_cfg \<Rightarrow> u8 list \<Rightarrow> bool" where
  "frame_tagged cfg F \<longleftrightarrow> feature_vlan_rx cfg \<and> F ! 12 = 0x81 \<and> F ! 13 = 0x00"

definition frame_tci :: "u8 list \<Rightarrow> u16" where
  "frame_tci F = push_bit 8 (ucast (F ! 14)) OR ucast (F ! 15)"

definition untag :: "rx_cfg \<Rightarrow> u8 list \<Rightarrow> u8 list" where
  "untag cfg F = (if frame_tagged cfg F then take 12 F @ drop 16 F else F)"

lemma frag_bytes_slot:
  assumes "slot_ok cfg (info ! (k mod 1024))" "rb_data (info ! (k mod 1024)) \<noteq> None" "\<forall>d. page_address cfg (head_page cfg d) \<le> d"
  shows "page_address cfg (rb_page (info ! (k mod 1024))) + (rb_page_offset (info ! (k mod 1024)) + rx_offset cfg) = buf_start cfg info k"
    "frag_bytes cfg pm (slot_frag cfg info k len) = buf_bytes cfg pm info k len"
proof -
  show e: "page_address cfg (rb_page (info ! (k mod 1024))) + (rb_page_offset (info ! (k mod 1024)) + rx_offset cfg) = buf_start cfg info k"
    using assms by (auto simp: slot_ok_def buf_start_def)
  show "frag_bytes cfg pm (slot_frag cfg info k len) = buf_bytes cfg pm info k len"
    by (simp add: frag_bytes_def slot_frag_def buf_bytes_def e)
qed

lemma memmove_untag:
  assumes "16 \<le> n"
  shows "map (memmove (va + 4) va 12 pm) [va + 4..<va + n] = take 12 (map pm [va..<va + n]) @ drop 16 (map pm [va..<va + n])"
proof (rule nth_equalityI)
  show "length (map (memmove (va + 4) va 12 pm) [va + 4..<va + n]) = length (take 12 (map pm [va..<va + n]) @ drop 16 (map pm [va..<va + n]))"
    using assms by simp
next
  fix i assume "i < length (map (memmove (va + 4) va 12 pm) [va + 4..<va + n])"
  then show "map (memmove (va + 4) va 12 pm) [va + 4..<va + n] ! i = (take 12 (map pm [va..<va + n]) @ drop 16 (map pm [va..<va + n])) ! i"
    using assms by (simp add: nth_append memmove_def ac_simps)
qed

lemma rx_skb_loop_rest:
  "rx_skb_loop cfg lens skb ntc s = Some (skb', ntc', s') \<Longrightarrow>
    rx_pmem s' = rx_pmem s \<and> rskb_vlan skb' = rskb_vlan skb \<and> rskb_len skb' = rskb_len skb + sum_list lens"
proof (induction lens arbitrary: skb ntc s)
  case (Cons len lens)
  then obtain skb1 s1 n1 where "rx_skb_loop cfg lens skb1 n1 s1 = Some (skb', ntc', s')" "rskb_vlan skb1 = rskb_vlan skb" "rskb_len skb1 = rskb_len skb + len"
    "rx_pmem s1 = rx_pmem s"
    by (auto simp: Let_def add_frag_def split: if_splits bind_splits)
  then show ?case using Cons.IH by fastforce
qed simp

lemma rx_skb_large_rest:
  assumes "al_eth_rx_skb cfg tt (Some skb) pkt descs ntc s = Some (Some skb', ntc', s')" "small_copy_len cfg < buf_len (pkt_bufs pkt ! 0)"
    and "rskb_frags skb = []" "rb_data (rx_buffer_info (rx_ring s) ! unat ntc) = Some x"
  defines "va \<equiv> x + rx_offset cfg" and "lens \<equiv> map buf_len (drop 1 (take (unat descs) (pkt_bufs pkt)))"
  shows "rx_pmem s' = (if vlan_tagged cfg (rx_pmem s) va then memmove (va + 4) va 12 (rx_pmem s) else rx_pmem s)"
    "rskb_vlan skb' = (if vlan_tagged cfg (rx_pmem s) va then Some (push_bit 8 (ucast (rx_pmem s (va + 14))) OR ucast (rx_pmem s (va + 15))) else rskb_vlan skb)"
    "rskb_len skb' = rskb_len skb + buf_len (pkt_bufs pkt ! 0) - (if vlan_tagged cfg (rx_pmem s) va then 4 else 0) + sum_list lens"
proof -
  let ?l = "buf_len (pkt_bufs pkt ! 0)"
  obtain skb1 where v: "add_frag (rb_page (rx_buffer_info (rx_ring s) ! unat ntc)) (rb_page_offset (rx_buffer_info (rx_ring s) ! unat ntc) + rx_offset cfg) ?l ?l skb = Some skb1"
    "rskb_vlan skb1 = rskb_vlan skb" "rskb_len skb1 = rskb_len skb + ?l"
    using assms(3) by (simp add: add_frag_def MAX_SKB_FRAGS_def)
  have vl: "snd (al_eth_vlan_rx_frag cfg skb1 va (rx_pmem s)) = (if vlan_tagged cfg (rx_pmem s) va then memmove (va + 4) va 12 (rx_pmem s) else rx_pmem s)"
    "rskb_vlan (fst (al_eth_vlan_rx_frag cfg skb1 va (rx_pmem s))) =
      (if vlan_tagged cfg (rx_pmem s) va then Some (push_bit 8 (ucast (rx_pmem s (va + 14))) OR ucast (rx_pmem s (va + 15))) else rskb_vlan skb)"
    "rskb_len (fst (al_eth_vlan_rx_frag cfg skb1 va (rx_pmem s))) = rskb_len skb + ?l - (if vlan_tagged cfg (rx_pmem s) va then 4 else 0)"
    using v(2,3) by (simp_all add: al_eth_vlan_rx_frag_def al_eth_vlan_hwaccel_check_and_put_def vlan_tagged_def VLAN_HLEN_def ETH_ALEN_def)
  obtain n1 s1 where lp: "rx_skb_loop cfg lens (fst (al_eth_vlan_rx_frag cfg skb1 va (rx_pmem s))) n1 s1 = Some (skb', ntc', s')"
    "rx_pmem s1 = snd (al_eth_vlan_rx_frag cfg skb1 va (rx_pmem s))"
    using assms(1,2,4) v(1) by (auto simp: al_eth_rx_skb_def Let_def not_le va_def lens_def split_def split: if_splits bind_splits)
  show "rx_pmem s' = (if vlan_tagged cfg (rx_pmem s) va then memmove (va + 4) va 12 (rx_pmem s) else rx_pmem s)"
    "rskb_vlan skb' = (if vlan_tagged cfg (rx_pmem s) va then Some (push_bit 8 (ucast (rx_pmem s (va + 14))) OR ucast (rx_pmem s (va + 15))) else rskb_vlan skb)"
    "rskb_len skb' = rskb_len skb + ?l - (if vlan_tagged cfg (rx_pmem s) va then 4 else 0) + sum_list lens"
    using rx_skb_loop_rest [OF lp(1)] by (simp_all only: lp(2) vl)
qed

text \<open>
  The buffers of a packet in memory: page addresses are not above the addresses in the page, the received bytes of the further buffers do not overlap the
  header of the frame, and the first buffer holds a complete tagged header.
\<close>

definition rx_placed :: "rx_cfg \<Rightarrow> al_eth_rx_buffer list \<Rightarrow> nat \<Rightarrow> u32 list \<Rightarrow> bool" where
  "rx_placed cfg info c lens \<longleftrightarrow> (\<forall>d. page_address cfg (head_page cfg d) \<le> d) \<and> 16 \<le> unat (hd lens) \<and>
     (\<forall>i a. 0 < i \<and> i < length lens \<and> buf_start cfg info (c + i) \<le> a \<and> a < buf_start cfg info (c + i) + unat (lens ! i) \<longrightarrow>
        a < buf_start cfg info c \<or> buf_start cfg info c + 16 \<le> a)"

lemma frame_bytes_Cons:
  "frame_bytes cfg pm info c (l # ls) = buf_bytes cfg pm info c l @ concat (map2 (buf_bytes cfg pm info) [Suc c..<c + Suc (length ls)] ls)"
proof -
  have "[c..<c + Suc (length ls)] = c # [Suc c..<c + Suc (length ls)]" by (rule upt_conv_Cons) simp
  then show ?thesis by (simp add: frame_bytes_def del: upt_Suc)
qed

lemma frame_header:
  assumes "16 \<le> unat l" "i < 16"
  shows "frame_bytes cfg pm info c (l # ls) ! i = pm (buf_start cfg info c + i)"
  using assms by (simp add: frame_bytes_Cons buf_bytes_def nth_append)

lemma frame_tagged_eq:
  assumes "16 \<le> unat l"
  shows "frame_tagged cfg (frame_bytes cfg pm info c (l # ls)) = vlan_tagged cfg pm (buf_start cfg info c)"
    "frame_tci (frame_bytes cfg pm info c (l # ls)) = push_bit 8 (ucast (pm (buf_start cfg info c + 14))) OR ucast (pm (buf_start cfg info c + 15))"
  by (simp_all add: frame_tagged_def vlan_tagged_def frame_tci_def frame_header [OF assms])

lemma frags_contents:
  fixes pm :: "ptr \<Rightarrow> u8"
  assumes slots: "\<forall>k. c \<le> k \<and> k < c + Suc (length ls) \<longrightarrow> slot_ok cfg (info ! (k mod 1024)) \<and> rb_data (info ! (k mod 1024)) \<noteq> None"
    and pl: "rx_placed cfg info c (l # ls)"
  defines "va \<equiv> buf_start cfg info c"
  defines "pm' \<equiv> if vlan_tagged cfg pm va then memmove (va + 4) va 12 pm else pm"
  shows "concat (map (frag_bytes cfg pm') (first_frag cfg pm va (slot_frag cfg info c l) # map2 (slot_frag cfg info) [Suc c..<c + Suc (length ls)] ls)) =
    untag cfg (frame_bytes cfg pm info c (l # ls))"
proof -
  have pa: "\<forall>d. page_address cfg (head_page cfg d) \<le> d" and l16: "16 \<le> unat l" using pl by (simp_all add: rx_placed_def)
  note fb = frag_bytes_slot [OF _ _ pa]
  have c0: "slot_ok cfg (info ! (c mod 1024))" "rb_data (info ! (c mod 1024)) \<noteq> None" using slots by simp_all
  let ?T = "concat (map2 (buf_bytes cfg pm info) [Suc c..<c + Suc (length ls)] ls)"
  have F: "frame_bytes cfg pm info c (l # ls) = map pm [va..<va + unat l] @ ?T"
    by (simp add: frame_bytes_Cons buf_bytes_def va_def del: upt_Suc)
  have rest: "map (frag_bytes cfg pm') (map2 (slot_frag cfg info) [Suc c..<c + Suc (length ls)] ls) = map2 (buf_bytes cfg pm info) [Suc c..<c + Suc (length ls)] ls"
  proof (rule nth_equalityI)
    fix i assume "i < length (map (frag_bytes cfg pm') (map2 (slot_frag cfg info) [Suc c..<c + Suc (length ls)] ls))"
    then have i: "i < length ls" by simp
    have same: "pm' a = pm a" if "buf_start cfg info (Suc (c + i)) \<le> a" "a < buf_start cfg info (Suc (c + i)) + unat (ls ! i)" for a
    proof -
      have "a < va \<or> va + 16 \<le> a" using pl i that unfolding rx_placed_def va_def by (elim conjE allE [of _ "Suc i"] allE [of _ a]) simp
      then show ?thesis by (auto simp: pm'_def memmove_def)
    qed
    have "buf_bytes cfg pm' info (Suc (c + i)) (ls ! i) = buf_bytes cfg pm info (Suc (c + i)) (ls ! i)" unfolding buf_bytes_def using same by simp
    then show "map (frag_bytes cfg pm') (map2 (slot_frag cfg info) [Suc c..<c + Suc (length ls)] ls) ! i = map2 (buf_bytes cfg pm info) [Suc c..<c + Suc (length ls)] ls ! i"
      using i slots fb(2) [of info "Suc (c + i)"] by (simp del: upt_Suc)
  qed simp
  have first: "frag_bytes cfg pm' (first_frag cfg pm va (slot_frag cfg info c l)) =
      (if vlan_tagged cfg pm va then take 12 (map pm [va..<va + unat l]) @ drop 16 (map pm [va..<va + unat l]) else map pm [va..<va + unat l])"
  proof (cases "vlan_tagged cfg pm va")
    case True
    have "4 \<le> l" using l16 by (simp add: word_le_nat_alt)
    then have n: "unat (l - 4) = unat l - 4" by (simp add: unat_sub)
    define B where "B = page_address cfg (rb_page (info ! (c mod 1024))) + (rb_page_offset (info ! (c mod 1024)) + rx_offset cfg + 4)"
    have B: "B = va + 4" using fb(1) [OF c0] by (simp add: va_def B_def)
    have "frag_bytes cfg pm' (first_frag cfg pm va (slot_frag cfg info c l)) = map pm' [B..<B + unat (l - 4)]"
      using True by (simp add: frag_bytes_def first_frag_def slot_frag_def B_def)
    then have "frag_bytes cfg pm' (first_frag cfg pm va (slot_frag cfg info c l)) = map pm' [va + 4..<va + unat l]"
      using l16 unfolding B n by simp
    then show ?thesis using True memmove_untag [OF l16, of va pm] by (simp add: pm'_def)
  next
    case False
    then show ?thesis using fb(2) [OF c0, of pm l] by (simp add: first_frag_def slot_frag_def buf_bytes_def va_def pm'_def)
  qed
  have t: "frame_tagged cfg (map pm [va..<va + unat l] @ ?T) = vlan_tagged cfg pm va"
    using frame_tagged_eq(1) [OF l16, of cfg pm info c ls] unfolding F va_def .
  show ?thesis unfolding list.map concat.simps rest first untag_def F t using l16 by (simp del: upt_Suc)
qed

text \<open>A packet whose buffers are passed on: what the network stack reads from the fragments is the frame, without its tag.\<close>

lemma rx_large_contents:
  fixes s :: rx_state and pkt :: al_eth_pkt
  assumes "rx_arrived cfg c j f pkt s" "unat ntc = c mod 1024" "small_copy_len cfg < buf_len (pkt_bufs pkt ! 0)" "rskb_frags skb = []"
  defines "info \<equiv> rx_buffer_info (rx_ring s)" and "lens \<equiv> map buf_len (take (Suc j) (pkt_bufs pkt))"
  defines "F \<equiv> frame_bytes cfg (rx_pmem s) info c lens"
  assumes pl: "rx_placed cfg info c lens"
  shows "\<exists>skb' ntc' s'. al_eth_rx_skb cfg tt (Some skb) pkt (of_nat (Suc j)) ntc s = Some (Some skb', ntc', s') \<and>
    rx_inv cfg (c + Suc j) f (skb_pages skb') s' \<and> unat ntc' = (c + Suc j) mod 1024 \<and>
    concat (map (frag_bytes cfg (rx_pmem s')) (rskb_frags skb')) = untag cfg F \<and>
    rskb_vlan skb' = (if frame_tagged cfg F then Some (frame_tci F) else rskb_vlan skb)"
proof -
  let ?l = "buf_len (pkt_bufs pkt ! 0)" and ?ls = "tl lens"
  have inv: "rx_inv cfg (c + Suc j) f {#} s" and sz: "length (pkt_bufs pkt) = 19" "j < 17"
    and dat: "\<And>k. c \<le> k \<Longrightarrow> k \<le> c + j \<Longrightarrow> rb_data (info ! (k mod 1024)) \<noteq> None"
    using assms(1) by (auto simp: rx_arrived_def info_def)
  have ls: "lens = ?l # ?ls" "length ?ls = j" "hd lens = ?l" using sz unfolding lens_def by (cases "pkt_bufs pkt"; simp)+
  obtain x where x: "rb_data (info ! (c mod 1024)) = Some x" using dat [of c] by auto
  have va: "the (rb_data (info ! (c mod 1024))) + rx_offset cfg = buf_start cfg info c" by (simp add: buf_start_def)
  obtain skb' ntc' s' where r: "al_eth_rx_skb cfg tt (Some skb) pkt (of_nat (Suc j)) ntc s = Some (Some skb', ntc', s')"
    "rx_inv cfg (c + Suc j) f (skb_pages skb') s'" "unat ntc' = (c + Suc j) mod 1024"
    "rskb_frags skb' = first_frag cfg (rx_pmem s) (buf_start cfg info c) (slot_frag cfg info c ?l) # map2 (slot_frag cfg info) [Suc c..<c + Suc (length ?ls)] ?ls"
    using rx_skb_large [OF assms(1-4), of tt, folded info_def lens_def, unfolded va ls(3)] unfolding ls(2) by blast
  have sl: "\<forall>k. c \<le> k \<and> k < c + Suc (length ?ls) \<longrightarrow> slot_ok cfg (info ! (k mod 1024)) \<and> rb_data (info ! (k mod 1024)) \<noteq> None"
    using rx_coreD(7) [OF inv] dat ls(2) by (simp add: info_def)
  have pl': "rx_placed cfg info c (?l # ?ls)" unfolding ls(1) [symmetric] by (rule pl)
  have F: "F = frame_bytes cfg (rx_pmem s) info c (?l # ?ls)" unfolding F_def ls(1) [symmetric] ..
  have l16: "16 \<le> unat ?l" using pl' by (simp add: rx_placed_def)
  have x': "rb_data (rx_buffer_info (rx_ring s) ! unat ntc) = Some x" using x assms(2) by (simp add: info_def)
  note rest = rx_skb_large_rest(1,2) [OF r(1) assms(3,4) x']
  have xv: "x + rx_offset cfg = buf_start cfg info c" using x by (simp add: buf_start_def)
  have "concat (map (frag_bytes cfg (rx_pmem s')) (rskb_frags skb')) = untag cfg F"
    unfolding r(4) rest xv F by (rule frags_contents [OF sl pl'])
  moreover have "rskb_vlan skb' = (if frame_tagged cfg F then Some (frame_tci F) else rskb_vlan skb)"
    unfolding rest xv F frame_tagged_eq [OF l16] ..
  ultimately show ?thesis using r by blast
qed

text \<open>A packet that is copied: the buffer stays with the driver.\<close>

lemma rx_small_contents:
  assumes "rx_arrived cfg c j f pkt s" "unat ntc = c mod 1024" "buf_len (pkt_bufs pkt ! 0) \<le> small_copy_len cfg" "source_vlan_count pkt = 0"
  shows "\<exists>ntc' s'. al_eth_rx_skb cfg tt (Some skb) pkt (of_nat (Suc j)) ntc s =
    Some (Some (tt (skb\<lparr>rskb_linear := frame_bytes cfg (rx_pmem s) (rx_buffer_info (rx_ring s)) c (map buf_len (take (Suc j) (pkt_bufs pkt))),
      rskb_len := rskb_len skb + buf_len (pkt_bufs pkt ! 0)\<rparr>)), ntc', s') \<and> rx_pmem s' = rx_pmem s \<and> rx_inv cfg (c + Suc j) f {#} s' \<and> unat ntc' = (c + Suc j) mod 1024"
proof -
  let ?info = "rx_buffer_info (rx_ring s)"
  have j: "j = 0" using assms(1,3) by (auto simp: rx_arrived_def)
  have inv: "rx_inv cfg (c + Suc j) f {#} s" "length (pkt_bufs pkt) = 19" using assms(1) by (simp_all add: rx_arrived_def)
  obtain x where x: "rb_data (?info ! (c mod 1024)) = Some x" using assms(1) by (auto simp: rx_arrived_def)
  obtain p ps where p: "pkt_bufs pkt = p # ps" using inv(2) by (cases "pkt_bufs pkt") auto
  have F: "frame_bytes cfg (rx_pmem s) ?info c (map buf_len (take (Suc j) (pkt_bufs pkt))) = map (rx_pmem s) [x + rx_offset cfg..<x + rx_offset cfg + unat (buf_len p)]"
    by (simp add: j p frame_bytes_def buf_bytes_def buf_start_def x)
  have g: "\<not> (length ?info \<le> unat ntc \<or> length (pkt_bufs pkt) < unat (of_nat (Suc j) :: u32))"
    using rx_coreD(5) [OF inv(1)] assms(2) inv(2) j by simp
  have r: "al_eth_rx_skb cfg tt (Some skb) pkt (of_nat (Suc j)) ntc s =
    Some (Some (tt (skb\<lparr>rskb_linear := frame_bytes cfg (rx_pmem s) ?info c (map buf_len (take (Suc j) (pkt_bufs pkt))),
      rskb_len := rskb_len skb + buf_len (pkt_bufs pkt ! 0)\<rparr>)), AL_ETH_RX_RING_IDX_NEXT ntc, add_bytes (buf_len p)
      (rx_emit [SyncForDevice (rb_dma (?info ! (c mod 1024))) (buf_len p)] (rx_emit [SyncForCpu (rb_dma (?info ! (c mod 1024))) (buf_len p)] s)))"
    unfolding al_eth_rx_skb_def if_not_P [OF g] F
    using assms(3,4) by (simp add: Let_def assms(2) x p rx_emit_def)
  obtain r' ntc' s' where o: "al_eth_rx_skb cfg tt (Some skb) pkt (of_nat (Suc j)) ntc s = Some (r', ntc', s')"
    "rx_inv cfg (c + Suc j) f {#} s'" "unat ntc' = (c + Suc j) mod 1024"
    using rx_skb_small [OF assms(1-3), of tt "Some skb"] by auto
  have "rx_pmem s' = rx_pmem s" using o(1) r by auto
  then show ?thesis using o r by auto
qed

subsection \<open>Properties\<close>

definition rx_balanced :: "rx_cfg \<Rightarrow> rx_state \<Rightarrow> bool" where
  "rx_balanced cfg s \<longleftrightarrow>
     total_of ev_maps (rx_log s) = total_of ev_unmaps (rx_log s) + total_of slot_map (rx_buffer_info (rx_ring s)) \<and>
     total_of (ev_allocs cfg) (rx_log s) = total_of ev_puts (rx_log s) + total_of ev_given (rx_log s) + total_of slot_page (rx_buffer_info (rx_ring s))"

text \<open>
  C2: The accounting of the receive path.  The histories are all sequences of refills and polls of a receive queue and writes of the hardware to the buffers, with any
  failures of the allocations and mappings, for an MTU of at most 9216 bytes, in which the received packets are as follows: a packet takes at most 17 descriptors, one
  that is short enough to be copied takes one, and one that is not copied gets its socket buffer from \<open>napi_get_frags\<close>.  After every such history every DMA mapping was undone once or belongs to a slot
  of the ring, every page reference was given back, handed to the network stack in a fragment or belongs to a slot, and every posted descriptor points to the mapped
  buffer of its slot with its length; no refill and no poll on such packets stops the kernel, and releasing the buffers leaves no mapping and no page behind.
\<close>

theorem rx_path_accounting:
  assumes "rx_run cfg s h" "unat (mtu cfg) \<le> 9216"
  shows "rx_balanced cfg s \<and>
    (\<forall>k. h \<le> k \<and> k < h + udma_in_flight (rx_dma_q (rx_ring s)) \<longrightarrow>
      posted (rx_dma_q (rx_ring s)) (rx_mem s) (rx_buffer_info (rx_ring s) ! (k mod 1024)) k) \<and>
    (\<forall>e n. env_ok cfg e \<longrightarrow> (\<exists>m s'. al_eth_refill_rx_bufs cfg e n s = Some (m, s') \<and> m \<le> n)) \<and>
    (\<forall>e js budget. env_ok cfg e \<and> rx_stream cfg e (rx_dma_q (rx_ring s)) 0 h js \<and> descs_in js \<le> udma_in_flight (rx_dma_q (rx_ring s)) \<longrightarrow>
      (\<exists>w s'. al_eth_rx_poll cfg e budget s = Some (w, s'))) \<and>
    (\<exists>s'. al_eth_free_rx_bufs cfg s = Some s' \<and> total_of ev_maps (rx_log s') = total_of ev_unmaps (rx_log s') \<and>
      total_of (ev_allocs cfg) (rx_log s') = total_of ev_puts (rx_log s') + total_of ev_given (rx_log s'))"
proof -
  let ?f = "udma_in_flight (rx_dma_q (rx_ring s))"
  have ok: "rx_ok cfg h ?f s" by (rule rx_run_ok [OF assms])
  then have inv: "rx_inv cfg h ?f {#} s" by (simp add: rx_ok_def)
  show ?thesis
  proof (intro conjI)
    show "rx_balanced cfg s" using inv by (simp add: rx_core_def rx_balanced_def)
    show "\<forall>k. h \<le> k \<and> k < h + ?f \<longrightarrow> posted (rx_dma_q (rx_ring s)) (rx_mem s) (rx_buffer_info (rx_ring s) ! (k mod 1024)) k"
      using inv by (simp add: rx_core_def)
    show "\<forall>e n. env_ok cfg e \<longrightarrow> (\<exists>m s'. al_eth_refill_rx_bufs cfg e n s = Some (m, s') \<and> m \<le> n)"
      using refill_ok [OF ok _ assms(2)] by metis
    show "\<forall>e js budget. env_ok cfg e \<and> rx_stream cfg e (rx_dma_q (rx_ring s)) 0 h js \<and> descs_in js \<le> ?f \<longrightarrow> (\<exists>w s'. al_eth_rx_poll cfg e budget s = Some (w, s'))"
      using rx_poll_ok [OF ok _ assms(2)] by metis
    show "\<exists>s'. al_eth_free_rx_bufs cfg s = Some s' \<and> total_of ev_maps (rx_log s') = total_of ev_unmaps (rx_log s') \<and>
        total_of (ev_allocs cfg) (rx_log s') = total_of ev_puts (rx_log s') + total_of ev_given (rx_log s')"
      using free_rx_bufs_ok [OF inv] by metis
  qed
qed

text \<open>
  C36: While the kernel has memory, a poll with a positive budget handles all packets in the completion ring or as many as the budget allows, moves past exactly their
  descriptors and leaves the ring completely filled with buffers again.
\<close>

theorem rx_poll_outcome:
  fixes s :: rx_state
  assumes "rx_run cfg s h" "unat (mtu cfg) \<le> 9216" "env_ok cfg e" "no_failures e" "0 < budget"
    and "rx_stream cfg e (rx_dma_q (rx_ring s)) 0 h js" "descs_in js \<le> udma_in_flight (rx_dma_q (rx_ring s))"
  shows "\<exists>s'. al_eth_rx_poll cfg e budget s = Some (min budget (length js), s') \<and>
    unat (rx_next_to_clean (rx_ring s')) = (h + descs_in (take (min budget (length js)) js)) mod 1024 \<and>
    udma_in_flight (rx_dma_q (rx_ring s')) = 1023 \<and> rx_run cfg s' (h + descs_in (take (min budget (length js)) js))"
proof -
  let ?f = "udma_in_flight (rx_dma_q (rx_ring s))" and ?m = "min budget (length js)"
  have ok: "rx_ok cfg h ?f s" by (rule rx_run_ok [OF assms(1,2)])
  obtain s' r where p: "al_eth_rx_poll cfg e budget s = Some (?m, s')" "rx_ok cfg (h + descs_in (take ?m js)) (?f - descs_in (take ?m js) + r) s'"
    "?f - descs_in (take ?m js) + r = 1023"
    using rx_poll_ok [OF ok assms(3,2,6,7), of budget] assms(4,5) by metis
  have "?f \<le> 1023" using ok rx_coreD(8) by (auto simp: rx_ok_def)
  then have "descs_in (take ?m js) < 1024" using assms(7) descs_in_take [of ?m js] by linarith
  then have "(unat (rx_next_to_clean (rx_ring s')) + 1024 - unat (rx_next_to_clean (rx_ring s))) mod 1024 = descs_in (take ?m js)"
    using ok p(2) by (intro clean_steps [where h = h]) (simp_all add: rx_ok_def)
  then have "rx_run cfg s' (h + descs_in (take ?m js))" using rx_run.poll [OF assms(1,3,6,7) p(1)] by simp
  then show ?thesis using p rx_ok_in_flight [OF p(2)] by (auto simp: rx_ok_def)
qed

text \<open>Taking a packet in a reachable state.\<close>

lemma rx_take_packet:
  fixes s :: rx_state and cmem :: "ptr \<Rightarrow> al_eth_rx_cdesc"
  defines "q \<equiv> rx_dma_q (rx_ring s)"
  assumes "rx_run cfg s h" "unat (mtu cfg) \<le> 9216" "pkt_at cmem q h j" "j < 17" "Suc j \<le> udma_in_flight q"
    and "0 < j \<longrightarrow> small_copy_len cfg < rx_len (cmem (comp_slot q h))"
  obtains q' pkt where "al_eth_pkt_rx cmem q (rx_hal_pkt (rx_ring s)) = Some (of_nat (Suc j), q', pkt)"
    "rx_arrived cfg h j (udma_in_flight q - Suc j) pkt (s\<lparr>rx_ring := (rx_ring s)\<lparr>rx_dma_q := q', rx_hal_pkt := pkt\<rparr>\<rparr>)"
    "map buf_len (take (Suc j) (pkt_bufs pkt)) = map (\<lambda>i. rx_len (cmem (comp_slot q (h + i)))) [0..<Suc j]"
    "buf_len (pkt_bufs pkt ! 0) = rx_len (cmem (comp_slot q h))" "source_vlan_count pkt = source_vlan_count (rx_hal_pkt (rx_ring s))"
    "unat (rx_next_to_clean (rx_ring s)) = h mod 1024"
proof -
  have ok: "rx_ok cfg h (udma_in_flight q) s" using rx_run_ok [OF assms(2,3)] by (simp add: q_def)
  then have inv: "rx_core cfg h (udma_in_flight q) {#} q (rx_buffer_info (rx_ring s)) (rx_mem s) (rx_log s)"
    and pb: "length (pkt_bufs (rx_hal_pkt (rx_ring s))) = 19" and ntc: "unat (rx_next_to_clean (rx_ring s)) = h mod 1024"
    by (simp_all add: rx_ok_def q_def)
  have rp: "rx_packet (\<lambda>p. rxc_ctrl_meta (cmem p)) q h j" using assms(4,6) by (simp add: rx_packet_def pkt_at_def)
  have j19: "j < 19" using assms(5) by simp
  obtain q' pkt where p: "al_eth_pkt_rx cmem q (rx_hal_pkt (rx_ring s)) = Some (of_nat (Suc j), q', pkt)"
    "rx_core cfg (h + Suc j) (udma_in_flight q - Suc j) {#} q' (rx_buffer_info (rx_ring s)) (rx_mem s) (rx_log s)" "length (pkt_bufs pkt) = 19"
    "\<And>i. i \<le> j \<Longrightarrow> buf_len (pkt_bufs pkt ! i) = rx_len (cmem (comp_slot q (h + i)))" "source_vlan_count pkt = source_vlan_count (rx_hal_pkt (rx_ring s))"
    using rx_core_pkt [OF inv rp j19 pb] by blast
  show thesis
  proof (rule that [OF p(1)])
    show l0: "buf_len (pkt_bufs pkt ! 0) = rx_len (cmem (comp_slot q h))" using p(4) [of 0] by simp
    show "rx_arrived cfg h j (udma_in_flight q - Suc j) pkt (s\<lparr>rx_ring := (rx_ring s)\<lparr>rx_dma_q := q', rx_hal_pkt := pkt\<rparr>\<rparr>)"
      using p(2,3) assms(5-7) l0 rx_coreD(6,8) [OF inv] by (auto simp: rx_arrived_def posted_def)
    show "map buf_len (take (Suc j) (pkt_bufs pkt)) = map (\<lambda>i. rx_len (cmem (comp_slot q (h + i)))) [0..<Suc j]"
      using p(3,4) assms(5) by (intro nth_equalityI) (simp_all del: upt_Suc)
  qed (use p(5) ntc in simp_all)
qed

text \<open>
  C7: A packet in the completion ring of a reachable state, taken with \<^const>\<open>al_eth_pkt_rx\<close> and given to \<^const>\<open>al_eth_rx_skb\<close>: the socket buffer holds exactly the bytes that
  the hardware wrote to the buffers of the packet, in the linear part when the packet is short enough to be copied, and otherwise in its fragments, with the
  VLAN tag removed from them and recorded when the device extracts tags.
\<close>

theorem rx_packet_contents:
  fixes s :: rx_state and skb :: rx_skb and cmem :: "ptr \<Rightarrow> al_eth_rx_cdesc" and cfg :: rx_cfg and h j :: nat
  defines "q \<equiv> rx_dma_q (rx_ring s)" and "info \<equiv> rx_buffer_info (rx_ring s)"
  defines "lens \<equiv> map (\<lambda>i. rx_len (cmem (comp_slot q (h + i)))) [0..<Suc j]"
  defines "F \<equiv> frame_bytes cfg (rx_pmem s) info h lens"
  assumes "rx_run cfg s h" "unat (mtu cfg) \<le> 9216" "pkt_at cmem q h j" "j < 17" "Suc j \<le> udma_in_flight q"
    and "source_vlan_count (rx_hal_pkt (rx_ring s)) = 0" "rskb_frags skb = []" "0 < j \<longrightarrow> small_copy_len cfg < hd lens" "rx_placed cfg info h lens"
  shows "\<exists>q' pkt skb' ntc s'. al_eth_pkt_rx cmem q (rx_hal_pkt (rx_ring s)) = Some (of_nat (Suc j), q', pkt) \<and>
    al_eth_rx_skb cfg tt (Some skb) pkt (of_nat (Suc j)) (rx_next_to_clean (rx_ring s)) (s\<lparr>rx_ring := (rx_ring s)\<lparr>rx_dma_q := q', rx_hal_pkt := pkt\<rparr>\<rparr>)
      = Some (Some skb', ntc, s') \<and> unat ntc = (h + Suc j) mod 1024 \<and>
    (if hd lens \<le> small_copy_len cfg then skb' = tt (skb\<lparr>rskb_linear := F, rskb_len := rskb_len skb + hd lens\<rparr>) \<and> rx_pmem s' = rx_pmem s
     else concat (map (frag_bytes cfg (rx_pmem s')) (rskb_frags skb')) = untag cfg F \<and>
       rskb_vlan skb' = (if frame_tagged cfg F then Some (frame_tci F) else rskb_vlan skb))"
proof -
  have hd: "hd lens = rx_len (cmem (comp_slot q h))" by (simp add: lens_def hd_map del: upt_Suc)
  obtain q' pkt where p: "al_eth_pkt_rx cmem q (rx_hal_pkt (rx_ring s)) = Some (of_nat (Suc j), q', pkt)"
    "rx_arrived cfg h j (udma_in_flight q - Suc j) pkt (s\<lparr>rx_ring := (rx_ring s)\<lparr>rx_dma_q := q', rx_hal_pkt := pkt\<rparr>\<rparr>)"
    "map buf_len (take (Suc j) (pkt_bufs pkt)) = lens" "buf_len (pkt_bufs pkt ! 0) = hd lens" "source_vlan_count pkt = source_vlan_count (rx_hal_pkt (rx_ring s))"
    "unat (rx_next_to_clean (rx_ring s)) = h mod 1024"
    using rx_take_packet [OF assms(5,6), folded q_def, OF assms(7-9) assms(12) [unfolded hd]] unfolding lens_def [symmetric] hd by blast
  define s1 where "s1 = s\<lparr>rx_ring := (rx_ring s)\<lparr>rx_dma_q := q', rx_hal_pkt := pkt\<rparr>\<rparr>"
  note arr = p(2) [folded s1_def]
  have s1: "rx_buffer_info (rx_ring s1) = info" "rx_pmem s1 = rx_pmem s" by (simp_all add: s1_def info_def)
  show ?thesis
  proof (cases "hd lens \<le> small_copy_len cfg")
    case True
    then show ?thesis using rx_small_contents [OF arr p(6), of tt skb] p(1,5) assms(10) by (auto simp: p(3,4) s1 F_def s1_def [symmetric])
  next
    case False
    then show ?thesis using rx_large_contents [OF arr p(6) _ assms(11), of tt] p(1) assms(13) by (auto simp: p(3,4) s1 F_def s1_def [symmetric] not_le)
  qed
qed

text \<open>
  C38: When the kernel has no socket buffer for a packet that is not copied, the driver has already unmapped the first buffer but keeps it in its slot: a refill of
  the slot posts the unmapped buffer again without a new mapping, and the mapping is undone a second time when the buffers are released.
\<close>

theorem rx_frags_failure_double_unmap:
  fixes s :: rx_state and cmem :: "ptr \<Rightarrow> al_eth_rx_cdesc"
  defines "q \<equiv> rx_dma_q (rx_ring s)" and "b \<equiv> rx_buffer_info (rx_ring s) ! unat (rx_next_to_clean (rx_ring s))"
  assumes "rx_run cfg s h" "unat (mtu cfg) \<le> 9216" "pkt_at cmem q h j" "j < 17" "Suc j \<le> udma_in_flight q"
    and "small_copy_len cfg < rx_len (cmem (comp_slot q h))"
  shows "\<exists>q' pkt s'. al_eth_pkt_rx cmem q (rx_hal_pkt (rx_ring s)) = Some (of_nat (Suc j), q', pkt) \<and>
    al_eth_rx_skb cfg tt None pkt (of_nat (Suc j)) (rx_next_to_clean (rx_ring s)) (s\<lparr>rx_ring := (rx_ring s)\<lparr>rx_dma_q := q', rx_hal_pkt := pkt\<rparr>\<rparr>)
      = Some (None, rx_next_to_clean (rx_ring s), s') \<and>
    rx_log s' = rx_log s @ [RxUnmap (rb_dma b) (rb_data_size b)] \<and> rx_buffer_info (rx_ring s') = rx_buffer_info (rx_ring s) \<and>
    (\<forall>frag dma. al_eth_alloc_rx_frag cfg frag dma b s' = Some (RcOk, b, s')) \<and>
    (\<exists>s2. al_eth_free_rx_bufs cfg s' = Some s2 \<and>
      total_of ev_unmaps (rx_log s2) = add_mset (rb_dma b, rb_data_size b) (total_of ev_maps (rx_log s2)))"
proof -
  obtain q' pkt where p: "al_eth_pkt_rx cmem q (rx_hal_pkt (rx_ring s)) = Some (of_nat (Suc j), q', pkt)"
    "rx_arrived cfg h j (udma_in_flight q - Suc j) pkt (s\<lparr>rx_ring := (rx_ring s)\<lparr>rx_dma_q := q', rx_hal_pkt := pkt\<rparr>\<rparr>)"
    "buf_len (pkt_bufs pkt ! 0) = rx_len (cmem (comp_slot q h))" "unat (rx_next_to_clean (rx_ring s)) = h mod 1024"
    using rx_take_packet [OF assms(3,4), folded q_def, OF assms(5-7)] assms(8) by blast
  define s1 where "s1 = s\<lparr>rx_ring := (rx_ring s)\<lparr>rx_dma_q := q', rx_hal_pkt := pkt\<rparr>\<rparr>"
  define s' where "s' = count_alloc_fail (rx_emit [RxUnmap (rb_dma b) (rb_data_size b)] s1)"
  have inv: "rx_inv cfg (h + Suc j) (udma_in_flight q - Suc j) {#} s1" "length (pkt_bufs pkt) = 19"
    using p(2) by (simp_all add: rx_arrived_def s1_def)
  have s1: "rx_buffer_info (rx_ring s1) = rx_buffer_info (rx_ring s)" "rx_log s1 = rx_log s" by (simp_all add: s1_def)
  obtain x where x: "rb_data b = Some x" using p(2,4) by (auto simp: rx_arrived_def b_def)
  have uj: "unat (of_nat (Suc j) :: u32) = Suc j" using assms(6) by (simp only: unsigned_of_nat) (simp add: take_bit_nat_eq_self)
  have g: "\<not> (length (rx_buffer_info (rx_ring s1)) \<le> unat (rx_next_to_clean (rx_ring s)) \<or> length (pkt_bufs pkt) < unat (of_nat (Suc j) :: u32))"
    unfolding uj using rx_coreD(5) [OF inv(1)] p(4) inv(2) assms(6) by simp
  have r: "al_eth_rx_skb cfg tt None pkt (of_nat (Suc j)) (rx_next_to_clean (rx_ring s)) s1 = Some (None, rx_next_to_clean (rx_ring s), s')"
    unfolding al_eth_rx_skb_def if_not_P [OF g] using assms(8) x by (simp add: Let_def s1 b_def [symmetric] p(3) not_le s'_def)
  have sl: "length (rx_buffer_info (rx_ring s')) = 1024" "\<forall>b \<in> set (rx_buffer_info (rx_ring s')). slot_ok cfg b"
    using inv(1) by (simp_all add: s'_def rx_core_def)
  obtain s2 where s2: "al_eth_free_rx_bufs cfg s' = Some s2" "rx_released cfg s' s2" "total_of slot_map (rx_buffer_info (rx_ring s2)) = {#}"
    using free_rx_bufs_released [OF sl] by blast
  have "total_of ev_maps (rx_log s1) = total_of ev_unmaps (rx_log s1) + total_of slot_map (rx_buffer_info (rx_ring s1))"
    using inv(1) by (simp add: rx_core_def)
  then have "total_of ev_unmaps (rx_log s2) = add_mset (rb_dma b, rb_data_size b) (total_of ev_maps (rx_log s2))"
    using s2(2,3) by (simp add: rx_released_def s'_def)
  moreover have "al_eth_alloc_rx_frag cfg frag dma b s' = Some (RcOk, b, s')" for frag dma by (simp add: al_eth_alloc_rx_frag_def x)
  moreover have "rx_log s' = rx_log s @ [RxUnmap (rb_dma b) (rb_data_size b)]" "rx_buffer_info (rx_ring s') = rx_buffer_info (rx_ring s)"
    by (simp_all add: s'_def s1)
  ultimately show ?thesis using p(1) r s2(1) unfolding s1_def by blast
qed

subsection \<open>The shape of the ring\<close>

definition rx_shape :: "rx_state \<Rightarrow> bool" where
  "rx_shape s \<longleftrightarrow> length (rx_buffer_info (rx_ring s)) = 1024 \<and> unat (rx_next_to_clean (rx_ring s)) < 1024 \<and> unat (rx_next_to_use (rx_ring s)) < 1024 \<and>
     length (pkt_bufs (rx_hal_pkt (rx_ring s))) = 19"

lemma rx_shape_upd [simp]:
  "rx_shape (rx_emit ev s) = rx_shape s" "rx_shape (add_bytes n s) = rx_shape s" "rx_shape (count_alloc_fail s) = rx_shape s"
  "rx_shape (set_rx_info i b s) = rx_shape s" "rx_shape (s\<lparr>rx_pmem := pm\<rparr>) = rx_shape s" "rx_shape (s\<lparr>rx_io := io\<rparr>) = rx_shape s"
  by (simp_all add: rx_shape_def rx_emit_def add_bytes_def count_alloc_fail_def set_rx_info_def)

lemma idx_in_range [simp]: "unat (AL_ETH_RX_RING_IDX_NEXT i) < 1024" "unat (AL_ETH_RX_RING_IDX_ADD i n) < 1024"
  by (simp_all add: unat_rx_idx_next unat_rx_idx_add)

lemma skb_loop_shape:
  "rx_skb_loop cfg lens skb ntc s = Some (skb', ntc', s') \<Longrightarrow> rx_shape s \<Longrightarrow> unat ntc < 1024 \<Longrightarrow> rx_shape s' \<and> unat ntc' < 1024"
proof (induction lens arbitrary: skb ntc s)
  case (Cons len lens)
  then obtain skb1 s1 where "rx_skb_loop cfg lens skb1 (AL_ETH_RX_RING_IDX_NEXT ntc) s1 = Some (skb', ntc', s')" "rx_shape s1"
    by (fastforce simp: Let_def split: if_splits bind_splits)
  then show ?case using Cons.IH by simp
qed simp

lemma rx_skb_shape:
  assumes "al_eth_rx_skb cfg tt kskb pkt descs ntc s = Some (r, ntc', s')" "rx_shape s" "unat ntc < 1024"
  shows "rx_shape s' \<and> unat ntc' < 1024"
  using assms unfolding al_eth_rx_skb_def Let_def
  by (auto simp: split_def split: if_splits option.splits bind_splits dest!: skb_loop_shape)

lemma pkt_rx_loop_bufs: "pkt_rx_loop cmem q cd i n (x, pkt) = Some (y, pkt') \<Longrightarrow> length (pkt_bufs pkt') = length (pkt_bufs pkt)"
  by (induction n arbitrary: i x pkt) (force simp: rx_buf_get_eq Let_def split: bind_splits if_splits)+

lemma pkt_rx_bufs: "al_eth_pkt_rx cmem q pkt = Some (d, q', pkt') \<Longrightarrow> length (pkt_bufs pkt') = length (pkt_bufs pkt)"
  unfolding al_eth_pkt_rx_def Let_def by (auto split: bind_splits if_splits dest!: pkt_rx_loop_bufs)

lemma deliver_shape: "rx_deliver cfg pkt skb s = (l, b, s') \<Longrightarrow> rx_shape s' = rx_shape s"
  unfolding rx_deliver_def Let_def by (auto split: if_splits)

lemma poll_loop_shape:
  "rx_poll_loop cfg e n k ntc t s = Some (ntc', t', s') \<Longrightarrow> rx_shape s \<Longrightarrow> unat ntc < 1024 \<Longrightarrow> rx_shape s' \<and> unat ntc' < 1024 \<and> work_done t' \<le> work_done t + n"
proof (induction n arbitrary: k ntc t s)
  case (Suc n)
  let ?q = "rx_dma_q (rx_ring s)"
  obtain d q' pkt where p: "al_eth_pkt_rx (e_cmem e) ?q (rx_hal_pkt (rx_ring s)) = Some (d, q', pkt)"
    using Suc.prems(1) by (auto split: bind_splits)
  define s0 where "s0 = s\<lparr>rx_ring := (rx_ring s)\<lparr>rx_dma_q := q', rx_hal_pkt := pkt\<rparr>\<rparr>"
  define s1 where "s1 = s0\<lparr>rx_ring := (rx_ring s0)\<lparr>rx_moder := (rx_moder (rx_ring s0))\<lparr>md_packets := md_packets (rx_moder (rx_ring s0)) + 1\<rparr>\<rparr>\<rparr>"
  have sh: "rx_shape s0" "rx_shape s1" using Suc.prems(2) pkt_rx_bufs [OF p] by (simp_all add: rx_shape_def s0_def s1_def)
  have w: "work_done (count_round l b t) = Suc (work_done t)" for l b by (simp add: count_round_def)
  have eq: "rx_poll_loop cfg e (Suc n) k ntc t s =
      (if d = 0 then Some (ntc, t, s0)
       else if pkt_flags pkt AND (AL_ETH_RX_ERROR OR AL_UDMA_CDESC_ERROR) \<noteq> 0
         then rx_poll_loop cfg e n (Suc k) (AL_ETH_RX_RING_IDX_ADD ntc d) (count_round 0 False t) s1
         else do {
           (skb, ntc, s) \<leftarrow> al_eth_rx_skb cfg (e_type_trans e) (e_skb e k) pkt d ntc s1;
           case skb of None \<Rightarrow> Some (AL_ETH_RX_RING_IDX_ADD ntc d, t, s)
           | Some skb \<Rightarrow> let (len, small, s) = rx_deliver cfg pkt skb s in rx_poll_loop cfg e n (Suc k) ntc (count_round len small t) s })"
    by (simp add: p s0_def s1_def Let_def)
  note run = Suc.prems(1) [unfolded eq]
  show ?case
  proof (cases "d = 0 \<or> pkt_flags pkt AND (AL_ETH_RX_ERROR OR AL_UDMA_CDESC_ERROR) \<noteq> 0")
    case True
    then show ?thesis
    proof (cases "d = 0")
      case True
      then show ?thesis using run sh(1) Suc.prems(3) by auto
    next
      case False
      then have "rx_poll_loop cfg e n (Suc k) (AL_ETH_RX_RING_IDX_ADD ntc d) (count_round 0 False t) s1 = Some (ntc', t', s')" using run True by simp
      then show ?thesis using Suc.IH [OF _ sh(2)] w by fastforce
    qed
  next
    case False
    then obtain r n2 s2 where r: "al_eth_rx_skb cfg (e_type_trans e) (e_skb e k) pkt d ntc s1 = Some (r, n2, s2)"
      using run by (cases "al_eth_rx_skb cfg (e_type_trans e) (e_skb e k) pkt d ntc s1") auto
    have s2: "rx_shape s2" "unat n2 < 1024" using rx_skb_shape [OF r sh(2) Suc.prems(3)] by simp_all
    show ?thesis
    proof (cases r)
      case None
      then have "ntc' = AL_ETH_RX_RING_IDX_ADD n2 d \<and> t' = t \<and> s' = s2" using run False r by auto
      then show ?thesis using s2 by simp
    next
      case (Some skb)
      obtain l b s3 where dl: "rx_deliver cfg pkt skb s2 = (l, b, s3)" by (metis surj_pair)
      have "rx_poll_loop cfg e n (Suc k) n2 (count_round l b t) s3 = Some (ntc', t', s')" using run False r Some dl by simp
      then show ?thesis using Suc.IH [of "Suc k" n2 "count_round l b t" s3] deliver_shape [OF dl] s2 w by simp
    qed
  qed
qed simp

lemma alloc_frag_shape: "al_eth_alloc_rx_frag cfg frag dma b s = Some (rc, b', s') \<Longrightarrow> rx_shape s' = rx_shape s"
  unfolding al_eth_alloc_rx_frag_def Let_def
  by (auto simp: rx_shape_def rx_emit_def split: if_splits option.splits bind_splits)

lemma refill_loop_shape:
  "refill_loop cfg e n i ntu s = Some (i', ntu', s') \<Longrightarrow> rx_shape s \<Longrightarrow> unat ntu < 1024 \<Longrightarrow> rx_shape s' \<and> unat ntu' < 1024 \<and> i' \<le> i + n"
proof (induction n arbitrary: i ntu s)
  case (Suc n)
  obtain rc b s1 where a: "al_eth_alloc_rx_frag cfg (e_frag e i) (e_map e i) (rx_buffer_info (rx_ring s) ! unat ntu) s = Some (rc, b, s1)"
    using Suc.prems(1) by (auto split: bind_splits if_splits)
  define s2 where "s2 = set_rx_info (unat ntu) b s1"
  have s2: "rx_shape s2" using alloc_frag_shape [OF a] Suc.prems(2) by (simp add: s2_def)
  have up: "rx_shape (s2\<lparr>rx_ring := (rx_ring s2)\<lparr>rx_dma_q := q\<rparr>, rx_mem := mem\<rparr>)" for q mem using s2 by (simp add: rx_shape_def)
  have g: "\<not> length (rx_buffer_info (rx_ring s)) \<le> unat ntu" using Suc.prems(2,3) by (simp add: rx_shape_def)
  have eq: "refill_loop cfg e (Suc n) i ntu s =
      (if rc \<noteq> RcOk then Some (i, ntu, s2)
       else do {
         (rc, q, mem) \<leftarrow> al_eth_rx_buffer_add (rx_udma cfg) (rb_buf b) AL_ETH_RX_FLAGS_INT None (rx_dma_q (rx_ring s2), rx_mem s2);
         let s = s2\<lparr>rx_ring := (rx_ring s2)\<lparr>rx_dma_q := q\<rparr>, rx_mem := mem\<rparr>;
         if rc \<noteq> RcOk then Some (i, ntu, s) else refill_loop cfg e n (Suc i) (AL_ETH_RX_RING_IDX_NEXT ntu) s })"
    unfolding refill_loop.simps if_not_P [OF g] a by (simp add: s2_def Let_def)
  note run = Suc.prems(1) [unfolded eq]
  show ?case
  proof (cases "rc = RcOk")
    case False
    then show ?thesis using run s2 Suc.prems(3) by auto
  next
    case True
    then obtain rc' q mem where q: "al_eth_rx_buffer_add (rx_udma cfg) (rb_buf b) AL_ETH_RX_FLAGS_INT None (rx_dma_q (rx_ring s2), rx_mem s2) = Some (rc', q, mem)"
      using run by (cases "al_eth_rx_buffer_add (rx_udma cfg) (rb_buf b) AL_ETH_RX_FLAGS_INT None (rx_dma_q (rx_ring s2), rx_mem s2)") auto
    show ?thesis
    proof (cases "rc' = RcOk")
      case False
      then show ?thesis using run True q up Suc.prems(3) by auto
    next
      case ok: True
      then show ?thesis using run True q Suc.IH [OF _ up, of "Suc i"] by fastforce
    qed
  qed
qed simp

lemma refill_shape:
  assumes "al_eth_refill_rx_bufs cfg e n s = Some (m, s')" "rx_shape s"
  shows "rx_shape s' \<and> m \<le> n"
proof -
  obtain ntu s1 where l: "refill_loop cfg e n 0 (rx_next_to_use (rx_ring s)) s = Some (m, ntu, s1)" "rx_ring s' = (rx_ring s1)\<lparr>rx_next_to_use := ntu\<rparr>"
    using assms(1) unfolding al_eth_refill_rx_bufs_def by (auto split: bind_splits if_splits)
  then show ?thesis using refill_loop_shape [OF l(1) assms(2)] assms(2) by (auto simp: rx_shape_def)
qed

lemma free_loop_shape: "free_rx_bufs_loop cfg is s = Some s' \<Longrightarrow> rx_shape s \<Longrightarrow> rx_shape s'"
proof (induction "is" arbitrary: s)
  case (Cons i "is")
  obtain b s1 where f: "al_eth_free_rx_frag cfg (rx_buffer_info (rx_ring s) ! i) s = (b, s1)" by force
  then have "rx_shape s1" using Cons.prems(2) by (auto simp: al_eth_free_rx_frag_def split: option.splits)
  then show ?case using Cons f by (auto simp: Let_def split: if_splits)
qed simp

lemma poll_shape:
  assumes "al_eth_rx_poll cfg e budget s = Some (w, s')" "rx_shape s" "0 < budget"
  shows "rx_shape s' \<and> w \<le> budget"
proof -
  obtain ntc t s1 where l: "rx_poll_loop cfg e budget 0 (rx_next_to_clean (rx_ring s)) \<lparr>work_done = 0, total_len = 0, small_pkts = 0\<rparr> s = Some (ntc, t, s1)"
    using assms(1,3) unfolding al_eth_rx_poll_def by (auto split: bind_splits)
  have sh: "rx_shape s1" "unat ntc < 1024" "work_done t \<le> budget" using poll_loop_shape [OF l assms(2)] assms(2) by (simp_all add: rx_shape_def)
  define r where "r = (rx_ring s1)\<lparr>rx_next_to_clean := ntc, rx_stat_bytes := rx_stat_bytes (rx_ring s1) + ucast (total_len t),
    rx_stat_packets := rx_stat_packets (rx_ring s1) + of_nat (work_done t), small_copy_len_pkt := small_copy_len_pkt (rx_ring s1) + ucast (small_pkts t)\<rparr>"
  define s2 where "s2 = s1\<lparr>rx_ring := r\<rparr>"
  have s2: "rx_shape s2" using sh by (simp add: rx_shape_def s2_def r_def)
  obtain m s3 where f: "al_eth_refill_rx_bufs cfg e (unat (al_udma_available_get (rx_dma_q r))) s2 = Some (m, s3)"
    using assms(1,3) l unfolding al_eth_rx_poll_def s2_def r_def by (auto simp: Let_def split: bind_splits)
  have s3: "rx_shape s3" using refill_shape [OF f s2] by simp
  have "w = work_done t \<and> (\<exists>md. rx_ring s' = (rx_ring s3)\<lparr>rx_moder := md\<rparr>)"
    using assms(1,3) l f unfolding al_eth_rx_poll_def s2_def r_def
    by (auto simp: Let_def rx_emit_def split: bind_splits if_splits intro: exI [of _ "rx_moder (rx_ring s3)"])
  then show ?thesis using s3 sh(3) by (auto simp: rx_shape_def)
qed

text \<open>
  C37: Whatever the hardware puts into the completion ring and whatever the kernel answers, every operation of the receive path that returns leaves a ring of
  the same shape: 1024 slots, both indices inside it and a packet description with room for 19 buffers; a refill and a poll never count more than they were asked for.
\<close>

theorem rx_shape_preserved:
  assumes "rx_shape s"
  shows "(\<forall>n m s'. al_eth_refill_rx_bufs cfg e n s = Some (m, s') \<longrightarrow> rx_shape s' \<and> m \<le> n) \<and>
    (\<forall>budget w s'. 0 < budget \<and> al_eth_rx_poll cfg e budget s = Some (w, s') \<longrightarrow> rx_shape s' \<and> w \<le> budget) \<and>
    (\<forall>s'. al_eth_free_rx_bufs cfg s = Some s' \<longrightarrow> rx_shape s')"
  using refill_shape [OF _ assms] poll_shape [OF _ assms] free_loop_shape [OF _ assms] by (auto simp: al_eth_free_rx_bufs_def)

subsection \<open>Concrete instances\<close>

text \<open>A fresh receive queue, pages of 4 KiB, a kernel that always has memory, and one completed packet of 1000 bytes.\<close>

definition demo_rx_q :: al_udma_q where
  "demo_rx_q = demo_q\<lparr>size_mask := 1023, q_size := 1024, end_cdesc_ptr := 0x90000 + 1023 * 16\<rparr>"

definition demo_rx_buffer :: al_eth_rx_buffer where
  "demo_rx_buffer = \<lparr>rb_page = 0, rb_page_offset = 0, rb_data = None, rb_data_size = 0, rb_frag_size = 0, rb_dma = 0, rb_buf = \<lparr>buf_addr = 0, buf_len = 0\<rparr>\<rparr>"

definition demo_rx :: "desc_mem \<Rightarrow> mmio \<Rightarrow> (ptr \<Rightarrow> u8) \<Rightarrow> rx_state" where
  "demo_rx mem io pm = \<lparr>rx_ring = \<lparr>rx_hal_pkt = zero_pkt, rx_dma_q = demo_rx_q, rx_next_to_use = 0, rx_next_to_clean = 0, rx_unmask_reg_offset = 0x2000,
     rx_unmask_val = 0xfffffffe, rx_buffer_info = replicate 1024 demo_rx_buffer,
     rx_moder = idle_ring, rx_stat_packets = 0, rx_stat_bytes = 0, skb_alloc_fail = 0, dma_mapping_err = 0, small_copy_len_pkt = 0\<rparr>,
     rx_mem = mem, rx_io = io, rx_pmem = pm, rx_log = []\<rparr>"

definition demo_rx_cfg :: rx_cfg where
  "demo_rx_cfg = \<lparr>rxq_id = 0, rx_udma = demo_udma, rx_udma_base = 0x10000, mtu = 1500, max_rx_buff_alloc_size = 1536, small_copy_len = 128,
     feature_vlan_rx = True, feature_rxcsum = True, feature_rxhash = False, rx_adaptive = False, rx_moder_table = [], rx_offset = 64,
     frag_size_of = (\<lambda>n. n + 384), head_page = (\<lambda>a. a div 4096), page_address = (\<lambda>p. p * 4096), virt_addr_valid = (\<lambda>_. True)\<rparr>"

definition demo_rx_skb :: rx_skb where
  "demo_rx_skb = \<lparr>rskb_id = 1, rskb_linear = [], rskb_frags = [], rskb_len = 0, rskb_data_len = 0, rskb_truesize = 0, rskb_vlan = None,
     csum_unnecessary = False, rskb_hash = None, rskb_queue = 0\<rparr>"

definition demo_cdesc :: al_eth_rx_cdesc where
  "demo_cdesc = \<lparr>rxc_ctrl_meta = 0x49000000, rxc_len = 1000, rxc_word2 = 0, rxc_word3 = 0\<rparr>"

definition demo_cmem :: "ptr \<Rightarrow> ptr \<Rightarrow> al_eth_rx_cdesc" where
  "demo_cmem p = (\<lambda>a. if a = p then demo_cdesc else \<lparr>rxc_ctrl_meta = 0, rxc_len = 0, rxc_word2 = 0, rxc_word3 = 0\<rparr>)"

definition demo_env :: "ptr \<Rightarrow> rx_env" where
  "demo_env p = \<lparr>e_cmem = demo_cmem p, e_skb = (\<lambda>_. Some demo_rx_skb), e_type_trans = id, e_frag = (\<lambda>i. Some (0x100000 + i * 4096)),
     e_map = (\<lambda>i. Some (0x40000000 + of_nat i * 4096))\<rparr>"

lemma demo_rx_fresh: "rx_fresh (demo_rx mem io pm)"
proof -
  have "udma_ring_ok demo_rx_q"
    unfolding udma_ring_ok_def by (intro conjI bexI [of _ 10]) (simp_all add: demo_rx_q_def demo_q_def mask_eq_exp_minus_1)
  then have "comp_ring_ok demo_rx_q" by (simp add: comp_ring_ok_def) (simp add: demo_rx_q_def demo_q_def)
  then have "comp_synced demo_rx_q 0" by (simp add: comp_synced_def comp_at_def comp_slot_def lap_id_def) (simp add: demo_rx_q_def demo_q_def)
  moreover have "udma_in_flight demo_rx_q = 0" "udma_submitted demo_rx_q 0" "q_size demo_rx_q = 1024"
    by (simp_all add: udma_in_flight_def udma_submitted_def demo_rx_q_def demo_q_def)
  ultimately show ?thesis by (simp add: rx_fresh_def demo_rx_def demo_rx_buffer_def zero_pkt_def AL_ETH_PKT_MAX_BUFS_def)
qed

lemma demo_env_ok: "env_ok demo_rx_cfg (demo_env p)" "no_failures (demo_env p)" "unat (mtu demo_rx_cfg) \<le> 9216"
  by (simp_all add: env_ok_def no_failures_def demo_env_def demo_rx_cfg_def demo_rx_skb_def)

lemma demo_rx_filled:
  "\<exists>s. rx_run demo_rx_cfg s 0 \<and> udma_in_flight (rx_dma_q (rx_ring s)) = 3 \<and> q_size (rx_dma_q (rx_ring s)) = 1024 \<and> source_vlan_count (rx_hal_pkt (rx_ring s)) = 0 \<and>
    comp_ring_ok (rx_dma_q (rx_ring s)) \<and> rx_ok demo_rx_cfg 0 3 s"
proof -
  let ?s = "demo_rx (\<lambda>_. undefined) undefined (\<lambda>_. 0)"
  have ok: "rx_ok demo_rx_cfg 0 0 ?s" by (rule fresh_rx_ok [OF demo_rx_fresh])
  obtain m s where m: "al_eth_refill_rx_bufs demo_rx_cfg (demo_env 0) 3 ?s = Some (m, s)" "rx_ok demo_rx_cfg 0 (0 + m) s" "0 + 3 \<le> (1023 :: nat) \<Longrightarrow> m = 3"
    "rx_hal_pkt (rx_ring s) = rx_hal_pkt (rx_ring ?s)"
    using refill_ok [OF ok demo_env_ok(1) [of 0] demo_env_ok(3), of 3] demo_env_ok(2) [of 0] by blast
  have "rx_run demo_rx_cfg s 0" by (rule rx_run.refill [OF rx_run.fresh [OF demo_rx_fresh] demo_env_ok(1) m(1)])
  moreover have "m = 3" using m(3) by simp
  ultimately show ?thesis using m(2,4) by (intro exI [of _ s]) (auto simp: rx_ok_def rx_core_def comp_synced_def demo_rx_def zero_pkt_def)
qed

lemma demo_packet:
  assumes "q_size q = 1024" "comp_ring_ok q"
  shows "pkt_at (demo_cmem (comp_slot q 0)) q 0 0" "rx_len (demo_cmem (comp_slot q 0) (comp_slot q 0)) = 1000"
    "rx_stream demo_rx_cfg (demo_env (comp_slot q 0)) q 0 0 [0]"
proof -
  have "comp_slot q 1 \<noteq> comp_slot q 0" using assms by (simp add: comp_slot_def comp_ring_ok_def word_less_nat_alt)
  then have n: "\<not> comp_new (\<lambda>p. rxc_ctrl_meta (demo_cmem (comp_slot q 0) p)) q (Suc 0)"
    by (simp add: comp_new_def demo_cmem_def lap_id_def assms(1))
  show p: "pkt_at (demo_cmem (comp_slot q 0)) q 0 0"
    by (simp add: pkt_at_def comp_last_def comp_new_def demo_cmem_def demo_cdesc_def cdesc_is_last_def lap_id_def assms(1) desc_consts AL_BIT_def)
  show l: "rx_len (demo_cmem (comp_slot q 0) (comp_slot q 0)) = 1000"
    by (simp add: rx_len_def demo_cmem_def demo_cdesc_def bit_numeral_word_iff)
  show "rx_stream demo_rx_cfg (demo_env (comp_slot q 0)) q 0 0 [0]"
    using p l n by (simp add: demo_env_def demo_rx_cfg_def)
qed

text \<open>A history with a refill of three buffers, a packet and a poll that passes it on and refills the ring.\<close>

lemma demo_rx_polled:
  "\<exists>s p s'. rx_run demo_rx_cfg s 0 \<and> al_eth_rx_poll demo_rx_cfg (demo_env p) 64 s = Some (1, s') \<and> rx_run demo_rx_cfg s' 1 \<and> udma_in_flight (rx_dma_q (rx_ring s')) = 1023"
proof -
  obtain s where s: "rx_run demo_rx_cfg s 0" "udma_in_flight (rx_dma_q (rx_ring s)) = 3" "q_size (rx_dma_q (rx_ring s)) = 1024" "comp_ring_ok (rx_dma_q (rx_ring s))"
    using demo_rx_filled by blast
  let ?e = "demo_env (comp_slot (rx_dma_q (rx_ring s)) 0)"
  have ok: "rx_ok demo_rx_cfg 0 3 s" using rx_run_ok [OF s(1) demo_env_ok(3)] s(2) by simp
  note st = demo_packet(3) [OF s(3,4)]
  obtain s' where p: "al_eth_rx_poll demo_rx_cfg ?e 64 s = Some (1, s')" "rx_ok demo_rx_cfg 1 1023 s'"
    by (rule rx_poll_ok [OF ok demo_env_ok(1,3) st, of 64]) (use demo_env_ok(2) that in auto)
  have "(unat (rx_next_to_clean (rx_ring s')) + 1024 - unat (rx_next_to_clean (rx_ring s))) mod 1024 = 1" using ok p(2) by (simp add: rx_ok_def)
  moreover have "descs_in [0] \<le> udma_in_flight (rx_dma_q (rx_ring s))" using s(2) by simp
  ultimately have "rx_run demo_rx_cfg s' 1" using rx_run.poll [OF s(1) demo_env_ok(1) st _ p(1)] by simp
  then show ?thesis using s(1) p rx_ok_in_flight [OF p(2)] by blast
qed

theorem rx_path_accounting_witness:
  "\<exists>s p s' s2. rx_run demo_rx_cfg s 0 \<and> al_eth_rx_poll demo_rx_cfg (demo_env p) 64 s = Some (1, s') \<and> rx_run demo_rx_cfg s' 1 \<and> rx_balanced demo_rx_cfg s' \<and>
    al_eth_free_rx_bufs demo_rx_cfg s' = Some s2 \<and> total_of ev_maps (rx_log s2) = total_of ev_unmaps (rx_log s2)"
proof -
  obtain s p s' where s: "rx_run demo_rx_cfg s 0" "al_eth_rx_poll demo_rx_cfg (demo_env p) 64 s = Some (1, s')" "rx_run demo_rx_cfg s' 1"
    using demo_rx_polled by blast
  have "rx_balanced demo_rx_cfg s'" "\<exists>s2. al_eth_free_rx_bufs demo_rx_cfg s' = Some s2 \<and> total_of ev_maps (rx_log s2) = total_of ev_unmaps (rx_log s2)"
    using rx_path_accounting [OF s(3) demo_env_ok(3)] by simp_all blast
  with s show ?thesis by blast
qed

theorem rx_poll_outcome_witness:
  "\<exists>s p s'. al_eth_rx_poll demo_rx_cfg (demo_env p) 64 s = Some (1, s') \<and> unat (rx_next_to_clean (rx_ring s')) = 1 \<and> udma_in_flight (rx_dma_q (rx_ring s')) = 1023"
proof -
  obtain s where s: "rx_run demo_rx_cfg s 0" "udma_in_flight (rx_dma_q (rx_ring s)) = 3" "q_size (rx_dma_q (rx_ring s)) = 1024" "comp_ring_ok (rx_dma_q (rx_ring s))"
    using demo_rx_filled by blast
  have le: "descs_in [0] \<le> udma_in_flight (rx_dma_q (rx_ring s))" using s(2) by simp
  from rx_poll_outcome [OF s(1) demo_env_ok(3,1,2) _ demo_packet(3) [OF s(3,4)] le, of 64]
  show ?thesis by auto
qed

theorem rx_packet_contents_witness:
  "\<exists>s cmem q' pkt skb' ntc s'. al_eth_pkt_rx cmem (rx_dma_q (rx_ring s)) (rx_hal_pkt (rx_ring s)) = Some (1, q', pkt) \<and>
    al_eth_rx_skb demo_rx_cfg id (Some demo_rx_skb) pkt 1 (rx_next_to_clean (rx_ring s)) (s\<lparr>rx_ring := (rx_ring s)\<lparr>rx_dma_q := q', rx_hal_pkt := pkt\<rparr>\<rparr>)
      = Some (Some skb', ntc, s') \<and> unat ntc = 1 \<and>
    concat (map (frag_bytes demo_rx_cfg (rx_pmem s')) (rskb_frags skb')) =
      untag demo_rx_cfg (frame_bytes demo_rx_cfg (rx_pmem s) (rx_buffer_info (rx_ring s)) 0 [1000])"
proof -
  obtain s where s: "rx_run demo_rx_cfg s 0" "udma_in_flight (rx_dma_q (rx_ring s)) = 3" "q_size (rx_dma_q (rx_ring s)) = 1024"
    "source_vlan_count (rx_hal_pkt (rx_ring s)) = 0" "comp_ring_ok (rx_dma_q (rx_ring s))"
    using demo_rx_filled by blast
  note d = demo_packet [OF s(3,5)]
  let ?c = "demo_cmem (comp_slot (rx_dma_q (rx_ring s)) 0)"
  have pl: "rx_placed demo_rx_cfg (rx_buffer_info (rx_ring s)) 0 (map (\<lambda>i. rx_len (?c (comp_slot (rx_dma_q (rx_ring s)) (0 + i)))) [0..<Suc 0])"
    using d(2) by (simp add: rx_placed_def) (simp add: demo_rx_cfg_def)
  have "Suc 0 \<le> udma_in_flight (rx_dma_q (rx_ring s))" "\<not> (1000 :: u32) \<le> small_copy_len demo_rx_cfg" "rskb_frags demo_rx_skb = []"
    using s(2) by (simp_all add: demo_rx_cfg_def demo_rx_skb_def)
  with rx_packet_contents [OF s(1) demo_env_ok(3) d(1) _ _ s(4) _ _ pl, of demo_rx_skb id] d(2) show ?thesis by (intro exI [of _ s] exI [of _ ?c]) auto
qed

theorem rx_frags_failure_double_unmap_witness:
  "\<exists>s cmem q' pkt s' s2 m. al_eth_pkt_rx cmem (rx_dma_q (rx_ring s)) (rx_hal_pkt (rx_ring s)) = Some (1, q', pkt) \<and>
    al_eth_rx_skb demo_rx_cfg id None pkt 1 (rx_next_to_clean (rx_ring s)) (s\<lparr>rx_ring := (rx_ring s)\<lparr>rx_dma_q := q', rx_hal_pkt := pkt\<rparr>\<rparr>)
      = Some (None, rx_next_to_clean (rx_ring s), s') \<and>
    al_eth_free_rx_bufs demo_rx_cfg s' = Some s2 \<and> total_of ev_unmaps (rx_log s2) = add_mset m (total_of ev_maps (rx_log s2))"
proof -
  obtain s where s: "rx_run demo_rx_cfg s 0" "udma_in_flight (rx_dma_q (rx_ring s)) = 3" "q_size (rx_dma_q (rx_ring s)) = 1024" "comp_ring_ok (rx_dma_q (rx_ring s))"
    using demo_rx_filled by blast
  note d = demo_packet [OF s(3,4)]
  let ?c = "demo_cmem (comp_slot (rx_dma_q (rx_ring s)) 0)"
  have "Suc 0 \<le> udma_in_flight (rx_dma_q (rx_ring s))" "small_copy_len demo_rx_cfg < 1000" using s(2) by (simp_all add: demo_rx_cfg_def)
  with rx_frags_failure_double_unmap [OF s(1) demo_env_ok(3) d(1), of id] d(2) show ?thesis by (intro exI [of _ s] exI [of _ ?c]) auto
qed

theorem rx_shape_preserved_witness:
  "rx_shape (demo_rx (\<lambda>_. undefined) undefined (\<lambda>_. 0)) \<and>
   (\<exists>m s'. al_eth_refill_rx_bufs demo_rx_cfg (demo_env 0) 3 (demo_rx (\<lambda>_. undefined) undefined (\<lambda>_. 0)) = Some (m, s') \<and> rx_shape s')"
proof -
  let ?s = "demo_rx (\<lambda>_. undefined) undefined (\<lambda>_. 0)"
  have sh: "rx_shape ?s" by (simp add: rx_shape_def demo_rx_def zero_pkt_def AL_ETH_PKT_MAX_BUFS_def)
  obtain m s where "al_eth_refill_rx_bufs demo_rx_cfg (demo_env 0) 3 ?s = Some (m, s)"
    using refill_ok [OF fresh_rx_ok [OF demo_rx_fresh] demo_env_ok(1) [of 0] demo_env_ok(3), of 3] by blast
  then show ?thesis using rx_shape_preserved [OF sh, of demo_rx_cfg "demo_env 0"] sh by blast
qed

end
