(* ===== verification/Eth_Tx_Ring.thy ===== *)
theory Eth_Tx_Ring
  imports Eth_Tx
begin

text \<open>
  The transmit path as a queue of packets: the socket buffers between \<open>next_to_clean\<close> and \<open>next_to_use\<close>, oldest first,
  are exactly the packets whose descriptors are in the hardware ring.
\<close>

subsection \<open>The ring of socket buffers\<close>

lemma unat_idx_next: "unat (AL_ETH_TX_RING_IDX_NEXT i) = (unat i + 1) mod 1024"
proof -
  have m: "(of_nat AL_ETH_DEFAULT_TX_SW_DESCS - 1 :: u16) = mask 10"
    by (simp add: AL_ETH_DEFAULT_TX_SW_DESCS_def mask_eq_exp_minus_1)
  show ?thesis unfolding AL_ETH_TX_RING_IDX_NEXT_def m using unat_add_and_mask [of 10 i 1] by simp
qed

definition tx_count :: "al_eth_tx_ring \<Rightarrow> nat" where
  "tx_count r = (unat (next_to_use r) + 1024 - unat (next_to_clean r)) mod 1024"

definition tx_pending :: "al_eth_tx_ring \<Rightarrow> al_eth_tx_buffer list" where
  "tx_pending r = map (\<lambda>i. tx_buffer_info r ! i) (ring_slots 1024 (unat (next_to_clean r)) (tx_count r))"

lemma length_tx_pending [simp]: "length (tx_pending r) = tx_count r"
  by (simp add: tx_pending_def)

definition tx_idx_ok :: "al_eth_tx_ring \<Rightarrow> bool" where
  "tx_idx_ok r \<longleftrightarrow> unat (next_to_use r) < 1024 \<and> unat (next_to_clean r) < 1024 \<and> length (tx_buffer_info r) = 1024"

lemma tx_use_slot:
  assumes "tx_idx_ok r"
  shows "unat (next_to_use r) = (unat (next_to_clean r) + tx_count r) mod 1024"
  using assms flight_index [of "unat (next_to_use r)" 1024 "unat (next_to_clean r)"] by (simp add: tx_idx_ok_def tx_count_def)

lemma tx_count_eqI:
  assumes "unat (next_to_clean r) < 1024" "n < 1024" "(unat (next_to_clean r) + n) mod 1024 = unat (next_to_use r)"
  shows "tx_count r = n"
  unfolding tx_count_def by (rule flight_unique [OF assms])

lemma tx_push:
  assumes "tx_idx_ok r" "tx_count r < 1023"
    and "tx_buffer_info r' = (tx_buffer_info r)[unat (next_to_use r) := b]"
    and "next_to_use r' = AL_ETH_TX_RING_IDX_NEXT (next_to_use r)" "next_to_clean r' = next_to_clean r"
  shows "tx_idx_ok r' \<and> tx_pending r' = tx_pending r @ [b]"
proof -
  have u: "unat (next_to_use r) < 1024" "unat (next_to_clean r) < 1024" using assms(1) by (auto simp: tx_idx_ok_def)
  have c: "tx_count r' = tx_count r + 1"
    using assms(2,4,5) u tx_use_slot [OF assms(1)] by (intro tx_count_eqI) (simp_all add: unat_idx_next mod_simps)
  let ?sl = "ring_slots 1024 (unat (next_to_clean r)) (tx_count r + 1)"
  have sl: "?sl = ring_slots 1024 (unat (next_to_clean r)) (tx_count r) @ [unat (next_to_use r)]"
    unfolding tx_use_slot [OF assms(1)] by (simp add: ring_slots_Suc)
  have "distinct ?sl" using assms(2) by (intro distinct_ring_slots) simp
  then have n: "unat (next_to_use r) \<notin> set (ring_slots 1024 (unat (next_to_clean r)) (tx_count r))" unfolding sl by simp
  have "tx_pending r' = map (\<lambda>i. ((tx_buffer_info r)[unat (next_to_use r) := b]) ! i) ?sl"
    unfolding tx_pending_def c assms(3,5) ..
  also have "\<dots> = tx_pending r @ [b]"
    unfolding sl tx_pending_def using n assms(1) by (auto simp: tx_idx_ok_def nth_list_update)
  finally show ?thesis using assms u by (simp add: tx_idx_ok_def unat_idx_next)
qed

lemma tx_pop:
  assumes "tx_idx_ok r" "0 < tx_count r"
    and "tx_buffer_info r' = (tx_buffer_info r)[unat (next_to_clean r) := b]"
    and "next_to_clean r' = AL_ETH_TX_RING_IDX_NEXT (next_to_clean r)" "next_to_use r' = next_to_use r"
  shows "tx_idx_ok r' \<and> tx_pending r = tx_buffer_info r ! unat (next_to_clean r) # tx_pending r'"
proof -
  have u: "unat (next_to_use r) < 1024" "unat (next_to_clean r) < 1024" using assms(1) by (auto simp: tx_idx_ok_def)
  have c: "tx_count r' = tx_count r - 1"
  proof (rule tx_count_eqI)
    have "tx_count r < 1024" by (simp add: tx_count_def)
    then show "tx_count r - 1 < 1024" by simp
    have "(unat (next_to_clean r) + 1 + (tx_count r - 1)) mod 1024 = unat (next_to_use r)"
      using assms(2) tx_use_slot [OF assms(1)] by simp
    then show "(unat (next_to_clean r') + (tx_count r - 1)) mod 1024 = unat (next_to_use r')"
      unfolding assms(4,5) unat_idx_next by (simp only: mod_add_left_eq)
  qed (simp add: assms(4) unat_idx_next)
  let ?c = "unat (next_to_clean r)"
  have lt: "tx_count r \<le> 1024" unfolding tx_count_def by (simp add: less_imp_le)
  have sl: "ring_slots 1024 ?c (tx_count r) = ?c # ring_slots 1024 (?c + 1) (tx_count r - 1)"
  proof -
    have "ring_slots 1024 ?c (tx_count r) = take 1 (ring_slots 1024 ?c (tx_count r)) @ drop 1 (ring_slots 1024 ?c (tx_count r))"
      by simp
    moreover have "take 1 (ring_slots 1024 ?c (tx_count r)) = [?c]"
      using assms(2) u by (simp add: ring_slots_def take_map)
    ultimately show ?thesis using assms(2) by (simp add: ring_slots_drop)
  qed
  have d: "distinct (ring_slots 1024 ?c (tx_count r))" using lt by (rule distinct_ring_slots)
  have "tx_pending r' = map (\<lambda>i. ((tx_buffer_info r)[?c := b]) ! i) (ring_slots 1024 (?c + 1) (tx_count r - 1))"
    unfolding tx_pending_def c assms(3,4) unat_idx_next ring_slots_mod ..
  also have "\<dots> = map (\<lambda>i. tx_buffer_info r ! i) (ring_slots 1024 (?c + 1) (tx_count r - 1))"
    using d unfolding sl by (intro map_cong refl nth_list_update_neq) auto
  finally show ?thesis using assms u by (simp add: tx_idx_ok_def unat_idx_next tx_pending_def sl)
qed

subsection \<open>Mapping and unmapping\<close>

definition buf_pair :: "al_buf \<Rightarrow> u64 \<times> u32" where
  "buf_pair b = (buf_addr b, buf_len b)"

fun map_events :: "al_buf list \<Rightarrow> tx_event list" where
  "map_events [] = []"
| "map_events (b # bs) = MapSingle (buf_addr b) (buf_len b) # map (\<lambda>x. MapPage (buf_addr x) (buf_len x)) bs"

fun unmap_events :: "al_buf list \<Rightarrow> tx_event list" where
  "unmap_events [] = []"
| "unmap_events (b # bs) = UnmapSingle (buf_addr b) (buf_len b) # map (\<lambda>x. UnmapPage (buf_addr x) (buf_len x)) bs"

lemma unmap_bufs_eq: "n < length bs \<Longrightarrow> unmap_bufs bs n = Some (unmap_events (take (Suc n) bs))"
proof (cases bs)
  case (Cons b bs')
  assume "n < length bs"
  then have "map (\<lambda>j. UnmapPage (buf_addr (bs' ! j)) (buf_len (bs' ! j))) [0..<n] =
      map (\<lambda>x. UnmapPage (buf_addr x) (buf_len x)) (take n bs')"
    using Cons by (intro nth_equalityI) auto
  then show ?thesis using Cons \<open>n < length bs\<close> by (simp add: unmap_bufs_def)
qed simp

text \<open>The fragments that get an address before the first failure.\<close>

fun frag_bufs :: "(nat \<Rightarrow> u64 option) \<Rightarrow> nat \<Rightarrow> u32 list \<Rightarrow> al_buf list" where
  "frag_bufs dma i [] = []"
| "frag_bufs dma i (len # frags) =
     (case dma (Suc i) of None \<Rightarrow> [] | Some a \<Rightarrow> \<lparr>buf_addr = a, buf_len = len\<rparr> # frag_bufs dma (Suc i) frags)"

lemma length_frag_bufs: "length (frag_bufs dma i frags) \<le> length frags"
  by (induction dma i frags rule: frag_bufs.induct) (auto split: option.split)

lemma map_frags_eq:
  fixes dma :: "nat \<Rightarrow> u64 option"
  assumes "i + length frags < length bs"
  defines "fb \<equiv> frag_bufs dma i frags"
  obtains bs' where "map_frags dma i frags (bs, log) =
      Some (i + length fb, length fb = length frags, bs', log @ map (\<lambda>x. MapPage (buf_addr x) (buf_len x)) fb)"
    "length bs' = length bs" "take (Suc i + length fb) bs' = take (Suc i) bs @ fb"
proof -
  have "\<exists>bs'. map_frags dma i frags (bs, log) =
      Some (i + length (frag_bufs dma i frags), length (frag_bufs dma i frags) = length frags, bs',
        log @ map (\<lambda>x. MapPage (buf_addr x) (buf_len x)) (frag_bufs dma i frags)) \<and>
      length bs' = length bs \<and> take (Suc i + length (frag_bufs dma i frags)) bs' = take (Suc i) bs @ frag_bufs dma i frags"
    using assms(1)
  proof (induction frags arbitrary: i bs log)
    case (Cons len frags)
    show ?case
    proof (cases "dma (Suc i)")
      case (Some a)
      let ?b = "\<lparr>buf_addr = a, buf_len = len\<rparr>"
      have lt: "Suc i < length bs" "Suc i + length frags < length (bs[Suc i := ?b])" using Cons.prems by simp_all
      from Cons.IH [OF lt(2), of "log @ [MapPage a len]"] obtain bs' where b:
        "map_frags dma (Suc i) frags (bs[Suc i := ?b], log @ [MapPage a len]) =
          Some (Suc i + length (frag_bufs dma (Suc i) frags), length (frag_bufs dma (Suc i) frags) = length frags, bs',
            (log @ [MapPage a len]) @ map (\<lambda>x. MapPage (buf_addr x) (buf_len x)) (frag_bufs dma (Suc i) frags))"
        "length bs' = length bs"
        "take (Suc (Suc i) + length (frag_bufs dma (Suc i) frags)) bs' =
          take (Suc (Suc i)) (bs[Suc i := ?b]) @ frag_bufs dma (Suc i) frags" by auto
      have "take (Suc (Suc i)) (bs[Suc i := ?b]) = take (Suc i) bs @ [?b]"
        using lt(1) by (simp add: take_Suc_conv_app_nth del: take_Suc)
      then show ?thesis using b Some lt(1) by simp
    qed simp
  qed simp
  then show thesis using that unfolding fb_def by blast
qed

subsection \<open>The invariant of the transmit path\<close>

definition tx_busy :: "al_eth_tx_buffer \<Rightarrow> bool" where
  "tx_busy b \<longleftrightarrow> tx_skb b \<noteq> None \<and> 0 < unat (tx_descs b) \<and> unat (num_of_bufs (tx_hal_pkt b)) \<in> {1..18}"

definition descs_of :: "al_eth_tx_buffer list \<Rightarrow> nat" where
  "descs_of bs = sum_list (map (\<lambda>b. unat (tx_descs b)) bs)"

definition bufs_ok :: "tx_state \<Rightarrow> bool" where
  "bufs_ok s \<longleftrightarrow> (\<forall>b \<in> set (tx_buffer_info (tx_ring s)). length (pkt_bufs (tx_hal_pkt b)) = 19)"

definition tx_wf :: "tx_state \<Rightarrow> bool" where
  "tx_wf s \<longleftrightarrow> (let r = tx_ring s; q = tx_dma_q r in
     tx_idx_ok r \<and> udma_ring_ok q \<and> unat (q_size q) = 1024 \<and> bufs_ok s \<and> (\<forall>b \<in> set (tx_pending r). tx_busy b))"

definition tx_ok :: "tx_state \<Rightarrow> bool" where
  "tx_ok s \<longleftrightarrow> (let r = tx_ring s; q = tx_dma_q r in
     tx_wf s \<and> descs_of (tx_pending r) = udma_in_flight q \<and>
     (\<not> txq_stopped s \<longrightarrow> 19 \<le> unat (al_udma_available_get q)))"

lemmas tx_inv_defs = tx_ok_def tx_wf_def bufs_ok_def

lemma tx_okD:
  assumes "tx_ok s"
  shows "tx_idx_ok (tx_ring s)" "udma_ring_ok (tx_dma_q (tx_ring s))" "unat (q_size (tx_dma_q (tx_ring s))) = 1024"
    "b \<in> set (tx_buffer_info (tx_ring s)) \<Longrightarrow> length (pkt_bufs (tx_hal_pkt b)) = 19"
    "b \<in> set (tx_pending (tx_ring s)) \<Longrightarrow> tx_busy b"
    "descs_of (tx_pending (tx_ring s)) = udma_in_flight (tx_dma_q (tx_ring s))"
    "\<not> txq_stopped s \<Longrightarrow> 19 \<le> unat (al_udma_available_get (tx_dma_q (tx_ring s)))"
  using assms by (auto simp: tx_inv_defs Let_def)

lemma count_le_descs: "(\<forall>b \<in> set bs. tx_busy b) \<Longrightarrow> length bs \<le> descs_of bs"
  by (induction bs) (auto simp: descs_of_def tx_busy_def)

text \<open>The slot at \<open>next_to_use\<close> holds no pending packet.\<close>

lemma pending_frame:
  assumes "tx_idx_ok r" "tx_buffer_info r' = (tx_buffer_info r)[unat (next_to_use r) := b]"
    and "next_to_use r' = next_to_use r" "next_to_clean r' = next_to_clean r"
  shows "tx_idx_ok r' \<and> tx_pending r' = tx_pending r"
proof -
  have c: "tx_count r' = tx_count r" by (simp add: tx_count_def assms)
  have "Suc (tx_count r) \<le> 1024" by (simp add: tx_count_def Suc_le_eq)
  then have "distinct (ring_slots 1024 (unat (next_to_clean r)) (Suc (tx_count r)))" by (rule distinct_ring_slots)
  then have "unat (next_to_use r) \<notin> set (ring_slots 1024 (unat (next_to_clean r)) (tx_count r))"
    unfolding ring_slots_Suc tx_use_slot [OF assms(1)] by simp
  then have "tx_pending r' = tx_pending r"
    unfolding tx_pending_def c assms(2,4) by (intro map_cong refl nth_list_update_neq) auto
  then show ?thesis using assms by (simp add: tx_idx_ok_def)
qed

lemma tx_ok_frame:
  assumes "tx_ok s" "length (pkt_bufs (tx_hal_pkt b)) = 19"
    and "tx_ring s' = (tx_ring s)\<lparr>hal_meta := m, tx_buffer_info := (tx_buffer_info (tx_ring s))[unat (next_to_use (tx_ring s)) := b]\<rparr>"
    and "txq_stopped s' = txq_stopped s"
  shows "tx_ok s' \<and> tx_pending (tx_ring s') = tx_pending (tx_ring s)"
proof -
  have p: "tx_idx_ok (tx_ring s') \<and> tx_pending (tx_ring s') = tx_pending (tx_ring s)"
    by (rule pending_frame [OF tx_okD(1) [OF assms(1)]]) (simp_all add: assms(3))
  have "\<forall>b' \<in> set (tx_buffer_info (tx_ring s')). length (pkt_bufs (tx_hal_pkt b')) = 19"
    using assms(2) tx_okD(4) [OF assms(1)] by (auto simp: assms(3) dest!: set_update_subset_insert [THEN subsetD])
  then show ?thesis using p tx_okD [OF assms(1)] assms(3,4) by (simp add: tx_inv_defs)
qed

lemma set_tx_info_twice [simp]: "set_tx_info i b (set_tx_info i b' s) = set_tx_info i b s"
  "set_tx_info i b (tx_emit ev s) = tx_emit ev (set_tx_info i b s)"
  by (simp_all add: set_tx_info_def tx_emit_def)

lemma tx_emit_simps [simp]: "tx_ring (tx_emit ev s) = tx_ring s" "tx_mem (tx_emit ev s) = tx_mem s" "tx_io (tx_emit ev s) = tx_io s"
  "txq_stopped (tx_emit ev s) = txq_stopped s" "tx_log (tx_emit ev s) = tx_log s @ ev"
  "tx_emit ev (tx_emit ev' s) = tx_emit (ev' @ ev) s"
  by (simp_all add: tx_emit_def)

text \<open>What the offload code leaves of the packet and of the socket buffer.\<close>

lemma csum_result:
  assumes "al_eth_tx_csum meta pkt skb = (rc, meta', pkt', skb')"
  shows "pkt_bufs pkt' = pkt_bufs pkt" "skb_id skb' = skb_id skb" "skb_frags skb' = skb_frags skb"
    "skb_len skb' = skb_len skb" "skb_headlen skb' = skb_headlen skb"
  using assms by (simp_all add: al_eth_tx_csum_def Let_def split_def split: if_splits) (auto split: if_splits)

lemma ucast_u16_eq_0: "(ucast g :: u32) = 0 \<longleftrightarrow> g = 0" for g :: u16
  by (simp only: word_unat_eq_iff unat_ucast_u16_u32) simp

lemma csum_meta:
  assumes "al_eth_tx_csum meta pkt skb = (RcOk, meta', pkt', skb')"
  shows "pkt_meta pkt' = (if csum_partial skb \<or> gso_size skb \<noteq> 0 then Some meta' else None)"
  using assms by (auto simp: al_eth_tx_csum_def Let_def split_def ucast_u16_eq_0 split: if_splits)

lemma csum_flags:
  assumes "al_eth_tx_csum meta pkt skb = (rc, meta', pkt', skb')"
  shows "pkt_flags pkt' = pkt_flags pkt \<or>
    pkt_flags pkt' = pkt_flags pkt OR (AL_ETH_TX_FLAGS_L4_CSUM OR AL_ETH_TX_FLAGS_L4_PARTIAL_CSUM) \<or>
    pkt_flags pkt' = pkt_flags pkt OR (AL_ETH_TX_FLAGS_TSO OR AL_ETH_TX_FLAGS_L4_CSUM) \<or>
    pkt_flags pkt' = pkt_flags pkt OR (AL_ETH_TX_FLAGS_TSO OR AL_ETH_TX_FLAGS_L4_CSUM) OR AL_ETH_TX_FLAGS_IPV4_L3_CSUM"
  using assms by (auto simp: or.assoc al_eth_tx_csum_def Let_def split_def split: if_splits)

lemma csum_pkt_ok:
  assumes "al_eth_tx_csum meta pkt skb = (rc, meta', pkt', skb')" "pkt_flags pkt = AL_ETH_TX_FLAGS_INT"
    and "pkt_flags p = pkt_flags pkt'" "unat (num_of_bufs p) \<le> length (pkt_bufs p)"
  shows "eth_pkt_ok p"
proof -
  have "\<not> AL_REG_MASK_IS_SET (pkt_flags p) AL_ETH_TX_FLAGS_TS"
    "AL_REG_MASK_IS_SET (pkt_flags p) AL_ETH_TX_FLAGS_L4_PARTIAL_CSUM \<longrightarrow> AL_REG_MASK_IS_SET (pkt_flags p) AL_ETH_TX_FLAGS_L4_CSUM"
    using csum_flags [OF assms(1)] unfolding assms(2,3) AL_REG_MASK_IS_SET_def eth_flag_consts desc_consts and_AL_BIT
    by (auto simp: bit_or_iff bit_AL_BIT)
  then show ?thesis using assms(4) by (simp add: eth_pkt_ok_def)
qed

subsection \<open>Transmission\<close>

lemma xmit_submit_result:
  assumes ok: "tx_ok s" and st: "\<not> txq_stopped s" and fr: "length (skb_frags skb) \<le> 17"
    and info: "tx_skb info \<noteq> None" "length (pkt_bufs (tx_hal_pkt info)) = 19"
  defines "hp \<equiv> (tx_hal_pkt info)\<lparr>num_of_bufs := of_nat (1 + length (skb_frags skb))\<rparr>"
  assumes hp: "eth_pkt_ok hp"
  defines "b \<equiv> info\<lparr>tx_hal_pkt := hp, tx_descs := of_nat (length (eth_pkt_descs hp))\<rparr>"
  obtains s' where "xmit_submit (unat (next_to_use (tx_ring s))) info skb s = Some s'"
    "tx_ok s'" "tx_pending (tx_ring s') = tx_pending (tx_ring s) @ [b]"
    "tx_log s' = tx_log s @ [TxSentQueue (skb_len skb)]"
    "(tx_dma_q (tx_ring s'), tx_mem s') = desc_puts (eth_pkt_descs hp) (tx_dma_q (tx_ring s), tx_mem s)"
    "txq_stopped s' \<longleftrightarrow> unat (al_udma_available_get (tx_dma_q (tx_ring s'))) < 19"
    "tx_io s' = al_reg_write32_relaxed (tx_io s) (rings_reg (tx_dma_q (tx_ring s)) rings_drtp_inc) (tx_descs b)"
proof -
  let ?q = "tx_dma_q (tx_ring s)" and ?k = "length (eth_pkt_descs hp)"
  note ok' = tx_okD [OF ok]
  have nb: "unat (num_of_bufs hp) = 1 + length (skb_frags skb)"
    using fr by (simp add: hp_def unsigned_of_nat take_bit_nat_eq_self del: of_nat_Suc)
  have k: "1 \<le> ?k" "?k \<le> 19" using fr by (simp_all add: length_eth_pkt_descs nb)
  have av: "19 \<le> unat (al_udma_available_get ?q)" using ok'(7) st by simp
  obtain q' mem' where p: "desc_puts (eth_pkt_descs hp) (?q, tx_mem s) = (q', mem')" by fastforce
  have prep: "al_eth_tx_pkt_prepare hp (?q, tx_mem s) = Some (of_nat ?k, q', mem')"
    using k av by (simp add: eth_prepare_eq [OF hp] p)
  have took: "ring_took (?q, tx_mem s) ?k (q', mem')"
    using desc_puts_took [of "(?q, tx_mem s)" "eth_pkt_descs hp"] k av ok'(2) p by simp
  note t = ring_tookD [OF took, simplified]
  have sz: "unat (q_size q') = 1024" using t(2) ok'(3) by simp
  have uk: "unat (of_nat ?k :: u32) = ?k" by (rule eth_descs_count(3))
  have fl: "udma_in_flight q' = udma_in_flight ?q + ?k"
    using available_unat [OF ok'(2)] available_unat [OF t(1)] t(4) sz ok'(3) k av by simp
  have "al_assert (0 < (of_nat ?k :: u32) \<and> of_nat ?k \<le> q_size q') = Some ()"
    using k by (auto simp: word_less_nat_alt word_le_nat_alt uk sz)
  then have db: "al_eth_tx_dma_action q' (of_nat ?k) m =
      Some (al_reg_write32_relaxed m (rings_reg ?q rings_drtp_inc) (of_nat ?k))" for m
    by (simp add: al_eth_tx_dma_action_def al_udma_desc_action_add_def rings_reg_def t(3))
  have lim: "al_assert (length (skb_frags skb) \<le> unat (AL_ETH_PKT_MAX_BUFS - 2)) = Some ()"
    using fr by (simp add: AL_ETH_PKT_MAX_BUFS_def)
  have lt: "al_udma_available_get q' < MAX_SKB_FRAGS + 2 \<longleftrightarrow> unat (al_udma_available_get q') < 19"
    by (simp add: MAX_SKB_FRAGS_def word_less_nat_alt)
  define r' where "r' = (tx_ring s)\<lparr>tx_dma_q := q', stat_packets := stat_packets (tx_ring s) + 1,
      stat_bytes := stat_bytes (tx_ring s) + ucast (skb_len skb), next_to_use := AL_ETH_TX_RING_IDX_NEXT (next_to_use (tx_ring s)),
      tx_buffer_info := (tx_buffer_info (tx_ring s))[unat (next_to_use (tx_ring s)) := b]\<rparr>"
  define s' where "s' = \<lparr>tx_ring = r', tx_mem = mem',
      tx_io = al_reg_write32_relaxed (tx_io s) (rings_reg ?q rings_drtp_inc) (tx_descs b),
      txq_stopped = unat (al_udma_available_get q') < 19, tx_log = tx_log s @ [TxSentQueue (skb_len skb)]\<rparr>"
  have eq: "xmit_submit (unat (next_to_use (tx_ring s))) info skb s = Some s'"
    unfolding xmit_submit_def Let_def hp_def [symmetric] lim tx_emit_simps
    by (simp add: prep db lt)
      (auto simp: set_tx_info_def s'_def r'_def b_def st db intro!: tx_state.equality al_eth_tx_ring.equality)
  have cnt: "tx_count (tx_ring s) < 1023"
    using count_le_descs [of "tx_pending (tx_ring s)"] ok'(5,6) available_unat [OF ok'(2)] av ok'(3) by simp
  have push: "tx_idx_ok r' \<and> tx_pending r' = tx_pending (tx_ring s) @ [b]"
    by (rule tx_push [OF ok'(1) cnt]) (simp_all add: r'_def)
  have "tx_busy b" using k info fr nb uk by (auto simp: tx_busy_def b_def)
  moreover have "\<forall>x \<in> set (tx_buffer_info r'). length (pkt_bufs (tx_hal_pkt x)) = 19"
    using info ok'(4) by (auto simp: r'_def b_def hp_def dest!: set_update_subset_insert [THEN subsetD])
  moreover have "tx_dma_q r' = q'" by (simp add: r'_def)
  ultimately have "tx_ok s'"
    using push ok'(5,6) t(1) sz fl uk by (auto simp: tx_inv_defs s'_def descs_of_def b_def)
  moreover have "tx_ring s' = r'" "tx_dma_q r' = q'" by (simp_all add: s'_def r'_def)
  ultimately show thesis using eq push p by (intro that [of s']) (simp_all add: s'_def)
qed

text \<open>The status of the offload code depends on the socket buffer only.\<close>

definition offload_rc :: "sk_buff \<Rightarrow> rc" where
  "offload_rc skb = fst (al_eth_tx_csum zero_meta zero_pkt skb)"

lemma csum_rc: "fst (al_eth_tx_csum meta pkt skb) = offload_rc skb"
  by (simp add: offload_rc_def al_eth_tx_csum_def Let_def split_def)

lemma start_xmit_eq:
  fixes s :: tx_state and dma :: "nat \<Rightarrow> u64 option"
  defines "r \<equiv> tx_ring s"
  defines "i \<equiv> unat (next_to_use r)"
  assumes ok: "tx_ok s" and pad: "pad skb = Some skb1"
    and cs: "al_eth_tx_csum (hal_meta r) ((tx_hal_pkt (tx_buffer_info r ! i))\<lparr>pkt_flags := AL_ETH_TX_FLAGS_INT\<rparr>) skb1 = (rc, meta, hp, skb2)"
    and fr: "length (skb_frags skb1) \<le> 17"
  defines "info \<equiv> (tx_buffer_info r ! i)\<lparr>tx_skb := Some skb2, tx_hal_pkt := hp\<rparr>"
    and "s0 \<equiv> s\<lparr>tx_ring := r\<lparr>hal_meta := meta\<rparr>\<rparr>" and "fb \<equiv> frag_bufs dma 0 (skb_frags skb1)"
  shows "length (pkt_bufs hp) = 19"
    "rc \<noteq> RcOk \<Longrightarrow> al_eth_start_xmit pad dma skb s = xmit_error i info skb2 0 (set_tx_info i info s0)"
    "rc = RcOk \<Longrightarrow> dma 0 = None \<Longrightarrow> al_eth_start_xmit pad dma skb s = Some (tx_emit [KfreeSkb (skb_id skb2)] (set_tx_info i info s0))"
    "rc = RcOk \<Longrightarrow> dma 0 = Some a \<Longrightarrow>
      \<exists>bs. length bs = 19 \<and> take (Suc (length fb)) bs = \<lparr>buf_addr = a, buf_len = skb_headlen skb1\<rparr> # fb \<and>
        (let info' = info\<lparr>tx_hal_pkt := hp\<lparr>pkt_bufs := bs\<rparr>\<rparr>;
             s' = tx_emit (map_events (\<lparr>buf_addr = a, buf_len = skb_headlen skb1\<rparr> # fb)) (set_tx_info i info' s0)
         in al_eth_start_xmit pad dma skb s =
              (if length fb = length (skb_frags skb1) then xmit_submit i info' skb2 s' else xmit_error i info' skb2 (length fb) s'))"
proof -
  have i: "i < length (tx_buffer_info r)" using tx_okD(1) [OF ok] by (simp add: tx_idx_ok_def i_def r_def)
  note c = csum_result [OF cs]
  have "tx_buffer_info r ! i \<in> set (tx_buffer_info r)" using i by simp
  then have l: "length (pkt_bufs (tx_hal_pkt (tx_buffer_info r ! i))) = 19" using tx_okD(4) [OF ok] by (simp add: r_def)
  then show l19: "length (pkt_bufs hp) = 19" using c(1) by simp
  note eq = al_eth_start_xmit_def [of pad dma skb s, unfolded Let_def, folded r_def, folded i_def]
  note eqs = eq pad option.case al_eth_tx_buffer.simps cs prod.case
  show "rc \<noteq> RcOk \<Longrightarrow> al_eth_start_xmit pad dma skb s = xmit_error i info skb2 0 (set_tx_info i info s0)"
    using i by (simp add: eqs info_def s0_def)
  show "rc = RcOk \<Longrightarrow> dma 0 = None \<Longrightarrow> al_eth_start_xmit pad dma skb s = Some (tx_emit [KfreeSkb (skb_id skb2)] (set_tx_info i info s0))"
    using i by (simp add: eqs info_def s0_def)
  assume rc: "rc = RcOk" and a: "dma 0 = Some a"
  let ?b = "\<lparr>buf_addr = a, buf_len = skb_headlen skb1\<rparr>"
  have lt: "0 + length (skb_frags skb1) < length ((pkt_bufs hp)[0 := ?b])" using fr l19 by simp
  from map_frags_eq [OF lt, where dma = dma and log = "[MapSingle a (skb_headlen skb1)]"] obtain bs where bs:
    "map_frags dma 0 (skb_frags skb1) ((pkt_bufs hp)[0 := ?b], [MapSingle a (skb_headlen skb1)]) =
      Some (length fb, length fb = length (skb_frags skb1), bs, map_events (?b # fb))"
    "length bs = 19" "take (Suc (length fb)) bs = take (Suc 0) ((pkt_bufs hp)[0 := ?b]) @ fb"
    using l19 unfolding fb_def by auto
  have "take (Suc 0) ((pkt_bufs hp)[0 := ?b]) = [?b]" using l19 by (cases "pkt_bufs hp") auto
  then show "\<exists>bs. length bs = 19 \<and> take (Suc (length fb)) bs = ?b # fb \<and>
        (let info' = info\<lparr>tx_hal_pkt := hp\<lparr>pkt_bufs := bs\<rparr>\<rparr>;
             s' = tx_emit (map_events (?b # fb)) (set_tx_info i info' s0)
         in al_eth_start_xmit pad dma skb s =
              (if length fb = length (skb_frags skb1) then xmit_submit i info' skb2 s' else xmit_error i info' skb2 (length fb) s'))"
    using i bs rc a c by (intro exI [of _ bs]) (simp add: eqs info_def s0_def Let_def del: map_events.simps)
qed

lemma xmit_error_result:
  "n < length (pkt_bufs (tx_hal_pkt info)) \<Longrightarrow> xmit_error i info skb n s =
     Some (tx_emit (unmap_events (take (Suc n) (pkt_bufs (tx_hal_pkt info))) @ [KfreeSkb (skb_id skb)]) (set_tx_info i (info\<lparr>tx_skb := None\<rparr>) s))"
  by (simp add: xmit_error_def unmap_bufs_eq Let_def)

lemma frame_ok:
  fixes m :: al_eth_meta_data and ev :: "tx_event list"
  assumes "tx_ok s" "length (pkt_bufs (tx_hal_pkt b)) = 19"
  defines "s' \<equiv> tx_emit ev (set_tx_info (unat (next_to_use (tx_ring s))) b (s\<lparr>tx_ring := (tx_ring s)\<lparr>hal_meta := m\<rparr>\<rparr>))"
  shows "tx_ok s'" "tx_pending (tx_ring s') = tx_pending (tx_ring s)" "tx_log s' = tx_log s @ ev" "txq_stopped s' = txq_stopped s"
    "next_to_use (tx_ring s') = next_to_use (tx_ring s)" "tx_dma_q (tx_ring s') = tx_dma_q (tx_ring s)" "tx_mem s' = tx_mem s" "tx_io s' = tx_io s"
  using tx_ok_frame [OF assms(1,2), of s' m] by (simp_all add: s'_def set_tx_info_def)

lemma start_xmit_mapped:
  fixes s :: tx_state and dma :: "nat \<Rightarrow> u64 option"
  defines "r \<equiv> tx_ring s"
  assumes ok: "tx_ok s" and run: "\<not> txq_stopped s" and pad: "pad skb = Some skb1" and fr: "length (skb_frags skb1) \<le> 17"
    and cs: "al_eth_tx_csum (hal_meta r) ((tx_hal_pkt (tx_buffer_info r ! unat (next_to_use r)))\<lparr>pkt_flags := AL_ETH_TX_FLAGS_INT\<rparr>) skb1 =
      (RcOk, meta, hp, skb2)"
    and a: "dma 0 = Some a"
  defines "fb \<equiv> frag_bufs dma 0 (skb_frags skb1)"
  defines "bs \<equiv> \<lparr>buf_addr = a, buf_len = skb_headlen skb1\<rparr> # fb"
  shows "\<exists>s'. al_eth_start_xmit pad dma skb s = Some s' \<and> tx_ok s' \<and>
    (if length fb < length (skb_frags skb1) then
       tx_pending (tx_ring s') = tx_pending r \<and> tx_log s' = tx_log s @ map_events bs @ unmap_events bs @ [KfreeSkb (skb_id skb1)]
     else
       tx_log s' = tx_log s @ map_events bs @ [TxSentQueue (skb_len skb1)] \<and>
       (txq_stopped s' \<longleftrightarrow> unat (al_udma_available_get (tx_dma_q (tx_ring s'))) < 19) \<and>
       (\<exists>b. tx_pending (tx_ring s') = tx_pending r @ [b] \<and> map_option (\<lambda>k. (skb_id k, skb_len k)) (tx_skb b) = Some (skb_id skb1, skb_len skb1) \<and>
          take (unat (num_of_bufs (tx_hal_pkt b))) (pkt_bufs (tx_hal_pkt b)) = bs \<and>
          unat (tx_descs b) = length bs + (if csum_partial skb1 \<or> gso_size skb1 \<noteq> 0 then 1 else 0) \<and>
          (tx_dma_q (tx_ring s'), tx_mem s') = desc_puts (eth_pkt_descs (tx_hal_pkt b)) (tx_dma_q r, tx_mem s) \<and>
          tx_io s' = al_reg_write32_relaxed (tx_io s) (rings_reg (tx_dma_q r) rings_drtp_inc) (tx_descs b)))"
proof -
  let ?i = "unat (next_to_use r)" and ?s0 = "s\<lparr>tx_ring := r\<lparr>hal_meta := meta\<rparr>\<rparr>"
  note c = csum_result [OF cs]
  obtain bfs where bfs: "length bfs = 19" "take (Suc (length fb)) bfs = bs"
    and eq: "al_eth_start_xmit pad dma skb s =
      (let info = (tx_buffer_info r ! ?i)\<lparr>tx_skb := Some skb2, tx_hal_pkt := hp\<lparr>pkt_bufs := bfs\<rparr>\<rparr>;
           s' = tx_emit (map_events bs) (set_tx_info ?i info ?s0)
       in if length fb = length (skb_frags skb1) then xmit_submit ?i info skb2 s' else xmit_error ?i info skb2 (length fb) s')"
    using start_xmit_eq(4) [where pad = pad and skb = skb and dma = dma and a = a, OF ok pad cs [unfolded r_def] fr refl a] unfolding bs_def fb_def r_def by (auto simp: Let_def)
  define info where "info = (tx_buffer_info r ! ?i)\<lparr>tx_skb := Some skb2, tx_hal_pkt := hp\<lparr>pkt_bufs := bfs\<rparr>\<rparr>"
  define s1 where "s1 = tx_emit (map_events bs) (set_tx_info ?i info ?s0)"
  have li: "length (pkt_bufs (tx_hal_pkt info)) = 19" by (simp add: info_def bfs)
  note f = frame_ok [OF ok li, of "map_events bs" meta, folded r_def, folded s1_def]
  have le: "length fb \<le> length (skb_frags skb1)" unfolding fb_def by (rule length_frag_bufs)
  show ?thesis
  proof (cases "length fb < length (skb_frags skb1)")
    case True
    have "length (pkt_bufs (tx_hal_pkt (info\<lparr>tx_skb := None\<rparr>))) = 19" by (simp add: li)
    note g = frame_ok [OF ok this, of _ meta, folded r_def]
    have "length fb < length (pkt_bufs (tx_hal_pkt info))" using True fr li by simp
    then have "al_eth_start_xmit pad dma skb s =
        Some (tx_emit (map_events bs @ unmap_events bs @ [KfreeSkb (skb_id skb1)]) (set_tx_info ?i (info\<lparr>tx_skb := None\<rparr>) ?s0))"
      using True c(2) bfs(2) unfolding eq by (simp add: Let_def xmit_error_result info_def [symmetric]) (simp add: info_def)
    then show ?thesis using True g by simp
  next
    case False
    define hq where "hq = (tx_hal_pkt info)\<lparr>num_of_bufs := of_nat (1 + length (skb_frags skb2))\<rparr>"
    have fb: "length fb = length (skb_frags skb1)" using False le by simp
    have nb: "unat (num_of_bufs hq) = Suc (length fb)"
      using fr by (simp add: hq_def c(3) fb unsigned_of_nat take_bit_nat_eq_self del: of_nat_Suc)
    have "eth_pkt_ok hq"
      using nb fb fr by (intro csum_pkt_ok [OF cs]) (simp_all add: hq_def info_def bfs)
    moreover have "\<not> txq_stopped s1" "length (skb_frags skb2) \<le> 17" "tx_skb info \<noteq> None"
      using f(4) run fr by (simp_all add: c(3) info_def)
    ultimately obtain s' where s': "xmit_submit ?i info skb2 s1 = Some s'" "tx_ok s'"
      "tx_pending (tx_ring s') = tx_pending r @ [info\<lparr>tx_hal_pkt := hq, tx_descs := of_nat (length (eth_pkt_descs hq))\<rparr>]"
      "tx_log s' = tx_log s @ map_events bs @ [TxSentQueue (skb_len skb1)]"
      "(tx_dma_q (tx_ring s'), tx_mem s') = desc_puts (eth_pkt_descs hq) (tx_dma_q r, tx_mem s)"
      "txq_stopped s' \<longleftrightarrow> unat (al_udma_available_get (tx_dma_q (tx_ring s'))) < 19"
      "tx_io s' = al_reg_write32_relaxed (tx_io s) (rings_reg (tx_dma_q r) rings_drtp_inc) (of_nat (length (eth_pkt_descs hq)))"
      using xmit_submit_result [OF f(1) _ _ _ li, of skb2] unfolding hq_def [symmetric] by (auto simp: f c(4))
    have meta: "pkt_meta hq = None \<longleftrightarrow> \<not> (csum_partial skb1 \<or> gso_size skb1 \<noteq> 0)"
      using csum_meta [OF cs] by (auto simp: hq_def info_def)
    have run': "al_eth_start_xmit pad dma skb s = Some s'"
      using s'(1) fb unfolding eq by (simp add: Let_def info_def [symmetric] s1_def [symmetric])
    have tk: "take (unat (num_of_bufs hq)) (pkt_bufs hq) = bs" unfolding nb bfs(2) [symmetric] by (simp add: hq_def info_def)
    have kk: "unat (of_nat (length (eth_pkt_descs hq)) :: u32) = length bs + (if csum_partial skb1 \<or> gso_size skb1 \<noteq> 0 then 1 else 0)"
      by (subst eth_descs_count(3)) (simp add: length_eth_pkt_descs nb meta bs_def)
    show ?thesis using False run' s' tk kk c(2,4) by (intro exI [of _ s']) (simp add: info_def)
  qed
qed

text \<open>What a transmission is to do in each case.\<close>

definition xmit_spec :: "(sk_buff \<Rightarrow> sk_buff option) \<Rightarrow> (nat \<Rightarrow> u64 option) \<Rightarrow> sk_buff \<Rightarrow> tx_state \<Rightarrow> tx_state \<Rightarrow> bool" where
  "xmit_spec pad dma skb s s' \<longleftrightarrow>
    (case pad skb of
       None \<Rightarrow> s' = tx_emit [KfreeSkb (skb_id skb)] s
     | Some skb1 \<Rightarrow>
         let fb = frag_bufs dma 0 (skb_frags skb1)
         in if offload_rc skb1 \<noteq> RcOk then
              tx_pending (tx_ring s') = tx_pending (tx_ring s) \<and>
              (\<exists>a l. tx_log s' = tx_log s @ [UnmapSingle a l, KfreeSkb (skb_id skb1)])
            else case dma 0 of
              None \<Rightarrow> tx_pending (tx_ring s') = tx_pending (tx_ring s) \<and> tx_log s' = tx_log s @ [KfreeSkb (skb_id skb1)]
            | Some a \<Rightarrow>
                let bs = \<lparr>buf_addr = a, buf_len = skb_headlen skb1\<rparr> # fb
                in if length fb < length (skb_frags skb1) then
                     tx_pending (tx_ring s') = tx_pending (tx_ring s) \<and>
                     tx_log s' = tx_log s @ map_events bs @ unmap_events bs @ [KfreeSkb (skb_id skb1)]
                   else
                     tx_log s' = tx_log s @ map_events bs @ [TxSentQueue (skb_len skb1)] \<and>
                     (txq_stopped s' \<longleftrightarrow> unat (al_udma_available_get (tx_dma_q (tx_ring s'))) < 19) \<and>
                     (\<exists>b. tx_pending (tx_ring s') = tx_pending (tx_ring s) @ [b] \<and>
                        map_option (\<lambda>k. (skb_id k, skb_len k)) (tx_skb b) = Some (skb_id skb1, skb_len skb1) \<and>
                        take (unat (num_of_bufs (tx_hal_pkt b))) (pkt_bufs (tx_hal_pkt b)) = bs \<and>
                        unat (tx_descs b) = length bs + (if csum_partial skb1 \<or> gso_size skb1 \<noteq> 0 then 1 else 0) \<and>
                        (tx_dma_q (tx_ring s'), tx_mem s') = desc_puts (eth_pkt_descs (tx_hal_pkt b)) (tx_dma_q (tx_ring s), tx_mem s) \<and>
                        tx_io s' = al_reg_write32_relaxed (tx_io s) (rings_reg (tx_dma_q (tx_ring s)) rings_drtp_inc) (tx_descs b)))"

lemma start_xmit_result:
  assumes ok: "tx_ok s" and run: "\<not> txq_stopped s" and fr: "\<And>skb1. pad skb = Some skb1 \<Longrightarrow> length (skb_frags skb1) \<le> 17"
  shows "\<exists>s'. al_eth_start_xmit pad dma skb s = Some s' \<and> tx_ok s' \<and> xmit_spec pad dma skb s s'"
proof (cases "pad skb")
  case None
  have "tx_ok (tx_emit [KfreeSkb (skb_id skb)] s)" using ok by (simp add: tx_inv_defs)
  then show ?thesis using None by (simp add: xmit_spec_def al_eth_start_xmit_def)
next
  case (Some skb1)
  let ?r = "tx_ring s" and ?i = "unat (next_to_use (tx_ring s))" and ?fb = "frag_bufs dma 0 (skb_frags skb1)"
  obtain rc meta hp skb2 where cs: "al_eth_tx_csum (hal_meta ?r)
      ((tx_hal_pkt (tx_buffer_info ?r ! ?i))\<lparr>pkt_flags := AL_ETH_TX_FLAGS_INT\<rparr>) skb1 = (rc, meta, hp, skb2)"
    by (metis surj_pair)
  have rc: "offload_rc skb1 = rc" using csum_rc [of "hal_meta ?r"] cs by (metis fst_conv)
  note c = csum_result [OF cs] and fr' = fr [OF Some]
  note eq = start_xmit_eq(1) [where pad = pad and skb = skb, OF ok Some cs fr']
    start_xmit_eq(2,3) [where pad = pad and skb = skb and dma = dma, OF ok Some cs fr']
  show ?thesis
  proof (cases "rc = RcOk")
    case False
    then show ?thesis unfolding xmit_spec_def
      using Some rc eq(1) frame_ok [OF ok] c(2) hd_Cons_tl
      by (cases "pkt_bufs hp") (simp_all add: eq(2) xmit_error_result)
  next
    case rcok: True
    show ?thesis
    proof (cases "dma 0")
      case None
      then show ?thesis unfolding xmit_spec_def using Some rc rcok eq(1,3) frame_ok [OF ok] c(2) by simp
    next
      case (Some a)
      from start_xmit_mapped [where pad = pad and skb = skb and dma = dma and a = a, OF ok run \<open>pad skb = Some skb1\<close> fr' cs [unfolded rcok] this] show ?thesis
        unfolding xmit_spec_def using \<open>pad skb = Some skb1\<close> rc rcok Some by (simp only: Let_def option.case) simp
    qed
  qed
qed

subsection \<open>Completion\<close>

definition free_events :: "al_eth_tx_buffer \<Rightarrow> tx_event list" where
  "free_events b = unmap_events (take (unat (num_of_bufs (tx_hal_pkt b))) (pkt_bufs (tx_hal_pkt b))) @ [KfreeSkb (skb_id (the (tx_skb b)))]"

definition bytes_of :: "al_eth_tx_buffer list \<Rightarrow> u32" where
  "bytes_of bs = sum_list (map (\<lambda>b. skb_len (the (tx_skb b))) bs)"

text \<open>The ring during the poll, when the local copy of \<open>next_to_clean\<close> is \<open>ntc\<close>.\<close>

abbreviation ring_at :: "u16 \<Rightarrow> tx_state \<Rightarrow> al_eth_tx_ring" where
  "ring_at ntc s \<equiv> (tx_ring s)\<lparr>next_to_clean := ntc\<rparr>"

text \<open>One round of the loop, for a packet whose descriptors are all completed.\<close>

definition poll_round :: "u16 \<Rightarrow> al_eth_tx_buffer \<Rightarrow> u32 \<Rightarrow> u32 \<Rightarrow> tx_state \<Rightarrow> tx_state" where
  "poll_round ntc b pk by' s =
     (let s = tx_emit (free_events b) (set_tx_info (unat ntc) (b\<lparr>tx_skb := None\<rparr>) s)
      in s\<lparr>tx_ring := (tx_ring s)\<lparr>ring_packets := ring_packets (tx_ring s) + pk, ring_bytes := ring_bytes (tx_ring s) + by'\<rparr>\<rparr>)"

lemma poll_loop_round:
  fixes pk by' :: u32
  assumes "tx_idx_ok (ring_at ntc s)" "tx_pending (ring_at ntc s) = b # bs" "tx_busy b" "length (pkt_bufs (tx_hal_pkt b)) = 19"
    and "tx_descs b \<le> tot"
  defines "s' \<equiv> poll_round ntc b (pk + 1) (by' + bytes_of [b]) s"
  shows "tx_poll_loop tot ntc pk by' s =
      tx_poll_loop (tot - tx_descs b) (AL_ETH_TX_RING_IDX_NEXT ntc) (pk + 1) (by' + bytes_of [b]) s'"
    "tx_idx_ok (ring_at (AL_ETH_TX_RING_IDX_NEXT ntc) s')" "tx_pending (ring_at (AL_ETH_TX_RING_IDX_NEXT ntc) s') = bs"
    "tx_buffer_info (tx_ring s) ! unat ntc = b"
proof -
  let ?n = "AL_ETH_TX_RING_IDX_NEXT ntc"
  have "length (tx_pending (ring_at ntc s)) = Suc (length bs)" unfolding assms(2) by simp
  then have c: "0 < tx_count (ring_at ntc s)" by simp
  have "tx_idx_ok (ring_at ?n s') \<and> tx_pending (ring_at ntc s) = tx_buffer_info (tx_ring s) ! unat ntc # tx_pending (ring_at ?n s')"
    using tx_pop [OF assms(1) c, of "ring_at ?n s'" "b\<lparr>tx_skb := None\<rparr>"]
    by (simp add: s'_def poll_round_def set_tx_info_def Let_def)
  then show 1: "tx_idx_ok (ring_at ?n s')" "tx_pending (ring_at ?n s') = bs" "tx_buffer_info (tx_ring s) ! unat ntc = b"
    using assms(2) by auto
  have nz: "tot \<noteq> 0" using assms(3,5) by (auto simp: tx_busy_def word_le_nat_alt)
  have nlt: "\<not> tot < tx_descs b" using assms(5) by (simp add: not_less)
  obtain skb where skb: "tx_skb b = Some skb" using assms(3) by (auto simp: tx_busy_def)
  have n: "unat (num_of_bufs (tx_hal_pkt b)) - 1 < length (pkt_bufs (tx_hal_pkt b))"
    "Suc (unat (num_of_bufs (tx_hal_pkt b)) - 1) = unat (num_of_bufs (tx_hal_pkt b))"
    using assms(3,4) by (auto simp: tx_busy_def)
  show "tx_poll_loop tot ntc pk by' s = tx_poll_loop (tot - tx_descs b) ?n (pk + 1) (by' + bytes_of [b]) s'"
    using assms(1) nlt nz 1(3) unmap_bufs_eq [OF n(1), unfolded n(2)]
    by (subst tx_poll_loop.simps)
      (simp add: Let_def skb tx_idx_ok_def s'_def poll_round_def free_events_def bytes_of_def)
qed

lemma poll_loop_stop:
  assumes "tx_idx_ok (ring_at ntc s)"
    and "tot = 0 \<or> (\<exists>b bs. tx_pending (ring_at ntc s) = b # bs \<and> tot < tx_descs b)"
  shows "tx_poll_loop tot ntc pk by' s = Some (ntc, pk, by', s)"
proof -
  have "tot < tx_descs (tx_buffer_info (tx_ring s) ! unat ntc)" if p: "tx_pending (ring_at ntc s) = b # bs" "tot < tx_descs b" for b bs
  proof -
    have "0 < tx_count (ring_at ntc s)" using p(1) by (metis length_tx_pending length_greater_0_conv list.distinct(1))
    then have "tx_pending (ring_at ntc s) ! 0 = tx_buffer_info (tx_ring s) ! unat ntc"
      using assms(1) by (simp add: tx_pending_def ring_slots_def tx_idx_ok_def)
    then show ?thesis using p by simp
  qed
  then show ?thesis using assms by (subst tx_poll_loop.simps) (auto simp: tx_idx_ok_def Let_def)
qed

text \<open>What a completion leaves alone.\<close>

definition poll_frame :: "tx_state \<Rightarrow> tx_state \<Rightarrow> bool" where
  "poll_frame s s' \<longleftrightarrow> tx_dma_q (tx_ring s') = tx_dma_q (tx_ring s) \<and> next_to_use (tx_ring s') = next_to_use (tx_ring s) \<and>
     unmask_reg_offset (tx_ring s') = unmask_reg_offset (tx_ring s) \<and> unmask_val (tx_ring s') = unmask_val (tx_ring s) \<and>
     tx_mem s' = tx_mem s \<and> tx_io s' = tx_io s \<and> txq_stopped s' = txq_stopped s"

lemma poll_round_keeps:
  assumes "bufs_ok s" "length (pkt_bufs (tx_hal_pkt b)) = 19"
  shows "poll_frame s (poll_round ntc b pk by' s)" "bufs_ok (poll_round ntc b pk by' s)"
    "tx_log (poll_round ntc b pk by' s) = tx_log s @ free_events b"
    "ring_packets (tx_ring (poll_round ntc b pk by' s)) = ring_packets (tx_ring s) + pk"
  using assms by (auto simp: poll_frame_def bufs_ok_def poll_round_def set_tx_info_def Let_def dest!: set_update_subset_insert [THEN subsetD])

lemma poll_loop_result:
  assumes "tx_idx_ok (ring_at ntc s)" "\<forall>b \<in> set P. tx_busy b" "bufs_ok s" "m \<le> length P"
    and "unat tot = descs_of (take m P) + e" "e = 0 \<or> m < length P \<and> e < unat (tx_descs (P ! m))"
    and "P = tx_pending (ring_at ntc s)"
  shows "\<exists>ntc' s'. tx_poll_loop tot ntc pk by' s = Some (ntc', pk + of_nat m, by' + bytes_of (take m P), s') \<and>
    tx_idx_ok (ring_at ntc' s') \<and> tx_pending (ring_at ntc' s') = drop m P \<and> bufs_ok s' \<and> poll_frame s s' \<and>
    tx_log s' = tx_log s @ concat (map free_events (take m P)) \<and>
    ring_packets (tx_ring s') = ring_packets (tx_ring s) + of_nat m * pk + of_nat (\<Sum>{..m})"
  using assms
proof (induction m arbitrary: P tot ntc pk by' s)
  case 0
  have "tx_poll_loop tot ntc pk by' s = Some (ntc, pk, by', s)"
  proof (rule poll_loop_stop [OF 0(1)])
    show "tot = 0 \<or> (\<exists>b bs. tx_pending (ring_at ntc s) = b # bs \<and> tot < tx_descs b)"
      unfolding 0(7) [symmetric] using 0(5,6) by (cases P) (auto simp: descs_of_def word_less_nat_alt unat_eq_0)
  qed
  then show ?case using 0 by (simp add: bytes_of_def poll_frame_def)
next
  case (Suc m)
  from Suc.prems(4) obtain b bs where P: "P = b # bs" by (cases P) auto
  have b: "tx_busy b" "length (pkt_bufs (tx_hal_pkt b)) = 19"
  proof -
    show "tx_busy b" using Suc.prems(2) P by simp
    have "b \<in> set (tx_pending (ring_at ntc s))" using P Suc.prems(7) by simp
    then have "b \<in> set (tx_buffer_info (tx_ring s))"
      using Suc.prems(1) by (auto simp: tx_pending_def ring_slots_def tx_idx_ok_def intro!: nth_mem)
    then show "length (pkt_bufs (tx_hal_pkt b)) = 19" using Suc.prems(3) by (simp add: bufs_ok_def)
  qed
  have le: "unat (tx_descs b) \<le> unat tot" using Suc.prems(5) by (simp add: P descs_of_def)
  let ?s = "poll_round ntc b (pk + 1) (by' + bytes_of [b]) s" and ?n = "AL_ETH_TX_RING_IDX_NEXT ntc"
  have le': "tx_descs b \<le> tot" using le by (simp add: word_le_nat_alt)
  note rd = poll_loop_round(1-3) [OF Suc.prems(1) P [unfolded Suc.prems(7)] b le', where pk = pk and by' = by']
  note k = poll_round_keeps [OF Suc.prems(3) b(2), of ntc "pk + 1" "by' + bytes_of [b]"]
  have d: "unat (tot - tx_descs b) = descs_of (take m bs) + e"
    using Suc.prems(5) le by (simp add: unat_sub word_le_nat_alt P descs_of_def)
  have "\<exists>ntc' s'. tx_poll_loop (tot - tx_descs b) ?n (pk + 1) (by' + bytes_of [b]) ?s =
        Some (ntc', pk + 1 + of_nat m, by' + bytes_of [b] + bytes_of (take m bs), s') \<and>
      tx_idx_ok (ring_at ntc' s') \<and> tx_pending (ring_at ntc' s') = drop m bs \<and> bufs_ok s' \<and> poll_frame ?s s' \<and>
      tx_log s' = tx_log ?s @ concat (map free_events (take m bs)) \<and>
      ring_packets (tx_ring s') = ring_packets (tx_ring ?s) + of_nat m * (pk + 1) + of_nat (\<Sum>{..m})"
    using Suc.prems(2,4,6) by (intro Suc.IH [OF rd(2) _ k(2) _ d _ rd(3) [symmetric]]) (simp_all add: P)
  then obtain ntc' s' where s': "tx_poll_loop (tot - tx_descs b) ?n (pk + 1) (by' + bytes_of [b]) ?s =
        Some (ntc', pk + 1 + of_nat m, by' + bytes_of [b] + bytes_of (take m bs), s')"
      "tx_idx_ok (ring_at ntc' s')" "tx_pending (ring_at ntc' s') = drop m bs" "bufs_ok s'" "poll_frame ?s s'"
      "tx_log s' = tx_log ?s @ concat (map free_events (take m bs))"
      "ring_packets (tx_ring s') = ring_packets (tx_ring ?s) + of_nat m * (pk + 1) + of_nat (\<Sum>{..m})" by blast
  have "poll_frame s s'" using k(1) s'(5) by (simp add: poll_frame_def)
  moreover have "ring_packets (tx_ring s') = ring_packets (tx_ring s) + of_nat (Suc m) * pk + of_nat (\<Sum>{..Suc m})"
    unfolding s'(7) k(4) by (simp add: algebra_simps)
  moreover have "by' + bytes_of [b] + bytes_of (take m bs) = by' + bytes_of (take (Suc m) P)" "pk + 1 + of_nat m = pk + of_nat (Suc m)"
    by (simp_all add: P bytes_of_def)
  ultimately show ?case
    using s' k(3) unfolding rd(1) by (intro exI [of _ ntc'] exI [of _ s']) (simp add: P)
qed

lemma comp_tx_get_result:
  assumes "udma_ring_ok q" "head_at crhp q c"
  obtains q' where "al_eth_comp_tx_get q crhp = (of_nat c, q')" "unat (of_nat c :: u32) = c" "udma_ring_ok q'" "q_size q' = q_size q"
    "udma_in_flight q' + c = udma_in_flight q"
proof -
  let ?q = "q\<lparr>comp_head_idx := ucast (crhp AND 0xFFFF)\<rparr>"
  note g = get_all_count [OF assms]
  have le: "c \<le> udma_in_flight q" using assms(2) by (simp add: head_at_def)
  have ok: "udma_ring_ok ?q" "udma_in_flight ?q = udma_in_flight q" using assms(1) by (simp_all add: udma_ring_ok_def udma_in_flight_def)
  note a = cdesc_ack_step [OF ok(1), of c]
  have z: "(of_nat c :: u32) = 0 \<longleftrightarrow> c = 0" using g(3) by (auto simp: word_unat_eq_iff)
  show thesis
  proof (rule that [of "if c = 0 then ?q else al_udma_cdesc_ack ?q (of_nat c)"])
    show "al_eth_comp_tx_get q crhp = (of_nat c, if c = 0 then ?q else al_udma_cdesc_ack ?q (of_nat c))"
      by (simp add: al_eth_comp_tx_get_def g(2) z)
  qed (use g(3) ok a le in auto)
qed

text \<open>A count of completed descriptors is a number of whole packets and a part of the next one.\<close>

lemma completed_packets:
  "c \<le> descs_of P \<Longrightarrow> \<exists>m e. m \<le> length P \<and> c = descs_of (take m P) + e \<and> (e = 0 \<or> m < length P \<and> e < unat (tx_descs (P ! m)))"
proof (induction P arbitrary: c)
  case (Cons b P)
  show ?case
  proof (cases "c < unat (tx_descs b)")
    case True
    then show ?thesis by (intro exI [of _ 0] exI [of _ c]) (simp add: descs_of_def)
  next
    case False
    have "c - unat (tx_descs b) \<le> descs_of P" using Cons.prems by (simp add: descs_of_def)
    from Cons.IH [OF this] obtain m e where "m \<le> length P" "c - unat (tx_descs b) = descs_of (take m P) + e" "e = 0 \<or> m < length P \<and> e < unat (tx_descs (P ! m))" by blast
    then show ?thesis using False by (intro exI [of _ "Suc m"] exI [of _ e]) (auto simp: descs_of_def)
  qed
qed (simp add: descs_of_def)

lemma descs_of_drop: "descs_of (take m P) + descs_of (drop m P) = descs_of P"
  unfolding descs_of_def by (simp flip: sum_list_append map_append)

lemma tx_poll_wf:
  assumes wf: "tx_wf s" and hd: "head_at crhp (tx_dma_q (tx_ring s)) c"
  defines "P \<equiv> tx_pending (tx_ring s)"
  assumes m: "m \<le> length P" "c = descs_of (take m P) + e" "e = 0 \<or> m < length P \<and> e < unat (tx_descs (P ! m))"
  shows "\<exists>s'. al_eth_tx_poll crhp s = Some s' \<and> tx_wf s' \<and> tx_pending (tx_ring s') = drop m P \<and>
    tx_log s' = tx_log s @ concat (map free_events (take m P)) @ [TxCompletedQueue (of_nat m) (bytes_of (take m P))] \<and>
    udma_in_flight (tx_dma_q (tx_ring s')) + c = udma_in_flight (tx_dma_q (tx_ring s)) \<and>
    (txq_stopped s' \<longleftrightarrow> txq_stopped s \<and> unat (al_udma_available_get (tx_dma_q (tx_ring s'))) \<le> 19) \<and>
    ring_packets (tx_ring s') = ring_packets (tx_ring s) + of_nat (\<Sum>{..m}) \<and>
    tx_io s' = al_reg_write32_relaxed (tx_io s) (unmask_reg_offset (tx_ring s)) (unmask_val (tx_ring s))"
proof -
  let ?q = "tx_dma_q (tx_ring s)"
  have wf': "tx_idx_ok (tx_ring s)" "udma_ring_ok ?q" "unat (q_size ?q) = 1024" "bufs_ok s" and busy: "\<forall>b \<in> set P. tx_busy b"
    using wf by (simp_all add: tx_wf_def P_def Let_def)
  obtain q' where q': "al_eth_comp_tx_get ?q crhp = (of_nat c, q')" "unat (of_nat c :: u32) = c" "udma_ring_ok q'"
    "q_size q' = q_size ?q" "udma_in_flight q' + c = udma_in_flight ?q"
    using comp_tx_get_result [OF wf'(2) hd] .
  define s1 where "s1 = s\<lparr>tx_ring := (tx_ring s)\<lparr>tx_dma_q := q'\<rparr>\<rparr>"
  have r1: "ring_at (next_to_clean (tx_ring s1)) s1 = (tx_ring s)\<lparr>tx_dma_q := q'\<rparr>" by (simp add: s1_def)
  have p1: "tx_idx_ok (ring_at (next_to_clean (tx_ring s1)) s1)" "P = tx_pending (ring_at (next_to_clean (tx_ring s1)) s1)" "bufs_ok s1"
    unfolding r1 using wf' by (simp_all add: tx_idx_ok_def P_def tx_pending_def tx_count_def bufs_ok_def s1_def)
  from poll_loop_result [OF p1(1) busy p1(3) m(1) _ m(3) p1(2), of "of_nat c" 0 0] m(2) q'(2) obtain ntc s2 where s2:
    "tx_poll_loop (of_nat c) (next_to_clean (tx_ring s1)) 0 0 s1 = Some (ntc, of_nat m, bytes_of (take m P), s2)"
    "tx_idx_ok (ring_at ntc s2)" "tx_pending (ring_at ntc s2) = drop m P" "bufs_ok s2" "poll_frame s1 s2"
    "tx_log s2 = tx_log s1 @ concat (map free_events (take m P))"
    "ring_packets (tx_ring s2) = ring_packets (tx_ring s1) + of_nat (\<Sum>{..m})" by auto
  have fr: "tx_dma_q (tx_ring s2) = q'" "unmask_reg_offset (tx_ring s2) = unmask_reg_offset (tx_ring s)"
    "unmask_val (tx_ring s2) = unmask_val (tx_ring s)" "tx_io s2 = tx_io s" "txq_stopped s2 = txq_stopped s" "tx_log s1 = tx_log s"
    "ring_packets (tx_ring s1) = ring_packets (tx_ring s)"
    using s2(5) by (auto simp: poll_frame_def s1_def)
  have th: "AL_ETH_TX_WAKEUP_THRESH < x \<longleftrightarrow> 19 < unat x" for x
    by (simp add: tx_consts word_less_nat_alt)
  define s3 where "s3 = s2\<lparr>tx_ring := ring_at ntc s2,
      tx_log := tx_log s @ concat (map free_events (take m P)) @ [TxCompletedQueue (of_nat m) (bytes_of (take m P))],
      txq_stopped := txq_stopped s \<and> unat (al_udma_available_get q') \<le> 19,
      tx_io := al_reg_write32_relaxed (tx_io s) (unmask_reg_offset (tx_ring s)) (unmask_val (tx_ring s))\<rparr>"
  have "al_eth_tx_poll crhp s = Some s3"
    unfolding al_eth_tx_poll_def q'(1) Let_def prod.case s1_def [symmetric]
    by (simp add: s2(1) fr th) (auto simp: s3_def fr s2(6) tx_emit_def intro!: tx_state.equality)
  moreover have "\<forall>b \<in> set (drop m P). tx_busy b" using busy set_drop_subset by fast
  then have "tx_wf s3" using s2(2-4) q'(3,4) wf'(3) by (simp add: tx_wf_def s3_def fr(1) bufs_ok_def)
  ultimately show ?thesis using s2(3,7) fr q'(5) by (intro exI [of _ s3]) (simp add: s3_def)
qed

lemma tx_poll_result:
  assumes ok: "tx_ok s" and hd: "head_at crhp (tx_dma_q (tx_ring s)) (descs_of (take m (tx_pending (tx_ring s))))"
    and m: "m \<le> length (tx_pending (tx_ring s))"
  defines "P \<equiv> tx_pending (tx_ring s)"
  obtains s' where "al_eth_tx_poll crhp s = Some s'" "tx_ok s'" "tx_pending (tx_ring s') = drop m P"
    "tx_log s' = tx_log s @ concat (map free_events (take m P)) @ [TxCompletedQueue (of_nat m) (bytes_of (take m P))]"
proof -
  from ok have wf: "tx_wf s" by (simp add: tx_ok_def Let_def)
  from tx_poll_wf [OF wf hd m _ disjI1 [OF refl]] obtain s' where s': "al_eth_tx_poll crhp s = Some s'" "tx_wf s'" "tx_pending (tx_ring s') = drop m P"
    "tx_log s' = tx_log s @ concat (map free_events (take m P)) @ [TxCompletedQueue (of_nat m) (bytes_of (take m P))]"
    "udma_in_flight (tx_dma_q (tx_ring s')) + descs_of (take m P) = udma_in_flight (tx_dma_q (tx_ring s))"
    "txq_stopped s' \<longleftrightarrow> txq_stopped s \<and> unat (al_udma_available_get (tx_dma_q (tx_ring s'))) \<le> 19"
    unfolding P_def by auto
  have d: "descs_of (drop m P) = udma_in_flight (tx_dma_q (tx_ring s'))"
    using descs_of_drop [of m P] s'(5) tx_okD(6) [OF ok] by (simp add: P_def)
  have q': "udma_ring_ok (tx_dma_q (tx_ring s'))" "unat (q_size (tx_dma_q (tx_ring s'))) = 1024" using s'(2) by (simp_all add: tx_wf_def Let_def)
  have "19 \<le> unat (al_udma_available_get (tx_dma_q (tx_ring s')))" if "\<not> txq_stopped s'"
    using that s'(5,6) tx_okD(7) [OF ok] available_unat [OF tx_okD(2) [OF ok]] available_unat [OF q'(1)] q'(2) tx_okD(3) [OF ok] by auto
  then have "tx_ok s'" using s'(2,3) d by (simp add: tx_ok_def)
  then show thesis using s' that by blast
qed

end
