(* ===== verification/Eth_Tx_Props.thy ===== *)
theory Eth_Tx_Props
  imports Eth_Tx_Ring "HOL-Library.Multiset"
begin

text \<open>
  Properties of the transmit path: every outcome of a transmission and of a completion poll, the accounting of socket
  buffers, DMA mappings and bytes over all their interleavings, and the loss of packets that complete in parts.
\<close>

subsection \<open>Sequences of transmissions and completions\<close>

text \<open>The resources that the log hands over and gives back.\<close>

definition freed :: "tx_event list \<Rightarrow> nat list" where
  "freed log = [i. KfreeSkb i \<leftarrow> log]"

fun mapped_of :: "tx_event \<Rightarrow> (u64 \<times> u32) list" where
  "mapped_of (MapSingle a l) = [(a, l)]" | "mapped_of (MapPage a l) = [(a, l)]" | "mapped_of _ = []"

fun unmapped_of :: "tx_event \<Rightarrow> (u64 \<times> u32) list" where
  "unmapped_of (UnmapSingle a l) = [(a, l)]" | "unmapped_of (UnmapPage a l) = [(a, l)]" | "unmapped_of _ = []"

definition mapped :: "tx_event list \<Rightarrow> (u64 \<times> u32) multiset" where
  "mapped log = mset (concat (map mapped_of log))"

definition unmapped :: "tx_event list \<Rightarrow> (u64 \<times> u32) multiset" where
  "unmapped log = mset (concat (map unmapped_of log))"

definition sent_bytes :: "tx_event list \<Rightarrow> u32" where
  "sent_bytes log = sum_list [n. TxSentQueue n \<leftarrow> log]"

definition completed_bytes :: "tx_event list \<Rightarrow> u32" where
  "completed_bytes log = sum_list [n. TxCompletedQueue _ n \<leftarrow> log]"

lemmas log_defs = freed_def mapped_def unmapped_def sent_bytes_def completed_bytes_def

lemma log_append:
  "freed (xs @ ys) = freed xs @ freed ys" "mapped (xs @ ys) = mapped xs + mapped ys" "unmapped (xs @ ys) = unmapped xs + unmapped ys"
  "sent_bytes (xs @ ys) = sent_bytes xs + sent_bytes ys" "completed_bytes (xs @ ys) = completed_bytes xs + completed_bytes ys"
  by (simp_all add: log_defs)

lemma log_nil: "freed [] = []" "mapped [] = {#}" "unmapped [] = {#}" "sent_bytes [] = 0" "completed_bytes [] = 0"
  by (simp_all add: log_defs)

lemma log_pages:
  "freed (map (\<lambda>x. MapPage (f x) (g x)) bs) = []" "mapped (map (\<lambda>x. MapPage (f x) (g x)) bs) = mset (map (\<lambda>x. (f x, g x)) bs)"
  "unmapped (map (\<lambda>x. MapPage (f x) (g x)) bs) = {#}" "sent_bytes (map (\<lambda>x. MapPage (f x) (g x)) bs) = 0"
  "completed_bytes (map (\<lambda>x. MapPage (f x) (g x)) bs) = 0"
  "freed (map (\<lambda>x. UnmapPage (f x) (g x)) bs) = []" "unmapped (map (\<lambda>x. UnmapPage (f x) (g x)) bs) = mset (map (\<lambda>x. (f x, g x)) bs)"
  "mapped (map (\<lambda>x. UnmapPage (f x) (g x)) bs) = {#}" "sent_bytes (map (\<lambda>x. UnmapPage (f x) (g x)) bs) = 0"
  "completed_bytes (map (\<lambda>x. UnmapPage (f x) (g x)) bs) = 0"
  unfolding log_defs by (induction bs) simp_all

lemma log_Cons:
  "freed (MapSingle a l # es) = freed es" "mapped (MapSingle a l # es) = add_mset (a, l) (mapped es)"
  "unmapped (MapSingle a l # es) = unmapped es" "sent_bytes (MapSingle a l # es) = sent_bytes es" "completed_bytes (MapSingle a l # es) = completed_bytes es"
  "freed (UnmapSingle a l # es) = freed es" "unmapped (UnmapSingle a l # es) = add_mset (a, l) (unmapped es)"
  "mapped (UnmapSingle a l # es) = mapped es" "sent_bytes (UnmapSingle a l # es) = sent_bytes es" "completed_bytes (UnmapSingle a l # es) = completed_bytes es"
  unfolding log_defs by simp_all

lemma log_map_events:
  "freed (map_events bs) = []" "mapped (map_events bs) = mset (map buf_pair bs)" "unmapped (map_events bs) = {#}"
  "sent_bytes (map_events bs) = 0" "completed_bytes (map_events bs) = 0"
proof -
  have b: "buf_pair = (\<lambda>x. (buf_addr x, buf_len x))" by (simp add: buf_pair_def fun_eq_iff)
  show "freed (map_events bs) = []" "mapped (map_events bs) = mset (map buf_pair bs)" "unmapped (map_events bs) = {#}"
    "sent_bytes (map_events bs) = 0" "completed_bytes (map_events bs) = 0"
    unfolding b by (cases bs; simp add: log_Cons log_pages log_nil)+
qed

lemma log_unmap_events:
  "freed (unmap_events bs) = []" "unmapped (unmap_events bs) = mset (map buf_pair bs)" "mapped (unmap_events bs) = {#}"
  "sent_bytes (unmap_events bs) = 0" "completed_bytes (unmap_events bs) = 0"
proof -
  have b: "buf_pair = (\<lambda>x. (buf_addr x, buf_len x))" by (simp add: buf_pair_def fun_eq_iff)
  show "freed (unmap_events bs) = []" "unmapped (unmap_events bs) = mset (map buf_pair bs)" "mapped (unmap_events bs) = {#}"
    "sent_bytes (unmap_events bs) = 0" "completed_bytes (unmap_events bs) = 0"
    unfolding b by (cases bs; simp add: log_Cons log_pages log_nil)+
qed

lemma log_single:
  "freed [KfreeSkb i] = [i]" "mapped [KfreeSkb i] = {#}" "unmapped [KfreeSkb i] = {#}" "sent_bytes [KfreeSkb i] = 0" "completed_bytes [KfreeSkb i] = 0"
  "freed [TxSentQueue n] = []" "mapped [TxSentQueue n] = {#}" "unmapped [TxSentQueue n] = {#}" "sent_bytes [TxSentQueue n] = n"
  "completed_bytes [TxSentQueue n] = 0"
  "freed [TxCompletedQueue k n] = []" "mapped [TxCompletedQueue k n] = {#}" "unmapped [TxCompletedQueue k n] = {#}"
  "sent_bytes [TxCompletedQueue k n] = 0" "completed_bytes [TxCompletedQueue k n] = n"
  by (simp_all add: log_defs)

lemmas log_simps = log_nil log_append log_map_events log_unmap_events log_single

text \<open>The resources of pending packets.\<close>

definition pend_ids :: "al_eth_tx_buffer list \<Rightarrow> nat list" where
  "pend_ids bs = map (\<lambda>b. skb_id (the (tx_skb b))) bs"

definition pend_bufs :: "al_eth_tx_buffer list \<Rightarrow> (u64 \<times> u32) multiset" where
  "pend_bufs bs = mset (concat (map (\<lambda>b. map buf_pair (take (unat (num_of_bufs (tx_hal_pkt b))) (pkt_bufs (tx_hal_pkt b)))) bs))"

lemma log_free_events:
  "freed (concat (map free_events bs)) = pend_ids bs" "unmapped (concat (map free_events bs)) = pend_bufs bs"
  "mapped (concat (map free_events bs)) = {#}" "sent_bytes (concat (map free_events bs)) = 0" "completed_bytes (concat (map free_events bs)) = 0"
proof -
  have one: "freed (free_events b) = pend_ids [b]" "unmapped (free_events b) = pend_bufs [b]" "mapped (free_events b) = {#}"
    "sent_bytes (free_events b) = 0" "completed_bytes (free_events b) = 0" for b
    by (simp_all add: free_events_def log_simps pend_ids_def pend_bufs_def)
  show "freed (concat (map free_events bs)) = pend_ids bs" "unmapped (concat (map free_events bs)) = pend_bufs bs"
    "mapped (concat (map free_events bs)) = {#}" "sent_bytes (concat (map free_events bs)) = 0" "completed_bytes (concat (map free_events bs)) = 0"
    by (induction bs) (simp_all add: log_append one log_nil pend_ids_def pend_bufs_def)
qed

lemma pend_append:
  "pend_ids (xs @ ys) = pend_ids xs @ pend_ids ys" "pend_bufs (xs @ ys) = pend_bufs xs + pend_bufs ys" "bytes_of (xs @ ys) = bytes_of xs + bytes_of ys"
  by (simp_all add: pend_ids_def pend_bufs_def bytes_of_def)

text \<open>
  The accounting of a transmit queue: what was handed over and not given back belongs to the pending packets.  \<open>ids\<close> are the
  socket buffers that the kernel handed to the driver.
\<close>

definition tx_balanced :: "tx_state \<Rightarrow> nat list \<Rightarrow> bool" where
  "tx_balanced s ids \<longleftrightarrow> (let P = tx_pending (tx_ring s); log = tx_log s in
     mset ids = mset (freed log) + mset (pend_ids P) \<and> mapped log = unmapped log + pend_bufs P \<and>
     sent_bytes log = completed_bytes log + bytes_of P)"

text \<open>Padding keeps the identity of a buffer; the buffer respects the limit of the kernel and can be offloaded.\<close>

definition skb_ok :: "(sk_buff \<Rightarrow> sk_buff option) \<Rightarrow> sk_buff \<Rightarrow> bool" where
  "skb_ok pad skb \<longleftrightarrow> (case pad skb of None \<Rightarrow> True
     | Some skb1 \<Rightarrow> skb_id skb1 = skb_id skb \<and> length (skb_frags skb1) \<le> 17 \<and> offload_rc skb1 = RcOk)"

lemma xmit_balanced:
  assumes "tx_balanced s ids" "xmit_spec pad dma skb s s'" "skb_ok pad skb"
  shows "tx_balanced s' (ids @ [skb_id skb])"
proof (cases "pad skb")
  case None
  then show ?thesis using assms by (simp add: xmit_spec_def tx_balanced_def Let_def log_simps)
next
  case (Some skb1)
  then have ok: "skb_id skb1 = skb_id skb" "offload_rc skb1 = RcOk" using assms(3) by (simp_all add: skb_ok_def)
  show ?thesis
  proof (cases "dma 0")
    case None
    then show ?thesis using assms(1,2) Some ok by (simp add: xmit_spec_def tx_balanced_def Let_def log_simps)
  next
    case (Some a)
    define bs where "bs = \<lparr>buf_addr = a, buf_len = skb_headlen skb1\<rparr> # frag_bufs dma 0 (skb_frags skb1)"
    have sp: "if length bs \<le> length (skb_frags skb1)
      then tx_pending (tx_ring s') = tx_pending (tx_ring s) \<and> tx_log s' = tx_log s @ map_events bs @ unmap_events bs @ [KfreeSkb (skb_id skb)]
      else tx_log s' = tx_log s @ map_events bs @ [TxSentQueue (skb_len skb1)] \<and>
        (\<exists>b. tx_pending (tx_ring s') = tx_pending (tx_ring s) @ [b] \<and>
          map_option (\<lambda>k. (skb_id k, skb_len k)) (tx_skb b) = Some (skb_id skb, skb_len skb1) \<and>
          take (unat (num_of_bufs (tx_hal_pkt b))) (pkt_bufs (tx_hal_pkt b)) = bs)"
      using assms(2) \<open>pad skb = Some skb1\<close> Some ok unfolding xmit_spec_def bs_def Let_def by (auto simp: Suc_le_eq)
    show ?thesis
    proof (cases "length bs \<le> length (skb_frags skb1)")
      case True
      then show ?thesis using sp assms(1) by (simp add: tx_balanced_def Let_def log_simps)
    next
      case False
      then obtain b where b: "tx_log s' = tx_log s @ map_events bs @ [TxSentQueue (skb_len skb1)]"
        "tx_pending (tx_ring s') = tx_pending (tx_ring s) @ [b]" "pend_ids [b] = [skb_id skb]" "bytes_of [b] = skb_len skb1"
        "pend_bufs [b] = mset (map buf_pair bs)"
        using sp by (auto simp: pend_ids_def pend_bufs_def bytes_of_def)
      then show ?thesis using assms(1) unfolding tx_balanced_def Let_def b(1,2) log_simps pend_append b(3-5) by simp
    qed
  qed
qed

lemma poll_balanced:
  assumes "tx_balanced s ids" "tx_pending (tx_ring s') = drop m (tx_pending (tx_ring s))"
    and "tx_log s' = tx_log s @ concat (map free_events (take m (tx_pending (tx_ring s)))) @
      [TxCompletedQueue (of_nat m) (bytes_of (take m (tx_pending (tx_ring s))))]"
  shows "tx_balanced s' ids"
proof -
  let ?P = "tx_pending (tx_ring s)"
  have sp: "pend_ids ?P = pend_ids (take m ?P) @ pend_ids (drop m ?P)" "pend_bufs ?P = pend_bufs (take m ?P) + pend_bufs (drop m ?P)"
    "bytes_of ?P = bytes_of (take m ?P) + bytes_of (drop m ?P)"
    by (simp_all flip: pend_append)
  show ?thesis using assms(1) unfolding tx_balanced_def Let_def assms(2,3) log_simps log_free_events sp
    by (simp add: ac_simps)
qed

text \<open>
  A transmit queue as \<open>al_eth_setup_tx_resources\<close> and the initialisation of the hardware queue leave it, and what can happen to
  it: the kernel sends a buffer while the queue is not stopped, and the engine completes whole packets.
\<close>

definition tx_fresh :: "tx_state \<Rightarrow> bool" where
  "tx_fresh s \<longleftrightarrow> (let r = tx_ring s; q = tx_dma_q r in
     tx_buffer_info r = replicate AL_ETH_DEFAULT_TX_SW_DESCS zero_tx_buffer \<and> next_to_use r = 0 \<and> next_to_clean r = 0 \<and>
     udma_ring_ok q \<and> unat (q_size q) = AL_ETH_DEFAULT_TX_HW_DESCS \<and> next_desc_idx q = next_cdesc_idx q \<and>
     \<not> txq_stopped s \<and> tx_log s = [])"

inductive tx_run :: "tx_state \<Rightarrow> nat list \<Rightarrow> bool" where
  fresh: "tx_fresh s \<Longrightarrow> tx_run s []"
| xmit: "tx_run s ids \<Longrightarrow> \<not> txq_stopped s \<Longrightarrow> skb_ok pad skb \<Longrightarrow> al_eth_start_xmit pad dma skb s = Some s' \<Longrightarrow>
    tx_run s' (ids @ [skb_id skb])"
| poll: "tx_run s ids \<Longrightarrow> m \<le> length (tx_pending (tx_ring s)) \<Longrightarrow>
    head_at crhp (tx_dma_q (tx_ring s)) (descs_of (take m (tx_pending (tx_ring s)))) \<Longrightarrow> al_eth_tx_poll crhp s = Some s' \<Longrightarrow>
    tx_run s' ids"

lemma fresh_ok:
  assumes "tx_fresh s"
  shows "tx_ok s \<and> tx_balanced s []"
proof -
  let ?q = "tx_dma_q (tx_ring s)"
  have f: "tx_buffer_info (tx_ring s) = replicate 1024 zero_tx_buffer" "next_to_use (tx_ring s) = 0" "next_to_clean (tx_ring s) = 0"
    "udma_ring_ok ?q" "unat (q_size ?q) = 1024" "next_desc_idx ?q = next_cdesc_idx ?q" "tx_log s = []"
    using assms by (simp_all add: tx_fresh_def Let_def tx_consts)
  have p: "tx_pending (tx_ring s) = []" by (simp add: tx_pending_def tx_count_def f)
  have fl: "udma_in_flight ?q = 0" by (simp add: udma_in_flight_def f)
  have "\<forall>b \<in> set (tx_buffer_info (tx_ring s)). length (pkt_bufs (tx_hal_pkt b)) = 19"
    unfolding f(1) by (simp add: zero_tx_buffer_def zero_pkt_def AL_ETH_PKT_MAX_BUFS_def)
  then have "tx_ok s"
    using p fl available_unat [OF f(4)] f by (simp add: tx_inv_defs tx_idx_ok_def descs_of_def)
  then show ?thesis by (simp add: tx_balanced_def p f(7) log_simps pend_ids_def pend_bufs_def bytes_of_def)
qed

lemma skb_okD: "skb_ok pad skb \<Longrightarrow> pad skb = Some skb1 \<Longrightarrow> length (skb_frags skb1) \<le> 17"
  by (simp add: skb_ok_def)

lemma tx_run_inv: "tx_run s ids \<Longrightarrow> tx_ok s \<and> tx_balanced s ids"
proof (induction rule: tx_run.induct)
  case (fresh s)
  then show ?case by (rule fresh_ok)
next
  case (xmit s ids pad skb dma s')
  then show ?case using start_xmit_result [of s pad skb dma] skb_okD [of pad skb] xmit_balanced by fastforce
next
  case (poll s ids m crhp s')
  then show ?case using tx_poll_result [of s crhp m] poll_balanced by (metis option.inject)
qed

subsection \<open>Properties\<close>

text \<open>
  C6: every outcome of a transmission.  On a running queue the call never stops the kernel.  A buffer that cannot be padded is
  released.  When the segment size cannot be fixed, or a mapping fails, the packet is dropped and the ring is as before: every
  mapping made is undone and the socket buffer is released once; only the offload error also unmaps a buffer that this call did
  not map.  Otherwise the packet joins the end of the pending packets with one buffer for the linear part and one for each
  fragment, its descriptors (one more when it needs metadata) are in the hardware ring, the doorbell announces exactly
  them, the kernel is told the bytes sent, and the queue is stopped when a packet of maximal size may not fit any more.
\<close>

theorem start_xmit_outcome:
  assumes "tx_ok s" "\<not> txq_stopped s" "\<And>skb1. pad skb = Some skb1 \<Longrightarrow> length (skb_frags skb1) \<le> 17"
  shows "\<exists>s'. al_eth_start_xmit pad dma skb s = Some s' \<and> tx_ok s' \<and> xmit_spec pad dma skb s s'"
  using assms by (rule start_xmit_result)

text \<open>
  C30: completion frees exactly the completed packets.  Whatever number of descriptors the engine has completed, the poll
  returns; it unmaps and releases the packets all of whose descriptors are completed, oldest first and each once, reports
  them to the kernel, acknowledges the descriptors, wakes the queue when there is room for more than a packet of
  maximal size and unmasks the interrupt.  When the completed descriptors end with a packet, the ring is consistent
  afterwards.  The counter for adaptive moderation grows by \<open>1 + 2 + ... + m\<close> for \<open>m\<close> packets and not by \<open>m\<close>.
\<close>

theorem tx_poll_outcome:
  assumes "tx_ok s" "head_at crhp (tx_dma_q (tx_ring s)) c"
  defines "P \<equiv> tx_pending (tx_ring s)"
  shows "\<exists>m e s'. m \<le> length P \<and> c = descs_of (take m P) + e \<and> (e = 0 \<or> m < length P \<and> e < unat (tx_descs (P ! m))) \<and>
    al_eth_tx_poll crhp s = Some s' \<and> tx_pending (tx_ring s') = drop m P \<and>
    tx_log s' = tx_log s @ concat (map free_events (take m P)) @ [TxCompletedQueue (of_nat m) (bytes_of (take m P))] \<and>
    udma_in_flight (tx_dma_q (tx_ring s')) + c = udma_in_flight (tx_dma_q (tx_ring s)) \<and> (e = 0 \<longrightarrow> tx_ok s') \<and>
    (txq_stopped s' \<longleftrightarrow> txq_stopped s \<and> unat (al_udma_available_get (tx_dma_q (tx_ring s'))) \<le> 19) \<and>
    ring_packets (tx_ring s') = ring_packets (tx_ring s) + of_nat (\<Sum>{..m}) \<and>
    tx_io s' = al_reg_write32_relaxed (tx_io s) (unmask_reg_offset (tx_ring s)) (unmask_val (tx_ring s))"
proof -
  have wf: "tx_wf s" using assms(1) by (simp add: tx_ok_def Let_def)
  have "c \<le> descs_of P" using assms(2) tx_okD(6) [OF assms(1)] by (simp add: head_at_def P_def)
  from completed_packets [OF this] obtain m e where m: "m \<le> length P" "c = descs_of (take m P) + e"
    "e = 0 \<or> m < length P \<and> e < unat (tx_descs (P ! m))" by blast
  from tx_poll_wf [OF wf assms(2) m [unfolded P_def]] obtain s' where s': "al_eth_tx_poll crhp s = Some s'" "tx_pending (tx_ring s') = drop m P"
    "tx_log s' = tx_log s @ concat (map free_events (take m P)) @ [TxCompletedQueue (of_nat m) (bytes_of (take m P))]"
    "udma_in_flight (tx_dma_q (tx_ring s')) + c = udma_in_flight (tx_dma_q (tx_ring s))"
    "txq_stopped s' \<longleftrightarrow> txq_stopped s \<and> unat (al_udma_available_get (tx_dma_q (tx_ring s'))) \<le> 19"
    "ring_packets (tx_ring s') = ring_packets (tx_ring s) + of_nat (\<Sum>{..m})"
    "tx_io s' = al_reg_write32_relaxed (tx_io s) (unmask_reg_offset (tx_ring s)) (unmask_val (tx_ring s))"
    unfolding P_def by blast
  have "tx_ok s'" if "e = 0"
    using tx_poll_result [OF assms(1), of crhp m] assms(2) m(1,2) s'(1) that unfolding P_def by (metis add.right_neutral option.inject)
  then show ?thesis using m s' by (intro exI [of _ m] exI [of _ e] exI [of _ s']) simp
qed

text \<open>
  C3: the transmit path loses nothing.  From a fresh queue, for every interleaving of transmissions of admissible buffers, with any
  failures of padding and mapping, and of completions of whole packets: the ring stays consistent, no operation stops the kernel, every
  socket buffer handed to the driver is released exactly once or belongs to a pending packet, every DMA mapping is undone or
  belongs to a pending packet, and the bytes reported as sent are those reported as completed and those of the pending packets.
\<close>

theorem tx_path_accounting:
  assumes "tx_run s ids"
  shows "tx_ok s \<and> tx_balanced s ids \<and>
    (\<forall>pad dma skb. \<not> txq_stopped s \<and> skb_ok pad skb \<longrightarrow> (\<exists>s'. al_eth_start_xmit pad dma skb s = Some s')) \<and>
    (\<forall>crhp c. head_at crhp (tx_dma_q (tx_ring s)) c \<longrightarrow> (\<exists>s'. al_eth_tx_poll crhp s = Some s'))"
proof -
  have inv: "tx_ok s" "tx_balanced s ids" using tx_run_inv [OF assms] by simp_all
  moreover have "\<exists>s'. al_eth_start_xmit pad dma skb s = Some s'" if "\<not> txq_stopped s" "skb_ok pad skb" for pad dma skb
    using start_xmit_result [OF inv(1) that(1) skb_okD [OF that(2)]] by blast
  moreover have "\<exists>s'. al_eth_tx_poll crhp s = Some s'" if "head_at crhp (tx_dma_q (tx_ring s)) c" for crhp c
  proof -
    have "c \<le> descs_of (tx_pending (tx_ring s))" using that tx_okD(6) [OF inv(1)] by (simp add: head_at_def)
    from completed_packets [OF this] tx_poll_wf [OF _ that] inv(1) show ?thesis by (auto simp: tx_ok_def Let_def)
  qed
  ultimately show ?thesis by blast
qed

text \<open>
  A packet whose descriptors complete in two parts is not released by its completions.  The first poll acknowledges the first
  part and forgets it; the second poll finds fewer descriptors than the packet has and releases nothing, although all
  descriptors of the packet are completed and acknowledged.
\<close>

theorem tx_partial_completion_lost:
  assumes "tx_ok s" "tx_pending (tx_ring s) = b # bs" "0 < e" "e < unat (tx_descs b)" "head_at crhp (tx_dma_q (tx_ring s)) e"
  shows "\<exists>s1. al_eth_tx_poll crhp s = Some s1 \<and> tx_pending (tx_ring s1) = b # bs \<and>
    (\<forall>crhp'. head_at crhp' (tx_dma_q (tx_ring s1)) (unat (tx_descs b) - e) \<longrightarrow>
      (\<exists>s2. al_eth_tx_poll crhp' s1 = Some s2 \<and> tx_pending (tx_ring s2) = b # bs \<and> freed (tx_log s2) = freed (tx_log s) \<and>
        udma_in_flight (tx_dma_q (tx_ring s2)) = descs_of bs))"
proof -
  have wf: "tx_wf s" using assms(1) by (simp add: tx_ok_def Let_def)
  from tx_poll_wf [OF wf assms(5), of 0 e] assms(2-4) obtain s1 where s1: "al_eth_tx_poll crhp s = Some s1" "tx_wf s1"
    "tx_pending (tx_ring s1) = b # bs" "tx_log s1 = tx_log s @ [TxCompletedQueue 0 0]"
    "udma_in_flight (tx_dma_q (tx_ring s1)) + e = udma_in_flight (tx_dma_q (tx_ring s))"
    by (auto simp: descs_of_def bytes_of_def)
  have fl: "udma_in_flight (tx_dma_q (tx_ring s)) = unat (tx_descs b) + descs_of bs"
    using tx_okD(6) [OF assms(1)] assms(2) by (simp add: descs_of_def)
  have "\<exists>s2. al_eth_tx_poll crhp' s1 = Some s2 \<and> tx_pending (tx_ring s2) = b # bs \<and> freed (tx_log s2) = freed (tx_log s) \<and>
        udma_in_flight (tx_dma_q (tx_ring s2)) = descs_of bs"
    if h: "head_at crhp' (tx_dma_q (tx_ring s1)) (unat (tx_descs b) - e)" for crhp'
  proof -
    from tx_poll_wf [OF s1(2) h, of 0 "unat (tx_descs b) - e"] s1(3) assms(3,4) obtain s2 where s2: "al_eth_tx_poll crhp' s1 = Some s2"
      "tx_pending (tx_ring s2) = b # bs" "tx_log s2 = tx_log s1 @ [TxCompletedQueue 0 0]"
      "udma_in_flight (tx_dma_q (tx_ring s2)) + (unat (tx_descs b) - e) = udma_in_flight (tx_dma_q (tx_ring s1))"
      by (auto simp: descs_of_def bytes_of_def)
    moreover have "udma_in_flight (tx_dma_q (tx_ring s2)) = descs_of bs" using s2(4) s1(5) fl assms(3,4) by linarith
    ultimately show ?thesis using s1(4) by (simp add: freed_def)
  qed
  then show ?thesis using s1(1,3) by blast
qed

subsection \<open>Concrete instances\<close>

text \<open>A fresh queue and a buffer with two fragments.\<close>

definition demo_tx :: "desc_mem \<Rightarrow> mmio \<Rightarrow> tx_state" where
  "demo_tx mem io = \<lparr>tx_ring = \<lparr>tx_dma_q = demo_q\<lparr>size_mask := 1023, q_size := 1024\<rparr>, next_to_use = 0, next_to_clean = 0,
     unmask_reg_offset = 0x2000, unmask_val = 0xfffffffe, hal_meta = zero_meta,
     tx_buffer_info = replicate AL_ETH_DEFAULT_TX_SW_DESCS zero_tx_buffer,
     sw_count = 1024, hw_count = 1024, descs_size = 16384, ring_packets = 0, ring_bytes = 0,
     tx_q_params = \<lparr>qp_size = 1024, qp_desc_base = 0x80000, qp_desc_phy_base = 0x80000, qp_cdesc_base = 0, qp_cdesc_phy_base = 0,
       qp_cdesc_size = 8, qp_adapter_rev_id = 0\<rparr>,
     stat_packets = 0, stat_bytes = 0\<rparr>, tx_mem = mem, tx_io = io, txq_stopped = False, tx_log = []\<rparr>"

definition demo_skb :: sk_buff where
  "demo_skb = \<lparr>skb_id = 7, skb_len = 900, skb_headlen = 100, skb_frags = [500, 300], gso_size = 0, csum_partial = False, ip_version = 4,
     ip_protocol = 17, ipv6_nexthdr = 0, skb_protocol = 8, network_header_len = 20, network_offset = 14, transport_offset = 34, tcp_doff = 0\<rparr>"

definition demo_dma :: "nat \<Rightarrow> u64 option" where
  "demo_dma i = Some (0x10000 + of_nat i * 0x1000)"

lemma demo_tx_fresh: "tx_fresh (demo_tx mem io)"
proof -
  have "udma_ring_ok (demo_q\<lparr>size_mask := 1023, q_size := 1024\<rparr>)"
    unfolding udma_ring_ok_def by (intro conjI bexI [of _ 10]) (simp_all add: demo_q_def mask_eq_exp_minus_1)
  then show ?thesis by (simp add: tx_fresh_def demo_tx_def AL_ETH_DEFAULT_TX_HW_DESCS_def demo_q_def)
qed

lemma demo_offload: "offload_rc demo_skb = RcOk"
  by (simp add: offload_rc_def al_eth_tx_csum_def demo_skb_def)

lemma demo_bufs: "frag_bufs demo_dma 0 (skb_frags demo_skb) = [\<lparr>buf_addr = 0x11000, buf_len = 500\<rparr>, \<lparr>buf_addr = 0x12000, buf_len = 300\<rparr>]"
  by (simp add: demo_skb_def demo_dma_def)

lemma demo_xmit_spec:
  assumes "xmit_spec Some demo_dma demo_skb (demo_tx mem io) s'"
  shows "\<exists>b. tx_pending (tx_ring s') = [b] \<and> unat (tx_descs b) = 3 \<and>
    tx_log s' = [MapSingle 0x10000 100, MapPage 0x11000 500, MapPage 0x12000 300, TxSentQueue 900]"
proof -
  have p: "tx_pending (tx_ring (demo_tx mem io)) = []" by (simp add: tx_pending_def tx_count_def demo_tx_def)
  have l: "tx_log (demo_tx mem io) = []" by (simp add: demo_tx_def)
  have d: "demo_dma 0 = Some 0x10000" "skb_headlen demo_skb = 100" "length (skb_frags demo_skb) = 2" "csum_partial demo_skb = False"
    "gso_size demo_skb = 0" "skb_len demo_skb = 900"
    by (simp_all add: demo_dma_def demo_skb_def)
  show ?thesis using assms unfolding xmit_spec_def option.case Let_def demo_offload demo_bufs d p l by auto
qed

theorem start_xmit_outcome_witness:
  "\<forall>mem io. \<exists>s' b. al_eth_start_xmit Some demo_dma demo_skb (demo_tx mem io) = Some s' \<and> tx_pending (tx_ring s') = [b] \<and> unat (tx_descs b) = 3"
proof (intro allI)
  fix mem io
  have ok: "tx_ok (demo_tx mem io)" "\<not> txq_stopped (demo_tx mem io)"
    using fresh_ok [OF demo_tx_fresh] by (simp_all add: demo_tx_def)
  have fr: "length (skb_frags skb1) \<le> 17" if "Some demo_skb = Some skb1" for skb1
    using that by (auto simp: demo_skb_def)
  from start_xmit_outcome [OF ok, where pad = Some and skb = demo_skb, OF fr] demo_xmit_spec
  show "\<exists>s' b. al_eth_start_xmit Some demo_dma demo_skb (demo_tx mem io) = Some s' \<and> tx_pending (tx_ring s') = [b] \<and> unat (tx_descs b) = 3"
    by metis
qed

lemma demo_sent: "\<exists>s b. tx_run s [7] \<and> tx_ok s \<and> tx_pending (tx_ring s) = [b] \<and> unat (tx_descs b) = 3"
proof -
  let ?s = "demo_tx (\<lambda>_. undefined) undefined"
  have ok: "tx_ok ?s" "\<not> txq_stopped ?s" using fresh_ok [OF demo_tx_fresh] by (simp_all add: demo_tx_def)
  have sk: "skb_ok Some demo_skb" using demo_offload by (simp add: skb_ok_def) (simp add: demo_skb_def)
  from start_xmit_result [OF ok, where pad = Some and skb = demo_skb and dma = demo_dma] skb_okD [OF sk]
  obtain s' where s': "al_eth_start_xmit Some demo_dma demo_skb ?s = Some s'" "tx_ok s'" "xmit_spec Some demo_dma demo_skb ?s s'" by blast
  have "tx_run s' ([] @ [skb_id demo_skb])" by (rule tx_run.xmit [OF tx_run.fresh [OF demo_tx_fresh] ok(2) sk s'(1)])
  then show ?thesis using s'(2) demo_xmit_spec [OF s'(3)] by (auto simp: demo_skb_def)
qed

lemma head_exists:
  assumes "udma_ring_ok q" "c \<le> udma_in_flight q"
  shows "\<exists>crhp. head_at crhp q c"
proof -
  obtain k where k: "k \<le> 16" "unat (q_size q) = 2 ^ k" using assms(1) by (rule udma_ring_okE)
  let ?h = "(unat (next_cdesc_idx q) + c) mod unat (q_size q)"
  have "(2::nat) ^ k \<le> 2 ^ 16" using k(1) by (intro power_increasing) auto
  moreover have "?h < 2 ^ k" unfolding k(2) by simp
  ultimately have h: "?h < 2 ^ 16" by linarith
  have "(0xFFFF :: u32) = mask 16" by (simp add: mask_eq_exp_minus_1)
  then have "unat (of_nat ?h AND 0xFFFF :: u32) = ?h"
    using h by (simp only: unat_and_mask) (simp add: unsigned_of_nat take_bit_nat_eq_self)
  then show ?thesis using assms(2) by (intro exI [of _ "of_nat ?h"]) (simp only: head_at_def)
qed

theorem tx_poll_outcome_witness:
  "\<exists>s crhp s'. length (tx_pending (tx_ring s)) = 1 \<and> al_eth_tx_poll crhp s = Some s' \<and> tx_pending (tx_ring s') = [] \<and> tx_ok s'"
proof -
  obtain s b where s: "tx_ok s" "tx_pending (tx_ring s) = [b]" "unat (tx_descs b) = 3" using demo_sent by blast
  have "3 \<le> udma_in_flight (tx_dma_q (tx_ring s))" using tx_okD(6) [OF s(1)] s(2,3) by (simp add: descs_of_def)
  then obtain crhp where h: "head_at crhp (tx_dma_q (tx_ring s)) 3" using head_exists tx_okD(2) [OF s(1)] by blast
  from tx_poll_outcome [OF s(1) h] obtain m e s' where m: "m \<le> length [b]" "3 = descs_of (take m [b]) + e"
    "e = 0 \<or> m < length [b] \<and> e < unat (tx_descs ([b] ! m))" "al_eth_tx_poll crhp s = Some s'"
    "tx_pending (tx_ring s') = drop m [b]" "e = 0 \<longrightarrow> tx_ok s'" unfolding s(2) by auto
  then have "m = 1 \<and> e = 0" using s(3) by (cases m) (auto simp: descs_of_def)
  then show ?thesis using m s(2) by (metis drop_Suc_Cons drop_0 One_nat_def length_Cons list.size(3))
qed

theorem tx_path_accounting_witness:
  "\<exists>s. tx_run s [7] \<and> tx_balanced s [7] \<and> length (tx_pending (tx_ring s)) = 1"
proof -
  obtain s b where s: "tx_run s [7]" "tx_pending (tx_ring s) = [b]" using demo_sent by blast
  from tx_path_accounting [OF s(1)] have "tx_balanced s [7]" by blast
  with s show ?thesis by (intro exI [of _ s]) (simp del: length_tx_pending)
qed

theorem tx_partial_completion_lost_witness:
  "\<exists>s b crhp s1. tx_pending (tx_ring s) = [b] \<and> head_at crhp (tx_dma_q (tx_ring s)) 1 \<and> al_eth_tx_poll crhp s = Some s1 \<and> tx_pending (tx_ring s1) = [b]"
proof -
  obtain s b where s: "tx_ok s" "tx_pending (tx_ring s) = [b]" "unat (tx_descs b) = 3" using demo_sent by blast
  have "1 \<le> udma_in_flight (tx_dma_q (tx_ring s))" using tx_okD(6) [OF s(1)] s(2,3) by (simp add: descs_of_def)
  then obtain crhp where h: "head_at crhp (tx_dma_q (tx_ring s)) 1" using head_exists tx_okD(2) [OF s(1)] by blast
  from tx_partial_completion_lost [OF s(1,2) _ _ h] s(2,3) h show ?thesis by auto
qed

end
