(* ===== verification/Eth_Tx_Res.thy ===== *)
theory Eth_Tx_Res
  imports Eth_Tx_Props
begin

text \<open>
  Resources of the transmit queues: allocation of all queues with its failures, release, and the release of
  uncompleted buffers when the interface goes down.
\<close>

subsection \<open>Release of uncompleted buffers\<close>

lemma free_loop_none:
  assumes "\<forall>i \<in> set is. i < length (tx_buffer_info (tx_ring s)) \<and> tx_skb (tx_buffer_info (tx_ring s) ! i) = None"
  shows "free_tx_bufs_loop is s = Some s"
  using assms by (induction "is") (simp_all add: Let_def)

text \<open>
  C31: a socket buffer whose first DMA mapping fails is released twice.  The transmission releases it and reports success but
  leaves it in its slot of the ring; when the interface goes down before another packet uses the slot, it is unmapped and
  released again.
\<close>

theorem tx_map_failure_double_free:
  assumes "tx_fresh s" "pad skb = Some skb1" "offload_rc skb1 = RcOk" "length (skb_frags skb1) \<le> 17" "dma 0 = None"
  shows "\<exists>s1 s2. al_eth_start_xmit pad dma skb s = Some s1 \<and> tx_pending (tx_ring s1) = [] \<and>
    al_eth_free_tx_bufs s1 = Some s2 \<and> freed (tx_log s2) = [skb_id skb1, skb_id skb1]"
proof -
  have ok: "tx_ok s" using fresh_ok [OF assms(1)] by simp
  have f: "tx_buffer_info (tx_ring s) = replicate 1024 zero_tx_buffer" "next_to_use (tx_ring s) = 0" "tx_log s = []" "next_to_clean (tx_ring s) = 0"
    using assms(1) by (simp_all add: tx_fresh_def Let_def tx_consts)
  let ?hp = "(tx_hal_pkt (tx_buffer_info (tx_ring s) ! unat (next_to_use (tx_ring s))))\<lparr>pkt_flags := AL_ETH_TX_FLAGS_INT\<rparr>"
  obtain rc meta hp skb2 where cs: "al_eth_tx_csum (hal_meta (tx_ring s)) ?hp skb1 = (rc, meta, hp, skb2)" by (metis surj_pair)
  have rc: "rc = RcOk" using csum_rc [of "hal_meta (tx_ring s)" ?hp skb1] cs assms(3) by simp
  note c = csum_result [OF cs]
  have hp: "num_of_bufs hp = 0" using cs
    by (auto simp: f zero_tx_buffer_def zero_pkt_def al_eth_tx_csum_def Let_def split_def split: if_splits)
  define info where "info = (tx_buffer_info (tx_ring s) ! 0)\<lparr>tx_skb := Some skb2, tx_hal_pkt := hp\<rparr>"
  define s1 where "s1 = tx_emit [KfreeSkb (skb_id skb1)] (set_tx_info 0 info (s\<lparr>tx_ring := (tx_ring s)\<lparr>hal_meta := meta\<rparr>\<rparr>))"
  have run: "al_eth_start_xmit pad dma skb s = Some s1"
    using start_xmit_eq(3) [where pad = pad and skb = skb and dma = dma, OF ok assms(2) cs assms(4) rc assms(5)] c(2)
    by (simp add: s1_def info_def f(2))
  have s1: "tx_buffer_info (tx_ring s1) = info # replicate 1023 zero_tx_buffer" "tx_log s1 = [KfreeSkb (skb_id skb1)]"
  proof -
    have "replicate 1024 zero_tx_buffer = zero_tx_buffer # replicate 1023 zero_tx_buffer"
      using replicate_Suc [of 1023 zero_tx_buffer] by (simp del: replicate_Suc)
    then show "tx_buffer_info (tx_ring s1) = info # replicate 1023 zero_tx_buffer" by (simp add: s1_def set_tx_info_def f(1))
    show "tx_log s1 = [KfreeSkb (skb_id skb1)]" by (simp add: s1_def set_tx_info_def f(3))
  qed
  have l: "length (pkt_bufs hp) = 19" using start_xmit_eq(1) [where pad = pad and skb = skb, OF ok assms(2) cs assms(4)] .
  let ?ev = "unmap_events (take (Suc 0) (pkt_bufs hp))"
  define s2 where "s2 = tx_emit (?ev @ [KfreeSkb (skb_id skb1)]) s1"
  have "free_tx_bufs_loop [Suc 0..<1024] s2 = Some s2"
  proof (rule free_loop_none, intro ballI)
    fix i assume "i \<in> set [Suc 0..<1024]"
    then have "Suc 0 \<le> i" "i < 1024" unfolding set_upt by simp_all
    then obtain j where "i = Suc j" "j < 1023" by (cases i) simp_all
    then show "i < length (tx_buffer_info (tx_ring s2)) \<and> tx_skb (tx_buffer_info (tx_ring s2) ! i) = None"
      by (simp add: s2_def s1(1) zero_tx_buffer_def)
  qed
  moreover have "[0..<AL_ETH_DEFAULT_TX_SW_DESCS] = 0 # [Suc 0..<1024]"
    unfolding AL_ETH_DEFAULT_TX_SW_DESCS_def by (subst upt_conv_Cons) simp_all
  ultimately have "al_eth_free_tx_bufs s1 = Some (tx_emit [TxResetQueue] s2)"
    using l c(2) by (simp add: al_eth_free_tx_bufs_def s1(1) Let_def info_def hp unmap_bufs_eq s2_def)
  moreover have "freed (tx_log (tx_emit [TxResetQueue] s2)) = [skb_id skb1, skb_id skb1]"
    unfolding s2_def tx_emit_simps s1(2) by (simp only: log_append log_unmap_events log_single) (simp add: freed_def)
  moreover have "tx_pending (tx_ring s1) = []" by (simp add: tx_pending_def tx_count_def s1_def set_tx_info_def f)
  ultimately show ?thesis using run by blast
qed

theorem tx_map_failure_double_free_witness:
  "\<forall>mem io. \<exists>s1 s2. al_eth_start_xmit Some (\<lambda>_. None) demo_skb (demo_tx mem io) = Some s1 \<and> al_eth_free_tx_bufs s1 = Some s2 \<and> freed (tx_log s2) = [7, 7]"
proof (intro allI)
  fix mem io
  have "length (skb_frags demo_skb) \<le> 17" "skb_id demo_skb = 7" by (simp_all add: demo_skb_def)
  then show "\<exists>s1 s2. al_eth_start_xmit Some (\<lambda>_. None) demo_skb (demo_tx mem io) = Some s1 \<and> al_eth_free_tx_bufs s1 = Some s2 \<and> freed (tx_log s2) = [7, 7]"
    using tx_map_failure_double_free [where pad = Some and skb = demo_skb and dma = "\<lambda>_. None", OF demo_tx_fresh refl demo_offload _ refl] by metis
qed

subsection \<open>Allocation of the transmit queues\<close>

text \<open>A ring without memory, and what a ring holds after a successful allocation.\<close>

definition ring_idle :: "al_eth_tx_ring \<Rightarrow> bool" where
  "ring_idle r \<longleftrightarrow> tx_buffer_info r = [] \<and> qp_desc_base (tx_q_params r) = NULL \<and> 0 < sw_count r"

definition ring_ready :: "(nat \<Rightarrow> (ptr \<times> u64) option) \<Rightarrow> nat \<Rightarrow> al_eth_tx_ring \<Rightarrow> bool" where
  "ring_ready coh i r \<longleftrightarrow> tx_buffer_info r = replicate (sw_count r) zero_tx_buffer \<and> 0 < sw_count r \<and>
     Some (qp_desc_base (tx_q_params r), qp_desc_phy_base (tx_q_params r)) = coh i \<and> qp_size (tx_q_params r) = of_nat (hw_count r) \<and>
     qp_cdesc_base (tx_q_params r) = NULL \<and> next_to_use r = 0 \<and> next_to_clean r = 0"

definition ring_res :: "(nat \<Rightarrow> (ptr \<times> u64) option) \<Rightarrow> nat \<Rightarrow> tx_res multiset" where
  "ring_res coh i = {#TxInfoMem i, TxDescMem (fst (the (coh i)))#}"

text \<open>The queues below \<open>i\<close> are allocated, the others are idle; \<open>R\<close> is held beside the memory of the allocated queues.\<close>

definition setup_at :: "(nat \<Rightarrow> (ptr \<times> u64) option) \<Rightarrow> nat \<Rightarrow> tx_res multiset \<Rightarrow> tx_adapter \<Rightarrow> bool" where
  "setup_at coh i R ad \<longleftrightarrow> i \<le> length (ad_tx_rings ad) \<and> (\<forall>j<i. ring_ready coh j (ad_tx_rings ad ! j)) \<and>
     mset (ad_held ad) = sum_list (map (ring_res coh) [0..<i]) + R"

lemma setup_one:
  assumes "setup_at coh i {#} ad" "i < length (ad_tx_rings ad)" "ring_idle (ad_tx_rings ad ! i)" "kz i" "coh i = Some (p, a)"
  shows "\<exists>ad'. al_eth_setup_tx_resources kz coh i ad = (RcOk, ad') \<and> setup_at coh (Suc i) {#} ad' \<and>
    length (ad_tx_rings ad') = length (ad_tx_rings ad) \<and> (\<forall>j>i. ad_tx_rings ad' ! j = ad_tx_rings ad ! j)"
  using assms
  by (simp add: al_eth_setup_tx_resources_def Let_def setup_at_def set_ring_def hold_def ring_res_def nth_list_update less_Suc_eq
      ring_ready_def ring_idle_def)

lemma free_one:
  assumes "setup_at coh (Suc i) R ad" "fst (the (coh i)) \<noteq> NULL"
  shows "setup_at coh i R (al_eth_free_tx_resources i ad)"
proof -
  let ?r = "ad_tx_rings ad ! i"
  have r: "ring_ready coh i ?r" "Suc i \<le> length (ad_tx_rings ad)" using assms(1) by (auto simp: setup_at_def)
  have base: "qp_desc_base (tx_q_params ?r) = fst (the (coh i))" using r(1) unfolding ring_ready_def by (metis fst_conv option.sel)
  have ne: "tx_buffer_info ?r \<noteq> []" using r(1) by (simp add: ring_ready_def)
  have held: "mset (ad_held ad) = sum_list (map (ring_res coh) [0..<i]) + R + ring_res coh i"
    using assms(1) by (simp add: setup_at_def ac_simps)
  have "mset (ad_held (al_eth_free_tx_resources i ad)) = mset (ad_held ad) - {#TxInfoMem i#} - {#TxDescMem (fst (the (coh i)))#}"
    using assms(2) ne by (simp add: al_eth_free_tx_resources_def Let_def give_back_def set_ring_def base)
  also have "\<dots> = sum_list (map (ring_res coh) [0..<i]) + R" unfolding held by (simp add: ring_res_def)
  finally show ?thesis
    using assms ne base by (auto simp: setup_at_def al_eth_free_tx_resources_def Let_def give_back_def set_ring_def)
qed

lemma free_rewind:
  assumes "\<forall>j<i. fst (the (coh j)) \<noteq> NULL"
  shows "setup_at coh i R ad \<Longrightarrow> mset (ad_held (fold al_eth_free_tx_resources (rev [0..<i]) ad)) = R"
  using assms
proof (induction i arbitrary: ad)
  case (Suc i)
  then show ?case using free_one [OF Suc.prems(1)] by simp
qed (simp add: setup_at_def)

lemma setup_loop_ok:
  assumes "setup_at coh i {#} ad" "length (ad_tx_rings ad) = i + n" "\<forall>j<n. ring_idle (ad_tx_rings ad ! (i + j)) \<and> kz (i + j) \<and> coh (i + j) \<noteq> None"
  shows "\<exists>ad'. setup_tx_loop kz coh n i ad = (RcOk, ad') \<and> setup_at coh (i + n) {#} ad' \<and> length (ad_tx_rings ad') = i + n"
  using assms
proof (induction n arbitrary: i ad)
  case (Suc n)
  from Suc.prems(3) obtain p a where c: "ring_idle (ad_tx_rings ad ! i)" "kz i" "coh i = Some (p, a)" by fastforce
  from setup_one [where kz = kz and coh = coh, OF Suc.prems(1) _ c] Suc.prems(2) obtain ad' where
    ad': "al_eth_setup_tx_resources kz coh i ad = (RcOk, ad')" "setup_at coh (Suc i) {#} ad'"
      "length (ad_tx_rings ad') = length (ad_tx_rings ad)" "\<forall>j>i. ad_tx_rings ad' ! j = ad_tx_rings ad ! j" by auto
  from Suc.prems(3) have "\<forall>j<n. ring_idle (ad_tx_rings ad' ! (Suc i + j)) \<and> kz (Suc i + j) \<and> coh (Suc i + j) \<noteq> None"
    using ad'(4) by (metis Suc_less_eq add_Suc add_Suc_right less_add_Suc1)
  from Suc.IH [OF ad'(2) _ this] show ?case using ad' Suc.prems(2) by simp
qed simp

lemma free_all_result:
  assumes "setup_at coh n {#} ad" "length (ad_tx_rings ad) = n" "\<forall>j<n. fst (the (coh j)) \<noteq> NULL"
  shows "ad_held (al_eth_free_all_tx_resources ad) = []"
proof -
  define f where "f = (\<lambda>i ad. if qp_desc_base (tx_q_params (ad_tx_rings ad ! i)) \<noteq> NULL then al_eth_free_tx_resources i ad else ad)"
  have "i \<le> n \<Longrightarrow> mset (ad_held (fold f [0..<i] ad)) = sum_list (map (ring_res coh) [i..<n]) \<and>
      length (ad_tx_rings (fold f [0..<i] ad)) = n \<and> (\<forall>j. i \<le> j \<and> j < n \<longrightarrow> ring_ready coh j (ad_tx_rings (fold f [0..<i] ad) ! j))" for i
  proof (induction i)
    case 0
    then show ?case using assms by (simp add: setup_at_def)
  next
    case (Suc i)
    let ?ad = "fold f [0..<i] ad"
    have r: "ring_ready coh i (ad_tx_rings ?ad ! i)" "length (ad_tx_rings ?ad) = n" using Suc by auto
    have base: "qp_desc_base (tx_q_params (ad_tx_rings ?ad ! i)) = fst (the (coh i))" "tx_buffer_info (ad_tx_rings ?ad ! i) \<noteq> []"
      using r(1) unfolding ring_ready_def by (metis fst_conv option.sel, auto)
    have nz: "fst (the (coh i)) \<noteq> NULL" using assms(3) Suc.prems by simp
    have f: "f i ?ad = al_eth_free_tx_resources i ?ad" using base nz by (simp add: f_def)
    have "mset (ad_held ?ad) = ring_res coh i + sum_list (map (ring_res coh) [Suc i..<n])"
      using Suc by (simp add: upt_conv_Cons)
    then have "mset (ad_held (f i ?ad)) = sum_list (map (ring_res coh) [Suc i..<n])"
      unfolding f using base nz by (simp add: al_eth_free_tx_resources_def Let_def give_back_def set_ring_def ring_res_def)
    moreover have "length (ad_tx_rings (f i ?ad)) = n" "\<forall>j. Suc i \<le> j \<longrightarrow> ad_tx_rings (f i ?ad) ! j = ad_tx_rings ?ad ! j"
      unfolding f using r(2) by (auto simp: al_eth_free_tx_resources_def Let_def give_back_def set_ring_def)
    ultimately show ?case using Suc by auto
  qed
  from this [of n] show ?thesis by (simp add: al_eth_free_all_tx_resources_def f_def assms(2))
qed

text \<open>The first queue that cannot be allocated is queue \<open>i + k\<close>.\<close>

lemma setup_loop_fail:
  assumes "setup_at coh i {#} ad" "length (ad_tx_rings ad) = i + n" "k < n"
    and "\<forall>j\<le>k. ring_idle (ad_tx_rings ad ! (i + j))" "\<forall>j<k. kz (i + j) \<and> coh (i + j) \<noteq> None" "\<not> kz (i + k) \<or> coh (i + k) = None"
    and "\<forall>j. coh j \<noteq> None \<longrightarrow> fst (the (coh j)) \<noteq> NULL"  "\<forall>j<i. coh j \<noteq> None"
  shows "\<exists>ad'. setup_tx_loop kz coh n i ad = (RcErr ENOMEM, ad') \<and>
    mset (ad_held ad') = (if kz (i + k) then {#TxInfoMem (i + k)#} else {#})"
  using assms
proof (induction n arbitrary: i k ad)
  case (Suc n)
  show ?case
  proof (cases k)
    case 0
    obtain ad1 where ad1: "al_eth_setup_tx_resources kz coh i ad = (RcErr ENOMEM, ad1)"
      "setup_at coh i (if kz i then {#TxInfoMem i#} else {#}) ad1"
      using Suc.prems(1,2,6) 0
      by (cases "kz i") (auto simp: al_eth_setup_tx_resources_def Let_def setup_at_def set_ring_def hold_def)
    have "\<forall>j<i. fst (the (coh j)) \<noteq> NULL" using Suc.prems(7,8) by auto
    from free_rewind [OF this ad1(2)] show ?thesis using ad1(1) 0 by simp
  next
    case (Suc k')
    from Suc.prems(4,5) Suc have "ring_idle (ad_tx_rings ad ! i)" "kz i" "coh i \<noteq> None"
      by (auto dest: spec [of _ 0])
    then obtain p a where c: "ring_idle (ad_tx_rings ad ! i)" "kz i" "coh i = Some (p, a)" by auto
    from setup_one [where kz = kz and coh = coh, OF Suc.prems(1) _ c] Suc.prems(2) obtain ad' where
      ad': "al_eth_setup_tx_resources kz coh i ad = (RcOk, ad')" "setup_at coh (Suc i) {#} ad'"
        "length (ad_tx_rings ad') = length (ad_tx_rings ad)" "\<forall>j>i. ad_tx_rings ad' ! j = ad_tx_rings ad ! j" by auto
    have "\<exists>ad''. setup_tx_loop kz coh n (Suc i) ad' = (RcErr ENOMEM, ad'') \<and>
        mset (ad_held ad'') = (if kz (Suc i + k') then {#TxInfoMem (Suc i + k')#} else {#})"
    proof (rule Suc.IH [OF ad'(2)])
      show "\<forall>j\<le>k'. ring_idle (ad_tx_rings ad' ! (Suc i + j))"
        using Suc.prems(4) ad'(4) Suc by (metis Suc_le_mono add_Suc add_Suc_right less_add_Suc1)
      show "\<forall>j<k'. kz (Suc i + j) \<and> coh (Suc i + j) \<noteq> None" using Suc.prems(5) Suc by auto
      show "\<forall>j<Suc i. coh j \<noteq> None" using Suc.prems(8) c(3) by (auto simp: less_Suc_eq)
    qed (use Suc.prems ad'(3) Suc in auto)
    then show ?thesis
      unfolding \<open>k = Suc k'\<close> setup_tx_loop.simps ad'(1) Let_def prod.case add_Suc add_Suc_right by simp
  qed
qed simp

text \<open>
  C32: allocation of the transmit queues.  When every allocation succeeds, every queue has its array of empty slots and its
  descriptor memory, and releasing all queues gives everything back.  Otherwise the call fails with \<open>-ENOMEM\<close> and
  gives back the memory of the queues before the first failing one; but when the descriptor memory of that queue is what was refused, its
  array of slots stays allocated and nothing refers to it any more.
\<close>

theorem setup_all_tx_outcome:
  assumes "\<forall>i < length (ad_tx_rings ad). ring_idle (ad_tx_rings ad ! i)" "ad_held ad = []"
    and "\<forall>i. coh i \<noteq> None \<longrightarrow> fst (the (coh i)) \<noteq> NULL"
  defines "n \<equiv> length (ad_tx_rings ad)"
  shows "((\<forall>i<n. kz i \<and> coh i \<noteq> None) \<longrightarrow>
      (\<exists>ad'. al_eth_setup_all_tx_resources kz coh ad = (RcOk, ad') \<and> (\<forall>i<n. ring_ready coh i (ad_tx_rings ad' ! i)) \<and>
        ad_held (al_eth_free_all_tx_resources ad') = [])) \<and>
    (\<forall>k<n. (\<forall>i<k. kz i \<and> coh i \<noteq> None) \<and> (\<not> kz k \<or> coh k = None) \<longrightarrow>
      (\<exists>ad'. al_eth_setup_all_tx_resources kz coh ad = (RcErr ENOMEM, ad') \<and>
        mset (ad_held ad') = (if kz k then {#TxInfoMem k#} else {#})))"
proof (intro conjI allI impI)
  have start: "setup_at coh 0 {#} ad" using assms(2) by (simp add: setup_at_def)
  {
    assume all: "\<forall>i<n. kz i \<and> coh i \<noteq> None"
    from setup_loop_ok [OF start, of n kz] assms(1) all obtain ad' where
      ad': "setup_tx_loop kz coh n 0 ad = (RcOk, ad')" "setup_at coh n {#} ad'" "length (ad_tx_rings ad') = n" by (auto simp: n_def)
    have "ad_held (al_eth_free_all_tx_resources ad') = []"
      using free_all_result [OF ad'(2,3)] all assms(3) by auto
    then show "\<exists>ad'. al_eth_setup_all_tx_resources kz coh ad = (RcOk, ad') \<and> (\<forall>i<n. ring_ready coh i (ad_tx_rings ad' ! i)) \<and>
        ad_held (al_eth_free_all_tx_resources ad') = []"
      using ad' by (auto simp: al_eth_setup_all_tx_resources_def n_def setup_at_def)
  }
  fix k assume k: "k < n" "(\<forall>i<k. kz i \<and> coh i \<noteq> None) \<and> (\<not> kz k \<or> coh k = None)"
  show "\<exists>ad'. al_eth_setup_all_tx_resources kz coh ad = (RcErr ENOMEM, ad') \<and>
        mset (ad_held ad') = (if kz k then {#TxInfoMem k#} else {#})"
    using setup_loop_fail [where kz = kz and k = k, OF start, of n] k assms(1,3)
    by (cases "kz k") (simp_all add: al_eth_setup_all_tx_resources_def n_def)
qed

definition demo_ad :: tx_adapter where
  "demo_ad = \<lparr>ad_tx_rings = replicate 4 ((tx_ring (demo_tx (\<lambda>_. \<lparr>len_ctrl = 0, meta_ctrl = 0, buf_ptr = 0\<rparr>) \<lparr>regs = (\<lambda>_. 0), wlog = []\<rparr>))
     \<lparr>tx_buffer_info := [], tx_q_params := \<lparr>qp_size = 0, qp_desc_base = 0, qp_desc_phy_base = 0, qp_cdesc_base = 0, qp_cdesc_phy_base = 0,
       qp_cdesc_size = 8, qp_adapter_rev_id = 0\<rparr>\<rparr>), ad_held = []\<rparr>"

theorem setup_all_tx_outcome_witness:
  "\<exists>ad'. al_eth_setup_all_tx_resources (\<lambda>_. True) (\<lambda>i. if i = 2 then None else Some (0x1000 * Suc i, 0)) demo_ad = (RcErr ENOMEM, ad') \<and>
     ad_held ad' = [TxInfoMem 2]"
proof -
  let ?coh = "\<lambda>i. if i = 2 then None else Some (0x1000 * Suc i, 0 :: u64)"
  have idle: "\<forall>i < length (ad_tx_rings demo_ad). ring_idle (ad_tx_rings demo_ad ! i)" "ad_held demo_ad = []" "length (ad_tx_rings demo_ad) = 4"
    by (simp_all add: demo_ad_def ring_idle_def demo_tx_def)
  have nn: "\<forall>i. ?coh i \<noteq> None \<longrightarrow> fst (the (?coh i)) \<noteq> NULL" by simp
  from setup_all_tx_outcome [OF idle(1,2) nn, of "\<lambda>_. True"] show ?thesis
    unfolding idle(3) by (auto dest!: conjunct2 spec [of _ 2])
qed

end
