(* ===== verification/Eth_Fwd.thy ===== *)
theory Eth_Fwd
  imports Eth_Hal
begin

text \<open>
  Receive forwarding: the forwarding and filtering tables of the Ethernet HAL (\<open>al_hal_eth_main.c\<close>) and the network driver that fills
  them (\<open>al_eth_main.c\<close>).  \<open>ec\<close> is the base address \<open>ec_regs_base\<close> of the registers.  Enumerations are their numbers.
\<close>

subsection \<open>Registers and constants\<close>

definition AL_ETH_RX_THASH_TABLE_SIZE :: u32 where "AL_ETH_RX_THASH_TABLE_SIZE = 256"
definition AL_ETH_RX_FSM_TABLE_SIZE :: u32 where "AL_ETH_RX_FSM_TABLE_SIZE = 128"
definition AL_ETH_RX_CTRL_TABLE_SIZE :: u32 where "AL_ETH_RX_CTRL_TABLE_SIZE = 2048"
definition AL_ETH_RX_HASH_KEY_NUM :: u32 where "AL_ETH_RX_HASH_KEY_NUM = 10"
definition AL_ETH_FWD_MAC_NUM :: u32 where "AL_ETH_FWD_MAC_NUM = 32"
definition AL_ETH_FWD_MAC_HASH_NUM :: u32 where "AL_ETH_FWD_MAC_HASH_NUM = 256"
definition AL_ETH_FWD_PBITS_TABLE_NUM :: u32 where "AL_ETH_FWD_PBITS_TABLE_NUM = 8"
definition AL_ETH_FWD_PRIO_TABLE_NUM :: u32 where "AL_ETH_FWD_PRIO_TABLE_NUM = 8"
definition AL_ETH_FWD_VID_TABLE_NUM :: u32 where "AL_ETH_FWD_VID_TABLE_NUM = 4096"
definition AL_ETH_FWD_DSCP_TABLE_NUM :: u32 where "AL_ETH_FWD_DSCP_TABLE_NUM = 256"
definition AL_ETH_FWD_TC_TABLE_NUM :: u32 where "AL_ETH_FWD_TC_TABLE_NUM = 256"
definition AL_ETH_PROTO_ID_ANY :: u32 where "AL_ETH_PROTO_ID_ANY = 32"

text \<open>The block \<open>rfw\<close> starts at \<open>0x700\<close>; the arrays behind it have one register for each entry, except \<open>fwd_mac\<close> with five.\<close>

definition rfw_reg :: "ptr \<Rightarrow> nat \<Rightarrow> ptr" where "rfw_reg ec off = ec + 0x700 + off"

abbreviation (input) rfw_filter :: nat where "rfw_filter \<equiv> 0x1c"
abbreviation (input) thash_table_addr :: nat where "thash_table_addr \<equiv> 0x20"
abbreviation (input) thash_table_data :: nat where "thash_table_data \<equiv> 0x24"
abbreviation (input) mhash_table_addr :: nat where "mhash_table_addr \<equiv> 0x28"
abbreviation (input) mhash_table_data :: nat where "mhash_table_data \<equiv> 0x2c"
abbreviation (input) vid_table_addr :: nat where "vid_table_addr \<equiv> 0x30"
abbreviation (input) vid_table_data :: nat where "vid_table_data \<equiv> 0x34"
abbreviation (input) pbits_table_addr :: nat where "pbits_table_addr \<equiv> 0x38"
abbreviation (input) pbits_table_data :: nat where "pbits_table_data \<equiv> 0x3c"
abbreviation (input) dscp_table_addr :: nat where "dscp_table_addr \<equiv> 0x40"
abbreviation (input) dscp_table_data :: nat where "dscp_table_data \<equiv> 0x44"
abbreviation (input) tc_table_addr :: nat where "tc_table_addr \<equiv> 0x48"
abbreviation (input) tc_table_data :: nat where "tc_table_data \<equiv> 0x4c"
abbreviation (input) ctrl_table_addr :: nat where "ctrl_table_addr \<equiv> 0x50"
abbreviation (input) ctrl_table_data :: nat where "ctrl_table_data \<equiv> 0x54"
abbreviation (input) rfw_out_cfg :: nat where "rfw_out_cfg \<equiv> 0x58"
abbreviation (input) fsm_table_addr :: nat where "fsm_table_addr \<equiv> 0x5c"
abbreviation (input) fsm_table_data :: nat where "fsm_table_data \<equiv> 0x60"
abbreviation (input) rfw_default_vlan :: nat where "rfw_default_vlan \<equiv> 0x68"
abbreviation (input) rfw_default_or :: nat where "rfw_default_or \<equiv> 0x70"
abbreviation (input) vid_table_def :: nat where "vid_table_def \<equiv> 0xa8"
abbreviation (input) ctrl_table_def :: nat where "ctrl_table_def \<equiv> 0xac"

definition epe_a_prot_act :: "ptr \<Rightarrow> nat \<Rightarrow> ptr" where "epe_a_prot_act ec i = ec + 0x680 + 4 * i"
definition rfw_hash_key :: "ptr \<Rightarrow> nat \<Rightarrow> ptr" where "rfw_hash_key ec i = ec + 0x800 + 4 * i"
definition rfw_priority_queue :: "ptr \<Rightarrow> nat \<Rightarrow> ptr" where "rfw_priority_queue ec i = ec + 0x828 + 4 * i"
definition rfw_default_opt_1 :: "ptr \<Rightarrow> nat \<Rightarrow> ptr" where "rfw_default_opt_1 ec i = ec + 0x848 + 4 * i"
definition fwd_mac_reg :: "ptr \<Rightarrow> nat \<Rightarrow> nat \<Rightarrow> ptr" where "fwd_mac_reg ec i off = ec + 0x868 + 20 * i + off"

abbreviation (input) mac_data_l :: nat where "mac_data_l \<equiv> 0"
abbreviation (input) mac_data_h :: nat where "mac_data_h \<equiv> 4"
abbreviation (input) mac_mask_l :: nat where "mac_mask_l \<equiv> 8"
abbreviation (input) mac_mask_h :: nat where "mac_mask_h \<equiv> 0xc"
abbreviation (input) mac_ctrl :: nat where "mac_ctrl \<equiv> 0x10"

definition tfw_tx_gen :: "ptr \<Rightarrow> ptr" where "tfw_tx_gen ec = ec + 0xc00 + 0x14"
definition tfw_udma_reg :: "ptr \<Rightarrow> nat \<Rightarrow> nat \<Rightarrow> ptr" where "tfw_udma_reg ec i off = ec + 0xc60 + 24 * i + off"

definition EC_RFW_CTRL_TABLE_DEF_SEL :: u32 where "EC_RFW_CTRL_TABLE_DEF_SEL = push_bit 20 1"
definition EC_RFW_VID_TABLE_DEF_SEL :: u32 where "EC_RFW_VID_TABLE_DEF_SEL = push_bit 6 1"
definition EC_RFW_OUT_CFG_DROP_EN :: u32 where "EC_RFW_OUT_CFG_DROP_EN = push_bit 2 1"
definition EC_EPE_A_PROT_ACT_DROP :: u32 where "EC_EPE_A_PROT_ACT_DROP = push_bit 0 1"
definition EC_RFW_DEFAULT_OR_UDMA_MASK :: u32 where "EC_RFW_DEFAULT_OR_UDMA_MASK = 0x0000000F"
definition EC_RFW_DEFAULT_OR_QUEUE_MASK :: u32 where "EC_RFW_DEFAULT_OR_QUEUE_MASK = 0x00030000"
definition EC_RFW_DEFAULT_OPT_1_UDMA_MASK :: u32 where "EC_RFW_DEFAULT_OPT_1_UDMA_MASK = 0x0000000F"
definition EC_RFW_DEFAULT_OPT_1_PRIORITY_MASK :: u32 where "EC_RFW_DEFAULT_OPT_1_PRIORITY_MASK = 0x00000700"
definition EC_RFW_DEFAULT_OPT_1_QUEUE_MASK :: u32 where "EC_RFW_DEFAULT_OPT_1_QUEUE_MASK = 0x00030000"
definition EC_TFW_TX_GEN_FWD_ALL_TO_MAC :: u32 where "EC_TFW_TX_GEN_FWD_ALL_TO_MAC = push_bit 0 1"
definition EC_FWD_MAC_CTRL_RX_VAL_DROP :: u32 where "EC_FWD_MAC_CTRL_RX_VAL_DROP = push_bit 0 1"
definition EC_FWD_MAC_CTRL_RX_VAL_UDMA_MASK :: u32 where "EC_FWD_MAC_CTRL_RX_VAL_UDMA_MASK = 0x000000078"
definition EC_FWD_MAC_CTRL_RX_VAL_QID_MASK :: u32 where "EC_FWD_MAC_CTRL_RX_VAL_QID_MASK = 0x00000180"
definition EC_FWD_MAC_CTRL_RX_VALID :: u32 where "EC_FWD_MAC_CTRL_RX_VALID = push_bit 15 1"
definition EC_FWD_MAC_CTRL_TX_VAL_MASK :: u32 where "EC_FWD_MAC_CTRL_TX_VAL_MASK = 0x001F0000"
definition EC_FWD_MAC_CTRL_TX_VALID :: u32 where "EC_FWD_MAC_CTRL_TX_VALID = push_bit 31 1"
definition AL_ETH_THASH_UDMA_MASK :: u32 where "AL_ETH_THASH_UDMA_MASK = 0xF"
definition AL_ETH_THASH_Q_MASK :: u32 where "AL_ETH_THASH_Q_MASK = push_bit 4 0x3"

subsection \<open>Flow steering and control tables\<close>

text \<open>A table behind an address and a data register.\<close>

definition table_write :: "ptr \<Rightarrow> nat \<Rightarrow> nat \<Rightarrow> u32 \<Rightarrow> u32 \<Rightarrow> mmio \<Rightarrow> mmio" where
  "table_write ec a d idx val m = al_reg_write32 (al_reg_write32 m (rfw_reg ec a) idx) (rfw_reg ec d) val"

definition al_eth_thash_table_set :: "ptr \<Rightarrow> u32 \<Rightarrow> u8 \<Rightarrow> u32 \<Rightarrow> mmio \<Rightarrow> mmio option" where
  "al_eth_thash_table_set ec idx udma queue m =
     do { al_assert (idx < AL_ETH_RX_THASH_TABLE_SIZE);
          let entry = ucast udma AND AL_ETH_THASH_UDMA_MASK;
          let entry = entry OR (push_bit 4 queue AND AL_ETH_THASH_Q_MASK);
          Some (table_write ec thash_table_addr thash_table_data idx entry m) }"

definition al_eth_fsm_table_set :: "ptr \<Rightarrow> u32 \<Rightarrow> u32 \<Rightarrow> mmio \<Rightarrow> mmio option" where
  "al_eth_fsm_table_set ec idx entry m =
     do { al_assert (idx < AL_ETH_RX_FSM_TABLE_SIZE);
          Some (table_write ec fsm_table_addr fsm_table_data idx entry m) }"

record al_eth_fwd_ctrl_table_index =
  vlan_table_out :: u32
  tunnel_exist :: u32
  vlan_exist :: u32
  mac_table_match :: u32
  protocol_id :: u32
  mac_type :: u32

record al_eth_fwd_ctrl_table_entry =
  prio_sel :: u32
  queue_sel_1 :: u32
  queue_sel_2 :: u32
  udma_sel :: u32
  hdr_split_len_sel :: u32
  ce_filter :: bool

definition al_eth_fwd_ctrl_entry_to_val :: "al_eth_fwd_ctrl_table_entry \<Rightarrow> u32" where
  "al_eth_fwd_ctrl_entry_to_val entry =
     (let val = 0;
          val = AL_REG_FIELD_SET val (AL_FIELD_MASK 3 0) 0 (prio_sel entry);
          val = AL_REG_FIELD_SET val (AL_FIELD_MASK 7 4) 4 (queue_sel_1 entry);
          val = AL_REG_FIELD_SET val (AL_FIELD_MASK 9 8) 8 (queue_sel_2 entry);
          val = AL_REG_FIELD_SET val (AL_FIELD_MASK 13 10) 10 (udma_sel entry);
          val = AL_REG_FIELD_SET val (AL_FIELD_MASK 17 15) 15 (hdr_split_len_sel entry);
          val = (if hdr_split_len_sel entry \<noteq> 0 then val OR AL_BIT 18 else val)
      in AL_REG_BIT_VAL_SET val 19 (if ce_filter entry then 1 else 0))"

definition al_eth_ctrl_index_match :: "al_eth_fwd_ctrl_table_index \<Rightarrow> u32 \<Rightarrow> bool" where
  "al_eth_ctrl_index_match index i \<longleftrightarrow>
     (if vlan_table_out index \<noteq> 2 \<and> vlan_table_out index \<noteq> AL_REG_BIT_GET i 0 then False
      else if tunnel_exist index \<noteq> 2 \<and> tunnel_exist index \<noteq> AL_REG_BIT_GET i 1 then False
      else if vlan_exist index \<noteq> 2 \<and> vlan_exist index \<noteq> AL_REG_BIT_GET i 2 then False
      else if mac_table_match index \<noteq> 2 \<and> mac_table_match index \<noteq> AL_REG_BIT_GET i 3 then False
      else if protocol_id index \<noteq> AL_ETH_PROTO_ID_ANY \<and> protocol_id index \<noteq> AL_REG_FIELD_GET i (AL_FIELD_MASK 8 4) 4 then False
      else if mac_type index \<noteq> 4 \<and> mac_type index \<noteq> AL_REG_FIELD_GET i (AL_FIELD_MASK 10 9) 9 then False
      else True)"

fun ctrl_table_loop :: "ptr \<Rightarrow> al_eth_fwd_ctrl_table_index \<Rightarrow> u32 \<Rightarrow> nat list \<Rightarrow> mmio \<Rightarrow> mmio" where
  "ctrl_table_loop ec index val [] m = m"
| "ctrl_table_loop ec index val (i # is) m =
     ctrl_table_loop ec index val is
       (if al_eth_ctrl_index_match index (of_nat i) then table_write ec ctrl_table_addr ctrl_table_data (of_nat i) val m else m)"

definition al_eth_ctrl_table_set :: "ptr \<Rightarrow> al_eth_fwd_ctrl_table_index \<Rightarrow> al_eth_fwd_ctrl_table_entry \<Rightarrow> mmio \<Rightarrow> mmio" where
  "al_eth_ctrl_table_set ec index entry m =
     ctrl_table_loop ec index (al_eth_fwd_ctrl_entry_to_val entry) [0..<unat AL_ETH_RX_CTRL_TABLE_SIZE] m"

definition al_eth_ctrl_table_def_set :: "ptr \<Rightarrow> bool \<Rightarrow> al_eth_fwd_ctrl_table_entry \<Rightarrow> mmio \<Rightarrow> mmio" where
  "al_eth_ctrl_table_def_set ec use_table entry m =
     (let val = al_eth_fwd_ctrl_entry_to_val entry;
          val = (if use_table then val OR EC_RFW_CTRL_TABLE_DEF_SEL else val)
      in al_reg_write32 m (rfw_reg ec ctrl_table_def) val)"

definition al_eth_ctrl_table_raw_set :: "ptr \<Rightarrow> u32 \<Rightarrow> u32 \<Rightarrow> mmio \<Rightarrow> mmio option" where
  "al_eth_ctrl_table_raw_set ec idx entry m =
     do { al_assert (idx < AL_ETH_RX_CTRL_TABLE_SIZE);
          Some (table_write ec ctrl_table_addr ctrl_table_data idx entry m) }"

definition al_eth_ctrl_table_def_raw_set :: "ptr \<Rightarrow> u32 \<Rightarrow> mmio \<Rightarrow> mmio" where
  "al_eth_ctrl_table_def_raw_set ec val m = al_reg_write32 m (rfw_reg ec ctrl_table_def) val"

definition al_eth_hash_key_set :: "ptr \<Rightarrow> u32 \<Rightarrow> u32 \<Rightarrow> mmio \<Rightarrow> mmio option" where
  "al_eth_hash_key_set ec idx val m =
     do { al_assert (idx < AL_ETH_RX_HASH_KEY_NUM);
          Some (al_reg_write32 m (rfw_hash_key ec (unat idx)) val) }"

subsection \<open>The table of hardware addresses\<close>

text \<open>The arrays of six bytes are lists.\<close>

record al_eth_fwd_mac_table_entry =
  me_addr :: "u8 list"
  me_mask :: "u8 list"
  me_tx_valid :: bool
  me_tx_target :: u8
  me_rx_valid :: bool
  me_udma_mask :: u8
  me_qid :: u8
  me_filter :: bool

definition al_eth_fwd_mac_table_entry_to_val :: "al_eth_fwd_mac_table_entry \<Rightarrow> u32" where
  "al_eth_fwd_mac_table_entry_to_val entry =
     (let val = 0;
          val = val OR (if me_filter entry then EC_FWD_MAC_CTRL_RX_VAL_DROP else 0);
          val = val OR (push_bit 3 (ucast (me_udma_mask entry)) AND EC_FWD_MAC_CTRL_RX_VAL_UDMA_MASK);
          val = val OR (push_bit 7 (ucast (me_qid entry)) AND EC_FWD_MAC_CTRL_RX_VAL_QID_MASK);
          val = val OR (if me_rx_valid entry then EC_FWD_MAC_CTRL_RX_VALID else 0);
          val = val OR (push_bit 16 (ucast (me_tx_target entry)) AND EC_FWD_MAC_CTRL_TX_VAL_MASK)
      in val OR (if me_tx_valid entry then EC_FWD_MAC_CTRL_TX_VALID else 0))"

definition addr_lo :: "u8 list \<Rightarrow> u32" where
  "addr_lo a = push_bit 24 (ucast (a ! 2)) OR push_bit 16 (ucast (a ! 3)) OR push_bit 8 (ucast (a ! 4)) OR ucast (a ! 5)"

definition addr_hi :: "u8 list \<Rightarrow> u32" where
  "addr_hi a = push_bit 8 (ucast (a ! 0)) OR ucast (a ! 1)"

definition al_eth_fwd_mac_table_set :: "ptr \<Rightarrow> u32 \<Rightarrow> al_eth_fwd_mac_table_entry \<Rightarrow> mmio \<Rightarrow> mmio option" where
  "al_eth_fwd_mac_table_set ec idx entry m =
     do { al_assert (idx < AL_ETH_FWD_MAC_NUM);
          let m = al_reg_write32 m (fwd_mac_reg ec (unat idx) mac_data_l) (addr_lo (me_addr entry));
          let m = al_reg_write32 m (fwd_mac_reg ec (unat idx) mac_data_h) (addr_hi (me_addr entry));
          let m = al_reg_write32 m (fwd_mac_reg ec (unat idx) mac_mask_l) (addr_lo (me_mask entry));
          let m = al_reg_write32 m (fwd_mac_reg ec (unat idx) mac_mask_h) (addr_hi (me_mask entry));
          Some (al_reg_write32 m (fwd_mac_reg ec (unat idx) mac_ctrl) (al_eth_fwd_mac_table_entry_to_val entry)) }"

definition al_eth_fwd_mac_addr_raw_set :: "ptr \<Rightarrow> u32 \<Rightarrow> u32 \<Rightarrow> u32 \<Rightarrow> u32 \<Rightarrow> u32 \<Rightarrow> mmio \<Rightarrow> mmio option" where
  "al_eth_fwd_mac_addr_raw_set ec idx lo hi mask_lo mask_hi m =
     do { al_assert (idx < AL_ETH_FWD_MAC_NUM);
          let m = al_reg_write32 m (fwd_mac_reg ec (unat idx) mac_data_l) lo;
          let m = al_reg_write32 m (fwd_mac_reg ec (unat idx) mac_data_h) hi;
          let m = al_reg_write32 m (fwd_mac_reg ec (unat idx) mac_mask_l) mask_lo;
          Some (al_reg_write32 m (fwd_mac_reg ec (unat idx) mac_mask_h) mask_hi) }"

definition al_eth_fwd_mac_ctrl_raw_set :: "ptr \<Rightarrow> u32 \<Rightarrow> u32 \<Rightarrow> mmio \<Rightarrow> mmio option" where
  "al_eth_fwd_mac_ctrl_raw_set ec idx ctrl m =
     do { al_assert (idx < AL_ETH_FWD_MAC_NUM);
          Some (al_reg_write32 m (fwd_mac_reg ec (unat idx) mac_ctrl) ctrl) }"

definition al_eth_mac_addr_store :: "ptr \<Rightarrow> u32 \<Rightarrow> u8 list \<Rightarrow> mmio \<Rightarrow> mmio option" where
  "al_eth_mac_addr_store ec idx addr m =
     do { al_assert (idx < AL_ETH_FWD_MAC_NUM);
          let m = al_reg_write32 m (fwd_mac_reg ec (unat idx) mac_data_l) (addr_lo addr);
          Some (al_reg_write32 m (fwd_mac_reg ec (unat idx) mac_data_h) (addr_hi addr)) }"

definition al_eth_mac_addr_read :: "ptr \<Rightarrow> u32 \<Rightarrow> mmio \<Rightarrow> u8 list" where
  "al_eth_mac_addr_read ec idx m =
     (let lo = al_reg_read32 m (fwd_mac_reg ec (unat idx) mac_data_l);
          hi = ucast (al_reg_read32 m (fwd_mac_reg ec (unat idx) mac_data_h)) :: u16
      in [ucast (drop_bit 8 hi AND 0xff), ucast (hi AND 0xff), ucast (drop_bit 24 lo AND 0xff), ucast (drop_bit 16 lo AND 0xff),
          ucast (drop_bit 8 lo AND 0xff), ucast (lo AND 0xff)])"

subsection \<open>Other tables, defaults, filters and switching\<close>

definition al_eth_fwd_mhash_table_set :: "ptr \<Rightarrow> u32 \<Rightarrow> u8 \<Rightarrow> u8 \<Rightarrow> mmio \<Rightarrow> mmio option" where
  "al_eth_fwd_mhash_table_set ec idx udma_mask qn m =
     do { al_assert (idx < AL_ETH_FWD_MAC_HASH_NUM);
          let val = AL_REG_FIELD_SET 0 (AL_FIELD_MASK 3 0) 0 (ucast udma_mask);
          let val = AL_REG_FIELD_SET val (AL_FIELD_MASK 5 4) 4 (ucast qn);
          Some (table_write ec mhash_table_addr mhash_table_data idx val m) }"

text \<open>The bit fields of one, one and four bits.\<close>

record al_eth_fwd_vid_table_entry =
  ve_control :: bool
  ve_filter :: bool
  ve_udma_mask :: "4 word"

definition al_eth_fwd_vid_entry_to_val :: "al_eth_fwd_vid_table_entry \<Rightarrow> u32" where
  "al_eth_fwd_vid_entry_to_val entry =
     (let val = AL_REG_BIT_VAL_SET 0 0 (if ve_control entry then 1 else 0);
          val = AL_REG_BIT_VAL_SET val 1 (if ve_filter entry then 1 else 0)
      in AL_REG_FIELD_SET val (AL_FIELD_MASK 5 2) 2 (ucast (ve_udma_mask entry)))"

definition al_eth_fwd_vid_config_set :: "ptr \<Rightarrow> bool \<Rightarrow> al_eth_fwd_vid_table_entry \<Rightarrow> u32 \<Rightarrow> mmio \<Rightarrow> mmio" where
  "al_eth_fwd_vid_config_set ec use_table default_entry default_vlan m =
     (let reg = al_eth_fwd_vid_entry_to_val default_entry;
          reg = (if use_table then reg OR EC_RFW_VID_TABLE_DEF_SEL else reg AND NOT EC_RFW_VID_TABLE_DEF_SEL);
          m = al_reg_write32 m (rfw_reg ec vid_table_def) reg
      in al_reg_write32 m (rfw_reg ec rfw_default_vlan) default_vlan)"

definition al_eth_fwd_vid_table_set :: "ptr \<Rightarrow> u32 \<Rightarrow> al_eth_fwd_vid_table_entry \<Rightarrow> mmio \<Rightarrow> mmio option" where
  "al_eth_fwd_vid_table_set ec idx entry m =
     do { al_assert (idx < AL_ETH_FWD_VID_TABLE_NUM);
          Some (table_write ec vid_table_addr vid_table_data idx (al_eth_fwd_vid_entry_to_val entry) m) }"

definition al_eth_fwd_pbits_table_set :: "ptr \<Rightarrow> u32 \<Rightarrow> u8 \<Rightarrow> mmio \<Rightarrow> mmio option" where
  "al_eth_fwd_pbits_table_set ec idx prio m =
     do { al_assert (idx < AL_ETH_FWD_PBITS_TABLE_NUM);
          al_assert (ucast prio < AL_ETH_FWD_PRIO_TABLE_NUM);
          Some (table_write ec pbits_table_addr pbits_table_data idx (ucast prio) m) }"

definition al_eth_fwd_priority_table_set :: "ptr \<Rightarrow> u8 \<Rightarrow> u8 \<Rightarrow> mmio \<Rightarrow> mmio option" where
  "al_eth_fwd_priority_table_set ec prio qn m =
     do { al_assert (ucast prio < AL_ETH_FWD_PRIO_TABLE_NUM);
          Some (al_reg_write32 m (rfw_priority_queue ec (unat prio)) (ucast qn)) }"

definition al_eth_fwd_dscp_table_set :: "ptr \<Rightarrow> u32 \<Rightarrow> u8 \<Rightarrow> mmio \<Rightarrow> mmio option" where
  "al_eth_fwd_dscp_table_set ec idx prio m =
     do { al_assert (idx < AL_ETH_FWD_DSCP_TABLE_NUM);
          Some (table_write ec dscp_table_addr dscp_table_data idx (ucast prio) m) }"

definition al_eth_fwd_tc_table_set :: "ptr \<Rightarrow> u32 \<Rightarrow> u8 \<Rightarrow> mmio \<Rightarrow> mmio option" where
  "al_eth_fwd_tc_table_set ec idx prio m =
     do { al_assert (idx < AL_ETH_FWD_TC_TABLE_NUM);
          Some (table_write ec tc_table_addr tc_table_data idx (ucast prio) m) }"

definition al_eth_fwd_default_udma_config :: "ptr \<Rightarrow> u32 \<Rightarrow> u8 \<Rightarrow> mmio \<Rightarrow> mmio" where
  "al_eth_fwd_default_udma_config ec idx udma_mask m =
     al_reg_write32_masked m (rfw_default_opt_1 ec (unat idx)) EC_RFW_DEFAULT_OPT_1_UDMA_MASK (ucast udma_mask)"

definition al_eth_fwd_default_queue_config :: "ptr \<Rightarrow> u32 \<Rightarrow> u8 \<Rightarrow> mmio \<Rightarrow> mmio" where
  "al_eth_fwd_default_queue_config ec idx qn m =
     al_reg_write32_masked m (rfw_default_opt_1 ec (unat idx)) EC_RFW_DEFAULT_OPT_1_QUEUE_MASK (push_bit 16 (ucast qn))"

definition al_eth_fwd_default_priority_config :: "ptr \<Rightarrow> u32 \<Rightarrow> u8 \<Rightarrow> mmio \<Rightarrow> mmio" where
  "al_eth_fwd_default_priority_config ec idx prio m =
     al_reg_write32_masked m (rfw_default_opt_1 ec (unat idx)) EC_RFW_DEFAULT_OPT_1_PRIORITY_MASK (push_bit 8 (ucast prio))"

definition al_eth_switching_config_set :: "ptr \<Rightarrow> u8 \<Rightarrow> u8 \<Rightarrow> u8 \<Rightarrow> u32 \<Rightarrow> u32 \<Rightarrow> u32 \<Rightarrow> u32 \<Rightarrow> mmio \<Rightarrow> mmio" where
  "al_eth_switching_config_set ec udma_id forward_all_to_mac enable_int_switching vid_sel_type uc_dec mc_dec bc_dec m =
     (let m = (if udma_id = 0 then
                 let reg = al_reg_read32 m (tfw_tx_gen ec);
                     reg = (if forward_all_to_mac \<noteq> 0 then reg OR EC_TFW_TX_GEN_FWD_ALL_TO_MAC else reg AND NOT EC_TFW_TX_GEN_FWD_ALL_TO_MAC)
                 in al_reg_write32 m (tfw_tx_gen ec) reg
               else m);
          reg = ucast enable_int_switching;
          reg = reg OR push_bit 1 (vid_sel_type AND 7);
          reg = reg OR push_bit 4 (bc_dec AND 3);
          reg = reg OR push_bit 6 (mc_dec AND 3);
          reg = reg OR push_bit 8 (uc_dec AND 3)
      in al_reg_write32 m (tfw_udma_reg ec (unat udma_id) 0x10) reg)"

definition AL_ETH_RFW_FILTER_SUPPORTED :: u32 where
  "AL_ETH_RFW_FILTER_SUPPORTED =
     push_bit 0 1 OR push_bit 1 1 OR push_bit 2 1 OR push_bit 3 1 OR push_bit 4 1 OR push_bit 5 1 OR
     push_bit 7 1 OR push_bit 8 1 OR push_bit 9 1 OR push_bit 10 1 OR push_bit 6 1"

definition AL_ETH_RFW_FILTER_PROT_INDEX :: u32 where "AL_ETH_RFW_FILTER_PROT_INDEX = push_bit 9 1"

record al_eth_filter_params =
  fp_enable :: bool
  fp_filters :: u32
  fp_filter_proto :: "bool list"

fun filter_proto_loop :: "ptr \<Rightarrow> nat \<Rightarrow> bool list \<Rightarrow> mmio \<Rightarrow> mmio" where
  "filter_proto_loop ec i [] m = m"
| "filter_proto_loop ec i (dr # ps) m =
     (let reg = al_reg_read32 m (epe_a_prot_act ec i);
          reg = (if dr then AL_REG_MASK_SET reg EC_EPE_A_PROT_ACT_DROP else AL_REG_MASK_CLEAR reg EC_EPE_A_PROT_ACT_DROP)
      in filter_proto_loop ec (Suc i) ps (al_reg_write32 m (epe_a_prot_act ec i) reg))"

definition al_eth_filter_config :: "ptr \<Rightarrow> al_eth_filter_params \<Rightarrow> mmio \<Rightarrow> rc \<times> mmio" where
  "al_eth_filter_config ec params m =
     (if fp_filters params AND NOT AL_ETH_RFW_FILTER_SUPPORTED \<noteq> 0 then (RcErr EINVAL, m)
      else
        let reg = al_reg_read32 m (rfw_reg ec rfw_out_cfg);
            reg = (if fp_enable params then AL_REG_MASK_SET reg EC_RFW_OUT_CFG_DROP_EN else AL_REG_MASK_CLEAR reg EC_RFW_OUT_CFG_DROP_EN);
            m = al_reg_write32 m (rfw_reg ec rfw_out_cfg) reg;
            m = al_reg_write32_masked m (rfw_reg ec rfw_filter) AL_ETH_RFW_FILTER_SUPPORTED (fp_filters params)
        in (RcOk, if fp_filters params AND AL_ETH_RFW_FILTER_PROT_INDEX \<noteq> 0
                  then filter_proto_loop ec 0 (take (unat AL_ETH_PROTO_ID_ANY) (fp_filter_proto params)) m else m))"

record al_eth_filter_override_params =
  fo_filters :: u32
  fo_udma :: u8
  fo_qid :: u8

definition al_eth_filter_override_config :: "ptr \<Rightarrow> al_eth_filter_override_params \<Rightarrow> mmio \<Rightarrow> rc \<times> mmio" where
  "al_eth_filter_override_config ec params m =
     (if fo_filters params AND NOT AL_ETH_RFW_FILTER_SUPPORTED \<noteq> 0 then (RcErr EINVAL, m)
      else
        let m = al_reg_write32_masked m (rfw_reg ec rfw_filter) (push_bit 16 AL_ETH_RFW_FILTER_SUPPORTED) (push_bit 16 (fo_filters params));
            reg = al_reg_read32 m (rfw_reg ec rfw_default_or);
            reg = AL_REG_FIELD_SET reg EC_RFW_DEFAULT_OR_UDMA_MASK 0 (ucast (fo_udma params));
            reg = AL_REG_FIELD_SET reg EC_RFW_DEFAULT_OR_QUEUE_MASK 16 (ucast (fo_qid params))
        in (RcOk, al_reg_write32 m (rfw_reg ec rfw_default_or) reg))"

definition al_eth_switching_default_bitmap_set :: "ptr \<Rightarrow> u8 \<Rightarrow> u8 \<Rightarrow> u8 \<Rightarrow> u8 \<Rightarrow> mmio \<Rightarrow> mmio" where
  "al_eth_switching_default_bitmap_set ec udma_id udma_uc_bitmask udma_mc_bitmask udma_bc_bitmask m =
     (let m = al_reg_write32 m (tfw_udma_reg ec (unat udma_id) 0) (ucast udma_uc_bitmask);
          m = al_reg_write32 m (tfw_udma_reg ec (unat udma_id) 4) (ucast udma_mc_bitmask)
      in al_reg_write32 m (tfw_udma_reg ec (unat udma_id) 8) (ucast udma_bc_bitmask))"

subsection \<open>The network driver\<close>

definition AL_ETH_MAC_TABLE_UNICAST_IDX_BASE :: u8 where "AL_ETH_MAC_TABLE_UNICAST_IDX_BASE = 0"
definition AL_ETH_MAC_TABLE_UNICAST_MAX_COUNT :: u8 where "AL_ETH_MAC_TABLE_UNICAST_MAX_COUNT = 4"
definition AL_ETH_MAC_TABLE_ALL_MULTICAST_IDX :: u8 where
  "AL_ETH_MAC_TABLE_ALL_MULTICAST_IDX = AL_ETH_MAC_TABLE_UNICAST_IDX_BASE + AL_ETH_MAC_TABLE_UNICAST_MAX_COUNT"
definition AL_ETH_MAC_TABLE_DROP_IDX :: u8 where "AL_ETH_MAC_TABLE_DROP_IDX = ucast (AL_ETH_FWD_MAC_NUM - 1)"
definition AL_ETH_MAC_TABLE_BROADCAST_IDX :: u8 where "AL_ETH_MAC_TABLE_BROADCAST_IDX = AL_ETH_MAC_TABLE_DROP_IDX - 1"

text \<open>The fields of the adapter that forwarding uses.\<close>

record fwd_adapter =
  fwd_ec :: ptr
  fwd_mac_addr :: "u8 list"
  fwd_udma_num :: nat
  rss_ind_tbl :: "u8 list"

definition udma_bit :: "fwd_adapter \<Rightarrow> u8" where
  "udma_bit ad = ucast (push_bit (fwd_udma_num ad) 1 :: u32)"

definition zero_mac_entry :: al_eth_fwd_mac_table_entry where
  "zero_mac_entry = \<lparr>me_addr = replicate 6 0, me_mask = replicate 6 0, me_tx_valid = False, me_tx_target = 0, me_rx_valid = False,
     me_udma_mask = 0, me_qid = 0, me_filter = False\<rparr>"

text \<open>The argument \<open>addr\<close> is not used: the entry gets the address of the adapter.\<close>

definition al_eth_mac_table_unicast_add :: "fwd_adapter \<Rightarrow> u8 \<Rightarrow> u8 list \<Rightarrow> u8 \<Rightarrow> mmio \<Rightarrow> mmio option" where
  "al_eth_mac_table_unicast_add ad idx addr udma_mask m =
     (let entry = zero_mac_entry;
          entry = entry\<lparr>me_addr := fwd_mac_addr ad\<rparr>;
          entry = entry\<lparr>me_mask := replicate 6 0xff\<rparr>;
          entry = entry\<lparr>me_rx_valid := True, me_tx_valid := False, me_udma_mask := udma_mask, me_filter := False\<rparr>
      in al_eth_fwd_mac_table_set (fwd_ec ad) (ucast idx) entry m)"

definition al_eth_mac_table_broadcast_add :: "fwd_adapter \<Rightarrow> u8 \<Rightarrow> u8 \<Rightarrow> mmio \<Rightarrow> mmio option" where
  "al_eth_mac_table_broadcast_add ad idx udma_mask m =
     (let entry = zero_mac_entry;
          entry = entry\<lparr>me_addr := replicate 6 0xff, me_mask := replicate 6 0xff\<rparr>;
          entry = entry\<lparr>me_rx_valid := True, me_tx_valid := False, me_udma_mask := udma_mask, me_filter := False\<rparr>
      in al_eth_fwd_mac_table_set (fwd_ec ad) (ucast idx) entry m)"

definition al_eth_mac_table_all_multicast_add :: "fwd_adapter \<Rightarrow> u8 \<Rightarrow> u8 \<Rightarrow> mmio \<Rightarrow> mmio option" where
  "al_eth_mac_table_all_multicast_add ad idx udma_mask m =
     (let entry = zero_mac_entry;
          entry = entry\<lparr>me_addr := replicate 6 0, me_mask := replicate 6 0\<rparr>;
          entry = entry\<lparr>me_mask := (me_mask entry)[0 := me_mask entry ! 0 OR 1]\<rparr>;
          entry = entry\<lparr>me_addr := (me_addr entry)[0 := me_addr entry ! 0 OR 1]\<rparr>;
          entry = entry\<lparr>me_rx_valid := True, me_tx_valid := False, me_udma_mask := udma_mask, me_filter := False\<rparr>
      in al_eth_fwd_mac_table_set (fwd_ec ad) (ucast idx) entry m)"

definition al_eth_mac_table_promiscuous_set :: "fwd_adapter \<Rightarrow> bool \<Rightarrow> u8 \<Rightarrow> mmio \<Rightarrow> mmio option" where
  "al_eth_mac_table_promiscuous_set ad promiscuous udma_mask m =
     (let entry = zero_mac_entry;
          entry = entry\<lparr>me_addr := replicate 6 0, me_mask := replicate 6 0\<rparr>;
          entry = entry\<lparr>me_rx_valid := True, me_tx_valid := False, me_udma_mask := (if promiscuous then udma_mask else 0),
                        me_filter := (if promiscuous then False else True)\<rparr>
      in al_eth_fwd_mac_table_set (fwd_ec ad) (ucast AL_ETH_MAC_TABLE_DROP_IDX) entry m)"

definition al_eth_mac_table_entry_clear :: "fwd_adapter \<Rightarrow> u8 \<Rightarrow> mmio \<Rightarrow> mmio option" where
  "al_eth_mac_table_entry_clear ad idx m = al_eth_fwd_mac_table_set (fwd_ec ad) (ucast idx) zero_mac_entry m"

definition AL_ETH_FSM_ENTRY_OUTER :: "nat \<Rightarrow> nat" where "AL_ETH_FSM_ENTRY_OUTER idx = take_bit 3 idx"

text \<open>The value of an entry by the type of the outer packet: TCP and UDP over IPv4 and IPv6 are 0 to 3, other IPv6 and IPv4 packets 4 and 5.\<close>

definition fsm_entry :: "fwd_adapter \<Rightarrow> nat \<Rightarrow> u32" where
  "fsm_entry ad i =
     (if AL_ETH_FSM_ENTRY_OUTER i \<in> {0, 1, 2, 3} then 1 OR push_bit 2 1
      else if AL_ETH_FSM_ENTRY_OUTER i \<in> {4, 5} then 0 OR push_bit 2 1
      else push_bit 5 0 OR push_bit 3 (push_bit (fwd_udma_num ad) 1))"

fun fsm_init_loop :: "fwd_adapter \<Rightarrow> nat list \<Rightarrow> mmio \<Rightarrow> mmio option" where
  "fsm_init_loop ad [] m = Some m"
| "fsm_init_loop ad (i # is) m = do { m \<leftarrow> al_eth_fsm_table_set (fwd_ec ad) (of_nat i) (fsm_entry ad i) m; fsm_init_loop ad is m }"

definition al_eth_fsm_table_init :: "fwd_adapter \<Rightarrow> mmio \<Rightarrow> mmio option" where
  "al_eth_fsm_table_init ad m = fsm_init_loop ad [0..<unat AL_ETH_RX_FSM_TABLE_SIZE] m"

fun pbits_loop :: "ptr \<Rightarrow> nat list \<Rightarrow> mmio \<Rightarrow> mmio option" where
  "pbits_loop ec [] m = Some m"
| "pbits_loop ec (i # is) m = do { m \<leftarrow> al_eth_fwd_pbits_table_set ec (of_nat i) (of_nat i) m; pbits_loop ec is m }"

fun priority_loop :: "ptr \<Rightarrow> nat list \<Rightarrow> mmio \<Rightarrow> mmio option" where
  "priority_loop ec [] m = Some m"
| "priority_loop ec (i # is) m = do { m \<leftarrow> al_eth_fwd_priority_table_set ec (of_nat i) (of_nat (drop_bit 1 i)) m; priority_loop ec is m }"

text \<open>The processor is little-endian.\<close>

definition htonl :: "u32 \<Rightarrow> u32" where
  "htonl x = push_bit 24 (x AND 0xff) OR push_bit 8 (x AND 0xff00) OR (drop_bit 8 x AND 0xff00) OR drop_bit 24 x"

fun hash_key_loop :: "ptr \<Rightarrow> nat \<Rightarrow> u32 list \<Rightarrow> mmio \<Rightarrow> mmio option" where
  "hash_key_loop ec i [] m = Some m"
| "hash_key_loop ec i (k # ks) m = do { m \<leftarrow> al_eth_hash_key_set ec (of_nat i) (htonl k) m; hash_key_loop ec (Suc i) ks m }"

fun thash_loop :: "fwd_adapter \<Rightarrow> nat \<Rightarrow> u32 list \<Rightarrow> mmio \<Rightarrow> mmio option" where
  "thash_loop ad i [] m = Some m"
| "thash_loop ad i (x # xs) m = do { m \<leftarrow> al_eth_thash_table_set (fwd_ec ad) (of_nat i) (of_nat (fwd_udma_num ad)) x m; thash_loop ad (Suc i) xs m }"

text \<open>
  \<open>hdr\<close> is the field \<open>hdr_split_len_sel\<close> of the entry on the stack, which the code does not set; \<open>key\<close> are the ten words that
  \<open>get_random_bytes\<close> returns.
\<close>

definition al_eth_config_rx_fwd :: "u32 \<Rightarrow> u32 list \<Rightarrow> fwd_adapter \<Rightarrow> mmio \<Rightarrow> mmio option" where
  "al_eth_config_rx_fwd hdr key ad m =
     do { m \<leftarrow> pbits_loop (fwd_ec ad) [0..<unat AL_ETH_FWD_PBITS_TABLE_NUM] m;
          m \<leftarrow> priority_loop (fwd_ec ad) [0..<unat AL_ETH_FWD_PRIO_TABLE_NUM] m;
          let m = al_eth_ctrl_table_def_set (fwd_ec ad) False
            \<lparr>prio_sel = 12, queue_sel_1 = 1, queue_sel_2 = 3, udma_sel = 4, hdr_split_len_sel = hdr, ce_filter = False\<rparr> m;
          m \<leftarrow> al_eth_mac_table_unicast_add ad AL_ETH_MAC_TABLE_UNICAST_IDX_BASE (fwd_mac_addr ad) (udma_bit ad) m;
          m \<leftarrow> al_eth_mac_table_broadcast_add ad AL_ETH_MAC_TABLE_BROADCAST_IDX (udma_bit ad) m;
          m \<leftarrow> al_eth_mac_table_promiscuous_set ad False (udma_bit ad) m;
          m \<leftarrow> hash_key_loop (fwd_ec ad) 0 (take (unat AL_ETH_RX_HASH_KEY_NUM) key) m;
          m \<leftarrow> thash_loop ad 0 (map ucast (take (unat AL_ETH_RX_THASH_TABLE_SIZE) (rss_ind_tbl ad))) m;
          al_eth_fsm_table_init ad m }"

text \<open>What \<open>is_valid_ether_addr\<close> checks: the address is not zero and not a group address.  The error is \<open>-EADDRNOTAVAIL\<close>.\<close>

definition is_valid_ether_addr :: "u8 list \<Rightarrow> bool" where
  "is_valid_ether_addr a \<longleftrightarrow> \<not> bit (a ! 0) 0 \<and> a \<noteq> replicate 6 0"

definition al_eth_set_mac_addr :: "u8 list \<Rightarrow> fwd_adapter \<times> mmio \<Rightarrow> (rc \<times> fwd_adapter \<times> mmio) option" where
  "al_eth_set_mac_addr sa_data = (\<lambda>(ad, m).
     if \<not> is_valid_ether_addr sa_data then Some (RcErr EOTHER, ad, m)
     else
       let ad = ad\<lparr>fwd_mac_addr := sa_data\<rparr>
       in do { m \<leftarrow> al_eth_mac_table_unicast_add ad AL_ETH_MAC_TABLE_UNICAST_IDX_BASE (fwd_mac_addr ad) (udma_bit ad) m;
               Some (RcOk, ad, m) })"

text \<open>The flags of the network device, whether it has multicast addresses, and its list of additional unicast addresses.\<close>

record rx_mode =
  IFF_PROMISC :: bool
  IFF_ALLMULTI :: bool
  netdev_mc_empty :: bool
  netdev_uc :: "u8 list list"

fun clear_loop :: "fwd_adapter \<Rightarrow> nat list \<Rightarrow> mmio \<Rightarrow> mmio option" where
  "clear_loop ad [] m = Some m"
| "clear_loop ad (i # is) m = do { m \<leftarrow> al_eth_mac_table_entry_clear ad (of_nat i) m; clear_loop ad is m }"

fun uc_loop :: "fwd_adapter \<Rightarrow> u8 \<Rightarrow> u8 list list \<Rightarrow> mmio \<Rightarrow> mmio option" where
  "uc_loop ad i [] m = Some m"
| "uc_loop ad i (ha # has) m = do { m \<leftarrow> al_eth_mac_table_unicast_add ad i ha (udma_bit ad) m; uc_loop ad (i + 1) has m }"

definition al_eth_set_rx_mode :: "rx_mode \<Rightarrow> fwd_adapter \<Rightarrow> mmio \<Rightarrow> mmio option" where
  "al_eth_set_rx_mode mode ad m =
     (if IFF_PROMISC mode then al_eth_mac_table_promiscuous_set ad True (udma_bit ad) m
      else do {
        m \<leftarrow> (if IFF_ALLMULTI mode then al_eth_mac_table_all_multicast_add ad AL_ETH_MAC_TABLE_ALL_MULTICAST_IDX (udma_bit ad) m
              else if netdev_mc_empty mode then al_eth_mac_table_entry_clear ad AL_ETH_MAC_TABLE_ALL_MULTICAST_IDX m
              else al_eth_mac_table_all_multicast_add ad AL_ETH_MAC_TABLE_ALL_MULTICAST_IDX (udma_bit ad) m);
        if netdev_uc mode \<noteq> [] \<and> length (netdev_uc mode) > unat AL_ETH_MAC_TABLE_UNICAST_MAX_COUNT
        then al_eth_mac_table_promiscuous_set ad True (udma_bit ad) m
        else do {
          m \<leftarrow> (if netdev_uc mode \<noteq> [] then do {
                  m \<leftarrow> clear_loop ad [unat AL_ETH_MAC_TABLE_UNICAST_IDX_BASE + 1..<
                      unat (AL_ETH_MAC_TABLE_UNICAST_IDX_BASE + AL_ETH_MAC_TABLE_UNICAST_MAX_COUNT)] m;
                  uc_loop ad (AL_ETH_MAC_TABLE_UNICAST_IDX_BASE + 1) (netdev_uc mode) m }
                else Some m);
          al_eth_mac_table_promiscuous_set ad False (udma_bit ad) m } })"

definition al_eth_get_rxfh :: "fwd_adapter \<Rightarrow> u32 list" where
  "al_eth_get_rxfh ad = map ucast (take (unat AL_ETH_RX_THASH_TABLE_SIZE) (rss_ind_tbl ad))"

text \<open>A loop of stores to the table of the adapter and to the hardware; \<^term>\<open>None\<close> as the argument is a null pointer.\<close>

definition al_eth_set_rxfh :: "u32 list option \<Rightarrow> fwd_adapter \<times> mmio \<Rightarrow> (fwd_adapter \<times> mmio) option" where
  "al_eth_set_rxfh indir = (\<lambda>(ad, m). case indir of
     None \<Rightarrow> Some (ad, m)
   | Some tab \<Rightarrow> do {
       m \<leftarrow> thash_loop ad 0 (take (unat AL_ETH_RX_THASH_TABLE_SIZE) tab) m;
       Some (ad\<lparr>rss_ind_tbl := map ucast (take (unat AL_ETH_RX_THASH_TABLE_SIZE) tab)\<rparr>, m) })"

text \<open>When the interface stops, a network-card set-up steers the packets to UDMA 0 (the part of \<open>al_eth_hw_stop\<close> that touches the table).\<close>

definition hw_stop_steer :: "fwd_adapter \<Rightarrow> mmio \<Rightarrow> mmio option" where
  "hw_stop_steer ad m =
     (if fwd_udma_num ad \<noteq> 0 then do {
        m \<leftarrow> al_eth_mac_table_unicast_add ad AL_ETH_MAC_TABLE_UNICAST_IDX_BASE (fwd_mac_addr ad) 1 m;
        m \<leftarrow> al_eth_mac_table_broadcast_add ad AL_ETH_MAC_TABLE_BROADCAST_IDX 1 m;
        al_eth_mac_table_promiscuous_set ad True 1 m }
      else Some m)"

end
