(* ===== verification/Eth_Fwd_Props.thy ===== *)
theory Eth_Fwd_Props
  imports Eth_Fwd Eth_Hal_Props
begin

text \<open>
  The table of hardware addresses as a filter.  The hardware looks for the first valid entry whose masked address is equal to that of the packet
  (documented in \<open>al_hal_eth.h\<close>); the entry tells whether to drop the packet and which UDMAs get it.
\<close>

subsection \<open>Addresses\<close>

text \<open>An entry of the table as the hardware sees it: address, mask and control register.\<close>

type_synonym mac_slot = "u32 \<times> u32 \<times> u32 \<times> u32 \<times> u32"

definition mac_table :: "ptr \<Rightarrow> mmio \<Rightarrow> nat \<Rightarrow> mac_slot" where
  "mac_table ec m i = (al_reg_read32 m (fwd_mac_reg ec i mac_data_l), al_reg_read32 m (fwd_mac_reg ec i mac_data_h),
     al_reg_read32 m (fwd_mac_reg ec i mac_mask_l), al_reg_read32 m (fwd_mac_reg ec i mac_mask_h), al_reg_read32 m (fwd_mac_reg ec i mac_ctrl))"

definition mac_slot_of :: "al_eth_fwd_mac_table_entry \<Rightarrow> mac_slot" where
  "mac_slot_of e = (addr_lo (me_addr e), addr_hi (me_addr e), addr_lo (me_mask e), addr_hi (me_mask e), al_eth_fwd_mac_table_entry_to_val e)"

definition slot_hit :: "u8 list \<Rightarrow> mac_slot \<Rightarrow> bool" where
  "slot_hit da = (\<lambda>(data_l, data_h, mask_l, mask_h, ctrl). bit ctrl 15 \<and> addr_lo da AND mask_l = data_l \<and> addr_hi da AND mask_h = data_h)"

text \<open>What the control register of the entry says: drop the packet, or the mask of the UDMAs that get it.\<close>

definition slot_action :: "mac_slot \<Rightarrow> u32 option" where
  "slot_action = (\<lambda>(data_l, data_h, mask_l, mask_h, ctrl). if bit ctrl 0 then None else Some (take_bit 4 (drop_bit 3 ctrl)))"

fun first_match :: "u8 list \<Rightarrow> mac_slot list \<Rightarrow> u32 option" where
  "first_match da [] = None"
| "first_match da (s # ss) = (if slot_hit da s then slot_action s else first_match da ss)"

definition mac_decision :: "ptr \<Rightarrow> mmio \<Rightarrow> u8 list \<Rightarrow> u32 option" where
  "mac_decision ec m da = first_match da (map (mac_table ec m) [0..<32])"

lemma fwd_mac_reg_inj:
  "off < 20 \<Longrightarrow> off' < 20 \<Longrightarrow> fwd_mac_reg ec i off = fwd_mac_reg ec j off' \<longleftrightarrow> i = j \<and> off = off'"
proof -
  assume o: "off < 20" "off' < 20"
  have "i = j \<and> off = off'" if e: "20 * i + off = 20 * j + off'"
  proof -
    have "i = (20 * i + off) div 20" "j = (20 * j + off') div 20" using o by simp_all
    then show ?thesis using e by simp
  qed
  then show ?thesis by (auto simp: fwd_mac_reg_def)
qed

lemma read_after_write: "al_reg_read32 (al_reg_write32 m a v) b = (if b = a then v else al_reg_read32 m b)"
  by (simp add: al_reg_read32_def al_reg_write32_def)

lemma mac_table_set:
  assumes "idx < 32"
  shows "\<exists>m'. al_eth_fwd_mac_table_set ec idx e m = Some m' \<and> mac_table ec m' = (mac_table ec m)(unat idx := mac_slot_of e)"
  using assms by (simp add: al_eth_fwd_mac_table_set_def AL_ETH_FWD_MAC_NUM_def mac_table_def mac_slot_of_def read_after_write fwd_mac_reg_inj fun_eq_iff)

text \<open>The two words of an address determine its bytes.\<close>

lemma addr_byte:
  "k < 4 \<Longrightarrow> n < 8 \<Longrightarrow> bit (addr_lo a) (8 * k + n) = bit (a ! (5 - k)) n"
  "k < 2 \<Longrightarrow> n < 8 \<Longrightarrow> bit (addr_hi a) (8 * k + n) = bit (a ! (1 - k)) n"
proof -
  have hb: "\<not> bit (x :: u8) j" if "8 \<le> j" for x j using that by (auto dest: bit_imp_le_length)
  { assume "k < 4" "n < 8"
    then consider "k = 0" | "k = 1" | "k = 2" | "k = 3" by linarith
    then show "bit (addr_lo a) (8 * k + n) = bit (a ! (5 - k)) n"
      using \<open>n < 8\<close> by cases (auto simp: addr_lo_def bit_simps hb) }
  { assume "k < 2" "n < 8"
    then consider "k = 0" | "k = 1" by linarith
    then show "bit (addr_hi a) (8 * k + n) = bit (a ! (1 - k)) n"
      using \<open>n < 8\<close> by cases (auto simp: addr_hi_def bit_simps hb) }
qed

lemma byte_bit: "(x :: u8) = y \<longleftrightarrow> (\<forall>n<8. bit x n = bit y n)"
  by (auto simp: bit_eq_iff dest: bit_imp_le_length)

lemma addr_lo_match:
  "addr_lo da AND addr_lo msk = addr_lo a \<longleftrightarrow> (\<forall>k. 2 \<le> k \<and> k < 6 \<longrightarrow> da ! k AND msk ! k = a ! k)"
proof
  assume e: "addr_lo da AND addr_lo msk = addr_lo a"
  show "\<forall>k. 2 \<le> k \<and> k < 6 \<longrightarrow> da ! k AND msk ! k = a ! k"
  proof (intro allI impI)
    fix k :: nat assume k: "2 \<le> k \<and> k < 6"
    have k4: "5 - k < 4" using k by linarith
    have "bit (da ! k) n \<and> bit (msk ! k) n \<longleftrightarrow> bit (a ! k) n" if "n < 8" for n
      using arg_cong [OF e, of "\<lambda>w. bit w (8 * (5 - k) + n)"] addr_byte(1) [OF k4 that] k by (simp add: bit_and_iff)
    then show "da ! k AND msk ! k = a ! k" by (simp add: byte_bit bit_and_iff)
  qed
next
  assume a: "\<forall>k. 2 \<le> k \<and> k < 6 \<longrightarrow> da ! k AND msk ! k = a ! k"
  show "addr_lo da AND addr_lo msk = addr_lo a"
  proof (rule bit_word_eqI)
    fix n assume "n < LENGTH(32)"
    then have q: "n div 8 < 4" "n mod 8 < 8" "n = 8 * (n div 8) + n mod 8" by simp_all
    have "2 \<le> 5 - n div 8 \<and> 5 - n div 8 < 6" using q(1) by linarith
    then have "da ! (5 - n div 8) AND msk ! (5 - n div 8) = a ! (5 - n div 8)" using a by blast
    then have "bit (da ! (5 - n div 8)) (n mod 8) \<and> bit (msk ! (5 - n div 8)) (n mod 8) \<longleftrightarrow> bit (a ! (5 - n div 8)) (n mod 8)"
      by (metis bit_and_iff)
    then show "bit (addr_lo da AND addr_lo msk) n = bit (addr_lo a) n"
      using addr_byte(1) [OF q(1,2)] by (subst (1 2) q(3)) (simp add: bit_and_iff)
  qed
qed

lemma addr_hi_high: "16 \<le> n \<Longrightarrow> \<not> bit (addr_hi a) n"
  by (auto simp: addr_hi_def bit_simps dest: bit_imp_le_length)

lemma addr_hi_match: "addr_hi da AND addr_hi msk = addr_hi a \<longleftrightarrow> (\<forall>k<2. da ! k AND msk ! k = a ! k)"
proof
  assume e: "addr_hi da AND addr_hi msk = addr_hi a"
  show "\<forall>k<2. da ! k AND msk ! k = a ! k"
  proof (intro allI impI)
    fix k :: nat assume k: "k < 2"
    have "bit (da ! k) n \<and> bit (msk ! k) n \<longleftrightarrow> bit (a ! k) n" if "n < 8" for n
      using arg_cong [OF e, of "\<lambda>w. bit w (8 * (1 - k) + n)"] addr_byte(2) [of "1 - k" n] k that by (simp add: bit_and_iff)
    then show "da ! k AND msk ! k = a ! k" by (simp add: byte_bit bit_and_iff)
  qed
next
  assume a: "\<forall>k<2. da ! k AND msk ! k = a ! k"
  show "addr_hi da AND addr_hi msk = addr_hi a"
  proof (rule bit_word_eqI)
    fix n assume "n < LENGTH(32)"
    show "bit (addr_hi da AND addr_hi msk) n = bit (addr_hi a) n"
    proof (cases "n < 16")
      case True
      then have q: "n div 8 < 2" "n mod 8 < 8" "n = 8 * (n div 8) + n mod 8" by simp_all
      have "da ! (1 - n div 8) AND msk ! (1 - n div 8) = a ! (1 - n div 8)" using a q(1) by simp
      then have "bit (da ! (1 - n div 8)) (n mod 8) \<and> bit (msk ! (1 - n div 8)) (n mod 8) \<longleftrightarrow> bit (a ! (1 - n div 8)) (n mod 8)"
        by (metis bit_and_iff)
      then show ?thesis using addr_byte(2) [OF q(1,2)] by (subst (1 2) q(3)) (simp add: bit_and_iff)
    qed (simp add: bit_and_iff addr_hi_high)
  qed
qed

text \<open>An entry of the driver matches as documented.\<close>

lemma ctrl_val_bits:
  "bit (al_eth_fwd_mac_table_entry_to_val e) 15 = me_rx_valid e" "bit (al_eth_fwd_mac_table_entry_to_val e) 0 = me_filter e"
  "take_bit 4 (drop_bit 3 (al_eth_fwd_mac_table_entry_to_val e)) = take_bit 4 (ucast (me_udma_mask e))"
proof -
  have m: "(EC_FWD_MAC_CTRL_RX_VAL_UDMA_MASK :: u32) = push_bit 3 (mask 4)" "(EC_FWD_MAC_CTRL_RX_VAL_QID_MASK :: u32) = push_bit 7 (mask 2)"
    "(EC_FWD_MAC_CTRL_TX_VAL_MASK :: u32) = push_bit 16 (mask 5)"
    by (simp_all add: EC_FWD_MAC_CTRL_RX_VAL_UDMA_MASK_def EC_FWD_MAC_CTRL_RX_VAL_QID_MASK_def EC_FWD_MAC_CTRL_TX_VAL_MASK_def mask_eq_exp_minus_1)
  note v = al_eth_fwd_mac_table_entry_to_val_def Let_def m EC_FWD_MAC_CTRL_RX_VAL_DROP_def EC_FWD_MAC_CTRL_RX_VALID_def EC_FWD_MAC_CTRL_TX_VALID_def
  show "bit (al_eth_fwd_mac_table_entry_to_val e) 15 = me_rx_valid e" "bit (al_eth_fwd_mac_table_entry_to_val e) 0 = me_filter e"
    unfolding v by (auto simp: bit_simps)
  show "take_bit 4 (drop_bit 3 (al_eth_fwd_mac_table_entry_to_val e)) = take_bit 4 (ucast (me_udma_mask e))"
  proof (rule bit_word_eqI)
    fix n
    have "\<not> bit (32768 :: u32) (3 + n) \<and> \<not> bit (2147483648 :: u32) (3 + n)" if "n < 4"
    proof -
      have "n = 0 \<or> n = 1 \<or> n = 2 \<or> n = 3" using that by linarith
      then show ?thesis by (auto simp: bit_numeral_word_iff)
    qed
    then show "bit (take_bit 4 (drop_bit 3 (al_eth_fwd_mac_table_entry_to_val e))) n = bit (take_bit 4 (ucast (me_udma_mask e)) :: u32) n"
      unfolding v by (cases "n < 4") (simp_all add: bit_simps bit_if_0)
  qed
qed

lemma slot_hit_entry:
  assumes "length (me_addr e) = 6" "length (me_mask e) = 6" "length da = 6"
  shows "slot_hit da (mac_slot_of e) \<longleftrightarrow> me_rx_valid e \<and> map2 (AND) da (me_mask e) = me_addr e"
proof -
  have "map2 (AND) da (me_mask e) = me_addr e \<longleftrightarrow> (\<forall>k<6. da ! k AND me_mask e ! k = me_addr e ! k)"
    using assms by (simp add: list_eq_iff_nth_eq)
  also have "\<dots> \<longleftrightarrow> (\<forall>k. 2 \<le> k \<and> k < 6 \<longrightarrow> da ! k AND me_mask e ! k = me_addr e ! k) \<and> (\<forall>k<2. da ! k AND me_mask e ! k = me_addr e ! k)"
    by (auto simp: not_less [symmetric])
  finally show ?thesis by (simp add: slot_hit_def mac_slot_of_def ctrl_val_bits addr_lo_match addr_hi_match)
qed

lemma slot_action_entry: "slot_action (mac_slot_of e) = (if me_filter e then None else Some (take_bit 4 (ucast (me_udma_mask e))))"
  by (simp add: slot_action_def mac_slot_of_def ctrl_val_bits)

subsection \<open>The entries of the driver\<close>

definition uc_slot :: "u8 \<Rightarrow> u8 list \<Rightarrow> mac_slot" where
  "uc_slot u a = mac_slot_of (zero_mac_entry\<lparr>me_addr := a, me_mask := replicate 6 0xff, me_rx_valid := True, me_udma_mask := u\<rparr>)"

definition group_slot :: "u8 \<Rightarrow> mac_slot" where
  "group_slot u = mac_slot_of (zero_mac_entry\<lparr>me_addr := [1, 0, 0, 0, 0, 0], me_mask := [1, 0, 0, 0, 0, 0], me_rx_valid := True, me_udma_mask := u\<rparr>)"

definition catch_slot :: "u8 \<Rightarrow> bool \<Rightarrow> mac_slot" where
  "catch_slot u op = mac_slot_of (zero_mac_entry\<lparr>me_rx_valid := True, me_udma_mask := (if op then u else 0), me_filter := \<not> op\<rparr>)"

definition off_slot :: mac_slot where
  "off_slot = mac_slot_of zero_mac_entry"

definition slot_valid :: "mac_slot \<Rightarrow> bool" where
  "slot_valid = (\<lambda>(data_l, data_h, mask_l, mask_h, ctrl). bit ctrl 15)"

abbreviation udma_field :: "u8 \<Rightarrow> u32" where
  "udma_field u \<equiv> take_bit 4 (ucast u)"

lemma replicate6: "replicate 6 x = [x, x, x, x, x, x]"
  by (simp add: eval_nat_numeral)

lemma list6: "length xs = 6 \<Longrightarrow> \<exists>a b c d e f. xs = [a, b, c, d, e, f]"
  by (auto simp: eval_nat_numeral length_Suc_conv)

lemma and_ff: "(x :: u8) AND 0xff = x"
proof -
  have "(0xff :: u8) = - 1" by simp
  then show ?thesis by (simp only: bit.conj_one_right)
qed

lemma slot_hits:
  assumes "length da = 6"
  shows "length a = 6 \<Longrightarrow> slot_hit da (uc_slot u a) \<longleftrightarrow> da = a" "slot_hit da (group_slot u) \<longleftrightarrow> bit (da ! 0) 0" "slot_hit da (catch_slot u op)"
    "\<not> slot_valid s \<Longrightarrow> \<not> slot_hit da s" "\<not> slot_valid off_slot"
    "slot_action (uc_slot u a) = Some (udma_field u)" "slot_action (group_slot u) = Some (udma_field u)"
    "slot_action (catch_slot u op) = (if op then Some (udma_field u) else None)"
proof -
  obtain a0 a1 a2 a3 a4 a5 where da: "da = [a0, a1, a2, a3, a4, a5]" using list6 [OF assms] by blast
  have b: "x AND 1 = 1 \<longleftrightarrow> bit x 0" for x :: u8 by (simp add: and_one_eq odd_iff_mod_2_eq_one bit_0)
  note z = zero_mac_entry_def slot_hit_entry
  show "length a = 6 \<Longrightarrow> slot_hit da (uc_slot u a) \<longleftrightarrow> da = a" by (simp add: uc_slot_def z assms) (simp add: da replicate6 and_ff)
  show "slot_hit da (group_slot u) \<longleftrightarrow> bit (da ! 0) 0" by (simp add: group_slot_def z assms) (simp add: da b)
  show "slot_hit da (catch_slot u op)" by (simp add: catch_slot_def z assms) (simp add: da replicate6)
  show "\<not> slot_valid s \<Longrightarrow> \<not> slot_hit da s" by (auto simp: slot_valid_def slot_hit_def split: prod.splits)
  show "\<not> slot_valid off_slot" by (simp add: off_slot_def slot_valid_def mac_slot_of_def ctrl_val_bits zero_mac_entry_def)
qed (simp_all add: uc_slot_def group_slot_def catch_slot_def slot_action_entry zero_mac_entry_def)

lemma small_index: "idx < 32 \<Longrightarrow> unat (ucast (idx :: u8) :: u32) = unat idx \<and> (ucast idx :: u32) < 32"
  by (simp add: unat_ucast_u8_u32 word_less_nat_alt)

lemma driver_sets:
  assumes "idx < 32"
  shows "\<exists>m'. al_eth_mac_table_unicast_add ad idx x u m = Some m' \<and> mac_table (fwd_ec ad) m' = (mac_table (fwd_ec ad) m)(unat idx := uc_slot u (fwd_mac_addr ad))"
    "\<exists>m'. al_eth_mac_table_broadcast_add ad idx u m = Some m' \<and> mac_table (fwd_ec ad) m' = (mac_table (fwd_ec ad) m)(unat idx := uc_slot u (replicate 6 0xff))"
    "\<exists>m'. al_eth_mac_table_all_multicast_add ad idx u m = Some m' \<and> mac_table (fwd_ec ad) m' = (mac_table (fwd_ec ad) m)(unat idx := group_slot u)"
    "\<exists>m'. al_eth_mac_table_entry_clear ad idx m = Some m' \<and> mac_table (fwd_ec ad) m' = (mac_table (fwd_ec ad) m)(unat idx := off_slot)"
    "\<exists>m'. al_eth_mac_table_promiscuous_set ad op u m = Some m' \<and> mac_table (fwd_ec ad) m' = (mac_table (fwd_ec ad) m)(31 := catch_slot u op)"
proof -
  note i = small_index [OF assms]
  note s = mac_table_set [OF i [THEN conjunct2], of "fwd_ec ad" _ m, unfolded i [THEN conjunct1]]
  show "\<exists>m'. al_eth_mac_table_unicast_add ad idx x u m = Some m' \<and> mac_table (fwd_ec ad) m' = (mac_table (fwd_ec ad) m)(unat idx := uc_slot u (fwd_mac_addr ad))"
    using s [of "zero_mac_entry\<lparr>me_addr := fwd_mac_addr ad, me_mask := replicate 6 0xff, me_rx_valid := True, me_udma_mask := u\<rparr>"]
    by (simp add: al_eth_mac_table_unicast_add_def uc_slot_def zero_mac_entry_def Let_def)
  show "\<exists>m'. al_eth_mac_table_broadcast_add ad idx u m = Some m' \<and> mac_table (fwd_ec ad) m' = (mac_table (fwd_ec ad) m)(unat idx := uc_slot u (replicate 6 0xff))"
    using s [of "zero_mac_entry\<lparr>me_addr := replicate 6 0xff, me_mask := replicate 6 0xff, me_rx_valid := True, me_udma_mask := u\<rparr>"]
    by (simp add: al_eth_mac_table_broadcast_add_def uc_slot_def zero_mac_entry_def Let_def)
  show "\<exists>m'. al_eth_mac_table_all_multicast_add ad idx u m = Some m' \<and> mac_table (fwd_ec ad) m' = (mac_table (fwd_ec ad) m)(unat idx := group_slot u)"
    using s [of "zero_mac_entry\<lparr>me_addr := [1, 0, 0, 0, 0, 0], me_mask := [1, 0, 0, 0, 0, 0], me_rx_valid := True, me_udma_mask := u\<rparr>"]
    by (simp add: al_eth_mac_table_all_multicast_add_def group_slot_def zero_mac_entry_def Let_def replicate6)
  show "\<exists>m'. al_eth_mac_table_entry_clear ad idx m = Some m' \<and> mac_table (fwd_ec ad) m' = (mac_table (fwd_ec ad) m)(unat idx := off_slot)"
    using s [of zero_mac_entry] by (simp add: al_eth_mac_table_entry_clear_def off_slot_def)
  have d: "(ucast AL_ETH_MAC_TABLE_DROP_IDX :: u32) = 31" by (simp add: AL_ETH_MAC_TABLE_DROP_IDX_def AL_ETH_FWD_MAC_NUM_def)
  show "\<exists>m'. al_eth_mac_table_promiscuous_set ad op u m = Some m' \<and> mac_table (fwd_ec ad) m' = (mac_table (fwd_ec ad) m)(31 := catch_slot u op)"
    using mac_table_set [of 31 "fwd_ec ad" "zero_mac_entry\<lparr>me_rx_valid := True, me_udma_mask := (if op then u else 0), me_filter := \<not> op\<rparr>" m]
    by (cases op) (simp_all add: al_eth_mac_table_promiscuous_set_def catch_slot_def zero_mac_entry_def Let_def d)
qed

subsection \<open>The filter\<close>

text \<open>
  What the table stands for: the own address, the addresses in the entries 1 to 3, the entry 4 (nothing, all group addresses, or one address), and
  whether everything else is accepted.
\<close>

datatype group_entry = NoGroup | AllGroups | OnlyAddr "u8 list"

record rx_filter =
  f_own :: "u8 list"
  f_extra :: "nat \<Rightarrow> u8 list option"
  f_group :: group_entry
  f_open :: bool

definition filter_accepts :: "rx_filter \<Rightarrow> u8 list \<Rightarrow> bool" where
  "filter_accepts f da \<longleftrightarrow> f_open f \<or> da = f_own f \<or> da = replicate 6 0xff \<or> (\<exists>i \<in> {1, 2, 3}. f_extra f i = Some da) \<or>
     (f_group f = AllGroups \<and> bit (da ! 0) 0) \<or> f_group f = OnlyAddr da"

definition filter_ok :: "u8 \<Rightarrow> rx_filter \<Rightarrow> (nat \<Rightarrow> mac_slot) \<Rightarrow> bool" where
  "filter_ok u f T \<longleftrightarrow> T 0 = uc_slot u (f_own f) \<and> length (f_own f) = 6 \<and>
     (\<forall>i. 1 \<le> i \<and> i < 4 \<longrightarrow> (case f_extra f i of None \<Rightarrow> \<not> slot_valid (T i) | Some a \<Rightarrow> T i = uc_slot u a \<and> length a = 6)) \<and>
     (case f_group f of NoGroup \<Rightarrow> \<not> slot_valid (T 4) | AllGroups \<Rightarrow> T 4 = group_slot u | OnlyAddr a \<Rightarrow> T 4 = uc_slot u a \<and> length a = 6) \<and>
     (\<forall>i. 5 \<le> i \<and> i < 30 \<longrightarrow> \<not> slot_valid (T i)) \<and> T 30 = uc_slot u (replicate 6 0xff) \<and> T 31 = catch_slot u (f_open f)"

lemma filter_okD:
  assumes "filter_ok u f T"
  shows "T 0 = uc_slot u (f_own f)" "length (f_own f) = 6" "1 \<le> i \<Longrightarrow> i < 4 \<Longrightarrow> f_extra f i = None \<Longrightarrow> \<not> slot_valid (T i)"
    "1 \<le> i \<Longrightarrow> i < 4 \<Longrightarrow> f_extra f i = Some a \<Longrightarrow> T i = uc_slot u a \<and> length a = 6"
    "f_group f = NoGroup \<Longrightarrow> \<not> slot_valid (T 4)" "f_group f = AllGroups \<Longrightarrow> T 4 = group_slot u" "f_group f = OnlyAddr a \<Longrightarrow> T 4 = uc_slot u a \<and> length a = 6"
    "5 \<le> i \<Longrightarrow> i < 30 \<Longrightarrow> \<not> slot_valid (T i)" "T 30 = uc_slot u (replicate 6 0xff)" "T 31 = catch_slot u (f_open f)"
  using assms unfolding filter_ok_def by (auto split: option.splits)

lemma filter_okI:
  assumes "T 0 = uc_slot u (f_own f)" "length (f_own f) = 6" "\<And>i. 1 \<le> i \<Longrightarrow> i < 4 \<Longrightarrow> f_extra f i = None \<Longrightarrow> \<not> slot_valid (T i)"
    "\<And>i a. 1 \<le> i \<Longrightarrow> i < 4 \<Longrightarrow> f_extra f i = Some a \<Longrightarrow> T i = uc_slot u a \<and> length a = 6"
    "f_group f = NoGroup \<Longrightarrow> \<not> slot_valid (T 4)" "f_group f = AllGroups \<Longrightarrow> T 4 = group_slot u" "\<And>a. f_group f = OnlyAddr a \<Longrightarrow> T 4 = uc_slot u a \<and> length a = 6"
    "\<And>i. 5 \<le> i \<Longrightarrow> i < 30 \<Longrightarrow> \<not> slot_valid (T i)" "T 30 = uc_slot u (replicate 6 0xff)" "T 31 = catch_slot u (f_open f)"
  shows "filter_ok u f T"
  using assms unfolding filter_ok_def by (auto split: option.splits group_entry.splits)

text \<open>The parts of the table change independently.\<close>

lemma filter_ok_upd:
  assumes "filter_ok u f T"
  shows "filter_ok u (f\<lparr>f_open := op\<rparr>) (T(31 := catch_slot u op))"
    "filter_ok u (f\<lparr>f_group := (if g then AllGroups else NoGroup)\<rparr>) (T(4 := if g then group_slot u else off_slot))"
    "filter_ok u (f\<lparr>f_group := OnlyAddr (f_own f)\<rparr>) (T(4 := uc_slot u (f_own f)))"
    "length a = 6 \<Longrightarrow> filter_ok u (f\<lparr>f_own := a\<rparr>) (T(0 := uc_slot u a))"
    "filter_ok u (f\<lparr>f_extra := (\<lambda>i. if i \<le> n then Some (f_own f) else None)\<rparr>)
      (\<lambda>i. if 1 \<le> i \<and> i < 4 then (if i \<le> n then uc_slot u (f_own f) else off_slot) else T i)"
proof -
  note d = filter_okD [OF assms] and vo = slot_hits(5) [of "replicate 6 0", simplified]
  show "filter_ok u (f\<lparr>f_open := op\<rparr>) (T(31 := catch_slot u op))"
    by (rule filter_okI) (use d in auto)
  show "filter_ok u (f\<lparr>f_group := (if g then AllGroups else NoGroup)\<rparr>) (T(4 := if g then group_slot u else off_slot))"
    by (rule filter_okI) (use d vo in \<open>auto split: if_splits\<close>)
  show "filter_ok u (f\<lparr>f_group := OnlyAddr (f_own f)\<rparr>) (T(4 := uc_slot u (f_own f)))"
    by (rule filter_okI) (use d in auto)
  show "length a = 6 \<Longrightarrow> filter_ok u (f\<lparr>f_own := a\<rparr>) (T(0 := uc_slot u a))"
    by (rule filter_okI) (use d in auto)
  show "filter_ok u (f\<lparr>f_extra := (\<lambda>i. if i \<le> n then Some (f_own f) else None)\<rparr>)
      (\<lambda>i. if 1 \<le> i \<and> i < 4 then (if i \<le> n then uc_slot u (f_own f) else off_slot) else T i)"
    by (rule filter_okI) (use d vo in \<open>auto split: if_splits\<close>)
qed

lemma first_match_append:
  "first_match da (ss @ [s]) = (case find (slot_hit da) ss of Some t \<Rightarrow> slot_action t | None \<Rightarrow> if slot_hit da s then slot_action s else None)"
  by (induction ss) auto

lemma filter_decision:
  assumes ok: "filter_ok u f T" and da: "length da = 6"
  shows "first_match da (map T [0..<32]) = (if filter_accepts f da then Some (udma_field u) else None)"
proof -
  note h = slot_hits [OF da]
  note d = filter_okD [OF ok]
  have H: "(slot_hit da (T i) \<longleftrightarrow> (i = 0 \<and> da = f_own f) \<or> (1 \<le> i \<and> i < 4 \<and> f_extra f i = Some da) \<or>
      (i = 4 \<and> (f_group f = AllGroups \<and> bit (da ! 0) 0 \<or> f_group f = OnlyAddr da)) \<or> (i = 30 \<and> da = replicate 6 0xff)) \<and>
      (slot_hit da (T i) \<longrightarrow> slot_action (T i) = Some (udma_field u))" if "i < 31" for i
  proof -
    consider "i = 0" | "1 \<le> i" "i < 4" | "i = 4" | "5 \<le> i" "i < 30" | "i = 30" using \<open>i < 31\<close> by linarith
    then show ?thesis
    proof cases
      case 1
      then show ?thesis using d(1,2) h by simp
    next
      case 2
      then show ?thesis
      proof (cases "f_extra f i")
        case None
        then show ?thesis using 2 h(4) [OF d(3) [OF 2 None]] by simp
      next
        case (Some a)
        then show ?thesis using 2 d(4) [OF 2 Some] h by auto
      qed
    next
      case 3
      then show ?thesis
      proof (cases "f_group f")
        case NoGroup
        then show ?thesis using 3 h(4) [OF d(5)] by simp
      next
        case AllGroups
        then show ?thesis using 3 d(6) h by simp
      next
        case (OnlyAddr a)
        then show ?thesis using 3 d(7) [OF OnlyAddr] h by auto
      qed
    next
      case 4
      then show ?thesis using h(4) [OF d(8) [OF 4]] by simp
    next
      case 5
      then show ?thesis using d(9) h by simp
    qed
  qed
  have "[0..<32] = [0..<31] @ [31 :: nat]" by (simp add: upt_rec)
  then have fm: "first_match da (map T [0..<32]) = (case find (slot_hit da) (map T [0..<31]) of Some t \<Rightarrow> slot_action t
      | None \<Rightarrow> if f_open f then Some (udma_field u) else None)"
    using d(10) h by (simp add: first_match_append split: option.splits)
  show ?thesis
  proof (cases "find (slot_hit da) (map T [0..<31])")
    case None
    then have "\<not> slot_hit da (T i)" if "i < 31" for i using that by (auto simp: find_None_iff)
    then have "\<not> (da = f_own f \<or> da = replicate 6 0xff \<or> (\<exists>i \<in> {1, 2, 3}. f_extra f i = Some da) \<or> (f_group f = AllGroups \<and> bit (da ! 0) 0) \<or> f_group f = OnlyAddr da)"
      using H [of 0] H [of 1] H [of 2] H [of 3] H [of 4] H [of 30] by auto
    then show ?thesis unfolding fm None filter_accepts_def by simp
  next
    case (Some t)
    then obtain i where i: "i < 31" "slot_hit da (T i)" "t = T i" by (auto simp: find_Some_iff)
    then have "filter_accepts f da" using H [OF i(1)] unfolding filter_accepts_def
      by (cases "i = 1"; cases "i = 2"; cases "i = 3") auto
    then show ?thesis unfolding fm Some using H [OF i(1)] i(2,3) by simp
  qed
qed

text \<open>What the requests mean for the filter.\<close>

datatype fwd_op = SetMac "u8 list" | SetMode rx_mode

definition mode_step :: "rx_mode \<Rightarrow> rx_filter \<Rightarrow> rx_filter" where
  "mode_step mode f =
     (if IFF_PROMISC mode then f\<lparr>f_open := True\<rparr>
      else
        let f = f\<lparr>f_group := (if IFF_ALLMULTI mode \<or> \<not> netdev_mc_empty mode then AllGroups else NoGroup)\<rparr>;
            n = length (netdev_uc mode)
        in if 4 < n then f\<lparr>f_open := True\<rparr>
           else f\<lparr>f_open := False, f_extra := (if n = 0 then f_extra f else (\<lambda>i. if i \<le> n then Some (f_own f) else None)),
                  f_group := (if n = 4 then OnlyAddr (f_own f) else f_group f)\<rparr>)"

fun filter_step :: "fwd_op \<Rightarrow> rx_filter \<Rightarrow> rx_filter" where
  "filter_step (SetMac a) f = (if is_valid_ether_addr a then f\<lparr>f_own := a\<rparr> else f)"
| "filter_step (SetMode mode) f = mode_step mode f"

fun fwd_run :: "fwd_op list \<Rightarrow> fwd_adapter \<times> mmio \<Rightarrow> (fwd_adapter \<times> mmio) option" where
  "fwd_run [] s = Some s"
| "fwd_run (SetMac a # ops) s = do { (rc, s) \<leftarrow> al_eth_set_mac_addr a s; fwd_run ops s }"
| "fwd_run (SetMode mode # ops) (ad, m) = do { m \<leftarrow> al_eth_set_rx_mode mode ad m; fwd_run ops (ad, m) }"

lemma clear_loop_table:
  "\<forall>i \<in> set is. i < 32 \<Longrightarrow> \<exists>m'. clear_loop ad is m = Some m' \<and>
    mac_table (fwd_ec ad) m' = (\<lambda>i. if i \<in> set is then off_slot else mac_table (fwd_ec ad) m i)"
proof (induction "is" arbitrary: m)
  case (Cons i "is")
  then have i: "(of_nat i :: u8) < 32" "unat (of_nat i :: u8) = i" by (simp_all add: word_less_nat_alt unsigned_of_nat take_bit_nat_eq_self)
  obtain m1 where m1: "al_eth_mac_table_entry_clear ad (of_nat i) m = Some m1" "mac_table (fwd_ec ad) m1 = (mac_table (fwd_ec ad) m)(i := off_slot)"
    using driver_sets(4) [OF i(1), of ad m] i(2) by auto
  obtain m' where m': "clear_loop ad is m1 = Some m'" "mac_table (fwd_ec ad) m' = (\<lambda>i. if i \<in> set is then off_slot else mac_table (fwd_ec ad) m1 i)"
    using Cons.IH [of m1] Cons.prems by auto
  then have "mac_table (fwd_ec ad) m' = (\<lambda>j. if j \<in> set (i # is) then off_slot else mac_table (fwd_ec ad) m j)"
    using m1(2) by (simp add: fun_eq_iff)
  then show ?case using m1(1) m'(1) by simp
qed (simp add: fun_eq_iff)

lemma uc_loop_table:
  "unat i + length has \<le> 31 \<Longrightarrow> \<exists>m'. uc_loop ad i has m = Some m' \<and>
    mac_table (fwd_ec ad) m' = (\<lambda>j. if unat i \<le> j \<and> j < unat i + length has then uc_slot (udma_bit ad) (fwd_mac_addr ad) else mac_table (fwd_ec ad) m j)"
proof (induction has arbitrary: i m)
  case (Cons ha has)
  have i: "i < 32" "unat (i + 1) = Suc (unat i)" using Cons.prems by (simp_all add: word_less_nat_alt unat_word_ariths)
  obtain m1 where m1: "al_eth_mac_table_unicast_add ad i ha (udma_bit ad) m = Some m1"
    "mac_table (fwd_ec ad) m1 = (mac_table (fwd_ec ad) m)(unat i := uc_slot (udma_bit ad) (fwd_mac_addr ad))"
    using driver_sets(1) [OF i(1)] by blast
  obtain m' where m': "uc_loop ad (i + 1) has m1 = Some m'" "mac_table (fwd_ec ad) m' = (\<lambda>j. if unat (i + 1) \<le> j \<and> j < unat (i + 1) + length has
      then uc_slot (udma_bit ad) (fwd_mac_addr ad) else mac_table (fwd_ec ad) m1 j)"
    using Cons.IH [of "i + 1" m1] Cons.prems i(2) by auto
  then have "mac_table (fwd_ec ad) m' = (\<lambda>j. if unat i \<le> j \<and> j < unat i + length (ha # has) then uc_slot (udma_bit ad) (fwd_mac_addr ad) else mac_table (fwd_ec ad) m j)"
    using m1(2) i(2) by (auto simp: fun_eq_iff)
  then show ?case using m1(1) m'(1) by simp
qed (auto simp: fun_eq_iff)

lemma set_rx_mode_ok:
  assumes ok: "filter_ok (udma_bit ad) f (mac_table (fwd_ec ad) m)" and own: "f_own f = fwd_mac_addr ad"
  shows "\<exists>m'. al_eth_set_rx_mode mode ad m = Some m' \<and> filter_ok (udma_bit ad) (mode_step mode f) (mac_table (fwd_ec ad) m')"
proof (cases "IFF_PROMISC mode")
  case True
  obtain m' where m': "al_eth_mac_table_promiscuous_set ad True (udma_bit ad) m = Some m'"
    "mac_table (fwd_ec ad) m' = (mac_table (fwd_ec ad) m)(31 := catch_slot (udma_bit ad) True)"
    using driver_sets(5) [of 0 ad True "udma_bit ad" m] by auto
  then show ?thesis using filter_ok_upd(1) [OF ok, of True] True by (simp add: al_eth_set_rx_mode_def mode_step_def)
next
  case False
  let ?u = "udma_bit ad" and ?T = "\<lambda>m. mac_table (fwd_ec ad) m" and ?uc = "netdev_uc mode" and ?G = "IFF_ALLMULTI mode \<or> \<not> netdev_mc_empty mode"
  let ?s4 = "if ?G then group_slot ?u else off_slot"
  have c: "AL_ETH_MAC_TABLE_ALL_MULTICAST_IDX = 4" "AL_ETH_MAC_TABLE_UNICAST_IDX_BASE = 0" "AL_ETH_MAC_TABLE_UNICAST_MAX_COUNT = 4"
    by (simp_all add: AL_ETH_MAC_TABLE_ALL_MULTICAST_IDX_def AL_ETH_MAC_TABLE_UNICAST_IDX_BASE_def AL_ETH_MAC_TABLE_UNICAST_MAX_COUNT_def)
  obtain m1 where m1: "(if IFF_ALLMULTI mode then al_eth_mac_table_all_multicast_add ad 4 ?u m
      else if netdev_mc_empty mode then al_eth_mac_table_entry_clear ad 4 m else al_eth_mac_table_all_multicast_add ad 4 ?u m) = Some m1"
    "?T m1 = (?T m)(4 := ?s4)"
    using driver_sets(3) [of 4 ad ?u m] driver_sets(4) [of 4 ad m] by (cases "IFF_ALLMULTI mode"; cases "netdev_mc_empty mode") auto
  have run: "al_eth_set_rx_mode mode ad m = (if 4 < length ?uc then al_eth_mac_table_promiscuous_set ad True ?u m1
      else do { m \<leftarrow> (if ?uc \<noteq> [] then do { m \<leftarrow> clear_loop ad [1..<4] m1; uc_loop ad 1 ?uc m } else Some m1);
                al_eth_mac_table_promiscuous_set ad False ?u m })"
    unfolding al_eth_set_rx_mode_def c if_not_P [OF False] m1(1) by auto
  define f1 where "f1 = f\<lparr>f_group := (if ?G then AllGroups else NoGroup)\<rparr>"
  have ok1: "filter_ok ?u f1 (?T m1)" unfolding m1(2) f1_def by (rule filter_ok_upd(2) [OF ok])
  show ?thesis
  proof (cases "4 < length ?uc")
    case True
    obtain m' where "al_eth_mac_table_promiscuous_set ad True ?u m1 = Some m'" "?T m' = (?T m1)(31 := catch_slot ?u True)"
      using driver_sets(5) [of 0 ad True ?u m1] by auto
    then show ?thesis using filter_ok_upd(1) [OF ok1, of True] True False by (simp add: run mode_step_def f1_def Let_def)
  next
    case few: False
    let ?n = "length ?uc"
    define T1 where "T1 = (\<lambda>i. if 1 \<le> i \<and> i < 4 then (if i \<le> ?n then uc_slot ?u (f_own f1) else off_slot) else ?T m1 i)"
    define T2 where "T2 = (if ?n = 0 then ?T m1 else if ?n = 4 then T1(4 := uc_slot ?u (f_own f1)) else T1)"
    define f2 where "f2 = (if ?n = 0 then f1 else if ?n = 4 then f1\<lparr>f_extra := (\<lambda>i. if i \<le> ?n then Some (f_own f1) else None), f_group := OnlyAddr (f_own f1)\<rparr>
      else f1\<lparr>f_extra := (\<lambda>i. if i \<le> ?n then Some (f_own f1) else None)\<rparr>)"
    have "filter_ok ?u (f1\<lparr>f_extra := (\<lambda>i. if i \<le> ?n then Some (f_own f1) else None)\<rparr>) T1" unfolding T1_def by (rule filter_ok_upd(5) [OF ok1])
    then have ok2: "filter_ok ?u f2 T2" using ok1 filter_ok_upd(3) unfolding f2_def T2_def by fastforce
    obtain m2 where m2: "(if ?uc \<noteq> [] then do { m \<leftarrow> clear_loop ad [1..<4] m1; uc_loop ad 1 ?uc m } else Some m1) = Some m2" "?T m2 = T2"
    proof (cases "?uc = []")
      case True
      then show ?thesis using that by (simp add: T2_def)
    next
      case ne: False
      obtain ma where ma: "clear_loop ad [1..<4] m1 = Some ma" "?T ma = (\<lambda>i. if i \<in> set [1..<4] then off_slot else ?T m1 i)"
        using clear_loop_table [of "[1..<4]" ad m1] by auto
      obtain mb where mb: "uc_loop ad 1 ?uc ma = Some mb" "?T mb = (\<lambda>j. if 1 \<le> j \<and> j < 1 + length ?uc then uc_slot ?u (fwd_mac_addr ad) else ?T ma j)"
        using uc_loop_table [of 1 ?uc ad ma] few by auto
      have "?T mb = T2" using ma(2) mb(2) ne own few by (auto simp: T2_def T1_def f1_def fun_eq_iff)
      then show ?thesis using that ma(1) mb(1) ne by simp
    qed
    obtain m' where m': "al_eth_mac_table_promiscuous_set ad False ?u m2 = Some m'" "?T m' = (?T m2)(31 := catch_slot ?u False)"
      using driver_sets(5) [of 0 ad False ?u m2] by auto
    have r: "al_eth_set_rx_mode mode ad m = Some m'" using few m2(1) m'(1) by (simp add: run)
    have "mode_step mode f = f2\<lparr>f_open := False\<rparr>" using False few by (intro rx_filter.equality) (auto simp: mode_step_def f2_def f1_def Let_def fun_eq_iff)
    then have "filter_ok ?u (mode_step mode f) (T2(31 := catch_slot ?u False))" using filter_ok_upd(1) [OF ok2, of False] by simp
    then show ?thesis using r m'(2) m2(2) by simp
  qed
qed

lemma set_mac_addr_ok:
  assumes ok: "filter_ok (udma_bit ad) f (mac_table (fwd_ec ad) m)" "f_own f = fwd_mac_addr ad" and a: "length a = 6"
  shows "\<exists>rc ad' m'. al_eth_set_mac_addr a (ad, m) = Some (rc, ad', m') \<and> fwd_ec ad' = fwd_ec ad \<and> udma_bit ad' = udma_bit ad \<and>
    f_own (filter_step (SetMac a) f) = fwd_mac_addr ad' \<and> filter_ok (udma_bit ad') (filter_step (SetMac a) f) (mac_table (fwd_ec ad') m')"
proof (cases "is_valid_ether_addr a")
  case True
  define ad1 where "ad1 = ad\<lparr>fwd_mac_addr := a\<rparr>"
  have u: "udma_bit ad1 = udma_bit ad" "fwd_ec ad1 = fwd_ec ad" "fwd_mac_addr ad1 = a" by (simp_all add: ad1_def udma_bit_def)
  obtain m' where m': "al_eth_mac_table_unicast_add ad1 0 a (udma_bit ad1) m = Some m'"
    "mac_table (fwd_ec ad1) m' = (mac_table (fwd_ec ad1) m)(0 := uc_slot (udma_bit ad1) a)"
    using driver_sets(1) [of 0 ad1 a "udma_bit ad1" m] u(3) by auto
  have "al_eth_set_mac_addr a (ad, m) = Some (RcOk, ad1, m')"
    using True m'(1) u(3) by (simp add: al_eth_set_mac_addr_def ad1_def [symmetric] AL_ETH_MAC_TABLE_UNICAST_IDX_BASE_def)
  then show ?thesis using filter_ok_upd(4) [OF ok(1) a] m'(2) u True by simp
next
  case False
  then show ?thesis using ok by (simp add: al_eth_set_mac_addr_def)
qed

definition op_ok :: "fwd_op \<Rightarrow> bool" where
  "op_ok op \<longleftrightarrow> (\<forall>a. op = SetMac a \<longrightarrow> length a = 6)"

lemma fwd_run_ok:
  assumes "filter_ok (udma_bit ad) f (mac_table (fwd_ec ad) m)" "f_own f = fwd_mac_addr ad" "list_all op_ok ops"
  shows "\<exists>ad' m'. fwd_run ops (ad, m) = Some (ad', m') \<and> fwd_ec ad' = fwd_ec ad \<and> udma_bit ad' = udma_bit ad \<and>
    filter_ok (udma_bit ad) (fold filter_step ops f) (mac_table (fwd_ec ad) m')"
  using assms
proof (induction ops arbitrary: ad f m)
  case (Cons op ops)
  show ?case
  proof (cases op)
    case (SetMac a)
    have a: "length a = 6" using Cons.prems(3) SetMac by (simp add: op_ok_def)
    obtain rc ad' m' where s: "al_eth_set_mac_addr a (ad, m) = Some (rc, ad', m')" "fwd_ec ad' = fwd_ec ad" "udma_bit ad' = udma_bit ad"
      "f_own (filter_step (SetMac a) f) = fwd_mac_addr ad'" "filter_ok (udma_bit ad') (filter_step (SetMac a) f) (mac_table (fwd_ec ad') m')"
      using set_mac_addr_ok [OF Cons.prems(1,2) a] by blast
    show ?thesis using Cons.IH [OF s(5,4)] Cons.prems(3) s(1-3) SetMac by simp
  next
    case (SetMode mode)
    obtain m' where s: "al_eth_set_rx_mode mode ad m = Some m'" "filter_ok (udma_bit ad) (mode_step mode f) (mac_table (fwd_ec ad) m')"
      using set_rx_mode_ok [OF Cons.prems(1,2)] by blast
    have "f_own (mode_step mode f) = fwd_mac_addr ad" using Cons.prems(2) by (simp add: mode_step_def Let_def)
    then show ?thesis using Cons.IH [OF s(2)] Cons.prems(3) s(1) SetMode by simp
  qed
qed simp

subsection \<open>Tables behind an address and a data register\<close>

text \<open>The contents of such a table after the logged writes; \<open>t\<close> are the contents before them and \<open>c\<close> is the address register.\<close>

fun replay :: "ptr \<Rightarrow> ptr \<Rightarrow> (ptr \<times> u32) list \<Rightarrow> u32 \<Rightarrow> (u32 \<Rightarrow> u32) \<Rightarrow> u32 \<times> (u32 \<Rightarrow> u32)" where
  "replay a d [] c t = (c, t)"
| "replay a d ((x, v) # ws) c t = (if x = a then replay a d ws v t else if x = d then replay a d ws c (t(c := v)) else replay a d ws c t)"

definition table_contents :: "ptr \<Rightarrow> ptr \<Rightarrow> (u32 \<Rightarrow> u32) \<Rightarrow> mmio \<Rightarrow> u32 \<Rightarrow> u32" where
  "table_contents a d t m = snd (replay a d (wlog m) 0 t)"

lemma replay_append: "replay a d (ws @ vs) c t = (case replay a d ws c t of (c, t) \<Rightarrow> replay a d vs c t)"
  by (induction ws arbitrary: c t) auto

locale indirect_table =
  fixes addr_reg data_reg :: ptr
  assumes regs_differ: "addr_reg \<noteq> data_reg"
begin

lemma contents_other: "x \<noteq> addr_reg \<Longrightarrow> x \<noteq> data_reg \<Longrightarrow> table_contents addr_reg data_reg t (al_reg_write32 m x v) = table_contents addr_reg data_reg t m"
  by (simp add: table_contents_def al_reg_write32_def replay_append split: prod.splits)

lemma contents_put:
  "table_contents addr_reg data_reg t (al_reg_write32 (al_reg_write32 m addr_reg idx) data_reg v) = (table_contents addr_reg data_reg t m)(idx := v)"
  using regs_differ by (simp add: table_contents_def al_reg_write32_def replay_append split: prod.splits)

lemma contents_puts:
  assumes "distinct is" "length vs = length is"
  shows "table_contents addr_reg data_reg t (fold (\<lambda>(i, v) m. al_reg_write32 (al_reg_write32 m addr_reg i) data_reg v) (zip is vs) m) =
    (\<lambda>x. case map_of (zip is vs) x of Some v \<Rightarrow> v | None \<Rightarrow> table_contents addr_reg data_reg t m x)"
  using assms(2,1)
proof (induction vs "is" arbitrary: m rule: list_induct2)
  case (Cons v vs i "is")
  let ?put = "\<lambda>(i, v) m. al_reg_write32 (al_reg_write32 m addr_reg i) data_reg v"
  have n: "map_of (zip is vs) i = None" using Cons.prems Cons.hyps by (simp add: map_of_zip_is_None)
  have ih: "table_contents addr_reg data_reg t (fold ?put (zip is vs) (?put (i, v) m)) =
      (\<lambda>x. case map_of (zip is vs) x of Some v \<Rightarrow> v | None \<Rightarrow> table_contents addr_reg data_reg t (?put (i, v) m) x)"
    by (rule Cons.IH) (use Cons.prems in simp)
  show ?case
  proof (rule ext)
    fix x
    show "table_contents addr_reg data_reg t (fold ?put (zip (i # is) (v # vs)) m) x =
        (case map_of (zip (i # is) (v # vs)) x of Some v \<Rightarrow> v | None \<Rightarrow> table_contents addr_reg data_reg t m x)"
      using fun_cong [OF ih, of x] n by (cases "x = i") (simp_all add: contents_put split: option.splits)
  qed
qed (simp add: fun_eq_iff)

end

interpretation thash: indirect_table "rfw_reg ec thash_table_addr" "rfw_reg ec thash_table_data" for ec
  by unfold_locales (simp add: rfw_reg_def)

interpretation fsm: indirect_table "rfw_reg ec fsm_table_addr" "rfw_reg ec fsm_table_data" for ec
  by unfold_locales (simp add: rfw_reg_def)

interpretation ctrl: indirect_table "rfw_reg ec ctrl_table_addr" "rfw_reg ec ctrl_table_data" for ec
  by unfold_locales (simp add: rfw_reg_def)

text \<open>The loops write every entry of their table once.\<close>

abbreviation table_writes :: "ptr \<Rightarrow> nat \<Rightarrow> nat \<Rightarrow> (u32 \<times> u32) list \<Rightarrow> mmio \<Rightarrow> mmio" where
  "table_writes ec a d \<equiv> fold (\<lambda>(i, v) m. table_write ec a d i v m)"

definition thash_entry :: "fwd_adapter \<Rightarrow> u32 \<Rightarrow> u32" where
  "thash_entry ad qn = (ucast (of_nat (fwd_udma_num ad) :: u8) AND AL_ETH_THASH_UDMA_MASK) OR (push_bit 4 qn AND AL_ETH_THASH_Q_MASK)"

lemma small_of_nat: "n < 2048 \<Longrightarrow> unat (of_nat n :: u32) = n" "n < 2048 \<Longrightarrow> k \<le> 2048 \<Longrightarrow> (of_nat n :: u32) < of_nat k \<longleftrightarrow> n < k"
  by (simp_all add: word_less_nat_alt unsigned_of_nat take_bit_nat_eq_self)

lemma thash_loop_eq:
  "i + length xs \<le> 256 \<Longrightarrow> thash_loop ad i xs m = Some (table_writes (fwd_ec ad) thash_table_addr thash_table_data
    (zip (map of_nat [i..<i + length xs]) (map (thash_entry ad) xs)) m)"
proof (induction xs arbitrary: i m)
  case (Cons x xs)
  have "(of_nat i :: u32) < 256" using small_of_nat(2) [of i 256] Cons.prems by simp
  moreover have "[i..<i + length (x # xs)] = i # [Suc i..<Suc i + length xs]" by (simp add: upt_rec)
  ultimately show ?case using Cons by (simp add: al_eth_thash_table_set_def AL_ETH_RX_THASH_TABLE_SIZE_def thash_entry_def Let_def)
qed simp

lemma fsm_loop_eq:
  "\<forall>i \<in> set is. i < 128 \<Longrightarrow> fsm_init_loop ad is m = Some (table_writes (fwd_ec ad) fsm_table_addr fsm_table_data (zip (map of_nat is) (map (fsm_entry ad) is)) m)"
proof (induction "is" arbitrary: m)
  case (Cons i "is")
  have "(of_nat i :: u32) < 128" using small_of_nat(2) [of i 128] Cons.prems by simp
  then show ?case using Cons by (simp add: al_eth_fsm_table_set_def AL_ETH_RX_FSM_TABLE_SIZE_def)
qed simp

lemma pbits_loop_eq:
  "\<forall>i \<in> set is. i < 8 \<Longrightarrow> pbits_loop ec is m = Some (table_writes ec pbits_table_addr pbits_table_data (zip (map of_nat is) (map of_nat is)) m)"
proof (induction "is" arbitrary: m)
  case (Cons i "is")
  have i: "(of_nat i :: u32) < 8" "(ucast (of_nat i :: u8) :: u32) = of_nat i"
    using Cons.prems by (simp_all add: word_less_nat_alt word_unat_eq_iff unsigned_of_nat unsigned_ucast_eq take_bit_nat_eq_self)
  then show ?case using Cons by (simp add: al_eth_fwd_pbits_table_set_def AL_ETH_FWD_PBITS_TABLE_NUM_def AL_ETH_FWD_PRIO_TABLE_NUM_def)
qed simp

lemma priority_loop_eq:
  "\<forall>i \<in> set is. i < 8 \<Longrightarrow> priority_loop ec is m = Some (fold (\<lambda>i m. al_reg_write32 m (rfw_priority_queue ec i) (of_nat (i div 2))) is m)"
proof (induction "is" arbitrary: m)
  case (Cons i "is")
  have "i < 8" using Cons.prems by simp
  then have "i div 2 < 2 ^ 8" "i div 2 < 2 ^ 32" by auto
  then have i: "(ucast (of_nat i :: u8) :: u32) < 8" "unat (of_nat i :: u8) = i" "(ucast (of_nat (drop_bit 1 i) :: u8) :: u32) = of_nat (i div 2)"
    using Cons.prems by (simp_all add: word_less_nat_alt word_unat_eq_iff unsigned_of_nat unsigned_ucast_eq take_bit_nat_eq_self drop_bit_eq_div)
  then show ?case using Cons by (simp add: al_eth_fwd_priority_table_set_def AL_ETH_FWD_PRIO_TABLE_NUM_def)
qed simp

lemma hash_key_loop_eq:
  "i + length ks \<le> 10 \<Longrightarrow> hash_key_loop ec i ks m = Some (fold (\<lambda>(i, k) m. al_reg_write32 m (rfw_hash_key ec i) (htonl k)) (zip [i..<i + length ks] ks) m)"
proof (induction ks arbitrary: i m)
  case (Cons k ks)
  have "(of_nat i :: u32) < 10" "unat (of_nat i :: u32) = i" using small_of_nat(1) [of i] small_of_nat(2) [of i 10] Cons.prems by simp_all
  moreover have "[i..<i + length (k # ks)] = i # [Suc i..<Suc i + length ks]" by (simp add: upt_rec)
  ultimately show ?case using Cons by (simp add: al_eth_hash_key_set_def AL_ETH_RX_HASH_KEY_NUM_def)
qed simp

subsection \<open>The initial configuration\<close>

lemma fold_view: "(\<And>x m. V (g x m) = V m) \<Longrightarrow> V (fold g xs m) = V m"
  by (induction xs arbitrary: m) simp_all

lemma mac_table_below: "a < ec + 0x868 \<Longrightarrow> mac_table ec (al_reg_write32 m a v) = mac_table ec m"
  by (simp add: mac_table_def read_after_write fwd_mac_reg_def fun_eq_iff)

lemma mac_table_other:
  assumes "a < 0x100" "d < 0x100"
  shows "mac_table ec (table_writes ec a d xs m) = mac_table ec m"
  by (rule fold_view) (use assms in \<open>auto simp: table_write_def mac_table_below rfw_reg_def\<close>)

lemma mac_table_keys:
  assumes "n \<le> 10"
  shows "mac_table ec (fold (\<lambda>(i, k) m. al_reg_write32 m (rfw_hash_key ec i) (htonl k)) (zip [0..<n] ks) m) = mac_table ec m"
proof -
  have "mac_table ec (fold (\<lambda>(i, k) m. al_reg_write32 m (rfw_hash_key ec i) (htonl k)) xs m) = mac_table ec m" if "\<forall>(i, k) \<in> set xs. i < 10" for xs
    using that by (induction xs arbitrary: m) (auto simp: mac_table_below rfw_hash_key_def)
  moreover have "\<forall>(i, k) \<in> set (zip [0..<n] ks). i < 10" using assms by (auto dest: set_zip_leftD)
  ultimately show ?thesis by blast
qed

lemma mac_table_prio:
  "\<forall>i \<in> set is. i < 8 \<Longrightarrow> mac_table ec (fold (\<lambda>i m. al_reg_write32 m (rfw_priority_queue ec i) (of_nat (i div 2))) is m) = mac_table ec m"
  by (induction "is" arbitrary: m) (auto simp: mac_table_below rfw_priority_queue_def)

lemma table_lookup:
  assumes "length vs = n" "n \<le> 2048" "i < n"
  shows "map_of (zip (map of_nat [0..<n]) vs) (of_nat i :: u32) = Some (vs ! i)"
proof -
  have inj: "inj_on (of_nat :: nat \<Rightarrow> u32) {0..<n}"
    using assms(2) by (auto intro!: inj_onI dest!: arg_cong [of _ _ unat] simp: small_of_nat)
  have "distinct (map of_nat [0..<n] :: u32 list)" using inj by (simp add: distinct_map)
  then have "map_of (zip (map of_nat [0..<n]) vs) (map of_nat [0..<n] ! i :: u32) = Some (vs ! i)"
    using assms by (intro map_of_zip_nth) simp_all
  then show ?thesis using assms(3) by simp
qed

lemma distinct_indices: "n \<le> 2048 \<Longrightarrow> distinct (map of_nat [0..<n] :: u32 list)"
  by (auto simp: distinct_map intro!: inj_onI dest!: arg_cong [of _ _ unat] simp: small_of_nat)

lemma thash_loop_table:
  assumes "length xs = 256"
  obtains m' where "thash_loop ad 0 xs m = Some m'" "mac_table (fwd_ec ad) m' = mac_table (fwd_ec ad) m"
    "\<And>t i. i < 256 \<Longrightarrow> table_contents (rfw_reg (fwd_ec ad) thash_table_addr) (rfw_reg (fwd_ec ad) thash_table_data) t m' (of_nat i) = thash_entry ad (xs ! i)"
proof (rule that)
  show "thash_loop ad 0 xs m = Some (table_writes (fwd_ec ad) thash_table_addr thash_table_data (zip (map of_nat [0..<256]) (map (thash_entry ad) xs)) m)"
    using thash_loop_eq [of 0 xs ad m] assms by simp
  show "mac_table (fwd_ec ad) (table_writes (fwd_ec ad) thash_table_addr thash_table_data (zip (map of_nat [0..<256]) (map (thash_entry ad) xs)) m) =
      mac_table (fwd_ec ad) m" by (rule mac_table_other) simp_all
  fix t and i :: nat assume i: "i < 256"
  have "map_of (zip (map of_nat [0..<256]) (map (thash_entry ad) xs)) (of_nat i :: u32) = Some (map (thash_entry ad) xs ! i)"
    using i assms by (intro table_lookup) simp_all
  then show "table_contents (rfw_reg (fwd_ec ad) thash_table_addr) (rfw_reg (fwd_ec ad) thash_table_data) t
      (table_writes (fwd_ec ad) thash_table_addr thash_table_data (zip (map of_nat [0..<256]) (map (thash_entry ad) xs)) m) (of_nat i) = thash_entry ad (xs ! i)"
    using thash.contents_puts [of "map of_nat [0..<256]" "map (thash_entry ad) xs" "fwd_ec ad" t m, OF distinct_indices] assms i
    by (simp add: table_write_def)
qed

lemma rfw_reg_eq: "rfw_reg ec a = rfw_reg ec b \<longleftrightarrow> a = b"
  by (simp add: rfw_reg_def)

lemma fsm_init_table:
  obtains m' where "al_eth_fsm_table_init ad m = Some m'" "mac_table (fwd_ec ad) m' = mac_table (fwd_ec ad) m"
    "\<And>t i. i < 128 \<Longrightarrow> table_contents (rfw_reg (fwd_ec ad) fsm_table_addr) (rfw_reg (fwd_ec ad) fsm_table_data) t m' (of_nat i) = fsm_entry ad i"
    "\<And>t. table_contents (rfw_reg (fwd_ec ad) thash_table_addr) (rfw_reg (fwd_ec ad) thash_table_data) t m' =
      table_contents (rfw_reg (fwd_ec ad) thash_table_addr) (rfw_reg (fwd_ec ad) thash_table_data) t m"
proof (rule that)
  let ?xs = "zip (map of_nat [0..<128]) (map (fsm_entry ad) [0..<128]) :: (u32 \<times> u32) list"
  show "al_eth_fsm_table_init ad m = Some (table_writes (fwd_ec ad) fsm_table_addr fsm_table_data ?xs m)"
    using fsm_loop_eq [of "[0..<128]" ad m] by (simp add: al_eth_fsm_table_init_def AL_ETH_RX_FSM_TABLE_SIZE_def)
  show "mac_table (fwd_ec ad) (table_writes (fwd_ec ad) fsm_table_addr fsm_table_data ?xs m) = mac_table (fwd_ec ad) m" by (rule mac_table_other) simp_all
  show "table_contents (rfw_reg (fwd_ec ad) thash_table_addr) (rfw_reg (fwd_ec ad) thash_table_data) t (table_writes (fwd_ec ad) fsm_table_addr fsm_table_data ?xs m) =
      table_contents (rfw_reg (fwd_ec ad) thash_table_addr) (rfw_reg (fwd_ec ad) thash_table_data) t m" for t
    by (rule fold_view) (auto simp: table_write_def thash.contents_other rfw_reg_eq)
  fix t and i :: nat assume i: "i < 128"
  have "map_of ?xs (of_nat i :: u32) = Some (map (fsm_entry ad) [0..<128] ! i)" using i by (intro table_lookup) simp_all
  then show "table_contents (rfw_reg (fwd_ec ad) fsm_table_addr) (rfw_reg (fwd_ec ad) fsm_table_data) t (table_writes (fwd_ec ad) fsm_table_addr fsm_table_data ?xs m) (of_nat i) =
      fsm_entry ad i"
    using fsm.contents_puts [of "map of_nat [0..<128]" "map (fsm_entry ad) [0..<128]" "fwd_ec ad" t m, OF distinct_indices] i by (simp add: table_write_def)
qed

lemma config_rx_fwd_ok:
  assumes "length (rss_ind_tbl ad) = 256"
  obtains m' where "al_eth_config_rx_fwd hdr key ad m = Some m'"
    "mac_table (fwd_ec ad) m' = (mac_table (fwd_ec ad) m)(0 := uc_slot (udma_bit ad) (fwd_mac_addr ad), 30 := uc_slot (udma_bit ad) (replicate 6 0xff),
       31 := catch_slot (udma_bit ad) False)"
    "\<And>t i. i < 256 \<Longrightarrow> table_contents (rfw_reg (fwd_ec ad) thash_table_addr) (rfw_reg (fwd_ec ad) thash_table_data) t m' (of_nat i) = thash_entry ad (ucast (rss_ind_tbl ad ! i))"
    "\<And>t i. i < 128 \<Longrightarrow> table_contents (rfw_reg (fwd_ec ad) fsm_table_addr) (rfw_reg (fwd_ec ad) fsm_table_data) t m' (of_nat i) = fsm_entry ad i"
proof -
  let ?T = "mac_table (fwd_ec ad)" and ?u = "udma_bit ad"
  obtain m1 where m1: "pbits_loop (fwd_ec ad) [0..<8] m = Some m1" "?T m1 = ?T m" using pbits_loop_eq [of "[0..<8]"] mac_table_other by simp
  obtain m2 where m2: "priority_loop (fwd_ec ad) [0..<8] m1 = Some m2" "?T m2 = ?T m1" using priority_loop_eq [of "[0..<8]"] mac_table_prio [of "[0..<8]"] by simp
  define m3 where "m3 = al_eth_ctrl_table_def_set (fwd_ec ad) False
      \<lparr>prio_sel = 12, queue_sel_1 = 1, queue_sel_2 = 3, udma_sel = 4, hdr_split_len_sel = hdr, ce_filter = False\<rparr> m2"
  have m3: "?T m3 = ?T m2" by (simp add: m3_def al_eth_ctrl_table_def_set_def Let_def mac_table_below rfw_reg_def)
  obtain m4 where m4: "al_eth_mac_table_unicast_add ad 0 (fwd_mac_addr ad) ?u m3 = Some m4" "?T m4 = (?T m3)(0 := uc_slot ?u (fwd_mac_addr ad))"
    using driver_sets(1) [of 0 ad "fwd_mac_addr ad" ?u m3] by auto
  obtain m5 where m5: "al_eth_mac_table_broadcast_add ad 30 ?u m4 = Some m5" "?T m5 = (?T m4)(30 := uc_slot ?u (replicate 6 0xff))"
    using driver_sets(2) [of 30 ad ?u m4] by auto
  obtain m6 where m6: "al_eth_mac_table_promiscuous_set ad False ?u m5 = Some m6" "?T m6 = (?T m5)(31 := catch_slot ?u False)"
    using driver_sets(5) [of 0 ad False ?u m5] by auto
  obtain m7 where m7: "hash_key_loop (fwd_ec ad) 0 (take 10 key) m6 = Some m7" "?T m7 = ?T m6"
    using hash_key_loop_eq [of 0 "take 10 key" "fwd_ec ad" m6] mac_table_keys [of "length (take 10 key)" "fwd_ec ad" "take 10 key" m6] by simp
  obtain m8 where m8: "thash_loop ad 0 (map ucast (rss_ind_tbl ad)) m7 = Some m8" "?T m8 = ?T m7"
    "\<And>t i. i < 256 \<Longrightarrow> table_contents (rfw_reg (fwd_ec ad) thash_table_addr) (rfw_reg (fwd_ec ad) thash_table_data) t m8 (of_nat i) = thash_entry ad (map ucast (rss_ind_tbl ad) ! i)"
    using thash_loop_table [of "map ucast (rss_ind_tbl ad)" ad m7] assms by auto
  obtain m9 where m9: "al_eth_fsm_table_init ad m8 = Some m9" "?T m9 = ?T m8"
    "\<And>t i. i < 128 \<Longrightarrow> table_contents (rfw_reg (fwd_ec ad) fsm_table_addr) (rfw_reg (fwd_ec ad) fsm_table_data) t m9 (of_nat i) = fsm_entry ad i"
    "\<And>t. table_contents (rfw_reg (fwd_ec ad) thash_table_addr) (rfw_reg (fwd_ec ad) thash_table_data) t m9 =
      table_contents (rfw_reg (fwd_ec ad) thash_table_addr) (rfw_reg (fwd_ec ad) thash_table_data) t m8"
    using fsm_init_table by blast
  have c: "unat AL_ETH_FWD_PBITS_TABLE_NUM = 8" "unat AL_ETH_FWD_PRIO_TABLE_NUM = 8" "AL_ETH_MAC_TABLE_UNICAST_IDX_BASE = 0" "AL_ETH_MAC_TABLE_BROADCAST_IDX = 30"
    "unat AL_ETH_RX_HASH_KEY_NUM = 10" "unat AL_ETH_RX_THASH_TABLE_SIZE = 256"
    by (simp_all add: AL_ETH_FWD_PBITS_TABLE_NUM_def AL_ETH_FWD_PRIO_TABLE_NUM_def AL_ETH_MAC_TABLE_UNICAST_IDX_BASE_def AL_ETH_MAC_TABLE_BROADCAST_IDX_def
        AL_ETH_MAC_TABLE_DROP_IDX_def AL_ETH_FWD_MAC_NUM_def AL_ETH_RX_HASH_KEY_NUM_def AL_ETH_RX_THASH_TABLE_SIZE_def)
  show thesis
  proof (rule that)
    have "take 256 (rss_ind_tbl ad) = rss_ind_tbl ad" using assms by simp
    then show "al_eth_config_rx_fwd hdr key ad m = Some m9"
      using m1(1) m2(1) m4(1) m5(1) m6(1) m7(1) m8(1) m9(1) by (simp add: al_eth_config_rx_fwd_def c m3_def [symmetric] Let_def)
  qed (use m1(2) m2(2) m3 m4(2) m5(2) m6(2) m7(2) m8(2,3) m9(2-) assms in simp_all)
qed

lemma ctrl_loop_eq:
  "ctrl_table_loop ec index val is m = table_writes ec ctrl_table_addr ctrl_table_data
    (map (\<lambda>i. (of_nat i, val)) (filter (\<lambda>i. al_eth_ctrl_index_match index (of_nat i)) is)) m"
  by (induction "is" arbitrary: m) simp_all

lemma udma_field_bit:
  assumes "fwd_udma_num ad < 4"
  shows "udma_field (udma_bit ad) = push_bit (fwd_udma_num ad) 1"
proof -
  have "fwd_udma_num ad = 0 \<or> fwd_udma_num ad = 1 \<or> fwd_udma_num ad = 2 \<or> fwd_udma_num ad = 3" using assms by linarith
  then show ?thesis by (auto simp: udma_bit_def push_bit_eq_mult take_bit_eq_mod unsigned_ucast_eq)
qed

subsection \<open>Properties\<close>

text \<open>The filter that the initial configuration sets up.\<close>

definition initial_filter :: "fwd_adapter \<Rightarrow> rx_filter" where
  "initial_filter ad = \<lparr>f_own = fwd_mac_addr ad, f_extra = (\<lambda>_. None), f_group = NoGroup, f_open = False\<rparr>"

definition fwd_ready :: "fwd_adapter \<Rightarrow> mmio \<Rightarrow> bool" where
  "fwd_ready ad m \<longleftrightarrow> length (fwd_mac_addr ad) = 6 \<and> length (rss_ind_tbl ad) = 256 \<and> fwd_udma_num ad < 4 \<and>
     (\<forall>i \<in> set [1..<30]. \<not> slot_valid (mac_table (fwd_ec ad) m i))"

lemma initial_filter_ok:
  assumes "fwd_ready ad m"
  obtains m1 where "al_eth_config_rx_fwd hdr key ad m = Some m1" "filter_ok (udma_bit ad) (initial_filter ad) (mac_table (fwd_ec ad) m1)"
proof -
  have len: "length (rss_ind_tbl ad) = 256" using assms by (simp add: fwd_ready_def)
  obtain m1 where m1: "al_eth_config_rx_fwd hdr key ad m = Some m1"
    "mac_table (fwd_ec ad) m1 = (mac_table (fwd_ec ad) m)(0 := uc_slot (udma_bit ad) (fwd_mac_addr ad), 30 := uc_slot (udma_bit ad) (replicate 6 0xff),
       31 := catch_slot (udma_bit ad) False)"
    by (rule config_rx_fwd_ok [OF len, of hdr key m]) (rule that; assumption)
  have "filter_ok (udma_bit ad) (initial_filter ad) (mac_table (fwd_ec ad) m1)"
    unfolding m1(2) by (rule filter_okI) (use assms in \<open>simp_all add: initial_filter_def fwd_ready_def\<close>)
  then show thesis using m1(1) that by blast
qed

lemma run_decision:
  assumes "fwd_ready ad m" "list_all op_ok ops"
  obtains m1 ad' m' where "al_eth_config_rx_fwd hdr key ad m = Some m1" "fwd_run ops (ad, m1) = Some (ad', m')"
    "\<forall>da. length da = 6 \<longrightarrow> mac_decision (fwd_ec ad) m' da =
      (if filter_accepts (fold filter_step ops (initial_filter ad)) da then Some (push_bit (fwd_udma_num ad) 1) else None)"
proof -
  obtain m1 where m1: "al_eth_config_rx_fwd hdr key ad m = Some m1" "filter_ok (udma_bit ad) (initial_filter ad) (mac_table (fwd_ec ad) m1)"
    using initial_filter_ok [OF assms(1)] by blast
  have "f_own (initial_filter ad) = fwd_mac_addr ad" by (simp add: initial_filter_def)
  then obtain ad' m' where r: "fwd_run ops (ad, m1) = Some (ad', m')"
    "filter_ok (udma_bit ad) (fold filter_step ops (initial_filter ad)) (mac_table (fwd_ec ad) m')"
    using fwd_run_ok [OF m1(2) _ assms(2)] by blast
  have "fwd_udma_num ad < 4" using assms(1) by (simp add: fwd_ready_def)
  then have "\<forall>da. length da = 6 \<longrightarrow> mac_decision (fwd_ec ad) m' da =
      (if filter_accepts (fold filter_step ops (initial_filter ad)) da then Some (push_bit (fwd_udma_num ad) 1) else None)"
    using filter_decision [OF r(2)] udma_field_bit [of ad] by (simp add: mac_decision_def)
  then show thesis using that m1(1) r(1) by blast
qed

text \<open>
  C8: The table of hardware addresses refines the receive filter.  After the initial configuration of the forwarding tables on a controller whose
  entries 1 to 29 are not valid, any sequence of address changes (\<open>al_eth_set_mac_addr\<close>, addresses of six bytes) and mode changes
  (\<open>al_eth_set_rx_mode\<close>) runs to its end, and the hardware's decision for every destination address is that of the abstract filter after the same
  requests: accepted packets go to the UDMA of the interface, all others are dropped.
\<close>

theorem rx_filter_refines:
  assumes "fwd_ready ad m" "list_all op_ok ops"
  shows "\<exists>m1 ad' m'. al_eth_config_rx_fwd hdr key ad m = Some m1 \<and> fwd_run ops (ad, m1) = Some (ad', m') \<and>
    (\<forall>da. length da = 6 \<longrightarrow> mac_decision (fwd_ec ad) m' da =
      (if filter_accepts (fold filter_step ops (initial_filter ad)) da then Some (push_bit (fwd_udma_num ad) 1) else None))"
  by (rule run_decision [OF assms, of hdr key]) blast

definition demo_fwd :: fwd_adapter where
  "demo_fwd = \<lparr>fwd_ec = 0, fwd_mac_addr = [2, 0, 0, 0, 0, 1], fwd_udma_num = 1, rss_ind_tbl = replicate 256 3\<rparr>"

definition demo_mode :: "u8 list list \<Rightarrow> rx_mode" where
  "demo_mode us = \<lparr>IFF_PROMISC = False, IFF_ALLMULTI = True, netdev_mc_empty = True, netdev_uc = us\<rparr>"

lemma demo_fwd_ready: "fwd_ready demo_fwd \<lparr>regs = \<lambda>_. 0, wlog = []\<rparr>"
  by (simp add: fwd_ready_def demo_fwd_def slot_valid_def mac_table_def al_reg_read32_def)

theorem rx_filter_refines_witness:
  "\<exists>m1 ad' m'. al_eth_config_rx_fwd 0 [] demo_fwd \<lparr>regs = \<lambda>_. 0, wlog = []\<rparr> = Some m1 \<and>
    fwd_run [SetMac [2, 0, 0, 0, 0, 7], SetMode (demo_mode [])] (demo_fwd, m1) = Some (ad', m') \<and>
    mac_decision 0 m' [2, 0, 0, 0, 0, 7] = Some 2 \<and> mac_decision 0 m' [1, 0, 0x5e, 0, 0, 9] = Some 2 \<and> mac_decision 0 m' [2, 0, 0, 0, 0, 1] = None"
proof -
  have ops: "list_all op_ok [SetMac [2, 0, 0, 0, 0, 7], SetMode (demo_mode [])]" by (simp add: op_ok_def)
  obtain m1 ad' m' where r: "al_eth_config_rx_fwd 0 [] demo_fwd \<lparr>regs = \<lambda>_. 0, wlog = []\<rparr> = Some m1"
    "fwd_run [SetMac [2, 0, 0, 0, 0, 7], SetMode (demo_mode [])] (demo_fwd, m1) = Some (ad', m')"
    and d: "\<forall>da. length da = 6 \<longrightarrow> mac_decision (fwd_ec demo_fwd) m' da =
      (if filter_accepts (fold filter_step [SetMac [2, 0, 0, 0, 0, 7], SetMode (demo_mode [])] (initial_filter demo_fwd)) da
       then Some (push_bit (fwd_udma_num demo_fwd) 1) else None)"
    using rx_filter_refines [OF demo_fwd_ready ops, of 0 "[]"] by blast
  have f: "fold filter_step [SetMac [2, 0, 0, 0, 0, 7], SetMode (demo_mode [])] (initial_filter demo_fwd) =
      \<lparr>f_own = [2, 0, 0, 0, 0, 7], f_extra = (\<lambda>_. None), f_group = AllGroups, f_open = False\<rparr>"
    by (simp add: is_valid_ether_addr_def mode_step_def initial_filter_def demo_mode_def replicate6)
  have "mac_decision 0 m' [2, 0, 0, 0, 0, 7] = Some 2" "mac_decision 0 m' [1, 0, 0x5e, 0, 0, 9] = Some 2" "mac_decision 0 m' [2, 0, 0, 0, 0, 1] = None"
    using d [THEN spec, of "[2, 0, 0, 0, 0, 7]"] d [THEN spec, of "[1, 0, 0x5e, 0, 0, 9]"] d [THEN spec, of "[2, 0, 0, 0, 0, 1]"] unfolding f
    by (simp_all add: filter_accepts_def demo_fwd_def replicate6)
  then show ?thesis using r by blast
qed

text \<open>
  C40: The lists of additional addresses are not honoured.  After the initial configuration and one mode change with a non-empty list of at most four
  additional unicast addresses (and no promiscuous mode) every unicast address of the list other than the own address is dropped; with four addresses
  the entry for group addresses is lost as well, so that every group address but the broadcast address is dropped even though all of them were
  requested.  And after the address was changed and the list emptied, the old address is still accepted.
\<close>

theorem rx_mode_lists_not_honoured:
  assumes "fwd_ready ad m" "\<not> IFF_PROMISC mode" "netdev_uc mode \<noteq> []" "length (netdev_uc mode) \<le> 4" "is_valid_ether_addr b" "length b = 6"
    "\<not> IFF_PROMISC mode0" "netdev_uc mode0 = []"
  shows "\<exists>m1 m2 ad' m'. al_eth_config_rx_fwd hdr key ad m = Some m1 \<and> al_eth_set_rx_mode mode ad m1 = Some m2 \<and>
    (\<forall>da. length da = 6 \<and> da \<in> set (netdev_uc mode) \<and> \<not> bit (da ! 0) 0 \<and> da \<noteq> fwd_mac_addr ad \<longrightarrow> mac_decision (fwd_ec ad) m2 da = None) \<and>
    (\<forall>da. length da = 6 \<and> length (netdev_uc mode) = 4 \<and> da \<noteq> fwd_mac_addr ad \<and> da \<noteq> replicate 6 0xff \<longrightarrow> mac_decision (fwd_ec ad) m2 da = None) \<and>
    fwd_run [SetMac b, SetMode mode0] (ad, m2) = Some (ad', m') \<and> fwd_mac_addr ad' = b \<and>
    mac_decision (fwd_ec ad) m' (fwd_mac_addr ad) = Some (push_bit (fwd_udma_num ad) 1)"
proof -
  let ?ops = "[SetMode mode]" and ?ops' = "[SetMode mode, SetMac b, SetMode mode0]"
  let ?n = "length (netdev_uc mode)" and ?f = "mode_step mode (initial_filter ad)"
  have own: "length (fwd_mac_addr ad) = 6" using assms(1) by (simp add: fwd_ready_def)
  have ok: "list_all op_ok ?ops" "list_all op_ok ?ops'" using assms(6) by (simp_all add: op_ok_def)
  obtain m1 m2 where r: "al_eth_config_rx_fwd hdr key ad m = Some m1" "al_eth_set_rx_mode mode ad m1 = Some m2"
    "\<forall>da. length da = 6 \<longrightarrow> mac_decision (fwd_ec ad) m2 da = (if filter_accepts ?f da then Some (push_bit (fwd_udma_num ad) 1) else None)"
    by (rule run_decision [OF assms(1) ok(1), of hdr key]) (auto split: bind_splits)
  obtain ad' m' where r': "fwd_run [SetMac b, SetMode mode0] (ad, m2) = Some (ad', m')"
    "\<forall>da. length da = 6 \<longrightarrow> mac_decision (fwd_ec ad) m' da =
      (if filter_accepts (fold filter_step ?ops' (initial_filter ad)) da then Some (push_bit (fwd_udma_num ad) 1) else None)"
    by (rule run_decision [OF assms(1) ok(2), of hdr key]) (use r(1,2) in auto)
  have f: "f_own ?f = fwd_mac_addr ad" "\<not> f_open ?f" "f_extra ?f = (\<lambda>i. if i \<le> ?n then Some (fwd_mac_addr ad) else None)"
    "?n = 4 \<Longrightarrow> f_group ?f = OnlyAddr (fwd_mac_addr ad)" "\<And>da. f_group ?f = OnlyAddr da \<Longrightarrow> da = fwd_mac_addr ad"
    using assms(2-4) by (auto simp: mode_step_def initial_filter_def Let_def split: if_splits)
  have drops: "\<not> filter_accepts ?f da" if "da \<noteq> fwd_mac_addr ad" "da \<noteq> replicate 6 0xff" "\<not> bit (da ! 0) 0 \<or> ?n = 4" for da
    using that f by (auto simp: filter_accepts_def split: if_splits)
  have "\<not> bit (da ! 0) 0 \<Longrightarrow> da \<noteq> replicate 6 0xff" for da :: "u8 list" by auto
  moreover have "filter_accepts (fold filter_step ?ops' (initial_filter ad)) (fwd_mac_addr ad)"
    using f assms(3,5,7,8) by (auto simp: filter_accepts_def mode_step_def [of mode0] Let_def Suc_le_eq)
  moreover have "fwd_mac_addr ad' = b"
    using r'(1) assms(5) by (auto simp: al_eth_set_mac_addr_def Let_def split: bind_splits)
  ultimately show ?thesis using r r' drops own by (intro exI [of _ m1] exI [of _ m2] exI [of _ ad'] exI [of _ m'] conjI allI impI) auto
qed

theorem rx_mode_lists_not_honoured_witness:
  "\<exists>m1 m2. al_eth_config_rx_fwd 0 [] demo_fwd \<lparr>regs = \<lambda>_. 0, wlog = []\<rparr> = Some m1 \<and>
    al_eth_set_rx_mode (demo_mode (replicate 4 [2, 0, 0, 0, 0, 9])) demo_fwd m1 = Some m2 \<and>
    mac_decision 0 m2 [2, 0, 0, 0, 0, 9] = None \<and> mac_decision 0 m2 [1, 0, 0x5e, 0, 0, 9] = None"
  using rx_mode_lists_not_honoured [OF demo_fwd_ready, of "demo_mode (replicate 4 [2, 0, 0, 0, 0, 9])" "[2, 0, 0, 0, 0, 7]" "demo_mode []" 0 "[]"]
  by (auto simp: demo_mode_def demo_fwd_def is_valid_ether_addr_def replicate6)

lemma map_of_constant: "map_of (zip xs (replicate (length xs) v)) x = (if x \<in> set xs then Some v else None)"
  by (induction xs) auto

text \<open>Setting the control table changes the entries that the index selects and no other.\<close>

lemma ctrl_table_set_selects:
  assumes "i < 2048"
  shows "table_contents (rfw_reg ec ctrl_table_addr) (rfw_reg ec ctrl_table_data) t (al_eth_ctrl_table_set ec index entry m) (of_nat i) =
    (if al_eth_ctrl_index_match index (of_nat i) then al_eth_fwd_ctrl_entry_to_val entry
     else table_contents (rfw_reg ec ctrl_table_addr) (rfw_reg ec ctrl_table_data) t m (of_nat i))"
proof -
  let ?is = "map of_nat (filter (\<lambda>i. al_eth_ctrl_index_match index (of_nat i)) [0..<2048]) :: u32 list" and ?v = "al_eth_fwd_ctrl_entry_to_val entry"
  have inj: "inj_on (of_nat :: nat \<Rightarrow> u32) {0..<2048}" using distinct_indices [of 2048] by (simp add: distinct_map)
  have dist: "distinct ?is" by (auto simp: distinct_map intro: inj_on_subset [OF inj])
  have z: "map (\<lambda>i. (of_nat i :: u32, ?v)) xs = zip (map of_nat xs) (replicate (length xs) ?v)" for xs by (induction xs) simp_all
  have "al_eth_ctrl_table_set ec index entry m = table_writes ec ctrl_table_addr ctrl_table_data (zip ?is (replicate (length ?is) ?v)) m"
    by (simp add: al_eth_ctrl_table_set_def AL_ETH_RX_CTRL_TABLE_SIZE_def ctrl_loop_eq z)
  moreover have "map_of (zip ?is (replicate (length ?is) ?v)) x = (if x \<in> set ?is then Some ?v else None)" for x
    by (rule map_of_constant)
  moreover have "of_nat i \<in> set ?is \<longleftrightarrow> al_eth_ctrl_index_match index (of_nat i)" using assms by auto
  ultimately show ?thesis
    using ctrl.contents_puts [OF dist, of "replicate (length ?is) ?v" ec t m] by (simp add: table_write_def)
qed

lemma thash_entry_fields:
  assumes "fwd_udma_num ad < 4"
  shows "take_bit 4 (thash_entry ad q) = of_nat (fwd_udma_num ad)" "take_bit 2 (drop_bit 4 (thash_entry ad q)) = take_bit 2 q"
proof -
  have masks: "AL_ETH_THASH_UDMA_MASK = mask 4" "AL_ETH_THASH_Q_MASK = push_bit 4 (mask 2)"
    by (simp_all add: AL_ETH_THASH_UDMA_MASK_def AL_ETH_THASH_Q_MASK_def mask_eq_exp_minus_1)
  have "push_bit 4 q AND push_bit 4 (mask 2) = push_bit 4 (take_bit 2 q)" by (simp add: take_bit_eq_mask push_bit_and)
  then have e: "thash_entry ad q = take_bit 4 (ucast (of_nat (fwd_udma_num ad) :: u8)) OR push_bit 4 (take_bit 2 q)"
    unfolding thash_entry_def masks by (simp add: take_bit_eq_mask)
  have d: "take_bit 2 (drop_bit 4 (push_bit 4 (take_bit 2 q))) = take_bit 2 q" by (rule bit_word_eqI) (auto simp: bit_simps)
  have "fwd_udma_num ad = 0 \<or> fwd_udma_num ad = 1 \<or> fwd_udma_num ad = 2 \<or> fwd_udma_num ad = 3" using assms by linarith
  then show "take_bit 4 (thash_entry ad q) = of_nat (fwd_udma_num ad)" "take_bit 2 (drop_bit 4 (thash_entry ad q)) = take_bit 2 q"
    unfolding e by (auto simp: take_bit_push_bit drop_bit_take_bit d)
qed

text \<open>The queue and the UDMA of an entry of the hash table in the hardware, whose contents before the logged writes are \<open>t\<close>.\<close>

definition rss_entry :: "ptr \<Rightarrow> (u32 \<Rightarrow> u32) \<Rightarrow> mmio \<Rightarrow> nat \<Rightarrow> u32 \<times> u32" where
  "rss_entry ec t m i = (let e = table_contents (rfw_reg ec thash_table_addr) (rfw_reg ec thash_table_data) t m (of_nat i)
     in (take_bit 4 e, take_bit 2 (drop_bit 4 e)))"

text \<open>
  C39: The indirection table.  A table of 256 queues that is set with \<open>al_eth_set_rxfh\<close> is the one that \<open>al_eth_get_rxfh\<close> returns, up to the byte that the
  driver keeps of each; every entry of the hardware table then has the UDMA of the interface and the two low bits of the queue, and it has them again
  when the forwarding tables are configured anew, whatever the hardware table held before.
\<close>

theorem rss_table_roundtrip:
  assumes "length tab = 256" "fwd_udma_num ad < 4"
  shows "\<exists>ad' m' m1. al_eth_set_rxfh (Some tab) (ad, m) = Some (ad', m') \<and> al_eth_get_rxfh ad' = map (take_bit 8) tab \<and>
    al_eth_config_rx_fwd hdr key ad' m0 = Some m1 \<and>
    (\<forall>t. \<forall>i<256. rss_entry (fwd_ec ad) t m' i = (of_nat (fwd_udma_num ad), take_bit 2 (tab ! i)) \<and> rss_entry (fwd_ec ad) t m1 i = rss_entry (fwd_ec ad) t m' i)"
proof -
  let ?ad = "ad\<lparr>rss_ind_tbl := map ucast tab\<rparr>"
  obtain m' where m': "thash_loop ad 0 tab m = Some m'"
    "\<And>t i. i < 256 \<Longrightarrow> table_contents (rfw_reg (fwd_ec ad) thash_table_addr) (rfw_reg (fwd_ec ad) thash_table_data) t m' (of_nat i) = thash_entry ad (tab ! i)"
    by (rule thash_loop_table [OF assms(1), of ad m]) (rule that; assumption)
  have len: "length (rss_ind_tbl ?ad) = 256" using assms(1) by simp
  obtain m1 where m1: "al_eth_config_rx_fwd hdr key ?ad m0 = Some m1"
    "\<And>t i. i < 256 \<Longrightarrow> table_contents (rfw_reg (fwd_ec ?ad) thash_table_addr) (rfw_reg (fwd_ec ?ad) thash_table_data) t m1 (of_nat i) =
      thash_entry ?ad (ucast (rss_ind_tbl ?ad ! i))"
    by (rule config_rx_fwd_ok [OF len, of hdr key m0]) (rule that; assumption)
  have b: "ucast (ucast q :: u8) = take_bit 8 (q :: u32)" for q by (rule bit_word_eqI) (simp add: bit_simps)
  have "al_eth_set_rxfh (Some tab) (ad, m) = Some (?ad, m')" using m'(1) assms(1) by (simp add: al_eth_set_rxfh_def AL_ETH_RX_THASH_TABLE_SIZE_def)
  moreover have "al_eth_get_rxfh ?ad = map (take_bit 8) tab" using assms(1) b by (simp add: al_eth_get_rxfh_def AL_ETH_RX_THASH_TABLE_SIZE_def)
  moreover have "rss_entry (fwd_ec ad) t m' i = (of_nat (fwd_udma_num ad), take_bit 2 (tab ! i))" if "i < 256" for t i
    using m'(2) [OF that] thash_entry_fields [OF assms(2)] by (simp add: rss_entry_def)
  moreover have "rss_entry (fwd_ec ad) t m1 i = (of_nat (fwd_udma_num ad), take_bit 2 (tab ! i))" if "i < 256" for t i
    using m1(2) [OF that] thash_entry_fields [of ?ad] assms that b by (simp add: rss_entry_def)
  ultimately show ?thesis using m1(1) by (intro exI [of _ ?ad] exI [of _ m'] exI [of _ m1]) auto
qed

theorem rss_table_roundtrip_witness:
  "\<exists>ad' m'. al_eth_set_rxfh (Some (map of_nat [0..<256])) (demo_fwd, \<lparr>regs = \<lambda>_. 0, wlog = []\<rparr>) = Some (ad', m') \<and>
    al_eth_get_rxfh ad' = map (take_bit 8) (map of_nat [0..<256]) \<and> rss_entry 0 (\<lambda>_. 0) m' 6 = (1, 2)"
proof -
  obtain ad' m' where r: "al_eth_set_rxfh (Some (map of_nat [0..<256])) (demo_fwd, \<lparr>regs = \<lambda>_. 0, wlog = []\<rparr>) = Some (ad', m')"
    "al_eth_get_rxfh ad' = map (take_bit 8) (map of_nat [0..<256])"
    "\<forall>t. \<forall>i<256. rss_entry (fwd_ec demo_fwd) t m' i = (of_nat (fwd_udma_num demo_fwd), take_bit 2 (map of_nat [0..<256] ! i))"
    using rss_table_roundtrip [of "map of_nat [0..<256]" demo_fwd "\<lparr>regs = \<lambda>_. 0, wlog = []\<rparr>" 0 "[]" "\<lparr>regs = \<lambda>_. 0, wlog = []\<rparr>"]
    by (auto simp: demo_fwd_def simp del: map_map)
  have "rss_entry 0 (\<lambda>_. 0) m' 6 = (1, 2)" using r(3) [THEN spec, of "\<lambda>_. 0", THEN spec, of 6] by (simp add: demo_fwd_def)
  then show ?thesis using r(1,2) by blast
qed

end
