(* ===== verification/Spec2Isabelle.thy ===== *)
theory Spec2Isabelle
  imports Dma_Drv_Life Sgpo Pcie Rtl8370mb Eth_Rx_Props Eth_Tx_Res Eth_Fwd_Props
begin

text \<open>
  \<^bold>\<open>Verification of the Alpine V2 drivers\<close>

  The repository holds out-of-tree Linux drivers for the Annapurna Labs Alpine V2 system on chip.  The development
  models, from the C sources under \<open>src/modules\<close>, the descriptor-ring engine (UDMA) that all data-moving
  units share, the memory-to-memory DMA with the RAID unit and its dmaengine driver, the data path of the Ethernet unit and
  its network driver, and the small drivers for serial GPIO, PCIe and the Ethernet switch.

  \<^bold>\<open>The parts and how they interact\<close>

  A \<^emph>\<open>UDMA queue\<close> is a ring of 16-byte descriptors in memory with a submission index that software advances, a
  completion index that follows the engine, and a two-bit ring id that counts the laps.  Software takes descriptors
  (\<open>al_udma_desc_get\<close>), stamps them (\<open>al_udma_ring_id_get\<close>), announces them by a doorbell register
  (\<open>al_udma_desc_action_add\<close>), finds completions either by the head register (\<open>al_udma_cdesc_get_all\<close>) or by the ring id in
  the completion ring (\<open>al_udma_cdesc_packet_get\<close>), and returns them (\<open>al_udma_cdesc_ack\<close>).  The RAID HAL prepares
  transactions on a pair of such queues, and the dmaengine driver keeps a software ring of prepared operations
  over it.  The Ethernet HAL builds packets on a queue, and the network driver keeps a ring of socket buffers over it.

  \<^bold>\<open>Theories, sources and contents\<close>

  \<^item> \<open>Prelude\<close>: word types, error numbers, assertions as \<^typ>\<open>'a option\<close>, bounded polling, lemmas on words.
  \<^item> \<open>Reg_Utils\<close> (\<open>al_hal_reg_utils.h\<close>, \<open>al_hal_common.h\<close>): registers as a store with a log of the writes, bit-field macros;
    set/get round trip and independence of fields.
  \<^item> \<open>Udma_Regs\<close> (\<open>al_hal_udma_regs*.h\<close>): the register map, its field masks and shifts.
  \<^item> \<open>Ring_Spec\<close>: the contract of a bounded ring as the locale \<open>bounded_ring\<close>, with the lemmas its clients need.
  \<^item> \<open>Udma\<close> (\<open>al_hal_udma.h\<close>): queues and ring operations; the interpretation of \<open>bounded_ring\<close>, the refinement
    of a bounded FIFO queue, ring ids, completion counting.
  \<^item> \<open>Udma_Main\<close> (\<open>al_hal_udma_main.c\<close>): initialisation, reset, state, completion of packets.
  \<^item> \<open>Udma_Config\<close> (\<open>al_hal_udma_config.c\<close>): all configuration functions; round trips, ownership of the registers, Target-ID
    configuration, defects of two getters and setters.
  \<^item> \<open>Iofic\<close> (\<open>al_hal_iofic.c\<close>, \<open>al_hal_udma_iofic.c\<close>): the interrupt controllers of a UDMA over registers with side effects, while the
    hardware raises interrupts and sends messages between any two register accesses (the locale \<open>iofic_semantics\<close>); no interrupt is lost, the registers after configuration.
  \<^item> \<open>Desc_Ring\<close>: shared lemmas for clients of the rings: groups of descriptors written in consecutive slots, packets
    fetched and acknowledged.
  \<^item> \<open>Ssm_Dma\<close> (\<open>al_hal_ssm.c\<close>, \<open>al_hal_m2m_udma.c\<close>): the pair of engines of the memory-to-memory unit.
  \<^item> \<open>Gf_Tables\<close>, \<open>Raid\<close>, \<open>Raid_Props\<close> (\<open>al_hal_ssm_raid.c\<close>): the Galois field tables (equal to polynomial
    multiplication), RAID transactions, their descriptors, submission and completion.
  \<^item> \<open>Dma_Drv\<close>, \<open>Dma_Drv_Props\<close>, \<open>Dma_Drv_Life\<close> (\<open>al_dma_drv.c\<close>): the dmaengine driver with probe, channel
    allocation, preparation, submission, issue, clean-up, release and remove; its invariant over every interleaving of
    operations, the accounting of doorbells and memory, and its defects.
  \<^item> \<open>Sgpo\<close>, \<open>Pcie\<close>, \<open>Rtl8370mb\<close>: the serial GPIO driver, the PCIe host controllers, and the switch set-up over MDIO.
  \<^item> \<open>Eth_Hal\<close>, \<open>Eth_Hal_Props\<close> (\<open>al_hal_eth_main.c\<close>, \<open>al_hal_eth.h\<close>): packets, their transmit descriptors and metadata, receive buffers,
    received packets; exact contents of the descriptors and metadata, and of what a received packet reports.
  \<^item> \<open>Eth_Tso\<close> (\<open>al_eth_main.c\<close>): the segmentation fix finds a valid segment size.
  \<^item> \<open>Eth_Tx\<close>, \<open>Eth_Tx_Ring\<close>, \<open>Eth_Tx_Props\<close>, \<open>Eth_Tx_Res\<close> (\<open>al_eth_main.c\<close>, \<open>al_eth.h\<close>): the transmit path of the network driver; its ring
    of socket buffers as a queue of packets, every outcome of transmission and completion, the accounting of buffers, mappings and
    bytes over all interleavings, allocation and release of the queues, and the defects found on the error paths.
  \<^item> \<open>Eth_Moder\<close> (\<open>al_eth_main.c\<close>): interrupt mode, fixed and adaptive interrupt moderation; the interval stays in the range of its register and
    converges under a steady load, every outcome of a request by \<open>ethtool\<close>.
  \<^item> \<open>Eth_Rx\<close>, \<open>Eth_Rx_Ring\<close>, \<open>Eth_Rx_Props\<close> (\<open>al_eth_main.c\<close>, \<open>al_eth.h\<close>, \<open>kcompat.h\<close>): the receive path of the network driver; its slots as the buffers of the
    hardware ring, the accounting of mappings and pages over all histories, the contents of received packets with VLAN extraction, what a poll does, the
    shape of the ring, and a defect of the path without socket buffers.
  \<^item> \<open>Eth_Fwd\<close>, \<open>Eth_Fwd_Props\<close> (\<open>al_hal_eth_main.c\<close>, \<open>al_hal_eth_ec_regs.h\<close>, \<open>al_eth_main.c\<close>): the tables that forward received packets; the table of
    hardware addresses refines a receive filter under all address and mode changes, the indirection table of receive queues, and the lists of additional
    addresses that the driver does not honour.

  \<^bold>\<open>Conventions\<close>

  C integers keep their width as words; enumerations are datatypes, or numbers where the code computes with them.  A
  structure is a record; memory that software and the engine share is an explicit function from addresses to descriptors;
  registers are a store with a write log, so that the order and number of doorbells are observable.  Errors are values of
  \<^typ>\<open>rc\<close>.  \<open>al_assert\<close>, \<open>BUG\<close>, null pointers and accesses outside an array are the result \<^term>\<open>None\<close>; the theorems
  about an operation show a result \<^term>\<open>Some r\<close> and do not assume one.  What the code does not decide is an argument: the
  values of registers that the hardware changes, the answers of allocators and other kernel services, the MDIO bus.  The macros of the
  kernel headers that the code uses (\<open>PCIE_ECAM_OFFSET\<close>, \<open>DIV_ROUND_UP\<close>, \<open>ETH_ZLEN\<close>, \<open>MAX_SKB_FRAGS\<close>, \<open>is_valid_ether_addr\<close>) have their documented values.

  Loops over arrays are structural recursions.  Loops over the software rings of the dmaengine driver are bounded by the ring and
  are proved to return the whole result (\<open>issue_pending_announces_all\<close>); waiting loops poll at most the number of
  times that the code allows (\<open>AL_UDMA_Q_RST_TOUT\<close>; ten attempts of four bus operations for an SMI access), and both outcomes are
  characterised.  Completion loops end because each round consumes a descriptor of the ring or a socket buffer.

  \<^bold>\<open>Not modelled\<close>

  The debug and sysfs files only print.  The configuration of MACs, PCS, SerDes and link
  training are sequences of register writes whose meaning is in the analogue hardware and its documentation, which the
  repository does not contain.  The newer copy of the HAL under \<open>al_ssm\<close> repeats the one modelled here.  Locks, memory
  barriers and log messages have no effect in a sequential model; concurrency of the operations of a driver appears as the
  interleaving of whole operations, which the locks of the code provide; only the interrupt controller is interleaved with its hardware
  between single register accesses.
\<close>

end
